(* ===== verification/Prelude.thy ===== *)
theory Prelude
  imports Main
begin

text \<open>
  Shared vocabulary of the development: the effect type in which every server operation is
  written, the combinators of the generator style the code uses (\<open>Effect.gen\<close>,
  \<open>Effect.fail\<close>, \<open>Effect.tapError\<close>, \<open>Effect.catchAll\<close>), the falsy tests of the source
  language on nullable strings, JSON values, and the generic lemmas on them.
\<close>

named_theorems eff_defs \<open>unfolding of the effect combinators\<close>
named_theorems frame_simps \<open>what an operation leaves unchanged\<close>

section \<open>Effects\<close>

text \<open>
  An effect reads and changes a world and returns an error (\<open>Inl\<close>) or a value (\<open>Inr\<close>). The
  world is returned in both cases: statements already executed when an operation fails stay
  executed, unless a surrounding transaction rolls them back.
\<close>

type_synonym ('w, 'e, 'a) eff = "'w \<Rightarrow> ('e + 'a) \<times> 'w"

definition succeed :: "'a \<Rightarrow> ('w, 'e, 'a) eff" where
  "succeed x = (\<lambda>w. (Inr x, w))"

definition fail_with :: "'e \<Rightarrow> ('w, 'e, 'a) eff" where
  "fail_with e = (\<lambda>w. (Inl e, w))"

definition andThen :: "('w, 'e, 'a) eff \<Rightarrow> ('a \<Rightarrow> ('w, 'e, 'b) eff) \<Rightarrow> ('w, 'e, 'b) eff" where
  "andThen m f = (\<lambda>w. case m w of (Inl e, w') \<Rightarrow> (Inl e, w') | (Inr x, w') \<Rightarrow> f x w')"

definition followed_by :: "('w, 'e, 'a) eff \<Rightarrow> ('w, 'e, 'b) eff \<Rightarrow> ('w, 'e, 'b) eff" where
  "followed_by m k = andThen m (\<lambda>_. k)"

text \<open>\<open>tap_error\<close> runs a handler on the error and keeps the error; a handler that fails itself
  replaces the error. \<open>catch_all\<close> replaces the failed effect by the handler's.\<close>

definition tap_error :: "('w, 'e, 'a) eff \<Rightarrow> ('e \<Rightarrow> ('w, 'e, unit) eff) \<Rightarrow> ('w, 'e, 'a) eff" where
  "tap_error m h = (\<lambda>w. case m w of
      (Inl e, w') \<Rightarrow> (case h e w' of (Inl e', w'') \<Rightarrow> (Inl e', w'') | (Inr _, w'') \<Rightarrow> (Inl e, w''))
    | (Inr x, w') \<Rightarrow> (Inr x, w'))"

definition catch_all :: "('w, 'e, 'a) eff \<Rightarrow> ('e \<Rightarrow> ('w, 'e, 'a) eff) \<Rightarrow> ('w, 'e, 'a) eff" where
  "catch_all m h = (\<lambda>w. case m w of (Inl e, w') \<Rightarrow> h e w' | (Inr x, w') \<Rightarrow> (Inr x, w'))"

fun for_each :: "('a \<Rightarrow> ('w, 'e, unit) eff) \<Rightarrow> 'a list \<Rightarrow> ('w, 'e, unit) eff" where
  "for_each f [] = succeed ()"
| "for_each f (x # xs) = followed_by (f x) (for_each f xs)"

declare succeed_def [eff_defs] fail_with_def [eff_defs] andThen_def [eff_defs]
  followed_by_def [eff_defs] tap_error_def [eff_defs] catch_all_def [eff_defs]

lemma andThen_Inr:
  "andThen m f w = (Inr y, w'') \<longleftrightarrow> (\<exists>x w'. m w = (Inr x, w') \<and> f x w' = (Inr y, w''))"
  by (auto simp: andThen_def split: prod.splits sum.splits)

lemma andThen_Inl:
  "andThen m f w = (Inl e, w'') \<longleftrightarrow>
     m w = (Inl e, w'') \<or> (\<exists>x w'. m w = (Inr x, w') \<and> f x w' = (Inl e, w''))"
  by (auto simp: andThen_def split: prod.splits sum.splits)

lemma andThen_assoc: "andThen (andThen m f) g = andThen m (\<lambda>x. andThen (f x) g)"
  by (auto simp: andThen_def fun_eq_iff split: prod.splits sum.splits)

lemma andThen_succeed [simp]: "andThen (succeed x) f = f x" "andThen m succeed = m"
  by (auto simp: andThen_def succeed_def fun_eq_iff split: prod.splits sum.splits)

lemma andThen_fail [simp]: "andThen (fail_with e) f = fail_with e"
  by (simp add: andThen_def fail_with_def fun_eq_iff)

lemma outcome: "fst x = r \<Longrightarrow> x = (r, snd x)"
  by auto

text \<open>An effect that keeps a relation between the worlds before and after it.\<close>

definition keeps :: "('w \<Rightarrow> 'w \<Rightarrow> bool) \<Rightarrow> ('w, 'e, 'a) eff \<Rightarrow> bool" where
  "keeps R m \<longleftrightarrow> (\<forall>w. R w (snd (m w)))"

lemma keepsI: "(\<And>w. R w (snd (m w))) \<Longrightarrow> keeps R m"
  by (simp add: keeps_def)

lemma keepsD: "keeps R m \<Longrightarrow> m w = (r, w') \<Longrightarrow> R w w'"
  unfolding keeps_def by (metis snd_conv)

lemma keeps_succeed [simp, intro]: "reflp R \<Longrightarrow> keeps R (succeed x)"
  by (simp add: keeps_def succeed_def reflpD)

lemma keeps_fail [simp, intro]: "reflp R \<Longrightarrow> keeps R (fail_with e)"
  by (simp add: keeps_def fail_with_def reflpD)

lemma keeps_andThen:
  assumes "transp R" "keeps R m" "\<And>x. keeps R (f x)"
  shows "keeps R (andThen m f)"
proof (rule keepsI)
  fix w
  obtain r w1 where m: "m w = (r, w1)" by (cases "m w")
  with assms(2) have R1: "R w w1" by (rule keepsD)
  show "R w (snd (andThen m f w))"
  proof (cases r)
    case (Inl e)
    with m R1 show ?thesis by (simp add: andThen_def)
  next
    case (Inr x)
    have "R w1 (snd (f x w1))" using assms(3) by (simp add: keeps_def)
    with m R1 Inr assms(1) show ?thesis by (auto simp: andThen_def dest: transpD)
  qed
qed

lemma keeps_followed_by:
  "transp R \<Longrightarrow> keeps R m \<Longrightarrow> keeps R k \<Longrightarrow> keeps R (followed_by m k)"
  by (simp add: followed_by_def keeps_andThen)

lemma keeps_tap_error:
  assumes "transp R" "keeps R m" "\<And>e. keeps R (h e)"
  shows "keeps R (tap_error m h)"
proof (rule keepsI)
  fix w
  obtain r w1 where m: "m w = (r, w1)" by (cases "m w")
  with assms(2) have R1: "R w w1" by (rule keepsD)
  show "R w (snd (tap_error m h w))"
  proof (cases r)
    case (Inl e)
    have "R w1 (snd (h e w1))" using assms(3) by (simp add: keeps_def)
    with m R1 Inl assms(1) show ?thesis
      by (auto simp: tap_error_def split: prod.splits sum.splits dest: transpD)
  next
    case (Inr x)
    with m R1 show ?thesis by (simp add: tap_error_def)
  qed
qed

lemma keeps_for_each:
  "reflp R \<Longrightarrow> transp R \<Longrightarrow> (\<And>x. x \<in> set xs \<Longrightarrow> keeps R (f x)) \<Longrightarrow> keeps R (for_each f xs)"
  by (induction xs) (auto intro: keeps_followed_by)

section \<open>Nullable strings\<close>

text \<open>
  A string is the list of its UTF-8 bytes. A nullable column or an optional field is a
  \<open>string option\<close>. The source tests them in three ways: \<open>!x\<close> also rejects the empty string
  (\<open>falsy\<close>), \<open>x ?? y\<close> and \<open>x == null\<close> do not.
\<close>

fun falsy :: "string option \<Rightarrow> bool" where
  "falsy None = True"
| "falsy (Some s) = (s = [])"

abbreviation truthy :: "string option \<Rightarrow> bool" where
  "truthy x \<equiv> \<not> falsy x"

definition orElse :: "'a option \<Rightarrow> 'a \<Rightarrow> 'a" where
  "orElse x d = (case x of None \<Rightarrow> d | Some v \<Rightarrow> v)"

lemma orElse_simps [simp]: "orElse None d = d" "orElse (Some v) d = v"
  by (simp_all add: orElse_def)

lemma truthyE:
  assumes "truthy x"
  obtains s where "x = Some s" "s \<noteq> []"
  using assms by (cases x) auto

section \<open>JSON values\<close>

text \<open>The keys of an object are in the order of \<open>Object.entries\<close>; a number that is not an integer is
  kept as its decimal text.\<close>

datatype json =
    JNull
  | JBool bool
  | JNum int
  | JFrac string
  | JStr string
  | JArr "json list"
  | JObj "(string \<times> json) list"

type_synonym json_object = "(string \<times> json) list"

section \<open>Lists\<close>

lemma find_Some_iff_filter: "find P xs = Some x \<longleftrightarrow> (\<exists>ys. filter P xs = x # ys)"
  by (induction xs) auto

lemma find_SomeD: "find P xs = Some x \<Longrightarrow> x \<in> set xs \<and> P x"
  by (induction xs) (auto split: if_splits)

lemma find_NoneD: "find P xs = None \<Longrightarrow> x \<in> set xs \<Longrightarrow> \<not> P x"
  by (induction xs) (auto split: if_splits)

lemma find_cong_set: "(\<And>x. x \<in> set xs \<Longrightarrow> P x = Q x) \<Longrightarrow> find P xs = find Q xs"
  by (induction xs) auto

lemma find_filter: "find P (filter Q xs) = find (\<lambda>x. Q x \<and> P x) xs"
  by (induction xs) auto

lemma distinct_map_inj_on_eq:
  "distinct (map f xs) \<Longrightarrow> x \<in> set xs \<Longrightarrow> y \<in> set xs \<Longrightarrow> f x = f y \<Longrightarrow> x = y"
  by (meson distinct_map inj_onD)

end
