(* ===== verification/Core_Model.thy ===== *)
theory Core_Model
  imports Prelude
begin

text \<open>
  The shared vocabulary of \<open>packages/core\<close>: capabilities with the legacy aliases and the
  capability matrix (\<open>constants.ts\<close>) and the domain errors with their HTTP status
  (\<open>errors.ts\<close>). Human-readable messages and hints are not modelled; an error keeps its
  class, its code and its machine-readable \<open>meta\<close>.
\<close>

section \<open>Storage modes, localities, capabilities\<close>

datatype storage_mode = Zero_knowledge | Server_managed

datatype agent_locality = Local | Remote

datatype agent_kind = Local_cli | Local_mcp | Device | Remote_kind | Remote_agent

datatype capability =
    Cap_read
  | Cap_use
  | Read_ciphertext
  | Reveal_plaintext
  | Mount_env
  | Mount_file

datatype delivery_mode = Env | File

definition CAPABILITIES :: "capability list" where
  "CAPABILITIES = [Cap_read, Cap_use, Read_ciphertext, Reveal_plaintext, Mount_env, Mount_file]"

definition CANONICAL_CAPABILITIES :: "capability list" where
  "CANONICAL_CAPABILITIES = [Cap_read, Cap_use]"

definition LEGACY_CAPABILITIES :: "capability list" where
  "LEGACY_CAPABILITIES = [Read_ciphertext, Reveal_plaintext, Mount_env, Mount_file]"

text \<open>The entries of the constant record \<open>LEGACY_TO_CANONICAL\<close>, in the order written.\<close>

definition LEGACY_TO_CANONICAL :: "(capability \<times> capability) list" where
  "LEGACY_TO_CANONICAL =
    [(Read_ciphertext, Cap_read), (Reveal_plaintext, Cap_read),
     (Mount_env, Cap_use), (Mount_file, Cap_use)]"

fun getAllowedCapabilities :: "agent_locality \<Rightarrow> storage_mode \<Rightarrow> capability list" where
  "getAllowedCapabilities Local Zero_knowledge = [Read_ciphertext, Mount_env, Mount_file]"
| "getAllowedCapabilities Local Server_managed = [Reveal_plaintext, Mount_env, Mount_file]"
| "getAllowedCapabilities Remote Zero_knowledge = []"
| "getAllowedCapabilities Remote Server_managed = [Reveal_plaintext]"

definition isCapabilityAllowed :: "capability \<Rightarrow> agent_locality \<Rightarrow> storage_mode \<Rightarrow> bool" where
  "isCapabilityAllowed c l m = (c \<in> set (getAllowedCapabilities l m))"

fun agentLocalityForKind :: "agent_kind \<Rightarrow> agent_locality" where
  "agentLocalityForKind Local_cli = Local"
| "agentLocalityForKind Local_mcp = Local"
| "agentLocalityForKind Device = Local"
| "agentLocalityForKind Remote_kind = Remote"
| "agentLocalityForKind Remote_agent = Remote"

lemma CAPABILITIES_complete: "set CAPABILITIES = UNIV"
proof -
  have "c \<in> set CAPABILITIES" for c by (cases c) (simp_all add: CAPABILITIES_def)
  then show ?thesis by blast
qed

lemma matrix_legacy_only: "set (getAllowedCapabilities l m) \<subseteq> set LEGACY_CAPABILITIES"
  by (cases l; cases m) (auto simp: LEGACY_CAPABILITIES_def)

section \<open>Errors\<close>

datatype error_class =
    BadRequestError
  | ValidationError
  | UnauthorizedError
  | ForbiddenError
  | NotFoundError
  | ConflictError
  | RateLimitError
  | ServiceUnavailableError
  | IntegrityError
  | FieldNotFoundError
  | MultiFieldItemError

text \<open>
  An error value: a domain error with its code and \<open>meta\<close>; a driver error carrying a SQLSTATE
  or socket code (in the error itself or its cause); any other JavaScript error.
\<close>

datatype err =
    DomainErr error_class string json_object
  | DbErr string
  | PlainErr string

fun isDomainError :: "err \<Rightarrow> bool" where
  "isDomainError (DomainErr _ _ _) = True"
| "isDomainError _ = False"

fun is_class :: "error_class \<Rightarrow> err \<Rightarrow> bool" where
  "is_class c (DomainErr c' _ _) = (c = c')"
| "is_class c _ = False"

fun err_code :: "err \<Rightarrow> string" where
  "err_code (DomainErr _ c _) = c"
| "err_code _ = []"

fun statusCode :: "error_class \<Rightarrow> nat" where
  "statusCode BadRequestError = 400"
| "statusCode ValidationError = 400"
| "statusCode UnauthorizedError = 401"
| "statusCode ForbiddenError = 403"
| "statusCode NotFoundError = 404"
| "statusCode ConflictError = 409"
| "statusCode RateLimitError = 429"
| "statusCode ServiceUnavailableError = 503"
| "statusCode IntegrityError = 500"
| "statusCode FieldNotFoundError = 400"
| "statusCode MultiFieldItemError = 400"

definition fieldNotFoundError :: "string \<Rightarrow> string list \<Rightarrow> err" where
  "fieldNotFoundError f av =
     DomainErr FieldNotFoundError ''FIELD_NOT_FOUND''
       [(''field'', JStr f), (''availableFields'', JArr (map JStr av))]"

definition multiFieldItemError :: "string list \<Rightarrow> err" where
  "multiFieldItemError av =
     DomainErr MultiFieldItemError ''MULTI_FIELD_ITEM'' [(''availableFields'', JArr (map JStr av))]"

abbreviation forbidden :: "string \<Rightarrow> json_object \<Rightarrow> err" where
  "forbidden \<equiv> DomainErr ForbiddenError"

abbreviation notFound :: "string \<Rightarrow> err" where
  "notFound c \<equiv> DomainErr NotFoundError c []"

abbreviation integrity :: "json_object \<Rightarrow> err" where
  "integrity \<equiv> DomainErr IntegrityError ''INTEGRITY_ERROR''"

end
