(* ===== verification/Tables.thy ===== *)
theory Tables
  imports Core_Model
begin

text \<open>
  The persistent state: one record per row of the tables of \<open>packages/db/src/schema\<close>, one list
  per table (list order is the order in which an unordered query returns rows; nothing below
  assumes a particular one), and the tenant scope every query of the five tenant tables is
  conjoined with (\<open>scoped-db.ts\<close>). Timestamps are integers, the milliseconds of the source's
  \<open>Date\<close>. Indexes other than the unique
  ones are not modelled; what the foreign keys do on a deletion is in \<open>Foreign_Keys\<close>.
\<close>

section \<open>Audit vocabulary\<close>

datatype audit_event =
    Ev_profile_create
  | Ev_profile_read
  | Ev_profile_bootstrap
  | Ev_profile_rotate
  | Ev_profile_delete
  | Ev_profile_delete_cascade
  | Ev_profile_setup_recovery
  | Ev_item_create
  | Ev_item_read
  | Ev_item_update
  | Ev_item_delete
  | Ev_item_delete_cascade
  | Ev_item_export
  | Ev_auth_login
  | Ev_auth_logout
  | Ev_auth_signup
  | Ev_auth_token_issue
  | Ev_auth_token_revoke
  | Ev_user_api_key_create
  | Ev_user_api_key_revoke
  | Ev_account_register
  | Ev_account_claim
  | Ev_account_claim_complete
  | Ev_user_api_key_expire
  | Ev_org_create
  | Ev_org_read
  | Ev_org_update
  | Ev_org_delete
  | Ev_org_member_add
  | Ev_org_member_list
  | Ev_org_member_remove
  | Ev_org_member_role_change
  | Ev_org_invite
  | Ev_org_invite_accept
  | Ev_org_invite_reject
  | Ev_org_invite_revoke
  | Ev_agent_create
  | Ev_agent_bootstrap_issue
  | Ev_agent_enroll
  | Ev_agent_rotate
  | Ev_agent_revoke
  | Ev_agent_revoke_cascade
  | Ev_agent_session_issue
  | Ev_agent_session_reject
  | Ev_agent_session_revoke
  | Ev_permission_create
  | Ev_permission_revoke
  | Ev_permission_revoke_cascade
  | Ev_access_ciphertext
  | Ev_access_reveal
  | Ev_access_mount_env
  | Ev_access_mount_file

datatype audit_result = Allowed | Denied | Expired | Revoked | Cascade

section \<open>Rows\<close>

record item_row =
  item_id :: string
  item_org :: string
  item_profileId :: "string option"
  item_createdBy :: "string option"
  item_label :: string
  item_kind :: "string option"
  item_tags :: "string list"
  item_storageMode :: storage_mode
  item_encryptedItemKey :: "string option"
  item_ciphertext :: "string option"
  item_serverCiphertext :: "string option"
  item_serverIv :: "string option"
  item_serverKeyVersion :: "int option"
  item_cryptoVersion :: int
  item_contentVersion :: int
  item_createdAt :: int
  item_updatedAt :: int
  item_deletedAt :: "int option"

record profile_row =
  prof_id :: string
  prof_org :: string
  prof_name :: string
  prof_description :: "string option"
  prof_externalId :: "string option"
  prof_storageMode :: storage_mode
  prof_wrappedRootKey :: "string option"
  prof_kdfSalt :: "string option"
  prof_kdfParams :: "json option"
  prof_recoveryWrappedRootKey :: "string option"
  prof_serverWrappedDek :: "string option"
  prof_serverEncryptionCount :: int
  prof_keyVersion :: int
  prof_createdAt :: int
  prof_updatedAt :: int

record agent_row =
  ag_id :: string
  ag_org :: string
  ag_createdBy :: "string option"
  ag_name :: string
  ag_description :: "string option"
  ag_kind :: agent_kind
  ag_locality :: agent_locality
  ag_authMethod :: string
  ag_publicKey :: "string option"
  ag_enabled :: bool
  ag_revokedAt :: "int option"
  ag_lastUsedAt :: "int option"
  ag_metadata :: json_object
  ag_createdAt :: int

record agent_session_row =
  ses_id :: string
  ses_agentId :: string
  ses_userId :: "string option"
  ses_tokenHash :: string
  ses_expiresAt :: int
  ses_revokedAt :: "int option"
  ses_lastUsedAt :: "int option"
  ses_createdAt :: int

record enrollment_token_row =
  et_id :: string
  et_agentId :: string
  et_userId :: "string option"
  et_createdBy :: string
  et_tokenHash :: string
  et_expiresAt :: int
  et_usedAt :: "int option"

record challenge_row =
  ch_id :: string
  ch_agentId :: string
  ch_challengeHash :: string
  ch_expiresAt :: int
  ch_usedAt :: "int option"

record permission_row =
  perm_id :: string
  perm_org :: string
  perm_agentId :: string
  perm_itemId :: "string option"
  perm_profileId :: "string option"
  perm_capability :: capability
  perm_expiresAt :: "int option"
  perm_grantedBy :: "string option"
  perm_createdAt :: int

record reservation_row =
  res_id :: string
  res_mountId :: string
  res_itemId :: string
  res_agentId :: string
  res_delivery :: delivery_mode
  res_field :: "string option"
  res_envVarName :: "string option"
  res_expiresAt :: int
  res_consumedAt :: "int option"

record member_row =
  mem_id :: string
  mem_org :: string
  mem_userId :: string
  mem_role :: string
  mem_createdAt :: int

record user_api_key_row =
  key_id :: string
  key_userId :: string
  key_org :: string
  key_name :: string
  key_secretHash :: string
  key_secretPrefix :: string
  key_enabled :: bool
  key_revokedAt :: "int option"
  key_expiresAt :: "int option"
  key_lastUsedAt :: "int option"
  key_createdAt :: int

record organization_row =
  org_id :: string
  org_name :: string
  org_slug :: string
  org_logo :: "string option"
  org_metadata :: "string option"
  org_createdAt :: int

record user_row =
  usr_id :: string
  usr_name :: string
  usr_email :: string
  usr_emailVerified :: bool
  usr_createdAt :: int
  usr_updatedAt :: int

record invitation_row =
  inv_id :: string
  inv_org :: string
  inv_role :: "string option"
  inv_status :: string
  inv_tokenHash :: string
  inv_expiresAt :: int
  inv_usedAt :: "int option"
  inv_usedBy :: "string option"
  inv_createdAt :: int
  inv_inviterId :: string

record account_claim_row =
  clm_id :: string
  clm_org :: string
  clm_userId :: string
  clm_claimTokenHash :: string
  clm_email :: "string option"
  clm_otpHash :: "string option"
  clm_otpExpiresAt :: "int option"
  clm_otpAttempts :: int
  clm_status :: string
  clm_expiresAt :: int
  clm_usedAt :: "int option"

record audit_row =
  au_org :: string
  au_userId :: "string option"
  au_agentId :: "string option"
  au_itemId :: "string option"
  au_profileId :: "string option"
  au_surface :: "string option"
  au_eventType :: audit_event
  au_result :: audit_result
  au_deliveryMode :: "string option"
  au_field :: "string option"
  au_purpose :: "string option"
  au_meta :: json_object
  au_ipAddress :: "string option"

record db =
  tbl_items :: "item_row list"
  tbl_profiles :: "profile_row list"
  tbl_agents :: "agent_row list"
  tbl_agentSessions :: "agent_session_row list"
  tbl_enrollmentTokens :: "enrollment_token_row list"
  tbl_sessionChallenges :: "challenge_row list"
  tbl_permissions :: "permission_row list"
  tbl_mountReservations :: "reservation_row list"
  tbl_members :: "member_row list"
  tbl_userApiKeys :: "user_api_key_row list"
  tbl_organizations :: "organization_row list"
  tbl_users :: "user_row list"
  tbl_invitations :: "invitation_row list"
  tbl_accountClaims :: "account_claim_row list"
  tbl_auditLogs :: "audit_row list"

section \<open>The tenant scope\<close>

text \<open>\<open>scopedDb(executor, orgId).orgScope(table)\<close> is the condition \<open>organization_id = orgId\<close>;
  \<open>findMany\<close> and \<open>findFirst\<close> conjoin it with the caller's condition.\<close>

definition orgScope :: "('r \<Rightarrow> string) \<Rightarrow> string \<Rightarrow> 'r \<Rightarrow> bool" where
  "orgScope org_of orgId r = (org_of r = orgId)"

definition findMany :: "('r \<Rightarrow> string) \<Rightarrow> string \<Rightarrow> ('r \<Rightarrow> bool) \<Rightarrow> 'r list \<Rightarrow> 'r list" where
  "findMany org_of orgId cond rows = filter (\<lambda>r. orgScope org_of orgId r \<and> cond r) rows"

definition findFirst :: "('r \<Rightarrow> string) \<Rightarrow> string \<Rightarrow> ('r \<Rightarrow> bool) \<Rightarrow> 'r list \<Rightarrow> 'r option" where
  "findFirst org_of orgId cond rows = find (\<lambda>r. orgScope org_of orgId r \<and> cond r) rows"

text \<open>The rows of one tenant.\<close>

definition tenant_rows :: "('r \<Rightarrow> string) \<Rightarrow> string \<Rightarrow> 'r list \<Rightarrow> 'r list" where
  "tenant_rows org_of orgId rows = filter (orgScope org_of orgId) rows"

lemma findMany_tenant: "findMany org_of t c rows = filter c (tenant_rows org_of t rows)"
  by (simp add: findMany_def tenant_rows_def)

lemma findFirst_tenant: "findFirst org_of t c rows = find c (tenant_rows org_of t rows)"
  by (simp add: findFirst_def tenant_rows_def find_filter)

lemma findMany_iff:
  "r \<in> set (findMany org_of t c rows) \<longleftrightarrow> r \<in> set rows \<and> org_of r = t \<and> c r"
  by (auto simp: findMany_def orgScope_def)

lemma findFirst_SomeD:
  "findFirst org_of t c rows = Some r \<Longrightarrow> r \<in> set rows \<and> org_of r = t \<and> c r"
  by (auto simp: findFirst_def orgScope_def dest: find_SomeD)

lemma findFirst_NoneD:
  "findFirst org_of t c rows = None \<Longrightarrow> r \<in> set rows \<Longrightarrow> org_of r = t \<Longrightarrow> \<not> c r"
  by (auto simp: findFirst_def orgScope_def dest: find_NoneD)

lemma findFirst_isolated:
  "tenant_rows org_of t rows = tenant_rows org_of t rows' \<Longrightarrow>
   findFirst org_of t c rows = findFirst org_of t c rows'"
  by (simp add: findFirst_tenant)

lemma findMany_isolated:
  "tenant_rows org_of t rows = tenant_rows org_of t rows' \<Longrightarrow>
   findMany org_of t c rows = findMany org_of t c rows'"
  by (simp add: findMany_tenant)

section \<open>Storage-layer constraints\<close>

text \<open>The \<open>permissions_exactly_one_target\<close> check and the two partial unique indexes.\<close>

definition exactly_one_target :: "permission_row \<Rightarrow> bool" where
  "exactly_one_target p =
     ((perm_itemId p \<noteq> None \<and> perm_profileId p = None) \<or>
      (perm_itemId p = None \<and> perm_profileId p \<noteq> None))"

definition perm_clash :: "permission_row \<Rightarrow> permission_row \<Rightarrow> bool" where
  "perm_clash p q =
     (perm_id p = perm_id q \<or>
      (perm_itemId p \<noteq> None \<and> perm_agentId p = perm_agentId q \<and>
       perm_itemId p = perm_itemId q \<and> perm_capability p = perm_capability q) \<or>
      (perm_profileId p \<noteq> None \<and> perm_agentId p = perm_agentId q \<and>
       perm_profileId p = perm_profileId q \<and> perm_capability p = perm_capability q))"

definition res_clash :: "reservation_row \<Rightarrow> reservation_row \<Rightarrow> bool" where
  "res_clash r s = (res_id r = res_id s \<or> res_mountId r = res_mountId s)"

text \<open>Inserting a batch: every new row must clash with no stored row and no row before it in the
  batch, or the whole statement fails with SQLSTATE 23505 (23514 for the check constraint).\<close>

fun batch_ok :: "('r \<Rightarrow> 'r \<Rightarrow> bool) \<Rightarrow> 'r list \<Rightarrow> 'r list \<Rightarrow> bool" where
  "batch_ok clash rows [] = True"
| "batch_ok clash rows (r # rs) = ((\<forall>s \<in> set rows. \<not> clash r s) \<and> batch_ok clash (rows @ [r]) rs)"

definition insert_permissions :: "permission_row list \<Rightarrow> db \<Rightarrow> err + (unit \<times> db)" where
  "insert_permissions rs d =
     (if \<not> list_all exactly_one_target rs then Inl (DbErr ''23514'')
      else if \<not> batch_ok perm_clash (tbl_permissions d) rs then Inl (DbErr ''23505'')
      else Inr ((), d\<lparr>tbl_permissions := tbl_permissions d @ rs\<rparr>))"

definition insert_reservations :: "reservation_row list \<Rightarrow> db \<Rightarrow> err + (unit \<times> db)" where
  "insert_reservations rs d =
     (if \<not> batch_ok res_clash (tbl_mountReservations d) rs then Inl (DbErr ''23505'')
      else Inr ((), d\<lparr>tbl_mountReservations := tbl_mountReservations d @ rs\<rparr>))"

definition insert_audits :: "audit_row list \<Rightarrow> db \<Rightarrow> err + (unit \<times> db)" where
  "insert_audits rs d = Inr ((), d\<lparr>tbl_auditLogs := tbl_auditLogs d @ rs\<rparr>)"

text \<open>No two rows of a table clash.\<close>

definition unique_by :: "('r \<Rightarrow> 'r \<Rightarrow> bool) \<Rightarrow> 'r list \<Rightarrow> bool" where
  "unique_by clash rows = (\<forall>i < length rows. \<forall>j < i. \<not> clash (rows ! i) (rows ! j))"

lemma unique_by_Nil [simp]: "unique_by clash []"
  by (simp add: unique_by_def)

lemma unique_by_snoc:
  "unique_by clash (rows @ [r]) \<longleftrightarrow> unique_by clash rows \<and> (\<forall>s \<in> set rows. \<not> clash r s)"
proof
  assume u: "unique_by clash (rows @ [r])"
  have "\<not> clash (rows ! i) (rows ! j)" if "i < length rows" "j < i" for i j
    using u [unfolded unique_by_def, rule_format, of i j] that by (simp add: nth_append)
  moreover have "\<not> clash r s" if "s \<in> set rows" for s
  proof -
    from that obtain j where "j < length rows" "s = rows ! j" by (metis in_set_conv_nth)
    with u show ?thesis
      unfolding unique_by_def by (metis length_append_singleton lessI nth_append nth_append_length)
  qed
  ultimately show "unique_by clash rows \<and> (\<forall>s \<in> set rows. \<not> clash r s)"
    by (simp add: unique_by_def)
next
  assume "unique_by clash rows \<and> (\<forall>s \<in> set rows. \<not> clash r s)"
  then show "unique_by clash (rows @ [r])"
    unfolding unique_by_def by (auto simp: nth_append less_Suc_eq)
qed

lemma unique_by_append:
  "batch_ok clash rows rs \<Longrightarrow> unique_by clash rows \<Longrightarrow> unique_by clash (rows @ rs)"
proof (induction rs arbitrary: rows)
  case Nil
  then show ?case by simp
next
  case (Cons r rs)
  then have "unique_by clash (rows @ [r])" by (simp add: unique_by_snoc)
  with Cons show ?case by fastforce
qed

lemma unique_by_eqI:
  assumes "unique_by clash rows" "x \<in> set rows" "y \<in> set rows"
    and "clash x y" "clash y x"
  shows "x = y"
  using assms unfolding unique_by_def by (metis in_set_conv_nth linorder_neqE_nat)

end
