(* ===== verification/Encoding.thy ===== *)
theory Encoding
  imports Prelude "HOL-Library.Word"
begin

text \<open>
  Byte encodings of \<open>packages/crypto/src/shared/encoding.ts\<close>: unpadded base64url over the
  platform's \<open>btoa\<close> and \<open>atob\<close> (the WHATWG forgiving decoder, spelled out), and the
  \<open>codec\<close> contract (what was encoded decodes to itself) with its consequences. A
  \<open>Uint8Array\<close> is a list of bytes.
\<close>

type_synonym byte = "8 word"
type_synonym bytes = "byte list"

section \<open>The codec contract\<close>

locale codec =
  fixes enc :: "'a \<Rightarrow> 'b" and dec :: "'b \<Rightarrow> 'a option" and valid :: "'a \<Rightarrow> bool"
  assumes round_trip: "valid x \<Longrightarrow> dec (enc x) = Some x"
begin

lemma enc_inject: "valid x \<Longrightarrow> valid y \<Longrightarrow> enc x = enc y \<longleftrightarrow> x = y"
  by (metis round_trip option.inject)

lemma enc_eq_imp: "valid x \<Longrightarrow> valid y \<Longrightarrow> enc x = enc y \<Longrightarrow> x = y"
  using enc_inject by blast

lemma inj_on_valid: "inj_on enc {x. valid x}"
  by (rule inj_onI) (simp add: enc_inject)

end

section \<open>Base64\<close>

definition B64_ALPHABET :: string where
  "B64_ALPHABET = ''ABCDEFGHIJKLMNOPQRSTUVWXYZabcdefghijklmnopqrstuvwxyz0123456789+/''"

definition b64_char :: "nat \<Rightarrow> char" where
  "b64_char n = B64_ALPHABET ! n"

definition b64_val :: "char \<Rightarrow> nat option" where
  "b64_val c = map_of (zip B64_ALPHABET [0..<64]) c"

text \<open>The six-bit groups of a byte sequence, the last one filled up with zero bits.\<close>

fun sextets :: "bytes \<Rightarrow> nat list" where
  "sextets [] = []"
| "sextets [a] = [unat a div 4, unat a mod 4 * 16]"
| "sextets [a, b] = [unat a div 4, unat a mod 4 * 16 + unat b div 16, unat b mod 16 * 4]"
| "sextets (a # b # c # r) =
     unat a div 4 # (unat a mod 4 * 16 + unat b div 16) # (unat b mod 16 * 4 + unat c div 64) #
     unat c mod 64 # sextets r"

definition b64_padding :: "bytes \<Rightarrow> string" where
  "b64_padding bs = (if length bs mod 3 = 1 then ''==''
                     else if length bs mod 3 = 2 then ''='' else [])"

definition btoa :: "bytes \<Rightarrow> string" where
  "btoa bs = map b64_char (sextets bs) @ b64_padding bs"

text \<open>\<open>atob\<close>: strip ASCII white space, drop at most two \<open>=\<close> from a length divisible by four, reject
  a remainder of one and any other character, discard the trailing bits.\<close>

fun desextets :: "nat list \<Rightarrow> bytes" where
  "desextets [] = []"
| "desextets [a] = []"
| "desextets [a, b] = [of_nat (a * 4 + b div 16)]"
| "desextets [a, b, c] = [of_nat (a * 4 + b div 16), of_nat (b mod 16 * 16 + c div 4)]"
| "desextets (a # b # c # d # r) =
     of_nat (a * 4 + b div 16) # of_nat (b mod 16 * 16 + c div 4) # of_nat (c mod 4 * 64 + d) #
     desextets r"

definition ascii_space :: "char \<Rightarrow> bool" where
  "ascii_space c = (c \<in> set [CHR '' '', CHR 0x09, CHR 0x0A, CHR 0x0C, CHR 0x0D])"

definition drop_last_eq :: "string \<Rightarrow> string" where
  "drop_last_eq s = (if s \<noteq> [] \<and> last s = CHR ''='' then butlast s else s)"

definition atob :: "string \<Rightarrow> bytes option" where
  "atob s =
     (let t = filter (\<lambda>c. \<not> ascii_space c) s;
          u = (if length t mod 4 = 0 then drop_last_eq (drop_last_eq t) else t)
      in if length u mod 4 = 1 \<or> (\<exists>c \<in> set u. b64_val c = None) then None
         else Some (desextets (map (\<lambda>c. the (b64_val c)) u)))"

definition to_url_char :: "char \<Rightarrow> char" where
  "to_url_char c = (if c = CHR ''+'' then CHR ''-'' else if c = CHR ''/'' then CHR ''_'' else c)"

definition from_url_char :: "char \<Rightarrow> char" where
  "from_url_char c = (if c = CHR ''-'' then CHR ''+'' else if c = CHR ''_'' then CHR ''/'' else c)"

definition strip_padding :: "string \<Rightarrow> string" where
  "strip_padding s = rev (dropWhile (\<lambda>c. c = CHR ''='') (rev s))"

definition toBase64 :: "bytes \<Rightarrow> string" where
  "toBase64 bs = strip_padding (map to_url_char (btoa bs))"

definition fromBase64 :: "string \<Rightarrow> bytes option" where
  "fromBase64 s = atob (map from_url_char s)"

section \<open>Base64 is lossless\<close>

text \<open>What the proofs need of each of the 64 letters, checked letter by letter.\<close>

definition letter_ok :: "char \<Rightarrow> bool" where
  "letter_ok c = (c \<noteq> CHR ''='' \<and> \<not> ascii_space c \<and> from_url_char (to_url_char c) = c \<and>
     to_url_char c \<noteq> CHR ''='' \<and> \<not> ascii_space (to_url_char c))"

lemma alphabet_length [simp]: "length B64_ALPHABET = 64"
  by (simp add: B64_ALPHABET_def)

lemma alphabet_distinct: "distinct B64_ALPHABET"
  by (simp add: B64_ALPHABET_def)

lemma alphabet_ok: "list_all letter_ok B64_ALPHABET"
  by (simp add: B64_ALPHABET_def letter_ok_def ascii_space_def to_url_char_def from_url_char_def)

lemma letter_ok_char: "n < 64 \<Longrightarrow> letter_ok (b64_char n)"
  using alphabet_ok by (simp add: b64_char_def list_all_length)

lemma b64_val_char [simp]: "n < 64 \<Longrightarrow> b64_val (b64_char n) = Some n"
  unfolding b64_val_def b64_char_def
  using map_of_zip_nth [of B64_ALPHABET "[0..<64]" n] alphabet_distinct by simp

lemma byte_bound: "unat (x :: byte) < 256"
  using unsigned_less [of x] by simp

lemma sextets_bound: "n \<in> set (sextets bs) \<Longrightarrow> n < 64"
proof (induction bs rule: sextets.induct)
  case (2 a)
  then show ?case using byte_bound [of a] by auto
next
  case (3 a b)
  then show ?case using byte_bound [of a] byte_bound [of b] by auto
next
  case (4 a b c r)
  then show ?case using byte_bound [of a] byte_bound [of b] byte_bound [of c] by auto
qed simp

lemma split_byte:
  fixes x :: byte
  shows "of_nat (unat x div 4 * 4 + unat x mod 4) = x"
    "of_nat (unat x div 16 * 16 + unat x mod 16) = x"
    "of_nat (unat x div 64 * 64 + unat x mod 64) = x"
  by simp_all

lemma desextets_sextets: "desextets (sextets bs) = bs"
proof (induction bs rule: sextets.induct)
  case (2 a)
  have "unat a mod 4 * 16 div 16 = unat a mod 4" by simp
  then show ?case using split_byte(1) [of a] by simp
next
  case (3 a b)
  have "unat b < 256" using byte_bound [of b] by simp
  then have "(unat a mod 4 * 16 + unat b div 16) div 16 = unat a mod 4"
    "(unat a mod 4 * 16 + unat b div 16) mod 16 = unat b div 16" by auto
  then show ?case using split_byte(1) [of a] split_byte(2) [of b] by simp
next
  case (4 a b c r)
  have lt: "unat b < 256" "unat c < 256" using byte_bound [of b] byte_bound [of c] by auto
  then have "(unat a mod 4 * 16 + unat b div 16) div 16 = unat a mod 4"
    "(unat a mod 4 * 16 + unat b div 16) mod 16 = unat b div 16"
    "(unat b mod 16 * 4 + unat c div 64) div 4 = unat b mod 16"
    "(unat b mod 16 * 4 + unat c div 64) mod 4 = unat c div 64" by auto
  then show ?case
    using 4 split_byte(1) [of a] split_byte(2) [of b] split_byte(3) [of c] by simp
qed simp

lemma sextets_length: "length (sextets bs) mod 4 \<noteq> 1"
  by (induction bs rule: sextets.induct) auto

lemma strip_padding_append:
  assumes "\<And>c. c \<in> set s \<Longrightarrow> c \<noteq> CHR ''=''" and "set p \<subseteq> {CHR ''=''}"
  shows "strip_padding (s @ p) = s"
proof -
  have "dropWhile (\<lambda>c. c = CHR ''='') (rev p @ rev s) = dropWhile (\<lambda>c. c = CHR ''='') (rev s)"
    using assms(2) by (subst dropWhile_append2) auto
  also have "\<dots> = rev s" using assms(1) by (cases s rule: rev_cases) auto
  finally show ?thesis by (simp add: strip_padding_def)
qed

lemma toBase64_letters: "toBase64 bs = map (to_url_char \<circ> b64_char) (sextets bs)"
proof -
  have "\<And>c. c \<in> set (map (to_url_char \<circ> b64_char) (sextets bs)) \<Longrightarrow> c \<noteq> CHR ''=''"
    using letter_ok_char sextets_bound by (auto simp: letter_ok_def)
  moreover have "set (map to_url_char (b64_padding bs)) \<subseteq> {CHR ''=''}"
    by (auto simp: b64_padding_def to_url_char_def)
  ultimately show ?thesis
    unfolding toBase64_def btoa_def map_append map_map by (rule strip_padding_append)
qed

lemma atob_letters:
  assumes "\<And>n. n \<in> set ns \<Longrightarrow> n < 64" and "length ns mod 4 \<noteq> 1"
  shows "atob (map b64_char ns) = Some (desextets ns)"
proof -
  let ?u = "map b64_char ns"
  have ok: "\<And>c. c \<in> set ?u \<Longrightarrow> letter_ok c" using assms(1) letter_ok_char by auto
  have f: "filter (\<lambda>c. \<not> ascii_space c) ?u = ?u"
    using ok by (intro filter_True) (auto simp: letter_ok_def)
  have d: "drop_last_eq ?u = ?u"
    using ok by (cases ns rule: rev_cases) (auto simp: drop_last_eq_def letter_ok_def)
  have v: "map (\<lambda>c. the (b64_val c)) ?u = ns"
    using assms(1) by (simp add: o_def map_idI)
  show ?thesis
    using assms f d v by (auto simp: atob_def Let_def)
qed

lemma fromBase64_toBase64: "fromBase64 (toBase64 bs) = Some bs"
proof -
  have "map from_url_char (toBase64 bs) = map b64_char (sextets bs)"
    using letter_ok_char sextets_bound by (auto simp: toBase64_letters letter_ok_def)
  then show ?thesis
    using sextets_bound sextets_length by (simp add: fromBase64_def atob_letters desextets_sextets)
qed

lemma sextets_eq_Nil [simp]: "sextets bs = [] \<longleftrightarrow> bs = []"
  by (cases bs rule: sextets.cases) auto

lemma toBase64_eq_Nil [simp]: "toBase64 bs = [] \<longleftrightarrow> bs = []"
  by (simp add: toBase64_letters)

interpretation base64: codec toBase64 fromBase64 "\<lambda>_. True"
  by unfold_locales (rule fromBase64_toBase64)

section \<open>Text\<close>

text \<open>\<open>TextEncoder\<close> and \<open>TextDecoder\<close>: a string is the list of its UTF-8 bytes already.\<close>

definition encode_text :: "string \<Rightarrow> bytes" where
  "encode_text s = map (\<lambda>c. of_nat (of_char c)) s"

definition decode_text :: "bytes \<Rightarrow> string" where
  "decode_text bs = map (\<lambda>b. char_of (unat b)) bs"

lemma byte_of_char: "unat (of_nat (of_char c) :: byte) = (of_char c :: nat)"
proof -
  have "(of_char c :: nat) < 256" by (metis of_char_mod_256 mod_less_divisor zero_less_numeral)
  then show ?thesis by (simp add: unat_of_nat)
qed

lemma decode_encode_text [simp]: "decode_text (encode_text s) = s"
  by (induction s) (simp_all add: decode_text_def encode_text_def byte_of_char)

interpretation utf8: codec encode_text "\<lambda>b. Some (decode_text b)" "\<lambda>_. True"
  by unfold_locales simp

end
