(* ===== verification/Server.thy ===== *)
theory Server
  imports Tables Encoding
begin

text \<open>
  What a request runs on: the database, the clock read by \<open>new Date()\<close>, the source of random
  identifiers, and the statements sent to the database, each of which may fail
  (\<open>tryAsync\<close> of \<open>effect.ts\<close> turns the rejected promise into a failed effect). The clock, the
  identifiers and the faults are arbitrary functions of a counter, so a theorem holds for every
  schedule of failures and for every reading of the clock, also for two readings in the same
  request that differ. Three pieces of memory of the process are part of the world: the mirrored
  audit lines, the map that throttles audit rows for unrecognised credentials, and the counters
  that limit invitation lookups.
\<close>

record world =
  store :: db
  clock :: "nat \<Rightarrow> int"
  ticks :: nat
  uuids :: "nat \<Rightarrow> string"
  randoms :: "nat \<Rightarrow> nat \<Rightarrow> bytes"
  draws :: nat
  faults :: "nat \<Rightarrow> string option"
  stmts :: nat
  pg_now :: int
  mirror :: "audit_row list"
  unauthCounters :: "(string \<times> int) list"
  inviteInfoCounters :: "string \<rightharpoonup> nat \<times> int"

type_synonym 'a server = "(world, err, 'a) eff"

definition new_Date :: "int server" where
  "new_Date = (\<lambda>w. (Inr (clock w (ticks w)), w\<lparr>ticks := Suc (ticks w)\<rparr>))"

definition randomUUID :: "string server" where
  "randomUUID = (\<lambda>w. (Inr (uuids w (draws w)), w\<lparr>draws := Suc (draws w)\<rparr>))"

text \<open>\<open>crypto.getRandomValues(new Uint8Array(n))\<close>.\<close>

definition randomBytes :: "nat \<Rightarrow> bytes server" where
  "randomBytes n = (\<lambda>w. (Inr (randoms w (draws w) n), w\<lparr>draws := Suc (draws w)\<rparr>))"

text \<open>One statement: an infrastructure fault, a violated constraint, or the effect on the store.\<close>

definition statement :: "(db \<Rightarrow> err + ('a \<times> db)) \<Rightarrow> 'a server" where
  "statement f = (\<lambda>w. case faults w (stmts w) of
      Some c \<Rightarrow> (Inl (DbErr c), w\<lparr>stmts := Suc (stmts w)\<rparr>)
    | None \<Rightarrow> (case f (store w) of
        Inl e \<Rightarrow> (Inl e, w\<lparr>stmts := Suc (stmts w)\<rparr>)
      | Inr (x, d) \<Rightarrow> (Inr x, w\<lparr>stmts := Suc (stmts w), store := d\<rparr>)))"

definition select :: "(db \<Rightarrow> 'a) \<Rightarrow> 'a server" where
  "select q = statement (\<lambda>d. Inr (q d, d))"

definition modify :: "(db \<Rightarrow> db) \<Rightarrow> unit server" where
  "modify u = statement (\<lambda>d. Inr ((), u d))"

text \<open>
  \<open>db.transaction(body)\<close>: an error of the body, or of the final commit, restores the store. The
  mirror, the clock and the counters are outside the database and are not rolled back.
\<close>

definition transaction :: "'a server \<Rightarrow> 'a server" where
  "transaction body = (\<lambda>w. case body w of
      (Inl e, w') \<Rightarrow> (Inl e, w'\<lparr>store := store w\<rparr>)
    | (Inr x, w') \<Rightarrow> (case statement (\<lambda>d. Inr ((), d)) w' of
        (Inl e, w'') \<Rightarrow> (Inl e, w''\<lparr>store := store w\<rparr>)
      | (Inr _, w'') \<Rightarrow> (Inr x, w'')))"

text \<open>
  \<open>withOrgContext\<close> (\<open>init.ts\<close>): open a transaction, set the tenant, run the procedure; a domain
  error of the procedure commits if the probe statement still succeeds, otherwise it rolls back.
  The row-level-security policies keyed on the tenant are outside the modelled code.
\<close>

definition withOrgContext :: "'a server \<Rightarrow> 'a server" where
  "withOrgContext fn = (\<lambda>w. case statement (\<lambda>d. Inr ((), d)) w of
      (Inl e, w1) \<Rightarrow> (Inl e, w1\<lparr>store := store w\<rparr>)
    | (Inr _, w1) \<Rightarrow> (case fn w1 of
        (Inr x, w2) \<Rightarrow> (case statement (\<lambda>d. Inr ((), d)) w2 of
            (Inl e, w3) \<Rightarrow> (Inl e, w3\<lparr>store := store w\<rparr>)
          | (Inr _, w3) \<Rightarrow> (Inr x, w3))
      | (Inl e, w2) \<Rightarrow> (case statement (\<lambda>d. Inr ((), d)) w2 of
            (Inl _, w3) \<Rightarrow> (Inl e, w3\<lparr>store := store w\<rparr>)
          | (Inr _, w3) \<Rightarrow> (case statement (\<lambda>d. Inr ((), d)) w3 of
              (Inl e', w4) \<Rightarrow> (Inl e', w4\<lparr>store := store w\<rparr>)
            | (Inr _, w4) \<Rightarrow> (Inl e, w4)))))"

section \<open>What the primitives do\<close>

lemma new_Date_eq [simp]: "new_Date w = (Inr (clock w (ticks w)), w\<lparr>ticks := Suc (ticks w)\<rparr>)"
  by (simp add: new_Date_def)

lemma randomUUID_eq [simp]:
  "randomUUID w = (Inr (uuids w (draws w)), w\<lparr>draws := Suc (draws w)\<rparr>)"
  by (simp add: randomUUID_def)

lemma randomBytes_eq [simp]:
  "randomBytes n w = (Inr (randoms w (draws w) n), w\<lparr>draws := Suc (draws w)\<rparr>)"
  by (simp add: randomBytes_def)

lemma statement_ok:
  "statement f w = (Inr x, w') \<longleftrightarrow>
     faults w (stmts w) = None \<and>
     (\<exists>d. f (store w) = Inr (x, d) \<and> w' = w\<lparr>stmts := Suc (stmts w), store := d\<rparr>)"
  by (auto simp: statement_def split: option.splits sum.splits prod.splits)

lemma statement_fails:
  "statement f w = (Inl e, w') \<longleftrightarrow>
     w' = w\<lparr>stmts := Suc (stmts w)\<rparr> \<and>
     ((\<exists>c. faults w (stmts w) = Some c \<and> e = DbErr c) \<or>
      (faults w (stmts w) = None \<and> f (store w) = Inl e))"
  by (auto simp: statement_def split: option.splits sum.splits prod.splits)

lemma select_ok:
  "select q w = (Inr x, w') \<longleftrightarrow>
     faults w (stmts w) = None \<and> x = q (store w) \<and> w' = w\<lparr>stmts := Suc (stmts w)\<rparr>"
  by (auto simp: select_def statement_ok)

lemma select_fails:
  "select q w = (Inl e, w') \<longleftrightarrow>
     w' = w\<lparr>stmts := Suc (stmts w)\<rparr> \<and> (\<exists>c. faults w (stmts w) = Some c \<and> e = DbErr c)"
  by (auto simp: select_def statement_fails)

lemma select_cases:
  obtains (ok) "select q w = (Inr (q (store w)), w\<lparr>stmts := Suc (stmts w)\<rparr>)"
      "faults w (stmts w) = None"
    | (failed) c where "select q w = (Inl (DbErr c), w\<lparr>stmts := Suc (stmts w)\<rparr>)"
      "faults w (stmts w) = Some c"
  by (cases "faults w (stmts w)") (auto simp: select_def statement_def)

lemma modify_ok:
  "modify u w = (Inr x, w') \<longleftrightarrow>
     faults w (stmts w) = None \<and> w' = w\<lparr>stmts := Suc (stmts w), store := u (store w)\<rparr>"
  by (auto simp: modify_def statement_ok)

lemma modify_fails:
  "modify u w = (Inl e, w') \<longleftrightarrow>
     w' = w\<lparr>stmts := Suc (stmts w)\<rparr> \<and> (\<exists>c. faults w (stmts w) = Some c \<and> e = DbErr c)"
  by (auto simp: modify_def statement_fails)

lemma transaction_ok:
  "transaction body w = (Inr x, w'') \<longleftrightarrow>
     (\<exists>w'. body w = (Inr x, w') \<and> faults w' (stmts w') = None \<and>
           w'' = w'\<lparr>stmts := Suc (stmts w')\<rparr>)"
  by (auto simp: transaction_def statement_def split: prod.splits sum.splits option.splits)

section \<open>Frames\<close>

text \<open>The surroundings of a request (clock, sources of randomness, faults) never change; \<open>same_store\<close>
  says that no table changes either, \<open>only_audits\<close> that the audit trail may have grown.\<close>

definition env_kept :: "world \<Rightarrow> world \<Rightarrow> bool" where
  "env_kept w w' \<longleftrightarrow> clock w' = clock w \<and> uuids w' = uuids w \<and> randoms w' = randoms w \<and>
     faults w' = faults w \<and> pg_now w' = pg_now w"

definition same_store :: "world \<Rightarrow> world \<Rightarrow> bool" where
  "same_store w w' \<longleftrightarrow> env_kept w w' \<and> store w' = store w"

text \<open>The audit trail may have grown, by rows that satisfy \<open>P\<close>; no other table changed.\<close>

definition audits_where :: "(audit_row \<Rightarrow> bool) \<Rightarrow> world \<Rightarrow> world \<Rightarrow> bool" where
  "audits_where P w w' \<longleftrightarrow> env_kept w w' \<and> (\<exists>as. list_all P as \<and> store w' =
     (store w)\<lparr>tbl_auditLogs := tbl_auditLogs (store w) @ as\<rparr>)"

abbreviation only_audits :: "world \<Rightarrow> world \<Rightarrow> bool" where
  "only_audits \<equiv> audits_where (\<lambda>_. True)"

lemma env_kept_refl [simp]: "env_kept w w"
  by (simp add: env_kept_def)

lemma env_kept_trans: "env_kept u v \<Longrightarrow> env_kept v w \<Longrightarrow> env_kept u w"
  by (simp add: env_kept_def)

lemma same_store_reflp [simp]: "reflp same_store"
  by (rule reflpI) (simp add: same_store_def)

lemma same_store_transp [simp]: "transp same_store"
  by (rule transpI) (auto simp: same_store_def intro: env_kept_trans)

lemma audits_whereI:
  "env_kept w w' \<Longrightarrow> list_all P as \<Longrightarrow>
   store w' = (store w)\<lparr>tbl_auditLogs := tbl_auditLogs (store w) @ as\<rparr> \<Longrightarrow> audits_where P w w'"
  unfolding audits_where_def by blast

lemma audits_whereE:
  assumes "audits_where P w w'"
  obtains as where "env_kept w w'" "list_all P as"
    "store w' = (store w)\<lparr>tbl_auditLogs := tbl_auditLogs (store w) @ as\<rparr>"
  using assms unfolding audits_where_def by blast

lemma same_store_audits_where: "same_store w w' \<Longrightarrow> audits_where P w w'"
  by (rule audits_whereI [of _ _ _ "[]"]) (simp_all add: same_store_def)

lemma audits_where_refl [simp]: "audits_where P w w"
  by (rule audits_whereI [of _ _ _ "[]"]) simp_all

lemma audits_where_trans:
  assumes "audits_where P u v" "audits_where P v w"
  shows "audits_where P u w"
proof -
  from assms(1) obtain as where a: "env_kept u v" "list_all P as"
    "store v = (store u)\<lparr>tbl_auditLogs := tbl_auditLogs (store u) @ as\<rparr>" by (rule audits_whereE)
  from assms(2) obtain bs where b: "env_kept v w" "list_all P bs"
    "store w = (store v)\<lparr>tbl_auditLogs := tbl_auditLogs (store v) @ bs\<rparr>" by (rule audits_whereE)
  show ?thesis
    using a b by (intro audits_whereI [of _ _ _ "as @ bs"]) (auto intro: env_kept_trans)
qed

lemma audits_where_reflp [simp]: "reflp (audits_where P)"
  by (rule reflpI) simp

lemma audits_where_transp [simp]: "transp (audits_where P)"
  by (rule transpI) (rule audits_where_trans)

lemma audits_where_mono: "audits_where P w w' \<Longrightarrow> (\<And>r. P r \<Longrightarrow> Q r) \<Longrightarrow> audits_where Q w w'"
  unfolding audits_where_def by (auto simp: list_all_iff)

lemma keeps_same_where: "keeps same_store m \<Longrightarrow> keeps (audits_where P) m"
  by (auto simp: keeps_def same_store_audits_where)

lemma keeps_where_mono:
  "keeps (audits_where P) m \<Longrightarrow> (\<And>r. P r \<Longrightarrow> Q r) \<Longrightarrow> keeps (audits_where Q) m"
  unfolding keeps_def by (meson audits_where_mono)

lemma env_kept_reflp [simp]: "reflp env_kept"
  by (rule reflpI) simp

lemma env_kept_transp [simp]: "transp env_kept"
  by (rule transpI) (rule env_kept_trans)

lemma keeps_env_statement [simp, intro]: "keeps env_kept (statement f)"
  by (auto simp: keeps_def env_kept_def statement_def split: option.split sum.split)

lemma same_store_env: "keeps same_store m \<Longrightarrow> keeps env_kept m"
  by (auto simp: keeps_def same_store_def)

lemma transaction_error_same:
  "keeps env_kept m \<Longrightarrow> transaction m w = (Inl e, w') \<Longrightarrow> same_store w w'"
  by (auto simp: transaction_def statement_def same_store_def env_kept_def keeps_def
      split: prod.splits sum.splits option.splits) (metis snd_conv)+

lemma keeps_new_Date [simp, intro]: "keeps same_store new_Date"
  by (simp add: keeps_def same_store_def env_kept_def)

lemma keeps_randomUUID [simp, intro]: "keeps same_store randomUUID"
  by (simp add: keeps_def same_store_def env_kept_def)

lemma keeps_randomBytes [simp, intro]: "keeps same_store (randomBytes n)"
  by (simp add: keeps_def same_store_def env_kept_def)

lemma keeps_select [simp, intro]: "keeps same_store (select q)"
  by (auto simp: keeps_def same_store_def env_kept_def select_def statement_def split: option.splits)

text \<open>Effects that keep the frame, built from parts that do.\<close>

lemmas keeps_same = keeps_andThen [of same_store] keeps_followed_by [of same_store]
lemmas keeps_audits = keeps_andThen [OF audits_where_transp] keeps_followed_by [OF audits_where_transp]
  keeps_tap_error [OF audits_where_transp] keeps_for_each [OF audits_where_reflp audits_where_transp]

lemma audits_where_frame:
  assumes "audits_where P w w'"
  shows "tbl_items (store w') = tbl_items (store w)"
    "tbl_profiles (store w') = tbl_profiles (store w)"
    "tbl_agents (store w') = tbl_agents (store w)"
    "tbl_agentSessions (store w') = tbl_agentSessions (store w)"
    "tbl_permissions (store w') = tbl_permissions (store w)"
    "tbl_mountReservations (store w') = tbl_mountReservations (store w)"
    "tbl_members (store w') = tbl_members (store w)"
    "tbl_userApiKeys (store w') = tbl_userApiKeys (store w)"
    "faults w' = faults w" "pg_now w' = pg_now w" "clock w' = clock w"
    "tbl_enrollmentTokens (store w') = tbl_enrollmentTokens (store w)"
    "tbl_sessionChallenges (store w') = tbl_sessionChallenges (store w)"
    "tbl_organizations (store w') = tbl_organizations (store w)"
    "tbl_users (store w') = tbl_users (store w)"
    "tbl_invitations (store w') = tbl_invitations (store w)"
    "tbl_accountClaims (store w') = tbl_accountClaims (store w)"
  using assms by (auto simp: audits_where_def env_kept_def)

text \<open>A relation kept when an effect fails, whatever it does when it succeeds.\<close>

definition keeps_error :: "('w \<Rightarrow> 'w \<Rightarrow> bool) \<Rightarrow> ('w, 'e, 'a) eff \<Rightarrow> bool" where
  "keeps_error R m \<longleftrightarrow> (\<forall>w e w'. m w = (Inl e, w') \<longrightarrow> R w w')"

lemma keeps_errorI: "(\<And>w e w'. m w = (Inl e, w') \<Longrightarrow> R w w') \<Longrightarrow> keeps_error R m"
  by (simp add: keeps_error_def)

lemma keeps_errorD: "keeps_error R m \<Longrightarrow> m w = (Inl e, w') \<Longrightarrow> R w w'"
  unfolding keeps_error_def by blast

lemma keeps_keeps_error: "keeps R m \<Longrightarrow> keeps_error R m"
  by (auto simp: keeps_error_def dest: keepsD)

lemma keeps_error_fail [simp, intro]: "reflp R \<Longrightarrow> keeps_error R (fail_with e)"
  by (simp add: keeps_keeps_error)

lemma keeps_error_andThen:
  "transp R \<Longrightarrow> keeps R m \<Longrightarrow> (\<And>x. keeps_error R (f x)) \<Longrightarrow> keeps_error R (andThen m f)"
  by (auto simp: keeps_error_def andThen_Inl dest: keepsD) (meson keepsD transpD)

lemma keeps_error_followed_by:
  "transp R \<Longrightarrow> keeps R m \<Longrightarrow> keeps_error R k \<Longrightarrow> keeps_error R (followed_by m k)"
  by (simp add: followed_by_def keeps_error_andThen)

lemma keeps_error_last: "keeps_error R m \<Longrightarrow> keeps_error R (followed_by m (succeed x))"
  by (auto simp: keeps_error_def followed_by_def andThen_Inl succeed_def)

lemma keeps_error_transaction: "keeps env_kept m \<Longrightarrow> keeps_error same_store (transaction m)"
  by (auto simp: keeps_error_def dest: transaction_error_same)

lemma keeps_error_same_where: "keeps_error same_store m \<Longrightarrow> keeps_error (audits_where P) m"
  by (auto simp: keeps_error_def same_store_audits_where)

lemmas keeps_env = keeps_andThen [OF env_kept_transp] keeps_followed_by [OF env_kept_transp]
lemmas keeps_error_same = keeps_error_andThen [OF same_store_transp]
  keeps_error_followed_by [OF same_store_transp]

lemmas keeps_error_audits = keeps_error_andThen [OF audits_where_transp]
  keeps_error_followed_by [OF audits_where_transp]

text \<open>A failed transaction leaves the store as it was.\<close>

lemma transaction_rolls_back: "transaction body w = (Inl e, w') \<Longrightarrow> store w' = store w"
  by (auto simp: transaction_def statement_def split: prod.splits sum.splits option.splits)

text \<open>An organisation context never leaves a store that is neither the procedure's nor the old one.\<close>

lemma withOrgContext_store:
  "withOrgContext fn w = (r, w') \<Longrightarrow>
     store w' = store w \<or>
     (\<exists>w1 w2 r'. w1 = w\<lparr>stmts := Suc (stmts w)\<rparr> \<and> fn w1 = (r', w2) \<and> r = r' \<and>
        store w' = store w2 \<and> mirror w' = mirror w2)"
  by (auto simp: withOrgContext_def statement_def split: prod.splits sum.splits option.splits)

end
