(* ===== verification/Aad.thy ===== *)
theory Aad
  imports Encoding
begin

text \<open>
  The additional authenticated data of every AEAD call site
  (\<open>packages/crypto/src/shared/aad.ts\<close>): five byte layouts with NUL-terminated components and
  big-endian 32-bit integers. The lemmas show each layout injective on identifiers without NUL
  and the five layouts pairwise disjoint.
\<close>

section \<open>Building blocks\<close>

text \<open>\<open>DataView.setUint32(0, n, false)\<close>: the value modulo \<open>2 ^ 32\<close>, most significant byte first.\<close>

definition u32be :: "int \<Rightarrow> bytes" where
  "u32be n = [word_of_int (n div 16777216), word_of_int (n div 65536), word_of_int (n div 256),
              word_of_int n]"

definition NUL :: char where
  "NUL = CHR 0x00"

definition nul_free :: "string \<Rightarrow> bool" where
  "nul_free s = (NUL \<notin> set s)"

text \<open>A component followed by its terminator, the template literal of the source.\<close>

definition component :: "string \<Rightarrow> bytes" where
  "component s = encode_text (s @ [NUL])"

definition NO_PROFILE_AAD_SENTINEL :: string where
  "NO_PROFILE_AAD_SENTINEL = ''__no_profile__''"

definition SERVER_AAD_MIN_VERSION :: int where
  "SERVER_AAD_MIN_VERSION = 2"

definition profileIdForServerAad :: "string option \<Rightarrow> string" where
  "profileIdForServerAad p = orElse p NO_PROFILE_AAD_SENTINEL"

section \<open>The five layouts\<close>

record server_aad_meta =
  sa_orgId :: string
  sa_profileId :: string
  sa_itemId :: string
  sa_keyVersion :: int

definition buildServerAad :: "server_aad_meta \<Rightarrow> bytes" where
  "buildServerAad m = concat [component ''abadge-sm-v1'', component (sa_orgId m),
     component (sa_profileId m), component (sa_itemId m), u32be (sa_keyVersion m)]"

definition buildServerDekWrapAad :: "string \<Rightarrow> string \<Rightarrow> bytes" where
  "buildServerDekWrapAad orgId profileId =
     concat [component ''abadge-sm-dek-v1'', component orgId, component profileId]"

definition buildZkContentAad :: "string \<Rightarrow> string \<Rightarrow> int \<Rightarrow> bytes" where
  "buildZkContentAad profileId itemId contentVersion =
     concat [component ''abadge-zk-content-v1'', component profileId, component itemId,
             u32be contentVersion]"

definition buildZkDekWrapAad :: "string \<Rightarrow> string \<Rightarrow> bytes" where
  "buildZkDekWrapAad profileId itemId =
     concat [component ''abadge-zk-dek-v1'', component profileId, component itemId]"

definition buildZkRootWrapAad :: "string \<Rightarrow> int \<Rightarrow> bytes" where
  "buildZkRootWrapAad profileId keyVersion =
     concat [component ''abadge-zk-root-v1'', component profileId, u32be keyVersion]"

section \<open>Injectivity\<close>

text \<open>\<open>u32be\<close> reads back as the value modulo \<open>2 ^ 32\<close>.\<close>

definition read_u32be :: "bytes \<Rightarrow> int option" where
  "read_u32be bs = (case bs of [a, b, c, d] \<Rightarrow>
       Some (uint a * 16777216 + uint b * 65536 + uint c * 256 + uint d) | _ \<Rightarrow> None)"

lemma four_digits:
  fixes x :: int
  shows "x = 256 * y + r \<Longrightarrow> y = 256 * z + s \<Longrightarrow> z = 256 * u + t \<Longrightarrow>
     u * 16777216 + t * 65536 + s * 256 + r = x"
  by simp

lemma mod_2_32:
  fixes n :: int
  shows "(n div 16777216 mod 256) * 16777216 + (n div 65536 mod 256) * 65536 +
     (n div 256 mod 256) * 256 + n mod 256 = n mod 4294967296"
proof (rule four_digits)
  have d: "n div 65536 = n div 256 div 256" "n div 16777216 = n div 256 div 256 div 256"
    by (simp_all add: zdiv_zmult2_eq [of 256 n 256, simplified]
        zdiv_zmult2_eq [of 65536 n 256, simplified])
  show "n mod 4294967296 = 256 * (n div 256 mod 16777216) + n mod 256"
    by (rule zmod_zmult2_eq [of 16777216 n 256, simplified])
  show "n div 256 mod 16777216 = 256 * (n div 256 div 256 mod 65536) + n div 256 mod 256"
    by (rule zmod_zmult2_eq [of 65536 "n div 256" 256, simplified])
  show "n div 256 div 256 mod 65536 = 256 * (n div 16777216 mod 256) + n div 65536 mod 256"
    unfolding d by (rule zmod_zmult2_eq [of 256 "n div 256 div 256" 256, simplified])
qed

lemma read_u32be_mod: "read_u32be (u32be n) = Some (n mod 4294967296)"
proof -
  have w: "uint (word_of_int k :: byte) = k mod 256" for k
    by (simp add: uint_word_of_int)
  show ?thesis by (simp only: read_u32be_def u32be_def list.case w mod_2_32)
qed

definition u32_range :: "int \<Rightarrow> bool" where
  "u32_range n = (0 \<le> n \<and> n < 4294967296)"

interpretation u32: codec u32be read_u32be u32_range
  by unfold_locales (simp add: read_u32be_mod u32_range_def)

lemma encode_text_inject [simp]: "encode_text s = encode_text t \<longleftrightarrow> s = t"
  by (simp add: utf8.enc_inject)

lemma encode_text_append: "encode_text (s @ t) = encode_text s @ encode_text t"
  by (simp add: encode_text_def)

lemma component_eq: "component s = encode_text s @ [0]"
  by (simp add: component_def encode_text_append NUL_def) (simp add: encode_text_def)

lemma char_byte_zero: "(of_nat (of_char c) :: byte) = 0 \<longleftrightarrow> c = NUL"
proof -
  have z: "(of_char NUL :: nat) = 0" by (simp add: NUL_def)
  have "(of_nat (of_char c) :: byte) = 0 \<longleftrightarrow> (of_char c :: nat) = 0"
    using byte_of_char [of c] by (metis unat_eq_zero)
  also have "\<dots> \<longleftrightarrow> (of_char c :: nat) = of_char NUL" by (simp only: z)
  also have "\<dots> \<longleftrightarrow> c = NUL" by (rule of_char_eq_iff)
  finally show ?thesis .
qed

lemma nul_free_bytes: "nul_free s \<longleftrightarrow> 0 \<notin> set (encode_text s)"
  by (auto simp: nul_free_def encode_text_def char_byte_zero image_iff)

text \<open>A terminated component can be split off in one way only.\<close>

lemma terminated_split:
  assumes "z \<notin> set xs" "z \<notin> set ys" "xs @ z # us = ys @ z # vs"
  shows "xs = ys \<and> us = vs"
  using assms
proof (induction xs arbitrary: ys)
  case Nil
  then show ?case by (cases ys) auto
next
  case (Cons x xs)
  then obtain y ys' where "ys = y # ys'" by (cases ys) auto
  with Cons show ?case by auto
qed

lemma component_split:
  assumes "nul_free s" "nul_free t" "component s @ us = component t @ vs"
  shows "s = t \<and> us = vs"
  using assms terminated_split [of 0 "encode_text s" "encode_text t" us vs]
  by (simp add: component_eq nul_free_bytes)

text \<open>Layouts with different domain-separation tags differ whatever follows the tag.\<close>

lemma component_tags_differ:
  assumes "nul_free s" "nul_free t" "s \<noteq> t"
  shows "component s @ us \<noteq> component t @ vs"
  using assms component_split by blast

lemmas aad_defs = buildServerAad_def buildServerDekWrapAad_def buildZkContentAad_def
  buildZkDekWrapAad_def buildZkRootWrapAad_def

definition server_meta_ok :: "server_aad_meta \<Rightarrow> bool" where
  "server_meta_ok m = (nul_free (sa_orgId m) \<and> nul_free (sa_profileId m) \<and>
     nul_free (sa_itemId m) \<and> u32_range (sa_keyVersion m))"

lemma buildServerAad_eqD:
  assumes ok: "server_meta_ok m" "server_meta_ok m'"
    and eq: "buildServerAad m = buildServerAad m'"
  shows "m = m'"
proof -
  have nf: "nul_free (sa_orgId m)" "nul_free (sa_profileId m)" "nul_free (sa_itemId m)"
    "nul_free (sa_orgId m')" "nul_free (sa_profileId m')" "nul_free (sa_itemId m')"
    and r: "u32_range (sa_keyVersion m)" "u32_range (sa_keyVersion m')"
    using ok by (auto simp: server_meta_ok_def)
  have e1: "component (sa_orgId m) @ component (sa_profileId m) @ component (sa_itemId m) @
      u32be (sa_keyVersion m) = component (sa_orgId m') @ component (sa_profileId m') @
      component (sa_itemId m') @ u32be (sa_keyVersion m')"
    using eq by (simp add: buildServerAad_def)
  from component_split [OF nf(1,4) e1] have 1: "sa_orgId m = sa_orgId m'"
    and e2: "component (sa_profileId m) @ component (sa_itemId m) @ u32be (sa_keyVersion m) =
      component (sa_profileId m') @ component (sa_itemId m') @ u32be (sa_keyVersion m')" by auto
  from component_split [OF nf(2,5) e2] have 2: "sa_profileId m = sa_profileId m'"
    and e3: "component (sa_itemId m) @ u32be (sa_keyVersion m) =
      component (sa_itemId m') @ u32be (sa_keyVersion m')" by auto
  from component_split [OF nf(3,6) e3] have 3: "sa_itemId m = sa_itemId m'"
    and e4: "u32be (sa_keyVersion m) = u32be (sa_keyVersion m')" by auto
  have "sa_keyVersion m = sa_keyVersion m'" using u32.enc_eq_imp [OF r e4] .
  with 1 2 3 show ?thesis by simp
qed

lemma buildServerDekWrapAad_eqD:
  assumes "nul_free a" "nul_free b" "nul_free a'" "nul_free b'"
    and eq: "buildServerDekWrapAad a b = buildServerDekWrapAad a' b'"
  shows "a = a' \<and> b = b'"
proof -
  have e1: "component a @ component b @ [] = component a' @ component b' @ []"
    using eq by (simp add: buildServerDekWrapAad_def)
  from component_split [OF assms(1,3) e1] have "a = a'" "component b @ [] = component b' @ []"
    by auto
  with component_split [OF assms(2,4), of "[]" "[]"] show ?thesis by simp
qed

section \<open>One namespace\<close>

text \<open>A call site is one of the five layouts with its arguments; the bytes it authenticates determine
  it, provided identifiers hold no NUL and integers fit 32 bits.\<close>

datatype aad_call =
    Server_content server_aad_meta
  | Server_dek string string
  | Zk_content string string int
  | Zk_dek string string
  | Zk_root string int

fun aad_bytes :: "aad_call \<Rightarrow> bytes" where
  "aad_bytes (Server_content m) = buildServerAad m"
| "aad_bytes (Server_dek t p) = buildServerDekWrapAad t p"
| "aad_bytes (Zk_content p i v) = buildZkContentAad p i v"
| "aad_bytes (Zk_dek p i) = buildZkDekWrapAad p i"
| "aad_bytes (Zk_root p v) = buildZkRootWrapAad p v"

fun aad_call_ok :: "aad_call \<Rightarrow> bool" where
  "aad_call_ok (Server_content m) = server_meta_ok m"
| "aad_call_ok (Server_dek t p) = (nul_free t \<and> nul_free p)"
| "aad_call_ok (Zk_content p i v) = (nul_free p \<and> nul_free i \<and> u32_range v)"
| "aad_call_ok (Zk_dek p i) = (nul_free p \<and> nul_free i)"
| "aad_call_ok (Zk_root p v) = (nul_free p \<and> u32_range v)"

fun aad_tag :: "aad_call \<Rightarrow> string" where
  "aad_tag (Server_content _) = ''abadge-sm-v1''"
| "aad_tag (Server_dek _ _) = ''abadge-sm-dek-v1''"
| "aad_tag (Zk_content _ _ _) = ''abadge-zk-content-v1''"
| "aad_tag (Zk_dek _ _) = ''abadge-zk-dek-v1''"
| "aad_tag (Zk_root _ _) = ''abadge-zk-root-v1''"

lemma aad_tag_nul_free: "nul_free (aad_tag a)"
  by (cases a) (simp_all add: nul_free_def NUL_def)

lemma aad_bytes_tagged: "\<exists>r. aad_bytes a = component (aad_tag a) @ r"
  by (cases a) (simp_all add: aad_defs)

lemma aad_bytes_tag_eq: "aad_bytes a = aad_bytes b \<Longrightarrow> aad_tag a = aad_tag b"
  using aad_bytes_tagged [of a] aad_bytes_tagged [of b] component_tags_differ aad_tag_nul_free
  by metis

lemma buildZkContentAad_eqD:
  assumes "nul_free a" "nul_free b" "nul_free a'" "nul_free b'" "u32_range v" "u32_range v'"
    and eq: "buildZkContentAad a b v = buildZkContentAad a' b' v'"
  shows "a = a' \<and> b = b' \<and> v = v'"
proof -
  have "component a @ component b @ u32be v = component a' @ component b' @ u32be v'"
    using eq by (simp add: buildZkContentAad_def)
  with assms component_split u32.enc_eq_imp show ?thesis by metis
qed

lemma buildZkDekWrapAad_eqD:
  assumes "nul_free a" "nul_free b" "nul_free a'" "nul_free b'"
    and eq: "buildZkDekWrapAad a b = buildZkDekWrapAad a' b'"
  shows "a = a' \<and> b = b'"
proof -
  have "component a @ component b @ [] = component a' @ component b' @ []"
    using eq by (simp add: buildZkDekWrapAad_def)
  with assms component_split show ?thesis by metis
qed

lemma buildZkRootWrapAad_eqD:
  assumes "nul_free a" "nul_free a'" "u32_range v" "u32_range v'"
    and eq: "buildZkRootWrapAad a v = buildZkRootWrapAad a' v'"
  shows "a = a' \<and> v = v'"
proof -
  have "component a @ u32be v = component a' @ u32be v'"
    using eq by (simp add: buildZkRootWrapAad_def)
  with assms component_split u32.enc_eq_imp show ?thesis by metis
qed

text \<open>The additional authenticated data of the five AEAD call sites forms one injective
  namespace. If two calls, of whatever kind, authenticate the same bytes then they are the same
  call with the same organisation, profile, item and version; a ciphertext of one kind is never
  valid additional-data-wise for another kind or for another row. The identifiers must not contain
  the terminator byte and the versions must fit the 32-bit field.\<close>

theorem aad_namespaces_disjoint:
  assumes "aad_call_ok a" "aad_call_ok b"
  shows "aad_bytes a = aad_bytes b \<longleftrightarrow> a = b"
proof
  assume eq: "aad_bytes a = aad_bytes b"
  with assms aad_bytes_tag_eq [OF eq] show "a = b"
    by (cases a; cases b)
      (auto dest: buildServerAad_eqD buildServerDekWrapAad_eqD [rotated 4]
        buildZkContentAad_eqD [rotated 6] buildZkDekWrapAad_eqD [rotated 4]
        buildZkRootWrapAad_eqD [rotated 4])
qed simp

theorem aad_namespaces_disjoint_witness:
  "aad_bytes (Server_dek ''p'' ''i'') \<noteq> aad_bytes (Zk_dek ''p'' ''i'')"
  using aad_namespaces_disjoint [of "Server_dek ''p'' ''i''" "Zk_dek ''p'' ''i''"]
  by (simp add: nul_free_def NUL_def)

end
