(* ===== verification/Server_Crypto.thy ===== *)
theory Server_Crypto
  imports Server Aad
begin

unbundle bit_operations_syntax

text \<open>
  Server-side encryption of \<open>packages/crypto/src/server/encrypt.ts\<close>. The WebCrypto primitives
  (AES-256-GCM, HMAC-SHA256, SHA-256) are not code of the repository: they are the fields of the
  parameter \<open>webcrypto\<close>, and what the code relies on is stated by the predicates
  \<open>aead_correct\<close> (decryption inverts encryption under the same key, nonce and additional data),
  \<open>aead_binding\<close> (decryption under other additional data fails), \<open>hmac_length\<close> and \<open>hmac_committing\<close>.
\<close>

record webcrypto =
  wc_encrypt :: "bytes \<Rightarrow> bytes \<Rightarrow> bytes option \<Rightarrow> bytes \<Rightarrow> bytes"
  wc_decrypt :: "bytes \<Rightarrow> bytes \<Rightarrow> bytes option \<Rightarrow> bytes \<Rightarrow> bytes option"
  wc_hmac :: "bytes \<Rightarrow> bytes \<Rightarrow> bytes"
  wc_sha256 :: "bytes \<Rightarrow> bytes"

definition aead_correct :: "webcrypto \<Rightarrow> bool" where
  "aead_correct wc = (\<forall>k iv a p. wc_decrypt wc k iv a (wc_encrypt wc k iv a p) = Some p)"

definition aead_binding :: "webcrypto \<Rightarrow> bool" where
  "aead_binding wc =
     (\<forall>k iv a a' p. a \<noteq> a' \<longrightarrow> wc_decrypt wc k iv a' (wc_encrypt wc k iv a p) = None)"

definition hmac_length :: "webcrypto \<Rightarrow> bool" where
  "hmac_length wc = (\<forall>k x. length (wc_hmac wc k x) = 32)"

text \<open>The commitment separates 32-byte keys (collision resistance of HMAC-SHA256 at that length).\<close>

definition hmac_committing :: "webcrypto \<Rightarrow> bool" where
  "hmac_committing wc = (\<forall>k k' x. length k = 32 \<longrightarrow> length k' = 32 \<longrightarrow>
     wc_hmac wc k x = wc_hmac wc k' x \<longrightarrow> k = k')"

section \<open>Keys and commitments\<close>

definition IV_LENGTH :: nat where
  "IV_LENGTH = 12"

definition DEK_LENGTH :: nat where
  "DEK_LENGTH = 32"

definition COMMIT_MIN_VERSION :: int where
  "COMMIT_MIN_VERSION = 4"

definition COMMITMENT_LENGTH :: nat where
  "COMMITMENT_LENGTH = 32"

definition COMMITMENT_CONTEXT :: bytes where
  "COMMITMENT_CONTEXT = encode_text ''abadge/server-envelope/key-commitment/v1''"

definition decode_base64 :: "string \<Rightarrow> err + bytes" where
  "decode_base64 s = (case fromBase64 s of None \<Rightarrow> Inl (PlainErr ''InvalidCharacterError'') | Some b \<Rightarrow> Inr b)"

definition importKey :: "string \<Rightarrow> err + bytes" where
  "importKey base64Key = (case decode_base64 base64Key of
      Inl e \<Rightarrow> Inl e
    | Inr raw \<Rightarrow> if length raw \<noteq> 32
        then Inl (PlainErr ''ENCRYPTION_KEY must decode to exactly 32 bytes'') else Inr raw)"

definition keyCommitment :: "webcrypto \<Rightarrow> string \<Rightarrow> err + bytes" where
  "keyCommitment wc base64Key = (case decode_base64 base64Key of
      Inl e \<Rightarrow> Inl e | Inr raw \<Rightarrow> Inr (wc_hmac wc raw COMMITMENT_CONTEXT))"

text \<open>The loop accumulates the disjunction of all byte differences.\<close>

definition constantTimeEqual :: "bytes \<Rightarrow> bytes \<Rightarrow> bool" where
  "constantTimeEqual a b =
     (if length a \<noteq> length b then False
      else fold (\<lambda>(x, y) diff. diff OR (x XOR y)) (zip a b) 0 = 0)"

section \<open>Content\<close>

record server_encrypted =
  se_ciphertext :: string
  se_iv :: string
  se_keyVersion :: int

definition lift_result :: "err + 'a \<Rightarrow> 'a server" where
  "lift_result r = (\<lambda>w. (r, w))"

definition serverEncrypt ::
  "webcrypto \<Rightarrow> bytes \<Rightarrow> string \<Rightarrow> int \<Rightarrow> server_aad_meta option \<Rightarrow> server_encrypted server" where
  "serverEncrypt wc plaintext base64Key keyVersion aadMeta =
     andThen (lift_result (importKey base64Key)) (\<lambda>key.
     andThen (randomBytes IV_LENGTH) (\<lambda>iv.
       let encrypted = wc_encrypt wc key iv (map_option buildServerAad aadMeta) plaintext in
       if keyVersion \<ge> COMMIT_MIN_VERSION
       then andThen (lift_result (keyCommitment wc base64Key)) (\<lambda>commitment.
              succeed \<lparr>se_ciphertext = toBase64 (commitment @ encrypted), se_iv = toBase64 iv,
                       se_keyVersion = keyVersion\<rparr>)
       else succeed \<lparr>se_ciphertext = toBase64 encrypted, se_iv = toBase64 iv,
                     se_keyVersion = keyVersion\<rparr>))"

definition gcm_decrypt :: "webcrypto \<Rightarrow> bytes \<Rightarrow> bytes \<Rightarrow> bytes option \<Rightarrow> bytes \<Rightarrow> err + bytes" where
  "gcm_decrypt wc key iv aad c =
     (case wc_decrypt wc key iv aad c of None \<Rightarrow> Inl (PlainErr ''OperationError'') | Some p \<Rightarrow> Inr p)"

definition serverDecrypt ::
  "webcrypto \<Rightarrow> server_encrypted \<Rightarrow> string \<Rightarrow> server_aad_meta option \<Rightarrow> err + bytes" where
  "serverDecrypt wc item base64Key aadMeta =
     (case importKey base64Key of Inl e \<Rightarrow> Inl e | Inr key \<Rightarrow>
      case decode_base64 (se_ciphertext item) of Inl e \<Rightarrow> Inl e | Inr ciphertext \<Rightarrow>
      case decode_base64 (se_iv item) of Inl e \<Rightarrow> Inl e | Inr iv \<Rightarrow>
      if se_keyVersion item \<ge> COMMIT_MIN_VERSION
      then (case keyCommitment wc base64Key of Inl e \<Rightarrow> Inl e | Inr expected \<Rightarrow>
            if \<not> constantTimeEqual (take COMMITMENT_LENGTH ciphertext) expected
            then Inl (PlainErr ''server-managed key-commitment mismatch'')
            else gcm_decrypt wc key iv (map_option buildServerAad aadMeta)
                   (drop COMMITMENT_LENGTH ciphertext))
      else gcm_decrypt wc key iv (map_option buildServerAad aadMeta) ciphertext)"

section \<open>Per-profile data keys\<close>

definition generateServerDek :: "bytes server" where
  "generateServerDek = randomBytes DEK_LENGTH"

definition wrapServerDek :: "webcrypto \<Rightarrow> string \<Rightarrow> bytes \<Rightarrow> string \<Rightarrow> string \<Rightarrow> string server" where
  "wrapServerDek wc masterKey dek orgId profileId =
     (if length dek \<noteq> DEK_LENGTH then fail_with (PlainErr ''server DEK must be 32 bytes'')
      else andThen (lift_result (importKey masterKey)) (\<lambda>key.
           andThen (randomBytes IV_LENGTH) (\<lambda>iv.
             succeed (toBase64 (iv @
               wc_encrypt wc key iv (Some (buildServerDekWrapAad orgId profileId)) dek)))))"

definition unwrapServerDek :: "webcrypto \<Rightarrow> string \<Rightarrow> string \<Rightarrow> string \<Rightarrow> string \<Rightarrow> err + bytes" where
  "unwrapServerDek wc masterKey wrapped orgId profileId =
     (case importKey masterKey of Inl e \<Rightarrow> Inl e | Inr key \<Rightarrow>
      case decode_base64 wrapped of Inl e \<Rightarrow> Inl e | Inr combined \<Rightarrow>
      case gcm_decrypt wc key (take IV_LENGTH combined)
             (Some (buildServerDekWrapAad orgId profileId)) (drop IV_LENGTH combined) of
        Inl e \<Rightarrow> Inl e
      | Inr dek \<Rightarrow> if length dek \<noteq> DEK_LENGTH
          then Inl (PlainErr ''unwrapped server DEK must be 32 bytes'') else Inr dek)"

section \<open>Facts\<close>

lemma decode_toBase64 [simp]: "decode_base64 (toBase64 b) = Inr b"
  by (simp add: decode_base64_def fromBase64_toBase64)

lemma importKey_toBase64 [simp]: "length k = 32 \<Longrightarrow> importKey (toBase64 k) = Inr k"
  by (simp add: importKey_def)

lemma importKey_ok: "importKey k = Inr raw \<longleftrightarrow> decode_base64 k = Inr raw \<and> length raw = 32"
  by (auto simp: importKey_def split: sum.splits if_splits)

lemma or_xor_zero: "(d :: byte) OR (x XOR y) = 0 \<longleftrightarrow> d = 0 \<and> x = y"
  by (auto simp: bit_eq_iff bit_or_iff bit_xor_iff)

lemma fold_differences:
  "fold (\<lambda>(x, y) diff. diff OR (x XOR y)) ps d = (0 :: byte) \<longleftrightarrow> d = 0 \<and> (\<forall>(x, y) \<in> set ps. x = y)"
  by (induction ps arbitrary: d) (auto simp: or_xor_zero)

lemma constantTimeEqual_eq: "constantTimeEqual a b \<longleftrightarrow> a = b"
proof
  assume "constantTimeEqual a b"
  then have l: "length a = length b" and "\<forall>(x, y) \<in> set (zip a b). x = y"
    by (auto simp: constantTimeEqual_def fold_differences split: if_splits)
  then show "a = b" by (simp add: list_eq_iff_zip_eq)
next
  assume "a = b"
  then show "constantTimeEqual a b"
    by (auto simp: constantTimeEqual_def fold_differences zip_same)
qed

lemma serverEncrypt_ok:
  "serverEncrypt wc p k v aad w = (Inr c, w') \<Longrightarrow>
   (\<exists>key. importKey k = Inr key \<and> w' = w\<lparr>draws := Suc (draws w)\<rparr> \<and>
      (let iv = randoms w (draws w) IV_LENGTH;
           body = wc_encrypt wc key iv (map_option buildServerAad aad) p
       in c = \<lparr>se_ciphertext = toBase64 (if v \<ge> COMMIT_MIN_VERSION
                  then wc_hmac wc key COMMITMENT_CONTEXT @ body else body),
               se_iv = toBase64 iv, se_keyVersion = v\<rparr>))"
  by (auto simp: serverEncrypt_def eff_defs lift_result_def keyCommitment_def importKey_ok Let_def
      split: sum.splits if_splits)

lemma serverDecrypt_of_parts:
  assumes "importKey k = Inr key" and "hmac_length wc"
  shows "serverDecrypt wc \<lparr>se_ciphertext = toBase64 (if v \<ge> COMMIT_MIN_VERSION
             then wc_hmac wc key COMMITMENT_CONTEXT @ body else body),
           se_iv = toBase64 iv, se_keyVersion = v\<rparr> k aad
         = gcm_decrypt wc key iv (map_option buildServerAad aad) body"
proof -
  have "decode_base64 k = Inr key" using assms(1) by (simp add: importKey_ok)
  with assms show ?thesis
    by (simp add: serverDecrypt_def keyCommitment_def constantTimeEqual_eq
        COMMITMENT_LENGTH_def hmac_length_def)
qed

lemma serverDecrypt_serverEncrypt:
  assumes "aead_correct wc" "hmac_length wc"
    and "serverEncrypt wc p k v aad w = (Inr c, w')"
  shows "serverDecrypt wc c k aad = Inr p"
  using serverEncrypt_ok [OF assms(3)] serverDecrypt_of_parts [OF _ assms(2)] assms(1)
  by (auto simp: Let_def gcm_decrypt_def aead_correct_def)

lemma serverDecrypt_other_aad:
  assumes "aead_binding wc" "hmac_length wc"
    and "serverEncrypt wc p k v (Some m) w = (Inr c, w')"
    and "server_meta_ok m" "server_meta_ok m'" "m \<noteq> m'"
  shows "serverDecrypt wc c k (Some m') = Inl (PlainErr ''OperationError'')"
proof -
  have "buildServerAad m \<noteq> buildServerAad m'" using buildServerAad_eqD assms(4-6) by blast
  then show ?thesis
    using serverEncrypt_ok [OF assms(3)] serverDecrypt_of_parts [OF _ assms(2)] assms(1)
    by (auto simp: Let_def gcm_decrypt_def aead_binding_def)
qed

lemma serverDecrypt_wrong_commitment:
  assumes "serverDecrypt wc c k aad = Inr p" "se_keyVersion c \<ge> COMMIT_MIN_VERSION"
  shows "\<exists>key body. importKey k = Inr key \<and>
           decode_base64 (se_ciphertext c) = Inr (wc_hmac wc key COMMITMENT_CONTEXT @ body)"
  using assms
  by (auto simp: serverDecrypt_def keyCommitment_def importKey_ok constantTimeEqual_eq
      split: sum.splits if_splits) (metis append_take_drop_id)

lemma wrapServerDek_ok:
  "wrapServerDek wc mk dek t p w = (Inr s, w') \<Longrightarrow>
   \<exists>key. importKey mk = Inr key \<and> length dek = 32 \<and> w' = w\<lparr>draws := Suc (draws w)\<rparr> \<and>
     (let iv = randoms w (draws w) IV_LENGTH in
      s = toBase64 (iv @ wc_encrypt wc key iv (Some (buildServerDekWrapAad t p)) dek))"
  by (auto simp: wrapServerDek_def eff_defs lift_result_def DEK_LENGTH_def Let_def
      split: sum.splits if_splits)

lemma unwrap_wrapServerDek:
  assumes "aead_correct wc" "\<And>d n. length (randoms w d n) = n"
    and "wrapServerDek wc mk dek t p w = (Inr s, w')"
  shows "unwrapServerDek wc mk s t p = Inr dek"
  using wrapServerDek_ok [OF assms(3)] assms(1,2)
  by (auto simp: unwrapServerDek_def Let_def gcm_decrypt_def aead_correct_def DEK_LENGTH_def)

lemma unwrapServerDek_length: "unwrapServerDek wc mk s t p = Inr dek \<Longrightarrow> length dek = 32"
  by (auto simp: unwrapServerDek_def DEK_LENGTH_def split: sum.splits if_splits)

end
