(* ===== verification/Server_Envelope.thy ===== *)
theory Server_Envelope
  imports Server_Crypto
begin

text \<open>
  The versioned envelope of server-managed items (\<open>packages/trpc/src/server/server-envelope.ts\<close>):
  which key and which additional data a stored row is decrypted with, the race-safe provisioning
  of a profile's data key, and the encryption of a payload with its nonce-budget counter. The
  master key and the primitives are arguments.
\<close>

definition SERVER_DEK_MIN_VERSION :: int where
  "SERVER_DEK_MIN_VERSION = 3"

definition SERVER_ENVELOPE_VERSION :: int where
  "SERVER_ENVELOPE_VERSION = 4"

definition aadFor :: "string \<Rightarrow> string \<Rightarrow> string option \<Rightarrow> int \<Rightarrow> server_aad_meta option" where
  "aadFor orgId itemId profileId keyVersion =
     (if keyVersion \<ge> SERVER_AAD_MIN_VERSION
      then Some \<lparr>sa_orgId = orgId, sa_profileId = profileIdForServerAad profileId,
                 sa_itemId = itemId, sa_keyVersion = keyVersion\<rparr>
      else None)"

text \<open>The query is by primary key alone.\<close>

definition wrapped_dek :: "string \<Rightarrow> db \<Rightarrow> string option" where
  "wrapped_dek profileId d =
     (case find (\<lambda>p. prof_id p = profileId) (tbl_profiles d) of
        None \<Rightarrow> None | Some p \<Rightarrow> prof_serverWrappedDek p)"

definition loadWrappedDek :: "string \<Rightarrow> string option server" where
  "loadWrappedDek profileId = select (wrapped_dek profileId)"

definition unwrap_key :: "webcrypto \<Rightarrow> string \<Rightarrow> string \<Rightarrow> string \<Rightarrow> string \<Rightarrow> string server" where
  "unwrap_key wc mk wrapped orgId profileId =
     andThen (lift_result (unwrapServerDek wc mk wrapped orgId profileId)) (\<lambda>dek. succeed (toBase64 dek))"

definition loadProfileContentKey :: "webcrypto \<Rightarrow> string \<Rightarrow> string \<Rightarrow> string \<Rightarrow> string server" where
  "loadProfileContentKey wc mk orgId profileId =
     andThen (loadWrappedDek profileId) (\<lambda>wrapped.
       if falsy wrapped then fail_with (PlainErr ''server decrypt: profile has no wrapped DEK'')
       else unwrap_key wc mk (the wrapped) orgId profileId)"

text \<open>Which content key a version needs: the master key below version 3, the profile's data key
  (a caller may pass one it has unwrapped already) from version 3.\<close>

definition content_key ::
  "webcrypto \<Rightarrow> string \<Rightarrow> string \<Rightarrow> string option \<Rightarrow> int \<Rightarrow> string option \<Rightarrow> string server" where
  "content_key wc mk orgId profileId keyVersion cachedContentKey =
     (if keyVersion \<ge> SERVER_DEK_MIN_VERSION then
        (if falsy profileId then fail_with (PlainErr ''server item has no profileId'')
         else case cachedContentKey of
            Some k \<Rightarrow> succeed k
          | None \<Rightarrow> loadProfileContentKey wc mk orgId (the profileId))
      else succeed mk)"

definition decryptServerEnvelope ::
  "webcrypto \<Rightarrow> string \<Rightarrow> string \<Rightarrow> item_row \<Rightarrow> string option \<Rightarrow> bytes server" where
  "decryptServerEnvelope wc mk orgId item cachedContentKey =
     (case (item_serverCiphertext item, item_serverIv item, item_serverKeyVersion item) of
        (Some ciphertext, Some iv, Some keyVersion) \<Rightarrow>
          andThen (content_key wc mk orgId (item_profileId item) keyVersion cachedContentKey)
            (\<lambda>contentKey. lift_result (serverDecrypt wc
               \<lparr>se_ciphertext = ciphertext, se_iv = iv, se_keyVersion = keyVersion\<rparr> contentKey
               (aadFor orgId (item_id item) (item_profileId item) keyVersion)))
      | _ \<Rightarrow> fail_with (PlainErr ''server item is missing ciphertext/iv/keyVersion''))"

section \<open>Encryption\<close>

text \<open>\<open>UPDATE profiles SET server_wrapped_dek = ? WHERE id = ? AND server_wrapped_dek IS NULL\<close>.\<close>

definition adopt_dek :: "string \<Rightarrow> string \<Rightarrow> db \<Rightarrow> db" where
  "adopt_dek profileId wrapped d = d\<lparr>tbl_profiles := map (\<lambda>p.
     if prof_id p = profileId \<and> prof_serverWrappedDek p = None
     then p\<lparr>prof_serverWrappedDek := Some wrapped\<rparr> else p) (tbl_profiles d)\<rparr>"

text \<open>Write the candidate unless another writer was first, and read back the key that won.\<close>

definition adopt_and_reload :: "webcrypto \<Rightarrow> string \<Rightarrow> string \<Rightarrow> string \<Rightarrow> string \<Rightarrow> string server" where
  "adopt_and_reload wc mk orgId profileId wrapped =
     followed_by (modify (adopt_dek profileId wrapped))
     (andThen (loadWrappedDek profileId) (\<lambda>current.
        if falsy current then fail_with (PlainErr ''failed to provision server DEK'')
        else unwrap_key wc mk (the current) orgId profileId))"

definition ensureProfileDek :: "webcrypto \<Rightarrow> string \<Rightarrow> string \<Rightarrow> string \<Rightarrow> string server" where
  "ensureProfileDek wc mk orgId profileId =
     andThen (loadWrappedDek profileId) (\<lambda>existing.
       if truthy existing then unwrap_key wc mk (the existing) orgId profileId
       else andThen generateServerDek (\<lambda>dek.
            andThen (wrapServerDek wc mk dek orgId profileId)
              (adopt_and_reload wc mk orgId profileId)))"

definition count_encryption :: "string \<Rightarrow> db \<Rightarrow> db" where
  "count_encryption profileId d = d\<lparr>tbl_profiles := map (\<lambda>p.
     if prof_id p = profileId
     then p\<lparr>prof_serverEncryptionCount := prof_serverEncryptionCount p + 1\<rparr> else p) (tbl_profiles d)\<rparr>"

definition encryptServerEnvelope ::
  "webcrypto \<Rightarrow> string \<Rightarrow> string \<Rightarrow> string option \<Rightarrow> string \<Rightarrow> bytes \<Rightarrow> server_encrypted server" where
  "encryptServerEnvelope wc mk orgId profileId itemId plaintext =
     (let keyVersion = (if truthy profileId then SERVER_ENVELOPE_VERSION else SERVER_AAD_MIN_VERSION) in
      andThen (if truthy profileId then ensureProfileDek wc mk orgId (the profileId) else succeed mk)
        (\<lambda>contentKey.
      andThen (serverEncrypt wc plaintext contentKey keyVersion
                 (Some \<lparr>sa_orgId = orgId, sa_profileId = profileIdForServerAad profileId,
                        sa_itemId = itemId, sa_keyVersion = keyVersion\<rparr>)) (\<lambda>result.
      followed_by
        (if truthy profileId
         then catch_all (modify (count_encryption (the profileId))) (\<lambda>_. succeed ())
         else succeed ())
        (succeed result))))"

section \<open>Facts\<close>

lemma find_map_same:
  assumes "\<And>p. P (f p) = P p"
  shows "find P (map f ps) = map_option f (find P ps)"
  using assms by (induction ps) auto

lemma wrapped_dek_adopt:
  "wrapped_dek p (adopt_dek p s d) =
     (if (\<exists>q \<in> set (tbl_profiles d). prof_id q = p)
      then Some (orElse (wrapped_dek p d) s) else None)"
proof -
  have f: "find (\<lambda>q. prof_id q = p) (tbl_profiles (adopt_dek p s d)) =
     map_option (\<lambda>q. if prof_id q = p \<and> prof_serverWrappedDek q = None
       then q\<lparr>prof_serverWrappedDek := Some s\<rparr> else q)
       (find (\<lambda>q. prof_id q = p) (tbl_profiles d))"
    unfolding adopt_dek_def by (simp add: find_map_same)
  show ?thesis
  proof (cases "find (\<lambda>q. prof_id q = p) (tbl_profiles d)")
    case None
    then show ?thesis using f by (auto simp: wrapped_dek_def dest: find_NoneD)
  next
    case (Some q)
    then show ?thesis using f find_SomeD [OF Some]
      by (auto simp: wrapped_dek_def split: option.splits)
  qed
qed

lemma wrapped_dek_count [simp]: "wrapped_dek p (count_encryption q d) = wrapped_dek p d"
proof -
  have "find (\<lambda>r. prof_id r = p) (tbl_profiles (count_encryption q d)) =
     map_option (\<lambda>r. if prof_id r = q
       then r\<lparr>prof_serverEncryptionCount := prof_serverEncryptionCount r + 1\<rparr> else r)
       (find (\<lambda>r. prof_id r = p) (tbl_profiles d))"
    unfolding count_encryption_def by (simp add: find_map_same)
  then show ?thesis by (auto simp: wrapped_dek_def split: option.splits)
qed

text \<open>Two successive provisionings agree: the key adopted first stays.\<close>

lemma adopt_dek_first_wins:
  "wrapped_dek p d = Some s \<Longrightarrow> wrapped_dek p (adopt_dek p s' d) = Some s"
proof -
  assume s: "wrapped_dek p d = Some s"
  then have "\<exists>q \<in> set (tbl_profiles d). prof_id q = p"
    by (auto simp: wrapped_dek_def split: option.splits dest: find_SomeD)
  with s show ?thesis by (simp add: wrapped_dek_adopt)
qed

lemma unwrap_key_ok:
  "unwrap_key wc mk s t p w = (Inr k, w') \<longleftrightarrow>
     (\<exists>dek. unwrapServerDek wc mk s t p = Inr dek \<and> k = toBase64 dek \<and> w' = w)"
  by (auto simp: unwrap_key_def eff_defs lift_result_def split: sum.splits)

lemma loadWrappedDek_ok:
  "loadWrappedDek p w = (Inr x, w') \<longleftrightarrow>
     faults w (stmts w) = None \<and> x = wrapped_dek p (store w) \<and> w' = w\<lparr>stmts := Suc (stmts w)\<rparr>"
  by (simp add: loadWrappedDek_def select_ok)

text \<open>What a successful provisioning leaves: a stored wrapped key that unwraps to the returned one.\<close>

definition provisioned :: "webcrypto \<Rightarrow> string \<Rightarrow> string \<Rightarrow> string \<Rightarrow> db \<Rightarrow> string \<Rightarrow> bool" where
  "provisioned wc mk orgId profileId d k =
     (\<exists>s dek. wrapped_dek profileId d = Some s \<and> s \<noteq> [] \<and>
        unwrapServerDek wc mk s orgId profileId = Inr dek \<and> k = toBase64 dek)"

lemma ensureProfileDek_ok:
  assumes "ensureProfileDek wc mk t p w = (Inr k, w')"
  shows "provisioned wc mk t p (store w') k" and "faults w' = faults w"
  using assms
  by (auto simp: ensureProfileDek_def adopt_and_reload_def followed_by_def andThen_Inr loadWrappedDek_ok unwrap_key_ok
      modify_ok generateServerDek_def fail_with_def provisioned_def
      dest!: wrapServerDek_ok elim!: truthyE split: if_splits)

lemma loadProfileContentKey_provisioned:
  assumes "provisioned wc mk t p (store w) k" "faults w (stmts w) = None"
  shows "loadProfileContentKey wc mk t p w = (Inr k, w\<lparr>stmts := Suc (stmts w)\<rparr>)"
  using assms
  by (auto simp: provisioned_def loadProfileContentKey_def loadWrappedDek_def select_def
      statement_def unwrap_key_def lift_result_def eff_defs)

text \<open>The row a caller stores from an encryption result.\<close>

definition stores_envelope :: "item_row \<Rightarrow> string option \<Rightarrow> string \<Rightarrow> server_encrypted \<Rightarrow> bool" where
  "stores_envelope item profileId itemId c =
     (item_id item = itemId \<and> item_profileId item = profileId \<and>
      item_serverCiphertext item = Some (se_ciphertext c) \<and> item_serverIv item = Some (se_iv c) \<and>
      item_serverKeyVersion item = Some (se_keyVersion c))"

lemma encryptServerEnvelope_ok:
  assumes "encryptServerEnvelope wc mk t p i pt w = (Inr c, w')"
  shows "\<exists>k v w1 w2. v = (if truthy p then SERVER_ENVELOPE_VERSION else SERVER_AAD_MIN_VERSION) \<and>
     serverEncrypt wc pt k v (Some \<lparr>sa_orgId = t, sa_profileId = profileIdForServerAad p,
        sa_itemId = i, sa_keyVersion = v\<rparr>) w1 = (Inr c, w2) \<and> se_keyVersion c = v \<and>
     (if truthy p then provisioned wc mk t (the p) (store w') k else k = mk)"
proof -
  let ?v = "if truthy p then SERVER_ENVELOPE_VERSION else SERVER_AAD_MIN_VERSION"
  let ?m = "\<lparr>sa_orgId = t, sa_profileId = profileIdForServerAad p, sa_itemId = i, sa_keyVersion = ?v\<rparr>"
  from assms obtain k w1 w2 where
    k: "(if truthy p then ensureProfileDek wc mk t (the p) else succeed mk) w = (Inr k, w1)"
    and c: "serverEncrypt wc pt k ?v (Some ?m) w1 = (Inr c, w2)"
    and w': "(if truthy p then catch_all (modify (count_encryption (the p))) (\<lambda>_. succeed ())
              else succeed ()) w2 = (Inr (), w')"
    unfolding encryptServerEnvelope_def Let_def followed_by_def andThen_Inr
    by (auto simp: succeed_def simp del: falsy.simps)
  have st: "store w2 = store w1" and v: "se_keyVersion c = ?v"
    using serverEncrypt_ok [OF c] by (auto simp: Let_def)
  have "if truthy p then provisioned wc mk t (the p) (store w') k else k = mk"
  proof (cases "truthy p")
    case True
    with k have "provisioned wc mk t (the p) (store w1) k" by (auto dest: ensureProfileDek_ok)
    moreover have "wrapped_dek (the p) (store w') = wrapped_dek (the p) (store w2)"
      using w' True by (auto simp: catch_all_def modify_def statement_def succeed_def split: option.splits)
    ultimately show ?thesis using True st by (simp add: provisioned_def)
  next
    case False
    with k show ?thesis by (auto simp: succeed_def)
  qed
  with c v show ?thesis by blast
qed

lemma decrypt_encryptServerEnvelope:
  assumes ok: "aead_correct wc" "hmac_length wc"
    and enc: "encryptServerEnvelope wc mk t p i pt w = (Inr c, w')"
    and row: "stores_envelope item p i c" and "\<And>n. faults w' n = None"
  shows "fst (decryptServerEnvelope wc mk t item None w') = Inr pt"
proof -
  from encryptServerEnvelope_ok [OF enc] obtain k v w1 w2 where
    v: "v = (if truthy p then SERVER_ENVELOPE_VERSION else SERVER_AAD_MIN_VERSION)"
    and c: "serverEncrypt wc pt k v (Some \<lparr>sa_orgId = t, sa_profileId = profileIdForServerAad p,
          sa_itemId = i, sa_keyVersion = v\<rparr>) w1 = (Inr c, w2)"
    and cv: "se_keyVersion c = v"
    and k: "if truthy p then provisioned wc mk t (the p) (store w') k else k = mk" by blast
  have m: "aadFor t i p v = Some \<lparr>sa_orgId = t, sa_profileId = profileIdForServerAad p,
      sa_itemId = i, sa_keyVersion = v\<rparr>"
    by (simp add: aadFor_def v SERVER_AAD_MIN_VERSION_def SERVER_ENVELOPE_VERSION_def)
  have "fst (content_key wc mk t p v None w') = Inr k"
    using k assms(5) loadProfileContentKey_provisioned [of wc mk t "the p" w' k]
    by (auto simp: content_key_def v SERVER_DEK_MIN_VERSION_def SERVER_ENVELOPE_VERSION_def
        SERVER_AAD_MIN_VERSION_def succeed_def)
  then obtain w3 where key: "content_key wc mk t p v None w' = (Inr k, w3)"
    by (metis prod.collapse)
  have "serverDecrypt wc \<lparr>se_ciphertext = se_ciphertext c, se_iv = se_iv c, se_keyVersion = v\<rparr> k
      (aadFor t i p v) = Inr pt"
    using serverDecrypt_serverEncrypt [OF ok c] m cv by (metis server_encrypted.surjective old.unit.exhaust)
  then show ?thesis
    using key row cv
    by (simp add: decryptServerEnvelope_def stores_envelope_def andThen_def lift_result_def)
qed

text \<open>Decryption changes no table.\<close>

lemma keeps_lift_result [simp, intro]: "keeps same_store (lift_result r)"
  by (simp add: keeps_def lift_result_def same_store_def env_kept_def)

lemma keeps_unwrap_key [simp, intro]: "keeps same_store (unwrap_key wc mk s t p)"
  unfolding unwrap_key_def by (intro keeps_same) simp_all

lemma keeps_loadProfileContentKey [simp, intro]:
  "keeps same_store (loadProfileContentKey wc mk t p)"
  unfolding loadProfileContentKey_def loadWrappedDek_def by (intro keeps_same) simp_all

lemma keeps_content_key [simp, intro]: "keeps same_store (content_key wc mk t p v k)"
  by (simp add: content_key_def split: option.split)

lemma keeps_decryptServerEnvelope [simp, intro]:
  "keeps same_store (decryptServerEnvelope wc mk t i k)"
  by (auto simp: decryptServerEnvelope_def intro!: keeps_same split: option.split)

end
