(* ===== verification/Samples.thy ===== *)
theory Samples
  imports Server_Crypto
begin

text \<open>
  Concrete inputs at which the conditional theorems are applied: one tenant with a profile, a
  zero-knowledge and a server-managed item, one agent with two grants, a world whose statements
  all succeed, and primitives that satisfy the hypotheses about authenticated encryption.
\<close>

definition sample_item :: item_row where
  "sample_item = \<lparr>item_id = ''i1'', item_org = ''o1'', item_profileId = Some ''p1'',
     item_createdBy = None, item_label = ''key'', item_kind = None, item_tags = [],
     item_storageMode = Zero_knowledge, item_encryptedItemKey = Some ''k'',
     item_ciphertext = Some ''c'', item_serverCiphertext = None, item_serverIv = None,
     item_serverKeyVersion = None, item_cryptoVersion = 1, item_contentVersion = 1,
     item_createdAt = 0, item_updatedAt = 0, item_deletedAt = None\<rparr>"

definition sample_profile :: profile_row where
  "sample_profile = \<lparr>prof_id = ''p1'', prof_org = ''o1'', prof_name = ''n'', prof_description = None,
     prof_externalId = None, prof_storageMode = Zero_knowledge, prof_wrappedRootKey = None,
     prof_kdfSalt = None, prof_kdfParams = None, prof_recoveryWrappedRootKey = None,
     prof_serverWrappedDek = None, prof_serverEncryptionCount = 0, prof_keyVersion = 1,
     prof_createdAt = 0, prof_updatedAt = 0\<rparr>"

definition sample_agent :: agent_row where
  "sample_agent = \<lparr>ag_id = ''a1'', ag_org = ''o1'', ag_createdBy = Some ''u1'', ag_name = ''bot'',
     ag_description = None, ag_kind = Local_cli, ag_locality = Local,
     ag_authMethod = ''public_key_session'', ag_publicKey = Some ''pk'',
     ag_enabled = True, ag_revokedAt = None, ag_lastUsedAt = None, ag_metadata = [],
     ag_createdAt = 0\<rparr>"

text \<open>A read grant on the item and a use grant on its profile.\<close>

definition sample_read_grant :: permission_row where
  "sample_read_grant = \<lparr>perm_id = ''g1'', perm_org = ''o1'', perm_agentId = ''a1'',
     perm_itemId = Some ''i1'', perm_profileId = None, perm_capability = Read_ciphertext,
     perm_expiresAt = Some 5000, perm_grantedBy = Some ''u1'', perm_createdAt = 0\<rparr>"

definition sample_use_grant :: permission_row where
  "sample_use_grant = \<lparr>perm_id = ''g2'', perm_org = ''o1'', perm_agentId = ''a1'',
     perm_itemId = None, perm_profileId = Some ''p1'', perm_capability = Cap_use,
     perm_expiresAt = None, perm_grantedBy = Some ''u1'', perm_createdAt = 0\<rparr>"

definition sample_db :: db where
  "sample_db = \<lparr>tbl_items = [sample_item], tbl_profiles = [sample_profile],
     tbl_agents = [sample_agent], tbl_agentSessions = [], tbl_enrollmentTokens = [],
     tbl_sessionChallenges = [],
     tbl_permissions = [sample_read_grant, sample_use_grant], tbl_mountReservations = [],
     tbl_members = [], tbl_userApiKeys = [], tbl_organizations = [],
     tbl_users = [], tbl_invitations = [], tbl_accountClaims = [], tbl_auditLogs = []\<rparr>"

definition sample_world :: "db \<Rightarrow> world" where
  "sample_world d = \<lparr>store = d, clock = (\<lambda>_. 1000), ticks = 0,
     uuids = (\<lambda>n. replicate (Suc n) (CHR ''u'')), randoms = (\<lambda>_ n. replicate n 7), draws = 0,
     faults = (\<lambda>_. None), stmts = 0, pg_now = 1000, mirror = [],
     unauthCounters = [], inviteInfoCounters = Map.empty\<rparr>"

lemma sample_world_sels [simp]:
  "store (sample_world d) = d" "clock (sample_world d) = (\<lambda>_. 1000)"
  "faults (sample_world d) = (\<lambda>_. None)" "stmts (sample_world d) = 0" "ticks (sample_world d) = 0"
  "draws (sample_world d) = 0" "pg_now (sample_world d) = 1000" "mirror (sample_world d) = []"
  "unauthCounters (sample_world d) = []" "inviteInfoCounters (sample_world d) = Map.empty"
  "uuids (sample_world d) = (\<lambda>n. replicate (Suc n) (CHR ''u''))"
  "randoms (sample_world d) = (\<lambda>_ n. replicate n 7)"
  by (simp_all add: sample_world_def)

lemmas sample_rows = sample_item_def sample_profile_def sample_agent_def sample_read_grant_def
  sample_use_grant_def sample_db_def

section \<open>Primitives that meet the hypotheses\<close>

text \<open>The additional data is written in front of the plaintext in a self-delimiting way.\<close>

fun toy_header :: "bytes option \<Rightarrow> bytes" where
  "toy_header None = [2]"
| "toy_header (Some []) = [0]"
| "toy_header (Some (b # bs)) = 1 # b # toy_header (Some bs)"

fun toy_strip :: "bytes \<Rightarrow> bytes \<Rightarrow> bytes option" where
  "toy_strip [] ct = Some ct"
| "toy_strip (h # hs) [] = None"
| "toy_strip (h # hs) (c # cs) = (if h = c then toy_strip hs cs else None)"

definition toy_webcrypto :: webcrypto where
  "toy_webcrypto = \<lparr>wc_encrypt = (\<lambda>_ _ aad pt. toy_header aad @ pt),
     wc_decrypt = (\<lambda>_ _ aad ct. toy_strip (toy_header aad) ct),
     wc_hmac = (\<lambda>k _. take 32 (k @ replicate 32 0)), wc_sha256 = (\<lambda>x. x)\<rparr>"

lemma toy_strip_append: "toy_strip h (h @ p) = Some p"
  by (induction h) auto

lemma toy_header_prefix_free: "toy_strip (toy_header a) (toy_header b @ p) \<noteq> None \<Longrightarrow> a = b"
proof (induction a arbitrary: b rule: toy_header.induct)
  case 1
  then show ?case by (cases b rule: toy_header.cases) (auto split: if_splits)
next
  case 2
  then show ?case by (cases b rule: toy_header.cases) (auto split: if_splits)
next
  case (3 x xs)
  then show ?case by (cases b rule: toy_header.cases) (auto split: if_splits)
qed

lemma toy_aead_correct: "aead_correct toy_webcrypto"
  by (simp add: aead_correct_def toy_webcrypto_def toy_strip_append)

lemma toy_aead_binding: "aead_binding toy_webcrypto"
  unfolding aead_binding_def toy_webcrypto_def using toy_header_prefix_free by (simp, metis)

lemma toy_hmac_length: "hmac_length toy_webcrypto"
  by (simp add: hmac_length_def toy_webcrypto_def min_def)

lemma toy_hmac_committing: "hmac_committing toy_webcrypto"
  by (simp add: hmac_committing_def toy_webcrypto_def)

end
