(* ===== verification/Envelope_Properties.thy ===== *)
theory Envelope_Properties
  imports Server_Envelope Samples
begin

text \<open>
  What the encryption of server-managed items promises: an envelope written for a row decrypts at
  that row and at no other, a commitment fixes the key, a wrapped data key unwraps at its own
  profile only, and the first data key adopted for a profile stays. The hypotheses on the
  primitives are those of \<open>Server_Crypto\<close>; \<open>Samples\<close> has primitives that meet them.
\<close>

section \<open>Provisioning returns\<close>

text \<open>The profile of a new envelope exists, and its data key is either absent or usable.\<close>

definition dek_ready :: "webcrypto \<Rightarrow> string \<Rightarrow> string \<Rightarrow> string option \<Rightarrow> db \<Rightarrow> bool" where
  "dek_ready wc mk t p d = (falsy p \<or>
     ((\<exists>q \<in> set (tbl_profiles d). prof_id q = the p) \<and>
      (wrapped_dek (the p) d = None \<or> (\<exists>k. provisioned wc mk t (the p) d k))))"

text \<open>A world whose statements succeed and whose random generator returns as many bytes as asked.\<close>

definition quiet :: "world \<Rightarrow> bool" where
  "quiet w = ((\<forall>n. faults w n = None) \<and> (\<forall>d n. length (randoms w d n) = n))"

lemma quiet_updates [simp]:
  "quiet (w\<lparr>stmts := n\<rparr>) = quiet w" "quiet (w\<lparr>draws := n\<rparr>) = quiet w"
  "quiet (w\<lparr>store := d\<rparr>) = quiet w" "quiet (w\<lparr>ticks := n\<rparr>) = quiet w"
  by (simp_all add: quiet_def)

lemma wrapServerDek_returns:
  assumes "importKey mk = Inr key" "length dek = 32" "quiet w"
  shows "\<exists>s. s \<noteq> [] \<and> wrapServerDek wc mk dek t p w = (Inr s, w\<lparr>draws := Suc (draws w)\<rparr>)"
proof -
  have "length (randoms w (draws w) 12) = 12" using assms(3) by (simp add: quiet_def)
  then have "randoms w (draws w) 12 \<noteq> []" by auto
  with assms(1,2) show ?thesis
    by (simp add: wrapServerDek_def lift_result_def eff_defs DEK_LENGTH_def IV_LENGTH_def Let_def)
qed

lemma unwrap_key_of_wrapped:
  assumes "aead_correct wc" "quiet w" "wrapServerDek wc mk dek t p w = (Inr s, w')"
  shows "unwrapServerDek wc mk s t p = Inr dek"
  using unwrap_wrapServerDek [OF assms(1) _ assms(3)] assms(2) by (simp add: quiet_def)

lemma ensureProfileDek_returns:
  assumes ok: "aead_correct wc" "importKey mk = Inr key" "quiet w"
    and ready: "dek_ready wc mk t (Some p) (store w)" "p \<noteq> []"
  shows "\<exists>dek w'. ensureProfileDek wc mk t p w = (Inr (toBase64 dek), w') \<and> quiet w' \<and>
    length dek = 32"
proof (cases "wrapped_dek p (store w)")
  case None
  let ?w1 = "w\<lparr>stmts := Suc (stmts w)\<rparr>"
  let ?w2 = "?w1\<lparr>draws := Suc (draws w)\<rparr>"
  let ?dek = "randoms w (draws w) 32"
  have l: "length ?dek = 32" using ok(3) by (simp add: quiet_def)
  have q2: "quiet ?w2" using ok(3) by simp
  obtain s where s: "s \<noteq> []" "wrapServerDek wc mk ?dek t p ?w2 = (Inr s, ?w2\<lparr>draws := Suc (draws ?w2)\<rparr>)"
    using wrapServerDek_returns [OF ok(2) l, of ?w2 wc t p] q2 by blast
  have u: "unwrapServerDek wc mk s t p = Inr ?dek"
    by (rule unwrap_key_of_wrapped [OF ok(1) _ s(2)]) (simp add: ok(3))
  have f: "faults w n = None" for n using ok(3) by (simp add: quiet_def)
  have "wrapped_dek p (adopt_dek p s (store w)) = Some s"
    using ready None by (simp add: wrapped_dek_adopt dek_ready_def)
  with f s u None l ok(3) show ?thesis
    by (auto simp: ensureProfileDek_def adopt_and_reload_def loadWrappedDek_def select_def modify_def
        statement_def followed_by_def andThen_def generateServerDek_def DEK_LENGTH_def unwrap_key_def
        lift_result_def succeed_def)
next
  case (Some s)
  have f: "faults w n = None" for n using ok(3) by (simp add: quiet_def)
  from Some ready obtain dek where "s \<noteq> []" "unwrapServerDek wc mk s t p = Inr dek"
    by (auto simp: dek_ready_def provisioned_def)
  with f Some ok(3) unwrapServerDek_length [OF this(2)] show ?thesis
    by (auto simp: ensureProfileDek_def loadWrappedDek_def select_def statement_def andThen_def
        unwrap_key_def lift_result_def succeed_def)
qed

lemma serverEncrypt_returns:
  assumes "importKey k = Inr key"
  shows "\<exists>c. serverEncrypt wc pt k v m w = (Inr c, w\<lparr>draws := Suc (draws w)\<rparr>)"
proof -
  have "keyCommitment wc k = Inr (wc_hmac wc key COMMITMENT_CONTEXT)"
    using assms by (simp add: keyCommitment_def importKey_ok)
  with assms show ?thesis
    by (simp add: serverEncrypt_def lift_result_def andThen_def succeed_def Let_def)
qed

lemma encryptServerEnvelope_returns:
  assumes ok: "aead_correct wc" "importKey mk = Inr key" "quiet w"
    and ready: "dek_ready wc mk t p (store w)"
  shows "\<exists>c w'. encryptServerEnvelope wc mk t p i pt w = (Inr c, w') \<and> quiet w'"
proof -
  obtain k raw w1 where k: "(if truthy p then ensureProfileDek wc mk t (the p) else succeed mk) w =
      (Inr k, w1)" "quiet w1" "importKey k = Inr raw"
  proof (cases "truthy p")
    case True
    then have r: "dek_ready wc mk t (Some (the p)) (store w)" "the p \<noteq> []"
      using ready by (auto simp: dek_ready_def elim: truthyE)
    from ensureProfileDek_returns [OF ok r] that True show ?thesis by auto
  next
    case False
    with that [of mk w key] ok show ?thesis by (simp add: succeed_def)
  qed
  let ?v = "if truthy p then SERVER_ENVELOPE_VERSION else SERVER_AAD_MIN_VERSION"
  let ?m = "Some \<lparr>sa_orgId = t, sa_profileId = profileIdForServerAad p, sa_itemId = i, sa_keyVersion = ?v\<rparr>"
  let ?w2 = "w1\<lparr>draws := Suc (draws w1)\<rparr>"
  obtain c where c: "serverEncrypt wc pt k ?v ?m w1 = (Inr c, ?w2)"
    using serverEncrypt_returns [OF k(3)] by blast
  have "quiet ?w2" using k(2) by simp
  then have "\<And>n. faults ?w2 n = None" by (simp only: quiet_def)
  with k(1,2) c show ?thesis
    unfolding encryptServerEnvelope_def Let_def followed_by_def
    by (simp add: andThen_def catch_all_def modify_def statement_def succeed_def)
qed

text \<open>C11: for a valid master key, a profile whose data key is absent or usable, statements
  that succeed and a random generator of the right length, encrypting a payload returns an
  envelope (provisioning the profile's data key on first use), and decrypting the stored row with
  the same coordinates returns exactly the payload that was encrypted. For an item without a
  profile the master key is used, with the same result.\<close>

theorem envelope_round_trip:
  assumes "aead_correct wc" "hmac_length wc" "importKey mk = Inr key" "quiet w"
    and "dek_ready wc mk t p (store w)"
  shows "\<exists>c w'. encryptServerEnvelope wc mk t p i pt w = (Inr c, w') \<and>
    (\<forall>item. stores_envelope item p i c \<longrightarrow>
       fst (decryptServerEnvelope wc mk t item None w') = Inr pt)"
proof -
  obtain c w' where c: "encryptServerEnvelope wc mk t p i pt w = (Inr c, w')" "quiet w'"
    using encryptServerEnvelope_returns [OF assms(1,3-5)] by blast
  then have "\<And>n. faults w' n = None" by (simp add: quiet_def)
  with decrypt_encryptServerEnvelope [OF assms(1,2) c(1)] c(1) show ?thesis by blast
qed

definition sample_master :: string where
  "sample_master = toBase64 (replicate 32 1)"

lemma sample_master_ok: "importKey sample_master = Inr (replicate 32 1)"
  by (simp add: sample_master_def)

lemma sample_world_quiet: "quiet (sample_world d)"
  by (simp add: quiet_def)

lemma sample_dek_ready: "dek_ready toy_webcrypto sample_master ''o1'' (Some ''p1'') sample_db"
  by (simp add: dek_ready_def wrapped_dek_def sample_rows)

theorem envelope_round_trip_witness:
  "\<exists>c w'. encryptServerEnvelope toy_webcrypto sample_master ''o1'' (Some ''p1'') ''i1'' [104, 105]
     (sample_world sample_db) = (Inr c, w') \<and>
    (\<forall>item. stores_envelope item (Some ''p1'') ''i1'' c \<longrightarrow>
       fst (decryptServerEnvelope toy_webcrypto sample_master ''o1'' item None w') = Inr [104, 105])"
  by (rule envelope_round_trip [OF toy_aead_correct toy_hmac_length sample_master_ok sample_world_quiet])
    (simp add: sample_dek_ready)

section \<open>An envelope belongs to one row and one key\<close>

text \<open>The commitment in front of the ciphertext is that of the encrypting key.\<close>

lemma decrypts_under_same_key:
  assumes "hmac_length wc" "hmac_committing wc"
    and "serverEncrypt wc pt k v m w = (Inr c, w')" "v \<ge> COMMIT_MIN_VERSION"
    and "serverDecrypt wc c k' m' = Inr x"
  shows "importKey k' = importKey k"
proof -
  from serverEncrypt_ok [OF assms(3)] assms(4) obtain key body where
    key: "importKey k = Inr key" "length key = 32" and v: "se_keyVersion c = v"
    and c: "decode_base64 (se_ciphertext c) = Inr (wc_hmac wc key COMMITMENT_CONTEXT @ body)"
    by (auto simp: Let_def importKey_ok)
  from serverDecrypt_wrong_commitment [OF assms(5)] v assms(4) c obtain key' body' where
    key': "importKey k' = Inr key'" "length key' = 32"
    and eq: "wc_hmac wc key COMMITMENT_CONTEXT @ body = wc_hmac wc key' COMMITMENT_CONTEXT @ body'"
    by (auto simp: importKey_ok)
  from eq assms(1) have "wc_hmac wc key COMMITMENT_CONTEXT = wc_hmac wc key' COMMITMENT_CONTEXT"
    by (simp add: hmac_length_def)
  with assms(2) key key' show ?thesis by (auto simp: hmac_committing_def)
qed

lemma serverDecrypt_key_eq:
  "importKey k = importKey k' \<Longrightarrow> serverDecrypt wc c k m = serverDecrypt wc c k' m"
  by (auto simp: serverDecrypt_def keyCommitment_def importKey_def split: sum.splits if_splits)

definition coordinates_ok :: "string \<Rightarrow> string option \<Rightarrow> string \<Rightarrow> bool" where
  "coordinates_ok t p i = (nul_free t \<and> nul_free (profileIdForServerAad p) \<and> nul_free i)"

lemma envelope_eta [simp]:
  "\<lparr>se_ciphertext = se_ciphertext c, se_iv = se_iv c, se_keyVersion = se_keyVersion c\<rparr> = c"
  by (cases c) simp

lemma decryptServerEnvelope_Inr:
  assumes "fst (decryptServerEnvelope wc mk t item cached w) = Inr x"
    and "stores_envelope item (item_profileId item) (item_id item) c"
  shows "\<exists>k w1. content_key wc mk t (item_profileId item) (se_keyVersion c) cached w = (Inr k, w1) \<and>
     serverDecrypt wc c k (aadFor t (item_id item) (item_profileId item) (se_keyVersion c)) = Inr x"
  using assms
  by (auto simp: decryptServerEnvelope_def stores_envelope_def andThen_def lift_result_def
      split: prod.splits sum.splits)

text \<open>C10: an envelope written for one organisation, profile and item, copied into a row
  with any other organisation, profile or item id, is refused there, whatever key the reader has
  cached and whatever state the database is in: a reader never obtains another row's plaintext,
  nor any plaintext, from a transplanted ciphertext.\<close>

theorem envelope_bound_to_its_row:
  assumes "aead_binding wc" "hmac_length wc" "hmac_committing wc"
    and enc: "encryptServerEnvelope wc mk t p i pt w = (Inr c, w')"
    and row: "stores_envelope item (item_profileId item) (item_id item) c"
    and ids: "coordinates_ok t p i" "coordinates_ok t' (item_profileId item) (item_id item)"
    and other: "(t', profileIdForServerAad (item_profileId item), item_id item) \<noteq>
       (t, profileIdForServerAad p, i)"
  shows "\<exists>e. fst (decryptServerEnvelope wc mk t' item cached w2) = Inl e"
proof (rule ccontr)
  assume "\<nexists>e. fst (decryptServerEnvelope wc mk t' item cached w2) = Inl e"
  then obtain x where x: "fst (decryptServerEnvelope wc mk t' item cached w2) = Inr x"
    by (cases "fst (decryptServerEnvelope wc mk t' item cached w2)") auto
  from encryptServerEnvelope_ok [OF enc] obtain k v w1 w3 where
    v: "v = (if truthy p then SERVER_ENVELOPE_VERSION else SERVER_AAD_MIN_VERSION)"
    and c: "serverEncrypt wc pt k v (Some \<lparr>sa_orgId = t, sa_profileId = profileIdForServerAad p,
       sa_itemId = i, sa_keyVersion = v\<rparr>) w1 = (Inr c, w3)"
    and cv: "se_keyVersion c = v"
    and k: "if truthy p then provisioned wc mk t (the p) (store w') k else k = mk" by blast
  let ?m = "\<lparr>sa_orgId = t, sa_profileId = profileIdForServerAad p, sa_itemId = i, sa_keyVersion = v\<rparr>"
  let ?m' = "\<lparr>sa_orgId = t', sa_profileId = profileIdForServerAad (item_profileId item),
     sa_itemId = item_id item, sa_keyVersion = v\<rparr>"
  have aad: "aadFor t' (item_id item) (item_profileId item) v = Some ?m'"
    by (simp add: v aadFor_def SERVER_AAD_MIN_VERSION_def SERVER_ENVELOPE_VERSION_def)
  from decryptServerEnvelope_Inr [OF x row] cv aad obtain k' w4 where
    key: "content_key wc mk t' (item_profileId item) v cached w2 = (Inr k', w4)"
    and dec: "serverDecrypt wc c k' (Some ?m') = Inr x" by auto
  have "importKey k' = importKey k"
  proof (cases "truthy p")
    case True
    then show ?thesis
      using decrypts_under_same_key [OF assms(2,3) c _ dec]
      by (simp add: v COMMIT_MIN_VERSION_def SERVER_ENVELOPE_VERSION_def)
  next
    case False
    with k key show ?thesis
      by (simp add: v content_key_def SERVER_DEK_MIN_VERSION_def SERVER_AAD_MIN_VERSION_def succeed_def)
  qed
  then have same: "serverDecrypt wc c k (Some ?m') = Inr x"
    using dec serverDecrypt_key_eq by metis
  have "u32_range v"
    by (simp add: v u32_range_def SERVER_AAD_MIN_VERSION_def SERVER_ENVELOPE_VERSION_def)
  with ids other have "server_meta_ok ?m" "server_meta_ok ?m'" "?m \<noteq> ?m'"
    by (auto simp: server_meta_ok_def coordinates_ok_def)
  from serverDecrypt_other_aad [OF assms(1,2) c this] same show False by simp
qed

definition sample_envelope :: server_encrypted where
  "sample_envelope = (case fst (encryptServerEnvelope toy_webcrypto sample_master ''o1'' None ''i1'' [104]
     (sample_world sample_db)) of Inr c \<Rightarrow> c | Inl _ \<Rightarrow> \<lparr>se_ciphertext = [], se_iv = [], se_keyVersion = 0\<rparr>)"

definition sample_transplant :: item_row where
  "sample_transplant = sample_item\<lparr>item_id := ''i2'', item_profileId := None,
     item_serverCiphertext := Some (se_ciphertext sample_envelope),
     item_serverIv := Some (se_iv sample_envelope),
     item_serverKeyVersion := Some (se_keyVersion sample_envelope)\<rparr>"

lemma sample_envelope_written:
  "\<exists>w'. encryptServerEnvelope toy_webcrypto sample_master ''o1'' None ''i1'' [104]
     (sample_world sample_db) = (Inr sample_envelope, w')"
proof -
  have "dek_ready toy_webcrypto sample_master ''o1'' None (store (sample_world sample_db))"
    by (simp add: dek_ready_def)
  from encryptServerEnvelope_returns [OF toy_aead_correct sample_master_ok sample_world_quiet this,
      of "''i1''" "[104]"]
  show ?thesis by (auto simp: sample_envelope_def)
qed

theorem envelope_bound_to_its_row_witness:
  "\<exists>e. fst (decryptServerEnvelope toy_webcrypto sample_master ''o1'' sample_transplant None
     (sample_world sample_db)) = Inl e"
proof -
  obtain w' where w': "encryptServerEnvelope toy_webcrypto sample_master ''o1'' None ''i1'' [104]
     (sample_world sample_db) = (Inr sample_envelope, w')" using sample_envelope_written by blast
  show ?thesis
    by (rule envelope_bound_to_its_row [OF toy_aead_binding toy_hmac_length toy_hmac_committing w'])
      (simp_all add: stores_envelope_def sample_transplant_def sample_item_def coordinates_ok_def
        nul_free_def NUL_def profileIdForServerAad_def NO_PROFILE_AAD_SENTINEL_def)
qed

section \<open>Data keys\<close>

text \<open>A profile's data key wrapped under the master key for an organisation and a profile
  unwraps to the same key for that organisation and profile, and fails to unwrap for any other
  organisation or profile.\<close>

theorem wrapped_dek_bound_to_profile:
  assumes "aead_correct wc" "aead_binding wc" "quiet w"
    and "wrapServerDek wc mk dek t p w = (Inr s, w')" "nul_free t" "nul_free p"
  shows "unwrapServerDek wc mk s t p = Inr dek \<and>
    (\<forall>t' p'. nul_free t' \<longrightarrow> nul_free p' \<longrightarrow> (t', p') \<noteq> (t, p) \<longrightarrow>
       (\<exists>e. unwrapServerDek wc mk s t' p' = Inl e))"
proof (intro conjI allI impI)
  show "unwrapServerDek wc mk s t p = Inr dek"
    by (rule unwrap_key_of_wrapped [OF assms(1,3,4)])
next
  fix t' p'
  assume "nul_free t'" "nul_free p'" "(t', p') \<noteq> (t, p)"
  with assms(5,6) buildServerDekWrapAad_eqD [of t p t' p']
  have "buildServerDekWrapAad t p \<noteq> buildServerDekWrapAad t' p'" by auto
  moreover have "length (randoms w (draws w) IV_LENGTH) = IV_LENGTH"
    using assms(3) by (simp add: quiet_def)
  ultimately show "\<exists>e. unwrapServerDek wc mk s t' p' = Inl e"
    using wrapServerDek_ok [OF assms(4)] assms(2)
    by (auto simp: unwrapServerDek_def gcm_decrypt_def aead_binding_def Let_def)
qed

theorem wrapped_dek_bound_to_profile_witness:
  "\<exists>s e. unwrapServerDek toy_webcrypto sample_master s ''o1'' ''p1'' = Inr (replicate 32 9) \<and>
     unwrapServerDek toy_webcrypto sample_master s ''o1'' ''p2'' = Inl e"
proof -
  have l: "length (replicate 32 9 :: bytes) = 32" by simp
  obtain s w' where s: "wrapServerDek toy_webcrypto sample_master (replicate 32 9) ''o1'' ''p1''
      (sample_world sample_db) = (Inr s, w')"
    using wrapServerDek_returns [OF sample_master_ok l sample_world_quiet] by blast
  have nf: "nul_free ''o1''" "nul_free ''p1''" "nul_free ''p2''" by (simp_all add: nul_free_def NUL_def)
  from wrapped_dek_bound_to_profile [OF toy_aead_correct toy_aead_binding sample_world_quiet s nf(1,2)] nf
  have "unwrapServerDek toy_webcrypto sample_master s ''o1'' ''p1'' = Inr (replicate 32 9)"
    "\<exists>e. unwrapServerDek toy_webcrypto sample_master s ''o1'' ''p2'' = Inl e" by auto
  then show ?thesis by blast
qed

lemma wrapped_dek_adopt_other:
  assumes "p \<noteq> q"
  shows "wrapped_dek p (adopt_dek q s d) = wrapped_dek p d"
proof -
  have "find (\<lambda>r. prof_id r = p) (tbl_profiles (adopt_dek q s d)) =
     map_option (\<lambda>r. if prof_id r = q \<and> prof_serverWrappedDek r = None
       then r\<lparr>prof_serverWrappedDek := Some s\<rparr> else r) (find (\<lambda>r. prof_id r = p) (tbl_profiles d))"
    unfolding adopt_dek_def by (simp add: find_map_same)
  with assms show ?thesis by (auto simp: wrapped_dek_def split: option.splits dest: find_SomeD)
qed

lemma wrapped_dek_adopts:
  "wrapped_dek p d = Some s \<Longrightarrow> wrapped_dek p (fold (\<lambda>(q, s'). adopt_dek q s') others d) = Some s"
proof (induction others arbitrary: d)
  case (Cons a as)
  obtain q s' where a: "a = (q, s')" by (cases a)
  have "wrapped_dek p (adopt_dek q s' d) = Some s"
    using Cons.prems adopt_dek_first_wins wrapped_dek_adopt_other by (cases "p = q") auto
  with Cons.IH a show ?case by simp
qed simp

lemma adopt_and_reload_ok:
  "adopt_and_reload wc mk t p s w = (Inr k, w') \<Longrightarrow>
     store w' = adopt_dek p s (store w) \<and> provisioned wc mk t p (store w') k"
  by (auto simp: adopt_and_reload_def followed_by_def andThen_Inr loadWrappedDek_ok unwrap_key_ok
      modify_ok provisioned_def fail_with_def elim!: truthyE split: if_splits)

text \<open>Two requests that both found a profile without a data key and wrapped a candidate
  each end up with the same key. After the first has written its candidate and read the key back,
  whatever other requests write for any profiles in between, the second one's write does not
  replace it and the second one's read returns the first one's key, which stays stored.\<close>

theorem provisioning_race_single_key:
  assumes "adopt_and_reload wc mk t p s1 w = (Inr k1, w1)"
    and "store w2 = fold (\<lambda>(q, s). adopt_dek q s) others (store w1)"
    and "adopt_and_reload wc mk t p s2 w2 = (Inr k2, w3)"
  shows "k2 = k1 \<and> wrapped_dek p (store w3) = wrapped_dek p (store w1)"
proof -
  from adopt_and_reload_ok [OF assms(1)] obtain s dek where
    1: "wrapped_dek p (store w1) = Some s" "unwrapServerDek wc mk s t p = Inr dek" "k1 = toBase64 dek"
    by (auto simp: provisioned_def)
  then have "wrapped_dek p (store w2) = Some s" using assms(2) wrapped_dek_adopts by metis
  then have "wrapped_dek p (store w3) = Some s"
    using adopt_and_reload_ok [OF assms(3)] adopt_dek_first_wins by simp
  with adopt_and_reload_ok [OF assms(3)] 1 show ?thesis by (auto simp: provisioned_def)
qed

definition sample_wrapped :: "byte \<Rightarrow> string" where
  "sample_wrapped b = toBase64 (replicate 12 7 @
     wc_encrypt toy_webcrypto [] [] (Some (buildServerDekWrapAad ''o1'' ''p1'')) (replicate 32 b))"

lemma sample_wrapped_ok:
  "unwrapServerDek toy_webcrypto sample_master (sample_wrapped b) ''o1'' ''p1'' = Inr (replicate 32 b)"
  by (simp add: unwrapServerDek_def sample_master_ok sample_wrapped_def gcm_decrypt_def DEK_LENGTH_def
      IV_LENGTH_def toy_webcrypto_def toy_strip_append)

lemma sample_adopt_and_reload:
  assumes "wrapped_dek ''p1'' (adopt_dek ''p1'' (sample_wrapped b) d) = Some (sample_wrapped c)"
  shows "\<exists>w. adopt_and_reload toy_webcrypto sample_master ''o1'' ''p1'' (sample_wrapped b)
     (sample_world d) = (Inr (toBase64 (replicate 32 c)), w) \<and> store w = adopt_dek ''p1'' (sample_wrapped b) d"
proof -
  have "sample_wrapped c \<noteq> []" by (simp add: sample_wrapped_def)
  with assms sample_wrapped_ok [of c] show ?thesis
    by (simp add: adopt_and_reload_def followed_by_def andThen_def modify_def loadWrappedDek_def
        select_def statement_def unwrap_key_def lift_result_def succeed_def)
qed

theorem provisioning_race_single_key_witness:
  "\<exists>k w. adopt_and_reload toy_webcrypto sample_master ''o1'' ''p1'' (sample_wrapped 6)
     (sample_world (adopt_dek ''p1'' (sample_wrapped 5) sample_db)) = (Inr k, w) \<and>
     k = toBase64 (replicate 32 5)"
proof -
  have p1: "\<exists>q \<in> set (tbl_profiles sample_db). prof_id q = ''p1''" "wrapped_dek ''p1'' sample_db = None"
    by (simp_all add: sample_rows wrapped_dek_def)
  let ?d = "adopt_dek ''p1'' (sample_wrapped 5) sample_db"
  have w5: "wrapped_dek ''p1'' ?d = Some (sample_wrapped 5)" using p1 by (simp add: wrapped_dek_adopt)
  obtain w where w: "adopt_and_reload toy_webcrypto sample_master ''o1'' ''p1'' (sample_wrapped 5)
     (sample_world sample_db) = (Inr (toBase64 (replicate 32 5)), w)" "store w = ?d"
    using sample_adopt_and_reload [OF w5] by blast
  obtain w' where w': "adopt_and_reload toy_webcrypto sample_master ''o1'' ''p1'' (sample_wrapped 6)
     (sample_world ?d) = (Inr (toBase64 (replicate 32 5)), w')"
    using sample_adopt_and_reload [OF adopt_dek_first_wins [OF w5]] by blast
  have "store (sample_world ?d) = fold (\<lambda>(q, s). adopt_dek q s) [] (store w)" using w(2) by simp
  from provisioning_race_single_key [OF w(1) this w'] w' show ?thesis by blast
qed

end
