(* ===== verification/Audit_Log.thy ===== *)
theory Audit_Log
  imports Server
begin

text \<open>
  The audit writer (\<open>packages/trpc/src/server/audit.ts\<close>): building a row from an entry, the
  best-effort mirror, the wrapper that keeps a failed write from failing the caller, its four
  entry points and the three helpers that log a denial and re-raise the error. The contract the
  handlers rely on is the locale \<open>audit_sink\<close>.
\<close>

section \<open>Entries and rows\<close>

record audit_entry =
  ae_org :: string
  ae_userId :: "string option"
  ae_agentId :: "string option"
  ae_itemId :: "string option"
  ae_profileId :: "string option"
  ae_surface :: "string option"
  ae_eventType :: audit_event
  ae_result :: audit_result
  ae_deliveryMode :: "string option"
  ae_field :: "string option"
  ae_purpose :: "string option"
  ae_meta :: "json_object option"
  ae_ipAddress :: "string option"

text \<open>An entry with the required fields only.\<close>

definition entry :: "string \<Rightarrow> string option \<Rightarrow> audit_event \<Rightarrow> audit_result \<Rightarrow> audit_entry" where
  "entry org userId ev res =
     \<lparr>ae_org = org, ae_userId = userId, ae_agentId = None, ae_itemId = None, ae_profileId = None,
      ae_surface = None, ae_eventType = ev, ae_result = res, ae_deliveryMode = None,
      ae_field = None, ae_purpose = None, ae_meta = None, ae_ipAddress = None\<rparr>"

definition buildAuditRow :: "audit_entry \<Rightarrow> audit_row" where
  "buildAuditRow e =
     \<lparr>au_org = ae_org e, au_userId = ae_userId e, au_agentId = ae_agentId e,
      au_itemId = ae_itemId e, au_profileId = ae_profileId e,
      au_surface = Some (orElse (ae_surface e) ''api''),
      au_eventType = ae_eventType e, au_result = ae_result e,
      au_deliveryMode = ae_deliveryMode e, au_field = ae_field e, au_purpose = ae_purpose e,
      au_meta = orElse (ae_meta e) [], au_ipAddress = ae_ipAddress e\<rparr>"

lemma buildAuditRow_sels [simp]:
  "au_org (buildAuditRow e) = ae_org e" "au_userId (buildAuditRow e) = ae_userId e"
  "au_agentId (buildAuditRow e) = ae_agentId e" "au_itemId (buildAuditRow e) = ae_itemId e"
  "au_profileId (buildAuditRow e) = ae_profileId e"
  "au_eventType (buildAuditRow e) = ae_eventType e" "au_result (buildAuditRow e) = ae_result e"
  "au_deliveryMode (buildAuditRow e) = ae_deliveryMode e"
  "au_field (buildAuditRow e) = ae_field e" "au_purpose (buildAuditRow e) = ae_purpose e"
  "au_meta (buildAuditRow e) = orElse (ae_meta e) []"
  by (simp_all add: buildAuditRow_def)

lemma entry_sels [simp]:
  "ae_org (entry t u ev r) = t" "ae_userId (entry t u ev r) = u"
  "ae_eventType (entry t u ev r) = ev" "ae_result (entry t u ev r) = r"
  "ae_agentId (entry t u ev r) = None" "ae_itemId (entry t u ev r) = None"
  "ae_profileId (entry t u ev r) = None" "ae_meta (entry t u ev r) = None"
  by (simp_all add: entry_def)

section \<open>Writing\<close>

definition insert_audit :: "audit_row list \<Rightarrow> unit server" where
  "insert_audit rs = statement (insert_audits rs)"

text \<open>The mirror line carries the row; redaction and the time stamp are applied on output only.\<close>

definition mirrorAuditRow :: "audit_row \<Rightarrow> unit server" where
  "mirrorAuditRow r = (\<lambda>w. (Inr (), w\<lparr>mirror := mirror w @ [r]\<rparr>))"

definition withAuditFailureWarning :: "audit_entry \<Rightarrow> unit server \<Rightarrow> unit server" where
  "withAuditFailureWarning e effect =
     catch_all (followed_by effect (mirrorAuditRow (buildAuditRow e))) (\<lambda>_. succeed ())"

definition logSessionAudit :: "audit_entry \<Rightarrow> unit server" where
  "logSessionAudit e = withAuditFailureWarning e (insert_audit [buildAuditRow e])"

definition logUserAudit :: "audit_entry \<Rightarrow> unit server" where
  "logUserAudit e = withAuditFailureWarning e (insert_audit [buildAuditRow e])"

definition logAgentAudit :: "audit_entry \<Rightarrow> unit server" where
  "logAgentAudit e = withAuditFailureWarning e (insert_audit [buildAuditRow e])"

definition logBaseAudit :: "audit_entry \<Rightarrow> unit server" where
  "logBaseAudit e = withAuditFailureWarning e (insert_audit [buildAuditRow e])"

section \<open>Denials\<close>

text \<open>\<open>{ reason, ...(meta ?? {}) }\<close>: a \<open>reason\<close> key of the extra object wins.\<close>

definition obj_set :: "string \<Rightarrow> json \<Rightarrow> json_object \<Rightarrow> json_object" where
  "obj_set k v ob =
     (if k \<in> fst ` set ob then map (\<lambda>(k', v'). if k' = k then (k', v) else (k', v')) ob
      else ob @ [(k, v)])"

definition spread :: "json_object \<Rightarrow> json_object \<Rightarrow> json_object" where
  "spread ob extra = fold (\<lambda>(k, v) acc. obj_set k v acc) extra ob"

record denied_fields =
  df_org :: string
  df_userId :: "string option"
  df_agentId :: "string option"
  df_itemId :: "string option"
  df_profileId :: "string option"
  df_eventType :: audit_event
  df_reason :: string
  df_meta :: "json_object option"
  df_ipAddress :: "string option"

definition denied :: "string \<Rightarrow> string option \<Rightarrow> audit_event \<Rightarrow> string \<Rightarrow> denied_fields" where
  "denied org userId ev reason =
     \<lparr>df_org = org, df_userId = userId, df_agentId = None, df_itemId = None, df_profileId = None,
      df_eventType = ev, df_reason = reason, df_meta = None, df_ipAddress = None\<rparr>"

definition denied_entry :: "denied_fields \<Rightarrow> audit_entry" where
  "denied_entry f = (entry (df_org f) (df_userId f) (df_eventType f) Denied)
     \<lparr>ae_agentId := df_agentId f, ae_itemId := df_itemId f, ae_profileId := df_profileId f,
      ae_ipAddress := df_ipAddress f,
      ae_meta := Some (spread [(''reason'', JStr (df_reason f))] (orElse (df_meta f) []))\<rparr>"

definition auditDeniedSession :: "denied_fields \<Rightarrow> err \<Rightarrow> 'a server" where
  "auditDeniedSession f error = followed_by (logSessionAudit (denied_entry f)) (fail_with error)"

definition auditDeniedUser :: "denied_fields \<Rightarrow> err \<Rightarrow> 'a server" where
  "auditDeniedUser f error = followed_by (logUserAudit (denied_entry f)) (fail_with error)"

text \<open>\<open>auditDeniedBase\<close> does not forward the profile.\<close>

definition auditDeniedBase :: "denied_fields \<Rightarrow> err \<Rightarrow> 'a server" where
  "auditDeniedBase f error =
     followed_by (logBaseAudit ((denied_entry f)\<lparr>ae_profileId := None\<rparr>)) (fail_with error)"

section \<open>The contract of an audit sink\<close>

text \<open>Nothing but the audit trail and its mirror changes, and both only grow.\<close>

definition audit_only :: "world \<Rightarrow> world \<Rightarrow> bool" where
  "audit_only w w' \<longleftrightarrow> (\<exists>n as ms. stmts w \<le> n \<and>
     w' = w\<lparr>stmts := n, mirror := mirror w @ ms,
            store := (store w)\<lparr>tbl_auditLogs := tbl_auditLogs (store w) @ as\<rparr>\<rparr>)"

lemma audit_only_refl [simp]: "audit_only w w"
  unfolding audit_only_def
  by (rule exI [of _ "stmts w"], rule exI [of _ "[]"], rule exI [of _ "[]"]) simp

lemma audit_only_trans: "audit_only u v \<Longrightarrow> audit_only v w \<Longrightarrow> audit_only u w"
  unfolding audit_only_def by (elim exE conjE) (simp, blast intro: order_trans)

lemma audit_only_reflp [simp]: "reflp audit_only"
  by (rule reflpI) simp

lemma audit_only_transp [simp]: "transp audit_only"
  by (rule transpI) (rule audit_only_trans)

lemma audit_only_frame:
  assumes "audit_only w w'"
  shows "tbl_items (store w') = tbl_items (store w)"
    "tbl_profiles (store w') = tbl_profiles (store w)"
    "tbl_agents (store w') = tbl_agents (store w)"
    "tbl_agentSessions (store w') = tbl_agentSessions (store w)"
    "tbl_permissions (store w') = tbl_permissions (store w)"
    "tbl_mountReservations (store w') = tbl_mountReservations (store w)"
    "tbl_members (store w') = tbl_members (store w)"
    "tbl_userApiKeys (store w') = tbl_userApiKeys (store w)"
    "clock w' = clock w" "ticks w' = ticks w" "randoms w' = randoms w" "uuids w' = uuids w" "draws w' = draws w"
    "faults w' = faults w" "pg_now w' = pg_now w"
    "tbl_enrollmentTokens (store w') = tbl_enrollmentTokens (store w)"
    "tbl_sessionChallenges (store w') = tbl_sessionChallenges (store w)"
    "tbl_organizations (store w') = tbl_organizations (store w)"
    "tbl_users (store w') = tbl_users (store w)"
    "tbl_invitations (store w') = tbl_invitations (store w)"
    "tbl_accountClaims (store w') = tbl_accountClaims (store w)"
  using assms by (auto simp: audit_only_def)

lemma audit_only_grows:
  "audit_only w w' \<Longrightarrow> \<exists>as. tbl_auditLogs (store w') = tbl_auditLogs (store w) @ as"
  by (auto simp: audit_only_def)

lemma audit_only_store:
  assumes "audit_only w w'"
  obtains as where "store w' = (store w)\<lparr>tbl_auditLogs := tbl_auditLogs (store w) @ as\<rparr>" "env_kept w w'"
proof -
  from assms obtain n as ms where w': "w' = w\<lparr>stmts := n, mirror := mirror w @ ms,
      store := (store w)\<lparr>tbl_auditLogs := tbl_auditLogs (store w) @ as\<rparr>\<rparr>"
    unfolding audit_only_def by blast
  have "store w' = (store w)\<lparr>tbl_auditLogs := tbl_auditLogs (store w) @ as\<rparr>" "env_kept w w'"
    unfolding w' by (simp_all add: env_kept_def)
  then show ?thesis by (rule that)
qed

locale audit_sink =
  fixes log :: "audit_entry \<Rightarrow> unit server"
  assumes never_fails: "fst (log e w) = Inr ()"
    and frame: "audit_only w (snd (log e w))"
    and appends: "tbl_auditLogs (store (snd (log e w))) = tbl_auditLogs (store w) \<or>
       tbl_auditLogs (store (snd (log e w))) = tbl_auditLogs (store w) @ [buildAuditRow e]"
    and recorded: "faults w (stmts w) = None \<Longrightarrow>
       tbl_auditLogs (store (snd (log e w))) = tbl_auditLogs (store w) @ [buildAuditRow e]"
    and one_statement: "stmts (snd (log e w)) = Suc (stmts w)"
begin

lemma log_eq: "log e w = (Inr (), snd (log e w))"
  using never_fails by (metis prod.collapse)

lemma logE:
  obtains w' where "log e w = (Inr (), w')"
  using log_eq by blast

lemma log_Inl: "log e w = (Inl x, w') \<longleftrightarrow> False"
  using never_fails [of e w] by auto

lemma keeps_log: "keeps audit_only (log e)"
  by (simp add: keeps_def frame)

lemma recorded_store:
  "faults w (stmts w) = None \<Longrightarrow> store (snd (log e w)) =
     (store w)\<lparr>tbl_auditLogs := tbl_auditLogs (store w) @ [buildAuditRow e]\<rparr>"
  using frame [of w e] recorded [of w e] unfolding audit_only_def by auto

lemma log_where:
  assumes "P (buildAuditRow e)"
  shows "audits_where P w (snd (log e w))"
proof -
  obtain n as ms where a: "snd (log e w) = w\<lparr>stmts := n, mirror := mirror w @ ms,
      store := (store w)\<lparr>tbl_auditLogs := tbl_auditLogs (store w) @ as\<rparr>\<rparr>"
    using frame [of w e] unfolding audit_only_def by blast
  with appends [of e w] have "as = [] \<or> as = [buildAuditRow e]" by auto
  with a assms show ?thesis by (intro audits_whereI [of _ _ _ as]) (auto simp: env_kept_def)
qed

lemma log_store:
  "store (snd (log e w)) = store w \<or>
   store (snd (log e w)) = (store w)\<lparr>tbl_auditLogs := tbl_auditLogs (store w) @ [buildAuditRow e]\<rparr>"
proof -
  obtain as where st: "store (snd (log e w)) = (store w)\<lparr>tbl_auditLogs := tbl_auditLogs (store w) @ as\<rparr>"
    using frame by (rule audit_only_store)
  have "tbl_auditLogs (store (snd (log e w))) = tbl_auditLogs (store w) @ as" by (simp add: st)
  with appends [of e w] consider "as = []" | "as = [buildAuditRow e]" by force
  then show ?thesis by cases (simp_all add: st)
qed

lemma keeps_log_where: "P (buildAuditRow e) \<Longrightarrow> keeps (audits_where P) (log e)"
  by (simp add: keeps_def log_where)

text \<open>Logging and then failing always fails with the caller's error.\<close>

lemma log_then_fail: "followed_by (log e) (fail_with x) w = (Inl x, snd (log e w))"
  by (rule logE [of e w]) (simp add: followed_by_def andThen_def fail_with_def)

lemma log_then: "followed_by (log e) k w = k (snd (log e w))"
  by (rule logE [of e w]) (simp add: followed_by_def andThen_def)

lemma tap_fail: "(case log e w of (Inl y, w') \<Rightarrow> (Inl y, w') | (Inr _, w') \<Rightarrow> (Inl x, w')) =
    (Inl x, snd (log e w))"
  by (rule logE [of e w]) simp

text \<open>A handler for failures of a log write is never reached.\<close>

lemma catch_log: "catch_all (log e) h = log e"
proof (rule ext)
  fix w
  show "catch_all (log e) h w = log e w"
    by (rule logE [of e w]) (simp add: catch_all_def)
qed

text \<open>Logging on the error path never replaces the error.\<close>

lemma tap_log: "tap_error m (\<lambda>x. log (g x)) w =
    (case m w of (Inl x, w') \<Rightarrow> (Inl x, snd (log (g x) w')) | (Inr y, w') \<Rightarrow> (Inr y, w'))"
proof (cases "m w")
  case (Pair r w')
  show ?thesis
  proof (cases r)
    case (Inl x)
    then show ?thesis
      using Pair by (auto simp: tap_error_def intro: logE [of "g x" w'])
  next
    case (Inr y)
    then show ?thesis using Pair by (simp add: tap_error_def)
  qed
qed

text \<open>Flushing a staged list never fails, and when no statement faults it records every row.\<close>

lemma flush_never_fails: "fst (for_each log es w) = Inr ()"
proof (induction es arbitrary: w)
  case Nil
  then show ?case by (simp add: succeed_def)
next
  case (Cons e es)
  then show ?case by (simp add: log_then)
qed

lemma keeps_flush: "keeps audit_only (for_each log es)"
  by (rule keeps_for_each) (simp_all add: keeps_log)

lemma flush_records:
  assumes "\<And>n. faults w n = None"
  shows "tbl_auditLogs (store (snd (for_each log es w))) =
           tbl_auditLogs (store w) @ map buildAuditRow es"
  using assms
proof (induction es arbitrary: w)
  case Nil
  then show ?case by (simp add: succeed_def)
next
  case (Cons e es)
  let ?w = "snd (log e w)"
  have "faults ?w n = None" for n
    using Cons.prems audit_only_frame [OF frame [of w e]] by simp
  then have "tbl_auditLogs (store (snd (for_each log es ?w))) =
      tbl_auditLogs (store ?w) @ map buildAuditRow es"
    by (rule Cons.IH)
  then show ?case using Cons.prems by (simp add: log_then recorded)
qed

end

lemma withAuditFailureWarning_insert:
  "withAuditFailureWarning e (insert_audit [buildAuditRow e]) w =
     (Inr (), case faults w (stmts w) of
        Some c \<Rightarrow> w\<lparr>stmts := Suc (stmts w)\<rparr>
      | None \<Rightarrow> w\<lparr>stmts := Suc (stmts w),
                 store := (store w)\<lparr>tbl_auditLogs := tbl_auditLogs (store w) @ [buildAuditRow e]\<rparr>,
                 mirror := mirror w @ [buildAuditRow e]\<rparr>)"
  by (simp add: withAuditFailureWarning_def insert_audit_def insert_audits_def statement_def
      mirrorAuditRow_def eff_defs split: option.splits)

lemma warned_insert_only:
  "audit_only w (snd (withAuditFailureWarning e (insert_audit [buildAuditRow e]) w))"
proof (cases "faults w (stmts w)")
  case None
  then show ?thesis
    unfolding withAuditFailureWarning_insert audit_only_def
    by (auto intro!: exI [of _ "Suc (stmts w)"] exI [of _ "[buildAuditRow e]"])
next
  case (Some c)
  then show ?thesis
    unfolding withAuditFailureWarning_insert audit_only_def
    by (auto intro!: exI [of _ "Suc (stmts w)"] exI [of _ "[]"])
qed

lemma warned_insert_sink:
  "log = (\<lambda>e. withAuditFailureWarning e (insert_audit [buildAuditRow e])) \<Longrightarrow> audit_sink log"
  by unfold_locales
    (simp_all add: warned_insert_only, simp_all add: withAuditFailureWarning_insert split: option.splits)

interpretation agent_log: audit_sink logAgentAudit
  by (rule warned_insert_sink) (simp add: logAgentAudit_def fun_eq_iff)

interpretation session_log: audit_sink logSessionAudit
  by (rule warned_insert_sink) (simp add: logSessionAudit_def fun_eq_iff)

interpretation user_log: audit_sink logUserAudit
  by (rule warned_insert_sink) (simp add: logUserAudit_def fun_eq_iff)

interpretation base_log: audit_sink logBaseAudit
  by (rule warned_insert_sink) (simp add: logBaseAudit_def fun_eq_iff)

section \<open>The mirror\<close>

text \<open>Every line of the mirror names a row that is in the table.\<close>

definition mirror_agrees :: "world \<Rightarrow> bool" where
  "mirror_agrees w \<longleftrightarrow> set (mirror w) \<subseteq> set (tbl_auditLogs (store w))"

lemma logAgentAudit_mirror: "mirror_agrees w \<Longrightarrow> mirror_agrees (snd (logAgentAudit e w))"
  by (auto simp: mirror_agrees_def logAgentAudit_def withAuditFailureWarning_insert
      split: option.splits)

end
