(* ===== verification/Roles.thy ===== *)
theory Roles
  imports Audit_Log
begin

text \<open>
  Organisation roles: the rank of a role and the two guards of
  \<open>packages/trpc/src/server/init.ts\<close> (\<open>requireOrgRole\<close>, \<open>requireAgentOwnership\<close>), and the
  owner guards of \<open>auth/owner-guards.ts\<close>. A role is the text of its column; the ranks are those of
  the constant table, every other text has rank 0.
\<close>

section \<open>Session context\<close>

record session_ctx =
  sx_orgId :: string
  sx_userId :: string
  sx_ip :: "string option"

section \<open>Ranks\<close>

definition ROLE_RANK :: "(string \<times> nat) list" where
  "ROLE_RANK = [(''owner'', 3), (''admin'', 2), (''member'', 1)]"

definition roleRank :: "string \<Rightarrow> nat" where
  "roleRank role = orElse (map_of ROLE_RANK role) 0"

definition member_row_of :: "string \<Rightarrow> string \<Rightarrow> db \<Rightarrow> member_row option" where
  "member_row_of orgId userId d =
     find (\<lambda>m. mem_org m = orgId \<and> mem_userId m = userId) (tbl_members d)"

definition requireOrgRole :: "string \<Rightarrow> string \<Rightarrow> string \<Rightarrow> string server" where
  "requireOrgRole orgId userId minRole =
     andThen (select (member_row_of orgId userId)) (\<lambda>row.
       case row of
         None \<Rightarrow> fail_with (forbidden ''MEMBER_INSUFFICIENT_ROLE'' [])
       | Some m \<Rightarrow> if roleRank (mem_role m) < roleRank minRole
                    then fail_with (forbidden ''MEMBER_INSUFFICIENT_ROLE'' [])
                    else succeed (mem_role m))"

definition org_agent :: "string \<Rightarrow> string \<Rightarrow> db \<Rightarrow> agent_row option" where
  "org_agent orgId agentId d = findFirst ag_org orgId (\<lambda>a. ag_id a = agentId) (tbl_agents d)"

definition requireAgentOwnership :: "string \<Rightarrow> string \<Rightarrow> string \<Rightarrow> string \<Rightarrow> unit server" where
  "requireAgentOwnership agentId userId orgId userRole =
     (if roleRank userRole \<ge> roleRank ''admin'' then succeed ()
      else andThen (select (org_agent orgId agentId)) (\<lambda>agent.
        case agent of
          None \<Rightarrow> fail_with (notFound ''AGENT_NOT_FOUND'')
        | Some a \<Rightarrow> if ag_createdBy a \<noteq> Some userId
                     then fail_with (forbidden ''MEMBER_AGENT_OWNERSHIP'' [])
                     else succeed ()))"

text \<open>Run a guard; a forbidden error is logged before it is raised again.\<close>

definition forbidden_logged :: "audit_entry \<Rightarrow> 'a server \<Rightarrow> 'a server" where
  "forbidden_logged e m =
     tap_error m (\<lambda>err. if is_class ForbiddenError err then logSessionAudit e else succeed ())"

section \<open>Owner guards\<close>

definition countOwners :: "string \<Rightarrow> string option \<Rightarrow> db \<Rightarrow> nat" where
  "countOwners orgId excludeMemberId d =
     length (filter (\<lambda>m. mem_org m = orgId \<and> mem_role m = ''owner'' \<and>
        (truthy excludeMemberId \<longrightarrow> Some (mem_id m) \<noteq> excludeMemberId)) (tbl_members d))"

definition assertCanAssignRole :: "string \<Rightarrow> string \<Rightarrow> err + unit" where
  "assertCanAssignRole actorRole targetRole =
     (if roleRank targetRole > roleRank actorRole
      then Inl (forbidden ''MEMBER_INSUFFICIENT_ROLE'' []) else Inr ())"

definition assertOwnersRemainAfterChange :: "string \<Rightarrow> string \<Rightarrow> string \<Rightarrow> string \<Rightarrow> unit server" where
  "assertOwnersRemainAfterChange orgId memberIdBeingChanged targetCurrentRole newRoleOrRemoval =
     (if targetCurrentRole \<noteq> ''owner'' then succeed ()
      else if newRoleOrRemoval = ''owner'' then succeed ()
      else andThen (select (countOwners orgId (Some memberIdBeingChanged))) (\<lambda>remaining.
        if remaining < 1 then fail_with (DomainErr ConflictError ''CONFLICT'' []) else succeed ()))"

section \<open>Facts\<close>

lemma roleRank_simps [simp]:
  "roleRank ''owner'' = 3" "roleRank ''admin'' = 2" "roleRank ''member'' = 1"
  by (simp_all add: roleRank_def ROLE_RANK_def)

lemma roleRank_le: "roleRank r \<le> 3"
  by (auto simp: roleRank_def ROLE_RANK_def)

text \<open>Only the three named roles have a rank.\<close>

lemma roleRank_pos: "roleRank r > 0 \<longleftrightarrow> r \<in> {''owner'', ''admin'', ''member''}"
  by (auto simp: roleRank_def ROLE_RANK_def)

lemma keeps_requireOrgRole: "keeps same_store (requireOrgRole t u r)"
  unfolding requireOrgRole_def by (auto intro!: keeps_same split: option.split)

lemma keeps_requireAgentOwnership: "keeps same_store (requireAgentOwnership a u t r)"
  unfolding requireAgentOwnership_def by (auto intro!: keeps_same split: option.split)

lemma requireOrgRole_Inr:
  assumes "requireOrgRole t u minRole w = (Inr r, w')"
  shows "same_store w w' \<and>
    (\<exists>m. member_row_of t u (store w) = Some m \<and> mem_role m = r \<and> roleRank minRole \<le> roleRank r)"
  using keepsD [OF keeps_requireOrgRole assms] assms
  by (auto simp: requireOrgRole_def andThen_Inr select_ok fail_with_def succeed_def
      split: option.splits if_splits)

lemma requireAgentOwnership_Inr:
  assumes "requireAgentOwnership a u t r w = (Inr x, w')"
  shows "same_store w w' \<and>
    (2 \<le> roleRank r \<or> (\<exists>ag. org_agent t a (store w) = Some ag \<and> ag_createdBy ag = Some u))"
  using keepsD [OF keeps_requireAgentOwnership assms] assms
  by (auto simp: requireAgentOwnership_def andThen_Inr select_ok fail_with_def succeed_def
      split: option.splits if_splits)

lemma keeps_forbidden_logged:
  "keeps same_store m \<Longrightarrow> P (buildAuditRow e) \<Longrightarrow> keeps (audits_where P) (forbidden_logged e m)"
  unfolding forbidden_logged_def
  by (auto intro!: keeps_audits session_log.keeps_log_where simp: keeps_same_where)

lemma forbidden_logged_Inr: "forbidden_logged e m w = (Inr x, w') \<longleftrightarrow> m w = (Inr x, w')"
  by (auto simp: forbidden_logged_def tap_error_def split: prod.splits sum.splits)

lemma keeps_assertOwnersRemain: "keeps same_store (assertOwnersRemainAfterChange t i r r')"
  unfolding assertOwnersRemainAfterChange_def by (auto intro!: keeps_same)

lemma assertOwnersRemain_Inr:
  assumes "assertOwnersRemainAfterChange t i r r' w = (Inr x, w')"
  shows "same_store w w' \<and> (r = ''owner'' \<and> r' \<noteq> ''owner'' \<longrightarrow> countOwners t (Some i) (store w) \<ge> 1)"
  using keepsD [OF keeps_assertOwnersRemain assms] assms
  by (auto simp: assertOwnersRemainAfterChange_def andThen_Inr select_ok fail_with_def succeed_def
      split: if_splits)

text \<open>The number of owners never drops to zero through a guarded change.\<close>

definition owners :: "string \<Rightarrow> db \<Rightarrow> member_row list" where
  "owners orgId d = filter (\<lambda>m. mem_org m = orgId \<and> mem_role m = ''owner'') (tbl_members d)"

definition set_role :: "string \<Rightarrow> string \<Rightarrow> db \<Rightarrow> db" where
  "set_role memberId role d = d\<lparr>tbl_members :=
     map (\<lambda>m. if mem_id m = memberId then m\<lparr>mem_role := role\<rparr> else m) (tbl_members d)\<rparr>"

definition drop_member :: "string \<Rightarrow> db \<Rightarrow> db" where
  "drop_member memberId d =
     d\<lparr>tbl_members := filter (\<lambda>m. mem_id m \<noteq> memberId) (tbl_members d)\<rparr>"

end
