(* ===== verification/Agent_Auth.thy ===== *)
theory Agent_Auth
  imports Roles Server_Crypto "HOL-Library.AList"
begin

unbundle bit_operations_syntax

text \<open>
  Who is calling: \<open>packages/trpc/src/server/auth.ts\<close>, \<open>auth-optional-org.ts\<close>, the key hashing of
  \<open>packages/crypto/src/shared/api-keys.ts\<close> and the two procedure builders of \<open>init.ts\<close> that open
  an organisation context for an authenticated caller. An agent presents an \<open>abs_\<close> session token, a
  user a browser session, a bearer session or an \<open>abu_\<close> key. The session library
  (\<open>auth.api.getSession\<close>, \<open>internalAdapter.findSession\<close>) is not code of the repository: it is the
  parameter \<open>better_auth\<close>. The fire-and-forget updates of \<open>last_used_at\<close> are executed in place and
  their failures are swallowed, as the source does.
\<close>

section \<open>Requests and identities\<close>

record request_ctx =
  rq_authorization :: "string option"
  rq_orgHeader :: "string option"
  rq_ip :: "string option"

record auth_session =
  as_user :: "string option"
  as_sessionUser :: "string option"

record better_auth =
  ba_getSession :: "request_ctx \<Rightarrow> auth_session option server"
  ba_findSession :: "string \<Rightarrow> auth_session option server"

record agent_identity =
  aid_agentId :: string
  aid_userId :: "string option"
  aid_orgId :: string
  aid_locality :: agent_locality

datatype auth_method = Browser_session | Bearer_session | User_api_key

record session_identity =
  sid_userId :: string
  sid_orgId :: string
  sid_method :: auth_method

definition toAgentIdentity :: "agent_row \<Rightarrow> agent_identity" where
  "toAgentIdentity a = \<lparr>aid_agentId = ag_id a, aid_userId = ag_createdBy a, aid_orgId = ag_org a,
     aid_locality = ag_locality a\<rparr>"

abbreviation unauthorized :: err where
  "unauthorized \<equiv> DomainErr UnauthorizedError ''UNAUTHORIZED'' []"

definition startsWith :: "string \<Rightarrow> string \<Rightarrow> bool" where
  "startsWith s p = (take (length p) s = p)"

definition AGENT_SESSION_PREFIX :: string where
  "AGENT_SESSION_PREFIX = ''abs_''"

definition USER_API_KEY_PREFIX :: string where
  "USER_API_KEY_PREFIX = ''abu_''"

text \<open>The token of an \<open>Authorization: Bearer\<close> header.\<close>

definition bearer :: "request_ctx \<Rightarrow> string option" where
  "bearer rq = (case rq_authorization rq of
      Some h \<Rightarrow> if startsWith h ''Bearer '' then Some (drop 7 h) else None
    | None \<Rightarrow> None)"

definition getBearerToken :: "request_ctx \<Rightarrow> string server" where
  "getBearerToken rq = (case bearer rq of Some t \<Rightarrow> succeed t | None \<Rightarrow> fail_with unauthorized)"

section \<open>Key hashes\<close>

definition hashApiKey :: "webcrypto \<Rightarrow> string \<Rightarrow> string" where
  "hashApiKey wc key = toBase64 (wc_sha256 wc (encode_text key))"

definition verifyApiKey :: "webcrypto \<Rightarrow> string \<Rightarrow> string \<Rightarrow> bool" where
  "verifyApiKey wc candidate storedHash =
     (let candidateHash = hashApiKey wc candidate in
      if length candidateHash \<noteq> length storedHash then False
      else fold (\<lambda>(a, b) result. result OR (a XOR b))
             (zip (encode_text candidateHash) (encode_text storedHash)) (0 :: byte) = 0)"

section \<open>Last use\<close>

definition LAST_USED_THROTTLE_MS :: int where
  "LAST_USED_THROTTLE_MS = 15 * 60 * 1000"

definition stale :: "int \<Rightarrow> int option \<Rightarrow> bool" where
  "stale staleBefore lastUsed = (case lastUsed of None \<Rightarrow> True | Some t \<Rightarrow> t < staleBefore)"

definition touch_agents :: "string \<Rightarrow> int \<Rightarrow> int \<Rightarrow> db \<Rightarrow> db" where
  "touch_agents agentId staleBefore now d = d\<lparr>tbl_agents := map (\<lambda>a.
     if ag_id a = agentId \<and> stale staleBefore (ag_lastUsedAt a)
     then a\<lparr>ag_lastUsedAt := Some now\<rparr> else a) (tbl_agents d)\<rparr>"

definition touch_sessions :: "string \<Rightarrow> int \<Rightarrow> int \<Rightarrow> db \<Rightarrow> db" where
  "touch_sessions sessionId staleBefore now d = d\<lparr>tbl_agentSessions := map (\<lambda>s.
     if ses_id s = sessionId \<and> stale staleBefore (ses_lastUsedAt s)
     then s\<lparr>ses_lastUsedAt := Some now\<rparr> else s) (tbl_agentSessions d)\<rparr>"

definition touch_keys :: "string \<Rightarrow> int \<Rightarrow> int \<Rightarrow> db \<Rightarrow> db" where
  "touch_keys keyId staleBefore now d = d\<lparr>tbl_userApiKeys := map (\<lambda>k.
     if key_id k = keyId \<and> stale staleBefore (key_lastUsedAt k)
     then k\<lparr>key_lastUsedAt := Some now\<rparr> else k) (tbl_userApiKeys d)\<rparr>"

text \<open>Two readings of the clock, one update, no failure.\<close>

definition touch :: "(int \<Rightarrow> int \<Rightarrow> db \<Rightarrow> db) \<Rightarrow> unit server" where
  "touch update =
     andThen new_Date (\<lambda>now0. andThen new_Date (\<lambda>now.
       catch_all (modify (update (now0 - LAST_USED_THROTTLE_MS) now)) (\<lambda>_. succeed ())))"

definition touchAgent :: "string \<Rightarrow> unit server" where
  "touchAgent agentId = touch (touch_agents agentId)"

definition touchAgentSession :: "string \<Rightarrow> unit server" where
  "touchAgentSession sessionId = touch (touch_sessions sessionId)"

definition touchUserApiKey :: "string \<Rightarrow> unit server" where
  "touchUserApiKey keyId = touch (touch_keys keyId)"

section \<open>Rejections\<close>

definition auth_row ::
  "request_ctx \<Rightarrow> string \<Rightarrow> string option \<Rightarrow> string option \<Rightarrow> audit_event \<Rightarrow> audit_result \<Rightarrow> json_object \<Rightarrow> audit_row" where
  "auth_row rq orgId userId agentId ev result meta =
     \<lparr>au_org = orgId, au_userId = userId, au_agentId = agentId, au_itemId = None, au_profileId = None,
      au_surface = None, au_eventType = ev, au_result = result, au_deliveryMode = None,
      au_field = None, au_purpose = None, au_meta = meta, au_ipAddress = rq_ip rq\<rparr>"

definition auditAgentSessionReject ::
  "request_ctx \<Rightarrow> string option \<Rightarrow> string \<Rightarrow> string \<Rightarrow> audit_result \<Rightarrow> string \<Rightarrow> unit server" where
  "auditAgentSessionReject rq userId agentId organizationId result reason =
     insert_audit [auth_row rq organizationId userId (Some agentId) Ev_agent_session_reject result
       [(''reason'', JStr reason)]]"

definition UNAUTH_AUDIT_WINDOW_MS :: int where
  "UNAUTH_AUDIT_WINDOW_MS = 10000"

definition UNAUTH_AUDIT_MAX_ENTRIES :: nat where
  "UNAUTH_AUDIT_MAX_ENTRIES = 10000"

text \<open>The module-level map, in insertion order: does this address get a row now, and the new map.\<close>

definition throttle :: "string \<Rightarrow> int \<Rightarrow> (string \<times> int) list \<Rightarrow> bool \<times> (string \<times> int) list" where
  "throttle key now counters =
     (if (case map_of counters key of None \<Rightarrow> True | Some resetAt \<Rightarrow> resetAt < now)
      then (True, AList.update key (now + UNAUTH_AUDIT_WINDOW_MS)
              (if length counters \<ge> UNAUTH_AUDIT_MAX_ENTRIES then [] else counters))
      else (False, counters))"

definition shouldWriteUnauthBearerAudit :: "string option \<Rightarrow> bool server" where
  "shouldWriteUnauthBearerAudit ipAddress =
     andThen new_Date (\<lambda>now w.
       let (write, counters) = throttle (orElse ipAddress ''__unknown_ip__'') now (unauthCounters w)
       in (Inr write, w\<lparr>unauthCounters := counters\<rparr>))"

definition unknown_row :: "request_ctx \<Rightarrow> string \<Rightarrow> audit_row" where
  "unknown_row rq token = auth_row rq ''__unauth__'' (Some ''__unauth__'') None
     Ev_agent_session_reject Denied
     [(''reason'', JStr ''unknown_credential''), (''tokenPrefix'', JStr (take 4 token))]"

definition auditUnrecognizedBearer :: "request_ctx \<Rightarrow> string \<Rightarrow> unit server" where
  "auditUnrecognizedBearer rq token =
     andThen (shouldWriteUnauthBearerAudit (rq_ip rq)) (\<lambda>write.
       if \<not> write then succeed ()
       else catch_all (insert_audit [unknown_row rq token]) (\<lambda>_. succeed ()))"

section \<open>Agent sessions\<close>

definition unrevoked_session :: "string \<Rightarrow> db \<Rightarrow> agent_session_row option" where
  "unrevoked_session tokenHash d =
     find (\<lambda>s. ses_tokenHash s = tokenHash \<and> ses_revokedAt s = None) (tbl_agentSessions d)"

text \<open>The agent of a session, whose creator must be the session's user (both may be absent).\<close>

definition session_agent :: "agent_session_row \<Rightarrow> db \<Rightarrow> agent_row option" where
  "session_agent s d =
     find (\<lambda>a. ag_id a = ses_agentId s \<and>
        (case ses_userId s of None \<Rightarrow> ag_createdBy a = None | Some u \<Rightarrow> ag_createdBy a = Some u))
       (tbl_agents d)"

definition verifyAgentSessionIdentity ::
  "webcrypto \<Rightarrow> request_ctx \<Rightarrow> string \<Rightarrow> agent_identity option server" where
  "verifyAgentSessionIdentity wc rq token =
     (if \<not> startsWith token AGENT_SESSION_PREFIX then succeed None
      else andThen (select (unrevoked_session (hashApiKey wc token))) (\<lambda>sessionRecord.
        case sessionRecord of None \<Rightarrow> succeed None | Some s \<Rightarrow>
        andThen new_Date (\<lambda>now.
        if ses_expiresAt s \<le> now then
          andThen (select (\<lambda>d. find (\<lambda>a. ag_id a = ses_agentId s) (tbl_agents d))) (\<lambda>expiredAgent.
            followed_by (auditAgentSessionReject rq (ses_userId s) (ses_agentId s)
                (orElse (map_option ag_org expiredAgent) []) Expired ''session_expired'')
              (fail_with unauthorized))
        else andThen (select (session_agent s)) (\<lambda>agent.
        case agent of
          None \<Rightarrow> followed_by (auditAgentSessionReject rq (ses_userId s) (ses_agentId s) [] Denied
                 ''session_agent_not_found'') (fail_with unauthorized)
        | Some a \<Rightarrow>
            if \<not> ag_enabled a then
              followed_by (auditAgentSessionReject rq (ag_createdBy a) (ag_id a) (ag_org a) Denied
                 ''session_agent_disabled'') (fail_with unauthorized)
            else if ag_revokedAt a \<noteq> None then
              followed_by (auditAgentSessionReject rq (ag_createdBy a) (ag_id a) (ag_org a) Revoked
                 ''session_agent_revoked'') (fail_with unauthorized)
            else followed_by (touchAgent (ag_id a))
                (followed_by (touchAgentSession (ses_id s)) (succeed (Some (toAgentIdentity a))))))))"

definition resolveAgentIdentity :: "webcrypto \<Rightarrow> request_ctx \<Rightarrow> agent_identity server" where
  "resolveAgentIdentity wc rq =
     andThen (getBearerToken rq) (\<lambda>token.
     andThen (verifyAgentSessionIdentity wc rq token) (\<lambda>sessionIdentity.
       case sessionIdentity of
         Some i \<Rightarrow> succeed i
       | None \<Rightarrow> followed_by (auditUnrecognizedBearer rq token) (fail_with unauthorized)))"

section \<open>Users\<close>

definition resolveUserOrgId :: "request_ctx \<Rightarrow> string \<Rightarrow> string server" where
  "resolveUserOrgId rq userId =
     (if truthy (rq_orgHeader rq) then
        andThen (select (member_row_of (the (rq_orgHeader rq)) userId)) (\<lambda>membership.
          if membership = None then fail_with (forbidden ''ORG_MEMBERSHIP_REQUIRED'' [])
          else succeed (the (rq_orgHeader rq)))
      else
        andThen (select (\<lambda>d. sort_key mem_createdAt (filter (\<lambda>m. mem_userId m = userId) (tbl_members d))))
          (\<lambda>memberships.
            case memberships of
              [] \<Rightarrow> fail_with (DomainErr UnauthorizedError ''NO_ORG_MEMBERSHIP'' [])
            | [only] \<Rightarrow> succeed (mem_org only)
            | _ \<Rightarrow> fail_with (DomainErr BadRequestError ''ORG_HEADER_REQUIRED''
                 [(''availableOrgIds'', JArr (map (\<lambda>m. JStr (mem_org m)) memberships))])))"

text \<open>\<open>session?.user?.id ?? session?.session?.userId\<close>, then a truthiness test.\<close>

definition session_user :: "auth_session option \<Rightarrow> string option" where
  "session_user session = (case session of
      None \<Rightarrow> None
    | Some s \<Rightarrow> (case as_user s of Some u \<Rightarrow> Some u | None \<Rightarrow> as_sessionUser s))"

definition key_candidates :: "string \<Rightarrow> db \<Rightarrow> user_api_key_row list" where
  "key_candidates token d = take 10 (filter (\<lambda>k. key_secretPrefix k = take 8 token \<and> key_enabled k \<and>
     key_revokedAt k = None) (tbl_userApiKeys d))"

definition auditUserApiKeyReject :: "request_ctx \<Rightarrow> user_api_key_row \<Rightarrow> unit server" where
  "auditUserApiKeyReject rq k =
     catch_all (insert_audit [auth_row rq (key_org k) (Some (key_userId k)) None Ev_user_api_key_expire
        Expired [(''reason'', JStr ''user_api_key_expired'')]]) (\<lambda>_. succeed ())"

text \<open>\<open>key.expiresAt && key.expiresAt <= new Date()\<close>: the clock is read only for a key that expires.\<close>

definition key_expired :: "user_api_key_row \<Rightarrow> bool server" where
  "key_expired k = (case key_expiresAt k of
      None \<Rightarrow> succeed False
    | Some t \<Rightarrow> andThen new_Date (\<lambda>now. succeed (t \<le> now)))"

fun check_keys :: "webcrypto \<Rightarrow> request_ctx \<Rightarrow> string \<Rightarrow> user_api_key_row list \<Rightarrow> session_identity option server" where
  "check_keys wc rq token [] = followed_by (auditUnrecognizedBearer rq token) (succeed None)"
| "check_keys wc rq token (k # ks) =
     (if \<not> verifyApiKey wc token (key_secretHash k) then check_keys wc rq token ks
      else andThen (key_expired k) (\<lambda>expired.
        if expired then followed_by (auditUserApiKeyReject rq k) (fail_with unauthorized)
        else followed_by (touchUserApiKey (key_id k))
          (succeed (Some \<lparr>sid_userId = key_userId k, sid_orgId = key_org k, sid_method = User_api_key\<rparr>))))"

definition resolveUserApiKeyIdentity ::
  "webcrypto \<Rightarrow> request_ctx \<Rightarrow> string \<Rightarrow> session_identity option server" where
  "resolveUserApiKeyIdentity wc rq token =
     andThen (select (key_candidates token)) (check_keys wc rq token)"

definition identity_of :: "request_ctx \<Rightarrow> auth_method \<Rightarrow> string \<Rightarrow> session_identity server" where
  "identity_of rq how userId =
     andThen (resolveUserOrgId rq userId) (\<lambda>orgId.
       succeed \<lparr>sid_userId = userId, sid_orgId = orgId, sid_method = how\<rparr>)"

definition resolveBearerSessionIdentity ::
  "better_auth \<Rightarrow> webcrypto \<Rightarrow> request_ctx \<Rightarrow> session_identity option server" where
  "resolveBearerSessionIdentity ba wc rq = (case bearer rq of
      None \<Rightarrow> succeed None
    | Some token \<Rightarrow>
        if startsWith token USER_API_KEY_PREFIX then resolveUserApiKeyIdentity wc rq token
        else andThen (ba_findSession ba token) (\<lambda>sessionLookup.
          if truthy (session_user sessionLookup)
          then andThen (identity_of rq Bearer_session (the (session_user sessionLookup)))
                 (\<lambda>i. succeed (Some i))
          else succeed None))"

definition resolveSessionIdentity ::
  "better_auth \<Rightarrow> webcrypto \<Rightarrow> request_ctx \<Rightarrow> session_identity server" where
  "resolveSessionIdentity ba wc rq =
     andThen (ba_getSession ba rq) (\<lambda>session.
       if truthy (session_user session)
       then identity_of rq Browser_session (the (session_user session))
       else andThen (resolveBearerSessionIdentity ba wc rq) (\<lambda>bearerIdentity.
         case bearerIdentity of Some i \<Rightarrow> succeed i | None \<Rightarrow> fail_with unauthorized))"

text \<open>The variant for procedures that do not need an organisation: a header naming a foreign
  organisation is ignored, several memberships give no organisation.\<close>

definition resolveOptionalOrgId :: "request_ctx \<Rightarrow> string \<Rightarrow> string option server" where
  "resolveOptionalOrgId rq userId =
     andThen (if truthy (rq_orgHeader rq)
              then select (member_row_of (the (rq_orgHeader rq)) userId) else succeed None) (\<lambda>hit.
       if hit \<noteq> None then succeed (rq_orgHeader rq)
       else andThen (select (\<lambda>d. sort_key mem_createdAt (filter (\<lambda>m. mem_userId m = userId) (tbl_members d))))
         (\<lambda>memberships. case memberships of [only] \<Rightarrow> succeed (Some (mem_org only)) | _ \<Rightarrow> succeed None))"

definition resolveSessionIdentityOptionalOrg ::
  "better_auth \<Rightarrow> request_ctx \<Rightarrow> (string \<times> string option) server" where
  "resolveSessionIdentityOptionalOrg ba rq =
     andThen (ba_getSession ba rq) (\<lambda>session.
       if falsy (session_user session) then fail_with unauthorized
       else andThen (resolveOptionalOrgId rq (the (session_user session)))
         (\<lambda>orgId. succeed (the (session_user session), orgId)))"

section \<open>Procedures\<close>

definition scopedSessionProcedure ::
  "better_auth \<Rightarrow> webcrypto \<Rightarrow> request_ctx \<Rightarrow> (session_identity \<Rightarrow> 'a server) \<Rightarrow> 'a server" where
  "scopedSessionProcedure ba wc rq procedure =
     andThen (resolveSessionIdentity ba wc rq) (\<lambda>identity.
       if sid_orgId identity = [] then fail_with (forbidden ''FORBIDDEN'' [])
       else followed_by (requireOrgRole (sid_orgId identity) (sid_userId identity) ''member'')
         (withOrgContext (procedure identity)))"

definition agentProcedure ::
  "webcrypto \<Rightarrow> request_ctx \<Rightarrow> (agent_identity \<Rightarrow> 'a server) \<Rightarrow> 'a server" where
  "agentProcedure wc rq procedure =
     andThen (resolveAgentIdentity wc rq) (\<lambda>identity. withOrgContext (procedure identity))"

end
