(* ===== verification/Auth_Properties.thy ===== *)
theory Auth_Properties
  imports Agent_Auth Samples
begin

text \<open>
  What authentication promises: an agent identity comes from a live session of an enabled agent and
  from nothing else, every live session is accepted, every rejection is audited, a user procedure
  runs for a member of its organisation only, and the throttle on audit rows for unrecognised
  credentials is bounded.
\<close>

section \<open>The throttle\<close>

definition counters_ok :: "(string \<times> int) list \<Rightarrow> bool" where
  "counters_ok m = (distinct (map fst m) \<and> length m \<le> UNAUTH_AUDIT_MAX_ENTRIES)"

text \<open>The decisions for a sequence of unrecognised credentials (address, time), and the final map.\<close>

fun throttle_run :: "(string \<times> int) list \<Rightarrow> (string \<times> int) list \<Rightarrow> bool list \<times> (string \<times> int) list" where
  "throttle_run [] m = ([], m)"
| "throttle_run ((k, now) # rs) m =
     (let (b, m1) = throttle k now m; (bs, m2) = throttle_run rs m1 in (b # bs, m2))"

lemma length_update: "length (AList.update k v m) = (if k \<in> fst ` set m then length m else Suc (length m))"
  by (induction m) auto

lemma throttle_counters_ok: "counters_ok m \<Longrightarrow> counters_ok (snd (throttle k now m))"
  by (auto simp: counters_ok_def throttle_def length_update UNAUTH_AUDIT_MAX_ENTRIES_def
      intro!: distinct_update split: option.splits)

lemma throttle_run_ok: "counters_ok m \<Longrightarrow> counters_ok (snd (throttle_run rs m))"
proof (induction rs arbitrary: m)
  case (Cons r rs)
  obtain k now where r: "r = (k, now)" by (cases r)
  obtain b m1 where t: "throttle k now m = (b, m1)" by (cases "throttle k now m")
  have "counters_ok (snd (throttle_run rs m1))"
    using Cons throttle_counters_ok [of m k now] t by simp
  with r t show ?case by (auto split: prod.splits)
qed simp

text \<open>With fewer than the maximal number of addresses the map is never cleared.\<close>

definition roomy :: "string set \<Rightarrow> (string \<times> int) list \<Rightarrow> bool" where
  "roomy K m \<longleftrightarrow> finite K \<and> card K < UNAUTH_AUDIT_MAX_ENTRIES \<and> distinct (map fst m) \<and> fst ` set m \<subseteq> K"

lemma roomy_not_full: "roomy K m \<Longrightarrow> length m < UNAUTH_AUDIT_MAX_ENTRIES"
proof -
  assume r: "roomy K m"
  then have "length m = card (fst ` set m)"
    using distinct_card [of "map fst m"] by (simp add: roomy_def)
  also have "\<dots> \<le> card K" using r by (intro card_mono) (auto simp: roomy_def)
  finally show ?thesis using r by (simp add: roomy_def)
qed

lemma throttle_roomy:
  assumes "roomy K m"
  shows "throttle k now m = (if (case map_of m k of None \<Rightarrow> True | Some r \<Rightarrow> r < now)
    then (True, AList.update k (now + UNAUTH_AUDIT_WINDOW_MS) m) else (False, m))"
  using roomy_not_full [OF assms] by (simp add: throttle_def)

lemma roomy_throttle: "roomy K m \<Longrightarrow> k \<in> K \<Longrightarrow> roomy K (snd (throttle k now m))"
  unfolding throttle_roomy
  using distinct_update [of m k "now + UNAUTH_AUDIT_WINDOW_MS"] by (simp add: roomy_def dom_update)

text \<open>An address whose window is open is admitted again only after its end.\<close>

lemma admitted_after_window:
  assumes "roomy K m" "fst ` set rs \<subseteq> K" "map_of m k = Some r"
    and "j < length rs" "fst (rs ! j) = k" "fst (throttle_run rs m) ! j"
  shows "r < snd (rs ! j)"
  using assms
proof (induction rs arbitrary: m r j)
  case (Cons x rs)
  obtain k0 now where x: "x = (k0, now)" by (cases x)
  obtain b m1 where t: "throttle k0 now m = (b, m1)" by (cases "throttle k0 now m")
  have "roomy K m1" using roomy_throttle [of K m k0 now] Cons.prems(1,2) t x by auto
  note IH = Cons.IH [OF this]
  show ?case
  proof (cases j)
    case 0
    with Cons.prems x t show ?thesis
      by (auto simp: throttle_roomy split: prod.splits if_splits)
  next
    case (Suc j')
    have adm: "fst (throttle_run rs m1) ! j'" "j' < length rs" "fst (rs ! j') = k" "fst ` set rs \<subseteq> K"
      using Cons.prems x t Suc by (auto split: prod.splits)
    show ?thesis
    proof (cases "k0 = k \<and> b")
      case True
      then have "map_of m1 k = Some (now + UNAUTH_AUDIT_WINDOW_MS)" "r < now"
        using t Cons.prems(1,3) by (auto simp: throttle_roomy update_conv' split: if_splits)
      with IH [OF adm(4) _ adm(2,3,1)] Suc show ?thesis by (auto simp: UNAUTH_AUDIT_WINDOW_MS_def)
    next
      case False
      then have "map_of m1 k = Some r"
        using t Cons.prems(1,3) by (auto simp: throttle_roomy update_conv' split: if_splits)
      with IH [OF adm(4) _ adm(2,3,1)] Suc show ?thesis by auto
    qed
  qed
qed simp

lemma window_between_admissions:
  assumes "roomy K m" "fst ` set rs \<subseteq> K" "i < j" "j < length rs" "fst (rs ! i) = fst (rs ! j)"
    and "fst (throttle_run rs m) ! i" "fst (throttle_run rs m) ! j"
  shows "snd (rs ! i) + UNAUTH_AUDIT_WINDOW_MS < snd (rs ! j)"
  using assms
proof (induction rs arbitrary: m i j)
  case (Cons x rs)
  obtain k0 now where x: "x = (k0, now)" by (cases x)
  obtain b m1 where t: "throttle k0 now m = (b, m1)" by (cases "throttle k0 now m")
  have r1: "roomy K m1" using roomy_throttle [of K m k0 now] Cons.prems(1,2) t x by auto
  have ks: "fst ` set rs \<subseteq> K" using Cons.prems(2) by auto
  obtain j' where j: "j = Suc j'" "j' < length rs" using Cons.prems(3,4) by (cases j) auto
  have aj: "fst (throttle_run rs m1) ! j'" using Cons.prems(7) x t j by (auto split: prod.splits)
  show ?case
  proof (cases i)
    case 0
    then have "b" using Cons.prems(6) x t by (auto split: prod.splits)
    then have "map_of m1 k0 = Some (now + UNAUTH_AUDIT_WINDOW_MS)"
      using t Cons.prems(1) by (auto simp: throttle_roomy update_conv' split: if_splits)
    from admitted_after_window [OF r1 ks this j(2) _ aj] Cons.prems(5) x j 0 show ?thesis by simp
  next
    case (Suc i')
    with Cons.prems x t j have "fst (throttle_run rs m1) ! i'" "i' < j'" "fst (rs ! i') = fst (rs ! j')"
      by (auto split: prod.splits)
    from Cons.IH [OF r1 ks this(2) j(2) this(3,1) aj] Suc j show ?thesis by simp
  qed
qed simp

text \<open>The in-memory throttle of audit rows for unrecognised credentials, started empty and
  driven by any sequence of requests, never holds more than 10000 entries. As long as fewer than
  10000 distinct addresses appear in the sequence, two requests of the same address that are both
  admitted are more than ten seconds apart, whatever the other addresses do.\<close>

theorem unauth_throttle_bounded:
  shows "length (snd (throttle_run rs [])) \<le> UNAUTH_AUDIT_MAX_ENTRIES \<and>
    (card (fst ` set rs) < UNAUTH_AUDIT_MAX_ENTRIES \<longrightarrow>
     (\<forall>i j. i < j \<longrightarrow> j < length rs \<longrightarrow> fst (rs ! i) = fst (rs ! j) \<longrightarrow>
        fst (throttle_run rs []) ! i \<longrightarrow> fst (throttle_run rs []) ! j \<longrightarrow>
        snd (rs ! i) + UNAUTH_AUDIT_WINDOW_MS < snd (rs ! j)))"
proof (intro conjI impI allI)
  show "length (snd (throttle_run rs [])) \<le> UNAUTH_AUDIT_MAX_ENTRIES"
    using throttle_run_ok [of "[]" rs] by (simp add: counters_ok_def)
next
  fix i j
  assume "card (fst ` set rs) < UNAUTH_AUDIT_MAX_ENTRIES"
  then have "roomy (fst ` set rs) []" by (simp add: roomy_def)
  moreover assume "i < j" "j < length rs" "fst (rs ! i) = fst (rs ! j)"
    "fst (throttle_run rs []) ! i" "fst (throttle_run rs []) ! j"
  ultimately show "snd (rs ! i) + UNAUTH_AUDIT_WINDOW_MS < snd (rs ! j)"
    by (intro window_between_admissions) auto
qed

text \<open>A full map is cleared for a new address, and an address inside its window is then admitted
  again.\<close>

lemma cleared_map_readmits:
  assumes "length m = UNAUTH_AUDIT_MAX_ENTRIES" "map_of m k = Some r" "now \<le> r"
    and "map_of m k' = None" "k \<noteq> k'"
  shows "fst (throttle k now m) = False" "fst (throttle k now (snd (throttle k' now m))) = True"
  using assms by (simp_all add: throttle_def)

definition sample_probes :: "(string \<times> int) list" where
  "sample_probes = [(''a'', 0), (''b'', 5), (''a'', 900), (''a'', 20000)]"

theorem unauth_throttle_bounded_witness:
  "length (snd (throttle_run sample_probes [])) \<le> UNAUTH_AUDIT_MAX_ENTRIES \<and>
   fst (throttle_run sample_probes []) = [True, True, False, True] \<and>
   snd (sample_probes ! 0) + UNAUTH_AUDIT_WINDOW_MS < snd (sample_probes ! 3)"
proof -
  have run: "fst (throttle_run sample_probes []) = [True, True, False, True]"
    by (simp add: sample_probes_def throttle_def UNAUTH_AUDIT_MAX_ENTRIES_def UNAUTH_AUDIT_WINDOW_MS_def)
  have few: "card (fst ` set sample_probes) < UNAUTH_AUDIT_MAX_ENTRIES"
    by (simp add: sample_probes_def UNAUTH_AUDIT_MAX_ENTRIES_def card_insert_if)
  have at: "(0 :: nat) < 3" "3 < length sample_probes"
    "fst (sample_probes ! 0) = fst (sample_probes ! 3)" by (simp_all add: sample_probes_def)
  have adm: "fst (throttle_run sample_probes []) ! 0" "fst (throttle_run sample_probes []) ! 3"
    unfolding run by simp_all
  note r = unauth_throttle_bounded [of sample_probes]
  from r few at adm have "snd (sample_probes ! 0) + UNAUTH_AUDIT_WINDOW_MS < snd (sample_probes ! 3)"
    by blast
  with r run show ?thesis by blast
qed

section \<open>Authentication changes nothing but the time of last use\<close>

definition with_last_use :: "(agent_row \<Rightarrow> int option) \<Rightarrow> (agent_session_row \<Rightarrow> int option) \<Rightarrow> db \<Rightarrow> db" where
  "with_last_use f g d = d
     \<lparr>tbl_agents := map (\<lambda>a. a\<lparr>ag_lastUsedAt := f a\<rparr>) (tbl_agents d),
      tbl_agentSessions := map (\<lambda>s. s\<lparr>ses_lastUsedAt := g s\<rparr>) (tbl_agentSessions d)\<rparr>"

definition last_use_only :: "world \<Rightarrow> world \<Rightarrow> bool" where
  "last_use_only w w' \<longleftrightarrow> env_kept w w' \<and> (\<exists>f g. store w' = with_last_use f g (store w))"

lemma with_last_use_id [simp]: "with_last_use ag_lastUsedAt ses_lastUsedAt d = d"
  by (simp add: with_last_use_def map_idI)

lemma with_last_use_twice: "with_last_use f' g' (with_last_use f g d) =
  with_last_use (\<lambda>a. f' (a\<lparr>ag_lastUsedAt := f a\<rparr>)) (\<lambda>s. g' (s\<lparr>ses_lastUsedAt := g s\<rparr>)) d"
  by (simp add: with_last_use_def)

lemma touch_agents_last_use: "touch_agents i sb now d =
  with_last_use (\<lambda>a. if ag_id a = i \<and> stale sb (ag_lastUsedAt a) then Some now else ag_lastUsedAt a)
    ses_lastUsedAt d"
  by (simp add: touch_agents_def with_last_use_def map_idI)

lemma touch_sessions_last_use: "touch_sessions i sb now d =
  with_last_use ag_lastUsedAt
    (\<lambda>s. if ses_id s = i \<and> stale sb (ses_lastUsedAt s) then Some now else ses_lastUsedAt s) d"
  by (simp add: touch_sessions_def with_last_use_def map_idI)

lemma last_use_only_same: "same_store w w' \<Longrightarrow> last_use_only w w'"
  unfolding last_use_only_def same_store_def by (metis with_last_use_id)

lemma last_use_only_transp [simp]: "transp last_use_only"
proof (rule transpI)
  fix u v w
  assume "last_use_only u v" "last_use_only v w"
  then show "last_use_only u w"
    unfolding last_use_only_def by (elim conjE exE) (simp add: with_last_use_twice, blast intro: env_kept_trans)
qed

lemma last_use_only_reflp [simp]: "reflp last_use_only"
  by (rule reflpI) (simp add: last_use_only_same same_store_def)

lemma keeps_same_last_use: "keeps same_store m \<Longrightarrow> keeps last_use_only m"
  by (auto simp: keeps_def last_use_only_same)

lemmas keeps_last_use = keeps_andThen [OF last_use_only_transp] keeps_followed_by [OF last_use_only_transp]

lemma touch_eq: "touch u w = (Inr (), snd (touch u w))"
  by (simp add: touch_def andThen_def catch_all_def modify_def statement_def succeed_def
      split: option.split)

lemma touch_then: "followed_by (touch u) k w = k (snd (touch u w))"
  unfolding followed_by_def andThen_def by (subst touch_eq) simp

lemma touch_world:
  "env_kept w (snd (touch u w)) \<and>
   (store (snd (touch u w)) = store w \<or> (\<exists>sb now. store (snd (touch u w)) = u sb now (store w)))"
proof (cases "faults w (stmts w)")
  case None
  then have "snd (touch u w) = w\<lparr>ticks := Suc (Suc (ticks w)), stmts := Suc (stmts w),
      store := u (clock w (ticks w) - LAST_USED_THROTTLE_MS) (clock w (Suc (ticks w))) (store w)\<rparr>"
    by (simp add: touch_def andThen_def catch_all_def modify_def statement_def)
  then show ?thesis by (simp add: env_kept_def) blast
next
  case (Some c)
  then show ?thesis
    by (simp add: touch_def andThen_def catch_all_def modify_def statement_def succeed_def env_kept_def)
qed

lemma keeps_touch:
  assumes "\<And>sb now d. \<exists>f g. u sb now d = with_last_use f g d"
  shows "keeps last_use_only (touch u)"
proof (rule keepsI)
  fix w
  from touch_world [of w u] assms show "last_use_only w (snd (touch u w))"
    unfolding last_use_only_def by (metis with_last_use_id)
qed

lemma keeps_touchAgent: "keeps last_use_only (touchAgent a)"
  unfolding touchAgent_def by (rule keeps_touch) (use touch_agents_last_use in blast)

lemma keeps_touchAgentSession: "keeps last_use_only (touchAgentSession i)"
  unfolding touchAgentSession_def by (rule keeps_touch) (use touch_sessions_last_use in blast)

section \<open>Agents\<close>

text \<open>The token of the request is that of an unrevoked, unexpired session of an enabled, unrevoked
  agent whose creator is the session's user.\<close>

definition live_session ::
  "webcrypto \<Rightarrow> request_ctx \<Rightarrow> int \<Rightarrow> db \<Rightarrow> agent_session_row \<Rightarrow> agent_row \<Rightarrow> bool" where
  "live_session wc rq now d s a =
     ((\<exists>token. rq_authorization rq = Some (''Bearer '' @ token) \<and> take 4 token = ''abs_'' \<and>
        ses_tokenHash s = hashApiKey wc token) \<and>
      s \<in> set (tbl_agentSessions d) \<and> ses_revokedAt s = None \<and> now < ses_expiresAt s \<and>
      a \<in> set (tbl_agents d) \<and> ag_id a = ses_agentId s \<and> ag_createdBy a = ses_userId s \<and>
      ag_enabled a \<and> ag_revokedAt a = None)"

lemma startsWith_simps [simp]:
  "startsWith h ''Bearer '' \<longleftrightarrow> take 7 h = ''Bearer ''"
  "startsWith t AGENT_SESSION_PREFIX \<longleftrightarrow> take 4 t = ''abs_''"
  by (simp_all add: startsWith_def AGENT_SESSION_PREFIX_def numeral_eq_Suc)

lemma bearer_Some: "bearer rq = Some t \<longleftrightarrow> rq_authorization rq = Some (''Bearer '' @ t)"
proof
  assume "bearer rq = Some t"
  then obtain h where h: "rq_authorization rq = Some h" "take 7 h = ''Bearer ''" "t = drop 7 h"
    by (auto simp: bearer_def split: option.splits if_splits)
  have h': "h = ''Bearer '' @ t" using append_take_drop_id [of 7 h] unfolding h(2) h(3) by (rule sym)
  show "rq_authorization rq = Some (''Bearer '' @ t)" unfolding h(1) h' ..
qed (simp add: bearer_def)

lemma getBearerToken_Inr:
  "getBearerToken rq w = (Inr t, w') \<longleftrightarrow> bearer rq = Some t \<and> w' = w"
  by (auto simp: getBearerToken_def succeed_def fail_with_def split: option.split)

lemma unrevoked_session_SomeD:
  "unrevoked_session h d = Some s \<Longrightarrow>
     s \<in> set (tbl_agentSessions d) \<and> ses_tokenHash s = h \<and> ses_revokedAt s = None"
  unfolding unrevoked_session_def by (drule find_SomeD) simp

lemma session_agent_SomeD:
  "session_agent s d = Some a \<Longrightarrow>
     a \<in> set (tbl_agents d) \<and> ag_id a = ses_agentId s \<and> ag_createdBy a = ses_userId s"
  unfolding session_agent_def by (drule find_SomeD) (auto split: option.splits)

text \<open>The part after both reads, for an accepted agent.\<close>

lemma touches_Inr:
  "followed_by (touchAgent i) (followed_by (touchAgentSession j) (succeed x)) w = (r, w') \<Longrightarrow>
     r = Inr x \<and> last_use_only w w'"
proof -
  assume run: "followed_by (touchAgent i) (followed_by (touchAgentSession j) (succeed x)) w = (r, w')"
  have "keeps last_use_only (followed_by (touchAgent i) (followed_by (touchAgentSession j) (succeed x)))"
    by (intro keeps_last_use keeps_touchAgent keeps_touchAgentSession) simp
  with run have "last_use_only w w'" by (meson keepsD)
  with run show ?thesis
    by (auto simp: touchAgent_def touchAgentSession_def touch_then succeed_def)
qed

lemma verifyAgentSessionIdentity_Some:
  assumes "verifyAgentSessionIdentity wc rq token w = (Inr (Some i), w')"
  shows "\<exists>s a. startsWith token AGENT_SESSION_PREFIX \<and>
    unrevoked_session (hashApiKey wc token) (store w) = Some s \<and> clock w (ticks w) < ses_expiresAt s \<and>
    session_agent s (store w) = Some a \<and> ag_enabled a \<and> ag_revokedAt a = None \<and>
    i = toAgentIdentity a \<and> last_use_only w w'"
proof -
  let ?w2 = "w\<lparr>ticks := Suc (ticks w), stmts := Suc (Suc (stmts w))\<rparr>"
  from assms obtain s a where
    s: "startsWith token AGENT_SESSION_PREFIX" "unrevoked_session (hashApiKey wc token) (store w) = Some s"
      "clock w (ticks w) < ses_expiresAt s"
    and a: "session_agent s (store w) = Some a" "ag_enabled a" "ag_revokedAt a = None"
    and run: "followed_by (touchAgent (ag_id a)) (followed_by (touchAgentSession (ses_id s))
         (succeed (Some (toAgentIdentity a)))) ?w2 = (Inr (Some i), w')"
    by (auto simp: verifyAgentSessionIdentity_def andThen_Inr select_ok followed_by_def fail_with_def
        succeed_def split: if_splits option.splits)
  from touches_Inr [OF run] have "last_use_only ?w2 w'" "i = toAgentIdentity a" by auto
  moreover have "same_store w ?w2" by (simp add: same_store_def env_kept_def)
  ultimately have "last_use_only w w'"
    using last_use_only_same last_use_only_transp by (blast dest: transpD)
  with s a \<open>i = toAgentIdentity a\<close> show ?thesis by blast
qed

lemma resolveAgentIdentity_Inr:
  "resolveAgentIdentity wc rq w = (Inr i, w') \<Longrightarrow>
     \<exists>token. bearer rq = Some token \<and> verifyAgentSessionIdentity wc rq token w = (Inr (Some i), w')"
  by (auto simp: resolveAgentIdentity_def andThen_Inr getBearerToken_Inr followed_by_def fail_with_def
      succeed_def split: option.splits)

lemma agent_identity_from:
  assumes "resolveAgentIdentity wc rq w = (Inr i, w')"
  shows "\<exists>s a. live_session wc rq (clock w (ticks w)) (store w) s a \<and> i = toAgentIdentity a \<and>
    last_use_only w w'"
proof -
  from resolveAgentIdentity_Inr [OF assms] obtain token where
    t: "bearer rq = Some token" "verifyAgentSessionIdentity wc rq token w = (Inr (Some i), w')" by blast
  from verifyAgentSessionIdentity_Some [OF t(2)] obtain s a where
    s: "startsWith token AGENT_SESSION_PREFIX" "unrevoked_session (hashApiKey wc token) (store w) = Some s"
      "clock w (ticks w) < ses_expiresAt s"
    and a: "session_agent s (store w) = Some a" "ag_enabled a" "ag_revokedAt a = None"
      "i = toAgentIdentity a" "last_use_only w w'" by blast
  have "live_session wc rq (clock w (ticks w)) (store w) s a"
    using t(1) s a unrevoked_session_SomeD [OF s(2)] session_agent_SomeD [OF a(1)]
    by (auto simp: live_session_def bearer_Some)
  with a show ?thesis by blast
qed

lemma agent_identity_kept: "resolveAgentIdentity wc rq w = (Inr i, w') \<Longrightarrow> last_use_only w w'"
  using agent_identity_from by blast

text \<open>C4: an agent procedure sees an agent's identity only if the request carried, in an
  \<open>Authorization: Bearer\<close> header, an \<open>abs_\<close> token whose hash is that of a stored session that is
  neither revoked nor expired at the moment it is checked, of an agent that is enabled, not revoked,
  and created by the session's user. The identity is that agent's, with its own organisation and
  locality, and nothing but times of last use has been written.\<close>

theorem agent_identity_sound:
  assumes "resolveAgentIdentity wc rq w = (Inr i, w')"
  shows "(\<exists>s a. live_session wc rq (clock w (ticks w)) (store w) s a \<and> i = toAgentIdentity a) \<and>
    last_use_only w w'"
  using agent_identity_from [OF assms] by blast

lemma live_session_resolves:
  assumes "live_session wc rq (clock w (ticks w)) (store w) s a"
    and "inj_on ses_tokenHash (set (tbl_agentSessions (store w)))"
    and "inj_on ag_id (set (tbl_agents (store w)))"
    and "faults w (stmts w) = None" "faults w (Suc (stmts w)) = None"
  shows "fst (resolveAgentIdentity wc rq w) = Inr (toAgentIdentity a)"
proof -
  from assms(1) obtain token where t: "bearer rq = Some token" "startsWith token AGENT_SESSION_PREFIX"
    "ses_tokenHash s = hashApiKey wc token"
    by (auto simp: live_session_def bearer_Some)
  have s: "s \<in> set (tbl_agentSessions (store w))" "ses_revokedAt s = None"
    "clock w (ticks w) < ses_expiresAt s"
    and a: "a \<in> set (tbl_agents (store w))" "ag_id a = ses_agentId s" "ag_createdBy a = ses_userId s"
      "ag_enabled a" "ag_revokedAt a = None" using assms(1) by (auto simp: live_session_def)
  have found: "unrevoked_session (hashApiKey wc token) (store w) = Some s"
  proof (cases "unrevoked_session (hashApiKey wc token) (store w)")
    case None
    then have "\<not> (ses_tokenHash s = hashApiKey wc token \<and> ses_revokedAt s = None)"
      unfolding unrevoked_session_def using s(1) by (rule find_NoneD)
    with s t(3) show ?thesis by simp
  next
    case (Some s')
    from unrevoked_session_SomeD [OF this] s(1) t(3) assms(2) have "s' = s" by (simp add: inj_on_def)
    with Some show ?thesis by simp
  qed
  have agent: "session_agent s (store w) = Some a"
  proof (cases "session_agent s (store w)")
    case None
    then have "\<not> (ag_id a = ses_agentId s \<and> (case ses_userId s of None \<Rightarrow> ag_createdBy a = None
        | Some u \<Rightarrow> ag_createdBy a = Some u))"
      unfolding session_agent_def using a(1) by (rule find_NoneD)
    with a(2,3) show ?thesis by (cases "ses_userId s") auto
  next
    case (Some a')
    from session_agent_SomeD [OF this] a assms(3) have "a' = a" by (simp add: inj_on_def)
    with Some show ?thesis by simp
  qed
  have "getBearerToken rq w = (Inr token, w)" using t(1) by (simp add: getBearerToken_Inr)
  with t(2) s(3) a(4,5) found agent assms(4,5) show ?thesis
    by (simp add: resolveAgentIdentity_def andThen_def verifyAgentSessionIdentity_def select_def
        statement_def touchAgent_def touchAgentSession_def touch_then succeed_def)
qed

text \<open>Conversely, when token hashes and agent ids are unique (as the indexes of the
  tables enforce) and the two lookups do not fail, a live session is accepted: the request gets its
  agent's identity, even if the updates of the times of last use fail.\<close>

theorem live_session_accepted:
  assumes "live_session wc rq (clock w (ticks w)) (store w) s a"
    and "inj_on ses_tokenHash (set (tbl_agentSessions (store w)))"
    and "inj_on ag_id (set (tbl_agents (store w)))"
    and "faults w (stmts w) = None" "faults w (Suc (stmts w)) = None"
  shows "fst (resolveAgentIdentity wc rq w) = Inr (toAgentIdentity a)"
  by (rule live_session_resolves [OF assms])

definition auth_token :: string where
  "auth_token = ''abs_tok''"

definition auth_request :: request_ctx where
  "auth_request = \<lparr>rq_authorization = Some (''Bearer '' @ auth_token), rq_orgHeader = None, rq_ip = None\<rparr>"

definition auth_session_row :: agent_session_row where
  "auth_session_row = \<lparr>ses_id = ''s1'', ses_agentId = ''a1'', ses_userId = Some ''u1'',
     ses_tokenHash = hashApiKey toy_webcrypto auth_token, ses_expiresAt = 5000, ses_revokedAt = None,
     ses_lastUsedAt = None, ses_createdAt = 0\<rparr>"

definition sample_auth_db :: db where
  "sample_auth_db = sample_db\<lparr>tbl_agentSessions := [auth_session_row]\<rparr>"

lemma sample_live: "live_session toy_webcrypto auth_request
  (clock (sample_world sample_auth_db) (ticks (sample_world sample_auth_db)))
  (store (sample_world sample_auth_db)) auth_session_row sample_agent"
  by (simp add: live_session_def auth_request_def auth_session_row_def sample_auth_db_def
      sample_rows auth_token_def)

theorem live_session_accepted_witness:
  "fst (resolveAgentIdentity toy_webcrypto auth_request (sample_world sample_auth_db)) =
     Inr (toAgentIdentity sample_agent)"
  by (rule live_session_accepted [OF sample_live]) (simp_all add: sample_auth_db_def sample_db_def)

lemma sample_agent_resolved:
  "\<exists>w'. resolveAgentIdentity toy_webcrypto auth_request (sample_world sample_auth_db) =
     (Inr (toAgentIdentity sample_agent), w')"
  by (simp add: resolveAgentIdentity_def andThen_def getBearerToken_def bearer_def auth_request_def
      auth_token_def verifyAgentSessionIdentity_def select_def statement_def unrevoked_session_def
      session_agent_def sample_auth_db_def auth_session_row_def sample_rows touchAgent_def
      touchAgentSession_def touch_then succeed_def)

theorem agent_identity_sound_witness:
  "\<exists>s a. live_session toy_webcrypto auth_request 1000 sample_auth_db s a \<and>
     toAgentIdentity sample_agent = toAgentIdentity a"
proof -
  obtain w' where w': "resolveAgentIdentity toy_webcrypto auth_request (sample_world sample_auth_db) =
     (Inr (toAgentIdentity sample_agent), w')" using sample_agent_resolved by blast
  from agent_identity_sound [OF w'] show ?thesis by simp
qed

text \<open>The recognised session of a token, live or not.\<close>

definition presented_session :: "webcrypto \<Rightarrow> string \<Rightarrow> db \<Rightarrow> agent_session_row option" where
  "presented_session wc token d = (if startsWith token AGENT_SESSION_PREFIX
     then unrevoked_session (hashApiKey wc token) d else None)"

definition is_reject :: "audit_row \<Rightarrow> bool" where
  "is_reject r = (au_eventType r = Ev_agent_session_reject \<and> au_result r \<noteq> Allowed)"

lemma insert_audit_quiet:
  "faults w (stmts w) = None \<Longrightarrow> insert_audit rs w =
     (Inr (), w\<lparr>stmts := Suc (stmts w), store := (store w)\<lparr>tbl_auditLogs := tbl_auditLogs (store w) @ rs\<rparr>\<rparr>)"
  by (simp add: insert_audit_def insert_audits_def statement_def)

lemma auditUnrecognizedBearer_quiet:
  assumes "\<And>n. faults w n = None"
  shows "\<exists>w'. auditUnrecognizedBearer rq token w = (Inr (), w') \<and>
    store w' = (store w)\<lparr>tbl_auditLogs := tbl_auditLogs (store w) @
      (if fst (throttle (orElse (rq_ip rq) ''__unknown_ip__'') (clock w (ticks w)) (unauthCounters w))
       then [unknown_row rq token] else [])\<rparr>"
  using assms
  by (simp add: auditUnrecognizedBearer_def shouldWriteUnauthBearerAudit_def andThen_def catch_all_def
      insert_audit_quiet succeed_def split: prod.split)

text \<open>One row naming the agent, and the refusal.\<close>

definition refuses :: "(world, err, 'a) eff \<Rightarrow> string \<Rightarrow> world \<Rightarrow> bool" where
  "refuses m agentId w \<longleftrightarrow> (\<exists>w1 r. m w = (Inl unauthorized, w1) \<and> is_reject r \<and>
     au_agentId r = Some agentId \<and>
     store w1 = (store w)\<lparr>tbl_auditLogs := tbl_auditLogs (store w) @ [r]\<rparr>)"

lemma refusesI:
  assumes "m w = followed_by (auditAgentSessionReject rq u g t res reason) (fail_with unauthorized) w'"
    and "store w' = store w" "faults w' (stmts w') = None" "res \<noteq> Allowed"
  shows "refuses m g w"
proof -
  let ?r = "auth_row rq t u (Some g) Ev_agent_session_reject res [(''reason'', JStr reason)]"
  have "is_reject ?r" "au_agentId ?r = Some g" using assms(4) by (simp_all add: is_reject_def auth_row_def)
  moreover have "m w = (Inl unauthorized, w'\<lparr>stmts := Suc (stmts w'),
      store := (store w)\<lparr>tbl_auditLogs := tbl_auditLogs (store w) @ [?r]\<rparr>\<rparr>)"
    using assms(1-3)
    by (simp add: auditAgentSessionReject_def followed_by_def andThen_def insert_audit_quiet fail_with_def)
  ultimately show ?thesis unfolding refuses_def by (intro exI conjI) (assumption | simp)+
qed

lemma verify_unrecognised:
  assumes "\<And>n. faults w n = None" "presented_session wc token (store w) = None"
  shows "\<exists>w1. verifyAgentSessionIdentity wc rq token w = (Inr None, w1) \<and> store w1 = store w \<and>
    faults w1 = faults w \<and> clock w1 = clock w \<and> ticks w1 = ticks w \<and>
    unauthCounters w1 = unauthCounters w"
  using assms
  by (auto simp: presented_session_def verifyAgentSessionIdentity_def andThen_def select_def
      statement_def succeed_def split: if_splits)

lemma verify_recognised:
  assumes q: "\<And>n. faults w n = None" and p: "presented_session wc token (store w) = Some s"
  shows "(\<exists>i w1. verifyAgentSessionIdentity wc rq token w = (Inr (Some i), w1)) \<or>
    refuses (verifyAgentSessionIdentity wc rq token) (ses_agentId s) w"
proof -
  from p have s: "startsWith token AGENT_SESSION_PREFIX"
    "unrevoked_session (hashApiKey wc token) (store w) = Some s"
    by (auto simp: presented_session_def split: if_splits)
  let ?w = "w\<lparr>ticks := Suc (ticks w), stmts := Suc (Suc (stmts w))\<rparr>"
  note run = verifyAgentSessionIdentity_def andThen_def select_def statement_def
  show ?thesis
  proof (cases "ses_expiresAt s \<le> clock w (ticks w)")
    case True
    then show ?thesis
      using q s by (intro disjI2 refusesI [where w' = ?w and res = Expired]) (simp_all add: run)
  next
    case live: False
    show ?thesis
    proof (cases "session_agent s (store w)")
      case None
      then show ?thesis
        using q s live by (intro disjI2 refusesI [where w' = ?w and res = Denied]) (simp_all add: run)
    next
      case (Some a)
      have g: "ag_id a = ses_agentId s" using session_agent_SomeD [OF Some] by simp
      show ?thesis
        using Some q s live g
        by (cases "ag_enabled a"; cases "ag_revokedAt a = None")
          (auto simp: run touchAgent_def touchAgentSession_def touch_then succeed_def
            intro!: refusesI [where w' = ?w])
    qed
  qed
qed

text \<open>When statements do not fail, a request that does not get an agent identity fails as
  unauthorized, and the attempt leaves exactly this trace: nothing without a bearer token; exactly
  one session-reject row naming the agent when the token is that of an unrevoked stored session
  (expired, of an unknown, disabled or revoked agent); and for any other token one row for an
  unknown credential, unless the throttle has admitted the caller's address within the last ten
  seconds. No other table changes.\<close>

theorem rejected_agent_is_audited:
  assumes "resolveAgentIdentity wc rq w = (Inl e, w')" and "\<And>n. faults w n = None"
  shows "e = unauthorized \<and> (case bearer rq of
      None \<Rightarrow> store w' = store w
    | Some token \<Rightarrow> (case presented_session wc token (store w) of
        Some s \<Rightarrow> (\<exists>r. is_reject r \<and> au_agentId r = Some (ses_agentId s) \<and>
          store w' = (store w)\<lparr>tbl_auditLogs := tbl_auditLogs (store w) @ [r]\<rparr>)
      | None \<Rightarrow> store w' = (store w)\<lparr>tbl_auditLogs := tbl_auditLogs (store w) @
          (if fst (throttle (orElse (rq_ip rq) ''__unknown_ip__'') (clock w (ticks w)) (unauthCounters w))
           then [unknown_row rq token] else [])\<rparr>))"
proof (cases "bearer rq")
  case None
  with assms(1) show ?thesis
    by (simp add: resolveAgentIdentity_def getBearerToken_def andThen_def fail_with_def)
next
  case (Some token)
  then have tok: "getBearerToken rq w = (Inr token, w)" by (simp add: getBearerToken_Inr)
  show ?thesis
  proof (cases "presented_session wc token (store w)")
    case None
    from verify_unrecognised [OF assms(2) this] obtain w1 where
      v: "verifyAgentSessionIdentity wc rq token w = (Inr None, w1)" and k: "store w1 = store w"
      "faults w1 = faults w" "clock w1 = clock w" "ticks w1 = ticks w"
      "unauthCounters w1 = unauthCounters w" by blast
    obtain w2 where u: "auditUnrecognizedBearer rq token w1 = (Inr (), w2)"
      "store w2 = (store w1)\<lparr>tbl_auditLogs := tbl_auditLogs (store w1) @
        (if fst (throttle (orElse (rq_ip rq) ''__unknown_ip__'') (clock w1 (ticks w1)) (unauthCounters w1))
         then [unknown_row rq token] else [])\<rparr>"
      using auditUnrecognizedBearer_quiet [of w1 rq token] assms(2) k(2) by auto
    have "resolveAgentIdentity wc rq w = (Inl unauthorized, w2)"
      using tok v u(1) by (simp add: resolveAgentIdentity_def andThen_def followed_by_def fail_with_def)
    with assms(1) Some None u(2) k show ?thesis by simp
  next
    case p: (Some s)
    have not_in: "verifyAgentSessionIdentity wc rq token w \<noteq> (Inr (Some i), w1)" for i w1
      using assms(1) tok by (auto simp: resolveAgentIdentity_def andThen_def succeed_def)
    with verify_recognised [of w wc token s rq] assms(2) p
    have "refuses (verifyAgentSessionIdentity wc rq token) (ses_agentId s) w" by blast
    then obtain w1 r where r: "verifyAgentSessionIdentity wc rq token w = (Inl unauthorized, w1)"
      "is_reject r" "au_agentId r = Some (ses_agentId s)"
      "store w1 = (store w)\<lparr>tbl_auditLogs := tbl_auditLogs (store w) @ [r]\<rparr>"
      unfolding refuses_def by blast
    have "resolveAgentIdentity wc rq w = (Inl unauthorized, w1)"
      using tok r(1) by (simp add: resolveAgentIdentity_def andThen_def)
    with assms(1) Some p r(2-4) show ?thesis by auto
  qed
qed

definition sample_expired_db :: db where
  "sample_expired_db = sample_db\<lparr>tbl_agentSessions := [auth_session_row\<lparr>ses_expiresAt := 1000\<rparr>]\<rparr>"

theorem rejected_agent_is_audited_witness:
  "\<exists>w' r. resolveAgentIdentity toy_webcrypto auth_request (sample_world sample_expired_db) =
     (Inl unauthorized, w') \<and> is_reject r \<and> au_agentId r = Some ''a1'' \<and>
     tbl_auditLogs (store w') = [r]"
proof -
  have "fst (resolveAgentIdentity toy_webcrypto auth_request (sample_world sample_expired_db)) =
      Inl unauthorized"
    by (simp add: resolveAgentIdentity_def andThen_def getBearerToken_def bearer_def auth_request_def
      auth_token_def verifyAgentSessionIdentity_def select_def statement_def unrevoked_session_def
      sample_expired_db_def auth_session_row_def sample_rows auditAgentSessionReject_def
      insert_audit_quiet followed_by_def fail_with_def succeed_def)
  then obtain w' where w': "resolveAgentIdentity toy_webcrypto auth_request
      (sample_world sample_expired_db) = (Inl unauthorized, w')" by (metis prod.collapse)
  have p: "bearer auth_request = Some auth_token"
    "presented_session toy_webcrypto auth_token sample_expired_db =
       Some (auth_session_row\<lparr>ses_expiresAt := 1000\<rparr>)"
    by (simp_all add: auth_request_def bearer_def presented_session_def auth_token_def
        unrevoked_session_def sample_expired_db_def auth_session_row_def)
  from rejected_agent_is_audited [OF w'] p obtain r where "is_reject r" "au_agentId r = Some ''a1''"
    "store w' = sample_expired_db\<lparr>tbl_auditLogs := tbl_auditLogs sample_expired_db @ [r]\<rparr>"
    by (auto simp: auth_session_row_def)
  with w' show ?thesis by (auto simp: sample_expired_db_def sample_db_def)
qed

section \<open>Users\<close>

text \<open>An API key that admits a token: enabled, not revoked, with the token's hash and prefix.\<close>

definition key_admits :: "webcrypto \<Rightarrow> string \<Rightarrow> user_api_key_row \<Rightarrow> bool" where
  "key_admits wc token k = (key_secretPrefix k = take 8 token \<and> key_enabled k \<and> key_revokedAt k = None \<and>
     key_secretHash k = hashApiKey wc token)"

lemma verifyApiKey_eq: "verifyApiKey wc c h \<longleftrightarrow> hashApiKey wc c = h"
proof -
  have "verifyApiKey wc c h = constantTimeEqual (encode_text (hashApiKey wc c)) (encode_text h)"
    by (simp add: verifyApiKey_def constantTimeEqual_def Let_def encode_text_def)
  then show ?thesis by (simp add: constantTimeEqual_eq)
qed

lemma touch_keys_members:
  "tbl_members (store (snd (touchUserApiKey i w))) = tbl_members (store w)"
  using touch_world [of w "touch_keys i"] by (auto simp: touchUserApiKey_def touch_keys_def)

lemma check_keys_Some:
  "check_keys wc rq token ks w = (Inr (Some i), w') \<Longrightarrow>
     \<exists>k \<in> set ks. key_secretHash k = hashApiKey wc token \<and> sid_userId i = key_userId k \<and>
       sid_orgId i = key_org k \<and> sid_method i = User_api_key \<and>
       tbl_members (store w') = tbl_members (store w)"
proof (induction ks)
  case Nil
  then show ?case by (auto simp: followed_by_def andThen_Inr succeed_def)
next
  case (Cons k ks)
  show ?case
  proof (cases "verifyApiKey wc token (key_secretHash k)")
    case False
    with Cons show ?thesis by auto
  next
    case True
    with Cons.prems obtain w1 where "touchUserApiKey (key_id k) w1 = (Inr (), w')" "store w1 = store w"
      "i = \<lparr>sid_userId = key_userId k, sid_orgId = key_org k, sid_method = User_api_key\<rparr>"
      by (auto simp: andThen_Inr fail_with_def succeed_def key_expired_def followed_by_def
          split: if_splits option.splits)
    with True touch_keys_members [of "key_id k" w1] show ?thesis by (auto simp: verifyApiKey_eq)
  qed
qed

lemma identity_of_Inr:
  assumes "identity_of rq how u w = (Inr i, w')"
  shows "sid_userId i = u \<and> sid_method i = how \<and> store w' = store w \<and>
    (\<exists>m \<in> set (tbl_members (store w)). mem_org m = sid_orgId i \<and> mem_userId m = u)"
proof -
  from assms obtain t where r: "resolveUserOrgId rq u w = (Inr t, w')"
    and i: "i = \<lparr>sid_userId = u, sid_orgId = t, sid_method = how\<rparr>"
    by (auto simp: identity_of_def andThen_Inr succeed_def)
  have "store w' = store w \<and> (\<exists>m \<in> set (tbl_members (store w)). mem_org m = t \<and> mem_userId m = u)"
  proof (cases "truthy (rq_orgHeader rq)")
    case True
    then obtain h where "rq_orgHeader rq = Some h" "h \<noteq> []" by (rule truthyE)
    with r have "member_row_of h u (store w) \<noteq> None \<and> t = h \<and> store w' = store w"
      by (auto simp: resolveUserOrgId_def andThen_Inr select_ok fail_with_def succeed_def split: if_splits)
    then show ?thesis by (auto simp: member_row_of_def dest: find_SomeD)
  next
    case False
    define ms where "ms = sort_key mem_createdAt (filter (\<lambda>m. mem_userId m = u) (tbl_members (store w)))"
    from r False have "\<exists>m. ms = [m] \<and> t = mem_org m \<and> store w' = store w"
      by (cases ms; cases "tl ms")
        (auto simp: resolveUserOrgId_def andThen_Inr select_ok fail_with_def succeed_def ms_def [symmetric])
    then obtain m where m: "ms = [m]" and t: "t = mem_org m" "store w' = store w" by blast
    from m have "m \<in> set (filter (\<lambda>m. mem_userId m = u) (tbl_members (store w)))"
      unfolding ms_def by (metis list.set_intros(1) set_sort)
    with t show ?thesis by auto
  qed
  with i show ?thesis by simp
qed

text \<open>How a user may have been identified, with respect to the store at that moment.\<close>

definition user_identified :: "webcrypto \<Rightarrow> request_ctx \<Rightarrow> session_identity \<Rightarrow> db \<Rightarrow> bool" where
  "user_identified wc rq i d =
     (if sid_method i = User_api_key
      then \<exists>token k. rq_authorization rq = Some (''Bearer '' @ token) \<and> startsWith token USER_API_KEY_PREFIX \<and>
        k \<in> set (tbl_userApiKeys d) \<and> key_admits wc token k \<and> key_userId k = sid_userId i \<and>
        key_org k = sid_orgId i
      else \<exists>m \<in> set (tbl_members d). mem_org m = sid_orgId i \<and> mem_userId m = sid_userId i)"

lemma user_identified_cong:
  "tbl_members d = tbl_members d' \<Longrightarrow> tbl_userApiKeys d = tbl_userApiKeys d' \<Longrightarrow>
   user_identified wc rq i d = user_identified wc rq i d'"
  by (simp add: user_identified_def)

lemma resolveUserApiKeyIdentity_Some:
  assumes "resolveUserApiKeyIdentity wc rq token w = (Inr (Some i), w')"
    and "bearer rq = Some token" "startsWith token USER_API_KEY_PREFIX"
  shows "user_identified wc rq i (store w) \<and> tbl_members (store w') = tbl_members (store w)"
proof -
  from assms(1) have c: "check_keys wc rq token (key_candidates token (store w)) (w\<lparr>stmts := Suc (stmts w)\<rparr>)
      = (Inr (Some i), w')"
    by (auto simp: resolveUserApiKeyIdentity_def andThen_Inr select_ok)
  from check_keys_Some [OF c] obtain k where k: "k \<in> set (key_candidates token (store w))"
    "key_secretHash k = hashApiKey wc token" "sid_userId i = key_userId k" "sid_orgId i = key_org k"
    "sid_method i = User_api_key" "tbl_members (store w') = tbl_members (store w)" by auto
  moreover from k(1) have "k \<in> set (tbl_userApiKeys (store w)) \<and> key_secretPrefix k = take 8 token \<and>
      key_enabled k \<and> key_revokedAt k = None"
    unfolding key_candidates_def by (auto dest: in_set_takeD)
  ultimately show ?thesis
    using assms(2,3) by (auto simp: user_identified_def key_admits_def bearer_Some)
qed

text \<open>The session library's lookups write to its own tables only.\<close>

definition lookup_frame :: "world \<Rightarrow> world \<Rightarrow> bool" where
  "lookup_frame w w' \<longleftrightarrow> tbl_members (store w') = tbl_members (store w) \<and>
     tbl_userApiKeys (store w') = tbl_userApiKeys (store w)"

definition lookups_only :: "better_auth \<Rightarrow> bool" where
  "lookups_only ba \<longleftrightarrow> (\<forall>rq. keeps lookup_frame (ba_getSession ba rq)) \<and>
     (\<forall>t. keeps lookup_frame (ba_findSession ba t))"

lemma lookups_onlyD:
  assumes "lookups_only ba"
  shows "ba_getSession ba rq w = (r, w') \<Longrightarrow> lookup_frame w w'"
    "ba_findSession ba t w = (r', w'') \<Longrightarrow> lookup_frame w w''"
  using assms unfolding lookups_only_def by (blast dest: keepsD)+

lemma identified_by_membership:
  assumes "identity_of rq how u w = (Inr i, w')" "how \<noteq> User_api_key"
  shows "user_identified wc rq i (store w) \<and> tbl_members (store w') = tbl_members (store w)"
  using identity_of_Inr [OF assms(1)] assms(2) by (simp add: user_identified_def)

lemma resolveBearerSessionIdentity_Some:
  assumes "lookups_only ba" "resolveBearerSessionIdentity ba wc rq w = (Inr (Some i), w')"
  shows "user_identified wc rq i (store w) \<and> tbl_members (store w') = tbl_members (store w)"
proof -
  from assms(2) obtain token where tok: "bearer rq = Some token"
    by (auto simp: resolveBearerSessionIdentity_def succeed_def split: option.splits)
  show ?thesis
  proof (cases "startsWith token USER_API_KEY_PREFIX")
    case True
    with assms(2) tok resolveUserApiKeyIdentity_Some [OF _ tok True] show ?thesis
      by (auto simp: resolveBearerSessionIdentity_def)
  next
    case False
    with assms(2) tok obtain r u w2 where f: "ba_findSession ba token w = (Inr r, w2)"
      and i: "identity_of rq Bearer_session u w2 = (Inr i, w')"
      by (auto simp: resolveBearerSessionIdentity_def andThen_Inr succeed_def split: if_splits)
    from lookups_onlyD(2) [OF assms(1) f] have "lookup_frame w w2" .
    with identified_by_membership [OF i, of wc] show ?thesis
      using user_identified_cong [of "store w2" "store w"] by (simp add: lookup_frame_def)
  qed
qed

lemma resolveSessionIdentity_Inr:
  assumes "lookups_only ba" "resolveSessionIdentity ba wc rq w = (Inr i, w')"
  shows "user_identified wc rq i (store w) \<and> tbl_members (store w') = tbl_members (store w)"
proof -
  from assms(2) obtain s w1 where g: "ba_getSession ba rq w = (Inr s, w1)"
    and rest: "if truthy (session_user s) then identity_of rq Browser_session (the (session_user s)) w1 = (Inr i, w')
     else resolveBearerSessionIdentity ba wc rq w1 = (Inr (Some i), w')"
    by (auto simp: resolveSessionIdentity_def andThen_Inr succeed_def fail_with_def
        split: if_splits option.splits)
  from rest have "user_identified wc rq i (store w1) \<and> tbl_members (store w') = tbl_members (store w1)"
    using identified_by_membership [of rq Browser_session _ w1 i w' wc]
      resolveBearerSessionIdentity_Some [OF assms(1), of wc rq w1 i w'] by (auto split: if_splits)
  moreover from lookups_onlyD(1) [OF assms(1) g] have "lookup_frame w w1" .
  ultimately show ?thesis
    using user_identified_cong [of "store w1" "store w"] by (simp add: lookup_frame_def)
qed

lemma scopedSessionProcedure_Inr:
  assumes "lookups_only ba" "scopedSessionProcedure ba wc rq procedure w = (Inr x, w')"
  shows "\<exists>i w1. user_identified wc rq i (store w) \<and> sid_orgId i \<noteq> [] \<and>
    (\<exists>m \<in> set (tbl_members (store w)). mem_org m = sid_orgId i \<and> mem_userId m = sid_userId i \<and>
       mem_role m \<in> {''owner'', ''admin'', ''member''}) \<and>
    withOrgContext (procedure i) w1 = (Inr x, w')"
proof -
  from assms(2) obtain i w2 r w1 where i: "resolveSessionIdentity ba wc rq w = (Inr i, w2)" "sid_orgId i \<noteq> []"
    and role: "requireOrgRole (sid_orgId i) (sid_userId i) ''member'' w2 = (Inr r, w1)"
    and run: "withOrgContext (procedure i) w1 = (Inr x, w')"
    by (auto simp: scopedSessionProcedure_def andThen_Inr followed_by_def fail_with_def split: if_splits)
  from resolveSessionIdentity_Inr [OF assms(1) i(1)]
  have id: "user_identified wc rq i (store w)" "tbl_members (store w2) = tbl_members (store w)" by auto
  from requireOrgRole_Inr [OF role] obtain m where
    "member_row_of (sid_orgId i) (sid_userId i) (store w2) = Some m" "roleRank (mem_role m) > 0" by auto
  with id(2) have "\<exists>m \<in> set (tbl_members (store w)). mem_org m = sid_orgId i \<and>
       mem_userId m = sid_userId i \<and> mem_role m \<in> {''owner'', ''admin'', ''member''}"
    by (auto simp: member_row_of_def roleRank_pos dest: find_SomeD)
  with id(1) i(2) run show ?thesis by blast
qed

text \<open>When the session library's lookups leave the tables of members and keys alone, a user
  procedure that needs an organisation runs only for a user identified against the store at the
  start of the request (by a membership of the organisation for browser and bearer sessions, by an
  enabled, unrevoked key of that organisation with the token's hash for an \<open>abu_\<close> key) who is a
  member of that very organisation with a known role. A key of a user who is no longer a member
  therefore opens nothing. The procedure's own work is done inside the organisation context.\<close>

theorem scoped_procedure_runs_for_members:
  assumes "lookups_only ba" "scopedSessionProcedure ba wc rq procedure w = (Inr x, w')"
  shows "\<exists>i w1. user_identified wc rq i (store w) \<and> sid_orgId i \<noteq> [] \<and>
    (\<exists>m \<in> set (tbl_members (store w)). mem_org m = sid_orgId i \<and> mem_userId m = sid_userId i \<and>
       mem_role m \<in> {''owner'', ''admin'', ''member''}) \<and>
    withOrgContext (procedure i) w1 = (Inr x, w')"
  by (rule scopedSessionProcedure_Inr [OF assms])

definition sample_better_auth :: better_auth where
  "sample_better_auth = \<lparr>ba_getSession = (\<lambda>_. succeed (Some \<lparr>as_user = Some ''u1'', as_sessionUser = None\<rparr>)),
     ba_findSession = (\<lambda>_. succeed None)\<rparr>"

lemma sample_lookups_only: "lookups_only sample_better_auth"
  by (auto simp: lookups_only_def sample_better_auth_def lookup_frame_def keeps_def succeed_def)

definition sample_member_db :: db where
  "sample_member_db = sample_db\<lparr>tbl_members := [\<lparr>mem_id = ''m1'', mem_org = ''o1'', mem_userId = ''u1'',
     mem_role = ''member'', mem_createdAt = 0\<rparr>]\<rparr>"

theorem scoped_procedure_runs_for_members_witness:
  "\<exists>i w1 w'. user_identified toy_webcrypto auth_request i sample_member_db \<and> sid_orgId i \<noteq> [] \<and>
    withOrgContext (succeed (sid_orgId i)) w1 = (Inr ''o1'', w')"
proof -
  have "fst (scopedSessionProcedure sample_better_auth toy_webcrypto auth_request
      (\<lambda>i. succeed (sid_orgId i)) (sample_world sample_member_db)) = Inr ''o1''"
    by (simp add: scopedSessionProcedure_def resolveSessionIdentity_def sample_better_auth_def
        andThen_def session_user_def identity_of_def resolveUserOrgId_def auth_request_def select_def
        statement_def sample_member_db_def followed_by_def requireOrgRole_def member_row_of_def
        withOrgContext_def succeed_def)
  then obtain w' where w': "scopedSessionProcedure sample_better_auth toy_webcrypto auth_request
      (\<lambda>i. succeed (sid_orgId i)) (sample_world sample_member_db) = (Inr ''o1'', w')"
    by (metis prod.collapse)
  from scoped_procedure_runs_for_members [OF sample_lookups_only w'] show ?thesis by auto
qed

end
