(* ===== verification/Constraints.thy ===== *)
theory Constraints
  imports Core_Model
begin

text \<open>
  The run-time constraints on the canonical actions
  (\<open>packages/trpc/src/server/routers/access/constraints.ts\<close>), the machine-readable part of a
  missing-grant denial (\<open>denial-hint.ts\<close>) and the capability matching of
  \<open>pipeline.ts\<close>, together with what they say about the legacy capability matrix.
\<close>

datatype action = Act_read | Act_use

fun action_capability :: "action \<Rightarrow> capability" where
  "action_capability Act_read = Cap_read"
| "action_capability Act_use = Cap_use"

fun cap_name :: "capability \<Rightarrow> string" where
  "cap_name Cap_read = ''read''"
| "cap_name Cap_use = ''use''"
| "cap_name Read_ciphertext = ''read_ciphertext''"
| "cap_name Reveal_plaintext = ''reveal_plaintext''"
| "cap_name Mount_env = ''mount_env''"
| "cap_name Mount_file = ''mount_file''"

definition action_name :: "action \<Rightarrow> string" where
  "action_name a = cap_name (action_capability a)"

fun mode_name :: "storage_mode \<Rightarrow> string" where
  "mode_name Zero_knowledge = ''zero_knowledge''"
| "mode_name Server_managed = ''server_managed''"

fun locality_name :: "agent_locality \<Rightarrow> string" where
  "locality_name Local = ''local''"
| "locality_name Remote = ''remote''"

definition checkActionConstraint :: "action \<Rightarrow> agent_locality \<Rightarrow> storage_mode \<Rightarrow> err + unit" where
  "checkActionConstraint a l m =
     (let e = forbidden ''INVALID_CAPABILITY''
        [(''action'', JStr (action_name a)), (''locality'', JStr (locality_name l)),
         (''storageMode'', JStr (mode_name m))] in
      if l = Remote \<and> m = Zero_knowledge then Inl e
      else if l = Remote \<and> a = Act_use then Inl e
      else Inr ())"

definition isActionAllowed :: "action \<Rightarrow> agent_locality \<Rightarrow> storage_mode \<Rightarrow> bool" where
  "isActionAllowed a l m = (case checkActionConstraint a l m of Inl _ \<Rightarrow> False | Inr _ \<Rightarrow> True)"

text \<open>The keys of a missing field are left out.\<close>

definition buildPermissionDeniedMeta ::
  "string option \<Rightarrow> string option \<Rightarrow> capability option \<Rightarrow> string option \<Rightarrow> json_object" where
  "buildPermissionDeniedMeta itemId agentId cap act =
     (if truthy itemId then [(''itemId'', JStr (the itemId))] else []) @
     (if truthy agentId then [(''agentId'', JStr (the agentId))] else []) @
     (case cap of None \<Rightarrow> [] | Some c \<Rightarrow> [(''capability'', JStr (cap_name c))]) @
     (if truthy act then [(''action'', JStr (the act))] else [])"

text \<open>\<open>set.add\<close> for every legacy alias of the action, in the order of the constant.\<close>

definition legacyCapsForAction :: "action \<Rightarrow> capability list" where
  "legacyCapsForAction a =
     fold (\<lambda>(legacy, canonical) acc.
        if canonical = action_capability a \<and> legacy \<notin> set acc then acc @ [legacy] else acc)
       LEGACY_TO_CANONICAL [action_capability a]"

section \<open>Facts\<close>

lemma legacyCapsForAction_simps [simp]:
  "legacyCapsForAction Act_read = [Cap_read, Read_ciphertext, Reveal_plaintext]"
  "legacyCapsForAction Act_use = [Cap_use, Mount_env, Mount_file]"
  by (simp_all add: legacyCapsForAction_def LEGACY_TO_CANONICAL_def)

lemma isActionAllowed_iff:
  "isActionAllowed a l m \<longleftrightarrow> l = Local \<or> (a = Act_read \<and> m = Server_managed)"
  by (cases a; cases l; cases m) (simp_all add: isActionAllowed_def checkActionConstraint_def)

lemma checkActionConstraint_Inr:
  "checkActionConstraint a l m = Inr () \<longleftrightarrow> isActionAllowed a l m"
  by (simp add: isActionAllowed_def split: sum.split)

lemma checkActionConstraint_Inl:
  "checkActionConstraint a l m = Inl e \<Longrightarrow> \<exists>meta. e = forbidden ''INVALID_CAPABILITY'' meta"
  by (auto simp: checkActionConstraint_def Let_def split: if_splits)

text \<open>The run-time constraint and the legacy capability matrix permit the same accesses: an
  action is allowed for an agent locality and a storage mode exactly when the matrix grants that
  combination one of the legacy capabilities that stand for the action.\<close>

theorem constraint_agrees_with_matrix:
  "isActionAllowed a l m \<longleftrightarrow>
     (\<exists>c \<in> set (legacyCapsForAction a). isCapabilityAllowed c l m)"
  by (cases a; cases l; cases m)
    (auto simp: isActionAllowed_iff isCapabilityAllowed_def)

text \<open>Every capability authorises exactly one canonical action.\<close>

lemma legacyCaps_mem:
  "c \<in> set (legacyCapsForAction a) \<longleftrightarrow>
     orElse (map_of LEGACY_TO_CANONICAL c) c = action_capability a"
  by (cases a; cases c) (simp_all add: LEGACY_TO_CANONICAL_def)

end
