(* ===== verification/Permissions.thy ===== *)
theory Permissions
  imports Roles Constraints Samples
begin

text \<open>
  Granting and revoking access (\<open>packages/trpc/src/server/routers/permissions.ts\<close>). A grant
  targets an item or a profile; the checks run in the order of the code, each refusal logging one
  denied row, and the rows and their audit entries are inserted in one transaction.
\<close>

section \<open>Input\<close>

datatype grant_target = On_item string | On_profile string

text \<open>\<open>cp_expiresAt\<close>: absent (or empty), a text that is no date, or an instant.\<close>

record create_permission_input =
  cp_agentId :: string
  cp_target :: grant_target
  cp_capabilities :: "capability list"
  cp_expiresAt :: "int option option"

definition target_itemId :: "grant_target \<Rightarrow> string option" where
  "target_itemId t = (case t of On_item i \<Rightarrow> Some i | On_profile _ \<Rightarrow> None)"

definition target_profileId :: "grant_target \<Rightarrow> string option" where
  "target_profileId t = (case t of On_item _ \<Rightarrow> None | On_profile p \<Rightarrow> Some p)"

definition target_name :: "grant_target \<Rightarrow> string" where
  "target_name t = (case t of On_item _ \<Rightarrow> ''item'' | On_profile _ \<Rightarrow> ''profile'')"

definition cap_list :: "capability list \<Rightarrow> json" where
  "cap_list cs = JArr (map (\<lambda>c. JStr (cap_name c)) cs)"

section \<open>Refusals\<close>

definition deny_create ::
  "session_ctx \<Rightarrow> create_permission_input \<Rightarrow> grant_target option \<Rightarrow> string \<Rightarrow> json_object option \<Rightarrow> err \<Rightarrow>
   'a server" where
  "deny_create sx inp tgt why meta x =
     auditDeniedSession ((denied (sx_orgId sx) (Some (sx_userId sx)) Ev_permission_create why)
       \<lparr>df_agentId := Some (cp_agentId inp), df_itemId := Option.bind tgt target_itemId,
        df_profileId := Option.bind tgt target_profileId, df_meta := meta, df_ipAddress := sx_ip sx\<rparr>) x"

text \<open>Run a role guard; a forbidden error is logged as a denied row with the given reason.\<close>

definition guarded :: "session_ctx \<Rightarrow> audit_event \<Rightarrow> string \<Rightarrow> string option \<Rightarrow> string \<Rightarrow> 'a server \<Rightarrow> 'a server" where
  "guarded sx ev agentId itemId why m =
     forbidden_logged ((entry (sx_orgId sx) (Some (sx_userId sx)) ev Denied)
       \<lparr>ae_agentId := Some agentId, ae_itemId := itemId, ae_ipAddress := sx_ip sx,
        ae_meta := Some [(''reason'', JStr why)]\<rparr>) m"

definition require_manage :: "session_ctx \<Rightarrow> audit_event \<Rightarrow> string \<Rightarrow> string option \<Rightarrow> unit server" where
  "require_manage sx ev agentId itemId =
     andThen (guarded sx ev agentId itemId ''insufficient_role''
        (requireOrgRole (sx_orgId sx) (sx_userId sx) ''member'')) (\<lambda>callerRole.
     guarded sx ev agentId itemId ''agent_not_owned''
        (requireAgentOwnership agentId (sx_userId sx) (sx_orgId sx) callerRole))"

section \<open>Creating\<close>

definition org_profile :: "string \<Rightarrow> string \<Rightarrow> db \<Rightarrow> profile_row option" where
  "org_profile orgId profileId d = findFirst prof_org orgId (\<lambda>p. prof_id p = profileId) (tbl_profiles d)"

text \<open>The item is looked up without its deletion mark.\<close>

definition org_item :: "string \<Rightarrow> string \<Rightarrow> db \<Rightarrow> item_row option" where
  "org_item orgId itemId d = findFirst item_org orgId (\<lambda>i. item_id i = itemId) (tbl_items d)"

definition overlapping ::
  "session_ctx \<Rightarrow> create_permission_input \<Rightarrow> db \<Rightarrow> permission_row list" where
  "overlapping sx inp d =
     findMany perm_org (sx_orgId sx) (\<lambda>p. perm_agentId p = cp_agentId inp \<and>
        (case cp_target inp of On_item i \<Rightarrow> perm_itemId p = Some i
                             | On_profile q \<Rightarrow> perm_profileId p = Some q) \<and>
        perm_capability p \<in> set (cp_capabilities inp)) (tbl_permissions d)"

definition require_no_overlap :: "session_ctx \<Rightarrow> create_permission_input \<Rightarrow> unit server" where
  "require_no_overlap sx inp =
     andThen (select (overlapping sx inp)) (\<lambda>rows.
       if rows \<noteq> [] then
         let meta = [(''duplicateCapabilities'', cap_list (map perm_capability rows))] in
         deny_create sx inp (Some (cp_target inp)) ''permission_already_exists'' (Some meta)
           (DomainErr ConflictError ''PERMISSION_ALREADY_EXISTS'' meta)
       else succeed ())"

fun fresh_ids :: "nat \<Rightarrow> string list server" where
  "fresh_ids 0 = succeed []"
| "fresh_ids (Suc n) = andThen randomUUID (\<lambda>u. andThen (fresh_ids n) (\<lambda>us. succeed (u # us)))"

definition new_permission ::
  "session_ctx \<Rightarrow> create_permission_input \<Rightarrow> int \<Rightarrow> int option \<Rightarrow> string \<Rightarrow> capability \<Rightarrow> permission_row" where
  "new_permission sx inp createdAt expiresAt i c =
     \<lparr>perm_id = i, perm_org = sx_orgId sx, perm_agentId = cp_agentId inp,
      perm_itemId = target_itemId (cp_target inp), perm_profileId = target_profileId (cp_target inp),
      perm_capability = c, perm_expiresAt = expiresAt, perm_grantedBy = Some (sx_userId sx),
      perm_createdAt = createdAt\<rparr>"

definition grant_audit :: "session_ctx \<Rightarrow> create_permission_input \<Rightarrow> permission_row \<Rightarrow> audit_row" where
  "grant_audit sx inp row =
     buildAuditRow ((entry (sx_orgId sx) (Some (sx_userId sx)) Ev_permission_create Allowed)
       \<lparr>ae_agentId := Some (cp_agentId inp), ae_itemId := target_itemId (cp_target inp),
        ae_profileId := target_profileId (cp_target inp), ae_surface := Some ''api'',
        ae_meta := Some [(''capability'', JStr (cap_name (perm_capability row))),
          (''target'', JStr (target_name (cp_target inp)))],
        ae_ipAddress := sx_ip sx\<rparr>)"

text \<open>A text that is no date fails when the driver serialises it, before the statement is sent.\<close>

definition insert_grants :: "session_ctx \<Rightarrow> create_permission_input \<Rightarrow> permission_row list server" where
  "insert_grants sx inp =
     andThen new_Date (\<lambda>createdAt.
     andThen (fresh_ids (length (cp_capabilities inp))) (\<lambda>ids.
     let expiresAt = Option.bind (cp_expiresAt inp) id;
         rows = map (\<lambda>(i, c). new_permission sx inp createdAt expiresAt i c) (zip ids (cp_capabilities inp)) in
     followed_by
       (catch_all
         (transaction
            (if cp_expiresAt inp = Some None then fail_with (PlainErr ''RangeError'')
             else followed_by (statement (insert_permissions rows))
               (for_each (\<lambda>row. insert_audit [grant_audit sx inp row]) rows)))
         (\<lambda>e. if e = DbErr ''23505''
              then fail_with (DomainErr ConflictError ''PERMISSION_ALREADY_EXISTS'' [])
              else fail_with e))
       (succeed rows)))"

definition localityViolations :: "agent_locality \<Rightarrow> storage_mode \<Rightarrow> capability list \<Rightarrow> capability list" where
  "localityViolations l m cs =
     (let allowedCaps = getAllowedCapabilities l m;
          other = getAllowedCapabilities l
            (if m = Zero_knowledge then Server_managed else Zero_knowledge)
      in filter (\<lambda>c. c \<notin> set allowedCaps \<and> c \<notin> set other) cs)"

definition storageViolations :: "agent_locality \<Rightarrow> storage_mode \<Rightarrow> capability list \<Rightarrow> capability list" where
  "storageViolations l m cs =
     (let allowedCaps = getAllowedCapabilities l m;
          other = getAllowedCapabilities l
            (if m = Zero_knowledge then Server_managed else Zero_knowledge)
      in filter (\<lambda>c. c \<notin> set allowedCaps \<and> c \<in> set other) cs)"

text \<open>The checks of an item-target grant: canonical capabilities, then the matrix.\<close>

definition require_matrix ::
  "session_ctx \<Rightarrow> create_permission_input \<Rightarrow> agent_row \<Rightarrow> item_row \<Rightarrow> unit server" where
  "require_matrix sx inp agent item =
     (case find (\<lambda>c. c \<in> set CANONICAL_CAPABILITIES) (cp_capabilities inp) of
        Some c \<Rightarrow> fail_with (DomainErr BadRequestError ''BAD_REQUEST''
          [(''capability'', JStr (cap_name c)), (''target'', JStr ''item'')])
      | None \<Rightarrow>
         (let lv = localityViolations (ag_locality agent) (item_storageMode item) (cp_capabilities inp);
              sv = storageViolations (ag_locality agent) (item_storageMode item) (cp_capabilities inp) in
          if lv \<noteq> [] then
            deny_create sx inp (Some (cp_target inp)) ''invalid_capability_locality''
              (Some [(''invalidCapabilities'', cap_list lv)])
              (DomainErr BadRequestError ''INVALID_CAPABILITY_LOCALITY''
                 [(''invalidCapabilities'', cap_list lv)])
          else if sv \<noteq> [] then
            deny_create sx inp (Some (cp_target inp)) ''invalid_capability_storage''
              (Some [(''invalidCapabilities'', cap_list sv)])
              (DomainErr BadRequestError ''INVALID_CAPABILITY_STORAGE''
                 [(''invalidCapabilities'', cap_list sv)])
          else succeed ()))"

definition createPermission :: "session_ctx \<Rightarrow> create_permission_input \<Rightarrow> permission_row list server" where
  "createPermission sx inp =
     andThen (select (org_agent (sx_orgId sx) (cp_agentId inp))) (\<lambda>found.
       case found of
         None \<Rightarrow> deny_create sx inp None ''agent_not_found'' None (notFound ''AGENT_NOT_FOUND'')
       | Some agent \<Rightarrow>
           followed_by (require_manage sx Ev_permission_create (cp_agentId inp) None)
           (case cp_target inp of
              On_profile p \<Rightarrow> andThen (select (org_profile (sx_orgId sx) p)) (\<lambda>profile.
                if profile = None
                then deny_create sx inp (Some (On_profile p)) ''profile_not_found'' None
                       (notFound ''PROFILE_NOT_FOUND'')
                else followed_by (require_no_overlap sx inp) (insert_grants sx inp))
            | On_item i \<Rightarrow> andThen (select (org_item (sx_orgId sx) i)) (\<lambda>found_item.
                case found_item of
                  None \<Rightarrow> deny_create sx inp (Some (On_item i)) ''item_not_found'' None
                           (notFound ''ITEM_NOT_FOUND'')
                | Some item \<Rightarrow> followed_by (require_matrix sx inp agent item)
                    (followed_by (require_no_overlap sx inp) (insert_grants sx inp)))))"

section \<open>Revoking\<close>

definition org_permission :: "string \<Rightarrow> string \<Rightarrow> db \<Rightarrow> permission_row option" where
  "org_permission orgId permissionId d =
     findFirst perm_org orgId (\<lambda>p. perm_id p = permissionId) (tbl_permissions d)"

definition delete_permission :: "string \<Rightarrow> string \<Rightarrow> db \<Rightarrow> db" where
  "delete_permission orgId permissionId d = d\<lparr>tbl_permissions :=
     filter (\<lambda>p. \<not> (perm_id p = permissionId \<and> orgScope perm_org orgId p)) (tbl_permissions d)\<rparr>"

definition deny_revoke :: "session_ctx \<Rightarrow> string option \<Rightarrow> string \<Rightarrow> err \<Rightarrow> 'a server" where
  "deny_revoke sx agentId why x =
     auditDeniedSession ((denied (sx_orgId sx) (Some (sx_userId sx)) Ev_permission_revoke why)
       \<lparr>df_agentId := agentId, df_ipAddress := sx_ip sx\<rparr>) x"

definition revokePermission :: "session_ctx \<Rightarrow> string \<Rightarrow> unit server" where
  "revokePermission sx permissionId =
     andThen (select (org_permission (sx_orgId sx) permissionId)) (\<lambda>found.
       case found of
         None \<Rightarrow> deny_revoke sx None ''permission_not_found'' (notFound ''PERMISSION_NOT_FOUND'')
       | Some p \<Rightarrow> andThen (select (org_agent (sx_orgId sx) (perm_agentId p))) (\<lambda>agent.
           if agent = None
           then deny_revoke sx (Some (perm_agentId p)) ''permission_cross_org''
                  (notFound ''PERMISSION_NOT_FOUND'')
           else followed_by (require_manage sx Ev_permission_revoke (perm_agentId p) (perm_itemId p))
             (followed_by (modify (delete_permission (sx_orgId sx) permissionId))
                (logSessionAudit ((entry (sx_orgId sx) (Some (sx_userId sx)) Ev_permission_revoke Allowed)
                   \<lparr>ae_agentId := Some (perm_agentId p), ae_itemId := perm_itemId p,
                    ae_ipAddress := sx_ip sx\<rparr>)))))"

section \<open>Facts\<close>

text \<open>A row that says this session was refused.\<close>

definition session_refusal :: "session_ctx \<Rightarrow> audit_event \<Rightarrow> audit_row \<Rightarrow> bool" where
  "session_refusal sx ev r = (au_org r = sx_orgId sx \<and> au_userId r = Some (sx_userId sx) \<and>
     au_eventType r = ev \<and> au_result r = Denied)"

definition may_manage :: "session_ctx \<Rightarrow> string \<Rightarrow> db \<Rightarrow> bool" where
  "may_manage sx agentId d = (\<exists>m. member_row_of (sx_orgId sx) (sx_userId sx) d = Some m \<and>
     1 \<le> roleRank (mem_role m) \<and> (2 \<le> roleRank (mem_role m) \<or>
       (\<exists>ag. org_agent (sx_orgId sx) agentId d = Some ag \<and> ag_createdBy ag = Some (sx_userId sx))))"

lemma keeps_auditDeniedSession:
  "P (buildAuditRow (denied_entry f)) \<Longrightarrow> keeps (audits_where P) (auditDeniedSession f x)"
  by (simp add: auditDeniedSession_def keeps_audits session_log.keeps_log_where)

lemma auditDeniedSession_eq: "auditDeniedSession f x w = (Inl x, snd (logSessionAudit (denied_entry f) w))"
  by (simp add: auditDeniedSession_def session_log.log_then_fail)

lemma keeps_guarded:
  "keeps same_store m \<Longrightarrow> keeps (audits_where (session_refusal sx ev)) (guarded sx ev a i why m)"
  unfolding guarded_def by (rule keeps_forbidden_logged) (simp_all add: session_refusal_def)

lemma guarded_Inr: "guarded sx ev a i why m w = (Inr x, w') \<longleftrightarrow> m w = (Inr x, w')"
  by (simp add: guarded_def forbidden_logged_Inr)

lemma keeps_require_manage: "keeps (audits_where (session_refusal sx ev)) (require_manage sx ev a i)"
  unfolding require_manage_def
  by (intro keeps_audits keeps_guarded keeps_requireOrgRole keeps_requireAgentOwnership)

lemma require_manage_Inr:
  assumes "require_manage sx ev a i w = (Inr u, w')"
  shows "same_store w w' \<and> may_manage sx a (store w)"
proof -
  from assms obtain r w1 where
    r: "requireOrgRole (sx_orgId sx) (sx_userId sx) ''member'' w = (Inr r, w1)"
    and o1: "requireAgentOwnership a (sx_userId sx) (sx_orgId sx) r w1 = (Inr (), w')"
    by (auto simp: require_manage_def andThen_Inr guarded_Inr)
  from requireOrgRole_Inr [OF r] requireAgentOwnership_Inr [OF o1] show ?thesis
    by (auto simp: may_manage_def same_store_def env_kept_def)
qed

lemma keeps_deny_create:
  "keeps (audits_where (session_refusal sx Ev_permission_create)) (deny_create sx inp t why meta x)"
  unfolding deny_create_def
  by (rule keeps_auditDeniedSession) (simp add: session_refusal_def denied_entry_def denied_def)

lemma deny_create_fails: "deny_create sx inp t why meta x w = (Inr y, w') \<longleftrightarrow> False"
  by (simp add: deny_create_def auditDeniedSession_eq)

lemma keeps_require_no_overlap:
  "keeps (audits_where (session_refusal sx Ev_permission_create)) (require_no_overlap sx inp)"
  unfolding require_no_overlap_def Let_def
  by (auto intro!: keeps_audits keeps_deny_create simp: keeps_same_where)

lemma require_no_overlap_Inr:
  "require_no_overlap sx inp w = (Inr u, w') \<Longrightarrow> same_store w w'"
  by (auto simp: require_no_overlap_def Let_def andThen_Inr select_ok deny_create_fails succeed_def
      same_store_def env_kept_def split: if_splits)

lemma keeps_require_matrix:
  "keeps (audits_where (session_refusal sx Ev_permission_create)) (require_matrix sx inp ag item)"
  unfolding require_matrix_def Let_def
  by (auto intro!: keeps_deny_create split: option.split)

lemma require_matrix_Inr:
  "require_matrix sx inp ag item w = (Inr u, w') \<Longrightarrow> w' = w \<and>
     (\<forall>c \<in> set (cp_capabilities inp). isCapabilityAllowed c (ag_locality ag) (item_storageMode item))"
  by (auto simp: require_matrix_def Let_def deny_create_fails fail_with_def succeed_def
      localityViolations_def storageViolations_def filter_empty_conv isCapabilityAllowed_def
      split: option.splits if_splits)

lemma fresh_ids_ok: "fresh_ids n w = (r, w') \<Longrightarrow> (\<exists>ids. r = Inr ids \<and> length ids = n) \<and> same_store w w'"
proof (induction n arbitrary: w r w')
  case 0
  then show ?case by (simp add: succeed_def same_store_def)
next
  case (Suc n)
  obtain r1 w1 where f: "fresh_ids n (w\<lparr>draws := Suc (draws w)\<rparr>) = (r1, w1)" by fastforce
  from Suc.IH [OF f] Suc.prems f show ?case
    by (auto simp: andThen_def succeed_def same_store_def env_kept_def)
qed

lemma insert_audit_one:
  "insert_audit [r] w = (Inr u, w') \<longleftrightarrow> faults w (stmts w) = None \<and> w' = w\<lparr>stmts := Suc (stmts w),
     store := (store w)\<lparr>tbl_auditLogs := tbl_auditLogs (store w) @ [r]\<rparr>\<rparr>"
  by (auto simp: insert_audit_def insert_audits_def statement_ok)

lemma for_each_insert_audit:
  "for_each (\<lambda>r. insert_audit [f r]) rs w = (Inr u, w') \<Longrightarrow>
     store w' = (store w)\<lparr>tbl_auditLogs := tbl_auditLogs (store w) @ map f rs\<rparr>"
proof (induction rs arbitrary: w)
  case (Cons r rs)
  let ?w1 = "w\<lparr>stmts := Suc (stmts w),
     store := (store w)\<lparr>tbl_auditLogs := tbl_auditLogs (store w) @ [f r]\<rparr>\<rparr>"
  from Cons.prems have "for_each (\<lambda>r. insert_audit [f r]) rs ?w1 = (Inr u, w')"
    by (simp add: followed_by_def andThen_Inr insert_audit_one)
  from Cons.IH [OF this] show ?case by simp
qed (simp add: succeed_def)

lemma rethrow_Inr:
  "catch_all m (\<lambda>e. if e = c then fail_with x else fail_with e) w = (Inr y, w') \<longleftrightarrow> m w = (Inr y, w')"
  by (auto simp: catch_all_def fail_with_def split: prod.splits sum.splits if_splits)

definition grants_of :: "session_ctx \<Rightarrow> create_permission_input \<Rightarrow> permission_row list \<Rightarrow> bool" where
  "grants_of sx inp rows = (map perm_capability rows = cp_capabilities inp \<and>
     (\<forall>r \<in> set rows. perm_org r = sx_orgId sx \<and> perm_agentId r = cp_agentId inp \<and>
        perm_itemId r = target_itemId (cp_target inp) \<and>
        perm_profileId r = target_profileId (cp_target inp) \<and>
        perm_expiresAt r = Option.bind (cp_expiresAt inp) id \<and>
        perm_grantedBy r = Some (sx_userId sx)))"

lemma grants_of_new:
  assumes "length ids = length (cp_capabilities inp)"
  shows "grants_of sx inp (map (\<lambda>(i, c). new_permission sx inp now (Option.bind (cp_expiresAt inp) id) i c)
     (zip ids (cp_capabilities inp)))"
proof -
  have "map perm_capability (map (\<lambda>(i, c). new_permission sx inp now (Option.bind (cp_expiresAt inp) id) i c)
     (zip ids (cp_capabilities inp))) = map snd (zip ids (cp_capabilities inp))"
    by (simp add: new_permission_def split_beta)
  with assms show ?thesis by (auto simp: grants_of_def new_permission_def)
qed

lemma insert_grants_ok:
  assumes "insert_grants sx inp w = (Inr rows, w')"
  shows "grants_of sx inp rows \<and> batch_ok perm_clash (tbl_permissions (store w)) rows \<and>
    store w' = (store w)\<lparr>tbl_permissions := tbl_permissions (store w) @ rows,
      tbl_auditLogs := tbl_auditLogs (store w) @ map (grant_audit sx inp) rows\<rparr>"
proof -
  let ?row = "\<lambda>(i, c). new_permission sx inp (clock w (ticks w)) (Option.bind (cp_expiresAt inp) id) i c"
  from assms obtain ids w1 where
    f: "fresh_ids (length (cp_capabilities inp)) (w\<lparr>ticks := Suc (ticks w)\<rparr>) = (Inr ids, w1)"
    and rows: "rows = map ?row (zip ids (cp_capabilities inp))"
    and t: "transaction
            (if cp_expiresAt inp = Some None then fail_with (PlainErr ''RangeError'')
             else followed_by (statement (insert_permissions rows))
               (for_each (\<lambda>row. insert_audit [grant_audit sx inp row]) rows)) w1 = (Inr (), w')"
    unfolding insert_grants_def Let_def
    by (simp del: split_paired_Ex add: andThen_Inr followed_by_def rethrow_Inr succeed_def) blast
  from fresh_ids_ok [OF f] have len: "length ids = length (cp_capabilities inp)" and
    st: "store w1 = store w" by (auto simp: same_store_def)
  from t obtain w2 w3 where
    i: "statement (insert_permissions rows) w1 = (Inr (), w2)"
    and a: "for_each (\<lambda>row. insert_audit [grant_audit sx inp row]) rows w2 = (Inr (), w3)"
    and w': "store w' = store w3"
    by (auto simp: transaction_ok followed_by_def andThen_Inr fail_with_def split: if_splits)
  from i have "batch_ok perm_clash (tbl_permissions (store w)) rows \<and>
      store w2 = (store w)\<lparr>tbl_permissions := tbl_permissions (store w) @ rows\<rparr>"
    using st by (auto simp: statement_ok insert_permissions_def split: if_splits)
  with for_each_insert_audit [OF a] grants_of_new [OF len] rows w' show ?thesis by simp
qed

lemma keeps_env_for_each: "(\<And>r. keeps env_kept (f r)) \<Longrightarrow> keeps env_kept (for_each f rs)"
  by (rule keeps_for_each) simp_all

lemma keeps_error_insert_grants: "keeps_error same_store (insert_grants sx inp)"
proof -
  have ids: "keeps same_store (fresh_ids n)" for n
    by (auto intro!: keepsI) (metis fresh_ids_ok prod.collapse)
  have c: "keeps_error same_store (catch_all (transaction m) (\<lambda>e. if e = c then fail_with x else fail_with e))"
    if "keeps env_kept m" for m :: "unit server" and c x
    using keeps_error_transaction [OF that]
    by (auto simp: keeps_error_def catch_all_def fail_with_def split: prod.splits sum.splits if_splits)
  show ?thesis
    unfolding insert_grants_def Let_def insert_audit_def
    by (intro keeps_error_same keeps_error_last ids keeps_new_Date c)
      (auto intro!: keeps_env keeps_env_for_each)
qed

section \<open>What creating a grant guarantees\<close>

text \<open>The target of the grant belongs to the tenant; on an item every capability is one the matrix
  allows for the agent's locality and the item's storage mode.\<close>

definition target_ok :: "session_ctx \<Rightarrow> create_permission_input \<Rightarrow> db \<Rightarrow> bool" where
  "target_ok sx inp d = (\<exists>ag. org_agent (sx_orgId sx) (cp_agentId inp) d = Some ag \<and>
     (case cp_target inp of
        On_profile p \<Rightarrow> org_profile (sx_orgId sx) p d \<noteq> None
      | On_item i \<Rightarrow> (\<exists>item. org_item (sx_orgId sx) i d = Some item \<and>
          (\<forall>c \<in> set (cp_capabilities inp).
             isCapabilityAllowed c (ag_locality ag) (item_storageMode item)))))"

lemma createPermission_Inr:
  assumes "createPermission sx inp w = (Inr rows, w')"
  shows "may_manage sx (cp_agentId inp) (store w) \<and> target_ok sx inp (store w) \<and>
    grants_of sx inp rows \<and> batch_ok perm_clash (tbl_permissions (store w)) rows \<and>
    store w' = (store w)\<lparr>tbl_permissions := tbl_permissions (store w) @ rows,
      tbl_auditLogs := tbl_auditLogs (store w) @ map (grant_audit sx inp) rows\<rparr>"
proof -
  let ?w1 = "w\<lparr>stmts := Suc (stmts w)\<rparr>"
  from assms obtain ag w2 where
    ag: "org_agent (sx_orgId sx) (cp_agentId inp) (store w) = Some ag"
    and man: "require_manage sx Ev_permission_create (cp_agentId inp) None ?w1 = (Inr (), w2)"
    and rest: "(case cp_target inp of
              On_profile p \<Rightarrow> andThen (select (org_profile (sx_orgId sx) p)) (\<lambda>profile.
                if profile = None
                then deny_create sx inp (Some (On_profile p)) ''profile_not_found'' None
                       (notFound ''PROFILE_NOT_FOUND'')
                else followed_by (require_no_overlap sx inp) (insert_grants sx inp))
            | On_item i \<Rightarrow> andThen (select (org_item (sx_orgId sx) i)) (\<lambda>found_item.
                case found_item of
                  None \<Rightarrow> deny_create sx inp (Some (On_item i)) ''item_not_found'' None
                           (notFound ''ITEM_NOT_FOUND'')
                | Some item \<Rightarrow> followed_by (require_matrix sx inp ag item)
                    (followed_by (require_no_overlap sx inp) (insert_grants sx inp)))) w2 = (Inr rows, w')"
    unfolding createPermission_def
    by (auto simp: andThen_Inr [of "select _"] select_ok deny_create_fails followed_by_def
        andThen_Inr [of "require_manage _ _ _ _"] split: option.splits)
  from require_manage_Inr [OF man] have s2: "store w2 = store w"
    and mm: "may_manage sx (cp_agentId inp) (store w)" by (simp_all add: same_store_def)
  have "target_ok sx inp (store w) \<and> (\<exists>w4. store w4 = store w \<and> insert_grants sx inp w4 = (Inr rows, w'))"
  proof (cases "cp_target inp")
    case (On_profile p)
    with rest s2 ag show ?thesis
      by (auto simp: target_ok_def followed_by_def andThen_Inr select_ok deny_create_fails
          same_store_def split: if_splits dest!: require_no_overlap_Inr)
  next
    case (On_item i)
    with rest s2 ag show ?thesis
      by (auto simp: target_ok_def followed_by_def andThen_Inr select_ok deny_create_fails
          same_store_def split: option.splits dest!: require_no_overlap_Inr require_matrix_Inr)
  qed
  then obtain w4 where t: "target_ok sx inp (store w)" and s4: "store w4 = store w"
    and ins: "insert_grants sx inp w4 = (Inr rows, w')" by blast
  from insert_grants_ok [OF ins] mm t show ?thesis by (simp add: s4)
qed

lemma keeps_error_createPermission:
  "keeps_error (audits_where (session_refusal sx Ev_permission_create)) (createPermission sx inp)"
proof -
  let ?R = "audits_where (session_refusal sx Ev_permission_create)"
  have ins: "keeps_error ?R (insert_grants sx inp)"
    using keeps_error_insert_grants by (auto simp: keeps_error_def same_store_audits_where)
  have deny: "keeps_error ?R (deny_create sx inp t why meta x)" for t why meta x
    by (simp add: keeps_keeps_error keeps_deny_create)
  show ?thesis
    unfolding createPermission_def
    by (auto intro!: keeps_error_audits ins deny keeps_same_where [OF keeps_select] keeps_require_manage keeps_require_no_overlap
        keeps_require_matrix split: option.split grant_target.split)
qed

section \<open>The permission table\<close>

text \<open>No two rows clash on the primary key or on a unique index, and each has exactly one target.\<close>

definition permissions_wf :: "db \<Rightarrow> bool" where
  "permissions_wf d = (unique_by perm_clash (tbl_permissions d) \<and>
     list_all exactly_one_target (tbl_permissions d))"

lemma grants_of_one_target: "grants_of sx inp rows \<Longrightarrow> list_all exactly_one_target rows"
  by (cases "cp_target inp")
    (auto simp: grants_of_def list_all_iff exactly_one_target_def target_itemId_def target_profileId_def)

lemma unique_by_filter: "unique_by clash rows \<Longrightarrow> unique_by clash (filter P rows)"
proof (induction rows rule: rev_induct)
  case (snoc r rows)
  then show ?case by (auto simp: unique_by_snoc)
qed simp

lemma deny_revoke_eq: "\<exists>w'. deny_revoke sx a why x w = (Inl x, w') \<and>
    audits_where (session_refusal sx Ev_permission_revoke) w w'"
  unfolding deny_revoke_def auditDeniedSession_eq
  by (auto intro!: session_log.log_where simp: session_refusal_def denied_entry_def denied_def)

lemma deny_revoke_fails: "deny_revoke sx a why x w = (Inr y, w') \<longleftrightarrow> False"
  by (simp add: deny_revoke_def auditDeniedSession_eq)

lemma keeps_error_deny_revoke: "keeps_error only_audits (deny_revoke sx a why x)"
  unfolding deny_revoke_def
  by (rule keeps_keeps_error) (rule keeps_auditDeniedSession, rule TrueI)

lemma keeps_error_delete: "keeps_error only_audits (followed_by (modify u) (logSessionAudit e))"
  by (auto simp: keeps_error_def followed_by_def andThen_Inl modify_fails session_log.log_Inl
      same_store_audits_where same_store_def env_kept_def)

text \<open>A row that records an allowed revocation by this session.\<close>

definition revocation :: "session_ctx \<Rightarrow> permission_row \<Rightarrow> audit_row \<Rightarrow> bool" where
  "revocation sx p r = (au_org r = sx_orgId sx \<and> au_userId r = Some (sx_userId sx) \<and>
     au_eventType r = Ev_permission_revoke \<and> au_result r = Allowed \<and>
     au_agentId r = Some (perm_agentId p) \<and> au_itemId r = perm_itemId p)"

lemma revokePermission_Inr:
  assumes "revokePermission sx i w = (Inr u, w')"
  shows "\<exists>p w1. org_permission (sx_orgId sx) i (store w) = Some p \<and>
    may_manage sx (perm_agentId p) (store w) \<and> store w1 = delete_permission (sx_orgId sx) i (store w) \<and>
    audits_where (revocation sx p) w1 w'"
proof -
  from assms obtain p w2 where p: "org_permission (sx_orgId sx) i (store w) = Some p"
    and man: "require_manage sx Ev_permission_revoke (perm_agentId p) (perm_itemId p)
        (w\<lparr>stmts := Suc (Suc (stmts w))\<rparr>) = (Inr (), w2)"
    and del: "followed_by (modify (delete_permission (sx_orgId sx) i))
                (logSessionAudit ((entry (sx_orgId sx) (Some (sx_userId sx)) Ev_permission_revoke Allowed)
                   \<lparr>ae_agentId := Some (perm_agentId p), ae_itemId := perm_itemId p,
                    ae_ipAddress := sx_ip sx\<rparr>)) w2 = (Inr u, w')" (is "followed_by _ ?log w2 = _")
    unfolding revokePermission_def
    by (auto simp: andThen_Inr [of "select _"] select_ok deny_revoke_fails followed_by_def
        andThen_Inr [of "require_manage _ _ _ _"] split: option.splits if_splits)
  from require_manage_Inr [OF man] have s2: "store w2 = store w"
    and mm: "may_manage sx (perm_agentId p) (store w)" by (simp_all add: same_store_def)
  let ?w3 = "w2\<lparr>stmts := Suc (stmts w2), store := delete_permission (sx_orgId sx) i (store w2)\<rparr>"
  from del have l: "?log ?w3 = (Inr u, w')"
    by (auto simp: followed_by_def andThen_Inr modify_ok)
  have "keeps (audits_where (revocation sx p)) ?log"
    by (rule session_log.keeps_log_where) (simp add: revocation_def)
  from keepsD [OF this l] p mm s2 show ?thesis by (intro exI [of _ p] exI [of _ ?w3]) simp
qed

lemma revokePermission_table:
  assumes "revokePermission sx i w = (r, w')"
  shows "tbl_permissions (store w') = tbl_permissions (store w) \<or>
    tbl_permissions (store w') = tbl_permissions (delete_permission (sx_orgId sx) i (store w))"
proof (cases r)
  case (Inr u)
  with revokePermission_Inr assms obtain p w1 where
    "store w1 = delete_permission (sx_orgId sx) i (store w)" "audits_where (revocation sx p) w1 w'" by blast
  then show ?thesis using audits_where_frame(5) by metis
next
  case (Inl e)
  have "keeps_error only_audits (revokePermission sx i)"
    unfolding revokePermission_def
    by (auto intro!: keeps_error_audits keeps_same_where [OF keeps_select] keeps_error_deny_revoke
        keeps_error_delete keeps_where_mono [OF keeps_require_manage] split: option.split)
  from keeps_errorD [OF this] assms Inl show ?thesis using audits_where_frame(5) by blast
qed

section \<open>Properties\<close>

text \<open>C34: a grant that is created was requested by a member of the organisation who is an owner, an
  admin or the creator of the agent; agent and target belong to the organisation; an item-level grant
  holds only capabilities the matrix allows. One row per requested capability and one audit row per
  new row are appended, no other table changes, and no new row clashes with a stored one.\<close>

theorem createPermission_grants:
  assumes "createPermission sx inp w = (Inr rows, w')"
  shows "may_manage sx (cp_agentId inp) (store w) \<and> target_ok sx inp (store w) \<and>
    grants_of sx inp rows \<and> batch_ok perm_clash (tbl_permissions (store w)) rows \<and>
    store w' = (store w)\<lparr>tbl_permissions := tbl_permissions (store w) @ rows,
      tbl_auditLogs := tbl_auditLogs (store w) @ map (grant_audit sx inp) rows\<rparr>"
  by (rule createPermission_Inr [OF assms])

definition sample_session :: session_ctx where
  "sample_session = \<lparr>sx_orgId = ''o1'', sx_userId = ''u1'', sx_ip = None\<rparr>"

definition sample_member :: member_row where
  "sample_member = \<lparr>mem_id = ''m1'', mem_org = ''o1'', mem_userId = ''u1'', mem_role = ''member'',
     mem_createdAt = 0\<rparr>"

definition sample_team :: db where
  "sample_team = sample_db\<lparr>tbl_members := [sample_member]\<rparr>"

definition sample_grant_input :: create_permission_input where
  "sample_grant_input = \<lparr>cp_agentId = ''a1'', cp_target = On_item ''i1'', cp_capabilities = [Mount_env],
     cp_expiresAt = None\<rparr>"

lemmas sample_team_rows = sample_rows sample_session_def sample_member_def sample_team_def

lemma sample_create: "\<exists>rows. fst (createPermission sample_session sample_grant_input
    (sample_world sample_team)) = Inr rows"
  by (simp add: createPermission_def sample_grant_input_def eff_defs select_def statement_def
      org_agent_def org_item_def findFirst_def orgScope_def require_manage_def guarded_def forbidden_logged_def
      requireOrgRole_def requireAgentOwnership_def member_row_of_def sample_team_rows require_matrix_def
      CANONICAL_CAPABILITIES_def localityViolations_def storageViolations_def require_no_overlap_def
      overlapping_def findMany_def insert_grants_def transaction_def insert_permissions_def
      exactly_one_target_def new_permission_def target_itemId_def target_profileId_def perm_clash_def
      insert_audit_def insert_audits_def Let_def)

lemma createPermission_grants_witness:
  "\<exists>rows. grants_of sample_session sample_grant_input rows \<and>
     tbl_permissions (store (snd (createPermission sample_session sample_grant_input
       (sample_world sample_team)))) = [sample_read_grant, sample_use_grant] @ rows"
proof -
  from sample_create obtain rows where "fst (createPermission sample_session sample_grant_input
    (sample_world sample_team)) = Inr rows" by blast
  from createPermission_grants [OF outcome [OF this]] show ?thesis
    by (auto simp: sample_team_rows)
qed

text \<open>On refusal: a request to create a grant that fails creates none: the only rows a refusal adds
  are denials that name the tenant and the caller, also when an insert fails half way.\<close>

theorem createPermission_refusal:
  assumes "createPermission sx inp w = (Inl e, w')"
  shows "audits_where (session_refusal sx Ev_permission_create) w w'"
  by (rule keeps_errorD [OF keeps_error_createPermission assms])

lemma createPermission_refusal_witness:
  "audits_where (session_refusal sample_session Ev_permission_create) (sample_world sample_db)
     (snd (createPermission sample_session sample_grant_input (sample_world sample_db)))"
proof -
  have "\<exists>e. fst (createPermission sample_session sample_grant_input (sample_world sample_db)) = Inl e"
    by (simp add: createPermission_def sample_grant_input_def eff_defs select_def statement_def
      org_agent_def findFirst_def orgScope_def require_manage_def guarded_def forbidden_logged_def
      requireOrgRole_def member_row_of_def sample_rows sample_session_def session_log.tap_fail)
  then obtain e where "fst (createPermission sample_session sample_grant_input
    (sample_world sample_db)) = Inl e" by blast
  from createPermission_refusal [OF outcome [OF this]] show ?thesis .
qed

text \<open>A revocation that succeeds was asked for by someone who may manage the agent of the grant; it
  removes the grant with that id of that tenant and no other row, and changes nothing else but the
  audit trail.\<close>

theorem revokePermission_removes:
  assumes "revokePermission sx i w = (Inr u, w')"
  shows "\<exists>p as. org_permission (sx_orgId sx) i (store w) = Some p \<and>
    may_manage sx (perm_agentId p) (store w) \<and> p \<notin> set (tbl_permissions (store w')) \<and>
    (\<forall>q. perm_id q \<noteq> i \<or> perm_org q \<noteq> sx_orgId sx \<longrightarrow>
      (q \<in> set (tbl_permissions (store w')) \<longleftrightarrow> q \<in> set (tbl_permissions (store w)))) \<and>
    list_all (revocation sx p) as \<and>
    store w' = (delete_permission (sx_orgId sx) i (store w))
      \<lparr>tbl_auditLogs := tbl_auditLogs (store w) @ as\<rparr>"
proof -
  from revokePermission_Inr [OF assms] obtain p w1 where
    p: "org_permission (sx_orgId sx) i (store w) = Some p" "may_manage sx (perm_agentId p) (store w)"
    and w1: "store w1 = delete_permission (sx_orgId sx) i (store w)"
    and a: "audits_where (revocation sx p) w1 w'" by blast
  from a obtain as where "list_all (revocation sx p) as"
    "store w' = (store w1)\<lparr>tbl_auditLogs := tbl_auditLogs (store w1) @ as\<rparr>" by (rule audits_whereE)
  with p w1 show ?thesis
    by (intro exI [of _ p] exI [of _ as])
      (auto simp: delete_permission_def orgScope_def org_permission_def dest: findFirst_SomeD)
qed

lemma sample_revoke: "fst (revokePermission sample_session ''g1'' (sample_world sample_team)) = Inr ()"
  by (simp add: revokePermission_def eff_defs select_def modify_def statement_def org_permission_def
      org_agent_def findFirst_def orgScope_def require_manage_def guarded_def forbidden_logged_def requireOrgRole_def
      requireAgentOwnership_def member_row_of_def sample_team_rows session_log.never_fails)

lemma revokePermission_removes_witness:
  "sample_read_grant \<notin> set (tbl_permissions (store
     (snd (revokePermission sample_session ''g1'' (sample_world sample_team)))))"
  using revokePermission_removes [OF outcome [OF sample_revoke]]
  by (auto simp: org_permission_def findFirst_def orgScope_def sample_team_rows)

text \<open>Creating and revoking keep the permission table well formed: keys and the two unique
  indexes hold, and every row targets exactly one of an item and a profile, whatever fails on the way.\<close>

theorem permissions_wf_preserved:
  assumes "permissions_wf (store w)"
    and "createPermission sx inp w = (r, w1) \<or> revokePermission sx i w = (r', w1)"
  shows "permissions_wf (store w1)"
  using assms(2)
proof
  assume c: "createPermission sx inp w = (r, w1)"
  show ?thesis
  proof (cases r)
    case (Inl e)
    with c keeps_errorD [OF keeps_error_createPermission] assms(1) show ?thesis
      by (metis audits_where_frame(5) permissions_wf_def)
  next
    case (Inr rows)
    with createPermission_Inr c assms(1) show ?thesis
      by (fastforce simp: permissions_wf_def unique_by_append grants_of_one_target)
  qed
next
  assume c: "revokePermission sx i w = (r', w1)"
  from revokePermission_table [OF c] assms(1) show ?thesis
    by (auto simp: permissions_wf_def unique_by_filter list_all_iff delete_permission_def)
qed

lemma permissions_wf_preserved_witness:
  "permissions_wf (store (snd (revokePermission sample_session ''g1'' (sample_world sample_team))))"
  by (rule permissions_wf_preserved [OF _ disjI2 [OF outcome [OF sample_revoke]]])
    (use unique_by_snoc [of perm_clash "[sample_read_grant]" sample_use_grant]
       unique_by_snoc [of perm_clash "[]" sample_read_grant]
     in \<open>simp add: permissions_wf_def sample_team_rows exactly_one_target_def perm_clash_def\<close>)

end
