(* ===== verification/Cascades.thy ===== *)
theory Cascades
  imports Permissions
begin

text \<open>
  Side effects of a revocation, a deletion and a member removal
  (\<open>packages/trpc/src/server/cascades.ts\<close>, \<open>packages/db/src/cascades.ts\<close>) and the two
  handlers that call them for agents (\<open>routers/agents.ts\<close>, \<open>revokeAgent\<close>) and items
  (\<open>routers/items.ts\<close>, \<open>loadOwnedItem\<close> and \<open>deleteItem\<close>). Every cascade runs
  inside the transaction of its caller.
\<close>

section \<open>Rows\<close>

definition cascade_row :: "string \<Rightarrow> string \<Rightarrow> string option \<Rightarrow> audit_event \<Rightarrow> json_object \<Rightarrow> audit_row" where
  "cascade_row orgId actor ip ev meta =
     \<lparr>au_org = orgId, au_userId = Some actor, au_agentId = None, au_itemId = None, au_profileId = None,
      au_surface = None, au_eventType = ev, au_result = Cascade, au_deliveryMode = None,
      au_field = None, au_purpose = None, au_meta = meta, au_ipAddress = ip\<rparr>"

definition json_opt :: "string option \<Rightarrow> json" where
  "json_opt x = (case x of None \<Rightarrow> JNull | Some s \<Rightarrow> JStr s)"

text \<open>A row of the primary event, written inside the transaction.\<close>

definition primary_row :: "session_ctx \<Rightarrow> string \<Rightarrow> audit_event \<Rightarrow> json_object \<Rightarrow> audit_row" where
  "primary_row sx orgId ev meta =
     (cascade_row orgId (sx_userId sx) (sx_ip sx) ev meta)
       \<lparr>au_surface := Some ''api'', au_result := Allowed\<rparr>"

section \<open>Revoking an agent\<close>

definition active_session :: "int \<Rightarrow> (string \<Rightarrow> bool) \<Rightarrow> agent_session_row \<Rightarrow> bool" where
  "active_session now of_agent s =
     (of_agent (ses_agentId s) \<and> ses_revokedAt s = None \<and> ses_expiresAt s > now)"

definition revoke_sessions :: "int \<Rightarrow> (agent_session_row \<Rightarrow> bool) \<Rightarrow> db \<Rightarrow> db" where
  "revoke_sessions now chosen d = d\<lparr>tbl_agentSessions :=
     map (\<lambda>s. if chosen s then s\<lparr>ses_revokedAt := Some now\<rparr> else s) (tbl_agentSessions d)\<rparr>"

definition session_cascade :: "string \<Rightarrow> string \<Rightarrow> string \<Rightarrow> string option \<Rightarrow> agent_session_row \<Rightarrow> audit_row" where
  "session_cascade agentId orgId actor ip s =
     (cascade_row orgId actor ip Ev_agent_revoke_cascade
        [(''sessionId'', JStr (ses_id s)), (''revokedSessionUserId'', json_opt (ses_userId s))])
       \<lparr>au_agentId := Some agentId\<rparr>"

definition grant_cascade :: "string \<Rightarrow> string \<Rightarrow> string \<Rightarrow> string option \<Rightarrow> permission_row \<Rightarrow> audit_row" where
  "grant_cascade agentId orgId actor ip p =
     (cascade_row orgId actor ip Ev_permission_revoke_cascade
        [(''reason'', JStr ''agent_revoked''), (''permissionId'', JStr (perm_id p)),
         (''capability'', JStr (cap_name (perm_capability p))),
         (''target'', JStr (if truthy (perm_itemId p) then ''item'' else ''profile''))])
       \<lparr>au_agentId := Some agentId, au_itemId := perm_itemId p, au_profileId := perm_profileId p\<rparr>"

definition insert_some :: "audit_row list \<Rightarrow> unit server" where
  "insert_some rows = (if rows \<noteq> [] then insert_audit rows else succeed ())"

definition agent_grants :: "string \<Rightarrow> db \<Rightarrow> permission_row list" where
  "agent_grants agentId d = filter (\<lambda>p. perm_agentId p = agentId) (tbl_permissions d)"

definition onAgentRevoked :: "string \<Rightarrow> string \<Rightarrow> string \<Rightarrow> string option \<Rightarrow> unit server" where
  "onAgentRevoked agentId orgId revokedBy ip =
     andThen new_Date (\<lambda>now.
     let chosen = active_session now (\<lambda>a. a = agentId) in
     andThen (statement (\<lambda>d. Inr (filter chosen (tbl_agentSessions d), revoke_sessions now chosen d)))
       (\<lambda>revoked.
     followed_by (insert_some (map (session_cascade agentId orgId revokedBy ip) revoked))
     (andThen (select (agent_grants agentId)) (\<lambda>grants.
       insert_some (map (grant_cascade agentId orgId revokedBy ip) grants)))))"

definition disable_agents :: "int \<Rightarrow> (agent_row \<Rightarrow> bool) \<Rightarrow> db \<Rightarrow> db" where
  "disable_agents now chosen d = d\<lparr>tbl_agents :=
     map (\<lambda>a. if chosen a then a\<lparr>ag_enabled := False, ag_revokedAt := Some now\<rparr> else a) (tbl_agents d)\<rparr>"

definition revokeAgent :: "session_ctx \<Rightarrow> string \<Rightarrow> unit server" where
  "revokeAgent sx agentId =
     andThen (select (org_agent (sx_orgId sx) agentId)) (\<lambda>agent.
       if agent = None then
         auditDeniedSession ((denied (sx_orgId sx) (Some (sx_userId sx)) Ev_agent_revoke ''not_found'')
           \<lparr>df_agentId := Some agentId, df_ipAddress := sx_ip sx\<rparr>) (notFound ''AGENT_NOT_FOUND'')
       else followed_by (require_manage sx Ev_agent_revoke agentId None)
         (andThen new_Date (\<lambda>now.
            transaction
              (followed_by (modify (disable_agents now
                  (\<lambda>a. ag_id a = agentId \<and> orgScope ag_org (sx_orgId sx) a)))
              (followed_by (insert_audit [(primary_row sx (sx_orgId sx) Ev_agent_revoke [])
                  \<lparr>au_agentId := Some agentId\<rparr>])
                (onAgentRevoked agentId (sx_orgId sx) (sx_userId sx) (sx_ip sx)))))))"

section \<open>Deleting an item\<close>

definition onItemDeleted :: "string \<Rightarrow> string \<Rightarrow> string \<Rightarrow> string option \<Rightarrow> unit server" where
  "onItemDeleted itemId orgId deletedBy ip =
     followed_by (modify (\<lambda>d. d\<lparr>tbl_permissions :=
        filter (\<lambda>p. perm_itemId p \<noteq> Some itemId) (tbl_permissions d)\<rparr>))
       (insert_audit [(cascade_row orgId deletedBy ip Ev_item_delete_cascade [])
          \<lparr>au_itemId := Some itemId\<rparr>])"

definition loadOwnedItem :: "session_ctx \<Rightarrow> string \<Rightarrow> audit_event \<Rightarrow> item_row server" where
  "loadOwnedItem sx itemId ev =
     andThen (select (\<lambda>d. findFirst item_org (sx_orgId sx)
        (\<lambda>i. item_id i = itemId \<and> item_deletedAt i = None) (tbl_items d))) (\<lambda>found.
       case found of
         None \<Rightarrow> auditDeniedSession ((denied (sx_orgId sx) (Some (sx_userId sx)) ev ''not_found'')
             \<lparr>df_itemId := Some itemId, df_ipAddress := sx_ip sx\<rparr>) (notFound ''ITEM_NOT_FOUND'')
       | Some item \<Rightarrow> succeed item)"

definition mark_deleted :: "int \<Rightarrow> string \<Rightarrow> string \<Rightarrow> db \<Rightarrow> db" where
  "mark_deleted now orgId itemId d = d\<lparr>tbl_items :=
     map (\<lambda>i. if item_id i = itemId \<and> orgScope item_org orgId i
              then i\<lparr>item_deletedAt := Some now\<rparr> else i) (tbl_items d)\<rparr>"

definition deleteItem :: "session_ctx \<Rightarrow> string \<Rightarrow> unit server" where
  "deleteItem sx itemId =
     followed_by (loadOwnedItem sx itemId Ev_item_delete)
     (andThen new_Date (\<lambda>now.
        transaction
          (followed_by (modify (mark_deleted now (sx_orgId sx) itemId))
          (followed_by (insert_audit [(primary_row sx (sx_orgId sx) Ev_item_delete [])
              \<lparr>au_itemId := Some itemId\<rparr>])
            (onItemDeleted itemId (sx_orgId sx) (sx_userId sx) (sx_ip sx))))))"

section \<open>Removing a member\<close>

definition member_cascade :: "string \<Rightarrow> string \<Rightarrow> string \<Rightarrow> string option \<Rightarrow> agent_row \<Rightarrow> audit_row" where
  "member_cascade orgId removedUserId actor ip a =
     (cascade_row orgId actor ip Ev_agent_revoke_cascade
        [(''removedUserId'', JStr removedUserId), (''trigger'', JStr ''member_remove'')])
       \<lparr>au_agentId := Some (ag_id a)\<rparr>"

definition removed_grant_cascade :: "string \<Rightarrow> string \<Rightarrow> string \<Rightarrow> string option \<Rightarrow> permission_row \<Rightarrow> audit_row" where
  "removed_grant_cascade orgId removedUserId actor ip p =
     (cascade_row orgId actor ip Ev_permission_revoke_cascade
        [(''permissionId'', JStr (perm_id p)), (''capability'', JStr (cap_name (perm_capability p))),
         (''trigger'', JStr ''member_remove''), (''removedUserId'', JStr removedUserId)])
       \<lparr>au_agentId := Some (perm_agentId p), au_itemId := perm_itemId p\<rparr>"

definition member_agents :: "string \<Rightarrow> string \<Rightarrow> db \<Rightarrow> agent_row list" where
  "member_agents orgId userId d =
     filter (\<lambda>a. ag_org a = orgId \<and> ag_createdBy a = Some userId \<and> ag_enabled a) (tbl_agents d)"

definition member_grants :: "string \<Rightarrow> string \<Rightarrow> db \<Rightarrow> permission_row list" where
  "member_grants orgId userId d =
     filter (\<lambda>p. perm_org p = orgId \<and> perm_grantedBy p = Some userId) (tbl_permissions d)"

definition revoke_member_agents ::
  "int \<Rightarrow> string \<Rightarrow> string \<Rightarrow> string \<Rightarrow> string option \<Rightarrow> agent_row list \<Rightarrow> unit server" where
  "revoke_member_agents now orgId removedUserId removedBy ip memberAgents =
     (if memberAgents = [] then succeed ()
      else let agentIds = map ag_id memberAgents in
        followed_by (modify (disable_agents now (\<lambda>a. ag_id a \<in> set agentIds)))
        (andThen (select (\<lambda>d. filter (active_session now (\<lambda>a. a \<in> set agentIds)) (tbl_agentSessions d)))
          (\<lambda>activeSessions.
        followed_by (if activeSessions \<noteq> []
            then modify (revoke_sessions now (\<lambda>s. ses_id s \<in> set (map ses_id activeSessions)))
            else succeed ())
          (insert_audit (map (member_cascade orgId removedUserId removedBy ip) memberAgents)))))"

definition delete_member_grants ::
  "string \<Rightarrow> string \<Rightarrow> string \<Rightarrow> string option \<Rightarrow> permission_row list \<Rightarrow> unit server" where
  "delete_member_grants orgId removedUserId removedBy ip removedGrants =
     (if removedGrants = [] then succeed ()
      else followed_by (modify (\<lambda>d. d\<lparr>tbl_permissions :=
             filter (\<lambda>p. perm_id p \<notin> set (map perm_id removedGrants)) (tbl_permissions d)\<rparr>))
        (insert_audit (map (removed_grant_cascade orgId removedUserId removedBy ip) removedGrants)))"

definition onMemberRemoved :: "string \<Rightarrow> string \<Rightarrow> string \<Rightarrow> string option \<Rightarrow> unit server" where
  "onMemberRemoved orgId removedUserId removedBy ip =
     andThen new_Date (\<lambda>now.
     andThen (select (member_agents orgId removedUserId)) (\<lambda>memberAgents.
     followed_by (revoke_member_agents now orgId removedUserId removedBy ip memberAgents)
     (andThen (select (member_grants orgId removedUserId)) (\<lambda>removedGrants.
       delete_member_grants orgId removedUserId removedBy ip removedGrants))))"

section \<open>Effects on the store\<close>

lemma insert_audit_Inr:
  "insert_audit rs w = (Inr u, w') \<longleftrightarrow> faults w (stmts w) = None \<and> w' = w\<lparr>stmts := Suc (stmts w),
     store := (store w)\<lparr>tbl_auditLogs := tbl_auditLogs (store w) @ rs\<rparr>\<rparr>"
  by (auto simp: insert_audit_def insert_audits_def statement_ok)

lemma insert_some_Inr:
  "insert_some rs w = (Inr u, w') \<Longrightarrow> env_kept w w' \<and> ticks w' = ticks w \<and>
     store w' = (store w)\<lparr>tbl_auditLogs := tbl_auditLogs (store w) @ rs\<rparr>"
  by (auto simp: insert_some_def insert_audit_Inr succeed_def env_kept_def split: if_splits)

lemmas step_Inr = andThen_Inr followed_by_def select_ok modify_ok statement_ok insert_audit_Inr

text \<open>The rows an agent's revocation adds.\<close>

definition revoke_rows :: "string \<Rightarrow> string \<Rightarrow> string \<Rightarrow> string option \<Rightarrow> int \<Rightarrow> db \<Rightarrow> audit_row list" where
  "revoke_rows agentId orgId actor ip now d =
     map (session_cascade agentId orgId actor ip)
       (filter (active_session now (\<lambda>a. a = agentId)) (tbl_agentSessions d)) @
     map (grant_cascade agentId orgId actor ip) (agent_grants agentId d)"

lemma onAgentRevoked_Inr:
  assumes "onAgentRevoked a t actor ip w = (Inr u, w')"
  defines "now \<equiv> clock w (ticks w)"
  shows "store w' = (revoke_sessions now (active_session now (\<lambda>b. b = a)) (store w))
    \<lparr>tbl_auditLogs := tbl_auditLogs (store w) @ revoke_rows a t actor ip now (store w)\<rparr>"
proof -
  let ?d = "revoke_sessions now (active_session now (\<lambda>b. b = a)) (store w)"
  let ?w1 = "w\<lparr>ticks := Suc (ticks w), stmts := Suc (stmts w), store := ?d\<rparr>"
  from assms obtain w2 where
    s1: "insert_some (map (session_cascade a t actor ip)
        (filter (active_session now (\<lambda>b. b = a)) (tbl_agentSessions (store w)))) ?w1 = (Inr (), w2)"
    and s2: "insert_some (map (grant_cascade a t actor ip) (agent_grants a (store w2)))
        (w2\<lparr>stmts := Suc (stmts w2)\<rparr>) = (Inr (), w')"
    by (auto simp: onAgentRevoked_def Let_def step_Inr)
  from insert_some_Inr [OF s1] insert_some_Inr [OF s2] show ?thesis
    by (simp add: revoke_rows_def revoke_sessions_def agent_grants_def)
qed

lemma auditDeniedSession_fails: "auditDeniedSession f x w = (Inr y, w') \<longleftrightarrow> False"
  by (simp add: auditDeniedSession_eq)

lemma revokeAgent_Inr:
  assumes "revokeAgent sx a w = (Inr u, w')"
  shows "\<exists>now now'. may_manage sx a (store w) \<and> org_agent (sx_orgId sx) a (store w) \<noteq> None \<and>
    now \<in> range (clock w) \<and> now' \<in> range (clock w) \<and>
    store w' = (revoke_sessions now' (active_session now' (\<lambda>b. b = a))
        (disable_agents now (\<lambda>b. ag_id b = a \<and> ag_org b = sx_orgId sx) (store w)))
      \<lparr>tbl_auditLogs := tbl_auditLogs (store w) @
         (primary_row sx (sx_orgId sx) Ev_agent_revoke [])\<lparr>au_agentId := Some a\<rparr> #
         revoke_rows a (sx_orgId sx) (sx_userId sx) (sx_ip sx) now' (store w)\<rparr>"
proof -
  let ?row = "(primary_row sx (sx_orgId sx) Ev_agent_revoke [])\<lparr>au_agentId := Some a\<rparr>"
  let ?mine = "\<lambda>b. ag_id b = a \<and> orgScope ag_org (sx_orgId sx) b"
  from assms obtain w1 w3 where found: "org_agent (sx_orgId sx) a (store w) \<noteq> None"
    and man: "require_manage sx Ev_agent_revoke a None (w\<lparr>stmts := Suc (stmts w)\<rparr>) = (Inr (), w1)"
    and t: "transaction
              (followed_by (modify (disable_agents (clock w1 (ticks w1)) ?mine))
              (followed_by (insert_audit [?row])
                (onAgentRevoked a (sx_orgId sx) (sx_userId sx) (sx_ip sx))))
              (w1\<lparr>ticks := Suc (ticks w1)\<rparr>) = (Inr (), w')"
    by (auto simp: revokeAgent_def step_Inr auditDeniedSession_fails split: if_splits)
  from require_manage_Inr [OF man] have k: "same_store w w1" and mm: "may_manage sx a (store w)"
    by (auto simp: same_store_def env_kept_def)
  let ?now = "clock w1 (ticks w1)"
  let ?d = "disable_agents ?now ?mine (store w)"
  let ?w2 = "w1\<lparr>ticks := Suc (ticks w1), stmts := Suc (Suc (stmts w1)),
      store := ?d\<lparr>tbl_auditLogs := tbl_auditLogs ?d @ [?row]\<rparr>\<rparr>"
  from t k obtain w4 where o4: "onAgentRevoked a (sx_orgId sx) (sx_userId sx) (sx_ip sx) ?w2 = (Inr (), w4)"
    and w': "store w' = store w4"
    by (auto simp: transaction_ok step_Inr same_store_def)
  from onAgentRevoked_Inr [OF o4] w' k found mm show ?thesis
    by (intro exI [of _ ?now] exI [of _ "clock w (Suc (ticks w1))"])
      (simp add: revoke_rows_def agent_grants_def disable_agents_def revoke_sessions_def orgScope_def
        same_store_def env_kept_def)
qed

lemma loadOwnedItem_Inr:
  "loadOwnedItem sx i ev w = (Inr item, w') \<Longrightarrow> w' = w\<lparr>stmts := Suc (stmts w)\<rparr> \<and>
     item \<in> set (tbl_items (store w)) \<and> item_id item = i \<and> item_org item = sx_orgId sx \<and>
     item_deletedAt item = None"
  by (auto simp: loadOwnedItem_def step_Inr auditDeniedSession_fails succeed_def
      split: option.splits dest: findFirst_SomeD)

lemma deleteItem_Inr:
  assumes "deleteItem sx i w = (Inr u, w')"
  shows "\<exists>now. (\<exists>item \<in> set (tbl_items (store w)). item_id item = i \<and> item_org item = sx_orgId sx \<and>
      item_deletedAt item = None) \<and>
    store w' = (mark_deleted now (sx_orgId sx) i (store w))
      \<lparr>tbl_permissions := filter (\<lambda>p. perm_itemId p \<noteq> Some i) (tbl_permissions (store w)),
       tbl_auditLogs := tbl_auditLogs (store w) @
         [(primary_row sx (sx_orgId sx) Ev_item_delete [])\<lparr>au_itemId := Some i\<rparr>,
          (cascade_row (sx_orgId sx) (sx_userId sx) (sx_ip sx) Ev_item_delete_cascade [])
            \<lparr>au_itemId := Some i\<rparr>]\<rparr>"
proof -
  from assms obtain item w1 where l: "loadOwnedItem sx i Ev_item_delete w = (Inr item, w1)"
    and t: "transaction
          (followed_by (modify (mark_deleted (clock w1 (ticks w1)) (sx_orgId sx) i))
          (followed_by (insert_audit [(primary_row sx (sx_orgId sx) Ev_item_delete [])
              \<lparr>au_itemId := Some i\<rparr>])
            (onItemDeleted i (sx_orgId sx) (sx_userId sx) (sx_ip sx))))
          (w1\<lparr>ticks := Suc (ticks w1)\<rparr>) = (Inr (), w')"
    by (auto simp: deleteItem_def andThen_Inr followed_by_def)
  from loadOwnedItem_Inr [OF l] t show ?thesis
    by (intro exI [of _ "clock w1 (ticks w1)"])
      (auto simp: transaction_ok step_Inr onItemDeleted_def mark_deleted_def)
qed

text \<open>What a member's removal leaves of the store, as one function of the store before.\<close>

definition revoked_of_member :: "int \<Rightarrow> string \<Rightarrow> string \<Rightarrow> db \<Rightarrow> db" where
  "revoked_of_member now orgId userId d =
     (let ids = set (map ag_id (member_agents orgId userId d));
          live = filter (active_session now (\<lambda>a. a \<in> ids)) (tbl_agentSessions d)
      in revoke_sessions now (\<lambda>s. ses_id s \<in> set (map ses_id live))
           (disable_agents now (\<lambda>a. ag_id a \<in> ids) d))"

lemma disable_none: "disable_agents now (\<lambda>_. False) d = d"
  by (simp add: disable_agents_def)

lemma revoke_none: "revoke_sessions now (\<lambda>_. False) d = d"
  by (simp add: revoke_sessions_def)

lemma revoked_of_member_frame [simp]:
  "tbl_permissions (revoked_of_member now t u d) = tbl_permissions d"
  "tbl_auditLogs (revoked_of_member now t u d) = tbl_auditLogs d"
  "tbl_members (revoked_of_member now t u d) = tbl_members d"
  "tbl_items (revoked_of_member now t u d) = tbl_items d"
  by (simp_all add: revoked_of_member_def Let_def revoke_sessions_def disable_agents_def)

lemma revoke_member_agents_Inr:
  assumes "revoke_member_agents now t u actor ip (member_agents t u (store w)) w = (Inr x, w')"
  shows "env_kept w w' \<and> store w' = (revoked_of_member now t u (store w))
    \<lparr>tbl_auditLogs := tbl_auditLogs (store w) @
       map (member_cascade t u actor ip) (member_agents t u (store w))\<rparr>"
proof (cases "member_agents t u (store w) = []")
  case True
  with assms show ?thesis
    by (simp add: revoke_member_agents_def succeed_def revoked_of_member_def active_session_def
        disable_none revoke_none)
next
  case False
  let ?ids = "set (map ag_id (member_agents t u (store w)))"
  let ?live = "filter (active_session now (\<lambda>a. a \<in> ?ids)) (tbl_agentSessions (store w))"
  show ?thesis
  proof (cases "?live = []")
    case True
    then have "revoked_of_member now t u (store w) = disable_agents now (\<lambda>a. ag_id a \<in> ?ids) (store w)"
      unfolding revoked_of_member_def Let_def by (simp only: revoke_none list.map set_simps empty_iff)
    with False assms True show ?thesis
      by (auto simp: revoke_member_agents_def Let_def step_Inr succeed_def env_kept_def disable_agents_def)
  next
    case live: False
    with False assms show ?thesis
      by (auto simp: revoke_member_agents_def Let_def step_Inr revoked_of_member_def env_kept_def
        disable_agents_def revoke_sessions_def split: if_splits)
  qed
qed

lemma delete_member_grants_Inr:
  assumes "delete_member_grants t u actor ip gs w = (Inr x, w')"
  shows "store w' = (store w)
    \<lparr>tbl_permissions := filter (\<lambda>p. perm_id p \<notin> perm_id ` set gs) (tbl_permissions (store w)),
     tbl_auditLogs := tbl_auditLogs (store w) @ map (removed_grant_cascade t u actor ip) gs\<rparr>"
  using assms by (auto simp: delete_member_grants_def step_Inr succeed_def split: if_splits)

lemma onMemberRemoved_Inr:
  assumes "onMemberRemoved t u actor ip w = (Inr x, w')"
  defines "gs \<equiv> member_grants t u (store w)"
  shows "store w' = (revoked_of_member (clock w (ticks w)) t u (store w))
    \<lparr>tbl_permissions := filter (\<lambda>p. perm_id p \<notin> perm_id ` set gs) (tbl_permissions (store w)),
     tbl_auditLogs := tbl_auditLogs (store w) @
       map (member_cascade t u actor ip) (member_agents t u (store w)) @
       map (removed_grant_cascade t u actor ip) gs\<rparr>"
proof -
  let ?w1 = "w\<lparr>ticks := Suc (ticks w), stmts := Suc (stmts w)\<rparr>"
  from assms obtain w2 where
    r: "revoke_member_agents (clock w (ticks w)) t u actor ip (member_agents t u (store ?w1)) ?w1 = (Inr (), w2)"
    and g: "delete_member_grants t u actor ip (member_grants t u (store w2))
        (w2\<lparr>stmts := Suc (stmts w2)\<rparr>) = (Inr x, w')"
    by (auto simp: onMemberRemoved_def step_Inr)
  from revoke_member_agents_Inr [OF r] delete_member_grants_Inr [OF g] show ?thesis
    by (simp add: gs_def member_grants_def)
qed

text \<open>Consequences: the agents are off, their live sessions are revoked, the grants are gone.\<close>

lemma revoked_of_member_agents:
  "a \<in> set (tbl_agents (revoked_of_member now t u d)) \<Longrightarrow> ag_org a = t \<Longrightarrow> ag_createdBy a = Some u \<Longrightarrow>
     \<not> ag_enabled a"
  by (auto simp: revoked_of_member_def Let_def disable_agents_def revoke_sessions_def member_agents_def
      split: if_splits)

lemma revoked_of_member_sessions:
  assumes "s \<in> set (tbl_agentSessions (revoked_of_member now t u d))"
    and "ag \<in> set (member_agents t u d)" "ses_agentId s = ag_id ag"
  shows "ses_revokedAt s \<noteq> None \<or> ses_expiresAt s \<le> now"
  using assms by (auto simp: revoked_of_member_def Let_def disable_agents_def revoke_sessions_def
      active_session_def split: if_splits)

section \<open>Properties\<close>

text \<open>A revocation of an agent that succeeds was asked for by someone who may manage the
  agent. Afterwards the agent is disabled and marked revoked, each of its sessions is revoked or past
  its expiry, the grants stay, and the audit trail gains the primary row, one row per session that was
  revoked and one row per grant of the agent, and nothing else.\<close>

theorem revokeAgent_revokes_sessions:
  assumes "revokeAgent sx a w = (Inr u, w')"
  shows "\<exists>now. may_manage sx a (store w) \<and> now \<in> range (clock w) \<and>
    (\<forall>ag \<in> set (tbl_agents (store w')). ag_id ag = a \<and> ag_org ag = sx_orgId sx \<longrightarrow>
       \<not> ag_enabled ag \<and> ag_revokedAt ag \<noteq> None) \<and>
    (\<forall>s \<in> set (tbl_agentSessions (store w')). ses_agentId s = a \<longrightarrow>
       ses_revokedAt s \<noteq> None \<or> ses_expiresAt s \<le> now) \<and>
    tbl_permissions (store w') = tbl_permissions (store w) \<and>
    tbl_auditLogs (store w') = tbl_auditLogs (store w) @
      (primary_row sx (sx_orgId sx) Ev_agent_revoke [])\<lparr>au_agentId := Some a\<rparr> #
      map (session_cascade a (sx_orgId sx) (sx_userId sx) (sx_ip sx))
        (filter (active_session now (\<lambda>b. b = a)) (tbl_agentSessions (store w))) @
      map (grant_cascade a (sx_orgId sx) (sx_userId sx) (sx_ip sx)) (agent_grants a (store w))"
proof -
  from revokeAgent_Inr [OF assms] obtain now now' where
    m: "may_manage sx a (store w)" "now' \<in> range (clock w)"
    and st: "store w' = (revoke_sessions now' (active_session now' (\<lambda>b. b = a))
        (disable_agents now (\<lambda>b. ag_id b = a \<and> ag_org b = sx_orgId sx) (store w)))
      \<lparr>tbl_auditLogs := tbl_auditLogs (store w) @
         (primary_row sx (sx_orgId sx) Ev_agent_revoke [])\<lparr>au_agentId := Some a\<rparr> #
         revoke_rows a (sx_orgId sx) (sx_userId sx) (sx_ip sx) now' (store w)\<rparr>" by blast
  have "tbl_agents (store w') = map (\<lambda>b. if ag_id b = a \<and> ag_org b = sx_orgId sx
      then b\<lparr>ag_enabled := False, ag_revokedAt := Some now\<rparr> else b) (tbl_agents (store w))"
    and "tbl_agentSessions (store w') = map (\<lambda>s. if active_session now' (\<lambda>b. b = a) s
      then s\<lparr>ses_revokedAt := Some now'\<rparr> else s) (tbl_agentSessions (store w))"
    unfolding st by (simp_all add: revoke_sessions_def disable_agents_def)
  then have eqs: "\<forall>ag \<in> set (tbl_agents (store w')). ag_id ag = a \<and> ag_org ag = sx_orgId sx \<longrightarrow>
       \<not> ag_enabled ag \<and> ag_revokedAt ag \<noteq> None"
    "\<forall>s \<in> set (tbl_agentSessions (store w')). ses_agentId s = a \<longrightarrow>
       ses_revokedAt s \<noteq> None \<or> ses_expiresAt s \<le> now'"
    by (simp_all only: set_map ball_simps(9)) (simp_all add: active_session_def not_less, blast+)
  moreover have "tbl_permissions (store w') = tbl_permissions (store w)"
    "tbl_auditLogs (store w') = tbl_auditLogs (store w) @
      (primary_row sx (sx_orgId sx) Ev_agent_revoke [])\<lparr>au_agentId := Some a\<rparr> #
      revoke_rows a (sx_orgId sx) (sx_userId sx) (sx_ip sx) now' (store w)"
    unfolding st by (simp_all add: revoke_sessions_def disable_agents_def)
  ultimately show ?thesis using m eqs unfolding revoke_rows_def by blast
qed

definition sample_session_row :: agent_session_row where
  "sample_session_row = \<lparr>ses_id = ''s1'', ses_agentId = ''a1'', ses_userId = Some ''u1'',
     ses_tokenHash = ''h'', ses_expiresAt = 9000, ses_revokedAt = None, ses_lastUsedAt = None,
     ses_createdAt = 0\<rparr>"

definition session_db :: db where
  "session_db = sample_team\<lparr>tbl_agentSessions := [sample_session_row]\<rparr>"

lemmas session_db_rows = sample_team_rows session_db_def sample_session_row_def

lemma sample_agent_revocation:
  "fst (revokeAgent sample_session ''a1'' (sample_world session_db)) = Inr ()"
  by (simp add: revokeAgent_def session_db_rows eff_defs select_def modify_def statement_def org_agent_def
      findFirst_def orgScope_def require_manage_def guarded_def forbidden_logged_def requireOrgRole_def
      requireAgentOwnership_def member_row_of_def transaction_def insert_audit_def insert_audits_def
      onAgentRevoked_def Let_def insert_some_def agent_grants_def disable_agents_def)

lemma revokeAgent_revokes_sessions_witness:
  "\<not> (\<exists>s \<in> set (tbl_agentSessions (store (snd (revokeAgent sample_session ''a1'' (sample_world session_db))))).
     ses_agentId s = ''a1'' \<and> ses_revokedAt s = None \<and> ses_expiresAt s > 1000)"
  using revokeAgent_revokes_sessions [OF outcome [OF sample_agent_revocation]] by auto

text \<open>Deleting an item succeeds only for a live item of the caller's tenant. Afterwards no
  live item of the tenant has that id, no grant targets the item, every other item is as it was, and
  the audit trail gains exactly the deletion and its cascade.\<close>

theorem deleteItem_removes_grants:
  assumes "deleteItem sx i w = (Inr u, w')"
  shows "(\<exists>item \<in> set (tbl_items (store w)). item_id item = i \<and> item_org item = sx_orgId sx \<and>
      item_deletedAt item = None) \<and>
    (\<forall>item \<in> set (tbl_items (store w')). item_id item = i \<and> item_org item = sx_orgId sx \<longrightarrow>
      item_deletedAt item \<noteq> None) \<and>
    (\<forall>p \<in> set (tbl_permissions (store w')). perm_itemId p \<noteq> Some i) \<and>
    filter (\<lambda>x. item_id x \<noteq> i) (tbl_items (store w')) = filter (\<lambda>x. item_id x \<noteq> i) (tbl_items (store w)) \<and>
    length (tbl_auditLogs (store w')) = length (tbl_auditLogs (store w)) + 2"
proof -
  have other: "filter (\<lambda>x. item_id x \<noteq> j) (map (\<lambda>x. if item_id x = j \<and> q x
      then x\<lparr>item_deletedAt := Some now\<rparr> else x) xs) = filter (\<lambda>x. item_id x \<noteq> j) xs" for q now xs j
    by (induction xs) auto
  from deleteItem_Inr [OF assms] show ?thesis
    by (auto simp: mark_deleted_def orgScope_def other)
qed

lemma sample_deletion: "fst (deleteItem sample_session ''i1'' (sample_world sample_team)) = Inr ()"
  by (simp add: deleteItem_def loadOwnedItem_def sample_team_rows eff_defs select_def modify_def
      statement_def findFirst_def orgScope_def transaction_def insert_audit_def insert_audits_def
      onItemDeleted_def)

lemma deleteItem_removes_grants_witness:
  "\<not> (\<exists>p \<in> set (tbl_permissions (store (snd (deleteItem sample_session ''i1'' (sample_world sample_team))))).
     perm_itemId p = Some ''i1'')"
  using deleteItem_removes_grants [OF outcome [OF sample_deletion]] by blast

end
