(* ===== verification/Members.thy ===== *)
theory Members
  imports Cascades
begin

text \<open>
  Removing a member and changing a member's role
  (\<open>packages/trpc/src/server/routers/organizations.ts\<close>, \<open>removeMember\<close> and
  \<open>updateMemberRole\<close>), and the invariant their owner guard keeps: an organisation that has an
  owner keeps one.
\<close>

section \<open>Handlers\<close>

definition org_member :: "string \<Rightarrow> string \<Rightarrow> db \<Rightarrow> member_row option" where
  "org_member orgId memberId d = find (\<lambda>m. mem_id m = memberId \<and> mem_org m = orgId) (tbl_members d)"

definition member_denied :: "session_ctx \<Rightarrow> audit_event \<Rightarrow> json_object \<Rightarrow> audit_entry" where
  "member_denied sx ev meta = (entry (sx_orgId sx) (Some (sx_userId sx)) ev Denied)
     \<lparr>ae_ipAddress := sx_ip sx, ae_meta := Some meta\<rparr>"

definition removal_denied :: "session_ctx \<Rightarrow> audit_event \<Rightarrow> string \<Rightarrow> string \<Rightarrow> audit_entry" where
  "removal_denied sx ev orgId memberId = member_denied sx ev
     [(''reason'', JStr ''insufficient_role''), (''targetOrgId'', JStr orgId),
      (''memberId'', JStr memberId)]"

text \<open>The transaction of \<open>removeMember\<close>; its first statement sets the tenant.\<close>

definition remove_rows :: "session_ctx \<Rightarrow> string \<Rightarrow> string \<Rightarrow> member_row \<Rightarrow> unit server" where
  "remove_rows sx orgId memberId target =
     followed_by (statement (\<lambda>d. Inr ((), d)))
     (followed_by (modify (drop_member memberId))
     (followed_by (insert_audit [primary_row sx orgId Ev_org_member_remove
         [(''removedUserId'', JStr (mem_userId target)), (''memberId'', JStr memberId)]])
       (onMemberRemoved orgId (mem_userId target) (sx_userId sx) (sx_ip sx))))"

definition removeMember :: "session_ctx \<Rightarrow> string \<Rightarrow> string \<Rightarrow> unit server" where
  "removeMember sx orgId memberId =
     andThen (forbidden_logged (removal_denied sx Ev_org_member_remove orgId memberId)
       (requireOrgRole orgId (sx_userId sx) ''admin'')) (\<lambda>actorRole.
     andThen (select (org_member orgId memberId)) (\<lambda>found.
       case found of
         None \<Rightarrow> fail_with (notFound ''NOT_FOUND'')
       | Some target \<Rightarrow>
           if mem_role target = ''owner'' \<and> actorRole \<noteq> ''owner''
           then followed_by (logSessionAudit (member_denied sx Ev_org_member_remove
                  [(''reason'', JStr ''insufficient_role_for_owner_removal''),
                   (''memberId'', JStr memberId), (''actorRole'', JStr actorRole)]))
                (fail_with (forbidden ''MEMBER_INSUFFICIENT_ROLE'' []))
           else followed_by (assertOwnersRemainAfterChange orgId memberId (mem_role target) ''removed'')
                (transaction (remove_rows sx orgId memberId target))))"

definition updateMemberRole :: "session_ctx \<Rightarrow> string \<Rightarrow> string \<Rightarrow> string \<Rightarrow> unit server" where
  "updateMemberRole sx orgId memberId role =
     followed_by (forbidden_logged (removal_denied sx Ev_org_member_role_change orgId memberId)
       (requireOrgRole orgId (sx_userId sx) ''owner''))
     (andThen (select (org_member orgId memberId)) (\<lambda>found.
       case found of
         None \<Rightarrow> fail_with (notFound ''NOT_FOUND'')
       | Some target \<Rightarrow>
           followed_by (assertOwnersRemainAfterChange orgId memberId (mem_role target) role)
           (followed_by (modify (set_role memberId role))
             (logSessionAudit ((entry orgId (Some (sx_userId sx)) Ev_org_member_role_change Allowed)
               \<lparr>ae_ipAddress := sx_ip sx,
                ae_meta := Some [(''memberId'', JStr memberId), (''newRole'', JStr role)]\<rparr>)))))"

section \<open>Facts\<close>

text \<open>A row that says this caller was refused.\<close>

definition caller_refusal :: "session_ctx \<Rightarrow> audit_row \<Rightarrow> bool" where
  "caller_refusal sx r = (au_org r = sx_orgId sx \<and> au_userId r = Some (sx_userId sx) \<and>
     au_result r = Denied)"

lemma keeps_role_check:
  "keeps (audits_where (caller_refusal sx))
     (forbidden_logged (removal_denied sx ev t m) (requireOrgRole t u r))"
  by (rule keeps_forbidden_logged [OF keeps_requireOrgRole])
    (simp add: caller_refusal_def removal_denied_def member_denied_def)

lemma org_member_SomeD:
  "org_member t m d = Some x \<Longrightarrow> x \<in> set (tbl_members d) \<and> mem_id x = m \<and> mem_org x = t"
  unfolding org_member_def by (drule find_SomeD) simp

text \<open>Some other member of the organisation is an owner.\<close>

definition other_owner :: "string \<Rightarrow> string \<Rightarrow> db \<Rightarrow> bool" where
  "other_owner t m d = (\<exists>x \<in> set (tbl_members d). mem_org x = t \<and> mem_role x = ''owner'' \<and> mem_id x \<noteq> m)"

lemma countOwners_other: "1 \<le> countOwners t (Some m) d \<Longrightarrow> m \<noteq> [] \<Longrightarrow> other_owner t m d"
  unfolding countOwners_def other_owner_def
  by (auto simp: Suc_le_eq length_greater_0_conv filter_empty_conv simp del: length_greater_0_conv)

definition has_owner :: "string \<Rightarrow> db \<Rightarrow> bool" where
  "has_owner t d = (owners t d \<noteq> [])"

lemma has_owner_iff: "has_owner t d \<longleftrightarrow> (\<exists>x \<in> set (tbl_members d). mem_org x = t \<and> mem_role x = ''owner'')"
  by (auto simp: has_owner_def owners_def filter_empty_conv)

lemma other_owner_drop: "other_owner t m d \<Longrightarrow> has_owner t (drop_member m d)"
  by (auto simp: other_owner_def has_owner_iff drop_member_def)

lemma other_owner_set: "other_owner t m d \<Longrightarrow> has_owner t (set_role m r d)"
  by (auto simp: other_owner_def has_owner_iff set_role_def image_iff)

section \<open>Success\<close>

definition actor_rank :: "nat \<Rightarrow> session_ctx \<Rightarrow> string \<Rightarrow> db \<Rightarrow> bool" where
  "actor_rank n sx t d = (\<exists>a. member_row_of t (sx_userId sx) d = Some a \<and> n \<le> roleRank (mem_role a))"

lemma rank_owner: "3 \<le> roleRank r \<longleftrightarrow> r = ''owner''"
  by (auto simp: roleRank_def ROLE_RANK_def)

text \<open>The store after a removal, from the store before and the reading of the clock.\<close>

definition removal_store :: "session_ctx \<Rightarrow> string \<Rightarrow> string \<Rightarrow> string \<Rightarrow> int \<Rightarrow> db \<Rightarrow> db" where
  "removal_store sx t m u now d =
     (let gs = member_grants t u d in
      (revoked_of_member now t u (drop_member m d))
        \<lparr>tbl_permissions := filter (\<lambda>p. perm_id p \<notin> perm_id ` set gs) (tbl_permissions d),
         tbl_auditLogs := tbl_auditLogs d @
           primary_row sx t Ev_org_member_remove [(''removedUserId'', JStr u), (''memberId'', JStr m)] #
           map (member_cascade t u (sx_userId sx) (sx_ip sx)) (member_agents t u d) @
           map (removed_grant_cascade t u (sx_userId sx) (sx_ip sx)) gs\<rparr>)"

lemma remove_rows_Inr:
  assumes "transaction (remove_rows sx t m target) w = (Inr u, w')"
  shows "store w' = removal_store sx t m (mem_userId target) (clock w (ticks w)) (store w)"
proof -
  let ?d = "drop_member m (store w)"
  let ?row = "primary_row sx t Ev_org_member_remove
      [(''removedUserId'', JStr (mem_userId target)), (''memberId'', JStr m)]"
  let ?w3 = "w\<lparr>stmts := Suc (Suc (Suc (stmts w))),
      store := ?d\<lparr>tbl_auditLogs := tbl_auditLogs ?d @ [?row]\<rparr>\<rparr>"
  from assms obtain w4 where
    o4: "onMemberRemoved t (mem_userId target) (sx_userId sx) (sx_ip sx) ?w3 = (Inr (), w4)"
    and w': "store w' = store w4"
    by (auto simp: transaction_ok remove_rows_def step_Inr)
  from onMemberRemoved_Inr [OF o4] w' show ?thesis
    by (simp add: removal_store_def revoked_of_member_def Let_def revoke_sessions_def disable_agents_def
        member_agents_def member_grants_def drop_member_def)
qed

lemma removeMember_Inr:
  assumes "removeMember sx t m w = (Inr u, w')"
  obtains target now where "actor_rank 2 sx t (store w)" "org_member t m (store w) = Some target"
    "mem_role target = ''owner'' \<Longrightarrow> actor_rank 3 sx t (store w) \<and> 1 \<le> countOwners t (Some m) (store w)"
    "now \<in> range (clock w)" "store w' = removal_store sx t m (mem_userId target) now (store w)"
proof -
  from assms obtain actorRole w1 where
    r: "requireOrgRole t (sx_userId sx) ''admin'' w = (Inr actorRole, w1)"
    and k: "andThen (select (org_member t m)) (\<lambda>found. case found of
         None \<Rightarrow> fail_with (notFound ''NOT_FOUND'')
       | Some target \<Rightarrow>
           if mem_role target = ''owner'' \<and> actorRole \<noteq> ''owner''
           then followed_by (logSessionAudit (member_denied sx Ev_org_member_remove
                  [(''reason'', JStr ''insufficient_role_for_owner_removal''),
                   (''memberId'', JStr m), (''actorRole'', JStr actorRole)]))
                (fail_with (forbidden ''MEMBER_INSUFFICIENT_ROLE'' []))
           else followed_by (assertOwnersRemainAfterChange t m (mem_role target) ''removed'')
                (transaction (remove_rows sx t m target))) w1 = (Inr u, w')"
    by (auto simp: removeMember_def andThen_Inr [of "forbidden_logged _ _"] forbidden_logged_Inr)
  from requireOrgRole_Inr [OF r] have k1: "same_store w w1"
    and a: "\<exists>x. member_row_of t (sx_userId sx) (store w) = Some x \<and> mem_role x = actorRole \<and>
       2 \<le> roleRank actorRole" by auto
  from k obtain target w2 where target: "org_member t m (store w1) = Some target"
    and own: "mem_role target = ''owner'' \<longrightarrow> actorRole = ''owner''"
    and c: "assertOwnersRemainAfterChange t m (mem_role target) ''removed'' (w1\<lparr>stmts := Suc (stmts w1)\<rparr>) =
        (Inr (), w2)"
    and tr: "transaction (remove_rows sx t m target) w2 = (Inr u, w')"
    by (auto simp: andThen_Inr select_ok followed_by_def session_log.log_then_fail [unfolded followed_by_def]
        fail_with_def split: option.splits if_splits)
  from assertOwnersRemain_Inr [OF c] have k2: "same_store w1 w2"
    and cnt: "mem_role target = ''owner'' \<longrightarrow> 1 \<le> countOwners t (Some m) (store w1)"
    by (auto simp: same_store_def env_kept_def)
  show ?thesis
    using a own cnt target k1 k2 remove_rows_Inr [OF tr]
    by (intro that [of target "clock w2 (ticks w2)"])
      (auto simp: actor_rank_def same_store_def env_kept_def)
qed

lemma updateMemberRole_Inr:
  assumes "updateMemberRole sx t m r w = (Inr u, w')"
  obtains target where "actor_rank 3 sx t (store w)" "org_member t m (store w) = Some target"
    "mem_role target = ''owner'' \<Longrightarrow> r \<noteq> ''owner'' \<Longrightarrow> 1 \<le> countOwners t (Some m) (store w)"
    "\<exists>w1. store w1 = set_role m r (store w) \<and> only_audits w1 w'"
proof -
  let ?log = "logSessionAudit ((entry t (Some (sx_userId sx)) Ev_org_member_role_change Allowed)
               \<lparr>ae_ipAddress := sx_ip sx,
                ae_meta := Some [(''memberId'', JStr m), (''newRole'', JStr r)]\<rparr>)"
  from assms obtain actorRole target w1 w2 where
    r: "requireOrgRole t (sx_userId sx) ''owner'' w = (Inr actorRole, w1)"
    and target: "org_member t m (store w1) = Some target"
    and c: "assertOwnersRemainAfterChange t m (mem_role target) r (w1\<lparr>stmts := Suc (stmts w1)\<rparr>) = (Inr (), w2)"
    and l: "?log (w2\<lparr>stmts := Suc (stmts w2), store := set_role m r (store w2)\<rparr>) = (Inr u, w')"
    by (auto simp: updateMemberRole_def followed_by_def andThen_Inr forbidden_logged_Inr select_ok modify_ok
        fail_with_def split: option.splits)
  from requireOrgRole_Inr [OF r] assertOwnersRemain_Inr [OF c]
  have k: "store w1 = store w" "store w2 = store w" by (simp_all add: same_store_def)
  have "keeps only_audits ?log" by (rule session_log.keeps_log_where) (rule TrueI)
  from keepsD [OF this l] k have "\<exists>w3. store w3 = set_role m r (store w) \<and> only_audits w3 w'"
    by (intro exI [of _ "w2\<lparr>stmts := Suc (stmts w2), store := set_role m r (store w2)\<rparr>"]) simp
  with target k show ?thesis
    using requireOrgRole_Inr [OF r] assertOwnersRemain_Inr [OF c]
    by (intro that [of target]) (auto simp: actor_rank_def)
qed

section \<open>Failure\<close>

lemma keeps_error_log: "keeps_error R (logSessionAudit e)"
  by (simp add: keeps_error_def session_log.log_Inl)

lemma keeps_error_modify_log: "keeps_error (audits_where P) (followed_by (modify u) (logSessionAudit e))"
  by (auto simp: keeps_error_def followed_by_def andThen_Inl modify_fails session_log.log_Inl
      same_store_audits_where same_store_def env_kept_def)

lemma keeps_env_modify: "keeps env_kept (modify u)"
  by (simp add: modify_def keeps_env_statement)

lemma keeps_env_insert: "keeps env_kept (insert_audit rs)" "keeps env_kept (insert_some rs)"
  by (simp_all add: insert_audit_def insert_some_def keeps_env_statement)

lemmas env_parts = keeps_env keeps_env_modify keeps_env_insert same_store_env [OF keeps_select]
  same_store_env [OF keeps_new_Date]

lemma keeps_env_cascades:
  "keeps env_kept (onAgentRevoked a t actor ip)" "keeps env_kept (onItemDeleted i t actor ip)"
  "keeps env_kept (onMemberRemoved t u actor ip)"
  unfolding onAgentRevoked_def onItemDeleted_def onMemberRemoved_def revoke_member_agents_def
    delete_member_grants_def Let_def
  by (auto intro!: env_parts)

lemma keeps_error_removeMember:
  "keeps_error (audits_where (caller_refusal sx)) (removeMember sx t m)"
  unfolding removeMember_def remove_rows_def
  by (auto intro!: keeps_error_audits keeps_role_check keeps_same_where [OF keeps_select]
      keeps_same_where [OF keeps_assertOwnersRemain] keeps_error_same_where [OF keeps_error_transaction]
      env_parts keeps_env_cascades session_log.keeps_log_where
      simp: caller_refusal_def member_denied_def split: option.split)

lemma keeps_error_updateMemberRole:
  "keeps_error (audits_where (caller_refusal sx)) (updateMemberRole sx t m r)"
  unfolding updateMemberRole_def
  by (auto intro!: keeps_error_audits keeps_role_check keeps_same_where [OF keeps_select]
      keeps_same_where [OF keeps_assertOwnersRemain] keeps_error_modify_log
      split: option.split)

lemma keeps_denied_session:
  "df_org f = sx_orgId sx \<Longrightarrow> df_userId f = Some (sx_userId sx) \<Longrightarrow>
     keeps (audits_where (caller_refusal sx)) (auditDeniedSession f x)"
  by (rule keeps_auditDeniedSession) (simp add: caller_refusal_def denied_entry_def)

lemma keeps_error_revokeAgent: "keeps_error (audits_where (caller_refusal sx)) (revokeAgent sx a)"
proof -
  have man: "keeps (audits_where (caller_refusal sx)) (require_manage sx ev a i)" for ev i
    by (rule keeps_where_mono [OF keeps_require_manage]) (simp add: session_refusal_def caller_refusal_def)
  show ?thesis
    unfolding revokeAgent_def
    by (auto intro!: keeps_error_audits man keeps_same_where [OF keeps_select]
        keeps_same_where [OF keeps_new_Date] keeps_error_same_where [OF keeps_error_transaction]
        env_parts keeps_env_cascades keeps_keeps_error [OF keeps_denied_session] simp: denied_def)
qed

lemma keeps_error_deleteItem: "keeps_error (audits_where (caller_refusal sx)) (deleteItem sx i)"
  unfolding deleteItem_def loadOwnedItem_def
  by (auto intro!: keeps_error_audits keeps_audits keeps_same_where [OF keeps_select]
      keeps_same_where [OF keeps_new_Date] keeps_error_same_where [OF keeps_error_transaction]
      env_parts keeps_env_cascades keeps_denied_session simp: denied_def split: option.split)

section \<open>Properties\<close>

lemma has_owner_audits: "audits_where P w w' \<Longrightarrow> has_owner t (store w') = has_owner t (store w)"
  using audits_where_frame(7) [of P w w'] by (simp add: has_owner_iff)

lemma owner_after_drop:
  assumes "has_owner t d" "m \<noteq> []" "distinct (map mem_id (tbl_members d))"
    and "org_member t m d = Some target" "mem_role target = ''owner'' \<Longrightarrow> 1 \<le> countOwners t (Some m) d"
  shows "other_owner t m d"
proof (cases "mem_role target = ''owner''")
  case True
  with assms countOwners_other show ?thesis by blast
next
  case False
  from assms(1) obtain x where x: "x \<in> set (tbl_members d)" "mem_org x = t" "mem_role x = ''owner''"
    by (auto simp: has_owner_iff)
  from org_member_SomeD [OF assms(4)] have "target \<in> set (tbl_members d)" "mem_id target = m" by simp_all
  with x False assms(3) have "mem_id x \<noteq> m" by (metis distinct_map_inj_on_eq)
  with x show ?thesis by (auto simp: other_owner_def)
qed

lemma removal_members [simp]: "tbl_members (removal_store sx t m u now d) = tbl_members (drop_member m d)"
  by (simp add: removal_store_def Let_def)

lemma owner_remains_removal:
  assumes d: "has_owner t (store w)" "m \<noteq> []" "distinct (map mem_id (tbl_members (store w)))"
    and r: "removeMember sx t m w = (r, w')"
  shows "has_owner t (store w')"
proof (cases r)
  case (Inl e)
  with keeps_errorD [OF keeps_error_removeMember] r d(1) show ?thesis by (metis has_owner_audits)
next
  case (Inr u)
  with r have "removeMember sx t m w = (Inr u, w')" by simp
  then obtain target now where t: "org_member t m (store w) = Some target"
    "mem_role target = ''owner'' \<Longrightarrow> 1 \<le> countOwners t (Some m) (store w)"
    and st: "store w' = removal_store sx t m (mem_userId target) now (store w)"
    by (rule removeMember_Inr) blast
  from other_owner_drop [OF owner_after_drop [OF d t]] st show ?thesis by (simp add: has_owner_iff)
qed

lemma owner_remains_update:
  assumes d: "has_owner t (store w)" "m \<noteq> []" "distinct (map mem_id (tbl_members (store w)))"
    and r: "updateMemberRole sx t m role w = (r, w')"
  shows "has_owner t (store w')"
proof (cases r)
  case (Inl e)
  with keeps_errorD [OF keeps_error_updateMemberRole] r d(1) show ?thesis by (metis has_owner_audits)
next
  case (Inr u)
  with r have "updateMemberRole sx t m role w = (Inr u, w')" by simp
  then obtain target w1 where t: "org_member t m (store w) = Some target"
    "mem_role target = ''owner'' \<Longrightarrow> role \<noteq> ''owner'' \<Longrightarrow> 1 \<le> countOwners t (Some m) (store w)"
    and w1: "store w1 = set_role m role (store w)" "only_audits w1 w'"
    by (rule updateMemberRole_Inr) blast
  have "has_owner t (set_role m role (store w))"
  proof (cases "role = ''owner''")
    case True
    from org_member_SomeD [OF t(1)] True show ?thesis
      unfolding has_owner_iff set_role_def
      by (intro bexI [of _ "target\<lparr>mem_role := ''owner''\<rparr>"]) (auto simp: image_iff)
  next
    case False
    with other_owner_set [OF owner_after_drop [OF d t(1)]] t(2) show ?thesis by blast
  qed
  with w1 has_owner_audits [OF w1(2)] show ?thesis by simp
qed

text \<open>C38: an organisation never loses its last owner to a removal or a role change that runs on its
  own. If it had an owner before, it has one after, whether the request succeeds or fails (member ids
  are the primary key of the table).\<close>

theorem an_owner_remains:
  assumes "has_owner t (store w)" "m \<noteq> []" "distinct (map mem_id (tbl_members (store w)))"
    and "removeMember sx t m w = (r, w') \<or> updateMemberRole sx t m role w = (r', w')"
  shows "has_owner t (store w')"
  using assms owner_remains_removal owner_remains_update by metis

definition owner_row :: "string \<Rightarrow> string \<Rightarrow> member_row" where
  "owner_row m u = \<lparr>mem_id = m, mem_org = ''o1'', mem_userId = u, mem_role = ''owner'', mem_createdAt = 0\<rparr>"

definition two_owners :: db where
  "two_owners = sample_db\<lparr>tbl_members := [owner_row ''m1'' ''u1'', owner_row ''m2'' ''u2'']\<rparr>"

lemmas two_owners_rows = sample_rows sample_session_def owner_row_def two_owners_def

lemma an_owner_remains_witness:
  "has_owner ''o1'' (store (snd (updateMemberRole sample_session ''o1'' ''m1'' ''member''
     (sample_world two_owners))))"
  by (rule an_owner_remains [OF _ _ _ disjI2 [OF prod.collapse [symmetric]], where w = "sample_world two_owners"])
    (simp_all add: has_owner_iff two_owners_rows)

text \<open>Two demotions whose checks both run before either update: each check passes, and no owner is left.
  The check and the update are separate statements of \<open>updateMemberRole\<close>, under no lock.\<close>

lemma interleaved_demotions_strand_the_org:
  "fst (assertOwnersRemainAfterChange ''o1'' ''m1'' ''owner'' ''member'' (sample_world two_owners)) = Inr ()"
  "fst (assertOwnersRemainAfterChange ''o1'' ''m2'' ''owner'' ''member'' (sample_world two_owners)) = Inr ()"
  "\<not> has_owner ''o1'' (set_role ''m2'' ''member'' (set_role ''m1'' ''member'' two_owners))"
  by (simp_all add: assertOwnersRemainAfterChange_def eff_defs select_def statement_def countOwners_def
      has_owner_iff set_role_def two_owners_rows)

lemma removal_clears:
  fixes d t m u now sx
  defines "d' \<equiv> removal_store sx t m u now d"
  shows "\<forall>x \<in> set (tbl_members d'). mem_id x \<noteq> m"
    "\<forall>a \<in> set (tbl_agents d'). ag_org a = t \<and> ag_createdBy a = Some u \<longrightarrow> \<not> ag_enabled a"
    "\<forall>s \<in> set (tbl_agentSessions d'). ses_agentId s \<in> ag_id ` set (member_agents t u d) \<longrightarrow>
       ses_revokedAt s \<noteq> None \<or> ses_expiresAt s \<le> now"
    "\<forall>p \<in> set (tbl_permissions d'). perm_org p = t \<longrightarrow> perm_grantedBy p \<noteq> Some u"
    "tbl_items d' = tbl_items d"
proof -
  have m: "member_agents t u (drop_member m d) = member_agents t u d"
    by (simp add: member_agents_def drop_member_def)
  show "\<forall>x \<in> set (tbl_members d'). mem_id x \<noteq> m"
    by (simp add: d'_def drop_member_def)
  show "\<forall>a \<in> set (tbl_agents d'). ag_org a = t \<and> ag_createdBy a = Some u \<longrightarrow> \<not> ag_enabled a"
    using revoked_of_member_agents by (auto simp: d'_def removal_store_def Let_def)
  show "\<forall>s \<in> set (tbl_agentSessions d'). ses_agentId s \<in> ag_id ` set (member_agents t u d) \<longrightarrow>
       ses_revokedAt s \<noteq> None \<or> ses_expiresAt s \<le> now"
  proof (intro ballI impI)
    fix s
    assume s: "s \<in> set (tbl_agentSessions d')" "ses_agentId s \<in> ag_id ` set (member_agents t u d)"
    then obtain ag where ag: "ag \<in> set (member_agents t u (drop_member m d))" "ses_agentId s = ag_id ag"
      by (auto simp: m)
    from s(1) have "s \<in> set (tbl_agentSessions (revoked_of_member now t u (drop_member m d)))"
      by (simp add: d'_def removal_store_def Let_def)
    from revoked_of_member_sessions [OF this ag] show "ses_revokedAt s \<noteq> None \<or> ses_expiresAt s \<le> now" .
  qed
  show "\<forall>p \<in> set (tbl_permissions d'). perm_org p = t \<longrightarrow> perm_grantedBy p \<noteq> Some u"
    by (auto simp: d'_def removal_store_def Let_def member_grants_def)
  show "tbl_items d' = tbl_items d"
    by (simp add: d'_def removal_store_def Let_def drop_member_def)
qed

text \<open>A removal that succeeds was asked for by an admin or owner (by an owner when it removes
  an owner). Afterwards the membership is gone, every agent the member created in the organisation is
  disabled, every session of an agent it switched off is revoked or past its expiry, every grant the
  member had issued is gone, and no item is touched.\<close>

theorem removeMember_revokes_everything:
  assumes "removeMember sx t m w = (Inr u, w')"
  shows "\<exists>target now. org_member t m (store w) = Some target \<and> actor_rank 2 sx t (store w) \<and>
    (mem_role target = ''owner'' \<longrightarrow> actor_rank 3 sx t (store w)) \<and> now \<in> range (clock w) \<and>
    (\<forall>x \<in> set (tbl_members (store w')). mem_id x \<noteq> m) \<and>
    (\<forall>a \<in> set (tbl_agents (store w')). ag_org a = t \<and> ag_createdBy a = Some (mem_userId target) \<longrightarrow>
       \<not> ag_enabled a) \<and>
    (\<forall>s \<in> set (tbl_agentSessions (store w')).
       ses_agentId s \<in> ag_id ` set (member_agents t (mem_userId target) (store w)) \<longrightarrow>
       ses_revokedAt s \<noteq> None \<or> ses_expiresAt s \<le> now) \<and>
    (\<forall>p \<in> set (tbl_permissions (store w')). perm_org p = t \<longrightarrow>
       perm_grantedBy p \<noteq> Some (mem_userId target)) \<and>
    tbl_items (store w') = tbl_items (store w)"
proof -
  from assms obtain target now where "actor_rank 2 sx t (store w)" "org_member t m (store w) = Some target"
    "mem_role target = ''owner'' \<Longrightarrow> actor_rank 3 sx t (store w)" "now \<in> range (clock w)"
    and st: "store w' = removal_store sx t m (mem_userId target) now (store w)"
    by (rule removeMember_Inr) blast
  then show ?thesis
    using removal_clears [where d = "store w" and t = t and m = m and u = "mem_userId target"
        and now = now and sx = sx, folded st]
    by (intro exI [of _ target] exI [of _ now]) simp
qed

definition removal_db :: db where
  "removal_db = two_owners\<lparr>tbl_agents := [sample_agent\<lparr>ag_createdBy := Some ''u2''\<rparr>]\<rparr>"

lemma sample_removal: "fst (removeMember sample_session ''o1'' ''m2'' (sample_world removal_db)) = Inr ()"
  by (simp add: removeMember_def removal_db_def two_owners_rows eff_defs forbidden_logged_def
      requireOrgRole_def member_row_of_def select_def modify_def statement_def org_member_def
      assertOwnersRemainAfterChange_def countOwners_def transaction_def remove_rows_def insert_audit_def
      insert_audits_def onMemberRemoved_def member_agents_def revoke_member_agents_def Let_def
      active_session_def member_grants_def delete_member_grants_def disable_agents_def drop_member_def)

lemma removeMember_revokes_everything_witness:
  "\<not> (\<exists>a \<in> set (tbl_agents (store (snd (removeMember sample_session ''o1'' ''m2'' (sample_world removal_db))))).
     ag_org a = ''o1'' \<and> ag_createdBy a = Some ''u2'' \<and> ag_enabled a)"
  using removeMember_revokes_everything [OF outcome [OF sample_removal]]
  by (auto simp: org_member_def removal_db_def two_owners_rows)

text \<open>Revoking an agent, deleting an item, removing a member and changing a role are all
  or nothing: when the request fails, no table but the audit trail has changed, and every row added
  there says that this caller was refused.\<close>

theorem cascades_all_or_nothing:
  assumes "revokeAgent sx a w = (Inl e, w') \<or> deleteItem sx i w = (Inl e, w') \<or>
    removeMember sx t m w = (Inl e, w') \<or> updateMemberRole sx t m role w = (Inl e, w')"
  shows "audits_where (caller_refusal sx) w w'"
  using assms keeps_errorD [OF keeps_error_revokeAgent] keeps_errorD [OF keeps_error_deleteItem]
    keeps_errorD [OF keeps_error_removeMember] keeps_errorD [OF keeps_error_updateMemberRole]
  by metis

lemma cascades_all_or_nothing_witness:
  "audits_where (caller_refusal sample_session) (sample_world two_owners)
     (snd (deleteItem sample_session ''i9'' (sample_world two_owners)))"
proof -
  have "fst (deleteItem sample_session ''i9'' (sample_world two_owners)) = Inl (notFound ''ITEM_NOT_FOUND'')"
    by (simp add: deleteItem_def loadOwnedItem_def two_owners_rows eff_defs select_def statement_def
        findFirst_def auditDeniedSession_eq)
  from cascades_all_or_nothing [OF disjI2 [OF disjI1 [OF outcome [OF this]]]] show ?thesis .
qed

end
