(* ===== verification/Secret_Delivery.thy ===== *)
theory Secret_Delivery
  imports Core_Model
begin

text \<open>
  Item payloads and how a field is selected from one (\<open>packages/core/src/secret-delivery.ts\<close>),
  the decoding of a decrypted payload (\<open>packages/trpc/src/server/item-payload.ts\<close>), and the rules
  for environment variable names (\<open>packages/core/src/env-blocklist.ts\<close>).
\<close>

section \<open>Payloads\<close>

datatype item_kind = Kind_login | Kind_api_key | Kind_token | Kind_json | Kind_certificate
  | Kind_ssh_key | Kind_opaque

record item_payload =
  pl_v :: "int option"
  pl_label :: "string option"
  pl_kind :: "item_kind option"
  pl_tags :: "string list option"
  pl_notes :: "string option"
  pl_fields :: json_object

fun STANDARD_FIELDS_BY_KIND :: "item_kind \<Rightarrow> string list" where
  "STANDARD_FIELDS_BY_KIND Kind_login = [''username'', ''email'', ''password'', ''url'', ''totp_secret'']"
| "STANDARD_FIELDS_BY_KIND Kind_api_key = [''value'', ''key_id'', ''key_secret'']"
| "STANDARD_FIELDS_BY_KIND Kind_token = [''value'']"
| "STANDARD_FIELDS_BY_KIND Kind_json = []"
| "STANDARD_FIELDS_BY_KIND Kind_certificate = [''cert'', ''key'', ''chain'', ''passphrase'']"
| "STANDARD_FIELDS_BY_KIND Kind_ssh_key = [''private_key'', ''public_key'', ''passphrase'']"
| "STANDARD_FIELDS_BY_KIND Kind_opaque = [''value'']"

section \<open>Selecting fields\<close>

fun is_string :: "json \<Rightarrow> bool" where
  "is_string (JStr _) = True"
| "is_string _ = False"

definition getStringFieldNames :: "json_object \<Rightarrow> string list" where
  "getStringFieldNames ob = map fst (filter (\<lambda>(_, v). is_string v) ob)"

definition listStringFields :: "item_payload \<Rightarrow> string list" where
  "listStringFields p = getStringFieldNames (pl_fields p)"

text \<open>\<open>[...new Set(fields)]\<close> keeps the first occurrence of each name.\<close>

definition dedupeFields :: "string list \<Rightarrow> string list" where
  "dedupeFields fs = rev (remdups (rev fs))"

definition expandFieldSelection :: "item_payload \<Rightarrow> string list \<Rightarrow> err + string list" where
  "expandFieldSelection p req =
     (let availableFields = listStringFields p in
      if req \<noteq> [] then
        (case find (\<lambda>f. f \<notin> set availableFields) (dedupeFields req) of
           Some f \<Rightarrow> Inl (fieldNotFoundError f availableFields)
         | None \<Rightarrow> Inr (dedupeFields req))
      else
        let preferredFields = (case pl_kind p of None \<Rightarrow> []
              | Some k \<Rightarrow> filter (\<lambda>f. f \<in> set availableFields) (STANDARD_FIELDS_BY_KIND k)) in
        if preferredFields \<noteq> [] then Inr preferredFields
        else if ''value'' \<in> set availableFields then Inr [''value'']
        else Inr availableFields)"

definition field_text :: "item_payload \<Rightarrow> string \<Rightarrow> string option" where
  "field_text p f = (case map_of (pl_fields p) f of Some (JStr s) \<Rightarrow> Some s | _ \<Rightarrow> None)"

definition resolveFieldValue :: "item_payload \<Rightarrow> string option \<Rightarrow> err + string" where
  "resolveFieldValue p field =
     (if truthy field then
        (case field_text p (the field) of
           None \<Rightarrow> Inl (fieldNotFoundError (the field) (listStringFields p))
         | Some s \<Rightarrow> Inr s)
      else case expandFieldSelection p [] of
          Inl e \<Rightarrow> Inl e
        | Inr resolved \<Rightarrow>
            if length resolved = 1 \<and> hd resolved \<noteq> []
            then (case field_text p (hd resolved) of
                    Some s \<Rightarrow> Inr s | None \<Rightarrow> Inl (PlainErr ''undefined''))
            else Inl (multiFieldItemError resolved))"

definition resolveFieldValues :: "item_payload \<Rightarrow> string list \<Rightarrow> err + (string \<times> string option) list" where
  "resolveFieldValues p req =
     (case expandFieldSelection p req of
        Inl e \<Rightarrow> Inl e | Inr fs \<Rightarrow> Inr (map (\<lambda>f. (f, field_text p f)) fs))"

text \<open>An object has each key once.\<close>

definition payload_ok :: "item_payload \<Rightarrow> bool" where
  "payload_ok p = distinct (map fst (pl_fields p))"

lemma is_stringE: "is_string v \<Longrightarrow> (\<And>s. v = JStr s \<Longrightarrow> P) \<Longrightarrow> P"
  by (cases v) auto

lemma field_text_iff:
  assumes "payload_ok p"
  shows "field_text p f = Some s \<longleftrightarrow> (f, JStr s) \<in> set (pl_fields p)"
proof -
  have "map_of (pl_fields p) f = Some v \<longleftrightarrow> (f, v) \<in> set (pl_fields p)" for v
    using assms by (simp add: payload_ok_def map_of_eq_Some_iff)
  moreover have "field_text p f = Some s \<longleftrightarrow> map_of (pl_fields p) f = Some (JStr s)"
    by (simp add: field_text_def split: option.splits json.splits)
  ultimately show ?thesis by simp
qed

lemma listStringFields_iff:
  "payload_ok p \<Longrightarrow> f \<in> set (listStringFields p) \<longleftrightarrow> (\<exists>s. field_text p f = Some s)"
  by (force simp: listStringFields_def getStringFieldNames_def field_text_iff elim!: is_stringE)

lemma set_dedupeFields [simp]: "set (dedupeFields fs) = set fs" "distinct (dedupeFields fs)"
  by (simp_all add: dedupeFields_def)

text \<open>A selection returns only fields that hold a string, each once for an explicit list.\<close>

lemma expandFieldSelection_available:
  assumes "expandFieldSelection p fs = Inr xs"
  shows "set xs \<subseteq> set (listStringFields p)"
  using assms
  by (auto simp: expandFieldSelection_def Let_def split: if_splits option.splits dest: find_NoneD)

lemma expandFieldSelection_explicit:
  assumes "fs \<noteq> []"
  shows "expandFieldSelection p fs = Inr xs \<longleftrightarrow>
     xs = dedupeFields fs \<and> set fs \<subseteq> set (listStringFields p)"
proof -
  have "find (\<lambda>f. f \<notin> set (listStringFields p)) (dedupeFields fs) = None \<longleftrightarrow>
      set fs \<subseteq> set (listStringFields p)"
    by (auto simp: find_None_iff)
  with assms show ?thesis
    by (auto simp: expandFieldSelection_def Let_def split: option.splits)
qed

lemma expandFieldSelection_default_ok: "\<exists>xs. expandFieldSelection p [] = Inr xs"
  by (simp add: expandFieldSelection_def Let_def split: option.splits)

lemma resolveFieldValues_ok:
  assumes "payload_ok p" "resolveFieldValues p fs = Inr kvs" "(f, v) \<in> set kvs"
  shows "\<exists>s. v = Some s \<and> map_of (pl_fields p) f = Some (JStr s)"
proof -
  from assms obtain xs where xs: "expandFieldSelection p fs = Inr xs" "f \<in> set xs" "v = field_text p f"
    by (auto simp: resolveFieldValues_def split: sum.splits)
  then have "f \<in> set (listStringFields p)" using expandFieldSelection_available by blast
  with assms(1) xs(3) show ?thesis
    by (auto simp: listStringFields_iff field_text_def split: option.splits json.splits)
qed

section \<open>Decoding\<close>

fun kind_of_name :: "string \<Rightarrow> item_kind option" where
  "kind_of_name s =
     (if s = ''login'' then Some Kind_login else if s = ''api_key'' then Some Kind_api_key
      else if s = ''token'' then Some Kind_token else if s = ''json'' then Some Kind_json
      else if s = ''certificate'' then Some Kind_certificate
      else if s = ''ssh_key'' then Some Kind_ssh_key
      else if s = ''opaque'' then Some Kind_opaque else None)"

text \<open>An optional property of a struct schema: absent is fine, present must decode.\<close>

definition optional :: "(json \<Rightarrow> 'a option) \<Rightarrow> string \<Rightarrow> json_object \<Rightarrow> 'a option option" where
  "optional dec k ob = (case map_of ob k of None \<Rightarrow> Some None | Some j \<Rightarrow> map_option Some (dec j))"

fun as_int :: "json \<Rightarrow> int option" where "as_int (JNum n) = Some n" | "as_int _ = None"
fun as_string :: "json \<Rightarrow> string option" where "as_string (JStr s) = Some s" | "as_string _ = None"
fun as_strings :: "json \<Rightarrow> string list option" where
  "as_strings (JArr js) = (if list_all is_string js then Some (map (\<lambda>j. the (as_string j)) js) else None)"
| "as_strings _ = None"
fun as_object :: "json \<Rightarrow> json_object option" where "as_object (JObj ob) = Some ob" | "as_object _ = None"

definition ItemPayloadSchema :: "json \<Rightarrow> item_payload option" where
  "ItemPayloadSchema j =
     (case j of JObj ob \<Rightarrow>
        (case (optional as_int ''v'' ob,
               optional (\<lambda>l. Option.bind (as_string l) (\<lambda>s. if s = [] then None else Some s)) ''label'' ob,
               optional (\<lambda>l. Option.bind (as_string l) kind_of_name) ''kind'' ob,
               optional as_strings ''tags'' ob, optional as_string ''notes'' ob,
               Option.bind (map_of ob ''fields'') as_object) of
           (Some v, Some l, Some k, Some t, Some n, Some f) \<Rightarrow>
             Some \<lparr>pl_v = v, pl_label = l, pl_kind = k, pl_tags = t, pl_notes = n, pl_fields = f\<rparr>
         | _ \<Rightarrow> None)
      | _ \<Rightarrow> None)"

definition migrationFallback :: "string \<Rightarrow> string \<Rightarrow> item_payload" where
  "migrationFallback itemId text =
     \<lparr>pl_v = Some 1, pl_label = Some (''migrated-'' @ take 8 itemId), pl_kind = Some Kind_opaque,
      pl_tags = Some [''migrated''], pl_notes = None, pl_fields = [(''value'', JStr text)]\<rparr>"

text \<open>\<open>JSON.parse\<close> is the first argument; \<open>None\<close> stands for its \<open>SyntaxError\<close>.\<close>

definition decodeServerManagedPayload ::
  "(string \<Rightarrow> json option) \<Rightarrow> string \<Rightarrow> string \<Rightarrow> item_payload" where
  "decodeServerManagedPayload JSON_parse itemId text =
     (case JSON_parse text of
        None \<Rightarrow> migrationFallback itemId text
      | Some parsed \<Rightarrow> (case ItemPayloadSchema parsed of
            None \<Rightarrow> migrationFallback itemId text
          | Some decoded \<Rightarrow> decoded
              \<lparr>pl_label := Some (orElse (pl_label decoded) (''migrated-'' @ take 8 itemId)),
               pl_kind := Some (orElse (pl_kind decoded) Kind_opaque)\<rparr>))"

text \<open>Decoding is total, and a payload that is not structured is delivered verbatim.\<close>

lemma migrationFallback_value:
  "resolveFieldValue (migrationFallback i t) None = Inr t"
  "resolveFieldValue (migrationFallback i t) (Some ''value'') = Inr t"
  by (simp_all add: resolveFieldValue_def migrationFallback_def expandFieldSelection_def
      listStringFields_def getStringFieldNames_def field_text_def)

lemma decodeServerManagedPayload_labelled:
  "\<exists>l k. pl_label (decodeServerManagedPayload J i t) = Some l \<and>
         pl_kind (decodeServerManagedPayload J i t) = Some k"
  by (simp add: decodeServerManagedPayload_def migrationFallback_def split: option.splits)

section \<open>Environment variable names\<close>

definition RESERVED_ENV_KEYS :: "string list" where
  "RESERVED_ENV_KEYS =
    [''PATH'', ''LD_PRELOAD'', ''LD_LIBRARY_PATH'', ''LD_AUDIT'', ''DYLD_INSERT_LIBRARIES'',
     ''DYLD_LIBRARY_PATH'', ''DYLD_FORCE_FLAT_NAMESPACE'', ''NODE_OPTIONS'', ''BUN_INSTALL'',
     ''BUN_CONFIG_REGISTRY'', ''PYTHONPATH'', ''PYTHONSTARTUP'', ''HOME'', ''USER'', ''SHELL'',
     ''NODE_PATH'', ''NODE_EXTRA_CA_CERTS'', ''SSL_CERT_FILE'', ''SSL_CERT_DIR'', ''HTTP_PROXY'',
     ''HTTPS_PROXY'', ''ALL_PROXY'', ''NO_PROXY'', ''BASH_ENV'', ''ENV'', ''IFS'']"

definition between :: "char \<Rightarrow> char \<Rightarrow> char \<Rightarrow> bool" where
  "between a b c = ((of_char a :: nat) \<le> of_char c \<and> (of_char c :: nat) \<le> of_char b)"

definition env_head :: "char \<Rightarrow> bool" where
  "env_head c = (between (CHR ''A'') (CHR ''Z'') c \<or> c = CHR ''_'')"

definition env_char :: "char \<Rightarrow> bool" where
  "env_char c = (env_head c \<or> between (CHR ''0'') (CHR ''9'') c)"

text \<open>\<open>/^[A-Z_][A-Z0-9_]*$/\<close>.\<close>

fun ENV_VAR_NAME_PATTERN :: "string \<Rightarrow> bool" where
  "ENV_VAR_NAME_PATTERN [] = False"
| "ENV_VAR_NAME_PATTERN (c # cs) = (env_head c \<and> list_all env_char cs)"

datatype env_name_result = Env_ok | Invalid_format | Reserved

definition validateEnvVarName :: "string \<Rightarrow> env_name_result" where
  "validateEnvVarName n =
     (if \<not> ENV_VAR_NAME_PATTERN n then Invalid_format
      else if n \<in> set RESERVED_ENV_KEYS then Reserved else Env_ok)"

text \<open>\<open>s.replace(/P+/g, "_")\<close>.\<close>

function replace_runs :: "(char \<Rightarrow> bool) \<Rightarrow> string \<Rightarrow> string" where
  "replace_runs P [] = []"
| "replace_runs P (c # cs) =
     (if P c then CHR ''_'' # replace_runs P (dropWhile P cs) else c # replace_runs P cs)"
  by pat_completeness auto
termination
  by (relation "measure (\<lambda>(P, s). length s)") (auto simp: le_imp_less_Suc length_dropWhile_le)

definition underscore :: "char \<Rightarrow> bool" where
  "underscore c = (c = CHR ''_'')"

text \<open>The Unicode upper-case mapping is the first argument.\<close>

definition labelToEnvKey :: "(string \<Rightarrow> string) \<Rightarrow> string \<Rightarrow> string" where
  "labelToEnvKey toUpperCase label =
     (if label = [] then [] else
      let n1 = replace_runs (\<lambda>c. \<not> env_char c) (toUpperCase label);
          n2 = replace_runs underscore n1;
          n3 = (if n2 \<noteq> [] \<and> underscore (hd n2) \<and> length n2 > 1
                then CHR ''_'' # dropWhile underscore n2 else n2);
          n4 = (if n3 \<noteq> [] \<and> underscore (last n3) \<and> length n3 > 1
                then rev (dropWhile underscore (rev n3)) else n3) in
      if n4 = ''_'' then [] else
      let n5 = (if n4 \<noteq> [] \<and> between (CHR ''0'') (CHR ''9'') (hd n4) then CHR ''_'' # n4 else n4) in
      if \<not> ENV_VAR_NAME_PATTERN n5 then [] else n5)"

text \<open>The result is empty exactly when the label has no letter and no digit; otherwise it is a valid
  name in normal form: no two adjacent underscores, none at the end.\<close>

fun no_adjacent :: "string \<Rightarrow> bool" where
  "no_adjacent (x # y # r) = (\<not> (underscore x \<and> underscore y) \<and> no_adjacent (y # r))"
| "no_adjacent _ = True"

definition alnum :: "char \<Rightarrow> bool" where
  "alnum c = (env_char c \<and> \<not> underscore c)"

lemma filter_dropWhile:
  "(\<And>c. P c \<Longrightarrow> \<not> Q c) \<Longrightarrow> filter Q (dropWhile P s) = filter Q s"
  by (induction s) auto

lemma not_alnum_underscore [simp]: "\<not> alnum (CHR ''_'')" "underscore (CHR ''_'')"
  by (simp_all add: alnum_def underscore_def)

lemma env_char_underscore [simp]: "env_char (CHR ''_'')"
  by (simp add: env_char_def env_head_def)

lemma replace_runs_filter:
  "(\<And>c. P c \<Longrightarrow> \<not> alnum c) \<Longrightarrow> filter alnum (replace_runs P s) = filter alnum s"
  by (induction P s rule: replace_runs.induct) (simp_all add: filter_dropWhile)

lemma replace_runs_env:
  "c \<in> set (replace_runs P s) \<Longrightarrow> c = CHR ''_'' \<or> (\<not> P c \<and> c \<in> set s)"
  by (induction P s rule: replace_runs.induct) (auto split: if_splits dest: set_dropWhileD)

lemma replace_runs_no_adjacent: "no_adjacent (replace_runs underscore s)"
proof (induction underscore s rule: replace_runs.induct)
  case (2 c cs)
  show ?case
  proof (cases "underscore c")
    case True
    have "\<not> underscore y" if "replace_runs underscore (dropWhile underscore cs) = y # r" for y r
    proof (cases "dropWhile underscore cs")
      case (Cons z t)
      then have "\<not> underscore z" by (metis dropWhile_eq_Cons_conv)
      moreover have "replace_runs underscore (z # t) = y # r" using that unfolding Cons .
      ultimately show ?thesis by simp
    next
      case Nil
      then have "replace_runs underscore [] = y # r" using that by (simp only:)
      then show ?thesis by simp
    qed
    with True 2 show ?thesis
      by (cases "replace_runs underscore (dropWhile underscore cs)") auto
  next
    case False
    with 2 show ?thesis by (cases "replace_runs underscore cs") auto
  qed
qed simp

lemma no_adjacent_tl: "no_adjacent (x # r) \<Longrightarrow> no_adjacent r"
  by (cases r) auto

lemma no_adjacent_append: "no_adjacent (a @ b) \<Longrightarrow> no_adjacent a"
  by (induction a rule: no_adjacent.induct) (auto dest: no_adjacent_tl)

lemma no_adjacent_strip_front:
  "no_adjacent (x # r) \<Longrightarrow> underscore x \<Longrightarrow> dropWhile underscore r = r"
  by (cases r) auto

lemma no_adjacent_snoc: "no_adjacent (a @ [x, y]) \<Longrightarrow> \<not> (underscore x \<and> underscore y)"
  by (induction a rule: no_adjacent.induct) (auto dest: no_adjacent_tl)

text \<open>After the two replacements only one trailing underscore can be left to remove.\<close>

definition trim_last :: "string \<Rightarrow> string" where
  "trim_last s = (if s \<noteq> [] \<and> underscore (last s) \<and> length s > 1 then butlast s else s)"

lemma strip_back_no_adjacent:
  assumes "no_adjacent s"
  shows "(if s \<noteq> [] \<and> underscore (last s) \<and> length s > 1
          then rev (dropWhile underscore (rev s)) else s) = trim_last s"
proof (cases "s \<noteq> [] \<and> underscore (last s) \<and> length s > 1")
  case True
  then obtain a x y where s: "s = a @ [x, y]"
    by (cases s rule: rev_cases; cases "butlast s" rule: rev_cases) auto
  with True assms have "\<not> underscore x" "underscore y" using no_adjacent_snoc by auto
  with s show ?thesis by (simp add: trim_last_def butlast_append)
qed (auto simp: trim_last_def)

lemma strip_front_no_adjacent:
  "no_adjacent s \<Longrightarrow> (if s \<noteq> [] \<and> underscore (hd s) \<and> length s > 1
     then CHR ''_'' # dropWhile underscore s else s) = s"
  by (cases s) (auto simp: no_adjacent_strip_front, auto simp: underscore_def)

lemma trim_last_no_adjacent: "no_adjacent s \<Longrightarrow> no_adjacent (trim_last s)"
  by (cases s rule: rev_cases) (auto simp: trim_last_def dest: no_adjacent_append)

lemma trim_last_filter: "filter alnum (trim_last s) = filter alnum s"
  by (cases s rule: rev_cases) (auto simp: trim_last_def alnum_def)

lemma trim_last_last: "no_adjacent s \<Longrightarrow> length (trim_last s) > 1 \<Longrightarrow> \<not> underscore (last (trim_last s))"
proof -
  assume a: "no_adjacent s" "length (trim_last s) > 1"
  show ?thesis
  proof (cases "s \<noteq> [] \<and> underscore (last s) \<and> length s > 1")
    case True
    then obtain b x y where s: "s = b @ [x, y]"
      by (cases s rule: rev_cases; cases "butlast s" rule: rev_cases) auto
    with True a no_adjacent_snoc [of b x y] show ?thesis by (simp add: trim_last_def butlast_append)
  qed (use a in \<open>auto simp: trim_last_def\<close>)
qed

lemma set_trim_last: "set (trim_last s) \<subseteq> set s"
  by (auto simp: trim_last_def dest: in_set_butlastD)

text \<open>The normal form of an upper-cased label, before the digit prefix.\<close>

definition env_core :: "string \<Rightarrow> string" where
  "env_core u = trim_last (replace_runs underscore (replace_runs (\<lambda>c. \<not> env_char c) u))"

lemma env_core_facts:
  shows "no_adjacent (env_core u)" and "filter alnum (env_core u) = filter alnum u"
    and "list_all env_char (env_core u)"
    and "length (env_core u) > 1 \<Longrightarrow> \<not> underscore (last (env_core u))"
proof -
  let ?a = "replace_runs (\<lambda>c. \<not> env_char c) u"
  let ?b = "replace_runs underscore ?a"
  show "no_adjacent (env_core u)"
    by (simp add: env_core_def trim_last_no_adjacent replace_runs_no_adjacent)
  show "length (env_core u) > 1 \<Longrightarrow> \<not> underscore (last (env_core u))"
    by (simp add: env_core_def trim_last_last replace_runs_no_adjacent)
  show "filter alnum (env_core u) = filter alnum u"
    by (simp add: env_core_def trim_last_filter) (simp add: replace_runs_filter alnum_def)
  have "env_char c" if "c \<in> set (env_core u)" for c
  proof -
    have "c \<in> set ?b" using that set_trim_last by (auto simp: env_core_def)
    then show ?thesis by (auto dest!: replace_runs_env)
  qed
  then show "list_all env_char (env_core u)" by (simp add: list_all_iff)
qed

lemma no_alnum_core:
  assumes "no_adjacent s" "list_all env_char s" "filter alnum s = []"
  shows "s = [] \<or> s = ''_''"
proof -
  have us: "\<And>c. c \<in> set s \<Longrightarrow> underscore c"
    using assms(2,3) by (auto simp: filter_empty_conv alnum_def list_all_iff)
  then show ?thesis
    using assms(1) by (cases s rule: no_adjacent.cases) (auto simp: underscore_def)
qed

lemma labelToEnvKey_core:
  "labelToEnvKey up label =
     (let c = env_core (up label) in
      if label = [] \<or> c = [] \<or> c = ''_'' then []
      else if between (CHR ''0'') (CHR ''9'') (hd c) then CHR ''_'' # c else c)"
proof (cases "label = []")
  case False
  let ?n2 = "replace_runs underscore (replace_runs (\<lambda>c. \<not> env_char c) (up label))"
  have na: "no_adjacent ?n2" by (rule replace_runs_no_adjacent)
  have c: "labelToEnvKey up label =
     (let n4 = env_core (up label) in
      if n4 = ''_'' then [] else
      let n5 = (if n4 \<noteq> [] \<and> between (CHR ''0'') (CHR ''9'') (hd n4) then CHR ''_'' # n4 else n4) in
      if \<not> ENV_VAR_NAME_PATTERN n5 then [] else n5)"
    using False strip_back_no_adjacent [OF na]
    unfolding labelToEnvKey_def Let_def strip_front_no_adjacent [OF na] env_core_def by simp
  show ?thesis
  proof (cases "env_core (up label)")
    case Nil
    then show ?thesis using c by simp
  next
    case (Cons x r)
    then have "env_char x" "list_all env_char r" using env_core_facts(3) [of "up label"] by auto
    then show ?thesis using False c Cons
      by (simp add: Let_def) (auto simp: env_char_def env_head_def)
  qed
qed (simp add: labelToEnvKey_def)

text \<open>\<open>labelToEnvKey\<close> (for any upper-casing function) fails, with the empty string, exactly
  on a label without a letter or digit; otherwise its result is a valid environment variable name
  in which underscores are collapsed and which does not end in one.\<close>

lemma labelToEnvKey_normal_form:
  "(labelToEnvKey up label = [] \<longleftrightarrow> label = [] \<or> filter alnum (up label) = []) \<and>
   (labelToEnvKey up label = [] \<or>
    (ENV_VAR_NAME_PATTERN (labelToEnvKey up label) \<and> no_adjacent (labelToEnvKey up label) \<and>
     \<not> underscore (last (labelToEnvKey up label))))"
proof -
  let ?c = "env_core (up label)"
  note facts = env_core_facts [of "up label"]
  have e: "?c = [] \<or> ?c = ''_'' \<longleftrightarrow> filter alnum (up label) = []"
    using no_alnum_core [OF facts(1,3)] facts(2) by auto
  show ?thesis
  proof (cases "label = [] \<or> ?c = [] \<or> ?c = ''_''")
    case True
    with e show ?thesis by (auto simp: labelToEnvKey_core Let_def)
  next
    case False
    then obtain x r where c: "?c = x # r" by (cases ?c) auto
    then have env: "env_char x" "list_all env_char r" using facts(3) by auto
    have l: "\<not> underscore (last (x # r))"
      using facts(4) False c by (cases r) (auto simp: underscore_def)
    have d: "\<not> underscore x" if "between (CHR ''0'') (CHR ''9'') x"
      using that by (auto simp: underscore_def between_def)
    show ?thesis
      using False e env l d facts(1) c
      by (auto simp: labelToEnvKey_core Let_def env_char_def env_head_def)
  qed
qed

text \<open>Names in normal form are fixed points.\<close>

lemma replace_runs_id: "list_all (\<lambda>c. \<not> P c) s \<Longrightarrow> replace_runs P s = s"
  by (induction P s rule: replace_runs.induct) auto

lemma replace_underscore_id: "no_adjacent s \<Longrightarrow> replace_runs underscore s = s"
proof (induction s)
  case (Cons c s)
  then have IH: "replace_runs underscore s = s" by (blast dest: no_adjacent_tl)
  show ?case
  proof (cases "underscore c")
    case True
    with Cons.prems have "dropWhile underscore s = s" by (blast intro: no_adjacent_strip_front)
    with True IH have "replace_runs underscore (c # s) = CHR ''_'' # s" by simp
    moreover have "c = CHR ''_''" using True by (simp only: underscore_def)
    ultimately show ?thesis by (simp only:)
  next
    case False
    with IH show ?thesis by simp
  qed
qed simp

lemma env_core_id:
  assumes "list_all env_char k" "no_adjacent k" "k = [] \<or> \<not> underscore (last k)"
  shows "env_core k = k"
  using assms by (auto simp: env_core_def replace_runs_id replace_underscore_id trim_last_def)

end
