(* ===== verification/Access_Pipeline.thy ===== *)
theory Access_Pipeline
  imports Audit_Log Server_Envelope Secret_Delivery Constraints
begin

text \<open>
  The unified access pipeline (\<open>packages/trpc/src/server/routers/access/pipeline.ts\<close>):
  \<open>resolveAccess\<close> for one item and \<open>resolveProfileAccess\<close> for every item of a profile, in the
  order of the code: load, constraint, permission, expiry, then the branch on the action and the
  storage mode. The WebCrypto primitives and \<open>JSON.parse\<close> are the fields of a \<open>runtime\<close>.
\<close>

section \<open>Request context\<close>

record runtime =
  rt_crypto :: webcrypto
  rt_JSON_parse :: "string \<Rightarrow> json option"

text \<open>\<open>AgentRequestContext\<close>: the authenticated agent, the caller's address and the master key.\<close>

record agent_ctx =
  cx_orgId :: string
  cx_userId :: "string option"
  cx_agentId :: string
  cx_locality :: agent_locality
  cx_ip :: "string option"
  cx_ENCRYPTION_KEY :: string

definition agent_entry ::
  "agent_ctx \<Rightarrow> string option \<Rightarrow> audit_event \<Rightarrow> audit_result \<Rightarrow> json_object option \<Rightarrow> audit_entry" where
  "agent_entry cx itemId ev res meta = (entry (cx_orgId cx) (cx_userId cx) ev res)
     \<lparr>ae_agentId := Some (cx_agentId cx), ae_itemId := itemId, ae_ipAddress := cx_ip cx,
      ae_meta := meta\<rparr>"

text \<open>Log one row and fail: the shape of every refusal.\<close>

definition deny :: "audit_entry \<Rightarrow> err \<Rightarrow> 'a server" where
  "deny e x = followed_by (logAgentAudit e) (fail_with x)"

section \<open>Inputs and results\<close>

record access_input =
  in_itemId :: string
  in_action :: action
  in_delivery :: "delivery_mode option"
  in_field :: "string option"
  in_envVarName :: "string option"
  in_purpose :: "string option"

record zk_envelope =
  zk_encryptedItemKey :: string
  zk_ciphertext :: string
  zk_cryptoVersion :: int
  zk_itemId :: string
  zk_profileId :: string
  zk_contentVersion :: int

record use_result =
  ur_itemId :: string
  ur_mountId :: string
  ur_delivery :: delivery_mode
  ur_expiresAt :: int

datatype access_result =
    Read_server item_payload
  | Read_zk zk_envelope
  | Use_mount use_result

fun eventTypeForAction :: "action \<Rightarrow> delivery_mode option \<Rightarrow> audit_event" where
  "eventTypeForAction Act_read _ = Ev_access_reveal"
| "eventTypeForAction Act_use (Some File) = Ev_access_mount_file"
| "eventTypeForAction Act_use _ = Ev_access_mount_env"

fun delivery_name :: "delivery_mode \<Rightarrow> string" where
  "delivery_name Env = ''env''"
| "delivery_name File = ''file''"

definition MOUNT_TTL_MS :: int where
  "MOUNT_TTL_MS = 5 * 60 * 1000"

definition generateMountId :: "string server" where
  "generateMountId = andThen randomUUID (\<lambda>u. succeed (''mnt_'' @ u))"

section \<open>Permission lookup\<close>

record permission_match =
  pm_id :: string
  pm_expiresAt :: "int option"
  pm_capability :: capability
  pm_viaProfileGrant :: bool

definition grant_covers :: "string \<Rightarrow> string \<Rightarrow> string option \<Rightarrow> action \<Rightarrow> permission_row \<Rightarrow> bool" where
  "grant_covers agentId itemId profileId a p =
     (perm_agentId p = agentId \<and> perm_capability p \<in> set (legacyCapsForAction a) \<and>
      (perm_itemId p = Some itemId \<or> (profileId \<noteq> None \<and> perm_profileId p = profileId)))"

definition grant_rows :: "string \<Rightarrow> string \<Rightarrow> string \<Rightarrow> string option \<Rightarrow> action \<Rightarrow> db \<Rightarrow> permission_row list" where
  "grant_rows orgId agentId itemId profileId a d =
     findMany perm_org orgId (grant_covers agentId itemId profileId a) (tbl_permissions d)"

definition not_expired :: "int \<Rightarrow> permission_row \<Rightarrow> bool" where
  "not_expired now p = (case perm_expiresAt p of None \<Rightarrow> True | Some t \<Rightarrow> t > now)"

text \<open>The sort puts item-level rows first and is stable.\<close>

definition item_level_first :: "permission_row list \<Rightarrow> permission_row list" where
  "item_level_first rows =
     filter (\<lambda>p. truthy (perm_itemId p)) rows @ filter (\<lambda>p. falsy (perm_itemId p)) rows"

definition pick_grant :: "int \<Rightarrow> permission_row list \<Rightarrow> permission_row" where
  "pick_grant now rows =
     (let nonExpired = filter (not_expired now) rows;
          pool = (if nonExpired \<noteq> [] then nonExpired else rows)
      in hd (item_level_first pool))"

definition match_of :: "permission_row \<Rightarrow> permission_match" where
  "match_of p = \<lparr>pm_id = perm_id p, pm_expiresAt = perm_expiresAt p,
     pm_capability = perm_capability p, pm_viaProfileGrant = (perm_itemId p = None)\<rparr>"

definition lookupPermission ::
  "agent_ctx \<Rightarrow> string \<Rightarrow> string \<Rightarrow> string option \<Rightarrow> action \<Rightarrow> permission_match option server" where
  "lookupPermission cx agentId itemId profileId a =
     andThen (select (grant_rows (cx_orgId cx) agentId itemId profileId a)) (\<lambda>rows.
       if rows = [] then succeed None
       else andThen new_Date (\<lambda>now. succeed (Some (match_of (pick_grant now rows)))))"

section \<open>Items\<close>

definition live_item :: "string \<Rightarrow> string \<Rightarrow> db \<Rightarrow> item_row option" where
  "live_item orgId itemId d =
     findFirst item_org orgId (\<lambda>i. item_id i = itemId \<and> item_deletedAt i = None) (tbl_items d)"

definition loadItem :: "agent_ctx \<Rightarrow> string \<Rightarrow> item_row option server" where
  "loadItem cx itemId = select (live_item (cx_orgId cx) itemId)"

text \<open>\<open>!item.serverCiphertext || !item.serverIv || item.serverKeyVersion == null\<close>.\<close>

definition no_server_data :: "item_row \<Rightarrow> bool" where
  "no_server_data item = (falsy (item_serverCiphertext item) \<or> falsy (item_serverIv item) \<or>
     item_serverKeyVersion item = None)"

text \<open>\<open>!item.profileId || !item.encryptedItemKey || !item.ciphertext\<close>.\<close>

definition no_zk_envelope :: "item_row \<Rightarrow> bool" where
  "no_zk_envelope item = (falsy (item_profileId item) \<or> falsy (item_encryptedItemKey item) \<or>
     falsy (item_ciphertext item))"

definition zk_of :: "item_row \<Rightarrow> zk_envelope" where
  "zk_of item = \<lparr>zk_encryptedItemKey = the (item_encryptedItemKey item),
     zk_ciphertext = the (item_ciphertext item), zk_cryptoVersion = item_cryptoVersion item,
     zk_itemId = item_id item, zk_profileId = the (item_profileId item),
     zk_contentVersion = item_contentVersion item\<rparr>"

definition reason :: "string \<Rightarrow> json_object" where
  "reason s = [(''reason'', JStr s)]"

definition decryptServerManaged :: "runtime \<Rightarrow> agent_ctx \<Rightarrow> item_row \<Rightarrow> audit_event \<Rightarrow> bytes server" where
  "decryptServerManaged rt cx item ev =
     (if no_server_data item then
        deny (agent_entry cx (Some (item_id item)) ev Denied
                (Some (reason ''item has no server-encrypted data'')))
          (integrity [(''itemId'', JStr (item_id item))])
      else decryptServerEnvelope (rt_crypto rt) (cx_ENCRYPTION_KEY cx) (cx_orgId cx) item None)"

section \<open>resolveAccess\<close>

text \<open>The four checks. Each refusal writes one row and fails.\<close>

definition require_item :: "agent_ctx \<Rightarrow> access_input \<Rightarrow> item_row option \<Rightarrow> item_row server" where
  "require_item cx inp found =
     (case found of
        None \<Rightarrow> deny (agent_entry cx (Some (in_itemId inp))
                  (eventTypeForAction (in_action inp) (in_delivery inp)) Denied
                  (Some (reason ''not_found''))) (notFound ''ITEM_NOT_FOUND'')
      | Some item \<Rightarrow> succeed item)"

definition require_constraint :: "agent_ctx \<Rightarrow> audit_entry \<Rightarrow> action \<Rightarrow> item_row \<Rightarrow> unit server" where
  "require_constraint cx e a item =
     tap_error (lift_result (checkActionConstraint a (cx_locality cx) (item_storageMode item)))
       (\<lambda>err. if is_class ForbiddenError err
              then logAgentAudit (e\<lparr>ae_meta := Some [(''reason'', JStr (err_code err)),
                     (''action'', JStr (action_name a)),
                     (''storageMode'', JStr (mode_name (item_storageMode item)))]\<rparr>)
              else succeed ())"

definition require_grant ::
  "agent_ctx \<Rightarrow> audit_entry \<Rightarrow> json_object \<Rightarrow> action \<Rightarrow> string \<Rightarrow> permission_match option \<Rightarrow>
   permission_match server" where
  "require_grant cx e extra a itemId found =
     (case found of
        None \<Rightarrow> deny (e\<lparr>ae_result := Denied, ae_meta := Some ([(''reason'', JStr ''no_permission''),
                    (''action'', JStr (action_name a))] @ extra)\<rparr>)
                  (forbidden ''PERMISSION_DENIED'' (buildPermissionDeniedMeta (Some itemId)
                     (Some (cx_agentId cx)) (Some (action_capability a)) (Some (action_name a))))
      | Some perm \<Rightarrow>
          (let expired = deny (e\<lparr>ae_result := Expired,
                     ae_meta := Some ([(''permissionId'', JStr (pm_id perm))] @ extra)\<rparr>)
                   (forbidden ''PERMISSION_EXPIRED'' []) in
           case pm_expiresAt perm of
             None \<Rightarrow> succeed perm
           | Some t \<Rightarrow> andThen new_Date (\<lambda>now. if t < now then expired else succeed perm)))"

text \<open>The row of an allowed access.\<close>

definition allowed_entry ::
  "agent_ctx \<Rightarrow> access_input \<Rightarrow> item_row \<Rightarrow> audit_event \<Rightarrow> string \<Rightarrow> json_object \<Rightarrow> audit_entry" where
  "allowed_entry cx inp item ev mode meta =
     (agent_entry cx (Some (in_itemId inp)) ev Allowed (Some meta))
       \<lparr>ae_profileId := item_profileId item, ae_deliveryMode := Some mode,
        ae_field := Some (orElse (in_field inp) ''__default__''), ae_purpose := in_purpose inp\<rparr>"

definition read_meta :: "permission_match \<Rightarrow> json_object" where
  "read_meta perm = [(''action'', JStr ''read''), (''viaProfileGrant'', JBool (pm_viaProfileGrant perm))]"

definition read_server ::
  "runtime \<Rightarrow> agent_ctx \<Rightarrow> access_input \<Rightarrow> item_row \<Rightarrow> permission_match \<Rightarrow> access_result server" where
  "read_server rt cx inp item perm =
     andThen (tap_error (decryptServerManaged rt cx item Ev_access_reveal)
        (\<lambda>err. if \<not> is_class IntegrityError err
               then logAgentAudit ((agent_entry cx (Some (in_itemId inp)) Ev_access_reveal Denied
                      (Some [(''reason'', JStr ''decrypt_failed''), (''action'', JStr ''read'')]))
                      \<lparr>ae_profileId := item_profileId item\<rparr>)
               else succeed ())) (\<lambda>decrypted.
     let payload = decodeServerManagedPayload (rt_JSON_parse rt) (item_id item) (decode_text decrypted) in
     andThen (if truthy (in_field inp)
              then andThen (lift_result (resolveFieldValue payload (in_field inp)))
                     (\<lambda>v. succeed (payload\<lparr>pl_fields := [(the (in_field inp), JStr v)]\<rparr>))
              else succeed payload) (\<lambda>delivered.
     followed_by (logAgentAudit (allowed_entry cx inp item Ev_access_reveal ''reveal'' (read_meta perm)))
       (succeed (Read_server delivered))))"

definition read_zk ::
  "agent_ctx \<Rightarrow> access_input \<Rightarrow> item_row \<Rightarrow> permission_match \<Rightarrow> access_result server" where
  "read_zk cx inp item perm =
     (if no_zk_envelope item then
        deny (agent_entry cx (Some (in_itemId inp)) Ev_access_reveal Denied
               (Some (reason ''zk item missing envelope or profile binding'')))
          (integrity [(''itemId'', JStr (in_itemId inp))])
      else followed_by
        (logAgentAudit (allowed_entry cx inp item Ev_access_reveal ''reveal'' (read_meta perm)))
        (succeed (Read_zk (zk_of item))))"

definition new_reservation ::
  "agent_ctx \<Rightarrow> string \<Rightarrow> delivery_mode \<Rightarrow> string option \<Rightarrow> string option \<Rightarrow> string \<Rightarrow> string \<Rightarrow> int \<Rightarrow>
   reservation_row" where
  "new_reservation cx itemId delivery field envVarName rid mountId expiresAt =
     \<lparr>res_id = rid, res_mountId = mountId, res_itemId = itemId, res_agentId = cx_agentId cx,
      res_delivery = delivery, res_field = field, res_envVarName = envVarName,
      res_expiresAt = expiresAt, res_consumedAt = None\<rparr>"

definition use_entry ::
  "agent_ctx \<Rightarrow> access_input \<Rightarrow> item_row \<Rightarrow> permission_match \<Rightarrow> delivery_mode \<Rightarrow> string \<Rightarrow> audit_entry" where
  "use_entry cx inp item perm delivery mountId =
     allowed_entry cx inp item (eventTypeForAction (in_action inp) (in_delivery inp))
       (''mount_'' @ delivery_name delivery)
       [(''action'', JStr ''use''), (''viaProfileGrant'', JBool (pm_viaProfileGrant perm)),
        (''mountId'', JStr mountId)]"

text \<open>The reservation and its audit row are written in one transaction.\<close>

definition use_item ::
  "agent_ctx \<Rightarrow> access_input \<Rightarrow> item_row \<Rightarrow> permission_match \<Rightarrow> access_result server" where
  "use_item cx inp item perm =
     (case in_delivery inp of
        None \<Rightarrow> fail_with (PlainErr ''internal: delivery required for action=use'')
      | Some delivery \<Rightarrow>
          andThen generateMountId (\<lambda>mountId.
          andThen new_Date (\<lambda>now.
          let expiresAt = now + MOUNT_TTL_MS in
          followed_by (transaction (andThen randomUUID (\<lambda>rid.
             followed_by (statement (insert_reservations [new_reservation cx (in_itemId inp) delivery
                  (in_field inp) (in_envVarName inp) rid mountId expiresAt]))
               (insert_audit [buildAuditRow (use_entry cx inp item perm delivery mountId)]))))
            (succeed (Use_mount \<lparr>ur_itemId = in_itemId inp, ur_mountId = mountId,
                ur_delivery = delivery, ur_expiresAt = expiresAt\<rparr>)))))"

definition deliver ::
  "runtime \<Rightarrow> agent_ctx \<Rightarrow> access_input \<Rightarrow> item_row \<Rightarrow> permission_match \<Rightarrow> access_result server" where
  "deliver rt cx inp item perm =
     (case in_action inp of
        Act_read \<Rightarrow> (case item_storageMode item of
            Server_managed \<Rightarrow> read_server rt cx inp item perm
          | Zero_knowledge \<Rightarrow> read_zk cx inp item perm)
      | Act_use \<Rightarrow> use_item cx inp item perm)"

definition resolveAccess :: "runtime \<Rightarrow> agent_ctx \<Rightarrow> access_input \<Rightarrow> access_result server" where
  "resolveAccess rt cx inp =
     (let e = agent_entry cx (Some (in_itemId inp))
                (eventTypeForAction (in_action inp) (in_delivery inp)) Denied None in
      andThen (loadItem cx (in_itemId inp)) (\<lambda>found.
      andThen (require_item cx inp found) (\<lambda>item.
      followed_by (require_constraint cx e (in_action inp) item)
      (andThen (lookupPermission cx (cx_agentId cx) (in_itemId inp) (item_profileId item) (in_action inp))
        (\<lambda>found_perm.
      andThen (require_grant cx e [] (in_action inp) (in_itemId inp) found_perm)
        (\<lambda>perm. deliver rt cx inp item perm))))))"

section \<open>resolveProfileAccess\<close>

record profile_input =
  pi_profileId :: string
  pi_action :: action
  pi_delivery :: delivery_mode
  pi_purpose :: "string option"

record staged =
  pendingReservations :: "reservation_row list"
  pendingAudits :: "audit_entry list"
  responseItems :: "use_result list"

definition MAX_PROFILE_USE_ITEMS :: nat where
  "MAX_PROFILE_USE_ITEMS = 256"

definition profile_exists :: "string \<Rightarrow> string \<Rightarrow> db \<Rightarrow> bool" where
  "profile_exists orgId profileId d =
     (findFirst prof_org orgId (\<lambda>p. prof_id p = profileId) (tbl_profiles d) \<noteq> None)"

definition profile_items :: "string \<Rightarrow> string \<Rightarrow> db \<Rightarrow> item_row list" where
  "profile_items orgId profileId d =
     findMany item_org orgId (\<lambda>i. item_profileId i = Some profileId \<and> item_deletedAt i = None) (tbl_items d)"

definition bulk_entry :: "agent_ctx \<Rightarrow> profile_input \<Rightarrow> item_row \<Rightarrow> audit_entry" where
  "bulk_entry cx pin item =
     (agent_entry cx (Some (item_id item))
        (eventTypeForAction (pi_action pin) (Some (pi_delivery pin))) Denied None)
       \<lparr>ae_profileId := item_profileId item\<rparr>"

text \<open>The three arrays grow in lockstep.\<close>

definition push_allowed ::
  "agent_ctx \<Rightarrow> profile_input \<Rightarrow> item_row \<Rightarrow> permission_match \<Rightarrow> string \<Rightarrow> int \<Rightarrow> string \<Rightarrow> staged \<Rightarrow> staged" where
  "push_allowed cx pin item perm mountId expiresAt rid st =
     \<lparr>pendingReservations = pendingReservations st @
        [new_reservation cx (item_id item) (pi_delivery pin) None None rid mountId expiresAt],
      pendingAudits = pendingAudits st @
        [(bulk_entry cx pin item)\<lparr>ae_result := Allowed,
           ae_deliveryMode := Some (''mount_'' @ delivery_name (pi_delivery pin)),
           ae_purpose := pi_purpose pin,
           ae_meta := Some [(''action'', JStr ''use''),
             (''viaProfileGrant'', JBool (pm_viaProfileGrant perm)), (''viaBulk'', JBool True),
             (''mountId'', JStr mountId)]\<rparr>],
      responseItems = responseItems st @
        [\<lparr>ur_itemId = item_id item, ur_mountId = mountId, ur_delivery = pi_delivery pin,
          ur_expiresAt = expiresAt\<rparr>]\<rparr>"

text \<open>One turn of the loop: the three checks, then the staged reservation, row and answer.\<close>

definition stage_item ::
  "agent_ctx \<Rightarrow> profile_input \<Rightarrow> item_row \<Rightarrow> staged \<Rightarrow> staged server" where
  "stage_item cx pin item st =
     followed_by (require_constraint cx (bulk_entry cx pin item) (pi_action pin) item)
     (andThen (lookupPermission cx (cx_agentId cx) (item_id item) (item_profileId item) (pi_action pin))
       (\<lambda>found.
     andThen (require_grant cx (bulk_entry cx pin item) [(''viaBulk'', JBool True)] (pi_action pin)
               (item_id item) found) (\<lambda>perm.
     andThen generateMountId (\<lambda>mountId.
     andThen new_Date (\<lambda>now.
     andThen randomUUID (\<lambda>rid.
       succeed (push_allowed cx pin item perm mountId (now + MOUNT_TTL_MS) rid st)))))))"

fun stage_items :: "agent_ctx \<Rightarrow> profile_input \<Rightarrow> item_row list \<Rightarrow> staged \<Rightarrow> staged server" where
  "stage_items cx pin [] st = succeed st"
| "stage_items cx pin (item # rows) st = andThen (stage_item cx pin item st) (stage_items cx pin rows)"

definition flush_staged :: "staged \<Rightarrow> unit server" where
  "flush_staged st =
     (if pendingReservations st \<noteq> [] then
        transaction (followed_by (statement (insert_reservations (pendingReservations st)))
          (if pendingAudits st \<noteq> [] then insert_audit (map buildAuditRow (pendingAudits st))
           else succeed ()))
      else succeed ())"

definition no_staged :: staged where
  "no_staged = \<lparr>pendingReservations = [], pendingAudits = [], responseItems = []\<rparr>"

definition resolveProfileAccess :: "agent_ctx \<Rightarrow> profile_input \<Rightarrow> use_result list server" where
  "resolveProfileAccess cx pin =
     andThen (select (profile_exists (cx_orgId cx) (pi_profileId pin))) (\<lambda>found.
       if \<not> found then fail_with (notFound ''PROFILE_NOT_FOUND'')
       else andThen (select (\<lambda>d. take (MAX_PROFILE_USE_ITEMS + 1)
                (profile_items (cx_orgId cx) (pi_profileId pin) d))) (\<lambda>rows.
         if length rows > MAX_PROFILE_USE_ITEMS
         then fail_with (forbidden ''PERMISSION_DENIED'' [(''limit'', JNum (int MAX_PROFILE_USE_ITEMS))])
         else andThen (stage_items cx pin rows no_staged) (\<lambda>st.
           followed_by (flush_staged st) (succeed (responseItems st)))))"

section \<open>The decision\<close>

text \<open>
  The decision of the pipeline as a function of the store and of two readings of the clock: the one
  that ranks the grants and the one that tests the chosen grant.
\<close>

datatype verdict =
    V_not_found
  | V_illegal err item_row
  | V_no_grant
  | V_expired permission_match
  | V_granted item_row permission_match

definition authorize :: "agent_ctx \<Rightarrow> access_input \<Rightarrow> db \<Rightarrow> int \<Rightarrow> int \<Rightarrow> verdict" where
  "authorize cx inp d now now' =
     (case live_item (cx_orgId cx) (in_itemId inp) d of
        None \<Rightarrow> V_not_found
      | Some item \<Rightarrow>
          (case checkActionConstraint (in_action inp) (cx_locality cx) (item_storageMode item) of
             Inl e \<Rightarrow> V_illegal e item
           | Inr _ \<Rightarrow>
               (let rows = grant_rows (cx_orgId cx) (cx_agentId cx) (in_itemId inp)
                             (item_profileId item) (in_action inp) d;
                    perm = match_of (pick_grant now rows) in
                if rows = [] then V_no_grant
                else case pm_expiresAt perm of
                    None \<Rightarrow> V_granted item perm
                  | Some t \<Rightarrow> if t < now' then V_expired perm else V_granted item perm)))"

definition advance :: "nat \<Rightarrow> nat \<Rightarrow> world \<Rightarrow> world" where
  "advance s t w = w\<lparr>stmts := stmts w + s, ticks := ticks w + t\<rparr>"

lemma advance_sels [simp]:
  "store (advance s t w) = store w" "faults (advance s t w) = faults w"
  "stmts (advance s t w) = stmts w + s" "ticks (advance s t w) = ticks w + t"
  "clock (advance s t w) = clock w" "draws (advance s t w) = draws w"
  "uuids (advance s t w) = uuids w" "mirror (advance s t w) = mirror w"
  by (simp_all add: advance_def)

lemma advance_advance [simp]: "advance s t (advance s' t' w) = advance (s' + s) (t' + t) w"
  by (simp add: advance_def add.assoc)

lemma tick_advance [simp]:
  "(advance s t w)\<lparr>ticks := Suc (ticks w)\<rparr> = advance s 1 w"
  "(advance s t w)\<lparr>ticks := Suc (Suc (ticks w))\<rparr> = advance s 2 w"
  by (simp_all add: advance_def)

definition grant_ticks :: "permission_match \<Rightarrow> nat" where
  "grant_ticks m = (if pm_expiresAt m = None then 1 else 2)"

lemma loadItem_ok:
  "loadItem cx i w = (Inr r, w') \<longleftrightarrow> faults w (stmts w) = None \<and>
     r = live_item (cx_orgId cx) i (store w) \<and> w' = advance 1 0 w"
  by (auto simp: loadItem_def select_ok advance_def)

lemma lookupPermission_eq:
  assumes "faults w (stmts w) = None"
  shows "lookupPermission cx ag i p a w =
     (let rows = grant_rows (cx_orgId cx) ag i p a (store w) in
      if rows = [] then (Inr None, advance 1 0 w)
      else (Inr (Some (match_of (pick_grant (clock w (ticks w)) rows))), advance 1 1 w))"
  using assms
  by (simp add: lookupPermission_def select_def statement_def eff_defs advance_def Let_def)

lemma deny_eq: "deny e x w = (Inl x, snd (logAgentAudit e w))"
  by (simp add: deny_def agent_log.log_then_fail)

lemma require_constraint_eq:
  "require_constraint cx e a item w =
     (case checkActionConstraint a (cx_locality cx) (item_storageMode item) of
        Inl x \<Rightarrow> (Inl x, snd (logAgentAudit (e\<lparr>ae_meta := Some [(''reason'', JStr (err_code x)),
             (''action'', JStr (action_name a)),
             (''storageMode'', JStr (mode_name (item_storageMode item)))]\<rparr>) w))
      | Inr _ \<Rightarrow> (Inr (), w))"
proof (cases "checkActionConstraint a (cx_locality cx) (item_storageMode item)")
  case (Inl x)
  then have "is_class ForbiddenError x" by (auto dest!: checkActionConstraint_Inl)
  with Inl show ?thesis
    by (simp add: require_constraint_def tap_error_def lift_result_def agent_log.tap_fail)
qed (simp add: require_constraint_def tap_error_def lift_result_def)

text \<open>With both lookups answered, the pipeline does what the decision says.\<close>

lemma resolveAccess_refines:
  assumes "faults w (stmts w) = None" "faults w (Suc (stmts w)) = None"
  shows "resolveAccess rt cx inp w =
    (let e = agent_entry cx (Some (in_itemId inp))
               (eventTypeForAction (in_action inp) (in_delivery inp)) Denied None in
     case authorize cx inp (store w) (clock w (ticks w)) (clock w (Suc (ticks w))) of
       V_not_found \<Rightarrow> (Inl (notFound ''ITEM_NOT_FOUND''),
         snd (logAgentAudit (e\<lparr>ae_meta := Some (reason ''not_found'')\<rparr>) (advance 1 0 w)))
     | V_illegal x item \<Rightarrow> (Inl x, snd (logAgentAudit
         (e\<lparr>ae_meta := Some [(''reason'', JStr (err_code x)),
            (''action'', JStr (action_name (in_action inp))),
            (''storageMode'', JStr (mode_name (item_storageMode item)))]\<rparr>) (advance 1 0 w)))
     | V_no_grant \<Rightarrow> (Inl (forbidden ''PERMISSION_DENIED'' (buildPermissionDeniedMeta
            (Some (in_itemId inp)) (Some (cx_agentId cx))
            (Some (action_capability (in_action inp))) (Some (action_name (in_action inp))))),
         snd (logAgentAudit (e\<lparr>ae_meta := Some [(''reason'', JStr ''no_permission''),
            (''action'', JStr (action_name (in_action inp)))]\<rparr>) (advance 2 0 w)))
     | V_expired m \<Rightarrow> (Inl (forbidden ''PERMISSION_EXPIRED'' []),
         snd (logAgentAudit (e\<lparr>ae_result := Expired,
            ae_meta := Some [(''permissionId'', JStr (pm_id m))]\<rparr>) (advance 2 2 w)))
     | V_granted item m \<Rightarrow> deliver rt cx inp item m (advance 2 (grant_ticks m) w))"
proof -
  let ?e = "agent_entry cx (Some (in_itemId inp))
     (eventTypeForAction (in_action inp) (in_delivery inp)) Denied None"
  let ?w1 = "advance (Suc 0) 0 w"
  have load: "loadItem cx (in_itemId inp) w =
      (Inr (live_item (cx_orgId cx) (in_itemId inp) (store w)), ?w1)"
    using assms by (simp add: loadItem_ok)
  have f1: "faults ?w1 (stmts ?w1) = None" using assms by simp
  show ?thesis
  proof (cases "live_item (cx_orgId cx) (in_itemId inp) (store w)")
    case None
    with load show ?thesis
      by (simp add: resolveAccess_def Let_def andThen_def require_item_def deny_eq authorize_def
          agent_entry_def)
  next
    case (Some item)
    show ?thesis
    proof (cases "checkActionConstraint (in_action inp) (cx_locality cx) (item_storageMode item)")
      case (Inl x)
      with Some load show ?thesis
        by (simp add: resolveAccess_def Let_def andThen_def followed_by_def require_item_def
            require_constraint_eq authorize_def succeed_def)
    next
      case (Inr u)
      let ?rows = "grant_rows (cx_orgId cx) (cx_agentId cx) (in_itemId inp)
          (item_profileId item) (in_action inp) (store w)"
      show ?thesis
      proof (cases "?rows = []")
        case True
        with Inr Some load show ?thesis
          by (simp add: resolveAccess_def Let_def andThen_def followed_by_def require_item_def
              require_constraint_eq authorize_def succeed_def
              lookupPermission_eq [OF f1] require_grant_def deny_eq agent_entry_def entry_def numeral_2_eq_2)
      next
        case False
        with Inr Some load show ?thesis
          by (simp add: resolveAccess_def Let_def andThen_def followed_by_def require_item_def
              require_constraint_eq authorize_def succeed_def
              lookupPermission_eq [OF f1] require_grant_def deny_eq agent_entry_def entry_def numeral_2_eq_2
              grant_ticks_def split: option.splits)
      qed
    qed
  qed
qed

section \<open>What a refusal and a success leave behind\<close>

text \<open>A row that says this agent was refused this item.\<close>

definition refusal_row :: "agent_ctx \<Rightarrow> string \<Rightarrow> audit_row \<Rightarrow> bool" where
  "refusal_row cx itemId r =
     (au_org r = cx_orgId cx \<and> au_userId r = cx_userId cx \<and> au_agentId r = Some (cx_agentId cx) \<and>
      au_itemId r = Some itemId \<and> (au_result r = Denied \<or> au_result r = Expired))"

lemma agent_entry_sels [simp]:
  "ae_org (agent_entry cx i ev r m) = cx_orgId cx" "ae_userId (agent_entry cx i ev r m) = cx_userId cx"
  "ae_agentId (agent_entry cx i ev r m) = Some (cx_agentId cx)"
  "ae_itemId (agent_entry cx i ev r m) = i" "ae_eventType (agent_entry cx i ev r m) = ev"
  "ae_result (agent_entry cx i ev r m) = r" "ae_meta (agent_entry cx i ev r m) = m"
  by (simp_all add: agent_entry_def)

lemma keeps_deny:
  "P (buildAuditRow e) \<Longrightarrow> keeps (audits_where P) (deny e x)"
  by (simp add: deny_def keeps_audits agent_log.keeps_log_where)

lemma keeps_decryptServerManaged:
  assumes "item_id item = i"
  shows "keeps (audits_where (refusal_row cx i)) (decryptServerManaged rt cx item ev)"
  using assms
  by (auto simp: decryptServerManaged_def refusal_row_def keeps_same_where intro!: keeps_deny)

lemma keeps_require_item: "keeps (audits_where (refusal_row cx (in_itemId inp))) (require_item cx inp f)"
  by (auto simp: require_item_def refusal_row_def intro!: keeps_deny split: option.split)

lemma keeps_require_constraint:
  assumes "ae_org e = cx_orgId cx" "ae_userId e = cx_userId cx" "ae_agentId e = Some (cx_agentId cx)"
    "ae_itemId e = Some i" "ae_result e = Denied"
  shows "keeps (audits_where (refusal_row cx i)) (require_constraint cx e a item)"
  using assms
  by (auto simp: keeps_def require_constraint_eq refusal_row_def split: sum.split
      intro!: agent_log.log_where)

lemma keeps_lookupPermission: "keeps same_store (lookupPermission cx ag i p a)"
  by (auto simp: lookupPermission_def intro!: keeps_same)

lemma keeps_require_grant:
  assumes "ae_org e = cx_orgId cx" "ae_userId e = cx_userId cx" "ae_agentId e = Some (cx_agentId cx)"
    "ae_itemId e = Some i"
  shows "keeps (audits_where (refusal_row cx i)) (require_grant cx e extra a j found)"
  using assms
  by (auto simp: require_grant_def refusal_row_def Let_def keeps_same_where
      intro!: keeps_deny keeps_audits split: option.split)

lemma log_then_succeed_never_fails: "keeps_error R (followed_by (logAgentAudit e) (succeed x))"
  by (simp add: keeps_error_def agent_log.log_then) (simp add: succeed_def)

lemma keeps_error_read_server:
  assumes "item_id item = in_itemId inp"
  shows "keeps_error (audits_where (refusal_row cx (in_itemId inp))) (read_server rt cx inp item perm)"
  unfolding read_server_def Let_def using assms
  by (auto intro!: keeps_error_audits keeps_audits keeps_decryptServerManaged
      agent_log.keeps_log_where log_then_succeed_never_fails
      simp: refusal_row_def keeps_same_where)

lemma keeps_error_read_zk:
  "keeps_error (audits_where (refusal_row cx (in_itemId inp))) (read_zk cx inp item perm)"
  unfolding read_zk_def
  by (auto intro!: keeps_keeps_error keeps_deny log_then_succeed_never_fails simp: refusal_row_def)

lemma keeps_error_use_item: "keeps_error same_store (use_item cx inp item perm)"
  unfolding use_item_def Let_def generateMountId_def insert_audit_def
  by (auto intro!: keeps_error_same keeps_error_last keeps_error_transaction keeps_env keeps_same
      intro: keeps_keeps_error same_store_env split: option.split)

lemma live_item_SomeD:
  "live_item orgId i d = Some item \<Longrightarrow>
     item \<in> set (tbl_items d) \<and> item_org item = orgId \<and> item_id item = i \<and> item_deletedAt item = None"
  by (auto simp: live_item_def dest: findFirst_SomeD)

lemma grant_rows_iff:
  "p \<in> set (grant_rows orgId ag i prof a d) \<longleftrightarrow>
     p \<in> set (tbl_permissions d) \<and> perm_org p = orgId \<and> grant_covers ag i prof a p"
  by (simp add: grant_rows_def findMany_iff)

lemma pick_grant_mem: "rows \<noteq> [] \<Longrightarrow> pick_grant now rows \<in> set rows"
proof -
  assume "rows \<noteq> []"
  define pool where "pool = (if filter (not_expired now) rows \<noteq> [] then filter (not_expired now) rows else rows)"
  with \<open>rows \<noteq> []\<close> have "pool \<noteq> []" "set pool \<subseteq> set rows" by auto
  moreover have "set (item_level_first pool) = set pool" by (auto simp: item_level_first_def)
  ultimately have "hd (item_level_first pool) \<in> set rows"
    by (metis hd_in_set set_empty subsetD)
  then show ?thesis by (simp add: pick_grant_def pool_def Let_def)
qed

lemma lookupPermission_fails:
  "faults w (stmts w) = Some c \<Longrightarrow> \<exists>w'. lookupPermission cx ag i p a w = (Inl (DbErr c), w')"
  by (simp add: lookupPermission_def select_def statement_def eff_defs)

lemma resolveAccess_needs_lookups:
  assumes "resolveAccess rt cx inp w = (Inr r, w')"
  shows "faults w (stmts w) = None" and "faults w (Suc (stmts w)) = None"
proof -
  from assms obtain item where
    load: "loadItem cx (in_itemId inp) w = (Inr (Some item), advance 1 0 w)" "faults w (stmts w) = None"
    and k: "followed_by (require_constraint cx (agent_entry cx (Some (in_itemId inp))
        (eventTypeForAction (in_action inp) (in_delivery inp)) Denied None) (in_action inp) item)
      (andThen (lookupPermission cx (cx_agentId cx) (in_itemId inp) (item_profileId item) (in_action inp))
        (\<lambda>found_perm. andThen (require_grant cx (agent_entry cx (Some (in_itemId inp))
            (eventTypeForAction (in_action inp) (in_delivery inp)) Denied None) [] (in_action inp)
            (in_itemId inp) found_perm) (\<lambda>perm. deliver rt cx inp item perm))) (advance 1 0 w) = (Inr r, w')"
    unfolding resolveAccess_def Let_def
    by (auto simp: andThen_Inr loadItem_ok require_item_def deny_eq succeed_def split: option.splits)
  show "faults w (stmts w) = None" by (rule load(2))
  show "faults w (Suc (stmts w)) = None"
  proof (rule ccontr)
    assume "faults w (Suc (stmts w)) \<noteq> None"
    then obtain c where c: "faults (advance 1 0 w) (stmts (advance 1 0 w)) = Some c" by auto
    from lookupPermission_fails [OF c] k show False
      by (auto simp: followed_by_def andThen_Inr require_constraint_eq split: sum.splits)
         (metis Pair_inject sum.distinct(1))
  qed
qed

lemma resolveAccess_granted:
  assumes "resolveAccess rt cx inp w = (Inr r, w')"
  obtains item m where
    "authorize cx inp (store w) (clock w (ticks w)) (clock w (Suc (ticks w))) = V_granted item m"
    "deliver rt cx inp item m (advance 2 (grant_ticks m) w) = (Inr r, w')"
  using assms resolveAccess_refines [OF resolveAccess_needs_lookups [OF assms], of rt cx inp]
  by (auto simp: Let_def split: verdict.splits)

text \<open>What a positive decision rests on.\<close>

definition permits :: "agent_ctx \<Rightarrow> access_input \<Rightarrow> db \<Rightarrow> int \<Rightarrow> item_row \<Rightarrow> permission_row \<Rightarrow> bool" where
  "permits cx inp d now item p =
     (item \<in> set (tbl_items d) \<and> item_id item = in_itemId inp \<and> item_org item = cx_orgId cx \<and>
      item_deletedAt item = None \<and>
      isActionAllowed (in_action inp) (cx_locality cx) (item_storageMode item) \<and>
      p \<in> set (tbl_permissions d) \<and> perm_org p = cx_orgId cx \<and> perm_agentId p = cx_agentId cx \<and>
      (perm_itemId p = Some (item_id item) \<or>
       (perm_profileId p \<noteq> None \<and> perm_profileId p = item_profileId item)) \<and>
      orElse (map_of LEGACY_TO_CANONICAL (perm_capability p)) (perm_capability p) =
        action_capability (in_action inp) \<and>
      (case perm_expiresAt p of None \<Rightarrow> True | Some t \<Rightarrow> now \<le> t))"

lemma authorize_granted:
  assumes "authorize cx inp d now now' = V_granted item m"
  shows "\<exists>p. m = match_of p \<and> permits cx inp d now' item p"
proof -
  let ?rows = "grant_rows (cx_orgId cx) (cx_agentId cx) (in_itemId inp) (item_profileId item)
       (in_action inp) d"
  from assms have item: "live_item (cx_orgId cx) (in_itemId inp) d = Some item"
    and con: "checkActionConstraint (in_action inp) (cx_locality cx) (item_storageMode item) = Inr ()"
    and rows: "?rows \<noteq> []"
    and m: "m = match_of (pick_grant now ?rows)"
    and exp: "case pm_expiresAt m of None \<Rightarrow> True | Some t \<Rightarrow> now' \<le> t"
    by (auto simp: authorize_def Let_def split: option.splits sum.splits if_splits)
  let ?p = "pick_grant now ?rows"
  have "?p \<in> set ?rows" using rows by (rule pick_grant_mem)
  then have "permits cx inp d now' item ?p"
    using live_item_SomeD [OF item] con exp m
    by (auto simp: permits_def grant_rows_iff grant_covers_def checkActionConstraint_Inr
        legacyCaps_mem match_of_def)
  with m show ?thesis by blast
qed

section \<open>The bulk loop\<close>

lemma require_constraint_Inr:
  "require_constraint cx e a item w = (Inr u, w') \<longleftrightarrow>
     isActionAllowed a (cx_locality cx) (item_storageMode item) \<and> w' = w"
  by (auto simp: require_constraint_eq isActionAllowed_def split: sum.split)

lemma lookupPermission_Inr:
  "lookupPermission cx ag i p a w = (Inr (Some m), w') \<Longrightarrow>
     same_store w w' \<and> (\<exists>q \<in> set (grant_rows (cx_orgId cx) ag i p a (store w)). m = match_of q)"
proof -
  assume l: "lookupPermission cx ag i p a w = (Inr (Some m), w')"
  have "same_store w w'" using keepsD [OF keeps_lookupPermission l] .
  moreover have "faults w (stmts w) = None"
    using l lookupPermission_fails [of w _ cx ag i p a] by (cases "faults w (stmts w)") auto
  ultimately show ?thesis
    using l by (auto simp: lookupPermission_eq Let_def pick_grant_mem split: if_splits)
qed

lemma require_grant_Inr:
  assumes "require_grant cx e extra a i found w = (Inr m, w')"
  shows "found = Some m \<and> same_store w w' \<and>
    (\<exists>n. case pm_expiresAt m of None \<Rightarrow> True | Some t \<Rightarrow> clock w n \<le> t)"
  using assms
  by (auto simp: require_grant_def Let_def deny_eq succeed_def andThen_Inr same_store_def env_kept_def
      split: option.splits if_splits intro: exI [of _ "ticks w"])

definition bulk_input :: "profile_input \<Rightarrow> item_row \<Rightarrow> access_input" where
  "bulk_input pin item = \<lparr>in_itemId = item_id item, in_action = pi_action pin,
     in_delivery = Some (pi_delivery pin), in_field = None, in_envVarName = None,
     in_purpose = pi_purpose pin\<rparr>"

definition reserves :: "agent_ctx \<Rightarrow> reservation_row \<Rightarrow> use_result \<Rightarrow> bool" where
  "reserves cx r u = (res_mountId r = ur_mountId u \<and> res_itemId r = ur_itemId u \<and>
     res_agentId r = cx_agentId cx \<and> res_delivery r = ur_delivery u \<and>
     res_expiresAt r = ur_expiresAt u \<and> res_consumedAt r = None)"

definition records :: "agent_ctx \<Rightarrow> audit_row \<Rightarrow> use_result \<Rightarrow> bool" where
  "records cx r u = (au_org r = cx_orgId cx \<and> au_agentId r = Some (cx_agentId cx) \<and>
     au_itemId r = Some (ur_itemId u) \<and> au_result r = Allowed \<and>
     au_eventType r = eventTypeForAction Act_use (Some (ur_delivery u)) \<and>
     map_of (au_meta r) ''mountId'' = Some (JStr (ur_mountId u)))"

definition staged_ok :: "agent_ctx \<Rightarrow> item_row list \<Rightarrow> staged \<Rightarrow> bool" where
  "staged_ok cx rows st =
     (map ur_itemId (responseItems st) = map item_id rows \<and>
      list_all2 (reserves cx) (pendingReservations st) (responseItems st) \<and>
      list_all2 (records cx) (map buildAuditRow (pendingAudits st)) (responseItems st))"

text \<open>A grant that covered the item and had not expired at a reading of the clock in the request.\<close>

definition grant_seen :: "agent_ctx \<Rightarrow> action \<Rightarrow> db \<Rightarrow> (nat \<Rightarrow> int) \<Rightarrow> item_row \<Rightarrow> bool" where
  "grant_seen cx a d clk item \<longleftrightarrow>
     isActionAllowed a (cx_locality cx) (item_storageMode item) \<and>
     (\<exists>q n. q \<in> set (grant_rows (cx_orgId cx) (cx_agentId cx) (item_id item) (item_profileId item) a d) \<and>
        (case perm_expiresAt q of None \<Rightarrow> True | Some t \<Rightarrow> clk n \<le> t))"

lemma mint_eq:
  "andThen generateMountId (\<lambda>m. andThen new_Date (\<lambda>now. andThen randomUUID (\<lambda>rid.
      succeed (F m now rid)))) w =
    (Inr (F (''mnt_'' @ uuids w (draws w)) (clock w (ticks w)) (uuids w (Suc (draws w)))),
     w\<lparr>draws := Suc (Suc (draws w)), ticks := Suc (ticks w)\<rparr>)"
  by (simp add: generateMountId_def eff_defs)

lemma stage_item_ok:
  assumes ok: "stage_item cx pin item st w = (Inr st', w')"
    and use: "pi_action pin = Act_use" and st: "staged_ok cx prev st"
  shows "staged_ok cx (prev @ [item]) st' \<and> same_store w w' \<and>
    grant_seen cx (pi_action pin) (store w) (clock w) item"
proof -
  let ?F = "\<lambda>m v. push_allowed cx pin item m (''mnt_'' @ uuids v (draws v))
     (clock v (ticks v) + MOUNT_TTL_MS) (uuids v (Suc (draws v))) st"
  from ok obtain x m w1 w2 where
    con: "isActionAllowed (pi_action pin) (cx_locality cx) (item_storageMode item)"
    and l0: "lookupPermission cx (cx_agentId cx) (item_id item) (item_profileId item) (pi_action pin) w
       = (Inr x, w1)"
    and g0: "require_grant cx (bulk_entry cx pin item) [(''viaBulk'', JBool True)] (pi_action pin)
       (item_id item) x w1 = (Inr m, w2)"
    and st': "st' = ?F m w2"
    and w2: "w' = w2\<lparr>draws := Suc (Suc (draws w2)), ticks := Suc (ticks w2)\<rparr>"
    unfolding stage_item_def followed_by_def andThen_Inr [of "require_constraint _ _ _ _"]
      andThen_Inr [of "lookupPermission _ _ _ _ _"] andThen_Inr [of "require_grant _ _ _ _ _ _"] mint_eq
      require_constraint_Inr by auto
  have x: "x = Some m" using require_grant_Inr [OF g0] by simp
  note l = l0 [unfolded x] and g = g0 [unfolded x]
  have w': "same_store w2 w'" using w2 by (simp add: same_store_def env_kept_def)
  from lookupPermission_Inr [OF l] obtain q where
    q: "same_store w w1" "q \<in> set (grant_rows (cx_orgId cx) (cx_agentId cx) (item_id item)
       (item_profileId item) (pi_action pin) (store w))" "m = match_of q" by blast
  from require_grant_Inr [OF g] obtain n where
    n: "same_store w1 w2" "case pm_expiresAt m of None \<Rightarrow> True | Some t \<Rightarrow> clock w1 n \<le> t" by blast
  have "same_store w w'" using q(1) n(1) w' by (meson same_store_transp transpD)
  moreover have "staged_ok cx (prev @ [item]) st'"
    using st st' use
    by (auto simp: staged_ok_def reserves_def records_def new_reservation_def bulk_entry_def
        push_allowed_def intro!: list_all2_appendI)
  moreover have "clock w1 = clock w" using q(1) by (simp add: same_store_def env_kept_def)
  moreover have "grant_seen cx (pi_action pin) (store w) (clock w) item"
    unfolding grant_seen_def
    using con q n(2) \<open>clock w1 = clock w\<close>
    by (intro conjI exI [of _ q] exI [of _ n]) (simp_all add: match_of_def split: option.splits)
  ultimately show ?thesis by simp
qed

lemma stage_items_ok:
  assumes "stage_items cx pin rows st w = (Inr st', w')"
    and "pi_action pin = Act_use" and "staged_ok cx prev st"
  shows "staged_ok cx (prev @ rows) st' \<and> same_store w w' \<and>
    (\<forall>item \<in> set rows. grant_seen cx (pi_action pin) (store w) (clock w) item)"
  using assms
proof (induction rows arbitrary: st w prev)
  case Nil
  then show ?case by (simp add: succeed_def same_store_def)
next
  case (Cons item rows)
  then obtain st1 w1 where s: "stage_item cx pin item st w = (Inr st1, w1)"
    and r: "stage_items cx pin rows st1 w1 = (Inr st', w')"
    by (auto simp: andThen_Inr)
  have 1: "staged_ok cx (prev @ [item]) st1" "same_store w w1"
    "grant_seen cx (pi_action pin) (store w) (clock w) item"
    using stage_item_ok [OF s Cons.prems(2,3)] by auto
  have 2: "staged_ok cx ((prev @ [item]) @ rows) st'" "same_store w1 w'"
    "\<forall>i \<in> set rows. grant_seen cx (pi_action pin) (store w1) (clock w1) i"
    using Cons.IH [OF r Cons.prems(2) 1(1)] by auto
  moreover have "store w1 = store w" "clock w1 = clock w"
    using 1(2) by (auto simp: same_store_def env_kept_def)
  ultimately show ?case using 1 by (auto simp: same_store_def env_kept_def)
qed

lemma keeps_stage_item:
  "keeps (audits_where (refusal_row cx (item_id item))) (stage_item cx pin item st)"
  unfolding stage_item_def generateMountId_def
  by (intro keeps_audits keeps_require_constraint keeps_require_grant keeps_same_where
      keeps_lookupPermission keeps_new_Date keeps_randomUUID keeps_same keeps_succeed
      same_store_reflp) (simp_all add: bulk_entry_def)

text \<open>A row that says this agent was refused one of the items.\<close>

definition refused_one :: "agent_ctx \<Rightarrow> item_row list \<Rightarrow> audit_row \<Rightarrow> bool" where
  "refused_one cx rows r = (\<exists>item \<in> set rows. refusal_row cx (item_id item) r)"

lemma keeps_stage_items:
  assumes "set rows \<subseteq> set all"
  shows "keeps (audits_where (refused_one cx all)) (stage_items cx pin rows st)"
  using assms
proof (induction rows arbitrary: st)
  case (Cons item rows)
  have "keeps (audits_where (refused_one cx all)) (stage_item cx pin item st)"
    by (rule keeps_where_mono [OF keeps_stage_item]) (use Cons.prems in \<open>auto simp: refused_one_def\<close>)
  with Cons show ?case by (auto intro!: keeps_audits)
qed simp

lemma flush_staged_ok:
  assumes "flush_staged st w = (Inr u, w')" "staged_ok cx rows st"
  shows "store w' = (store w)\<lparr>
      tbl_mountReservations := tbl_mountReservations (store w) @ pendingReservations st,
      tbl_auditLogs := tbl_auditLogs (store w) @ map buildAuditRow (pendingAudits st)\<rparr> \<and>
    batch_ok res_clash (tbl_mountReservations (store w)) (pendingReservations st)"
proof (cases "pendingReservations st = []")
  case True
  then have "pendingAudits st = []" using assms(2) by (auto simp: staged_ok_def)
  with True assms(1) show ?thesis by (simp add: flush_staged_def succeed_def)
next
  case False
  then have "pendingAudits st \<noteq> []" using assms(2) by (auto simp: staged_ok_def)
  with False assms(1) show ?thesis
    by (auto simp: flush_staged_def transaction_ok followed_by_def andThen_Inr statement_ok
        insert_audit_def insert_reservations_def insert_audits_def split: if_splits)
qed

lemma keeps_error_flush_staged: "keeps_error same_store (flush_staged st)"
  unfolding flush_staged_def insert_audit_def
  by (auto intro!: keeps_error_transaction keeps_env intro: keeps_keeps_error)

end
