(* ===== verification/Access_Properties.thy ===== *)
theory Access_Properties
  imports Access_Pipeline Samples
begin

text \<open>
  What the unified pipeline guarantees: every success rests on a live item, a permitted combination
  and an unexpired grant of the same tenant; every refusal changes nothing but the audit trail, and
  the rows it adds are refusals of the asking agent; a mount handle and its audit row exist together.
\<close>

section \<open>One item\<close>

text \<open>What an answer may say of the item it was given for.\<close>

definition answers :: "access_input \<Rightarrow> item_row \<Rightarrow> access_result \<Rightarrow> bool" where
  "answers inp item r = (case r of
      Read_server _ \<Rightarrow> in_action inp = Act_read \<and> item_storageMode item = Server_managed
    | Read_zk z \<Rightarrow> in_action inp = Act_read \<and> item_storageMode item = Zero_knowledge \<and> z = zk_of item
    | Use_mount u \<Rightarrow> in_action inp = Act_use \<and> ur_itemId u = item_id item \<and>
        in_delivery inp = Some (ur_delivery u))"

lemma deliver_answers:
  assumes "deliver rt cx inp item m w = (Inr r, w')" "item_id item = in_itemId inp"
  shows "answers inp item r"
proof (cases "in_action inp")
  case Act_read
  with assms show ?thesis
    by (auto simp: deliver_def answers_def read_server_def read_zk_def Let_def followed_by_def
        andThen_Inr succeed_def deny_eq split: storage_mode.splits if_splits)
next
  case Act_use
  with assms show ?thesis
    by (auto simp: deliver_def answers_def use_item_def Let_def followed_by_def andThen_Inr
        succeed_def fail_with_def split: option.splits)
qed

lemma resolveAccess_about:
  assumes "resolveAccess rt cx inp w = (Inr r, w')"
  shows "\<exists>item p. permits cx inp (store w) (clock w (Suc (ticks w))) item p \<and> answers inp item r"
proof -
  obtain item m where
    a: "authorize cx inp (store w) (clock w (ticks w)) (clock w (Suc (ticks w))) = V_granted item m"
    and d: "deliver rt cx inp item m (advance 2 (grant_ticks m) w) = (Inr r, w')"
    by (rule resolveAccess_granted [OF assms])
  from authorize_granted [OF a] obtain p where
    p: "permits cx inp (store w) (clock w (Suc (ticks w))) item p" by blast
  then have "item_id item = in_itemId inp" by (simp add: permits_def)
  with d have "answers inp item r" by (rule deliver_answers)
  with p show ?thesis by blast
qed


definition sample_ctx :: agent_ctx where
  "sample_ctx = \<lparr>cx_orgId = ''o1'', cx_userId = Some ''u1'', cx_agentId = ''a1'', cx_locality = Local,
     cx_ip = None, cx_ENCRYPTION_KEY = []\<rparr>"

definition sample_input :: "action \<Rightarrow> access_input" where
  "sample_input a = \<lparr>in_itemId = ''i1'', in_action = a, in_delivery = Some Env, in_field = None,
     in_envVarName = None, in_purpose = None\<rparr>"

definition sample_runtime :: runtime where
  "sample_runtime = \<lparr>rt_crypto = toy_webcrypto, rt_JSON_parse = (\<lambda>_. None)\<rparr>"

lemmas sample_request = sample_ctx_def sample_input_def sample_runtime_def

lemma sample_authorized:
  "authorize sample_ctx (sample_input Act_read) sample_db 1000 1000 =
     V_granted sample_item (match_of sample_read_grant)"
  "authorize sample_ctx (sample_input Act_use) sample_db 1000 1000 =
     V_granted sample_item (match_of sample_use_grant)"
  by (simp_all add: authorize_def sample_request sample_rows live_item_def findFirst_def orgScope_def
      grant_rows_def findMany_def grant_covers_def checkActionConstraint_def pick_grant_def
      item_level_first_def not_expired_def match_of_def Let_def)

lemma sample_read:
  "fst (resolveAccess sample_runtime sample_ctx (sample_input Act_read) (sample_world sample_db)) =
     Inr (Read_zk (zk_of sample_item))"
  by (simp add: resolveAccess_refines sample_authorized Let_def)
    (simp add: deliver_def sample_request sample_rows read_zk_def no_zk_envelope_def
      agent_log.log_then succeed_def)

lemma sample_use:
  "fst (resolveAccess sample_runtime sample_ctx (sample_input Act_use) (sample_world sample_db)) =
     Inr (Use_mount \<lparr>ur_itemId = ''i1'', ur_mountId = ''mnt_u'', ur_delivery = Env,
       ur_expiresAt = 301000\<rparr>)"
  by (simp add: resolveAccess_refines sample_authorized Let_def)
    (simp add: deliver_def sample_request sample_rows use_item_def generateMountId_def eff_defs
      transaction_def statement_def insert_reservations_def insert_audit_def insert_audits_def
      Let_def MOUNT_TTL_MS_def)


lemma resolveAccess_error_frame:
  assumes "resolveAccess rt cx inp w = (Inl e, w')"
  shows "audits_where (refusal_row cx (in_itemId inp)) w w'"
proof -
  let ?R = "audits_where (refusal_row cx (in_itemId inp))"
  let ?e = "agent_entry cx (Some (in_itemId inp))
     (eventTypeForAction (in_action inp) (in_delivery inp)) Denied None"
  let ?K = "\<lambda>item. followed_by (require_constraint cx ?e (in_action inp) item)
      (andThen (lookupPermission cx (cx_agentId cx) (in_itemId inp) (item_profileId item) (in_action inp))
        (\<lambda>f. andThen (require_grant cx ?e [] (in_action inp) (in_itemId inp) f)
          (deliver rt cx inp item)))"
  have K: "keeps_error ?R (?K item)" if "item_id item = in_itemId inp" for item
  proof -
    have "keeps_error ?R (deliver rt cx inp item m)" for m
      using keeps_error_read_server [OF that] keeps_error_read_zk keeps_error_use_item
      by (auto simp: deliver_def keeps_error_def same_store_audits_where
          split: action.split storage_mode.split)
    then show ?thesis
      by (intro keeps_error_audits keeps_require_constraint keeps_require_grant keeps_same_where
          keeps_lookupPermission) simp_all
  qed
  show ?thesis
  proof (cases "faults w (stmts w)")
    case (Some c)
    with assms have "same_store w w'"
      by (auto simp: resolveAccess_def Let_def loadItem_def select_def statement_def andThen_def
          same_store_def env_kept_def)
    then show ?thesis by (rule same_store_audits_where)
  next
    case None
    let ?w1 = "advance 1 0 w"
    have 1: "?R w ?w1" by (simp add: same_store_audits_where same_store_def env_kept_def advance_def)
    have load: "loadItem cx (in_itemId inp) w =
        (Inr (live_item (cx_orgId cx) (in_itemId inp) (store w)), advance (Suc 0) 0 w)"
      using None by (simp add: loadItem_ok)
    from assms have k: "andThen (require_item cx inp (live_item (cx_orgId cx) (in_itemId inp) (store w)))
        ?K ?w1 = (Inl e, w')"
      by (simp add: resolveAccess_def Let_def load andThen_def [of "loadItem _ _"])
    have "?R ?w1 w'"
    proof (cases "live_item (cx_orgId cx) (in_itemId inp) (store w)")
      case None
      with k show ?thesis
        by (auto simp: andThen_Inl require_item_def deny_eq refusal_row_def intro!: agent_log.log_where)
    next
      case (Some item)
      with k have "?K item ?w1 = (Inl e, w')" by (simp add: require_item_def)
      with K live_item_SomeD [OF Some] show ?thesis by (blast dest: keeps_errorD)
    qed
    with 1 show ?thesis by (rule audits_where_trans)
  qed
qed

text \<open>C6: a refused or failed \<open>resolveAccess\<close>, whatever the reason and whichever statements
  fault, leaves every table but the audit trail as it was, and every row it adds is a denied or
  expired row of the asking agent for the requested item: never an allowed one.\<close>

theorem resolveAccess_refusal:
  assumes "resolveAccess rt cx inp w = (Inl e, w')"
  shows "audits_where (refusal_row cx (in_itemId inp)) w w'"
  by (rule resolveAccess_error_frame [OF assms])

lemma resolveAccess_refusal_witness:
  "audits_where (refusal_row (sample_ctx\<lparr>cx_locality := Remote\<rparr>) ''i1'') (sample_world sample_db)
     (snd (resolveAccess sample_runtime (sample_ctx\<lparr>cx_locality := Remote\<rparr>) (sample_input Act_use)
        (sample_world sample_db)))"
proof -
  have "\<exists>e. fst (resolveAccess sample_runtime (sample_ctx\<lparr>cx_locality := Remote\<rparr>) (sample_input Act_use)
        (sample_world sample_db)) = Inl e"
    by (simp add: resolveAccess_refines authorize_def sample_request sample_rows live_item_def
        findFirst_def orgScope_def checkActionConstraint_def Let_def)
  then obtain e where "fst (resolveAccess sample_runtime (sample_ctx\<lparr>cx_locality := Remote\<rparr>)
      (sample_input Act_use) (sample_world sample_db)) = Inl e" by blast
  from resolveAccess_refusal [OF outcome [OF this]] show ?thesis by (simp add: sample_input_def)
qed

text \<open>An access that no live item and grant of the tenant permit is always refused,
  as not found or forbidden, and when the database answers it leaves exactly one new row: a denied or
  expired row of the access's event type, for this agent and this item.\<close>

theorem unpermitted_is_refused_and_logged:
  assumes "\<And>n. faults w n = None"
    and "\<nexists>item p. permits cx inp (store w) (clock w (Suc (ticks w))) item p"
  shows "\<exists>e row. fst (resolveAccess rt cx inp w) = Inl e \<and>
    (is_class NotFoundError e \<or> is_class ForbiddenError e) \<and> refusal_row cx (in_itemId inp) row \<and>
    au_eventType row = eventTypeForAction (in_action inp) (in_delivery inp) \<and>
    store (snd (resolveAccess rt cx inp w)) =
      (store w)\<lparr>tbl_auditLogs := tbl_auditLogs (store w) @ [row]\<rparr>"
proof -
  let ?v = "authorize cx inp (store w) (clock w (ticks w)) (clock w (Suc (ticks w)))"
  have log: "store (snd (logAgentAudit e (advance s t w))) =
      (store w)\<lparr>tbl_auditLogs := tbl_auditLogs (store w) @ [buildAuditRow e]\<rparr>" for e s t
    using agent_log.recorded_store [of "advance s t w" e] assms(1) by simp
  have ng: "?v \<noteq> V_granted item m" for item m using authorize_granted assms(2) by blast
  have il: "is_class ForbiddenError x" if "?v = V_illegal x item" for x item
    using that by (auto simp: authorize_def Let_def dest!: checkActionConstraint_Inl
        split: option.splits sum.splits if_splits)
  have fin: ?thesis
    if "resolveAccess rt cx inp w = (Inl e, snd (logAgentAudit a (advance s t w)))"
      and "is_class NotFoundError e \<or> is_class ForbiddenError e"
      and "refusal_row cx (in_itemId inp) (buildAuditRow a)"
      and "ae_eventType a = eventTypeForAction (in_action inp) (in_delivery inp)" for e a s t
    using that log by (intro exI [of _ e] exI [of _ "buildAuditRow a"]) simp
  note refines = resolveAccess_refines [OF assms(1) assms(1), of rt cx inp, unfolded Let_def]
  show ?thesis
  proof (cases ?v)
    case V_not_found
    show ?thesis by (rule fin [OF refines [unfolded V_not_found verdict.case]])
        (simp_all add: refusal_row_def)
  next
    case (V_illegal x item)
    show ?thesis by (rule fin [OF refines [unfolded V_illegal verdict.case]])
        (simp_all add: refusal_row_def il [OF V_illegal])
  next
    case V_no_grant
    show ?thesis by (rule fin [OF refines [unfolded V_no_grant verdict.case]])
        (simp_all add: refusal_row_def)
  next
    case (V_expired m)
    show ?thesis by (rule fin [OF refines [unfolded V_expired verdict.case]])
        (simp_all add: refusal_row_def)
  next
    case (V_granted item m)
    with ng show ?thesis by blast
  qed
qed

lemma unpermitted_is_refused_and_logged_witness:
  "\<exists>e. fst (resolveAccess sample_runtime sample_ctx (sample_input Act_use)
     (sample_world (sample_db\<lparr>tbl_permissions := [sample_read_grant]\<rparr>))) = Inl e"
proof -
  have "\<nexists>item p. permits sample_ctx (sample_input Act_use)
      (store (sample_world (sample_db\<lparr>tbl_permissions := [sample_read_grant]\<rparr>))) (clock (sample_world
        (sample_db\<lparr>tbl_permissions := [sample_read_grant]\<rparr>)) (Suc (ticks (sample_world
        (sample_db\<lparr>tbl_permissions := [sample_read_grant]\<rparr>))))) item p"
    by (auto simp: permits_def sample_request sample_rows LEGACY_TO_CANONICAL_def)
  from unpermitted_is_refused_and_logged [OF _ this] show ?thesis by auto
qed

section \<open>Audit of what was delivered\<close>

lemma use_item_ok:
  assumes "use_item cx inp item m w = (Inr x, w')" "in_action inp = Act_use"
  shows "\<exists>u r row. x = Use_mount u \<and> reserves cx r u \<and> records cx row u \<and>
     res_field r = in_field inp \<and> res_envVarName r = in_envVarName inp \<and>
     ur_itemId u = in_itemId inp \<and> ur_expiresAt u = clock w (ticks w) + 300000 \<and>
     (\<forall>s \<in> set (tbl_mountReservations (store w)). \<not> res_clash r s) \<and>
     store w' = (store w)\<lparr>tbl_mountReservations := tbl_mountReservations (store w) @ [r],
       tbl_auditLogs := tbl_auditLogs (store w) @ [row]\<rparr>"
proof -
  from assms(1) obtain d where d: "in_delivery inp = Some d"
    by (auto simp: use_item_def fail_with_def split: option.splits)
  let ?u = "\<lparr>ur_itemId = in_itemId inp, ur_mountId = ''mnt_'' @ uuids w (draws w), ur_delivery = d,
      ur_expiresAt = clock w (ticks w) + MOUNT_TTL_MS\<rparr>"
  let ?r = "new_reservation cx (in_itemId inp) d (in_field inp) (in_envVarName inp)
     (uuids w (Suc (draws w))) (''mnt_'' @ uuids w (draws w)) (clock w (ticks w) + MOUNT_TTL_MS)"
  let ?row = "buildAuditRow (use_entry cx inp item m d (''mnt_'' @ uuids w (draws w)))"
  have 1: "x = Use_mount ?u" "\<forall>s \<in> set (tbl_mountReservations (store w)). \<not> res_clash ?r s"
    "store w' = (store w)\<lparr>tbl_mountReservations := tbl_mountReservations (store w) @ [?r],
       tbl_auditLogs := tbl_auditLogs (store w) @ [?row]\<rparr>"
    using assms(1) d
    by (auto simp: use_item_def Let_def generateMountId_def followed_by_def andThen_Inr succeed_def
        transaction_ok statement_ok insert_reservations_def insert_audit_def insert_audits_def
        split: if_splits)
  moreover have "reserves cx ?r ?u" "records cx ?row ?u"
    using assms(2) d
    by (auto simp: reserves_def records_def new_reservation_def use_entry_def allowed_entry_def)
  ultimately show ?thesis
    by (intro exI [of _ ?u] exI [of _ ?r] exI [of _ ?row])
      (auto simp: res_clash_def new_reservation_def MOUNT_TTL_MS_def)
qed

lemma resolveAccess_use_store:
  assumes "resolveAccess rt cx inp w = (Inr (Use_mount u), w')"
  shows "\<exists>r row n. reserves cx r u \<and> records cx row u \<and> ur_itemId u = in_itemId inp \<and>
     ur_expiresAt u = clock w n + 300000 \<and>
     (\<forall>s \<in> set (tbl_mountReservations (store w)). \<not> res_clash r s) \<and>
     store w' = (store w)\<lparr>tbl_mountReservations := tbl_mountReservations (store w) @ [r],
       tbl_auditLogs := tbl_auditLogs (store w) @ [row]\<rparr>"
proof -
  obtain item m where
    a: "authorize cx inp (store w) (clock w (ticks w)) (clock w (Suc (ticks w))) = V_granted item m"
    and d: "deliver rt cx inp item m (advance 2 (grant_ticks m) w) = (Inr (Use_mount u), w')"
    by (rule resolveAccess_granted [OF assms])
  from authorize_granted [OF a] have "item_id item = in_itemId inp" by (auto simp: permits_def)
  with deliver_answers [OF d] have use: "in_action inp = Act_use" by (simp add: answers_def)
  with d have "use_item cx inp item m (advance 2 (grant_ticks m) w) = (Inr (Use_mount u), w')"
    by (simp add: deliver_def)
  from use_item_ok [OF this use] show ?thesis by auto
qed

text \<open>A successful \<open>use\<close> leaves exactly one new mount reservation and exactly one new
  audit row and changes nothing else, even if some statement of the request faulted: the
  reservation is unconsumed, belongs to the asking agent, names the item, carries a handle no stored
  reservation has and expires five minutes after a reading of the clock; the row is an allowed row
  for that agent, item and handle.\<close>

theorem resolveAccess_use_atomic:
  assumes "resolveAccess rt cx inp w = (Inr (Use_mount u), w')"
  shows "\<exists>r row n. reserves cx r u \<and> records cx row u \<and> ur_itemId u = in_itemId inp \<and>
     ur_expiresAt u = clock w n + 300000 \<and>
     (\<forall>s \<in> set (tbl_mountReservations (store w)). res_mountId s \<noteq> ur_mountId u) \<and>
     store w' = (store w)\<lparr>tbl_mountReservations := tbl_mountReservations (store w) @ [r],
       tbl_auditLogs := tbl_auditLogs (store w) @ [row]\<rparr>"
  using resolveAccess_use_store [OF assms] by (fastforce simp: res_clash_def reserves_def)

lemma resolveAccess_use_atomic_witness:
  "\<exists>r row. store (snd (resolveAccess sample_runtime sample_ctx (sample_input Act_use)
      (sample_world sample_db))) =
     sample_db\<lparr>tbl_mountReservations := [r], tbl_auditLogs := [row]\<rparr> \<and> res_agentId r = ''a1''"
  using resolveAccess_use_atomic [OF outcome [OF sample_use]]
  by (auto simp: reserves_def sample_rows sample_ctx_def)

text \<open>A successful read: the last step is the audit write.\<close>

definition read_row :: "agent_ctx \<Rightarrow> access_input \<Rightarrow> audit_row \<Rightarrow> bool" where
  "read_row cx inp row = (au_org row = cx_orgId cx \<and> au_agentId row = Some (cx_agentId cx) \<and>
     au_itemId row = Some (in_itemId inp) \<and> au_result row = Allowed \<and>
     au_eventType row = Ev_access_reveal \<and> au_field row = Some (orElse (in_field inp) ''__default__''))"

lemma read_row_allowed: "read_row cx inp (buildAuditRow (allowed_entry cx inp item Ev_access_reveal s t))"
  by (simp add: read_row_def allowed_entry_def)

lemma deliver_read_logs:
  assumes "deliver rt cx inp item m w = (Inr x, w')" "in_action inp = Act_read"
  obtains w1 e where "same_store w w1" "read_row cx inp (buildAuditRow e)"
    "w' = snd (logAgentAudit e w1)"
proof (cases "item_storageMode item")
  case Zero_knowledge
  with assms show ?thesis
    by (auto simp: deliver_def read_zk_def deny_eq agent_log.log_then succeed_def same_store_def
        intro!: that [of w] read_row_allowed split: if_splits)
next
  case Server_managed
  let ?D = "tap_error (decryptServerManaged rt cx item Ev_access_reveal)
        (\<lambda>err. if \<not> is_class IntegrityError err
               then logAgentAudit ((agent_entry cx (Some (in_itemId inp)) Ev_access_reveal Denied
                      (Some [(''reason'', JStr ''decrypt_failed''), (''action'', JStr ''read'')]))
                      \<lparr>ae_profileId := item_profileId item\<rparr>)
               else succeed ())"
  from Server_managed assms obtain pt w1 where
    d: "?D w = (Inr pt, w1)"
    and w': "w' = snd (logAgentAudit
      (allowed_entry cx inp item Ev_access_reveal ''reveal'' (read_meta m)) w1)"
    by (auto simp: deliver_def read_server_def Let_def andThen_Inr agent_log.log_then succeed_def
        lift_result_def split: if_splits)
  have "decryptServerManaged rt cx item Ev_access_reveal w = (Inr pt, w1)"
    using d by (auto simp: tap_error_def split: prod.splits sum.splits)
  then have "decryptServerEnvelope (rt_crypto rt) (cx_ENCRYPTION_KEY cx) (cx_orgId cx) item None w
      = (Inr pt, w1)"
    by (auto simp: decryptServerManaged_def deny_eq split: if_splits)
  from keepsD [OF keeps_decryptServerEnvelope this] have "same_store w w1" .
  from that [OF this read_row_allowed w'] show ?thesis .
qed

lemma resolveAccess_read_store:
  assumes "resolveAccess rt cx inp w = (Inr x, w')" "in_action inp = Act_read"
  shows "\<exists>as row. store w' = (store w)\<lparr>tbl_auditLogs := tbl_auditLogs (store w) @ as\<rparr> \<and>
     read_row cx inp row \<and> (as = [row] \<or> (as = [] \<and> (\<exists>n. faults w n \<noteq> None)))"
proof -
  obtain item m where
    d: "deliver rt cx inp item m (advance 2 (grant_ticks m) w) = (Inr x, w')"
    by (rule resolveAccess_granted [OF assms(1)])
  obtain w1 e where w1: "same_store (advance 2 (grant_ticks m) w) w1"
    and row: "read_row cx inp (buildAuditRow e)" and w': "w' = snd (logAgentAudit e w1)"
    by (rule deliver_read_logs [OF d assms(2)])
  from w1 have st: "store w1 = store w" "faults w1 = faults w"
    by (auto simp: same_store_def env_kept_def)
  show ?thesis
  proof (cases "faults w1 (stmts w1)")
    case None
    then have "store w' = (store w)\<lparr>tbl_auditLogs := tbl_auditLogs (store w) @ [buildAuditRow e]\<rparr>"
      using agent_log.recorded_store [of w1 e] w' st by simp
    with row show ?thesis by blast
  next
    case (Some c)
    then have fault: "\<exists>n. faults w n \<noteq> None" using st by auto
    have "store w' = store w \<or>
        store w' = (store w)\<lparr>tbl_auditLogs := tbl_auditLogs (store w) @ [buildAuditRow e]\<rparr>"
      using agent_log.log_store [of e w1] unfolding w' st by blast
    then show ?thesis
    proof
      assume "store w' = store w"
      then have "store w' = (store w)\<lparr>tbl_auditLogs := tbl_auditLogs (store w) @ []\<rparr>" by simp
      with row fault show ?thesis by blast
    next
      assume "store w' = (store w)\<lparr>tbl_auditLogs := tbl_auditLogs (store w) @ [buildAuditRow e]\<rparr>"
      with row show ?thesis by blast
    qed
  qed
qed

text \<open>A successful \<open>read\<close> changes no table but the audit trail, and there it adds
  exactly one row, the allowed row of the access, unless the statement that writes it faulted (a
  failed audit write does not take the answer back).\<close>

theorem resolveAccess_read_logged:
  assumes "resolveAccess rt cx inp w = (Inr x, w')" "in_action inp = Act_read"
  shows "\<exists>as row. store w' = (store w)\<lparr>tbl_auditLogs := tbl_auditLogs (store w) @ as\<rparr> \<and>
     read_row cx inp row \<and> (as = [row] \<or> (as = [] \<and> (\<exists>n. faults w n \<noteq> None)))"
  by (rule resolveAccess_read_store [OF assms])

lemma resolveAccess_read_logged_witness:
  "\<exists>row. tbl_auditLogs (store (snd (resolveAccess sample_runtime sample_ctx (sample_input Act_read)
      (sample_world sample_db)))) = [row] \<and> au_result row = Allowed"
  using resolveAccess_read_logged [OF outcome [OF sample_read]]
  by (auto simp: read_row_def sample_input_def sample_db_def)

section \<open>Every item of a profile\<close>

lemma resolveProfileAccess_store:
  assumes "resolveProfileAccess cx pin w = (Inr us, w')" "pi_action pin = Act_use"
  shows "\<exists>rs rows. batch_ok res_clash (tbl_mountReservations (store w)) rs \<and> list_all2 (reserves cx) rs us \<and> list_all2 (records cx) rows us \<and>
     store w' = (store w)\<lparr>tbl_mountReservations := tbl_mountReservations (store w) @ rs,
       tbl_auditLogs := tbl_auditLogs (store w) @ rows\<rparr> \<and>
     map ur_itemId us = map item_id (profile_items (cx_orgId cx) (pi_profileId pin) (store w)) \<and>
     length us \<le> 256 \<and>
     (\<forall>item \<in> set (profile_items (cx_orgId cx) (pi_profileId pin) (store w)).
        grant_seen cx Act_use (store w) (clock w) item)"
proof -
  let ?items = "profile_items (cx_orgId cx) (pi_profileId pin) (store w)"
  let ?w1 = "w\<lparr>stmts := Suc (Suc (stmts w))\<rparr>"
  have w1: "store ?w1 = store w" "clock ?w1 = clock w" by simp_all
  from assms(1) obtain st w2 where
    len: "length (take (MAX_PROFILE_USE_ITEMS + 1) ?items) \<le> MAX_PROFILE_USE_ITEMS"
    and stage: "stage_items cx pin (take (MAX_PROFILE_USE_ITEMS + 1) ?items) no_staged ?w1 = (Inr st, w2)"
    and flush: "flush_staged st w2 = (Inr (), w')" and us: "us = responseItems st"
    by (auto simp: resolveProfileAccess_def followed_by_def andThen_Inr select_ok fail_with_def
        succeed_def split: if_splits)
  have items: "take (MAX_PROFILE_USE_ITEMS + 1) ?items = ?items" "length ?items \<le> 256"
    using len by (auto simp: MAX_PROFILE_USE_ITEMS_def min_def split: if_splits)
  have "staged_ok cx [] no_staged" by (simp add: staged_ok_def no_staged_def)
  from stage_items_ok [OF stage assms(2) this] items w1 assms(2)
  have st: "staged_ok cx ?items st" "same_store ?w1 w2"
    "\<forall>item \<in> set ?items. grant_seen cx Act_use (store w) (clock w) item" by auto
  from flush_staged_ok [OF flush st(1)] st(2) w1
  have "store w' = (store w)\<lparr>
      tbl_mountReservations := tbl_mountReservations (store w) @ pendingReservations st,
      tbl_auditLogs := tbl_auditLogs (store w) @ map buildAuditRow (pendingAudits st)\<rparr>"
    "batch_ok res_clash (tbl_mountReservations (store w)) (pendingReservations st)"
    by (simp_all add: same_store_def)
  with st us items(2) show ?thesis
    by (intro exI [of _ "pendingReservations st"] exI [of _ "map buildAuditRow (pendingAudits st)"])
      (auto simp: staged_ok_def dest: map_eq_imp_length_eq)
qed


definition sample_profile_input :: profile_input where
  "sample_profile_input = \<lparr>pi_profileId = ''p1'', pi_action = Act_use, pi_delivery = Env,
     pi_purpose = None\<rparr>"

lemma sample_bulk:
  "fst (resolveProfileAccess sample_ctx sample_profile_input (sample_world sample_db)) =
     Inr [\<lparr>ur_itemId = ''i1'', ur_mountId = ''mnt_u'', ur_delivery = Env, ur_expiresAt = 301000\<rparr>]"
  by (simp add: resolveProfileAccess_def sample_profile_input_def sample_ctx_def sample_rows eff_defs
      select_def statement_def profile_exists_def profile_items_def findFirst_def findMany_def orgScope_def
      MAX_PROFILE_USE_ITEMS_def stage_item_def require_constraint_eq checkActionConstraint_def
      lookupPermission_def grant_rows_def grant_covers_def pick_grant_def item_level_first_def
      not_expired_def match_of_def require_grant_def generateMountId_def push_allowed_def no_staged_def
      new_reservation_def flush_staged_def transaction_def insert_reservations_def insert_audit_def
      insert_audits_def bulk_entry_def Let_def MOUNT_TTL_MS_def)


lemma resolveProfileAccess_error_frame:
  assumes "resolveProfileAccess cx pin w = (Inl e, w')"
  shows "audits_where (refused_one cx (profile_items (cx_orgId cx) (pi_profileId pin) (store w))) w w'"
proof -
  let ?items = "profile_items (cx_orgId cx) (pi_profileId pin) (store w)"
  let ?rows = "take (MAX_PROFILE_USE_ITEMS + 1) ?items"
  let ?R = "audits_where (refused_one cx ?items)"
  let ?w1 = "w\<lparr>stmts := Suc (Suc (stmts w))\<rparr>"
  have 1: "same_store w ?w1" by (simp add: same_store_def env_kept_def)
  from assms consider (early) "same_store w w'"
    | (loop) "andThen (stage_items cx pin ?rows no_staged) (\<lambda>st.
           followed_by (flush_staged st) (succeed (responseItems st))) ?w1 = (Inl e, w')"
    by (auto simp: resolveProfileAccess_def andThen_Inl [of "select _"] select_ok select_fails
        fail_with_def same_store_def env_kept_def split: if_splits)
  then show ?thesis
  proof cases
    case early
    then show ?thesis by (rule same_store_audits_where)
  next
    case loop
    have "keeps_error ?R (andThen (stage_items cx pin ?rows no_staged) (\<lambda>st.
           followed_by (flush_staged st) (succeed (responseItems st))))"
      using keeps_error_flush_staged
      by (intro keeps_error_audits keeps_stage_items keeps_error_last set_take_subset)
        (auto simp: keeps_error_def same_store_audits_where)
    from keeps_errorD [OF this loop] 1 show ?thesis
      by (blast intro: audits_where_trans same_store_audits_where)
  qed
qed

text \<open>All or nothing. A failed \<open>resolveProfileAccess\<close> leaves no reservation and no
  allowed row behind: the only new rows are refusals of the asking agent for live items of the
  profile.\<close>

theorem resolveProfileAccess_all_or_nothing:
  assumes "resolveProfileAccess cx pin w = (Inl e, w')"
  shows "audits_where (refused_one cx (profile_items (cx_orgId cx) (pi_profileId pin) (store w))) w w'"
  by (rule resolveProfileAccess_error_frame [OF assms])

lemma resolveProfileAccess_all_or_nothing_witness:
  "audits_where (refused_one sample_ctx [sample_item]) (sample_world (sample_db\<lparr>tbl_permissions := []\<rparr>))
     (snd (resolveProfileAccess sample_ctx sample_profile_input
        (sample_world (sample_db\<lparr>tbl_permissions := []\<rparr>))))"
proof -
  let ?w = "sample_world (sample_db\<lparr>tbl_permissions := []\<rparr>)"
  have "\<exists>e. fst (resolveProfileAccess sample_ctx sample_profile_input ?w) = Inl e"
    by (simp add: resolveProfileAccess_def sample_profile_input_def sample_ctx_def sample_rows eff_defs
      select_def statement_def profile_exists_def profile_items_def findFirst_def findMany_def orgScope_def
      MAX_PROFILE_USE_ITEMS_def stage_item_def require_constraint_eq checkActionConstraint_def
      lookupPermission_def grant_rows_def require_grant_def deny_eq)
  then obtain e where "fst (resolveProfileAccess sample_ctx sample_profile_input ?w) = Inl e" by blast
  from resolveProfileAccess_all_or_nothing [OF outcome [OF this]] show ?thesis
    by (simp add: sample_profile_input_def sample_ctx_def sample_rows profile_items_def findMany_def
        orgScope_def)
qed

section \<open>Which grant decides\<close>

lemma pick_grant_pool:
  assumes "filter (not_expired now) rows \<noteq> []"
  shows "pick_grant now rows = hd (item_level_first (filter (not_expired now) rows))"
    and "pick_grant now rows \<in> set rows" and "not_expired now (pick_grant now rows)"
proof -
  let ?pool = "filter (not_expired now) rows"
  show pick: "pick_grant now rows = hd (item_level_first ?pool)"
    using assms by (simp add: pick_grant_def Let_def)
  have mem: "set (item_level_first ?pool) = set ?pool" by (auto simp: item_level_first_def)
  then have "item_level_first ?pool \<noteq> []" using assms by (metis set_empty)
  then have "pick_grant now rows \<in> set ?pool" using pick mem by (metis hd_in_set)
  then show "pick_grant now rows \<in> set rows" "not_expired now (pick_grant now rows)" by simp_all
qed

text \<open>The grant that decides is never an expired one while an unexpired one covers the item, and
  among the unexpired ones an item-level grant is preferred to a profile-level one.\<close>

theorem pick_grant_prefers_live_and_specific:
  assumes "q \<in> set rows" "not_expired now q"
  shows "not_expired now (pick_grant now rows) \<and>
    (truthy (perm_itemId q) \<longrightarrow> truthy (perm_itemId (pick_grant now rows)))"
proof -
  let ?pool = "filter (not_expired now) rows"
  let ?top = "filter (\<lambda>p. truthy (perm_itemId p)) ?pool"
  have q: "q \<in> set ?pool" using assms by simp
  then have ne: "?pool \<noteq> []" by (metis empty_iff empty_set)
  have "truthy (perm_itemId (pick_grant now rows))" if "truthy (perm_itemId q)"
  proof -
    have top: "?top \<noteq> []" using q that by (auto simp: filter_empty_conv)
    then have "pick_grant now rows = hd ?top"
      unfolding pick_grant_pool(1) [OF ne] item_level_first_def by (rule hd_append2)
    moreover have "hd ?top \<in> set ?top" using top by (rule hd_in_set)
    ultimately show ?thesis by (metis (mono_tags, lifting) mem_Collect_eq set_filter)
  qed
  with pick_grant_pool(3) [OF ne] show ?thesis by simp
qed

lemma pick_grant_prefers_live_and_specific_witness:
  "not_expired 6000 (pick_grant 6000 [sample_read_grant, sample_use_grant])"
  using pick_grant_prefers_live_and_specific
    [of sample_use_grant "[sample_read_grant, sample_use_grant]" 6000]
  by (simp add: not_expired_def sample_use_grant_def)

lemma use_item_succeeds:
  assumes d: "in_delivery inp = Some d" and up: "\<And>n. faults w n = None"
    and fresh: "\<And>s. s \<in> set (tbl_mountReservations (store w)) \<Longrightarrow>
        res_id s \<noteq> uuids w (Suc (draws w)) \<and> res_mountId s \<noteq> ''mnt_'' @ uuids w (draws w)"
  shows "\<exists>u. fst (use_item cx inp item m w) = Inr (Use_mount u)"
proof -
  have "\<forall>s \<in> set (tbl_mountReservations (store w)). \<not> res_clash
      (new_reservation cx (in_itemId inp) d (in_field inp) (in_envVarName inp)
        (uuids w (Suc (draws w))) (''mnt_'' @ uuids w (draws w)) (clock w (ticks w) + MOUNT_TTL_MS)) s"
    using fresh by (fastforce simp: res_clash_def new_reservation_def)
  with d up show ?thesis
    by (simp add: use_item_def Let_def generateMountId_def eff_defs transaction_def statement_def
        insert_reservations_def insert_audit_def insert_audits_def)
qed

text \<open>C9: a permitted \<open>use\<close> is granted. If the item is live, the combination allowed, some grant
  covering the item is unexpired when the grants are ranked and none of the covering grants expires
  between the two readings of the clock, the database answers every statement and the fresh
  identifiers are new, then the request returns a mount handle.\<close>

theorem permitted_use_is_granted:
  assumes item: "live_item (cx_orgId cx) (in_itemId inp) (store w) = Some item"
    and allowed: "isActionAllowed (in_action inp) (cx_locality cx) (item_storageMode item)"
    and grant: "q \<in> set (grant_rows (cx_orgId cx) (cx_agentId cx) (in_itemId inp)
        (item_profileId item) (in_action inp) (store w))" "not_expired (clock w (ticks w)) q"
    and steady: "\<And>p. p \<in> set (grant_rows (cx_orgId cx) (cx_agentId cx) (in_itemId inp)
        (item_profileId item) (in_action inp) (store w)) \<Longrightarrow> not_expired (clock w (ticks w)) p \<Longrightarrow>
        not_expired (clock w (Suc (ticks w))) p"
    and use: "in_action inp = Act_use" "in_delivery inp = Some d"
    and up: "\<And>n. faults w n = None"
    and fresh: "\<And>s. s \<in> set (tbl_mountReservations (store w)) \<Longrightarrow>
        res_id s \<noteq> uuids w (Suc (draws w)) \<and> res_mountId s \<noteq> ''mnt_'' @ uuids w (draws w)"
  shows "\<exists>u. fst (resolveAccess rt cx inp w) = Inr (Use_mount u)"
proof -
  let ?rows = "grant_rows (cx_orgId cx) (cx_agentId cx) (in_itemId inp)
      (item_profileId item) (in_action inp) (store w)"
  let ?p = "pick_grant (clock w (ticks w)) ?rows"
  from grant(1) have ne: "?rows \<noteq> []" by (metis empty_iff empty_set)
  then have "?p \<in> set ?rows" by (rule pick_grant_mem)
  moreover have "not_expired (clock w (ticks w)) ?p"
    using grant by (intro pick_grant_pool(3)) (auto simp: filter_empty_conv)
  ultimately have "not_expired (clock w (Suc (ticks w))) ?p" by (rule steady)
  then have "authorize cx inp (store w) (clock w (ticks w)) (clock w (Suc (ticks w))) =
      V_granted item (match_of ?p)"
    using item allowed ne
    by (auto simp: authorize_def checkActionConstraint_Inr [symmetric] Let_def match_of_def
        not_expired_def split: option.splits)
  then have "resolveAccess rt cx inp w =
      use_item cx inp item (match_of ?p) (advance 2 (grant_ticks (match_of ?p)) w)"
    using use(1) up by (simp add: resolveAccess_refines deliver_def)
  moreover have "\<exists>u. fst (use_item cx inp item (match_of ?p) (advance 2 (grant_ticks (match_of ?p)) w)) =
      Inr (Use_mount u)"
    by (rule use_item_succeeds [OF use(2)]) (use up fresh in simp_all)
  ultimately show ?thesis by simp
qed

lemma permitted_use_is_granted_witness:
  "\<exists>u. fst (resolveAccess sample_runtime sample_ctx (sample_input Act_use) (sample_world sample_db)) =
     Inr (Use_mount u)"
proof (rule permitted_use_is_granted [where item = sample_item and q = sample_use_grant and d = Env])
  show "live_item (cx_orgId sample_ctx) (in_itemId (sample_input Act_use)) (store (sample_world sample_db))
      = Some sample_item"
    by (simp add: sample_request sample_rows live_item_def findFirst_def orgScope_def)
  show "isActionAllowed (in_action (sample_input Act_use)) (cx_locality sample_ctx)
      (item_storageMode sample_item)"
    by (simp add: sample_request isActionAllowed_iff)
qed (simp_all add: sample_request sample_rows grant_rows_def findMany_def orgScope_def grant_covers_def
      not_expired_def)

section \<open>The policy\<close>

text \<open>What access control means, without the order of the checks: some live item of the tenant with that
  id may be acted on in that way, and some grant of the agent covers it now.\<close>

definition policy :: "agent_ctx \<Rightarrow> access_input \<Rightarrow> db \<Rightarrow> int \<Rightarrow> bool" where
  "policy cx inp d now = (\<exists>item \<in> set (tbl_items d). \<exists>p \<in> set (tbl_permissions d). permits cx inp d now item p)"

lemma find_the: "x \<in> set xs \<Longrightarrow> P x \<Longrightarrow> (\<And>y. y \<in> set xs \<Longrightarrow> P y \<Longrightarrow> y = x) \<Longrightarrow> find P xs = Some x"
proof (induction xs)
  case (Cons a xs)
  show ?case
  proof (cases "P a")
    case True
    with Cons.prems(3) [of a] show ?thesis by simp
  next
    case False
    with Cons show ?thesis by (metis find.simps(2) list.set_intros(2) set_ConsD)
  qed
qed simp

lemma permits_authorizes:
  assumes p: "permits cx inp d now item p" and ids: "distinct (map item_id (tbl_items d))"
    and clear: "\<And>q. q \<in> set (tbl_permissions d) \<Longrightarrow> perm_expiresAt q \<noteq> Some now"
  shows "\<exists>q. authorize cx inp d now now = V_granted item (match_of q)"
proof -
  let ?rows = "grant_rows (cx_orgId cx) (cx_agentId cx) (in_itemId inp) (item_profileId item) (in_action inp) d"
  have "y = item" if "y \<in> set (tbl_items d)" "item_id y = in_itemId inp" for y
    using distinct_map_inj_on_eq [OF ids that(1), of item] that(2) p by (simp add: permits_def)
  then have live: "live_item (cx_orgId cx) (in_itemId inp) d = Some item"
    unfolding live_item_def findFirst_def using p by (intro find_the) (auto simp: permits_def orgScope_def)
  have row: "p \<in> set ?rows"
    using p by (cases "item_profileId item") (auto simp: permits_def grant_rows_iff grant_covers_def legacyCaps_mem)
  have "not_expired now p"
    using p clear [of p] unfolding permits_def not_expired_def by (cases "perm_expiresAt p") auto
  with row have "not_expired now (pick_grant now ?rows)" by (intro pick_grant_pool(3)) (auto simp: filter_empty_conv)
  with live row p have "authorize cx inp d now now = V_granted item (match_of (pick_grant now ?rows))"
    by (auto simp: authorize_def permits_def checkActionConstraint_Inr [symmetric] Let_def match_of_def not_expired_def
        split: option.splits)
  then show ?thesis by blast
qed



end
