(* ===== verification/Mount_Redeem.thy ===== *)
theory Mount_Redeem
  imports Access_Properties
begin

text \<open>
  Redeeming a mount handle (\<open>consumeReservation\<close> and \<open>redeemMount\<close> of
  \<open>packages/trpc/src/server/routers/access.ts\<close>): one statement consumes the reservation, then the
  item is loaded and delivered. The life of the reservations of a deployment is a step relation
  over minting and consuming statements in any interleaving.
\<close>

section \<open>Consuming\<close>

text \<open>The condition of the \<open>UPDATE\<close>; the expiry is compared with the database's \<open>NOW()\<close>.\<close>

definition redeemable :: "string \<Rightarrow> string \<Rightarrow> int \<Rightarrow> reservation_row \<Rightarrow> bool" where
  "redeemable agentId mountId NOW r =
     (res_mountId r = mountId \<and> res_agentId r = agentId \<and> res_consumedAt r = None \<and>
      res_expiresAt r > NOW)"

definition consume_reservation :: "string \<Rightarrow> string \<Rightarrow> int \<Rightarrow> int \<Rightarrow> db \<Rightarrow> reservation_row list \<times> db" where
  "consume_reservation agentId mountId NOW now d =
     (map (\<lambda>r. r\<lparr>res_consumedAt := Some now\<rparr>)
        (filter (redeemable agentId mountId NOW) (tbl_mountReservations d)),
      d\<lparr>tbl_mountReservations := map (\<lambda>r. if redeemable agentId mountId NOW r
           then r\<lparr>res_consumedAt := Some now\<rparr> else r) (tbl_mountReservations d)\<rparr>)"

text \<open>\<open>rows[0] ?? null\<close>.\<close>

fun first_row :: "'a list \<Rightarrow> 'a option" where
  "first_row [] = None"
| "first_row (r # rs) = Some r"

lemma first_row_Some: "first_row rows = Some r \<longleftrightarrow> (\<exists>rs. rows = r # rs)"
  "Some r = first_row rows \<longleftrightarrow> (\<exists>rs. rows = r # rs)"
  by (cases rows; auto)+

definition consumeReservation :: "agent_ctx \<Rightarrow> string \<Rightarrow> reservation_row option server" where
  "consumeReservation cx mountId =
     andThen new_Date (\<lambda>now.
     andThen (\<lambda>w. statement (\<lambda>d. Inr (consume_reservation (cx_agentId cx) mountId (pg_now w) now d)) w)
       (\<lambda>rows. succeed (first_row rows)))"

section \<open>Redeeming\<close>

record redeem_common =
  rd_delivery :: delivery_mode
  rd_label :: string
  rd_itemId :: string

datatype redeem_result =
    Redeem_zk redeem_common zk_envelope
  | Redeem_server redeem_common item_payload

definition via_redeem :: json_object where
  "via_redeem = [(''via'', JStr ''mount_redeem'')]"

definition redeem_entry ::
  "agent_ctx \<Rightarrow> reservation_row \<Rightarrow> item_row \<Rightarrow> audit_result \<Rightarrow> json_object \<Rightarrow> audit_entry" where
  "redeem_entry cx r item res meta =
     (agent_entry cx (Some (item_id item))
        (if res_delivery r = File then Ev_access_mount_file else Ev_access_mount_env) res
        (Some (via_redeem @ meta)))\<lparr>ae_profileId := item_profileId item\<rparr>"

definition mount_mode :: "reservation_row \<Rightarrow> string" where
  "mount_mode r = (if res_delivery r = File then ''mount_file'' else ''mount_env'')"

definition redeem_item ::
  "runtime \<Rightarrow> agent_ctx \<Rightarrow> string \<Rightarrow> reservation_row \<Rightarrow> item_row \<Rightarrow> redeem_result server" where
  "redeem_item rt cx mountId r item =
     (let common = \<lparr>rd_delivery = res_delivery r, rd_label = item_label item, rd_itemId = item_id item\<rparr>;
          allowed = (redeem_entry cx r item Allowed [(''mountId'', JStr mountId)])
                      \<lparr>ae_deliveryMode := Some (mount_mode r)\<rparr> in
      case item_storageMode item of
        Zero_knowledge \<Rightarrow>
          (if no_zk_envelope item then
             deny (redeem_entry cx r item Denied (reason ''zk item missing envelope or profile binding''))
               (integrity [(''itemId'', JStr (item_id item))])
           else followed_by (logAgentAudit allowed) (succeed (Redeem_zk common (zk_of item))))
      | Server_managed \<Rightarrow>
          (if no_server_data item then
             deny (redeem_entry cx r item Denied (reason ''server-managed item has no payload''))
               (integrity [(''itemId'', JStr (item_id item))])
           else andThen (tap_error
               (decryptServerEnvelope (rt_crypto rt) (cx_ENCRYPTION_KEY cx) (cx_orgId cx) item None)
               (\<lambda>_. catch_all (logAgentAudit ((redeem_entry cx r item Denied
                      [(''mountId'', JStr mountId), (''reason'', JStr ''decrypt_failed'')])
                      \<lparr>ae_deliveryMode := Some (mount_mode r)\<rparr>)) (\<lambda>_. succeed ())))
             (\<lambda>decrypted. followed_by (logAgentAudit allowed)
               (succeed (Redeem_server common (decodeServerManagedPayload (rt_JSON_parse rt)
                  (item_id item) (decode_text decrypted)))))))"

definition redeemMount :: "runtime \<Rightarrow> agent_ctx \<Rightarrow> string \<Rightarrow> redeem_result server" where
  "redeemMount rt cx mountId =
     andThen (consumeReservation cx mountId) (\<lambda>reservation.
       case reservation of
         None \<Rightarrow> deny (agent_entry cx None Ev_access_mount_env Denied (Some (via_redeem @
                   [(''reason'', JStr ''reservation_unavailable''), (''mountId'', JStr mountId)])))
                 (notFound ''MOUNT_NOT_FOUND'')
       | Some r \<Rightarrow> andThen (loadItem cx (res_itemId r)) (\<lambda>found.
           case found of
             None \<Rightarrow> deny (agent_entry cx (Some (res_itemId r))
                       (if res_delivery r = File then Ev_access_mount_file else Ev_access_mount_env)
                       Denied (Some (via_redeem @ [(''reason'', JStr ''item_deleted_after_mint''),
                          (''mountId'', JStr mountId)])))
                     (notFound ''ITEM_NOT_FOUND'')
           | Some item \<Rightarrow> redeem_item rt cx mountId r item))"

section \<open>What consuming does\<close>

lemma consumeReservation_ok:
  "consumeReservation cx m w = (Inr x, w') \<longleftrightarrow> faults w (stmts w) = None \<and>
     (\<exists>rows d. consume_reservation (cx_agentId cx) m (pg_now w) (clock w (ticks w)) (store w) = (rows, d) \<and>
        x = first_row rows \<and>
        w' = w\<lparr>ticks := Suc (ticks w), stmts := Suc (stmts w), store := d\<rparr>)"
  by (auto simp: consumeReservation_def andThen_Inr statement_ok succeed_def)

lemma consumeReservation_fails:
  "consumeReservation cx m w = (Inl e, w') \<Longrightarrow> same_store w w'"
  by (auto simp: consumeReservation_def andThen_Inl statement_fails succeed_def same_store_def
      env_kept_def)

lemma consume_reservation_eq:
  "consume_reservation a m NOW now d = (rows, d') \<Longrightarrow>
     rows = map (\<lambda>r. r\<lparr>res_consumedAt := Some now\<rparr>)
        (filter (redeemable a m NOW) (tbl_mountReservations d)) \<and>
     tbl_mountReservations d' = map (\<lambda>r. if redeemable a m NOW r
        then r\<lparr>res_consumedAt := Some now\<rparr> else r) (tbl_mountReservations d)"
  by (auto simp: consume_reservation_def)

lemma consume_hit:
  assumes "consume_reservation a m NOW now d = (r # rows, d')"
  obtains r0 where "r0 \<in> set (tbl_mountReservations d)" "redeemable a m NOW r0"
    "r = r0\<lparr>res_consumedAt := Some now\<rparr>" "r \<in> set (tbl_mountReservations d')"
proof -
  note eqs = conjunct1 [OF consume_reservation_eq [OF assms]]
    conjunct2 [OF consume_reservation_eq [OF assms]]
  have "r \<in> set (map (\<lambda>r. r\<lparr>res_consumedAt := Some now\<rparr>)
      (filter (redeemable a m NOW) (tbl_mountReservations d)))"
    using eqs(1) by (metis list.set_intros(1))
  then obtain r0 where r0: "r0 \<in> set (tbl_mountReservations d)" "redeemable a m NOW r0"
    "r = r0\<lparr>res_consumedAt := Some now\<rparr>" by auto
  moreover from r0 have "r \<in> set (tbl_mountReservations d')"
    unfolding eqs(2) set_map by (intro image_eqI [of _ _ r0]) simp_all
  ultimately show ?thesis by (rule that)
qed

lemma consume_items:
  "consume_reservation a m NOW now d = (rows, d') \<Longrightarrow> tbl_items d' = tbl_items d"
  by (auto simp: consume_reservation_def)

lemma consume_not_redeemable:
  assumes "consume_reservation a m NOW now d = (rows, d')" "s \<in> set (tbl_mountReservations d')"
  shows "\<not> redeemable a m NOW s"
  using assms by (auto simp: consume_reservation_def) (auto simp: redeemable_def split: if_splits)

lemma keeps_redeem_item: "keeps only_audits (redeem_item rt cx m r item)"
  unfolding redeem_item_def Let_def agent_log.catch_log
  by (auto intro!: keeps_audits keeps_deny agent_log.keeps_log_where simp: keeps_same_where
      split: storage_mode.split)

lemma redeem_item_Inr:
  assumes "redeem_item rt cx m r item w = (Inr x, w')"
  shows "case x of Redeem_zk c z \<Rightarrow> rd_itemId c = item_id item \<and> z = zk_of item
              | Redeem_server c _ \<Rightarrow> rd_itemId c = item_id item"
  using assms
  by (auto simp: redeem_item_def Let_def deny_eq followed_by_def andThen_Inr succeed_def
      split: storage_mode.splits if_splits)

lemma redeemMount_Inr:
  assumes "redeemMount rt cx m w = (Inr x, w')"
  obtains r rows item w0 where
    "consume_reservation (cx_agentId cx) m (pg_now w) (clock w (ticks w)) (store w) = (r # rows, store w0)"
    "live_item (cx_orgId cx) (res_itemId r) (store w0) = Some item"
    "redeem_item rt cx m r item (advance (Suc 0) 0 w0) = (Inr x, w')"
proof -
  from assms obtain y w0 where c: "consumeReservation cx m w = (Inr y, w0)"
    and k: "(case y of None \<Rightarrow> deny (agent_entry cx None Ev_access_mount_env Denied (Some (via_redeem @
                   [(''reason'', JStr ''reservation_unavailable''), (''mountId'', JStr m)])))
                 (notFound ''MOUNT_NOT_FOUND'')
       | Some r \<Rightarrow> andThen (loadItem cx (res_itemId r)) (\<lambda>found.
           case found of
             None \<Rightarrow> deny (agent_entry cx (Some (res_itemId r))
                       (if res_delivery r = File then Ev_access_mount_file else Ev_access_mount_env)
                       Denied (Some (via_redeem @ [(''reason'', JStr ''item_deleted_after_mint''),
                          (''mountId'', JStr m)])))
                     (notFound ''ITEM_NOT_FOUND'')
           | Some item \<Rightarrow> redeem_item rt cx m r item)) w0 = (Inr x, w')"
    unfolding redeemMount_def andThen_Inr by blast
  from k obtain r where y: "y = Some r" by (auto simp: deny_eq split: option.splits)
  from c y obtain rows where
    "consume_reservation (cx_agentId cx) m (pg_now w) (clock w (ticks w)) (store w) = (r # rows, store w0)"
    by (auto simp: consumeReservation_ok first_row_Some)
  with k y that show ?thesis
    by (auto simp: andThen_Inr loadItem_ok deny_eq split: option.splits)
qed

text \<open>A successful redemption consumed a stored reservation of this handle that belonged to the
  asking agent, was not consumed before and had not expired by the database's clock; the delivered
  item is the live item of the agent's tenant that the reservation names, and afterwards no
  reservation of this handle and agent is redeemable at that database time.\<close>

theorem redeemMount_needs_reservation:
  assumes "redeemMount rt cx m w = (Inr x, w')"
  shows "\<exists>r item. r \<in> set (tbl_mountReservations (store w)) \<and>
     redeemable (cx_agentId cx) m (pg_now w) r \<and>
     live_item (cx_orgId cx) (res_itemId r) (store w) = Some item \<and>
     (case x of Redeem_zk c z \<Rightarrow> rd_itemId c = item_id item \<and> z = zk_of item
              | Redeem_server c _ \<Rightarrow> rd_itemId c = item_id item) \<and>
     (\<forall>s \<in> set (tbl_mountReservations (store w')). \<not> redeemable (cx_agentId cx) m (pg_now w) s)"
proof -
  obtain r rows item w0 where
    c: "consume_reservation (cx_agentId cx) m (pg_now w) (clock w (ticks w)) (store w)
      = (r # rows, store w0)"
    and item: "live_item (cx_orgId cx) (res_itemId r) (store w0) = Some item"
    and x: "redeem_item rt cx m r item (advance (Suc 0) 0 w0) = (Inr x, w')"
    by (rule redeemMount_Inr [OF assms])
  obtain r0 where r0: "r0 \<in> set (tbl_mountReservations (store w))"
      "redeemable (cx_agentId cx) m (pg_now w) r0" "r = r0\<lparr>res_consumedAt := Some (clock w (ticks w))\<rparr>"
    by (rule consume_hit [OF c])
  have d: "tbl_items (store w0) = tbl_items (store w)"
    by (rule consume_items [OF c])
  have "tbl_mountReservations (store w') = tbl_mountReservations (store w0)"
    using audits_where_frame(6) [OF keepsD [OF keeps_redeem_item x]] by simp
  with consume_not_redeemable [OF c] redeem_item_Inr [OF x] r0 item d show ?thesis
    by (intro exI [of _ r0] exI [of _ item]) (auto simp: live_item_def)
qed

section \<open>The life of a handle\<close>

text \<open>
  The statements that touch the reservations, in any interleaving, from any agents and at any times:
  minting a batch of unconsumed rows, and the consuming \<open>UPDATE\<close>. The second component lists
  the successful consumptions, newest first.
\<close>

type_synonym mount_state = "db \<times> (string \<times> string) list"

inductive mount_step :: "mount_state \<Rightarrow> mount_state \<Rightarrow> bool" where
  mint: "insert_reservations rs d = Inr ((), d') \<Longrightarrow> \<forall>r \<in> set rs. res_consumedAt r = None \<Longrightarrow>
    mount_step (d, h) (d', h)"
| hit: "consume_reservation a m NOW now d = (r # rs, d') \<Longrightarrow> mount_step (d, h) (d', (m, a) # h)"
| miss: "consume_reservation a m NOW now d = ([], d') \<Longrightarrow> mount_step (d, h) (d', h)"
| other: "tbl_mountReservations d' = tbl_mountReservations d \<Longrightarrow> mount_step (d, h) (d', h)"

inductive mount_run :: "db \<Rightarrow> mount_state \<Rightarrow> bool" for d0 where
  start: "mount_run d0 (d0, [])"
| more: "mount_run d0 s \<Longrightarrow> mount_step s s' \<Longrightarrow> mount_run d0 s'"

definition consumed_once :: "mount_state \<Rightarrow> bool" where
  "consumed_once s = (case s of (d, h) \<Rightarrow>
     unique_by res_clash (tbl_mountReservations d) \<and> distinct (map fst h) \<and>
     (\<forall>(m, a) \<in> set h. \<exists>r \<in> set (tbl_mountReservations d).
        res_mountId r = m \<and> res_agentId r = a \<and> res_consumedAt r \<noteq> None))"

lemma unique_by_map:
  "(\<And>x y. clash (f x) (f y) = clash x y) \<Longrightarrow> unique_by clash (map f xs) = unique_by clash xs"
  by (simp add: unique_by_def)

lemma consume_keeps_unique:
  assumes "consume_reservation a m NOW now d = (rows, d')"
    and "unique_by res_clash (tbl_mountReservations d)"
  shows "unique_by res_clash (tbl_mountReservations d')"
proof -
  have "tbl_mountReservations d' = map (\<lambda>r. if redeemable a m NOW r
        then r\<lparr>res_consumedAt := Some now\<rparr> else r) (tbl_mountReservations d)"
    using consume_reservation_eq [OF assms(1)] by blast
  then show ?thesis using assms(2) by (simp add: unique_by_map res_clash_def)
qed

text \<open>Consumed rows stay consumed.\<close>

lemma consume_keeps_consumed:
  assumes "consume_reservation a m NOW now d = (rows, d')" "r \<in> set (tbl_mountReservations d)"
    and "res_consumedAt r \<noteq> None"
  shows "r \<in> set (tbl_mountReservations d')"
proof -
  have "\<not> redeemable a m NOW r" using assms(3) by (auto simp: redeemable_def)
  with assms(2) consume_reservation_eq [OF assms(1)] show ?thesis by force
qed

lemma consumed_once_step:
  assumes "mount_step (d, h) (d', h')" "consumed_once (d, h)"
  shows "consumed_once (d', h')"
  using assms(1)
proof cases
  case (mint rs)
  with assms(2) show ?thesis
    by (auto simp: consumed_once_def insert_reservations_def unique_by_append split: if_splits)
       fastforce
next
  case (hit a m NOW now r rs)
  obtain r0 where r0: "r0 \<in> set (tbl_mountReservations d)" "redeemable a m NOW r0"
    "r = r0\<lparr>res_consumedAt := Some now\<rparr>" "r \<in> set (tbl_mountReservations d')"
    by (rule consume_hit [OF hit(2)])
  have u: "unique_by res_clash (tbl_mountReservations d)" using assms(2) by (simp add: consumed_once_def)
  have new: "m \<notin> fst ` set h"
  proof
    assume "m \<in> fst ` set h"
    then obtain s where s: "s \<in> set (tbl_mountReservations d)" "res_mountId s = m" "res_consumedAt s \<noteq> None"
      using assms(2) by (force simp: consumed_once_def)
    then have "s = r0" using u r0 by (intro unique_by_eqI [OF u]) (auto simp: res_clash_def redeemable_def)
    with s r0 show False by (simp add: redeemable_def)
  qed
  have "res_mountId r = m" "res_agentId r = a" "res_consumedAt r \<noteq> None"
    using r0 by (auto simp: redeemable_def)
  then show ?thesis
    using assms(2) new r0(4) hit(1) consume_keeps_unique [OF hit(2) u] consume_keeps_consumed [OF hit(2)]
    by (fastforce simp: consumed_once_def)
next
  case (miss a m NOW now)
  with assms(2) show ?thesis
    using consume_keeps_unique [OF miss(2)] consume_keeps_consumed [OF miss(2)]
    by (fastforce simp: consumed_once_def)
next
  case other
  with assms(2) show ?thesis by (simp add: consumed_once_def)
qed

lemma consumed_once_steps:
  assumes "mount_step\<^sup>*\<^sup>* s s'" "consumed_once s"
  shows "consumed_once s'"
  using assms by (induction rule: rtranclp_induct) (auto intro: consumed_once_step)

lemma mount_run_consumed_once:
  assumes "unique_by res_clash (tbl_mountReservations d0)"
  shows "mount_run d0 s \<Longrightarrow> consumed_once s"
proof (induction rule: mount_run.induct)
  case start
  with assms show ?case by (simp add: consumed_once_def)
next
  case (more s s')
  then show ?case by (metis consumed_once_step prod.collapse)
qed

text \<open>Whatever statements run in whatever order, from a table in which handles are unique every
  handle is consumed at most once, by the agent it was minted for.\<close>

theorem handle_consumed_at_most_once:
  assumes "unique_by res_clash (tbl_mountReservations d0)" "mount_run d0 (d, h)"
  shows "distinct (map fst h) \<and>
    (\<forall>(m, a) \<in> set h. \<exists>r \<in> set (tbl_mountReservations d).
       res_mountId r = m \<and> res_agentId r = a \<and> res_consumedAt r \<noteq> None)"
  using mount_run_consumed_once [OF assms] by (simp add: consumed_once_def)

section \<open>Handlers as steps\<close>

lemma step_other:
  "tbl_mountReservations d' = tbl_mountReservations d \<Longrightarrow> mount_step\<^sup>*\<^sup>* (d, h) (d', h)"
  by (blast intro: mount_step.other)

lemma step_mint:
  assumes "batch_ok res_clash (tbl_mountReservations d) rs" "\<forall>r \<in> set rs. res_consumedAt r = None"
    and "tbl_mountReservations d' = tbl_mountReservations d @ rs"
  shows "mount_step\<^sup>*\<^sup>* (d, h) (d', h)"
proof -
  have "mount_step (d, h) (d\<lparr>tbl_mountReservations := tbl_mountReservations d @ rs\<rparr>, h)"
    using assms(1,2) by (intro mount_step.mint [of rs]) (simp_all add: insert_reservations_def)
  moreover have "mount_step (d\<lparr>tbl_mountReservations := tbl_mountReservations d @ rs\<rparr>, h) (d', h)"
    using assms(3) by (intro mount_step.other) simp
  ultimately show ?thesis by (meson converse_rtranclp_into_rtranclp r_into_rtranclp)
qed

lemma resolveAccess_steps:
  assumes "resolveAccess rt cx inp w = (x, w')"
  shows "mount_step\<^sup>*\<^sup>* (store w, h) (store w', h)"
proof (cases x)
  case (Inl e)
  then show ?thesis
    using resolveAccess_error_frame [of rt cx inp w e w'] assms
    by (intro step_other) (simp add: audits_where_frame(6))
next
  case (Inr y)
  show ?thesis
  proof (cases y)
    case (Use_mount u)
    with Inr assms resolveAccess_use_store [of rt cx inp w u w'] obtain r where
      "reserves cx r u" "\<forall>s \<in> set (tbl_mountReservations (store w)). \<not> res_clash r s"
      "tbl_mountReservations (store w') = tbl_mountReservations (store w) @ [r]" by auto
    then show ?thesis by (intro step_mint [of _ "[r]"]) (simp_all add: reserves_def)
  next
    case (Read_server p)
    have "in_action inp = Act_read"
      using resolveAccess_about [of rt cx inp w y w'] assms Inr Read_server by (auto simp: answers_def)
    with assms Inr resolveAccess_read_store [of rt cx inp w y w'] show ?thesis
      by (intro step_other) auto
  next
    case (Read_zk z)
    have "in_action inp = Act_read"
      using resolveAccess_about [of rt cx inp w y w'] assms Inr Read_zk by (auto simp: answers_def)
    with assms Inr resolveAccess_read_store [of rt cx inp w y w'] show ?thesis
      by (intro step_other) auto
  qed
qed

lemma resolveProfileAccess_steps:
  assumes "resolveProfileAccess cx pin w = (x, w')" "pi_action pin = Act_use"
  shows "mount_step\<^sup>*\<^sup>* (store w, h) (store w', h)"
proof (cases x)
  case (Inl e)
  then show ?thesis
    using resolveProfileAccess_error_frame [of cx pin w e w'] assms
    by (intro step_other) (simp add: audits_where_frame(6))
next
  case (Inr us)
  with assms resolveProfileAccess_store [of cx pin w us w'] obtain rs where
    rs: "batch_ok res_clash (tbl_mountReservations (store w)) rs" "list_all2 (reserves cx) rs us"
    "tbl_mountReservations (store w') = tbl_mountReservations (store w) @ rs" by auto
  have "\<forall>r \<in> set rs. res_consumedAt r = None"
    using rs(2) by (auto simp: in_set_conv_nth list_all2_conv_all_nth reserves_def)
  with rs show ?thesis by (intro step_mint [of _ rs])
qed

text \<open>A redemption is at most one consumption; a successful one is exactly one, of its handle.\<close>

lemma redeemMount_steps:
  assumes "redeemMount rt cx m w = (x, w')"
  shows "mount_step\<^sup>*\<^sup>* (store w, h) (store w', (m, cx_agentId cx) # h) \<or>
    ((\<exists>e. x = Inl e) \<and> mount_step\<^sup>*\<^sup>* (store w, h) (store w', h))"
proof -
  let ?K = "\<lambda>y. case y of
      None \<Rightarrow> deny (agent_entry cx None Ev_access_mount_env Denied (Some (via_redeem @
                   [(''reason'', JStr ''reservation_unavailable''), (''mountId'', JStr m)])))
                 (notFound ''MOUNT_NOT_FOUND'')
    | Some r \<Rightarrow> andThen (loadItem cx (res_itemId r)) (\<lambda>found.
           case found of
             None \<Rightarrow> deny (agent_entry cx (Some (res_itemId r))
                       (if res_delivery r = File then Ev_access_mount_file else Ev_access_mount_env)
                       Denied (Some (via_redeem @ [(''reason'', JStr ''item_deleted_after_mint''),
                          (''mountId'', JStr m)])))
                     (notFound ''ITEM_NOT_FOUND'')
           | Some item \<Rightarrow> redeem_item rt cx m r item)"
  have K: "keeps only_audits (?K y)" for y
    by (auto intro!: keeps_audits keeps_deny keeps_redeem_item simp: keeps_same_where loadItem_def
        split: option.split)
  have def': "redeemMount rt cx m = andThen (consumeReservation cx m) ?K" by (simp add: redeemMount_def)
  show ?thesis
  proof (cases "consumeReservation cx m w")
    case (Pair y w1)
    show ?thesis
    proof (cases y)
      case (Inl e)
      with Pair assms have "x = Inl e" "w' = w1" by (auto simp: def' andThen_def)
      with consumeReservation_fails [of cx m w e w1] Pair Inl show ?thesis
        by (auto simp: same_store_def)
    next
      case (Inr z)
      with Pair assms have k: "?K z w1 = (x, w')" by (simp add: def' andThen_def)
      have tail: "mount_step\<^sup>*\<^sup>* (store w1, g) (store w', g)" for g
        using audits_where_frame(6) [OF keepsD [OF K k]] by (rule step_other)
      from Inr Pair obtain rows where
        c: "consume_reservation (cx_agentId cx) m (pg_now w) (clock w (ticks w)) (store w) = (rows, store w1)"
        and z: "z = first_row rows" by (auto simp: consumeReservation_ok)
      show ?thesis
      proof (cases rows)
        case Nil
        with z k have e: "\<exists>e. x = Inl e" by (auto simp: deny_eq)
        have "mount_step (store w, h) (store w1, h)"
          using c Nil by (blast intro: mount_step.miss)
        with tail have "mount_step\<^sup>*\<^sup>* (store w, h) (store w', h)"
          by (meson converse_rtranclp_into_rtranclp)
        with e show ?thesis by blast
      next
        case (Cons r rs)
        then have "mount_step (store w, h) (store w1, (m, cx_agentId cx) # h)"
          using c by (blast intro: mount_step.hit)
        then show ?thesis using tail by (meson converse_rtranclp_into_rtranclp)
      qed
    qed
  qed
qed

section \<open>Sequences of requests\<close>

datatype mount_request =
    Req_access access_input
  | Req_profile profile_input
  | Req_redeem string

text \<open>Requests of any agents, one after the other, each at its own database time; the result lists the
  handles whose content was delivered, with the agent it was delivered to.\<close>

fun serve :: "runtime \<Rightarrow> (agent_ctx \<times> int \<times> mount_request) list \<Rightarrow> world \<Rightarrow> (string \<times> string) list" where
  "serve rt [] w = []"
| "serve rt ((cx, t, Req_access inp) # reqs) w =
     serve rt reqs (snd (resolveAccess rt cx inp (w\<lparr>pg_now := t\<rparr>)))"
| "serve rt ((cx, t, Req_profile pin) # reqs) w =
     serve rt reqs (snd (resolveProfileAccess cx (pin\<lparr>pi_action := Act_use\<rparr>) (w\<lparr>pg_now := t\<rparr>)))"
| "serve rt ((cx, t, Req_redeem m) # reqs) w =
     (case redeemMount rt cx m (w\<lparr>pg_now := t\<rparr>) of
        (Inl e, w1) \<Rightarrow> serve rt reqs w1
      | (Inr x, w1) \<Rightarrow> (m, cx_agentId cx) # serve rt reqs w1)"

lemma serve_once:
  "consumed_once (store w, h) \<Longrightarrow>
     distinct (map fst (serve rt reqs w)) \<and> fst ` set (serve rt reqs w) \<inter> fst ` set h = {}"
proof (induction rt reqs w arbitrary: h rule: serve.induct)
  case (1 rt w)
  then show ?case by simp
next
  case (2 rt cx t inp reqs w)
  have "mount_step\<^sup>*\<^sup>* (store w, h) (store (snd (resolveAccess rt cx inp (w\<lparr>pg_now := t\<rparr>))), h)"
    using resolveAccess_steps [of rt cx inp "w\<lparr>pg_now := t\<rparr>"]
    by (cases "resolveAccess rt cx inp (w\<lparr>pg_now := t\<rparr>)") simp
  from 2(1) [OF consumed_once_steps [OF this 2(2)]] show ?case by simp
next
  case (3 rt cx t pin reqs w)
  have "mount_step\<^sup>*\<^sup>* (store w, h) (store (snd (resolveProfileAccess cx (pin\<lparr>pi_action := Act_use\<rparr>)
      (w\<lparr>pg_now := t\<rparr>))), h)"
    using resolveProfileAccess_steps [of cx "pin\<lparr>pi_action := Act_use\<rparr>" "w\<lparr>pg_now := t\<rparr>"]
    by (cases "resolveProfileAccess cx (pin\<lparr>pi_action := Act_use\<rparr>) (w\<lparr>pg_now := t\<rparr>)") simp
  from 3(1) [OF consumed_once_steps [OF this 3(2)]] show ?case by simp
next
  case (4 rt cx t m reqs w)
  obtain x w1 where r: "redeemMount rt cx m (w\<lparr>pg_now := t\<rparr>) = (x, w1)" by fastforce
  have st: "store (w\<lparr>pg_now := t\<rparr>) = store w" by simp
  show ?case
  proof (cases "mount_step\<^sup>*\<^sup>* (store w, h) (store w1, (m, cx_agentId cx) # h)")
    case True
    then have c: "consumed_once (store w1, (m, cx_agentId cx) # h)"
      using 4(3) by (rule consumed_once_steps)
    then have "m \<notin> fst ` set h" by (auto simp: consumed_once_def)
    show ?thesis
    proof (cases x)
      case (Inl e)
      with 4(1) [OF r [symmetric] Inl c] r show ?thesis by auto
    next
      case (Inr y)
      with 4(2) [OF r [symmetric] Inr c] r \<open>m \<notin> fst ` set h\<close> show ?thesis by auto
    qed
  next
    case False
    then obtain e where "x = Inl e" "mount_step\<^sup>*\<^sup>* (store w, h) (store w1, h)"
      using redeemMount_steps [OF r] st by metis
    from 4(1) [OF r [symmetric] this(1) consumed_once_steps [OF this(2) 4(3)]] r this(1)
    show ?thesis by simp
  qed
qed

text \<open>C5: over any sequence of access, bulk-access and redemption requests by any agents, with any
  clock readings, database times and statement faults, the content behind a mount handle is
  delivered at most once.\<close>

theorem handle_delivered_at_most_once:
  assumes "unique_by res_clash (tbl_mountReservations (store w))"
  shows "distinct (map fst (serve rt reqs w))"
proof -
  have "consumed_once (store w, [])" using assms by (simp add: consumed_once_def)
  from serve_once [OF this] show ?thesis by blast
qed

section \<open>Witnesses\<close>

definition sample_reservation :: reservation_row where
  "sample_reservation = \<lparr>res_id = ''r1'', res_mountId = ''mnt_1'', res_itemId = ''i1'', res_agentId = ''a1'',
     res_delivery = Env, res_field = None, res_envVarName = None, res_expiresAt = 2000,
     res_consumedAt = None\<rparr>"

definition mounted_db :: db where
  "mounted_db = sample_db\<lparr>tbl_mountReservations := [sample_reservation]\<rparr>"

lemma sample_redeem:
  "\<exists>c. fst (redeemMount sample_runtime sample_ctx ''mnt_1'' (sample_world mounted_db)) =
     Inr (Redeem_zk c (zk_of sample_item))"
  by (simp add: redeemMount_def consumeReservation_def eff_defs statement_def consume_reservation_def
      redeemable_def mounted_db_def sample_reservation_def sample_request loadItem_def select_def
      live_item_def findFirst_def orgScope_def sample_rows redeem_item_def no_zk_envelope_def)
    (simp add: agent_log.log_then [unfolded followed_by_def andThen_def] agent_log.never_fails
      split: prod.split sum.split)

lemma redeemMount_needs_reservation_witness:
  "\<exists>r \<in> set (tbl_mountReservations mounted_db). redeemable ''a1'' ''mnt_1'' 1000 r"
proof -
  obtain c where "fst (redeemMount sample_runtime sample_ctx ''mnt_1'' (sample_world mounted_db)) =
     Inr (Redeem_zk c (zk_of sample_item))" using sample_redeem by blast
  from redeemMount_needs_reservation [OF outcome [OF this]] show ?thesis
    by (auto simp: sample_ctx_def)
qed

lemma mounted_unique: "unique_by res_clash (tbl_mountReservations mounted_db)"
  by (simp add: mounted_db_def unique_by_def)

lemma handle_consumed_at_most_once_witness:
  "distinct (map fst [(''mnt_1'', ''a1'')])"
proof -
  let ?d = "snd (consume_reservation ''a1'' ''mnt_1'' 1000 1000 mounted_db)"
  have "mount_step (mounted_db, []) (?d, [(''mnt_1'', ''a1'')])"
    by (rule mount_step.hit [of _ _ 1000 1000 _ "sample_reservation\<lparr>res_consumedAt := Some 1000\<rparr>" "[]"])
      (simp add: consume_reservation_def mounted_db_def sample_reservation_def redeemable_def)
  then have "mount_run mounted_db (?d, [(''mnt_1'', ''a1'')])"
    by (rule mount_run.more [OF mount_run.start])
  from handle_consumed_at_most_once [OF mounted_unique this] show ?thesis by blast
qed

lemma handle_delivered_at_most_once_witness:
  "distinct (map fst (serve sample_runtime
     [(sample_ctx, 1000, Req_redeem ''mnt_1''), (sample_ctx, 1000, Req_redeem ''mnt_1'')]
     (sample_world mounted_db)))"
  by (rule handle_delivered_at_most_once) (simp add: mounted_unique)

end
