(* ===== verification/Legacy_Access.thy ===== *)
theory Legacy_Access
  imports Access_Properties
begin

text \<open>
  The item-target endpoints that predate the unified pipeline
  (\<open>packages/trpc/src/server/routers/access.ts\<close>): \<open>access.ciphertext\<close>, \<open>access.reveal\<close>,
  \<open>access.mount\<close> and \<open>access.bulkMountEnv\<close>, each with its checks in the order of the code.
\<close>

section \<open>Shared helpers\<close>

datatype perm_result = P_allowed | P_denied | P_expired

fun perm_audit :: "perm_result \<Rightarrow> audit_result" where
  "perm_audit P_expired = Expired"
| "perm_audit _ = Denied"

definition permissionDeniedError :: "agent_ctx \<Rightarrow> perm_result \<Rightarrow> string \<Rightarrow> capability \<Rightarrow> err" where
  "permissionDeniedError cx r itemId c =
     (if r = P_expired then forbidden ''PERMISSION_EXPIRED'' []
      else forbidden ''PERMISSION_DENIED''
        (buildPermissionDeniedMeta (Some itemId) (Some (cx_agentId cx)) (Some c) None))"

definition failMissingServerManagedData :: "agent_ctx \<Rightarrow> string \<Rightarrow> audit_event \<Rightarrow> 'a server" where
  "failMissingServerManagedData cx itemId ev =
     deny (agent_entry cx (Some itemId) ev Denied (Some (reason ''item has no server-encrypted data'')))
       (integrity [(''itemId'', JStr itemId)])"

definition decryptServerManagedItem ::
  "runtime \<Rightarrow> agent_ctx \<Rightarrow> item_row \<Rightarrow> audit_event \<Rightarrow> string option \<Rightarrow> bytes server" where
  "decryptServerManagedItem rt cx item ev cachedContentKey =
     (if no_server_data item then failMissingServerManagedData cx (item_id item) ev
      else tap_error
        (decryptServerEnvelope (rt_crypto rt) (cx_ENCRYPTION_KEY cx) (cx_orgId cx) item cachedContentKey)
        (\<lambda>_. catch_all (logAgentAudit ((agent_entry cx (Some (item_id item)) ev Denied
               (Some (reason ''decrypt_failed'')))\<lparr>ae_profileId := item_profileId item\<rparr>))
           (\<lambda>_. succeed ())))"

definition legacy_grant :: "string \<Rightarrow> string \<Rightarrow> capability \<Rightarrow> permission_row \<Rightarrow> bool" where
  "legacy_grant agentId itemId c p =
     (perm_agentId p = agentId \<and> perm_itemId p = Some itemId \<and> perm_capability p = c)"

definition checkPermission :: "agent_ctx \<Rightarrow> string \<Rightarrow> string \<Rightarrow> capability \<Rightarrow> perm_result server" where
  "checkPermission cx agentId itemId c =
     andThen (select (\<lambda>d. findFirst perm_org (cx_orgId cx) (legacy_grant agentId itemId c) (tbl_permissions d)))
       (\<lambda>found. case found of
          None \<Rightarrow> succeed P_denied
        | Some p \<Rightarrow> (case perm_expiresAt p of
              None \<Rightarrow> succeed P_allowed
            | Some t \<Rightarrow> andThen new_Date (\<lambda>now. succeed (if t < now then P_expired else P_allowed))))"

definition loadAccessibleItem :: "agent_ctx \<Rightarrow> string \<Rightarrow> item_row server" where
  "loadAccessibleItem cx itemId =
     andThen (select (live_item (cx_orgId cx) itemId)) (\<lambda>found.
       case found of None \<Rightarrow> fail_with (notFound ''ITEM_NOT_FOUND'') | Some item \<Rightarrow> succeed item)"

text \<open>Check the grant; on anything but \<open>allowed\<close> log that result and fail.\<close>

definition require_permission ::
  "agent_ctx \<Rightarrow> string \<Rightarrow> capability \<Rightarrow> audit_event \<Rightarrow> unit server" where
  "require_permission cx itemId c ev =
     andThen (checkPermission cx (cx_agentId cx) itemId c) (\<lambda>permResult.
       if permResult \<noteq> P_allowed then
         deny (agent_entry cx (Some itemId) ev (perm_audit permResult) None)
           (permissionDeniedError cx permResult itemId c)
       else succeed ())"

definition resolveFieldOrDenyAudit ::
  "agent_ctx \<Rightarrow> item_payload \<Rightarrow> string \<Rightarrow> string \<Rightarrow> audit_event \<Rightarrow> string \<Rightarrow> string option \<Rightarrow> string server" where
  "resolveFieldOrDenyAudit cx payload field itemId ev mode purpose =
     tap_error (lift_result (resolveFieldValue payload (Some field)))
       (\<lambda>err. case err of
          DomainErr k c meta \<Rightarrow>
            (if k = FieldNotFoundError \<or> k = MultiFieldItemError then
               catch_all (logAgentAudit ((agent_entry cx (Some itemId) ev Denied
                  (Some [(''reason'', JStr (if k = FieldNotFoundError then ''FieldNotFoundError''
                                            else ''MultiFieldItemError'')),
                         (''availableFields'', orElse (map_of meta ''availableFields'') (JArr []))]))
                  \<lparr>ae_deliveryMode := Some mode, ae_field := Some field, ae_purpose := purpose\<rparr>))
                 (\<lambda>_. succeed ())
             else succeed ())
        | _ \<Rightarrow> succeed ())"

section \<open>The endpoints\<close>

definition accessCiphertext :: "agent_ctx \<Rightarrow> string \<Rightarrow> zk_envelope server" where
  "accessCiphertext cx itemId =
     (let log = agent_entry cx (Some itemId) Ev_access_ciphertext in
      if cx_locality cx \<noteq> Local then
        deny (log Denied (Some (reason ''remote agent cannot read ciphertext'')))
          (forbidden ''PERMISSION_DENIED'' [])
      else andThen (loadAccessibleItem cx itemId) (\<lambda>item.
        if item_storageMode item \<noteq> Zero_knowledge then
          deny (log Denied None) (DomainErr BadRequestError ''BAD_REQUEST'' [])
        else followed_by (require_permission cx itemId Read_ciphertext Ev_access_ciphertext)
         (if falsy (item_profileId item) then
            deny (log Denied (Some (reason ''zk item missing profileId'')))
              (integrity [(''itemId'', JStr itemId)])
          else followed_by (logAgentAudit (log Allowed None))
            (succeed \<lparr>zk_encryptedItemKey = orElse (item_encryptedItemKey item) [],
               zk_ciphertext = orElse (item_ciphertext item) [],
               zk_cryptoVersion = item_cryptoVersion item, zk_itemId = item_id item,
               zk_profileId = the (item_profileId item),
               zk_contentVersion = item_contentVersion item\<rparr>))))"

record legacy_input =
  li_itemId :: string
  li_field :: "string option"
  li_purpose :: "string option"

definition legacy_allowed :: "agent_ctx \<Rightarrow> legacy_input \<Rightarrow> audit_event \<Rightarrow> string \<Rightarrow> audit_entry" where
  "legacy_allowed cx inp ev mode = (agent_entry cx (Some (li_itemId inp)) ev Allowed None)
     \<lparr>ae_deliveryMode := Some mode, ae_field := Some (orElse (li_field inp) ''__default__''),
      ae_purpose := li_purpose inp\<rparr>"

text \<open>Decrypt, decode, narrow to the requested field, log, deliver.\<close>

definition deliver_plaintext ::
  "runtime \<Rightarrow> agent_ctx \<Rightarrow> legacy_input \<Rightarrow> item_row \<Rightarrow> audit_event \<Rightarrow> string \<Rightarrow> item_payload server" where
  "deliver_plaintext rt cx inp item ev mode =
     andThen (decryptServerManagedItem rt cx item ev None) (\<lambda>decrypted.
       let payload = decodeServerManagedPayload (rt_JSON_parse rt) (item_id item) (decode_text decrypted) in
       andThen (if truthy (li_field inp)
                then andThen (resolveFieldOrDenyAudit cx payload (the (li_field inp)) (li_itemId inp) ev mode
                                (li_purpose inp))
                       (\<lambda>v. succeed (payload\<lparr>pl_fields := [(the (li_field inp), JStr v)]\<rparr>))
                else succeed payload) (\<lambda>delivered.
       followed_by (logAgentAudit (legacy_allowed cx inp ev mode)) (succeed delivered)))"

definition accessReveal :: "runtime \<Rightarrow> agent_ctx \<Rightarrow> legacy_input \<Rightarrow> item_payload server" where
  "accessReveal rt cx inp =
     andThen (loadAccessibleItem cx (li_itemId inp)) (\<lambda>item.
       if item_storageMode item \<noteq> Server_managed then
         deny (agent_entry cx (Some (li_itemId inp)) Ev_access_reveal Denied None)
           (DomainErr BadRequestError ''BAD_REQUEST'' [])
       else followed_by (require_permission cx (li_itemId inp) Reveal_plaintext Ev_access_reveal)
         (deliver_plaintext rt cx inp item Ev_access_reveal ''reveal''))"

datatype mount_access = Mount_zk zk_envelope | Mount_server item_payload

fun mount_event :: "delivery_mode \<Rightarrow> audit_event" where
  "mount_event Env = Ev_access_mount_env"
| "mount_event File = Ev_access_mount_file"

fun mount_capability :: "delivery_mode \<Rightarrow> capability" where
  "mount_capability Env = Mount_env"
| "mount_capability File = Mount_file"

definition accessMount :: "runtime \<Rightarrow> agent_ctx \<Rightarrow> legacy_input \<Rightarrow> delivery_mode \<Rightarrow> mount_access server" where
  "accessMount rt cx inp mountType =
     (let ev = mount_event mountType;
          mode = ''mount_'' @ delivery_name mountType;
          log = agent_entry cx (Some (li_itemId inp)) ev in
      if cx_locality cx \<noteq> Local then deny (log Denied None) (forbidden ''PERMISSION_DENIED'' [])
      else andThen (loadAccessibleItem cx (li_itemId inp)) (\<lambda>item.
        followed_by (require_permission cx (li_itemId inp) (mount_capability mountType) ev)
        (if item_storageMode item = Zero_knowledge then
           (if falsy (item_profileId item) then
              deny (log Denied (Some (reason ''zk item missing profileId'')))
                (integrity [(''itemId'', JStr (li_itemId inp))])
            else followed_by (logAgentAudit (legacy_allowed cx inp ev mode))
              (succeed (Mount_zk \<lparr>zk_encryptedItemKey = orElse (item_encryptedItemKey item) [],
                 zk_ciphertext = orElse (item_ciphertext item) [],
                 zk_cryptoVersion = item_cryptoVersion item, zk_itemId = item_id item,
                 zk_profileId = the (item_profileId item),
                 zk_contentVersion = item_contentVersion item\<rparr>)))
         else andThen (deliver_plaintext rt cx inp item ev mode) (\<lambda>p. succeed (Mount_server p)))))"

section \<open>bulkMountEnv\<close>

definition BULK_MOUNT_ENV_MAX_ITEMS :: nat where
  "BULK_MOUNT_ENV_MAX_ITEMS = 256"

text \<open>The inner join of live items of the profile with unexpired \<open>mount_env\<close> grants to the agent.\<close>

definition bulk_rows :: "agent_ctx \<Rightarrow> string \<Rightarrow> int \<Rightarrow> db \<Rightarrow> item_row list" where
  "bulk_rows cx profileId now d =
     concat (map (\<lambda>i. map (\<lambda>_. i)
       (findMany perm_org (cx_orgId cx)
          (\<lambda>p. legacy_grant (cx_agentId cx) (item_id i) Mount_env p \<and> not_expired now p)
          (tbl_permissions d)))
       (profile_items (cx_orgId cx) profileId d))"

datatype bulk_item =
    Bulk_zk string zk_envelope
  | Bulk_server string string item_payload

record bulk_state =
  pendingAllowedAudits :: "audit_entry list"
  bulkItems :: "bulk_item list"
  cachedContentKey :: "string option"

definition bulk_allowed :: "agent_ctx \<Rightarrow> item_row \<Rightarrow> audit_entry" where
  "bulk_allowed cx item =
     (agent_entry cx (Some (item_id item)) Ev_access_mount_env Allowed (Some [(''viaBulk'', JBool True)]))
       \<lparr>ae_profileId := item_profileId item, ae_deliveryMode := Some ''mount_env''\<rparr>"

text \<open>The profile's data key is unwrapped on first need and reused.\<close>

definition bulk_key ::
  "runtime \<Rightarrow> agent_ctx \<Rightarrow> string \<Rightarrow> item_row \<Rightarrow> string option \<Rightarrow> string option server" where
  "bulk_key rt cx profileId item cached =
     (if cached = None \<and>
         (case item_serverKeyVersion item of None \<Rightarrow> False | Some v \<Rightarrow> v \<ge> SERVER_DEK_MIN_VERSION)
      then andThen (loadProfileContentKey (rt_crypto rt) (cx_ENCRYPTION_KEY cx) (cx_orgId cx) profileId)
             (\<lambda>k. succeed (Some k))
      else succeed cached)"

definition stage_row ::
  "runtime \<Rightarrow> agent_ctx \<Rightarrow> string \<Rightarrow> item_row \<Rightarrow> bulk_state \<Rightarrow> bulk_state server" where
  "stage_row rt cx profileId item st =
     (if item_storageMode item = Zero_knowledge then
        (if no_zk_envelope item then
           deny ((agent_entry cx (Some (item_id item)) Ev_access_mount_env Denied
                   (Some [(''viaBulk'', JBool True),
                      (''reason'', JStr ''zk item missing envelope or profile binding'')]))
                   \<lparr>ae_profileId := item_profileId item\<rparr>)
             (integrity [(''itemId'', JStr (item_id item))])
         else succeed (st\<lparr>pendingAllowedAudits := pendingAllowedAudits st @ [bulk_allowed cx item],
                bulkItems := bulkItems st @ [Bulk_zk (item_label item) (zk_of item)]\<rparr>))
      else
        andThen (bulk_key rt cx profileId item (cachedContentKey st)) (\<lambda>cached.
        andThen (decryptServerManagedItem rt cx item Ev_access_mount_env cached) (\<lambda>decrypted.
          succeed \<lparr>pendingAllowedAudits = pendingAllowedAudits st @ [bulk_allowed cx item],
            bulkItems = bulkItems st @ [Bulk_server (item_id item) (item_label item)
              (decodeServerManagedPayload (rt_JSON_parse rt) (item_id item) (decode_text decrypted))],
            cachedContentKey = cached\<rparr>)))"

fun stage_rows ::
  "runtime \<Rightarrow> agent_ctx \<Rightarrow> string \<Rightarrow> item_row list \<Rightarrow> bulk_state \<Rightarrow> bulk_state server" where
  "stage_rows rt cx profileId [] st = succeed st"
| "stage_rows rt cx profileId (item # rows) st =
     andThen (stage_row rt cx profileId item st) (stage_rows rt cx profileId rows)"

definition accessBulkMountEnv :: "runtime \<Rightarrow> agent_ctx \<Rightarrow> string \<Rightarrow> bulk_item list server" where
  "accessBulkMountEnv rt cx profileId =
     (if cx_locality cx \<noteq> Local then fail_with (forbidden ''PERMISSION_DENIED'' [])
      else andThen (select (profile_exists (cx_orgId cx) profileId)) (\<lambda>found.
        if \<not> found then fail_with (notFound ''PROFILE_NOT_FOUND'')
        else andThen new_Date (\<lambda>now.
        andThen (select (\<lambda>d. take (BULK_MOUNT_ENV_MAX_ITEMS + 1) (bulk_rows cx profileId now d))) (\<lambda>rows.
          if length rows > BULK_MOUNT_ENV_MAX_ITEMS
          then fail_with (DomainErr BadRequestError ''BAD_REQUEST''
                 [(''limit'', JNum (int BULK_MOUNT_ENV_MAX_ITEMS))])
          else andThen (stage_rows rt cx profileId rows
                 \<lparr>pendingAllowedAudits = [], bulkItems = [], cachedContentKey = None\<rparr>) (\<lambda>st.
            followed_by (for_each logAgentAudit (pendingAllowedAudits st)) (succeed (bulkItems st)))))))"

section \<open>The router\<close>

datatype legacy_request =
    L_ciphertext string
  | L_reveal legacy_input
  | L_mount legacy_input delivery_mode

datatype legacy_result = LR_ciphertext zk_envelope | LR_reveal item_payload | LR_mount mount_access

fun legacy_call :: "runtime \<Rightarrow> agent_ctx \<Rightarrow> legacy_request \<Rightarrow> legacy_result server" where
  "legacy_call rt cx (L_ciphertext i) = andThen (accessCiphertext cx i) (\<lambda>r. succeed (LR_ciphertext r))"
| "legacy_call rt cx (L_reveal inp) = andThen (accessReveal rt cx inp) (\<lambda>r. succeed (LR_reveal r))"
| "legacy_call rt cx (L_mount inp d) = andThen (accessMount rt cx inp d) (\<lambda>r. succeed (LR_mount r))"

fun legacy_item :: "legacy_request \<Rightarrow> string" where
  "legacy_item (L_ciphertext i) = i"
| "legacy_item (L_reveal inp) = li_itemId inp"
| "legacy_item (L_mount inp _) = li_itemId inp"

fun legacy_capability :: "legacy_request \<Rightarrow> capability" where
  "legacy_capability (L_ciphertext _) = Read_ciphertext"
| "legacy_capability (L_reveal _) = Reveal_plaintext"
| "legacy_capability (L_mount _ d) = mount_capability d"

section \<open>Checks\<close>

lemma loadAccessibleItem_Inr:
  "loadAccessibleItem cx i w = (Inr item, w') \<longleftrightarrow> faults w (stmts w) = None \<and>
     live_item (cx_orgId cx) i (store w) = Some item \<and> w' = advance 1 0 w"
  by (auto simp: loadAccessibleItem_def andThen_Inr select_ok fail_with_def succeed_def advance_def
      split: option.splits)

lemma keeps_loadAccessibleItem: "keeps same_store (loadAccessibleItem cx i)"
  unfolding loadAccessibleItem_def by (auto intro!: keeps_same split: option.split)

lemma keeps_checkPermission: "keeps same_store (checkPermission cx a i c)"
  unfolding checkPermission_def by (auto intro!: keeps_same split: option.split)

lemma checkPermission_allowed:
  assumes "checkPermission cx a i c w = (Inr P_allowed, w')"
  shows "same_store w w' \<and> (\<exists>p. findFirst perm_org (cx_orgId cx) (legacy_grant a i c)
     (tbl_permissions (store w)) = Some p \<and>
     (case perm_expiresAt p of None \<Rightarrow> True | Some t \<Rightarrow> clock w (ticks w) \<le> t))"
  using keepsD [OF keeps_checkPermission assms] assms
  by (auto simp: checkPermission_def andThen_Inr select_ok succeed_def split: option.splits if_splits)

lemma require_permission_Inr:
  assumes "require_permission cx i c ev w = (Inr u, w')"
  shows "same_store w w' \<and> (\<exists>p. p \<in> set (tbl_permissions (store w)) \<and> perm_org p = cx_orgId cx \<and>
     legacy_grant (cx_agentId cx) i c p \<and>
     (case perm_expiresAt p of None \<Rightarrow> True | Some t \<Rightarrow> clock w (ticks w) \<le> t))"
proof -
  from assms have "checkPermission cx (cx_agentId cx) i c w = (Inr P_allowed, w')"
    by (auto simp: require_permission_def andThen_Inr deny_eq succeed_def split: if_splits)
  from checkPermission_allowed [OF this] show ?thesis by (blast dest: findFirst_SomeD)
qed

definition legacy_permits ::
  "agent_ctx \<Rightarrow> string \<Rightarrow> capability \<Rightarrow> db \<Rightarrow> int \<Rightarrow> item_row \<Rightarrow> permission_row \<Rightarrow> bool" where
  "legacy_permits cx i c d now item p =
     (item \<in> set (tbl_items d) \<and> item_id item = i \<and> item_org item = cx_orgId cx \<and>
      item_deletedAt item = None \<and> isCapabilityAllowed c (cx_locality cx) (item_storageMode item) \<and>
      p \<in> set (tbl_permissions d) \<and> perm_org p = cx_orgId cx \<and> legacy_grant (cx_agentId cx) i c p \<and>
      (case perm_expiresAt p of None \<Rightarrow> True | Some t \<Rightarrow> now \<le> t))"

text \<open>Load, then check the grant: the common front of the three endpoints.\<close>

lemma legacy_front:
  assumes "loadAccessibleItem cx i w = (Inr item, w1)"
    and "require_permission cx i c ev w1 = (Inr u, w2)"
    and "isCapabilityAllowed c (cx_locality cx) (item_storageMode item)"
  shows "\<exists>item p. legacy_permits cx i c (store w) (clock w (ticks w)) item p"
proof -
  from assms(1) have item: "live_item (cx_orgId cx) i (store w) = Some item" and w1: "w1 = advance 1 0 w"
    by (auto simp: loadAccessibleItem_Inr)
  from require_permission_Inr [OF assms(2)] w1 obtain p where
    "p \<in> set (tbl_permissions (store w))" "perm_org p = cx_orgId cx"
    "legacy_grant (cx_agentId cx) i c p"
    "case perm_expiresAt p of None \<Rightarrow> True | Some t \<Rightarrow> clock w (ticks w) \<le> t" by (auto cong: option.case_cong)
  with live_item_SomeD [OF item] assms(3) show ?thesis
    by (intro exI [of _ item] exI [of _ p]) (simp add: legacy_permits_def)
qed

lemma local_mounts [simp]:
  "Mount_env \<in> set (getAllowedCapabilities Local m)" "Mount_file \<in> set (getAllowedCapabilities Local m)"
  by (cases m; simp)+

lemma legacy_call_permitted:
  assumes "legacy_call rt cx req w = (Inr r, w')"
  shows "\<exists>item p. legacy_permits cx (legacy_item req) (legacy_capability req) (store w)
     (clock w (ticks w)) item p"
proof (cases req)
  case (L_ciphertext i)
  with assms show ?thesis
    by (auto simp: accessCiphertext_def Let_def andThen_Inr followed_by_def deny_eq succeed_def
        isCapabilityAllowed_def intro!: legacy_front split: if_splits)
next
  case (L_reveal inp)
  with assms show ?thesis
    by (cases "cx_locality cx") (auto simp: accessReveal_def andThen_Inr followed_by_def deny_eq succeed_def
        isCapabilityAllowed_def intro!: legacy_front split: if_splits)
next
  case (L_mount inp d)
  with assms show ?thesis
    by (cases d) (auto simp: accessMount_def andThen_Inr followed_by_def deny_eq succeed_def Let_def
        isCapabilityAllowed_def intro!: legacy_front split: if_splits)
qed

text \<open>The capability matrix is enforced. A successful \<open>access.ciphertext\<close>, \<open>access.reveal\<close> or
  \<open>access.mount\<close> found a live item of the agent's tenant, the matrix allows the endpoint's capability
  for the agent's locality and the item's storage mode, and the tenant had granted that agent exactly
  that capability on that item, unexpired at the reading of the clock.\<close>

theorem legacy_access_enforces_matrix:
  assumes "legacy_call rt cx req w = (Inr r, w')"
  shows "\<exists>item p. legacy_permits cx (legacy_item req) (legacy_capability req) (store w)
     (clock w (ticks w)) item p"
  by (rule legacy_call_permitted [OF assms])

section \<open>Refusals\<close>

lemma perm_audit_refusal: "perm_audit r = Denied \<or> perm_audit r = Expired"
  by (cases r) simp_all

lemma keeps_require_permission:
  "keeps (audits_where (refusal_row cx i)) (require_permission cx i c ev)"
  unfolding require_permission_def
  by (auto intro!: keeps_audits keeps_deny simp: keeps_same_where keeps_checkPermission
      refusal_row_def perm_audit_refusal)

lemma keeps_decryptServerManagedItem:
  assumes "item_id item = i"
  shows "keeps (audits_where (refusal_row cx i)) (decryptServerManagedItem rt cx item ev k)"
  unfolding decryptServerManagedItem_def failMissingServerManagedData_def agent_log.catch_log using assms
  by (auto intro!: keeps_audits keeps_deny agent_log.keeps_log_where simp: keeps_same_where refusal_row_def)

lemma keeps_resolveFieldOrDenyAudit:
  "keeps (audits_where (refusal_row cx i)) (resolveFieldOrDenyAudit cx payload f i ev mode purpose)"
  unfolding resolveFieldOrDenyAudit_def agent_log.catch_log
  by (auto intro!: keeps_audits agent_log.keeps_log_where simp: keeps_same_where refusal_row_def
      split: err.split)

lemma keeps_error_deliver_plaintext:
  assumes "item_id item = li_itemId inp"
  shows "keeps_error (audits_where (refusal_row cx (li_itemId inp)))
     (deliver_plaintext rt cx inp item ev mode)"
  unfolding deliver_plaintext_def Let_def using assms
  by (auto intro!: keeps_error_audits keeps_audits keeps_decryptServerManagedItem
      keeps_resolveFieldOrDenyAudit log_then_succeed_never_fails)

lemma keeps_error_load:
  assumes "\<And>item. item_id item = i \<Longrightarrow> keeps_error (audits_where P) (f item)"
  shows "keeps_error (audits_where P) (andThen (loadAccessibleItem cx i) f)"
proof (rule keeps_errorI)
  fix w e w'
  assume "andThen (loadAccessibleItem cx i) f w = (Inl e, w')"
  then consider "loadAccessibleItem cx i w = (Inl e, w')"
    | item w1 where "loadAccessibleItem cx i w = (Inr item, w1)" "f item w1 = (Inl e, w')"
    by (auto simp: andThen_Inl)
  then show "audits_where P w w'"
  proof cases
    case 1
    from keepsD [OF keeps_loadAccessibleItem 1] show ?thesis by (rule same_store_audits_where)
  next
    case (2 item w1)
    from keepsD [OF keeps_loadAccessibleItem 2(1)] have 1: "audits_where P w w1"
      by (rule same_store_audits_where)
    from 2(1) have "item_id item = i" by (auto simp: loadAccessibleItem_Inr dest: live_item_SomeD)
    from keeps_errorD [OF assms [OF this] 2(2)] 1 show ?thesis by (blast intro: audits_where_trans)
  qed
qed

lemma keeps_error_succeed: "keeps_error R m \<Longrightarrow> keeps_error R (andThen m (\<lambda>x. succeed (f x)))"
  by (auto simp: keeps_error_def andThen_Inl succeed_def)

lemma keeps_error_legacy_call:
  "keeps_error (audits_where (refusal_row cx (legacy_item req))) (legacy_call rt cx req)"
proof (cases req)
  case (L_ciphertext i)
  have "keeps_error (audits_where (refusal_row cx i)) (accessCiphertext cx i)"
    unfolding accessCiphertext_def Let_def
    by (auto intro!: keeps_error_load keeps_error_audits keeps_require_permission
        log_then_succeed_never_fails keeps_keeps_error [OF keeps_deny] simp: refusal_row_def)
  with L_ciphertext show ?thesis by (simp add: keeps_error_succeed)
next
  case (L_reveal inp)
  have "keeps_error (audits_where (refusal_row cx (li_itemId inp))) (accessReveal rt cx inp)"
    unfolding accessReveal_def
    by (auto intro!: keeps_error_load keeps_error_audits keeps_require_permission
        keeps_error_deliver_plaintext keeps_keeps_error [OF keeps_deny] simp: refusal_row_def)
  with L_reveal show ?thesis by (simp add: keeps_error_succeed)
next
  case (L_mount inp d)
  have "keeps_error (audits_where (refusal_row cx (li_itemId inp))) (accessMount rt cx inp d)"
    unfolding accessMount_def Let_def
    by (auto intro!: keeps_error_load keeps_error_audits keeps_require_permission keeps_error_succeed
        keeps_error_deliver_plaintext log_then_succeed_never_fails keeps_keeps_error [OF keeps_deny]
        simp: refusal_row_def)
  with L_mount show ?thesis by (simp add: keeps_error_succeed)
qed

text \<open>A failed legacy access changes no table but the audit trail and adds only denied
  or expired rows of the asking agent for the requested item.\<close>

theorem legacy_refusal_leaves_refusals:
  assumes "legacy_call rt cx req w = (Inl e, w')"
  shows "audits_where (refusal_row cx (legacy_item req)) w w'"
  by (rule keeps_errorD [OF keeps_error_legacy_call assms])

section \<open>The bulk endpoint\<close>

fun bulk_item_id :: "bulk_item \<Rightarrow> string" where
  "bulk_item_id (Bulk_zk _ z) = zk_itemId z"
| "bulk_item_id (Bulk_server i _ _) = i"

lemma decryptServerManagedItem_Inr:
  assumes "decryptServerManagedItem rt cx item ev k w = (Inr pt, w')"
  shows "same_store w w'"
proof -
  from assms have "decryptServerEnvelope (rt_crypto rt) (cx_ENCRYPTION_KEY cx) (cx_orgId cx) item k w
      = (Inr pt, w')"
    by (auto simp: decryptServerManagedItem_def failMissingServerManagedData_def deny_eq tap_error_def
        split: if_splits prod.splits sum.splits)
  from keepsD [OF keeps_decryptServerEnvelope this] show ?thesis .
qed

definition bulk_staged :: "agent_ctx \<Rightarrow> item_row list \<Rightarrow> bulk_state \<Rightarrow> bool" where
  "bulk_staged cx rows st = (pendingAllowedAudits st = map (bulk_allowed cx) rows \<and>
     map bulk_item_id (bulkItems st) = map item_id rows)"

lemma keeps_bulk_key: "keeps same_store (bulk_key rt cx p item k)"
  unfolding bulk_key_def by (auto intro!: keeps_same)

lemma stage_row_Inr:
  assumes "stage_row rt cx p item st w = (Inr st', w')" "bulk_staged cx rows st"
  shows "bulk_staged cx (rows @ [item]) st' \<and> same_store w w'"
proof (cases "item_storageMode item = Zero_knowledge")
  case True
  with assms show ?thesis
    by (auto simp: stage_row_def deny_eq succeed_def bulk_staged_def zk_of_def same_store_def
        split: if_splits)
next
  case False
  with assms(1) obtain k w1 pt where
    k: "bulk_key rt cx p item (cachedContentKey st) w = (Inr k, w1)"
    and d: "decryptServerManagedItem rt cx item Ev_access_mount_env k w1 = (Inr pt, w')"
    and st': "st' = \<lparr>pendingAllowedAudits = pendingAllowedAudits st @ [bulk_allowed cx item],
            bulkItems = bulkItems st @ [Bulk_server (item_id item) (item_label item)
              (decodeServerManagedPayload (rt_JSON_parse rt) (item_id item) (decode_text pt))],
            cachedContentKey = k\<rparr>"
    by (auto simp: stage_row_def andThen_Inr succeed_def)
  from keepsD [OF keeps_bulk_key k] decryptServerManagedItem_Inr [OF d]
  have "same_store w w'" by (meson same_store_transp transpD)
  with st' assms(2) show ?thesis by (simp add: bulk_staged_def)
qed

lemma stage_rows_Inr:
  assumes "stage_rows rt cx p rows st w = (Inr st', w')" "bulk_staged cx prev st"
  shows "bulk_staged cx (prev @ rows) st' \<and> same_store w w'"
  using assms
proof (induction rows arbitrary: st w prev)
  case Nil
  then show ?case by (simp add: succeed_def same_store_def)
next
  case (Cons item rows)
  then obtain st1 w1 where s: "stage_row rt cx p item st w = (Inr st1, w1)"
    and r: "stage_rows rt cx p rows st1 w1 = (Inr st', w')" by (auto simp: andThen_Inr)
  from stage_row_Inr [OF s Cons.prems(2)] have 1: "bulk_staged cx (prev @ [item]) st1" "same_store w w1"
    by auto
  from Cons.IH [OF r 1(1)] 1(2) show ?case by (auto intro: transpD [OF same_store_transp])
qed

lemma keeps_stage_row: "keeps (audits_where (refusal_row cx (item_id item))) (stage_row rt cx p item st)"
  unfolding stage_row_def
  by (auto intro!: keeps_audits keeps_deny keeps_decryptServerManagedItem
      simp: refusal_row_def keeps_same_where keeps_bulk_key)

lemma keeps_stage_rows:
  "set rows \<subseteq> set all \<Longrightarrow> keeps (audits_where (refused_one cx all)) (stage_rows rt cx p rows st)"
proof (induction rows arbitrary: st)
  case (Cons item rows)
  have "keeps (audits_where (refused_one cx all)) (stage_row rt cx p item st)"
    by (rule keeps_where_mono [OF keeps_stage_row]) (use Cons.prems in \<open>auto simp: refused_one_def\<close>)
  with Cons show ?case by (auto intro!: keeps_audits)
qed simp

lemma bulk_rows_iff:
  "item \<in> set (bulk_rows cx p now d) \<longleftrightarrow> item \<in> set (profile_items (cx_orgId cx) p d) \<and>
     (\<exists>q \<in> set (tbl_permissions d). perm_org q = cx_orgId cx \<and>
        legacy_grant (cx_agentId cx) (item_id item) Mount_env q \<and> not_expired now q)"
proof -
  have ne: "findMany perm_org t c rows = [] \<longleftrightarrow> (\<forall>q \<in> set rows. perm_org q = t \<longrightarrow> \<not> c q)" for t c rows
    by (auto simp: findMany_def orgScope_def filter_empty_conv)
  have im: "(\<lambda>_. i) ` set xs = (if xs = [] then {} else {i})" for i :: item_row and xs :: "permission_row list"
    by (cases xs) auto
  show ?thesis
    by (simp add: bulk_rows_def im) (auto simp: ne)
qed

lemma bulk_unfold:
  assumes "accessBulkMountEnv rt cx p w = (Inr bs, w')"
  obtains st w1 w2 where "cx_locality cx = Local"
    "length (bulk_rows cx p (clock w (ticks w)) (store w)) \<le> 256" "same_store w w1"
    "stage_rows rt cx p (bulk_rows cx p (clock w (ticks w)) (store w))
       \<lparr>pendingAllowedAudits = [], bulkItems = [], cachedContentKey = None\<rparr> w1 = (Inr st, w2)"
    "w' = snd (for_each logAgentAudit (pendingAllowedAudits st) w2)" "bs = bulkItems st"
proof -
  let ?rows = "bulk_rows cx p (clock w (ticks w)) (store w)"
  let ?w1 = "w\<lparr>ticks := Suc (ticks w), stmts := Suc (Suc (stmts w))\<rparr>"
  from assms obtain st w2 where
    l: "cx_locality cx = Local" "length (take (BULK_MOUNT_ENV_MAX_ITEMS + 1) ?rows) \<le> BULK_MOUNT_ENV_MAX_ITEMS"
    and s: "stage_rows rt cx p (take (BULK_MOUNT_ENV_MAX_ITEMS + 1) ?rows)
       \<lparr>pendingAllowedAudits = [], bulkItems = [], cachedContentKey = None\<rparr> ?w1 = (Inr st, w2)"
    and f: "for_each logAgentAudit (pendingAllowedAudits st) w2 = (Inr (), w')" and b: "bs = bulkItems st"
    by (auto simp: accessBulkMountEnv_def andThen_Inr followed_by_def select_ok fail_with_def succeed_def
        split: if_splits)
  have t: "take (BULK_MOUNT_ENV_MAX_ITEMS + 1) ?rows = ?rows" "length ?rows \<le> 256"
    using l(2) by (auto simp: BULK_MOUNT_ENV_MAX_ITEMS_def min_def split: if_splits)
  have "same_store w ?w1" by (simp add: same_store_def env_kept_def)
  from that [OF l(1) t(2) this s [unfolded t(1)] _ b] f show ?thesis by simp
qed

lemma bulk_granted:
  assumes "item \<in> set (bulk_rows cx p now d)" "cx_locality cx = Local"
  shows "\<exists>q. legacy_permits cx (item_id item) Mount_env d now item q \<and> item_profileId item = Some p"
proof -
  from assms(1) obtain q where "item \<in> set (profile_items (cx_orgId cx) p d)"
    "q \<in> set (tbl_permissions d)" "perm_org q = cx_orgId cx"
    "legacy_grant (cx_agentId cx) (item_id item) Mount_env q" "not_expired now q"
    by (auto simp: bulk_rows_iff)
  with assms(2) show ?thesis
    by (intro exI [of _ q]) (auto simp: legacy_permits_def profile_items_def findMany_iff
        isCapabilityAllowed_def not_expired_def split: option.splits)
qed

text \<open>A successful \<open>access.bulkMountEnv\<close> comes from a local agent and answers, in order, for
  at most 256 rows; every row is a live item of the profile in the agent's tenant on which the agent
  holds an unexpired \<open>mount_env\<close> grant; nothing but the audit trail changes, by allowed rows of those
  items, and by exactly one per answer when the database answers every statement.\<close>

theorem bulkMountEnv_complete:
  assumes "accessBulkMountEnv rt cx p w = (Inr bs, w')"
  shows "\<exists>rows. map bulk_item_id bs = map item_id rows \<and> length bs \<le> 256 \<and> cx_locality cx = Local \<and>
     (\<forall>item \<in> set rows. item_profileId item = Some p \<and>
        (\<exists>q. legacy_permits cx (item_id item) Mount_env (store w) (clock w (ticks w)) item q)) \<and>
     audits_where (\<lambda>r. r \<in> (buildAuditRow \<circ> bulk_allowed cx) ` set rows) w w' \<and>
     ((\<exists>n. faults w n \<noteq> None) \<or> tbl_auditLogs (store w') =
        tbl_auditLogs (store w) @ map (buildAuditRow \<circ> bulk_allowed cx) rows)"
proof -
  let ?rows = "bulk_rows cx p (clock w (ticks w)) (store w)"
  obtain st w1 w2 where l: "cx_locality cx = Local" "length ?rows \<le> 256" and w1: "same_store w w1"
    and s: "stage_rows rt cx p ?rows
       \<lparr>pendingAllowedAudits = [], bulkItems = [], cachedContentKey = None\<rparr> w1 = (Inr st, w2)"
    and w': "w' = snd (for_each logAgentAudit (pendingAllowedAudits st) w2)" and bs: "bs = bulkItems st"
    by (rule bulk_unfold [OF assms])
  have "bulk_staged cx [] \<lparr>pendingAllowedAudits = [], bulkItems = [], cachedContentKey = None\<rparr>"
    by (simp add: bulk_staged_def)
  from stage_rows_Inr [OF s this] w1 have st: "bulk_staged cx ?rows st" and w2: "same_store w w2"
    by (auto intro: transpD [OF same_store_transp])
  have pend: "pendingAllowedAudits st = map (bulk_allowed cx) ?rows" using st by (simp add: bulk_staged_def)
  let ?P = "\<lambda>r. r \<in> (buildAuditRow \<circ> bulk_allowed cx) ` set ?rows"
  have "keeps (audits_where ?P) (for_each logAgentAudit (pendingAllowedAudits st))"
    unfolding pend by (rule keeps_for_each) (auto intro!: agent_log.keeps_log_where)
  then have "audits_where ?P w2 w'" using w' by (simp add: keeps_def)
  then have audits: "audits_where ?P w w'"
    using w2 by (blast intro: audits_where_trans same_store_audits_where)
  have logs: "(\<exists>n. faults w n \<noteq> None) \<or> tbl_auditLogs (store w') =
        tbl_auditLogs (store w) @ map (buildAuditRow \<circ> bulk_allowed cx) ?rows"
  proof (cases "\<exists>n. faults w n \<noteq> None")
    case False
    then have "faults w2 n = None" for n using w2 by (simp add: same_store_def env_kept_def)
    from agent_log.flush_records [OF this, of "pendingAllowedAudits st"] w2 show ?thesis
      by (simp add: w' pend same_store_def)
  qed simp
  have "length bs \<le> 256" "map bulk_item_id bs = map item_id ?rows"
    using st bs l(2) by (auto simp: bulk_staged_def dest: map_eq_imp_length_eq)
  with audits logs bulk_granted [OF _ l(1)] l(1) show ?thesis
    by (intro exI [of _ ?rows]) blast
qed

text \<open>No phantom rows. A failed \<open>access.bulkMountEnv\<close> changes no table but the audit
  trail and leaves no allowed row, whichever item failed: the only new rows are refusals of the asking
  agent for live items of the profile.\<close>

theorem bulkMountEnv_no_phantom_audit:
  assumes "accessBulkMountEnv rt cx p w = (Inl e, w')"
  shows "audits_where (refused_one cx (profile_items (cx_orgId cx) p (store w))) w w'"
proof -
  let ?R = "audits_where (refused_one cx (profile_items (cx_orgId cx) p (store w)))"
  let ?rows = "take (BULK_MOUNT_ENV_MAX_ITEMS + 1) (bulk_rows cx p (clock w (ticks w)) (store w))"
  let ?w1 = "w\<lparr>ticks := Suc (ticks w), stmts := Suc (Suc (stmts w))\<rparr>"
  let ?K = "andThen (stage_rows rt cx p ?rows
       \<lparr>pendingAllowedAudits = [], bulkItems = [], cachedContentKey = None\<rparr>) (\<lambda>st.
         followed_by (for_each logAgentAudit (pendingAllowedAudits st)) (succeed (bulkItems st)))"
  have 1: "same_store w ?w1" by (simp add: same_store_def env_kept_def)
  from assms consider (early) "same_store w w'" | (loop) "?K ?w1 = (Inl e, w')"
    by (auto simp: accessBulkMountEnv_def andThen_Inl [of "select _"] andThen_Inl [of new_Date]
        select_ok select_fails fail_with_def same_store_def env_kept_def split: if_splits)
  then show ?thesis
  proof cases
    case early
    then show ?thesis by (rule same_store_audits_where)
  next
    case loop
    have sub: "set ?rows \<subseteq> set (profile_items (cx_orgId cx) p (store w))"
      by (auto dest!: in_set_takeD simp: bulk_rows_iff)
    have "keeps_error ?R (followed_by (for_each logAgentAudit es) (succeed (bulkItems st)))" for es st
    proof (rule keeps_errorI)
      fix v x v'
      assume "followed_by (for_each logAgentAudit es) (succeed (bulkItems st)) v = (Inl x, v')"
      then have "fst (for_each logAgentAudit es v) = Inl x"
        by (auto simp: followed_by_def andThen_Inl succeed_def)
      then show "?R v v'" by (simp add: agent_log.flush_never_fails)
    qed
    then have "keeps_error ?R ?K"
      by (intro keeps_error_andThen [OF audits_where_transp] keeps_stage_rows sub)
    from keeps_errorD [OF this loop] 1 show ?thesis
      by (blast intro: audits_where_trans same_store_audits_where)
  qed
qed

section \<open>Witnesses\<close>

lemma sample_ciphertext:
  "\<exists>z. fst (legacy_call sample_runtime sample_ctx (L_ciphertext ''i1'') (sample_world sample_db)) =
     Inr (LR_ciphertext z)"
  by (simp add: accessCiphertext_def Let_def loadAccessibleItem_def require_permission_def
      checkPermission_def legacy_grant_def select_def statement_def eff_defs sample_request sample_rows
      live_item_def findFirst_def orgScope_def)
    (simp add: agent_log.log_then [unfolded followed_by_def andThen_def] agent_log.never_fails
      split: prod.split sum.split)

lemma legacy_access_enforces_matrix_witness:
  "\<exists>item p. legacy_permits sample_ctx ''i1'' Read_ciphertext sample_db 1000 item p"
proof -
  obtain z where "fst (legacy_call sample_runtime sample_ctx (L_ciphertext ''i1'') (sample_world sample_db)) =
     Inr (LR_ciphertext z)" using sample_ciphertext by blast
  from legacy_access_enforces_matrix [OF outcome [OF this]] show ?thesis by simp
qed

lemma sample_mount_denied:
  "\<exists>e. fst (legacy_call sample_runtime sample_ctx
     (L_mount \<lparr>li_itemId = ''i1'', li_field = None, li_purpose = None\<rparr> Env) (sample_world sample_db)) = Inl e"
  by (simp add: accessMount_def Let_def loadAccessibleItem_def require_permission_def
      checkPermission_def legacy_grant_def select_def statement_def sample_request sample_rows
      live_item_def findFirst_def orgScope_def deny_eq andThen_def followed_by_def succeed_def)

lemma legacy_refusal_leaves_refusals_witness:
  "audits_where (refusal_row sample_ctx ''i1'') (sample_world sample_db)
     (snd (legacy_call sample_runtime sample_ctx
       (L_mount \<lparr>li_itemId = ''i1'', li_field = None, li_purpose = None\<rparr> Env) (sample_world sample_db)))"
proof -
  obtain e where "fst (legacy_call sample_runtime sample_ctx
     (L_mount \<lparr>li_itemId = ''i1'', li_field = None, li_purpose = None\<rparr> Env) (sample_world sample_db)) = Inl e"
    using sample_mount_denied by blast
  from legacy_refusal_leaves_refusals [OF outcome [OF this]] show ?thesis by simp
qed

text \<open>A grant of \<open>mount_env\<close> on the sample item.\<close>

definition bulk_db :: db where
  "bulk_db = sample_db\<lparr>tbl_permissions := [sample_read_grant\<lparr>perm_capability := Mount_env\<rparr>]\<rparr>"

lemma sample_bulk_env:
  "\<exists>bs. fst (accessBulkMountEnv sample_runtime sample_ctx ''p1'' (sample_world bulk_db)) = Inr bs"
  by (simp add: accessBulkMountEnv_def bulk_db_def sample_request sample_rows select_def statement_def
      profile_exists_def bulk_rows_def profile_items_def findFirst_def findMany_def orgScope_def
      legacy_grant_def not_expired_def BULK_MOUNT_ENV_MAX_ITEMS_def stage_row_def no_zk_envelope_def
      eff_defs)
    (simp add: logAgentAudit_def withAuditFailureWarning_insert)

lemma bulkMountEnv_complete_witness:
  "\<exists>bs. fst (accessBulkMountEnv sample_runtime sample_ctx ''p1'' (sample_world bulk_db)) = Inr bs \<and>
     length bs \<le> 256"
proof -
  obtain bs where "fst (accessBulkMountEnv sample_runtime sample_ctx ''p1'' (sample_world bulk_db)) = Inr bs"
    using sample_bulk_env by blast
  with bulkMountEnv_complete [OF outcome [OF this]] show ?thesis by blast
qed

text \<open>An item of the profile without its envelope fields.\<close>

definition corrupt_db :: db where
  "corrupt_db = bulk_db\<lparr>tbl_items := [sample_item\<lparr>item_ciphertext := None\<rparr>]\<rparr>"

lemma sample_bulk_env_fails:
  "\<exists>e. fst (accessBulkMountEnv sample_runtime sample_ctx ''p1'' (sample_world corrupt_db)) = Inl e"
  by (simp add: accessBulkMountEnv_def corrupt_db_def bulk_db_def sample_request sample_rows select_def
      statement_def profile_exists_def bulk_rows_def profile_items_def findFirst_def findMany_def
      orgScope_def legacy_grant_def not_expired_def BULK_MOUNT_ENV_MAX_ITEMS_def stage_row_def
      no_zk_envelope_def andThen_def deny_eq)

lemma bulkMountEnv_no_phantom_audit_witness:
  "only_audits (sample_world corrupt_db)
     (snd (accessBulkMountEnv sample_runtime sample_ctx ''p1'' (sample_world corrupt_db)))"
proof -
  obtain e where "fst (accessBulkMountEnv sample_runtime sample_ctx ''p1'' (sample_world corrupt_db)) = Inl e"
    using sample_bulk_env_fails by blast
  from bulkMountEnv_no_phantom_audit [OF outcome [OF this]] show ?thesis
    by (rule audits_where_mono) simp
qed

text \<open>When the profile has no wrapped data key the bulk endpoint fails before the audited decryption,
  so the failed access leaves no row.\<close>

definition keyless_db :: db where
  "keyless_db = bulk_db\<lparr>tbl_items := [sample_item\<lparr>item_storageMode := Server_managed,
     item_serverCiphertext := Some ''AA'', item_serverIv := Some ''AA'',
     item_serverKeyVersion := Some 4\<rparr>]\<rparr>"

lemma bulk_missing_key_unaudited:
  "\<exists>e. fst (accessBulkMountEnv sample_runtime sample_ctx ''p1'' (sample_world keyless_db)) = Inl e \<and>
     tbl_auditLogs (store (snd (accessBulkMountEnv sample_runtime sample_ctx ''p1''
       (sample_world keyless_db)))) = []"
  by (simp add: accessBulkMountEnv_def keyless_db_def bulk_db_def sample_request sample_rows select_def
      statement_def profile_exists_def bulk_rows_def profile_items_def findFirst_def findMany_def
      orgScope_def legacy_grant_def not_expired_def BULK_MOUNT_ENV_MAX_ITEMS_def stage_row_def
      bulk_key_def loadProfileContentKey_def loadWrappedDek_def wrapped_dek_def
      SERVER_DEK_MIN_VERSION_def eff_defs)

end
