(* ===== verification/Revocation.thy ===== *)
theory Revocation
  imports Auth_Properties Members Mount_Redeem Legacy_Access
begin

text \<open>
  Properties of several components together: an answer of the access pipeline traced back to the
  bearer token of the request, and what a revoked agent, a removed member and a deleted item can
  still do afterwards.
\<close>

section \<open>From the token to the secret\<close>

text \<open>The procedures \<open>access.read\<close> and \<open>access.use\<close> (\<open>routers/access.ts\<close>): the request context
  of the authenticated agent, the pipeline, and the check that the answer has the action's shape.\<close>

definition agent_ctx_of :: "string \<Rightarrow> string option \<Rightarrow> agent_identity \<Rightarrow> agent_ctx" where
  "agent_ctx_of key ip i = \<lparr>cx_orgId = aid_orgId i, cx_userId = aid_userId i, cx_agentId = aid_agentId i,
     cx_locality = aid_locality i, cx_ip = ip, cx_ENCRYPTION_KEY = key\<rparr>"

fun narrow :: "action \<Rightarrow> access_result \<Rightarrow> access_result server" where
  "narrow Act_read (Use_mount _) =
     fail_with (PlainErr ''internal: resolveAccess returned use result for read action'')"
| "narrow Act_use (Use_mount u) = succeed (Use_mount u)"
| "narrow Act_read r = succeed r"
| "narrow Act_use r =
     fail_with (PlainErr ''internal: resolveAccess returned read result for use action'')"

definition access_procedure ::
  "runtime \<Rightarrow> string \<Rightarrow> request_ctx \<Rightarrow> access_input \<Rightarrow> access_result server" where
  "access_procedure rt key rq inp =
     agentProcedure (rt_crypto rt) rq (\<lambda>i.
       andThen (resolveAccess rt (agent_ctx_of key (rq_ip rq) i) inp) (narrow (in_action inp)))"

lemma narrow_Inr: "narrow a r w = (Inr x, w') \<Longrightarrow> x = r \<and> w' = w"
  by (cases a; cases r) (auto simp: succeed_def fail_with_def)

lemma withOrgContext_Inr:
  "withOrgContext fn w = (Inr x, w') \<Longrightarrow>
     \<exists>w1. fn (w\<lparr>stmts := Suc (stmts w)\<rparr>) = (Inr x, w1) \<and> store w' = store w1"
  by (auto simp: withOrgContext_def statement_def split: prod.splits sum.splits option.splits)

lemma agentProcedure_Inr:
  "agentProcedure wc rq f w = (Inr x, w') \<Longrightarrow> \<exists>i w1 w2. resolveAgentIdentity wc rq w = (Inr i, w1) \<and>
     f i (w1\<lparr>stmts := Suc (stmts w1)\<rparr>) = (Inr x, w2) \<and> store w' = store w2"
  by (auto simp: agentProcedure_def andThen_Inr dest: withOrgContext_Inr)

lemma permits_cong:
  "tbl_items d = tbl_items d' \<Longrightarrow> tbl_permissions d = tbl_permissions d' \<Longrightarrow>
   permits cx inp d now item p = permits cx inp d' now item p"
  by (simp add: permits_def)

lemma last_use_only_frame:
  assumes "last_use_only w w'"
  shows "tbl_items (store w') = tbl_items (store w)" "tbl_permissions (store w') = tbl_permissions (store w)"
    "clock w' = clock w" "faults w' = faults w" "tbl_auditLogs (store w') = tbl_auditLogs (store w)"
  using assms by (auto simp: last_use_only_def with_last_use_def env_kept_def)


lemma sample_answered:
  "fst (access_procedure sample_runtime [] auth_request (sample_input Act_read) (sample_world sample_auth_db)) =
     Inr (Read_zk (zk_of sample_item))"
proof -
  let ?cx = "agent_ctx_of [] (rq_ip auth_request) (toAgentIdentity sample_agent)"
  obtain w1 where r: "resolveAgentIdentity toy_webcrypto auth_request (sample_world sample_auth_db) =
     (Inr (toAgentIdentity sample_agent), w1)" using sample_agent_resolved by blast
  from last_use_only_frame [OF agent_identity_kept [OF r]]
  have k: "tbl_items (store w1) = [sample_item]"
    "tbl_permissions (store w1) = [sample_read_grant, sample_use_grant]" "clock w1 = (\<lambda>_. 1000)"
    "faults w1 = (\<lambda>_. None)" by (simp_all add: sample_auth_db_def sample_db_def)
  have a: "authorize ?cx (sample_input Act_read) (store w1) 1000 1000 =
     V_granted sample_item (match_of sample_read_grant)"
    using k by (simp add: authorize_def agent_ctx_of_def toAgentIdentity_def sample_rows sample_input_def
        live_item_def findFirst_def orgScope_def grant_rows_def findMany_def grant_covers_def
        checkActionConstraint_def pick_grant_def item_level_first_def not_expired_def match_of_def Let_def)
  obtain w2 where w2: "resolveAccess sample_runtime ?cx (sample_input Act_read) (w1\<lparr>stmts := Suc (stmts w1)\<rparr>) =
     (Inr (Read_zk (zk_of sample_item)), w2)" "faults w2 = (\<lambda>_. None)"
    using k a by (simp add: resolveAccess_refines Let_def)
      (simp add: deliver_def sample_input_def sample_rows read_zk_def no_zk_envelope_def
        agent_log.log_then succeed_def audit_only_frame(14) [OF agent_log.frame])
  then show ?thesis
    using r k by (simp add: access_procedure_def agentProcedure_def andThen_def withOrgContext_def
        statement_def sample_runtime_def sample_input_def succeed_def)
qed


section \<open>After a revocation\<close>


text \<open>A second agent of the organisation, which still authenticates after the revocation.\<close>

definition other_agent :: agent_row where
  "other_agent = sample_agent\<lparr>ag_id := ''a2''\<rparr>"

definition two_agents_db :: db where
  "two_agents_db = sample_team\<lparr>tbl_agents := [other_agent, sample_agent]\<rparr>"

definition survivor_db :: db where
  "survivor_db = two_agents_db\<lparr>tbl_agents := [other_agent, sample_agent\<lparr>ag_enabled := False, ag_revokedAt := Some 1000\<rparr>],
     tbl_agentSessions := [auth_session_row\<lparr>ses_agentId := ''a2''\<rparr>]\<rparr>"

lemmas survivor_rows = sample_team_rows other_agent_def two_agents_db_def survivor_db_def auth_session_row_def

lemma survivor_resolves:
  "fst (resolveAgentIdentity toy_webcrypto auth_request (sample_world survivor_db)) =
     Inr (toAgentIdentity other_agent)"
  by (simp add: resolveAgentIdentity_def andThen_def getBearerToken_def bearer_def auth_request_def
      auth_token_def verifyAgentSessionIdentity_def select_def statement_def unrevoked_session_def
      session_agent_def survivor_rows touchAgent_def touchAgentSession_def touch_then succeed_def)

lemma survivor_revocation:
  "\<exists>w1. revokeAgent sample_session ''a1'' (sample_world two_agents_db) = (Inr (), w1) \<and>
     tbl_agents (store w1) = tbl_agents survivor_db"
  by (simp add: revokeAgent_def survivor_rows eff_defs select_def modify_def statement_def org_agent_def
      findFirst_def orgScope_def require_manage_def guarded_def forbidden_logged_def requireOrgRole_def
      requireAgentOwnership_def member_row_of_def transaction_def insert_audit_def insert_audits_def
      onAgentRevoked_def Let_def insert_some_def agent_grants_def disable_agents_def revoke_sessions_def)


text \<open>C23: once a member has been removed, and no other membership row of that user in the
  organisation existed, then as long as the members and agents stay as the removal left them (times
  of last use aside) no token resolves to an agent that the user created in the organisation, and no
  user procedure of the organisation runs for that user, whatever sessions or API keys it holds.\<close>

theorem removed_member_locked_out:
  assumes "removeMember sx t m w = (Inr u, w1)" "org_member t m (store w) = Some target"
    and only: "\<And>y. y \<in> set (tbl_members (store w)) \<Longrightarrow> mem_org y = t \<Longrightarrow>
       mem_userId y = mem_userId target \<Longrightarrow> mem_id y = m"
    and kept: "tbl_agents (store w2) = map (\<lambda>a. a\<lparr>ag_lastUsedAt := f a\<rparr>) (tbl_agents (store w1))"
      "tbl_members (store w2) = tbl_members (store w1)"
  shows "(\<forall>wc rq i w3. resolveAgentIdentity wc rq w2 = (Inr i, w3) \<longrightarrow>
      (aid_orgId i, aid_userId i) \<noteq> (t, Some (mem_userId target))) \<and>
    (\<forall>ba wc rq procedure x w3. lookups_only ba \<longrightarrow>
      scopedSessionProcedure ba wc rq procedure w2 = (Inr x, w3) \<longrightarrow>
      (\<exists>i w4. withOrgContext (procedure i) w4 = (Inr x, w3) \<and>
         (sid_orgId i, sid_userId i) \<noteq> (t, mem_userId target)))"
proof -
  obtain target' now where "org_member t m (store w) = Some target'"
    "store w1 = removal_store sx t m (mem_userId target') now (store w)"
    by (rule removeMember_Inr [OF assms(1)]) blast
  with assms(2) have st: "store w1 = removal_store sx t m (mem_userId target) now (store w)" by simp
  note after = removal_clears [where d = "store w" and t = t and m = m and u = "mem_userId target"
        and now = now and sx = sx, folded st]
  have agents: "\<not> ag_enabled a" if "a \<in> set (tbl_agents (store w2))" "ag_org a = t"
      "ag_createdBy a = Some (mem_userId target)" for a
    using that kept(1) after(2) by auto
  have members: "mem_userId y \<noteq> mem_userId target" if "y \<in> set (tbl_members (store w2))" "mem_org y = t" for y
  proof
    assume "mem_userId y = mem_userId target"
    moreover have "y \<in> set (tbl_members (store w))"
      using that(1) by (simp add: kept(2) st drop_member_def)
    ultimately have "mem_id y = m" using only that(2) by blast
    with after(1) that(1) kept(2) show False by simp
  qed
  show ?thesis
  proof (intro conjI allI impI)
    fix wc rq i w3
    assume "resolveAgentIdentity wc rq w2 = (Inr i, w3)"
    from agent_identity_from [OF this] agents
    show "(aid_orgId i, aid_userId i) \<noteq> (t, Some (mem_userId target))"
      by (auto simp: live_session_def toAgentIdentity_def)
  next
    fix ba wc rq and procedure :: "session_identity \<Rightarrow> 'a server" and x w3
    assume "lookups_only ba" "scopedSessionProcedure ba wc rq procedure w2 = (Inr x, w3)"
    from scopedSessionProcedure_Inr [OF this] obtain i w4 y where
      run: "withOrgContext (procedure i) w4 = (Inr x, w3)"
      and y: "y \<in> set (tbl_members (store w2))" "mem_org y = sid_orgId i" "mem_userId y = sid_userId i"
      by blast
    from members [OF y(1)] y(2,3) have "(sid_orgId i, sid_userId i) \<noteq> (t, mem_userId target)" by auto
    with run show "\<exists>i w4. withOrgContext (procedure i) w4 = (Inr x, w3) \<and>
         (sid_orgId i, sid_userId i) \<noteq> (t, mem_userId target)" by blast
  qed
qed

theorem removed_member_locked_out_witness:
  "\<not> (\<exists>i w3. resolveAgentIdentity toy_webcrypto auth_request
     (snd (removeMember sample_session ''o1'' ''m2'' (sample_world removal_db))) = (Inr i, w3) \<and>
     aid_orgId i = ''o1'' \<and> aid_userId i = Some ''u2'')"
proof -
  let ?w1 = "snd (removeMember sample_session ''o1'' ''m2'' (sample_world removal_db))"
  obtain target where target: "org_member ''o1'' ''m2'' (store (sample_world removal_db)) = Some target"
    "mem_userId target = ''u2''"
    by (simp add: org_member_def removal_db_def two_owners_rows)
  have only: "\<And>y. y \<in> set (tbl_members (store (sample_world removal_db))) \<Longrightarrow> mem_org y = ''o1'' \<Longrightarrow>
      mem_userId y = mem_userId target \<Longrightarrow> mem_id y = ''m2''"
    using target(2) by (auto simp: removal_db_def two_owners_rows)
  have "tbl_agents (store ?w1) = map (\<lambda>a. a\<lparr>ag_lastUsedAt := ag_lastUsedAt a\<rparr>) (tbl_agents (store ?w1))"
    by (simp add: map_idI)
  from removed_member_locked_out [OF outcome [OF sample_removal] target(1) only this refl] target(2)
  show ?thesis by auto
qed

lemma marked_deleted:
  assumes "item \<in> set (tbl_items (mark_deleted now t i d))" "item_id item = i" "item_org item = t"
  shows "item_deletedAt item \<noteq> None"
proof -
  from assms(1) have "(\<exists>x. item = x\<lparr>item_deletedAt := Some now\<rparr>) \<or>
      \<not> (item_id item = i \<and> item_org item = t)"
    by (simp add: mark_deleted_def orgScope_def image_iff) blast
  with assms(2,3) obtain x where "item = x\<lparr>item_deletedAt := Some now\<rparr>" by blast
  then show ?thesis by simp
qed

text \<open>C25: once an item has been deleted, as long as the items stay as the deletion left them,
  every request of the tenant's agents for that item fails: to read or use it, through the
  deprecated endpoints, and by redeeming a mount handle minted before the deletion.\<close>

theorem deleted_item_unreachable:
  assumes "deleteItem sx i w = (Inr u, w1)" "tbl_items (store w2) = tbl_items (store w1)"
    and "cx_orgId cx = sx_orgId sx"
  shows "(\<forall>inp r w3. resolveAccess rt cx inp w2 = (Inr r, w3) \<longrightarrow> in_itemId inp \<noteq> i) \<and>
    (\<forall>req r w3. legacy_call rt cx req w2 = (Inr r, w3) \<longrightarrow> legacy_item req \<noteq> i) \<and>
    (\<forall>mnt x w3. redeemMount rt cx mnt w2 = (Inr x, w3) \<longrightarrow>
       (case x of Redeem_zk c _ \<Rightarrow> rd_itemId c \<noteq> i | Redeem_server c _ \<Rightarrow> rd_itemId c \<noteq> i))"
proof -
  have "\<exists>now. tbl_items (store w1) = tbl_items (mark_deleted now (sx_orgId sx) i (store w))"
    using deleteItem_Inr [OF assms(1)] by (elim exE conjE) (intro exI, simp)
  then obtain now where
    "tbl_items (store w1) = tbl_items (mark_deleted now (sx_orgId sx) i (store w))" by blast
  have dead: "item_deletedAt item \<noteq> None"
    if "item \<in> set (tbl_items (store w2))" "item_id item = i" "item_org item = cx_orgId cx" for item
    by (rule marked_deleted [of item now "sx_orgId sx" i "store w"])
      (use that assms(2,3) \<open>tbl_items (store w1) = _\<close> in simp_all)
  have gone: "item_id item \<noteq> i" if "item \<in> set (tbl_items (store w2))" "item_org item = cx_orgId cx"
      "item_deletedAt item = None" for item
    using dead [OF that(1) _ that(2)] that(3) by blast
  show ?thesis
  proof (intro conjI allI impI)
    fix inp r w3
    assume "resolveAccess rt cx inp w2 = (Inr r, w3)"
    from resolveAccess_about [OF this] obtain item p where
      "permits cx inp (store w2) (clock w2 (Suc (ticks w2))) item p" by blast
    then show "in_itemId inp \<noteq> i" using gone [of item] by (simp add: permits_def)
  next
    fix req r w3
    assume "legacy_call rt cx req w2 = (Inr r, w3)"
    from legacy_call_permitted [OF this] obtain item p where
      "legacy_permits cx (legacy_item req) (legacy_capability req) (store w2) (clock w2 (ticks w2)) item p"
      by blast
    then show "legacy_item req \<noteq> i" using gone [of item] by (simp add: legacy_permits_def)
  next
    fix mnt x w3
    assume "redeemMount rt cx mnt w2 = (Inr x, w3)"
    then obtain r rows item w0 where
      c: "consume_reservation (cx_agentId cx) mnt (pg_now w2) (clock w2 (ticks w2)) (store w2) = (r # rows, store w0)"
      and item: "live_item (cx_orgId cx) (res_itemId r) (store w0) = Some item"
      and x: "redeem_item rt cx mnt r item (advance (Suc 0) 0 w0) = (Inr x, w3)"
      by (rule redeemMount_Inr)
    from item consume_items [OF c] have "item \<in> set (tbl_items (store w2))" "item_org item = cx_orgId cx"
      "item_deletedAt item = None" by (auto simp: live_item_def dest: findFirst_SomeD)
    with gone have "item_id item \<noteq> i" by blast
    with redeem_item_Inr [OF x]
    show "case x of Redeem_zk c _ \<Rightarrow> rd_itemId c \<noteq> i | Redeem_server c _ \<Rightarrow> rd_itemId c \<noteq> i"
      by (cases x) auto
  qed
qed

theorem deleted_item_unreachable_witness:
  "\<not> (\<exists>r w3. resolveAccess sample_runtime sample_ctx (sample_input Act_read)
     (snd (deleteItem sample_session ''i1'' (sample_world sample_team))) = (Inr r, w3))"
proof -
  have "cx_orgId sample_ctx = sx_orgId sample_session" by (simp add: sample_ctx_def sample_session_def)
  from deleted_item_unreachable [OF outcome [OF sample_deletion] refl this, of sample_runtime]
  have "in_itemId (sample_input Act_read) \<noteq> ''i1''"
    if "resolveAccess sample_runtime sample_ctx (sample_input Act_read)
     (snd (deleteItem sample_session ''i1'' (sample_world sample_team))) = (Inr r, w3)" for r w3
    using that by blast
  then show ?thesis by (auto simp: sample_input_def)
qed

end
