(* ===== verification/Agent_Sessions.thy ===== *)
theory Agent_Sessions
  imports Agent_Auth
begin

text \<open>
  How a keypair-backed agent obtains a session: \<open>packages/trpc/src/server/routers/auth.ts\<close> (bootstrap
  tokens, enrollment of a public key, challenges, the signed exchange of a challenge for a session
  token, revocation of a session, the login and logout records) with the key handling of
  \<open>packages/crypto/src/shared/ed25519.ts\<close>. Parsing JSON and verifying an Ed25519 signature under an
  imported JWK are parameters (\<open>auth_runtime\<close>); a verification that throws is \<open>None\<close>.
\<close>

section \<open>Keys and tokens\<close>

record auth_runtime =
  ar_crypto :: webcrypto
  ar_JSON_parse :: "string \<Rightarrow> json option"
  ar_subtle_verify :: "json \<Rightarrow> bytes \<Rightarrow> bytes \<Rightarrow> bool option"

text \<open>\<open>JSON.stringify\<close> of a string.\<close>

definition hex_digit :: "nat \<Rightarrow> char" where
  "hex_digit n = ''0123456789abcdef'' ! n"

definition json_escape :: "char \<Rightarrow> string" where
  "json_escape c =
     (if c \<in> {CHR 0x22, CHR 0x5C} then [CHR 0x5C, c]
      else if c = CHR 0x08 then [CHR 0x5C, CHR ''b'']
      else if c = CHR 0x0C then [CHR 0x5C, CHR ''f'']
      else if c = CHR 0x0A then [CHR 0x5C, CHR ''n'']
      else if c = CHR 0x0D then [CHR 0x5C, CHR ''r'']
      else if c = CHR 0x09 then [CHR 0x5C, CHR ''t'']
      else if (of_char c :: nat) < 32
        then [CHR 0x5C, CHR ''u'', CHR ''0'', CHR ''0'', hex_digit (of_char c div 16), hex_digit (of_char c mod 16)]
      else [c])"

definition json_quote :: "string \<Rightarrow> string" where
  "json_quote s = CHR 0x22 # concat (map json_escape s) @ [CHR 0x22]"

definition canonical_jwk :: "string \<Rightarrow> string" where
  "canonical_jwk x = CHR ''{'' # json_quote ''kty'' @ CHR '':'' # json_quote ''OKP'' @
     CHR '','' # json_quote ''crv'' @ CHR '':'' # json_quote ''Ed25519'' @
     CHR '','' # json_quote ''x'' @ CHR '':'' # json_quote x @ [CHR ''}'']"

definition normalizeEd25519PublicKeyJwk :: "auth_runtime \<Rightarrow> string \<Rightarrow> err + string" where
  "normalizeEd25519PublicKeyJwk rt serialized =
     (case ar_JSON_parse rt serialized of
        None \<Rightarrow> Inl (PlainErr ''public key must be a JSON-encoded JWK'')
      | Some (JObj jwk) \<Rightarrow>
          if map_of jwk ''kty'' \<noteq> Some (JStr ''OKP'') then Inl (PlainErr ''public key JWK must have kty'')
          else if map_of jwk ''crv'' \<noteq> Some (JStr ''Ed25519'')
            then Inl (PlainErr ''public key JWK must have crv'')
          else (case map_of jwk ''x'' of
              Some (JStr x) \<Rightarrow>
                if x = [] then Inl (PlainErr ''public key JWK must include a base64url x coordinate'')
                else if ''d'' \<in> fst ` set jwk
                  then Inl (PlainErr ''public key JWK must not include a private component (d)'')
                else Inr (canonical_jwk x)
            | _ \<Rightarrow> Inl (PlainErr ''public key JWK must include a base64url x coordinate''))
      | Some (JArr _) \<Rightarrow> Inl (PlainErr ''public key JWK must have kty'')
      | Some _ \<Rightarrow> Inl (PlainErr ''public key JWK must be a JSON object''))"

definition verifyEd25519 :: "auth_runtime \<Rightarrow> string \<Rightarrow> string \<Rightarrow> string \<Rightarrow> bool" where
  "verifyEd25519 rt publicKey message signature =
     (case normalizeEd25519PublicKeyJwk rt publicKey of
        Inl _ \<Rightarrow> False
      | Inr canonical \<Rightarrow> (case ar_JSON_parse rt canonical of
          None \<Rightarrow> False
        | Some jwk \<Rightarrow> (case fromBase64 signature of
            None \<Rightarrow> False
          | Some sig \<Rightarrow> orElse (ar_subtle_verify rt jwk sig (encode_text message)) False)))"

definition generateOpaqueToken :: "string \<Rightarrow> string server" where
  "generateOpaqueToken prefix = andThen (randomBytes 32) (\<lambda>b. succeed (prefix @ toBase64 b))"

definition AGENT_BOOTSTRAP_PREFIX :: string where
  "AGENT_BOOTSTRAP_PREFIX = ''abe_''"

definition AGENT_CHALLENGE_PREFIX :: string where
  "AGENT_CHALLENGE_PREFIX = ''abc_''"

definition AGENT_BOOTSTRAP_TTL_MS :: int where
  "AGENT_BOOTSTRAP_TTL_MS = 10 * 60 * 1000"

definition AGENT_CHALLENGE_TTL_MS :: int where
  "AGENT_CHALLENGE_TTL_MS = 60 * 1000"

definition AGENT_SESSION_TTL_MS :: int where
  "AGENT_SESSION_TTL_MS = 15 * 60 * 1000"

section \<open>Storage\<close>

text \<open>Primary keys and the unique indexes on the hashes.\<close>

definition insert_token :: "enrollment_token_row \<Rightarrow> db \<Rightarrow> err + (unit \<times> db)" where
  "insert_token r d =
     (if \<exists>s \<in> set (tbl_enrollmentTokens d). et_id s = et_id r \<or> et_tokenHash s = et_tokenHash r
      then Inl (DbErr ''23505'')
      else Inr ((), d\<lparr>tbl_enrollmentTokens := tbl_enrollmentTokens d @ [r]\<rparr>))"

definition insert_challenge :: "challenge_row \<Rightarrow> db \<Rightarrow> err + (unit \<times> db)" where
  "insert_challenge r d =
     (if \<exists>s \<in> set (tbl_sessionChallenges d). ch_id s = ch_id r \<or> ch_challengeHash s = ch_challengeHash r
      then Inl (DbErr ''23505'')
      else Inr ((), d\<lparr>tbl_sessionChallenges := tbl_sessionChallenges d @ [r]\<rparr>))"

definition insert_session :: "agent_session_row \<Rightarrow> db \<Rightarrow> err + (unit \<times> db)" where
  "insert_session r d =
     (if \<exists>s \<in> set (tbl_agentSessions d). ses_id s = ses_id r \<or> ses_tokenHash s = ses_tokenHash r
      then Inl (DbErr ''23505'')
      else Inr ((), d\<lparr>tbl_agentSessions := tbl_agentSessions d @ [r]\<rparr>))"

text \<open>An \<open>UPDATE ... RETURNING id\<close>: did it hit a row, and the new table.\<close>

definition update_hit :: "('r \<Rightarrow> bool) \<Rightarrow> ('r \<Rightarrow> 'r) \<Rightarrow> 'r list \<Rightarrow> bool \<times> 'r list" where
  "update_hit chosen change rows =
     ((\<exists>r \<in> set rows. chosen r), map (\<lambda>r. if chosen r then change r else r) rows)"

text \<open>
  The contract of a credential that is used once: claiming marks the chosen rows, and a marked row
  is not chosen again. Then of two claims of the same credential at most one hits, and no row that
  is not chosen changes.
\<close>

locale single_use =
  fixes chosen :: "'k \<Rightarrow> 'r \<Rightarrow> bool" and mark :: "int \<Rightarrow> 'r \<Rightarrow> 'r"
  assumes marked: "\<not> chosen k (mark t r)"
begin

lemma spent: "r \<in> set (snd (update_hit (chosen k) (mark t) rows)) \<Longrightarrow> \<not> chosen k r"
  by (auto simp: update_hit_def marked)

lemma claimed_once: "\<not> fst (update_hit (chosen k) f (snd (update_hit (chosen k) (mark t) rows)))"
  using spent by (auto simp: update_hit_def [of _ f])

lemma others_kept: "r \<in> set rows \<Longrightarrow> \<not> chosen k r \<Longrightarrow> r \<in> set (snd (update_hit (chosen k) (mark t) rows))"
  by (auto simp: update_hit_def image_iff intro!: bexI [of _ r])

end

section \<open>Users: login, logout, bootstrap tokens\<close>

definition recordLogin :: "session_ctx \<Rightarrow> unit server" where
  "recordLogin sx = logSessionAudit ((entry (sx_orgId sx) (Some (sx_userId sx)) Ev_auth_login Allowed)
     \<lparr>ae_ipAddress := sx_ip sx\<rparr>)"

text \<open>Signing out is the session library's; its failure is ignored.\<close>

definition recordLogout :: "unit server \<Rightarrow> session_ctx \<Rightarrow> unit server" where
  "recordLogout signOut sx = followed_by (catch_all signOut (\<lambda>_. succeed ()))
     (logSessionAudit ((entry (sx_orgId sx) (Some (sx_userId sx)) Ev_auth_logout Allowed)
        \<lparr>ae_ipAddress := sx_ip sx\<rparr>))"

definition loadOwnedAgent :: "session_ctx \<Rightarrow> string \<Rightarrow> agent_row server" where
  "loadOwnedAgent sx agentId =
     andThen (select (\<lambda>d. find (\<lambda>a. ag_id a = agentId \<and> ag_createdBy a = Some (sx_userId sx) \<and>
        orgScope ag_org (sx_orgId sx) a) (tbl_agents d))) (\<lambda>agent.
       case agent of None \<Rightarrow> fail_with (notFound ''AGENT_NOT_FOUND'') | Some a \<Rightarrow> succeed a)"

record bootstrap_result =
  br_agentId :: string
  br_token :: string
  br_expiresAt :: int

definition issueBootstrapToken :: "webcrypto \<Rightarrow> session_ctx \<Rightarrow> string \<Rightarrow> bootstrap_result server" where
  "issueBootstrapToken wc sx agentId =
     andThen (loadOwnedAgent sx agentId) (\<lambda>agent.
       let deny = (\<lambda>why code. auditDeniedSession
             ((denied (sx_orgId sx) (Some (sx_userId sx)) Ev_agent_bootstrap_issue why)
                \<lparr>df_agentId := Some (ag_id agent), df_ipAddress := sx_ip sx\<rparr>) (forbidden code [])) in
       if \<not> ag_enabled agent then deny ''agent_disabled'' ''PERMISSION_DENIED''
       else if ag_revokedAt agent \<noteq> None then deny ''agent_revoked'' ''AGENT_REVOKED''
       else if ag_authMethod agent \<noteq> ''public_key_session''
         then deny ''unsupported_auth_method'' ''PERMISSION_DENIED''
       else if truthy (ag_publicKey agent) then deny ''already_enrolled'' ''AGENT_ALREADY_ENROLLED''
       else
         andThen (generateOpaqueToken AGENT_BOOTSTRAP_PREFIX) (\<lambda>bootstrapToken.
         andThen new_Date (\<lambda>now.
         andThen randomUUID (\<lambda>newId.
         followed_by (statement (insert_token \<lparr>et_id = newId, et_agentId = ag_id agent,
            et_userId = ag_createdBy agent, et_createdBy = sx_userId sx,
            et_tokenHash = hashApiKey wc bootstrapToken,
            et_expiresAt = now + AGENT_BOOTSTRAP_TTL_MS, et_usedAt = None\<rparr>))
         (followed_by (logSessionAudit ((entry (ag_org agent) (Some (sx_userId sx))
              Ev_agent_bootstrap_issue Allowed)\<lparr>ae_agentId := Some (ag_id agent), ae_ipAddress := sx_ip sx\<rparr>))
           (succeed \<lparr>br_agentId = ag_id agent, br_token = bootstrapToken,
              br_expiresAt = now + AGENT_BOOTSTRAP_TTL_MS\<rparr>))))))"

section \<open>Enrollment\<close>

definition ensureAgentEligibleForEnrollment :: "agent_row \<Rightarrow> unit server" where
  "ensureAgentEligibleForEnrollment agent =
     (if \<not> ag_enabled agent then fail_with (forbidden ''PERMISSION_DENIED'' [])
      else if ag_revokedAt agent \<noteq> None then fail_with (forbidden ''AGENT_REVOKED'' [])
      else if ag_authMethod agent \<noteq> ''public_key_session'' then fail_with (forbidden ''PERMISSION_DENIED'' [])
      else if truthy (ag_publicKey agent) then fail_with (forbidden ''AGENT_ALREADY_ENROLLED'' [])
      else succeed ())"

definition unused_token :: "string \<Rightarrow> db \<Rightarrow> enrollment_token_row option" where
  "unused_token tokenHash d =
     find (\<lambda>t. et_tokenHash t = tokenHash \<and> et_usedAt t = None) (tbl_enrollmentTokens d)"

text \<open>The agent of a token, whose creator must be the token's user (both may be absent).\<close>

definition token_agent :: "enrollment_token_row \<Rightarrow> db \<Rightarrow> agent_row option" where
  "token_agent t d =
     find (\<lambda>a. ag_id a = et_agentId t \<and>
        (case et_userId t of None \<Rightarrow> ag_createdBy a = None | Some u \<Rightarrow> ag_createdBy a = Some u))
       (tbl_agents d)"

definition claimable_token :: "string \<times> string \<Rightarrow> enrollment_token_row \<Rightarrow> bool" where
  "claimable_token k t = (et_id t = fst k \<and> et_tokenHash t = snd k \<and> et_usedAt t = None)"

interpretation token: single_use claimable_token "\<lambda>now t. t\<lparr>et_usedAt := Some now\<rparr>"
  by unfold_locales (simp add: claimable_token_def)

definition use_token :: "int \<Rightarrow> string \<Rightarrow> string \<Rightarrow> db \<Rightarrow> err + (bool \<times> db)" where
  "use_token enrolledAt tokenId tokenHash d =
     (let (hit, rows) = update_hit (claimable_token (tokenId, tokenHash))
        (\<lambda>t. t\<lparr>et_usedAt := Some enrolledAt\<rparr>) (tbl_enrollmentTokens d)
      in Inr (hit, d\<lparr>tbl_enrollmentTokens := rows\<rparr>))"

definition set_public_key :: "string \<Rightarrow> agent_row \<Rightarrow> db \<Rightarrow> err + (bool \<times> db)" where
  "set_public_key publicKey agent d =
     (let (hit, rows) = update_hit
        (\<lambda>a. ag_id a = ag_id agent \<and> ag_createdBy a = ag_createdBy agent \<and> ag_enabled a \<and>
           ag_revokedAt a = None \<and> ag_publicKey a = None)
        (\<lambda>a. a\<lparr>ag_publicKey := Some publicKey\<rparr>) (tbl_agents d)
      in Inr (hit, d\<lparr>tbl_agents := rows\<rparr>))"

text \<open>Claim the token and store the key together, or neither.\<close>

definition claim_enrollment :: "int \<Rightarrow> enrollment_token_row \<Rightarrow> string \<Rightarrow> agent_row \<Rightarrow> string \<Rightarrow> bool server" where
  "claim_enrollment enrolledAt bootstrap tokenHash agent publicKey =
     transaction
       (andThen (statement (use_token enrolledAt (et_id bootstrap) tokenHash)) (\<lambda>claimed.
         if \<not> claimed then succeed False
         else andThen (statement (set_public_key publicKey agent)) (\<lambda>updated.
           if \<not> updated then fail_with (forbidden ''PERMISSION_DENIED'' []) else succeed True)))"

definition enrollAgent :: "auth_runtime \<Rightarrow> request_ctx \<Rightarrow> string \<Rightarrow> string \<Rightarrow> (agent_row \<times> int) server" where
  "enrollAgent rt rq bootstrapToken rawKey =
     (case normalizeEd25519PublicKeyJwk rt rawKey of
        Inl _ \<Rightarrow> fail_with (DomainErr BadRequestError ''BAD_REQUEST'' [])
      | Inr publicKey \<Rightarrow>
        let tokenHash = hashApiKey (ar_crypto rt) bootstrapToken in
        andThen (select (unused_token tokenHash)) (\<lambda>found.
        case found of
          None \<Rightarrow> fail_with (forbidden ''INVALID_BOOTSTRAP_TOKEN'' [])
        | Some bootstrap \<Rightarrow>
          andThen new_Date (\<lambda>now.
          if et_expiresAt bootstrap \<le> now then fail_with (forbidden ''BOOTSTRAP_TOKEN_EXPIRED'' [])
          else andThen (select (token_agent bootstrap)) (\<lambda>owner.
          case owner of
            None \<Rightarrow> fail_with (notFound ''AGENT_NOT_FOUND'')
          | Some agent \<Rightarrow>
            followed_by (ensureAgentEligibleForEnrollment agent)
            (andThen new_Date (\<lambda>enrolledAt.
             andThen (claim_enrollment enrolledAt bootstrap tokenHash agent publicKey) (\<lambda>claimed.
               if \<not> claimed then fail_with (forbidden ''INVALID_BOOTSTRAP_TOKEN'' [])
               else followed_by (logBaseAudit ((entry (ag_org agent) (ag_createdBy agent) Ev_agent_enroll Allowed)
                      \<lparr>ae_agentId := Some (ag_id agent), ae_ipAddress := rq_ip rq\<rparr>))
                    (succeed (agent\<lparr>ag_publicKey := Some publicKey\<rparr>, enrolledAt)))))))))"

section \<open>Challenges\<close>

definition CHALLENGE_RATE_LIMIT :: nat where
  "CHALLENGE_RATE_LIMIT = 30"

definition live_challenges :: "string \<Rightarrow> int \<Rightarrow> db \<Rightarrow> challenge_row list" where
  "live_challenges agentId now d =
     filter (\<lambda>c. ch_agentId c = agentId \<and> ch_expiresAt c > now \<and> ch_usedAt c = None)
       (tbl_sessionChallenges d)"

record challenge_result =
  cr_agentId :: string
  cr_challengeId :: string
  cr_challenge :: string
  cr_expiresAt :: int

definition createAgentChallenge :: "webcrypto \<Rightarrow> string \<Rightarrow> challenge_result server" where
  "createAgentChallenge wc agentId =
     andThen (select (\<lambda>d. find (\<lambda>a. ag_id a = agentId \<and> ag_enabled a \<and> ag_revokedAt a = None)
        (tbl_agents d))) (\<lambda>found.
     case found of
       None \<Rightarrow> fail_with (notFound ''AGENT_NOT_FOUND'')
     | Some agent \<Rightarrow>
       if falsy (ag_publicKey agent) then fail_with (forbidden ''ENROLLMENT_REQUIRED'' [])
       else andThen new_Date (\<lambda>now.
         andThen (select (\<lambda>d. length (live_challenges (ag_id agent) now d))) (\<lambda>count.
         if count \<ge> CHALLENGE_RATE_LIMIT then fail_with (DomainErr RateLimitError ''RATE_LIMITED'' [])
         else
           andThen new_Date (\<lambda>gcNow.
           followed_by (catch_all (modify (\<lambda>d. d\<lparr>tbl_sessionChallenges :=
               filter (\<lambda>c. \<not> ch_expiresAt c < gcNow - 60 * 60 * 1000) (tbl_sessionChallenges d)\<rparr>))
             (\<lambda>_. succeed ()))
           (andThen randomUUID (\<lambda>challengeId.
            andThen (generateOpaqueToken AGENT_CHALLENGE_PREFIX) (\<lambda>challenge.
            andThen new_Date (\<lambda>issued.
            followed_by (statement (insert_challenge \<lparr>ch_id = challengeId, ch_agentId = ag_id agent,
               ch_challengeHash = hashApiKey wc challenge,
               ch_expiresAt = issued + AGENT_CHALLENGE_TTL_MS, ch_usedAt = None\<rparr>))
              (succeed \<lparr>cr_agentId = ag_id agent, cr_challengeId = challengeId, cr_challenge = challenge,
                 cr_expiresAt = issued + AGENT_CHALLENGE_TTL_MS\<rparr>)))))))))"

section \<open>The signed exchange\<close>

definition reject_row :: "request_ctx \<Rightarrow> agent_row \<Rightarrow> audit_result \<Rightarrow> string \<Rightarrow> audit_entry" where
  "reject_row rq agent result reason =
     (entry (ag_org agent) (ag_createdBy agent) Ev_agent_session_reject result)
       \<lparr>ae_agentId := Some (ag_id agent), ae_ipAddress := rq_ip rq,
        ae_meta := Some [(''reason'', JStr reason)]\<rparr>"

definition rejectSessionExchange ::
  "request_ctx \<Rightarrow> agent_row \<Rightarrow> audit_result \<Rightarrow> string \<Rightarrow> err \<Rightarrow> 'a server" where
  "rejectSessionExchange rq agent result reason error =
     followed_by (logBaseAudit (reject_row rq agent result reason)) (fail_with error)"

definition ensureAgentEligibleForSessionExchange :: "request_ctx \<Rightarrow> agent_row \<Rightarrow> unit server" where
  "ensureAgentEligibleForSessionExchange rq agent =
     (if \<not> ag_enabled agent
        then rejectSessionExchange rq agent Denied ''agent_disabled'' (forbidden ''PERMISSION_DENIED'' [])
      else if ag_revokedAt agent \<noteq> None
        then rejectSessionExchange rq agent Revoked ''agent_revoked'' (forbidden ''AGENT_REVOKED'' [])
      else if ag_authMethod agent \<noteq> ''public_key_session''
        then rejectSessionExchange rq agent Denied ''unsupported_auth_method''
               (forbidden ''PERMISSION_DENIED'' [])
      else if falsy (ag_publicKey agent)
        then rejectSessionExchange rq agent Denied ''agent_not_enrolled'' (forbidden ''AGENT_NOT_ENROLLED'' [])
      else succeed ())"

record exchange_input =
  xi_agentId :: string
  xi_challengeId :: string
  xi_challenge :: string
  xi_signature :: string

definition unused_challenge :: "string \<Rightarrow> string \<Rightarrow> string \<Rightarrow> challenge_row \<Rightarrow> bool" where
  "unused_challenge challengeId agentId challengeHash c =
     (ch_id c = challengeId \<and> ch_agentId c = agentId \<and> ch_challengeHash c = challengeHash \<and>
      ch_usedAt c = None)"

interpretation challenge: single_use "\<lambda>(i, a, h). unused_challenge i a h" "\<lambda>now c. c\<lparr>ch_usedAt := Some now\<rparr>"
  by unfold_locales (auto simp: unused_challenge_def)

definition use_challenge :: "int \<Rightarrow> string \<Rightarrow> string \<Rightarrow> string \<Rightarrow> db \<Rightarrow> err + (bool \<times> db)" where
  "use_challenge issuedAt challengeId agentId challengeHash d =
     (let (hit, rows) = update_hit (unused_challenge challengeId agentId challengeHash)
        (\<lambda>c. c\<lparr>ch_usedAt := Some issuedAt\<rparr>) (tbl_sessionChallenges d)
      in Inr (hit, d\<lparr>tbl_sessionChallenges := rows\<rparr>))"

text \<open>Claim the challenge and issue the session together, or neither.\<close>

definition claim_challenge ::
  "int \<Rightarrow> challenge_row \<Rightarrow> string \<Rightarrow> agent_row \<Rightarrow> string \<Rightarrow> bool server" where
  "claim_challenge issuedAt challengeRecord challengeHash agent tokenHash =
     transaction
       (andThen (statement (use_challenge issuedAt (ch_id challengeRecord) (ag_id agent) challengeHash)) (\<lambda>claimed.
         if \<not> claimed then succeed False
         else andThen randomUUID (\<lambda>newId.
           followed_by (\<lambda>w. statement (insert_session \<lparr>ses_id = newId, ses_agentId = ag_id agent,
              ses_userId = ag_createdBy agent, ses_tokenHash = tokenHash,
              ses_expiresAt = issuedAt + AGENT_SESSION_TTL_MS, ses_revokedAt = None,
              ses_lastUsedAt = None, ses_createdAt = pg_now w\<rparr>) w)
             (succeed True))))"

record session_result =
  sr_agentId :: string
  sr_token :: string
  sr_expiresAt :: int

definition exchangeAgentSession :: "auth_runtime \<Rightarrow> request_ctx \<Rightarrow> exchange_input \<Rightarrow> session_result server" where
  "exchangeAgentSession rt rq inp =
     andThen (select (\<lambda>d. find (\<lambda>a. ag_id a = xi_agentId inp) (tbl_agents d))) (\<lambda>found.
     case found of
       None \<Rightarrow> fail_with (notFound ''AGENT_NOT_FOUND'')
     | Some agent \<Rightarrow>
       followed_by (ensureAgentEligibleForSessionExchange rq agent)
       (let challengeHash = hashApiKey (ar_crypto rt) (xi_challenge inp) in
        andThen (select (\<lambda>d. find (unused_challenge (xi_challengeId inp) (ag_id agent) challengeHash)
           (tbl_sessionChallenges d))) (\<lambda>record.
        case record of
          None \<Rightarrow> rejectSessionExchange rq agent Denied ''invalid_challenge''
                    (forbidden ''AGENT_CHALLENGE_NOT_FOUND'' [])
        | Some challengeRecord \<Rightarrow>
          andThen new_Date (\<lambda>now.
          if ch_expiresAt challengeRecord \<le> now then
            rejectSessionExchange rq agent Expired ''challenge_expired'' (forbidden ''AGENT_CHALLENGE_EXPIRED'' [])
          else if \<not> verifyEd25519 rt (orElse (ag_publicKey agent) []) (xi_challenge inp) (xi_signature inp) then
            rejectSessionExchange rq agent Denied ''invalid_signature'' (forbidden ''PERMISSION_DENIED'' [])
          else
            andThen new_Date (\<lambda>issuedAt.
            andThen (generateOpaqueToken AGENT_SESSION_PREFIX) (\<lambda>token.
            andThen (claim_challenge issuedAt challengeRecord challengeHash agent
                (hashApiKey (ar_crypto rt) token)) (\<lambda>claimed.
              if \<not> claimed then
                rejectSessionExchange rq agent Denied ''challenge_already_used''
                  (forbidden ''AGENT_CHALLENGE_NOT_FOUND'' [])
              else
                followed_by (logBaseAudit ((entry (ag_org agent) (ag_createdBy agent)
                    Ev_agent_session_issue Allowed)\<lparr>ae_agentId := Some (ag_id agent), ae_ipAddress := rq_ip rq\<rparr>))
                (succeed \<lparr>sr_agentId = ag_id agent, sr_token = token,
                   sr_expiresAt = issuedAt + AGENT_SESSION_TTL_MS\<rparr>))))))))"

section \<open>Revoking one session\<close>

definition org_session :: "string \<Rightarrow> string \<Rightarrow> db \<Rightarrow> agent_session_row option" where
  "org_session orgId tokenHash d =
     find (\<lambda>s. ses_tokenHash s = tokenHash \<and> ses_revokedAt s = None \<and>
        (\<exists>a \<in> set (tbl_agents d). ag_id a = ses_agentId s \<and> orgScope ag_org orgId a))
       (tbl_agentSessions d)"

definition revokeAgentSession :: "webcrypto \<Rightarrow> session_ctx \<Rightarrow> string \<Rightarrow> unit server" where
  "revokeAgentSession wc sx token =
     andThen (select (org_session (sx_orgId sx) (hashApiKey wc token))) (\<lambda>found.
     case found of
       None \<Rightarrow> succeed ()
     | Some sessionRecord \<Rightarrow>
       andThen (requireOrgRole (sx_orgId sx) (sx_userId sx) ''member'') (\<lambda>callerRole.
       followed_by (forbidden_logged
           ((entry (sx_orgId sx) (Some (sx_userId sx)) Ev_agent_session_revoke Denied)
              \<lparr>ae_agentId := Some (ses_agentId sessionRecord), ae_ipAddress := sx_ip sx,
               ae_meta := Some [(''reason'', JStr ''agent_not_owned'')]\<rparr>)
           (requireAgentOwnership (ses_agentId sessionRecord) (sx_userId sx) (sx_orgId sx) callerRole))
       (andThen new_Date (\<lambda>now.
        followed_by (modify (\<lambda>d. d\<lparr>tbl_agentSessions :=
            map (\<lambda>s. if ses_id s = ses_id sessionRecord then s\<lparr>ses_revokedAt := Some now\<rparr> else s)
              (tbl_agentSessions d)\<rparr>))
          (logSessionAudit ((entry (sx_orgId sx) (ses_userId sessionRecord) Ev_agent_session_revoke Allowed)
             \<lparr>ae_agentId := Some (ses_agentId sessionRecord), ae_ipAddress := sx_ip sx\<rparr>))))))"

end
