(* ===== verification/Session_Properties.thy ===== *)
theory Session_Properties
  imports Agent_Sessions Auth_Properties
begin

text \<open>
  What the keypair flow promises: a key is enrolled once per token for an eligible agent, a session is
  issued once per challenge and only for a valid signature under the enrolled key, the token issued
  is the one that authenticates, and a revoked session no longer does.
\<close>

lemma rejectSessionExchange_fails: "rejectSessionExchange rq a r why e w = (Inr x, w') \<longleftrightarrow> False"
  by (simp add: rejectSessionExchange_def base_log.log_then_fail)

lemma eligible_exchange_Inr:
  "ensureAgentEligibleForSessionExchange rq a w = (Inr u, w') \<longleftrightarrow>
     w' = w \<and> ag_enabled a \<and> ag_revokedAt a = None \<and> ag_authMethod a = ''public_key_session'' \<and>
     truthy (ag_publicKey a)"
  by (auto simp: ensureAgentEligibleForSessionExchange_def rejectSessionExchange_fails succeed_def)

lemma eligible_enrollment_Inr:
  "ensureAgentEligibleForEnrollment a w = (Inr u, w') \<longleftrightarrow>
     w' = w \<and> ag_enabled a \<and> ag_revokedAt a = None \<and> ag_authMethod a = ''public_key_session'' \<and>
     falsy (ag_publicKey a)"
  by (auto simp: ensureAgentEligibleForEnrollment_def fail_with_def succeed_def)

lemma generateOpaqueToken_eq:
  "generateOpaqueToken p w = (Inr (p @ toBase64 (randoms w (draws w) 32)), w\<lparr>draws := Suc (draws w)\<rparr>)"
  by (simp add: generateOpaqueToken_def andThen_def succeed_def)

section \<open>The exchange\<close>

text \<open>The session a successful exchange stores.\<close>

definition issued_session :: "agent_row \<Rightarrow> string \<Rightarrow> string \<Rightarrow> int \<Rightarrow> int \<Rightarrow> agent_session_row" where
  "issued_session a newId tokenHash issuedAt now =
     \<lparr>ses_id = newId, ses_agentId = ag_id a, ses_userId = ag_createdBy a, ses_tokenHash = tokenHash,
      ses_expiresAt = issuedAt + AGENT_SESSION_TTL_MS, ses_revokedAt = None, ses_lastUsedAt = None,
      ses_createdAt = now\<rparr>"

definition spend_challenge :: "int \<Rightarrow> string \<Rightarrow> string \<Rightarrow> string \<Rightarrow> db \<Rightarrow> db" where
  "spend_challenge issuedAt i a h d = d\<lparr>tbl_sessionChallenges :=
     snd (update_hit (unused_challenge i a h) (\<lambda>c. c\<lparr>ch_usedAt := Some issuedAt\<rparr>) (tbl_sessionChallenges d))\<rparr>"

lemma spend_challenge_spent:
  "c \<in> set (tbl_sessionChallenges (spend_challenge issuedAt i a h d)) \<Longrightarrow> \<not> unused_challenge i a h c"
  using challenge.spent [of c "(i, a, h)"] by (simp add: spend_challenge_def)

lemma spend_challenge_frame [simp]:
  "tbl_agents (spend_challenge issuedAt i a h d) = tbl_agents d"
  "tbl_agentSessions (spend_challenge issuedAt i a h d) = tbl_agentSessions d"
  by (simp_all add: spend_challenge_def)

lemma claim_challenge_Inr:
  assumes "claim_challenge issuedAt c h a th w = (Inr True, w')"
  shows "\<exists>newId. (\<exists>r \<in> set (tbl_sessionChallenges (store w)). unused_challenge (ch_id c) (ag_id a) h r) \<and>
    (\<forall>s \<in> set (tbl_agentSessions (store w)). ses_tokenHash s \<noteq> th) \<and> env_kept w w' \<and>
    store w' = (spend_challenge issuedAt (ch_id c) (ag_id a) h (store w))
      \<lparr>tbl_agentSessions := tbl_agentSessions (store w) @ [issued_session a newId th issuedAt (pg_now w)]\<rparr>"
  using assms
  by (auto simp: claim_challenge_def transaction_ok andThen_Inr followed_by_def statement_ok
      use_challenge_def update_hit_def succeed_def insert_session_def issued_session_def
      spend_challenge_def env_kept_def Let_def split: if_splits)

lemma find_SomeE:
  assumes "find P xs = Some x"
  obtains "x \<in> set xs" "P x"
  using find_SomeD [OF assms] by blast

lemma exchangeAgentSession_Inr:
  assumes "exchangeAgentSession rt rq inp w = (Inr r, w')"
  obtains a c newId issuedAt now audits where
    "a \<in> set (tbl_agents (store w))" "ag_id a = xi_agentId inp" "ag_enabled a" "ag_revokedAt a = None"
    "truthy (ag_publicKey a)"
    "c \<in> set (tbl_sessionChallenges (store w))"
    "unused_challenge (xi_challengeId inp) (ag_id a) (hashApiKey (ar_crypto rt) (xi_challenge inp)) c"
    "clock w (ticks w) < ch_expiresAt c"
    "verifyEd25519 rt (the (ag_publicKey a)) (xi_challenge inp) (xi_signature inp)"
    "issuedAt = clock w (Suc (ticks w))"
    "r = \<lparr>sr_agentId = ag_id a, sr_token = AGENT_SESSION_PREFIX @ toBase64 (randoms w (draws w) 32),
      sr_expiresAt = issuedAt + AGENT_SESSION_TTL_MS\<rparr>"
    "\<forall>s \<in> set (tbl_agentSessions (store w)). ses_tokenHash s \<noteq> hashApiKey (ar_crypto rt) (sr_token r)"
    "env_kept w w'"
    "store w' = (spend_challenge issuedAt (xi_challengeId inp) (ag_id a)
        (hashApiKey (ar_crypto rt) (xi_challenge inp)) (store w))
      \<lparr>tbl_agentSessions := tbl_agentSessions (store w) @
         [issued_session a newId (hashApiKey (ar_crypto rt) (sr_token r)) issuedAt now],
       tbl_auditLogs := tbl_auditLogs (store w) @ audits\<rparr>"
proof -
  let ?h = "hashApiKey (ar_crypto rt) (xi_challenge inp)"
  let ?iss = "clock w (Suc (ticks w))"
  let ?tok = "AGENT_SESSION_PREFIX @ toBase64 (randoms w (draws w) 32)"
  let ?w2 = "w\<lparr>stmts := Suc (Suc (stmts w)), ticks := Suc (Suc (ticks w)), draws := Suc (draws w)\<rparr>"
  let ?r = "\<lambda>a. \<lparr>sr_agentId = ag_id a, sr_token = ?tok, sr_expiresAt = ?iss + AGENT_SESSION_TTL_MS\<rparr>"
  from assms obtain a c w3 where
    fa: "find (\<lambda>a. ag_id a = xi_agentId inp) (tbl_agents (store w)) = Some a"
    and el: "ag_enabled a" "ag_revokedAt a = None" "truthy (ag_publicKey a)"
    and fc: "find (unused_challenge (xi_challengeId inp) (ag_id a) ?h) (tbl_sessionChallenges (store w)) = Some c"
    and live: "\<not> ch_expiresAt c \<le> clock w (ticks w)"
    and ver: "verifyEd25519 rt (orElse (ag_publicKey a) []) (xi_challenge inp) (xi_signature inp)"
    and claim: "claim_challenge ?iss c ?h a (hashApiKey (ar_crypto rt) ?tok) ?w2 = (Inr True, w3)"
    and log: "followed_by (logBaseAudit ((entry (ag_org a) (ag_createdBy a) Ev_agent_session_issue Allowed)
         \<lparr>ae_agentId := Some (ag_id a), ae_ipAddress := rq_ip rq\<rparr>)) (succeed (?r a)) w3 = (Inr r, w')"
    by (auto simp: exchangeAgentSession_def andThen_Inr [of "select _"] andThen_Inr [of new_Date]
        andThen_Inr [of "generateOpaqueToken _"] andThen_Inr [of "claim_challenge _ _ _ _ _"]
        followed_by_def [of "ensureAgentEligibleForSessionExchange _ _"]
        andThen_Inr [of "ensureAgentEligibleForSessionExchange _ _"] select_ok fail_with_def
        rejectSessionExchange_fails eligible_exchange_Inr generateOpaqueToken_eq Let_def
        split: option.splits if_splits)
  from find_SomeD [OF fa] have a: "a \<in> set (tbl_agents (store w))" "ag_id a = xi_agentId inp" by auto
  from find_SomeD [OF fc] have c: "c \<in> set (tbl_sessionChallenges (store w))"
    "unused_challenge (xi_challengeId inp) (ag_id a) ?h c" by auto
  then have id: "ch_id c = xi_challengeId inp" by (simp add: unused_challenge_def)
  have r: "r = ?r a" and w': "audit_only w3 w'"
    using log by (auto simp: base_log.log_then succeed_def intro: base_log.frame)
  from claim_challenge_Inr [OF claim] obtain newId where
    fresh: "\<forall>s \<in> set (tbl_agentSessions (store w)). ses_tokenHash s \<noteq> hashApiKey (ar_crypto rt) ?tok"
    and kept: "env_kept w w3"
    and st: "store w3 = (spend_challenge ?iss (xi_challengeId inp) (ag_id a) ?h (store w))
      \<lparr>tbl_agentSessions := tbl_agentSessions (store w) @
        [issued_session a newId (hashApiKey (ar_crypto rt) ?tok) ?iss (pg_now w)]\<rparr>"
    by (auto simp: id env_kept_def)
  obtain audits where sw': "store w' = (store w3)\<lparr>tbl_auditLogs := tbl_auditLogs (store w3) @ audits\<rparr>"
    "env_kept w3 w'" using w' by (rule audit_only_store)
  have "verifyEd25519 rt (the (ag_publicKey a)) (xi_challenge inp) (xi_signature inp)"
    using ver el(3) by (auto elim!: truthyE)
  with a el c live fresh r st sw' kept show ?thesis
    by (intro that [where a = a and c = c and issuedAt = ?iss and newId = newId and now = "pg_now w" and audits = audits])
      (auto simp: spend_challenge_def intro: env_kept_trans)
qed

text \<open>A claim finds nothing to claim when an earlier one succeeded, whatever came in between.\<close>

lemma challenge_claimed_once:
  assumes "claim_challenge t1 c h a th1 w = (Inr True, w1)"
    and "tbl_sessionChallenges (store w2) = tbl_sessionChallenges (store w1)"
  shows "claim_challenge t2 c h a th2 w2 \<noteq> (Inr True, w3)"
proof
  assume "claim_challenge t2 c h a th2 w2 = (Inr True, w3)"
  from claim_challenge_Inr [OF this] obtain r where
    r: "r \<in> set (tbl_sessionChallenges (store w1))" "unused_challenge (ch_id c) (ag_id a) h r"
    unfolding assms(2) by blast
  from claim_challenge_Inr [OF assms(1)] have
    "tbl_sessionChallenges (store w1) =
      tbl_sessionChallenges (spend_challenge t1 (ch_id c) (ag_id a) h (store w))" by (elim exE conjE) simp
  with r spend_challenge_spent show False by metis
qed

text \<open>C26: an agent session is issued only to an enabled, unrevoked, enrolled agent that presents
  an unused, unexpired challenge issued to it and a signature of that challenge that verifies under
  its enrolled key. The token's hash is new, the session belongs to that agent and its creator and
  expires fifteen minutes after issue, the challenge is spent, so that no request can be exchanged
  for it again, and no agent row changes.\<close>

theorem session_exchange_sound:
  assumes "exchangeAgentSession rt rq inp w = (Inr r, w')"
  shows "\<exists>a \<in> set (tbl_agents (store w)). ag_id a = xi_agentId inp \<and> sr_agentId r = ag_id a \<and>
    ag_enabled a \<and> ag_revokedAt a = None \<and>
    (\<exists>key. ag_publicKey a = Some key \<and> verifyEd25519 rt key (xi_challenge inp) (xi_signature inp)) \<and>
    (\<exists>c \<in> set (tbl_sessionChallenges (store w)). ch_id c = xi_challengeId inp \<and> ch_agentId c = ag_id a \<and>
       ch_challengeHash c = hashApiKey (ar_crypto rt) (xi_challenge inp) \<and> ch_usedAt c = None \<and>
       clock w (ticks w) < ch_expiresAt c) \<and>
    (\<forall>s \<in> set (tbl_agentSessions (store w)). ses_tokenHash s \<noteq> hashApiKey (ar_crypto rt) (sr_token r)) \<and>
    (\<exists>s. tbl_agentSessions (store w') = tbl_agentSessions (store w) @ [s] \<and> ses_agentId s = ag_id a \<and>
       ses_userId s = ag_createdBy a \<and> ses_tokenHash s = hashApiKey (ar_crypto rt) (sr_token r) \<and>
       ses_expiresAt s = sr_expiresAt r \<and> sr_expiresAt r = clock w (Suc (ticks w)) + 15 * 60 * 1000) \<and>
    \<not> (\<exists>c \<in> set (tbl_sessionChallenges (store w')). unused_challenge (xi_challengeId inp) (ag_id a)
         (hashApiKey (ar_crypto rt) (xi_challenge inp)) c) \<and>
    tbl_agents (store w') = tbl_agents (store w)"
proof (rule exchangeAgentSession_Inr [OF assms], goal_cases)
  case (1 a c newId issuedAt now audits)
  have spent: "tbl_sessionChallenges (store w') = tbl_sessionChallenges
      (spend_challenge issuedAt (xi_challengeId inp) (ag_id a) (hashApiKey (ar_crypto rt) (xi_challenge inp)) (store w))"
    and agents: "tbl_agents (store w') = tbl_agents (store w)"
    and sessions: "tbl_agentSessions (store w') = tbl_agentSessions (store w) @
      [issued_session a newId (hashApiKey (ar_crypto rt) (sr_token r)) issuedAt now]"
    by (simp_all only: 1(14)) simp_all
  have key: "\<exists>key. ag_publicKey a = Some key \<and> verifyEd25519 rt key (xi_challenge inp) (xi_signature inp)"
    using 1(5,9) by (cases "ag_publicKey a") simp_all
  show ?case
  proof (rule bexI [OF _ 1(1)], intro conjI)
    show "\<exists>c \<in> set (tbl_sessionChallenges (store w)). ch_id c = xi_challengeId inp \<and> ch_agentId c = ag_id a \<and>
       ch_challengeHash c = hashApiKey (ar_crypto rt) (xi_challenge inp) \<and> ch_usedAt c = None \<and>
       clock w (ticks w) < ch_expiresAt c"
      using 1(6,7,8) unfolding unused_challenge_def by blast
    show "\<not> (\<exists>c \<in> set (tbl_sessionChallenges (store w')). unused_challenge (xi_challengeId inp) (ag_id a)
         (hashApiKey (ar_crypto rt) (xi_challenge inp)) c)"
      unfolding spent using spend_challenge_spent by blast
  qed (use 1(2,3,4,10,11,12) key agents sessions in
        \<open>simp_all add: issued_session_def AGENT_SESSION_TTL_MS_def\<close>)
qed

text \<open>C27: the token that an exchange returns authenticates its agent. A later request that
  carries it, before it expires, while the agents and the sessions are as the exchange left them,
  agent ids and token hashes are unique as the tables enforce, and the two lookups succeed, resolves
  to the identity of the agent that signed the challenge.\<close>

theorem issued_token_authenticates:
  assumes "exchangeAgentSession rt rq inp w = (Inr r, w')"
    and "tbl_agents (store v) = tbl_agents (store w')" "tbl_agentSessions (store v) = tbl_agentSessions (store w')"
    and "inj_on ag_id (set (tbl_agents (store w)))" "inj_on ses_tokenHash (set (tbl_agentSessions (store w)))"
    and "bearer rq' = Some (sr_token r)" "clock v (ticks v) < sr_expiresAt r"
    and "faults v (stmts v) = None" "faults v (Suc (stmts v)) = None"
  shows "\<exists>a \<in> set (tbl_agents (store w)). ag_id a = xi_agentId inp \<and>
    fst (resolveAgentIdentity (ar_crypto rt) rq' v) = Inr (toAgentIdentity a)"
proof (rule exchangeAgentSession_Inr [OF assms(1)], goal_cases)
  case (1 a c newId issuedAt now audits)
  let ?h = "hashApiKey (ar_crypto rt) (sr_token r)"
  let ?s = "issued_session a newId ?h issuedAt now"
  have agents: "tbl_agents (store v) = tbl_agents (store w)"
    and sessions: "tbl_agentSessions (store v) = tbl_agentSessions (store w) @ [?s]"
    unfolding assms(2,3) by (simp_all only: 1(14)) simp_all
  have "take 4 (sr_token r) = ''abs_''" by (simp add: 1(11) AGENT_SESSION_PREFIX_def)
  with assms(6,7) 1(1,3,4,11) have "live_session (ar_crypto rt) rq' (clock v (ticks v)) (store v) ?s a"
    by (simp add: live_session_def agents sessions issued_session_def bearer_Some)
  moreover have "inj_on ses_tokenHash (set (tbl_agentSessions (store v)))"
    using assms(5) 1(12) by (auto simp: sessions issued_session_def)
  ultimately have "fst (resolveAgentIdentity (ar_crypto rt) rq' v) = Inr (toAgentIdentity a)"
    using assms(4,8,9) by (intro live_session_resolves) (simp_all add: agents)
  with 1(1,2) show ?case by blast
qed

section \<open>Revocation of one session\<close>

lemma revokeAgentSession_Inr:
  assumes "revokeAgentSession wc sx token w = (Inr u, w')"
  shows "tbl_agents (store w') = tbl_agents (store w) \<and>
    (case org_session (sx_orgId sx) (hashApiKey wc token) (store w) of
       None \<Rightarrow> tbl_agentSessions (store w') = tbl_agentSessions (store w)
     | Some s \<Rightarrow> \<exists>now. tbl_agentSessions (store w') =
         map (\<lambda>r. if ses_id r = ses_id s then r\<lparr>ses_revokedAt := Some now\<rparr> else r) (tbl_agentSessions (store w)))"
proof (cases "org_session (sx_orgId sx) (hashApiKey wc token) (store w)")
  case None
  with assms show ?thesis by (auto simp: revokeAgentSession_def andThen_Inr select_ok succeed_def)
next
  case (Some s)
  let ?w = "w\<lparr>stmts := Suc (stmts w)\<rparr>"
  from assms Some obtain role w1 w2 where
    role: "requireOrgRole (sx_orgId sx) (sx_userId sx) ''member'' ?w = (Inr role, w1)"
    and owner: "requireAgentOwnership (ses_agentId s) (sx_userId sx) (sx_orgId sx) role w1 = (Inr (), w2)"
    and rest: "andThen new_Date (\<lambda>now. followed_by (modify (\<lambda>d. d\<lparr>tbl_agentSessions :=
            map (\<lambda>r. if ses_id r = ses_id s then r\<lparr>ses_revokedAt := Some now\<rparr> else r) (tbl_agentSessions d)\<rparr>))
          (logSessionAudit ((entry (sx_orgId sx) (ses_userId s) Ev_agent_session_revoke Allowed)
             \<lparr>ae_agentId := Some (ses_agentId s), ae_ipAddress := sx_ip sx\<rparr>))) w2 = (Inr u, w')"
    by (auto simp: revokeAgentSession_def andThen_Inr [of "select _"] select_ok
        andThen_Inr [of "requireOrgRole _ _ _"] followed_by_def [of "forbidden_logged _ _"]
        andThen_Inr [of "forbidden_logged _ _"] forbidden_logged_Inr)
  from requireOrgRole_Inr [OF role] requireAgentOwnership_Inr [OF owner]
  have st: "store w2 = store w" by (simp add: same_store_def)
  from rest obtain e w3 where log: "logSessionAudit e w3 = (Inr u, w')"
    and w3: "tbl_agents (store w3) = tbl_agents (store w2)" "tbl_agentSessions (store w3) =
       map (\<lambda>r. if ses_id r = ses_id s then r\<lparr>ses_revokedAt := Some (clock w2 (ticks w2))\<rparr> else r)
         (tbl_agentSessions (store w2))"
    by (auto simp: andThen_Inr statement_ok followed_by_def modify_def)
  from keepsD [OF session_log.keeps_log log] have w': "audit_only w3 w'" .
  from audit_only_frame [OF w'] w3 st Some show ?thesis by simp blast
qed

text \<open>After a user has revoked a session token, and while agents and sessions stay
  as the revocation left them, no request that carries the token acts as an agent of the user's
  organisation; also when the call found nothing to revoke. Token hashes are unique, as the index
  enforces.\<close>

theorem revoked_token_is_dead:
  assumes "revokeAgentSession wc sx token w = (Inr u, w')"
    and "tbl_agents (store v) = tbl_agents (store w')" "tbl_agentSessions (store v) = tbl_agentSessions (store w')"
    and "inj_on ses_tokenHash (set (tbl_agentSessions (store w)))"
    and "bearer rq = Some token" "resolveAgentIdentity wc rq v = (Inr i, v')"
  shows "aid_orgId i \<noteq> sx_orgId sx"
proof
  assume org: "aid_orgId i = sx_orgId sx"
  from agent_identity_from [OF assms(6)] assms(5) obtain s a where
    s: "s \<in> set (tbl_agentSessions (store w'))" "ses_tokenHash s = hashApiKey wc token" "ses_revokedAt s = None"
    and a: "a \<in> set (tbl_agents (store w'))" "ag_id a = ses_agentId s" "ag_org a = sx_orgId sx"
    using org by (auto simp: live_session_def bearer_Some toAgentIdentity_def assms(2,3))
  note r = revokeAgentSession_Inr [OF assms(1)]
  show False
  proof (cases "org_session (sx_orgId sx) (hashApiKey wc token) (store w)")
    case None
    with r s have "s \<in> set (tbl_agentSessions (store w))" by simp
    from find_NoneD [OF None [unfolded org_session_def] this] s a r show False by (auto simp: orgScope_def)
  next
    case (Some t)
    from find_SomeD [OF Some [unfolded org_session_def]]
    have t: "t \<in> set (tbl_agentSessions (store w))" "ses_tokenHash t = hashApiKey wc token" by auto
    from r Some obtain now where "tbl_agentSessions (store w') =
         map (\<lambda>r. if ses_id r = ses_id t then r\<lparr>ses_revokedAt := Some now\<rparr> else r) (tbl_agentSessions (store w))"
      by auto
    with s(1) obtain s0 where s0: "s0 \<in> set (tbl_agentSessions (store w))"
      "s = (if ses_id s0 = ses_id t then s0\<lparr>ses_revokedAt := Some now\<rparr> else s0)" by auto
    with s have "ses_tokenHash s0 = ses_tokenHash t" "ses_id s0 \<noteq> ses_id t" using t by (auto split: if_splits)
    with inj_onD [OF assms(4)] s0(1) t(1) show False by blast
  qed
qed

section \<open>Enrollment\<close>

definition spend_token :: "int \<Rightarrow> string \<Rightarrow> string \<Rightarrow> enrollment_token_row list \<Rightarrow> enrollment_token_row list" where
  "spend_token at i h rows = snd (update_hit (claimable_token (i, h)) (\<lambda>t. t\<lparr>et_usedAt := Some at\<rparr>) rows)"

lemma spend_token_spent: "t \<in> set (spend_token at i h rows) \<Longrightarrow> \<not> claimable_token (i, h) t"
  unfolding spend_token_def by (rule token.spent)

text \<open>The agent table after the key has been stored.\<close>

definition with_key :: "string \<Rightarrow> agent_row \<Rightarrow> agent_row list \<Rightarrow> agent_row list" where
  "with_key key a rows = map (\<lambda>b. if ag_id b = ag_id a \<and> ag_createdBy b = ag_createdBy a \<and> ag_enabled b \<and>
     ag_revokedAt b = None \<and> ag_publicKey b = None then b\<lparr>ag_publicKey := Some key\<rparr> else b) rows"

definition keyless :: "agent_row \<Rightarrow> agent_row \<Rightarrow> bool" where
  "keyless a g = (ag_id g = ag_id a \<and> ag_createdBy g = ag_createdBy a \<and> ag_enabled g \<and>
     ag_revokedAt g = None \<and> ag_publicKey g = None)"

lemma with_key_eq: "with_key key a rows = map (\<lambda>b. if keyless a b then b\<lparr>ag_publicKey := Some key\<rparr> else b) rows"
  by (simp add: with_key_def keyless_def)

lemma with_key_hit:
  assumes "g \<in> set rows" "keyless a g"
  shows "\<exists>g \<in> set (with_key key a rows). ag_id g = ag_id a \<and> ag_publicKey g = Some key"
  using assms by (auto simp: with_key_eq keyless_def intro!: bexI [of _ "g\<lparr>ag_publicKey := Some key\<rparr>"] image_eqI [of _ _ g])

lemma with_key_kept:
  "{g \<in> set rows. ag_publicKey g \<noteq> None \<or> ag_id g \<noteq> ag_id a} \<subseteq> set (with_key key a rows)"
  by (auto simp: with_key_eq keyless_def intro!: image_eqI)

lemma claim_enrollment_Inr:
  assumes "claim_enrollment at b h a key w = (Inr True, w')"
  shows "(\<exists>g \<in> set (tbl_agents (store w)). keyless a g) \<and>
    store w' = (store w)\<lparr>tbl_enrollmentTokens := spend_token at (et_id b) h (tbl_enrollmentTokens (store w)),
      tbl_agents := with_key key a (tbl_agents (store w))\<rparr>"
  using assms
  by (auto simp: claim_enrollment_def transaction_ok andThen_Inr statement_ok use_token_def
      set_public_key_def update_hit_def succeed_def fail_with_def spend_token_def with_key_def keyless_def split: if_splits)

lemma token_agent_SomeD:
  "token_agent t d = Some a \<Longrightarrow> a \<in> set (tbl_agents d) \<and> ag_id a = et_agentId t \<and> ag_createdBy a = et_userId t"
  unfolding token_agent_def by (drule find_SomeD) (auto split: option.splits)

lemma unused_token_SomeD:
  "unused_token h d = Some t \<Longrightarrow>
     t \<in> set (tbl_enrollmentTokens d) \<and> et_tokenHash t = h \<and> et_usedAt t = None"
  unfolding unused_token_def by (drule find_SomeD) simp

lemma enrollAgent_Inr:
  assumes "enrollAgent rt rq tok raw w = (Inr (a', enrolledAt), w')"
  obtains key t a where
    "normalizeEd25519PublicKeyJwk rt raw = Inr key" "a' = a\<lparr>ag_publicKey := Some key\<rparr>"
    "unused_token (hashApiKey (ar_crypto rt) tok) (store w) = Some t" "clock w (ticks w) < et_expiresAt t"
    "token_agent t (store w) = Some a" "ag_enabled a" "ag_revokedAt a = None"
    "ag_authMethod a = ''public_key_session''" "falsy (ag_publicKey a)"
    "\<exists>g \<in> set (tbl_agents (store w)). keyless a g"
    "tbl_agents (store w') = with_key key a (tbl_agents (store w))"
    "tbl_enrollmentTokens (store w') = spend_token enrolledAt (et_id t) (hashApiKey (ar_crypto rt) tok)
       (tbl_enrollmentTokens (store w))"
proof -
  let ?h = "hashApiKey (ar_crypto rt) tok"
  let ?w = "w\<lparr>stmts := Suc (Suc (stmts w)), ticks := Suc (Suc (ticks w))\<rparr>"
  from assms obtain key t a w3 where
    claim: "claim_enrollment enrolledAt t ?h a key ?w = (Inr True, w3)"
    and log: "followed_by (logBaseAudit ((entry (ag_org a) (ag_createdBy a) Ev_agent_enroll Allowed)
         \<lparr>ae_agentId := Some (ag_id a), ae_ipAddress := rq_ip rq\<rparr>))
         (succeed (a\<lparr>ag_publicKey := Some key\<rparr>, enrolledAt)) w3 = (Inr (a', enrolledAt), w')"
    and n: "normalizeEd25519PublicKeyJwk rt raw = Inr key"
    and t: "unused_token ?h (store w) = Some t" "\<not> et_expiresAt t \<le> clock w (ticks w)"
    and a: "token_agent t (store w) = Some a" "ag_enabled a" "ag_revokedAt a = None"
      "ag_authMethod a = ''public_key_session''" "falsy (ag_publicKey a)"
    by (auto simp: enrollAgent_def andThen_Inr [of "select _"] andThen_Inr [of new_Date]
        andThen_Inr [of "claim_enrollment _ _ _ _ _"] followed_by_def [of "ensureAgentEligibleForEnrollment _"]
        andThen_Inr [of "ensureAgentEligibleForEnrollment _"] select_ok fail_with_def
        eligible_enrollment_Inr Let_def base_log.log_then succeed_def split: option.splits if_splits sum.splits)
  from log have a': "a' = a\<lparr>ag_publicKey := Some key\<rparr>" and w': "audit_only w3 w'"
    by (auto simp: base_log.log_then succeed_def intro: base_log.frame)
  from claim_enrollment_Inr [OF claim] audit_only_frame [OF w'] n a' t a show ?thesis
    by (intro that [where key = key and t = t and a = a]) auto
qed

text \<open>C28: a key is enrolled only with an unused, unexpired bootstrap token, for the agent and the
  creator the token was issued for, while that agent is enabled, not revoked, meant for key sessions
  and without a key. The key stored is the canonical form of the one presented, no row that already
  had a key changes, and the token is spent.\<close>

theorem enrollment_sound:
  assumes "enrollAgent rt rq tok raw w = (Inr (a', enrolledAt), w')"
  shows "\<exists>key t a. normalizeEd25519PublicKeyJwk rt raw = Inr key \<and> a' = a\<lparr>ag_publicKey := Some key\<rparr> \<and>
    t \<in> set (tbl_enrollmentTokens (store w)) \<and> et_tokenHash t = hashApiKey (ar_crypto rt) tok \<and>
    et_usedAt t = None \<and> clock w (ticks w) < et_expiresAt t \<and>
    a \<in> set (tbl_agents (store w)) \<and> ag_id a = et_agentId t \<and> ag_createdBy a = et_userId t \<and>
    ag_enabled a \<and> ag_revokedAt a = None \<and> ag_authMethod a = ''public_key_session'' \<and> falsy (ag_publicKey a) \<and>
    (\<exists>g \<in> set (tbl_agents (store w')). ag_id g = ag_id a \<and> ag_publicKey g = Some key) \<and>
    length (tbl_agents (store w')) = length (tbl_agents (store w)) \<and>
    {g \<in> set (tbl_agents (store w)). ag_publicKey g \<noteq> None \<or> ag_id g \<noteq> ag_id a} \<subseteq> set (tbl_agents (store w')) \<and>
    \<not> (\<exists>s \<in> set (tbl_enrollmentTokens (store w')). et_id s = et_id t \<and>
         et_tokenHash s = hashApiKey (ar_crypto rt) tok \<and> et_usedAt s = None)"
proof (rule enrollAgent_Inr [OF assms], goal_cases)
  case (1 key t a)
  have spent: "\<not> (\<exists>s \<in> set (tbl_enrollmentTokens (store w')). et_id s = et_id t \<and>
         et_tokenHash s = hashApiKey (ar_crypto rt) tok \<and> et_usedAt s = None)"
    using spend_token_spent unfolding 1(12) by (fastforce simp: claimable_token_def)
  have kept: "{g \<in> set (tbl_agents (store w)). ag_publicKey g \<noteq> None \<or> ag_id g \<noteq> ag_id a} \<subseteq> set (tbl_agents (store w'))"
    unfolding 1(11) by (rule with_key_kept)
  have hit: "\<exists>g \<in> set (tbl_agents (store w')). ag_id g = ag_id a \<and> ag_publicKey g = Some key"
    unfolding 1(11) using 1(10) with_key_hit by blast
  have same: "length (tbl_agents (store w')) = length (tbl_agents (store w))"
    by (simp add: 1(11) with_key_def)
  show ?case
    by (intro exI conjI, rule 1(1), rule 1(2))
      (use 1(4,6-9) unused_token_SomeD [OF 1(3)] token_agent_SomeD [OF 1(5)] spent kept hit same in \<open>blast+\<close>)
qed

section \<open>Challenges\<close>

lemma best_effort:
  "catch_all (modify f) (\<lambda>_. succeed ()) w =
     (Inr (), w\<lparr>stmts := Suc (stmts w), store := (if faults w (stmts w) = None then f (store w) else store w)\<rparr>)"
  by (auto simp: catch_all_def modify_def statement_def succeed_def split: option.split)

lemma succeed_eq: "succeed x w = (Inr y, w') \<longleftrightarrow> y = x \<and> w' = w"
  by (auto simp: succeed_def)

lemma filter_filter_le: "length (filter P (filter Q xs)) \<le> length (filter P xs)"
  by (induction xs) auto

definition sweep :: "int \<Rightarrow> db \<Rightarrow> db" where
  "sweep now d = d\<lparr>tbl_sessionChallenges :=
     filter (\<lambda>c. \<not> ch_expiresAt c < now - 60 * 60 * 1000) (tbl_sessionChallenges d)\<rparr>"

lemma createAgentChallenge_Inr:
  assumes "createAgentChallenge wc g w = (Inr r, w')"
  obtains a swept where
    "a \<in> set (tbl_agents (store w))" "ag_id a = g" "ag_enabled a" "ag_revokedAt a = None" "truthy (ag_publicKey a)"
    "length (live_challenges g (clock w (ticks w)) (store w)) < 30"
    "cr_expiresAt r = clock w (ticks w + 2) + 60 * 1000"
    "swept = (if faults w (Suc (Suc (stmts w))) = None then sweep (clock w (Suc (ticks w))) (store w) else store w)"
    "\<forall>c \<in> set (tbl_sessionChallenges swept). ch_challengeHash c \<noteq> hashApiKey wc (cr_challenge r)"
    "store w' = swept\<lparr>tbl_sessionChallenges := tbl_sessionChallenges swept @
       [\<lparr>ch_id = cr_challengeId r, ch_agentId = g, ch_challengeHash = hashApiKey wc (cr_challenge r),
         ch_expiresAt = cr_expiresAt r, ch_usedAt = None\<rparr>]\<rparr>"
proof -
  from assms obtain a where
    f: "find (\<lambda>a. ag_id a = g \<and> ag_enabled a \<and> ag_revokedAt a = None) (tbl_agents (store w)) = Some a"
    by (auto simp: createAgentChallenge_def andThen_Inr [of "select _"] select_ok fail_with_def split: option.splits)
  from find_SomeD [OF f] have a: "a \<in> set (tbl_agents (store w))" "ag_id a = g" "ag_enabled a" "ag_revokedAt a = None"
    by auto
  let ?swept = "if faults w (Suc (Suc (stmts w))) = None then sweep (clock w (Suc (ticks w))) (store w) else store w"
  from assms f a(2) show ?thesis
    by (intro that [of a ?swept, OF a])
      (auto simp: createAgentChallenge_def andThen_Inr select_ok fail_with_def best_effort
        generateOpaqueToken_eq followed_by_def statement_ok insert_challenge_def succeed_eq sweep_def
        CHALLENGE_RATE_LIMIT_def AGENT_CHALLENGE_TTL_MS_def split: if_splits)
qed

text \<open>A challenge is issued only to an enabled, unrevoked, enrolled agent that has fewer
  than thirty live ones, so that at no such moment it has more than thirty; it lasts a minute, its
  hash is new to the table, and the clean-up removes nothing but challenges that expired more than an
  hour ago.\<close>

theorem challenge_bounded:
  assumes "createAgentChallenge wc g w = (Inr r, w')"
  shows "(\<exists>a \<in> set (tbl_agents (store w)). ag_id a = g \<and> ag_enabled a \<and> ag_revokedAt a = None \<and>
      truthy (ag_publicKey a)) \<and>
    length (live_challenges g (clock w (ticks w)) (store w)) < 30 \<and>
    length (live_challenges g (clock w (ticks w)) (store w')) \<le> 30 \<and>
    cr_expiresAt r = clock w (ticks w + 2) + 60 * 1000 \<and>
    (\<exists>kept. tbl_sessionChallenges (store w') = kept @ [\<lparr>ch_id = cr_challengeId r, ch_agentId = g,
         ch_challengeHash = hashApiKey wc (cr_challenge r), ch_expiresAt = cr_expiresAt r, ch_usedAt = None\<rparr>] \<and>
       set kept \<subseteq> set (tbl_sessionChallenges (store w)) \<and>
       {c \<in> set (tbl_sessionChallenges (store w)). clock w (ticks w + 1) - 60 * 60 * 1000 \<le> ch_expiresAt c} \<subseteq> set kept \<and>
       hashApiKey wc (cr_challenge r) \<notin> ch_challengeHash ` set kept)"
proof (rule createAgentChallenge_Inr [OF assms], goal_cases)
  case (1 a swept)
  let ?new = "\<lparr>ch_id = cr_challengeId r, ch_agentId = g, ch_challengeHash = hashApiKey wc (cr_challenge r),
         ch_expiresAt = cr_expiresAt r, ch_usedAt = None\<rparr>"
  have rows: "tbl_sessionChallenges (store w') = tbl_sessionChallenges swept @ [?new]" by (simp add: 1(10))
  have sub: "set (tbl_sessionChallenges swept) \<subseteq> set (tbl_sessionChallenges (store w))"
    "{c \<in> set (tbl_sessionChallenges (store w)). clock w (ticks w + 1) - 60 * 60 * 1000 \<le> ch_expiresAt c} \<subseteq>
       set (tbl_sessionChallenges swept)"
    by (auto simp: 1(8) sweep_def)
  have "length (live_challenges g (clock w (ticks w)) swept) \<le> length (live_challenges g (clock w (ticks w)) (store w))"
    by (simp add: 1(8) live_challenges_def sweep_def filter_filter_le del: filter_filter)
  with 1(6) have "length (live_challenges g (clock w (ticks w)) (store w')) \<le> 30"
    by (simp add: live_challenges_def rows)
  moreover have "hashApiKey wc (cr_challenge r) \<notin> ch_challengeHash ` set (tbl_sessionChallenges swept)"
    using 1(9) by auto
  ultimately show ?case using 1(1-7) rows sub by blast
qed

section \<open>Concrete runs\<close>

text \<open>A parser that knows two documents, and signatures that repeat the message.\<close>

definition toy_jwk :: json where
  "toy_jwk = JObj [(''kty'', JStr ''OKP''), (''crv'', JStr ''Ed25519''), (''x'', JStr ''k'')]"

definition toy_auth :: auth_runtime where
  "toy_auth = \<lparr>ar_crypto = toy_webcrypto,
     ar_JSON_parse = (\<lambda>s. if s \<in> {''pk'', canonical_jwk ''k''} then Some toy_jwk else None),
     ar_subtle_verify = (\<lambda>_ sig msg. Some (sig = msg))\<rparr>"

definition keyed_agent :: agent_row where
  "keyed_agent = sample_agent\<lparr>ag_publicKey := Some ''pk''\<rparr>"

definition sample_challenge :: challenge_row where
  "sample_challenge = \<lparr>ch_id = ''c1'', ch_agentId = ''a1'',
     ch_challengeHash = hashApiKey toy_webcrypto ''abc_x'', ch_expiresAt = 5000, ch_usedAt = None\<rparr>"

definition keyless_agent :: agent_row where
  "keyless_agent = sample_agent\<lparr>ag_publicKey := None\<rparr>"

definition sample_token :: enrollment_token_row where
  "sample_token = \<lparr>et_id = ''t1'', et_agentId = ''a1'', et_userId = Some ''u1'', et_createdBy = ''u1'',
     et_tokenHash = hashApiKey toy_webcrypto ''abe_x'', et_expiresAt = 5000, et_usedAt = None\<rparr>"

definition session_db0 :: db where
  "session_db0 = sample_db\<lparr>tbl_agents := [keyed_agent], tbl_sessionChallenges := [sample_challenge]\<rparr>"

definition enroll_db :: db where
  "enroll_db = sample_db\<lparr>tbl_agents := [keyless_agent], tbl_enrollmentTokens := [sample_token]\<rparr>"

definition sample_exchange :: exchange_input where
  "sample_exchange = \<lparr>xi_agentId = ''a1'', xi_challengeId = ''c1'', xi_challenge = ''abc_x'',
     xi_signature = toBase64 (encode_text ''abc_x'')\<rparr>"

definition sample_issued :: session_result where
  "sample_issued = \<lparr>sr_agentId = ''a1'', sr_token = AGENT_SESSION_PREFIX @ toBase64 (replicate 32 7),
     sr_expiresAt = 1000 + 15 * 60 * 1000\<rparr>"

lemma toy_normalizes: "normalizeEd25519PublicKeyJwk toy_auth ''pk'' = Inr (canonical_jwk ''k'')"
  by (simp add: normalizeEd25519PublicKeyJwk_def toy_auth_def toy_jwk_def)

lemma toy_verifies: "verifyEd25519 toy_auth ''pk'' m (toBase64 (encode_text m))"
  by (simp add: verifyEd25519_def toy_normalizes) (simp add: toy_auth_def fromBase64_toBase64)

lemma toy_auth_crypto [simp]: "ar_crypto toy_auth = toy_webcrypto"
  by (simp add: toy_auth_def)

lemma sample_exchanged:
  "fst (exchangeAgentSession toy_auth auth_request sample_exchange (sample_world session_db0)) = Inr sample_issued"
proof -
  have c: "unused_challenge ''c1'' ''a1'' (hashApiKey toy_webcrypto ''abc_x'') sample_challenge"
    by (simp add: unused_challenge_def sample_challenge_def)
  have a: "ag_id keyed_agent = ''a1''" "ag_enabled keyed_agent" "ag_revokedAt keyed_agent = None"
    "ag_authMethod keyed_agent = ''public_key_session''" "ag_publicKey keyed_agent = Some ''pk''"
    by (simp_all add: keyed_agent_def sample_agent_def)
  have d: "tbl_agents session_db0 = [keyed_agent]" "tbl_sessionChallenges session_db0 = [sample_challenge]"
    "tbl_agentSessions session_db0 = []" by (simp_all add: session_db0_def sample_db_def)
  have e: "ch_id sample_challenge = ''c1''" "ch_expiresAt sample_challenge = 5000"
    by (simp_all add: sample_challenge_def)
  have x: "xi_agentId sample_exchange = ''a1''" "xi_challengeId sample_exchange = ''c1''"
    "xi_challenge sample_exchange = ''abc_x''" "xi_signature sample_exchange = toBase64 (encode_text ''abc_x'')"
    by (simp_all add: sample_exchange_def)
  show ?thesis
    by (simp add: exchangeAgentSession_def andThen_def select_def statement_def a c d e x Let_def toy_verifies
        followed_by_def ensureAgentEligibleForSessionExchange_def succeed_def generateOpaqueToken_def
        claim_challenge_def transaction_def use_challenge_def update_hit_def insert_session_def)
      (subst base_log.log_eq, simp add: sample_issued_def AGENT_SESSION_TTL_MS_def)
qed

theorem session_exchange_sound_witness:
  "\<exists>w'. exchangeAgentSession toy_auth auth_request sample_exchange (sample_world session_db0) = (Inr sample_issued, w') \<and>
     \<not> (\<exists>c \<in> set (tbl_sessionChallenges (store w')). unused_challenge ''c1'' ''a1'' (hashApiKey toy_webcrypto ''abc_x'') c)"
  using session_exchange_sound [OF outcome [OF sample_exchanged]] outcome [OF sample_exchanged]
  by (auto simp: sample_exchange_def session_db0_def sample_db_def keyed_agent_def sample_agent_def)

text \<open>The session that is issued, presented before it expires.\<close>

definition issued_request :: request_ctx where
  "issued_request = \<lparr>rq_authorization = Some (''Bearer '' @ sr_token sample_issued), rq_orgHeader = None, rq_ip = None\<rparr>"

theorem issued_token_authenticates_witness:
  "\<exists>w'. exchangeAgentSession toy_auth auth_request sample_exchange (sample_world session_db0) = (Inr sample_issued, w') \<and>
     fst (resolveAgentIdentity toy_webcrypto issued_request (sample_world (store w'))) = Inr (toAgentIdentity keyed_agent)"
proof -
  let ?w' = "snd (exchangeAgentSession toy_auth auth_request sample_exchange (sample_world session_db0))"
  have db0_tables: "tbl_agents session_db0 = [keyed_agent]" "tbl_agentSessions session_db0 = []"
    by (simp_all add: session_db0_def sample_db_def)
  have agents_distinct: "ag_id keyed_agent = xi_agentId sample_exchange"
    by (simp add: keyed_agent_def sample_agent_def sample_exchange_def)
  have expires: "sr_expiresAt sample_issued = 901000" by (simp add: sample_issued_def)
  have "fst (resolveAgentIdentity toy_webcrypto issued_request (sample_world (store ?w'))) = Inr (toAgentIdentity keyed_agent)"
    using issued_token_authenticates [OF outcome [OF sample_exchanged],
        where v = "sample_world (store ?w')" and rq' = issued_request]
    by (simp add: db0_tables agents_distinct bearer_Some issued_request_def expires)
  with outcome [OF sample_exchanged] show ?thesis by blast
qed

text \<open>A user revokes the session of its agent; a session of another organisation's agent with another
  token still authenticates.\<close>

definition far_agent :: agent_row where
  "far_agent = sample_agent\<lparr>ag_id := ''a9'', ag_org := ''o9''\<rparr>"

definition far_db :: db where
  "far_db = sample_db\<lparr>tbl_agents := [far_agent],
     tbl_agentSessions := [auth_session_row\<lparr>ses_agentId := ''a9''\<rparr>]\<rparr>"

lemma far_resolves:
  "fst (resolveAgentIdentity toy_webcrypto auth_request (sample_world far_db)) = Inr (toAgentIdentity far_agent)"
  by (rule live_session_resolves [where s = "auth_session_row\<lparr>ses_agentId := ''a9''\<rparr>"])
    (simp_all add: live_session_def far_db_def far_agent_def auth_session_row_def sample_rows auth_request_def
      auth_token_def)

lemma far_revocation:
  "revokeAgentSession toy_webcrypto \<lparr>sx_orgId = ''o1'', sx_userId = ''u1'', sx_ip = None\<rparr> auth_token (sample_world far_db) =
     (Inr (), (sample_world far_db)\<lparr>stmts := 1\<rparr>)"
  by (simp add: revokeAgentSession_def andThen_def select_def statement_def org_session_def far_db_def
      far_agent_def sample_rows orgScope_def auth_session_row_def succeed_def)

theorem revoked_token_is_dead_witness:
  "\<exists>i w. resolveAgentIdentity toy_webcrypto auth_request (sample_world far_db) = (Inr i, w) \<and> aid_orgId i \<noteq> ''o1''"
proof -
  have "aid_orgId (toAgentIdentity far_agent) \<noteq> ''o1''"
    using revoked_token_is_dead [OF far_revocation _ _ _ _ outcome [OF far_resolves]]
    by (simp add: far_db_def bearer_Some auth_request_def)
  with outcome [OF far_resolves] show ?thesis by blast
qed

lemma sample_enrolled:
  "\<exists>w'. enrollAgent toy_auth auth_request ''abe_x'' ''pk'' (sample_world enroll_db) =
     (Inr (keyless_agent\<lparr>ag_publicKey := Some (canonical_jwk ''k'')\<rparr>, 1000), w')"
proof -
  have k: "claimable_token (''t1'', hashApiKey toy_webcrypto ''abe_x'') sample_token"
    "unused_token (hashApiKey toy_webcrypto ''abe_x'') enroll_db = Some sample_token"
    "token_agent sample_token enroll_db = Some keyless_agent"
    by (simp_all add: claimable_token_def unused_token_def token_agent_def enroll_db_def sample_db_def
        sample_token_def keyless_agent_def sample_agent_def)
  have a: "ag_enabled keyless_agent" "ag_revokedAt keyless_agent = None" "ag_publicKey keyless_agent = None"
    "ag_authMethod keyless_agent = ''public_key_session''"
    by (simp_all add: keyless_agent_def sample_agent_def)
  have d: "tbl_agents enroll_db = [keyless_agent]" "tbl_enrollmentTokens enroll_db = [sample_token]"
    by (simp_all add: enroll_db_def sample_db_def)
  have e: "et_id sample_token = ''t1''" "et_expiresAt sample_token = 5000" by (simp_all add: sample_token_def)
  show ?thesis
    by (simp add: enrollAgent_def toy_normalizes andThen_def select_def statement_def k a d e Let_def
        followed_by_def ensureAgentEligibleForEnrollment_def succeed_def claim_enrollment_def
        transaction_def use_token_def set_public_key_def update_hit_def)
      (subst base_log.log_eq, simp)
qed

theorem enrollment_sound_witness:
  "\<exists>w'. enrollAgent toy_auth auth_request ''abe_x'' ''pk'' (sample_world enroll_db) =
     (Inr (keyless_agent\<lparr>ag_publicKey := Some (canonical_jwk ''k'')\<rparr>, 1000), w') \<and>
     (\<exists>g \<in> set (tbl_agents (store w')). ag_publicKey g = Some (canonical_jwk ''k''))"
proof -
  obtain w' where w': "enrollAgent toy_auth auth_request ''abe_x'' ''pk'' (sample_world enroll_db) =
     (Inr (keyless_agent\<lparr>ag_publicKey := Some (canonical_jwk ''k'')\<rparr>, 1000), w')" using sample_enrolled by blast
  from enrollment_sound [OF w'] w' show ?thesis by (auto simp: toy_normalizes)
qed

lemma sample_challenged:
  "\<exists>r w'. createAgentChallenge toy_webcrypto ''a1'' (sample_world sample_db) = (Inr r, w')"
  by (simp add: createAgentChallenge_def andThen_def select_def statement_def sample_db_def sample_agent_def
      best_effort [unfolded succeed_def] followed_by_def generateOpaqueToken_def succeed_def insert_challenge_def
      live_challenges_def CHALLENGE_RATE_LIMIT_def)

theorem challenge_bounded_witness:
  "\<exists>r w'. createAgentChallenge toy_webcrypto ''a1'' (sample_world sample_db) = (Inr r, w') \<and>
     length (live_challenges ''a1'' 1000 (store w')) \<le> 30 \<and> cr_expiresAt r = 61000"
proof -
  obtain r w' where w': "createAgentChallenge toy_webcrypto ''a1'' (sample_world sample_db) = (Inr r, w')"
    using sample_challenged by blast
  from challenge_bounded [OF w'] w' show ?thesis by auto
qed

end
