(* ===== verification/Pagination.thy ===== *)
theory Pagination
  imports Core_Model Encoding "HOL-Library.List_Lexorder" "HOL-Library.Char_ord"
begin

text \<open>
  Keyset pagination (\<open>packages/trpc/src/server/pagination.ts\<close>): the limit, the opaque cursor, the
  predicate on rows and the query of one page. A client that follows the cursors (\<open>walk\<close>) sees every
  row once, in order, and stops. Strings are compared byte by byte; creation times are the
  microseconds of \<open>epochMicros\<close>.
\<close>

section \<open>The order of a page\<close>

datatype page_key = Page_key (pk_us: int) (pk_id: string)

instantiation page_key :: linorder
begin

definition less_eq_page_key :: "page_key \<Rightarrow> page_key \<Rightarrow> bool" where
  "less_eq_page_key k l = (pk_us k < pk_us l \<or> (pk_us k = pk_us l \<and> pk_id k \<le> pk_id l))"

definition less_page_key :: "page_key \<Rightarrow> page_key \<Rightarrow> bool" where
  "less_page_key k l = (pk_us k < pk_us l \<or> (pk_us k = pk_us l \<and> pk_id k < pk_id l))"

instance
  by standard (auto simp: less_eq_page_key_def less_page_key_def page_key.expand)

end

section \<open>Limits\<close>

definition DEFAULT_PAGE_LIMIT :: int where
  "DEFAULT_PAGE_LIMIT = 50"

definition MAX_PAGE_LIMIT :: int where
  "MAX_PAGE_LIMIT = 100"

definition resolveLimit :: "int option \<Rightarrow> nat" where
  "resolveLimit limit = (case limit of
      None \<Rightarrow> nat DEFAULT_PAGE_LIMIT
    | Some n \<Rightarrow> nat (min (max 1 n) MAX_PAGE_LIMIT))"

lemma resolveLimit_bounds: "1 \<le> resolveLimit l \<and> resolveLimit l \<le> 100"
  by (auto simp: resolveLimit_def DEFAULT_PAGE_LIMIT_def MAX_PAGE_LIMIT_def split: option.split)

section \<open>Decimal numbers\<close>

text \<open>A \<open>bigint\<close> column arrives as its decimal text; \<open>::bigint\<close> reads it back.\<close>

definition digit_char :: "nat \<Rightarrow> char" where
  "digit_char n = ''0123456789'' ! n"

definition digit_val :: "char \<Rightarrow> nat" where
  "digit_val c = of_char c - 48"

definition is_digit :: "char \<Rightarrow> bool" where
  "is_digit c = (c \<in> set ''0123456789'')"

fun decimal :: "nat \<Rightarrow> string" where
  "decimal n = (if n < 10 then [digit_char n] else decimal (n div 10) @ [digit_char (n mod 10)])"

declare decimal.simps [simp del]

definition decimal_int :: "int \<Rightarrow> string" where
  "decimal_int i = (if i < 0 then CHR ''-'' # decimal (nat (- i)) else decimal (nat i))"

definition parse_decimal :: "string \<Rightarrow> nat" where
  "parse_decimal s = foldl (\<lambda>n c. n * 10 + digit_val c) 0 s"

lemma digit_cases: "(n::nat) < 10 \<Longrightarrow> n \<in> {0, 1, 2, 3, 4, 5, 6, 7, 8, 9}"
  by auto

lemma digit_char_simps [simp]:
  assumes "n < 10"
  shows "is_digit (digit_char n)" "digit_val (digit_char n) = n"
  using digit_cases [OF assms] by (auto simp: digit_char_def is_digit_def digit_val_def)

lemma decimal_digits: "list_all is_digit (decimal n) \<and> decimal n \<noteq> []"
  by (induction n rule: decimal.induct) (subst (1 2) decimal.simps, simp)

lemma parse_decimal_decimal [simp]: "parse_decimal (decimal n) = n"
  by (induction n rule: decimal.induct) (subst decimal.simps, simp add: parse_decimal_def)

section \<open>Cursors\<close>

definition toBase64Url :: "string \<Rightarrow> string" where
  "toBase64Url v = strip_padding (map to_url_char (btoa (encode_text v)))"

definition encodeCursor :: "string \<Rightarrow> string \<Rightarrow> string" where
  "encodeCursor createdAtUs i = toBase64Url (createdAtUs @ ''|'' @ i)"

definition decodeCursor :: "string option \<Rightarrow> (string \<times> string) option" where
  "decodeCursor cursor =
     (if falsy cursor then None
      else (case atob (map from_url_char (orElse cursor [])) of
          None \<Rightarrow> None
        | Some bs \<Rightarrow>
          let decoded = decode_text bs;
              createdAtUs = takeWhile (\<lambda>c. c \<noteq> CHR ''|'') decoded;
              rest = dropWhile (\<lambda>c. c \<noteq> CHR ''|'') decoded
          in if rest = [] then None
             else if createdAtUs = [] \<or> \<not> list_all is_digit createdAtUs \<or> tl rest = [] then None
             else Some (createdAtUs, tl rest)))"

lemma toBase64Url_eq: "toBase64Url v = toBase64 (encode_text v)"
  by (simp add: toBase64Url_def toBase64_def)

lemma digit_not_bar: "is_digit c \<Longrightarrow> c \<noteq> CHR ''|''"
  by (auto simp: is_digit_def)

lemma decode_encode_cursor:
  assumes "us \<noteq> []" "list_all is_digit us" "i \<noteq> []"
  shows "decodeCursor (Some (encodeCursor us i)) = Some (us, i)"
proof -
  have bs: "atob (map from_url_char (encodeCursor us i)) = Some (encode_text (us @ ''|'' @ i))"
    using fromBase64_toBase64 by (simp add: fromBase64_def encodeCursor_def toBase64Url_eq)
  have ne: "encodeCursor us i \<noteq> []" by (simp add: encodeCursor_def toBase64Url_eq encode_text_def)
  have no_bar: "\<And>c. c \<in> set us \<Longrightarrow> c \<noteq> CHR ''|''"
    using assms(2) digit_not_bar by (auto simp: list_all_iff)
  then have "takeWhile (\<lambda>c. c \<noteq> CHR ''|'') (us @ ''|'' @ i) = us"
    "dropWhile (\<lambda>c. c \<noteq> CHR ''|'') (us @ ''|'' @ i) = ''|'' @ i"
    by (simp_all add: takeWhile_append2 dropWhile_append2)
  with bs ne assms show ?thesis by (simp add: decodeCursor_def Let_def)
qed

section \<open>One page\<close>

text \<open>The rows strictly after the cursor; all rows without one.\<close>

definition cursorCondition ::
  "('r \<Rightarrow> int) \<Rightarrow> ('r \<Rightarrow> string) \<Rightarrow> (string \<times> string) option \<Rightarrow> 'r \<Rightarrow> bool" where
  "cursorCondition createdAtUs id_of cursor r = (case cursor of
      None \<Rightarrow> True
    | Some (us, i) \<Rightarrow> createdAtUs r < int (parse_decimal us) \<or>
        (createdAtUs r = int (parse_decimal us) \<and> id_of r < i))"

definition row_key :: "('r \<Rightarrow> int) \<Rightarrow> ('r \<Rightarrow> string) \<Rightarrow> 'r \<Rightarrow> page_key" where
  "row_key createdAtUs id_of r = Page_key (createdAtUs r) (id_of r)"

text \<open>\<open>ORDER BY created_at DESC, id DESC\<close>.\<close>

definition order_desc :: "('r \<Rightarrow> int) \<Rightarrow> ('r \<Rightarrow> string) \<Rightarrow> 'r list \<Rightarrow> 'r list" where
  "order_desc createdAtUs id_of rows = rev (sort_key (row_key createdAtUs id_of) rows)"

definition nextCursorFrom :: "('r \<Rightarrow> int) \<Rightarrow> ('r \<Rightarrow> string) \<Rightarrow> 'r list \<Rightarrow> nat \<Rightarrow> string option" where
  "nextCursorFrom createdAtUs id_of rows limit =
     (if length rows < limit then None
      else if rows = [] then None
      else Some (encodeCursor (decimal_int (createdAtUs (last rows))) (id_of (last rows))))"

text \<open>The query: a cursor whose number exceeds a \<open>bigint\<close> makes the cast fail.\<close>

definition page_query ::
  "('r \<Rightarrow> int) \<Rightarrow> ('r \<Rightarrow> string) \<Rightarrow> ('r \<Rightarrow> bool) \<Rightarrow> nat \<Rightarrow> (string \<times> string) option \<Rightarrow> 'r list \<Rightarrow>
     err + 'r list" where
  "page_query createdAtUs id_of cond limit cursor rows =
     (if case cursor of None \<Rightarrow> False | Some (us, _) \<Rightarrow> parse_decimal us \<ge> 2 ^ 63 then Inl (DbErr ''22003'')
      else Inr (take limit (order_desc createdAtUs id_of
             (filter (\<lambda>r. cond r \<and> cursorCondition createdAtUs id_of cursor r) rows))))"

definition list_page ::
  "('r \<Rightarrow> int) \<Rightarrow> ('r \<Rightarrow> string) \<Rightarrow> ('r \<Rightarrow> bool) \<Rightarrow> int option \<Rightarrow> string option \<Rightarrow> 'r list \<Rightarrow>
     err + 'r list \<times> string option" where
  "list_page createdAtUs id_of cond limit cursor rows =
     (let limit = resolveLimit limit in
      case page_query createdAtUs id_of cond limit (decodeCursor cursor) rows of
        Inl e \<Rightarrow> Inl e
      | Inr result \<Rightarrow> Inr (result, nextCursorFrom createdAtUs id_of result limit))"

text \<open>A client that asks for the first page and then follows the cursors until there is none. A
  failed request, or a chain of cursors that never ends, gives no result.\<close>

partial_function (option) walk ::
  "(string option \<Rightarrow> err + 'r list \<times> string option) \<Rightarrow> string option \<Rightarrow> 'r list option" where
  "walk fetch cursor =
     (case fetch cursor of
        Inl e \<Rightarrow> None
      | Inr p \<Rightarrow> (case snd p of
          None \<Rightarrow> Some (fst p)
        | Some c \<Rightarrow> Option.bind (walk fetch (Some c)) (\<lambda>later. Some (fst p @ later))))"

section \<open>Following the cursors\<close>

text \<open>The page after a page of at most \<open>n\<close> rows, by a cursor \<open>cur\<close> on its last row.\<close>

definition next_of :: "('r \<Rightarrow> string) \<Rightarrow> nat \<Rightarrow> 'r list \<Rightarrow> string option" where
  "next_of cur n page = (if length page < n then None else Some (cur (last page)))"

text \<open>
  The contract of a paged endpoint, for a query \<open>q\<close> whose data is in order (\<open>ok\<close>): there is a list of
  all rows, the first page is its beginning, and the page at the cursor of a row is what follows that
  row. Then following the cursors ends and yields the whole list.
\<close>

locale keyset =
  fixes fetch :: "'q \<Rightarrow> string option \<Rightarrow> err + 'r list \<times> string option"
    and ok :: "'q \<Rightarrow> bool" and all :: "'q \<Rightarrow> 'r list" and cur :: "'q \<Rightarrow> 'r \<Rightarrow> string" and size :: "'q \<Rightarrow> nat"
  assumes size_pos: "ok q \<Longrightarrow> 0 < size q"
    and first: "ok q \<Longrightarrow> fetch q None = Inr (take (size q) (all q), next_of (cur q) (size q) (take (size q) (all q)))"
    and later: "ok q \<Longrightarrow> all q = xs @ x # ys \<Longrightarrow>
      fetch q (Some (cur q x)) = Inr (take (size q) ys, next_of (cur q) (size q) (take (size q) ys))"
begin

lemma next_full:
  assumes "\<not> length ys < size q" "ok q"
  shows "next_of (cur q) (size q) (take (size q) ys) = Some (cur q (ys ! (size q - 1)))"
    "ys = take (size q - 1) ys @ ys ! (size q - 1) # drop (size q) ys"
proof -
  have n: "0 < size q" "size q \<le> length ys" using assms size_pos by auto
  then have "ys \<noteq> []" by auto
  with n have "last (take (size q) ys) = ys ! (size q - 1)"
    by (subst last_conv_nth) (simp_all add: min_def)
  with n show "next_of (cur q) (size q) (take (size q) ys) = Some (cur q (ys ! (size q - 1)))"
    by (simp add: next_of_def)
  from n show "ys = take (size q - 1) ys @ ys ! (size q - 1) # drop (size q) ys"
    using id_take_nth_drop [of "size q - 1" ys] by simp
qed

lemma walk_from:
  assumes "ok q"
  shows "all q = xs @ x # ys \<Longrightarrow> walk (fetch q) (Some (cur q x)) = Some ys"
proof (induction "length ys" arbitrary: xs x ys rule: less_induct)
  case less
  note page = later [OF assms less.prems]
  show ?case
  proof (cases "length ys < size q")
    case True
    with page show ?thesis by (simp add: walk.simps [of "fetch q"] next_of_def)
  next
    case False
    note full = next_full [OF False assms]
    have all: "all q = (xs @ x # take (size q - 1) ys) @ ys ! (size q - 1) # drop (size q) ys"
      using less.prems full(2) by simp
    have "length (drop (size q) ys) < length ys" using False size_pos [OF assms] by simp
    from less.hyps [OF this all] page full(1) show ?thesis
      by (simp add: walk.simps [of "fetch q" "Some (cur q x)"])
  qed
qed

lemma walk_all:
  assumes "ok q"
  shows "walk (fetch q) None = Some (all q)"
proof (cases "length (all q) < size q")
  case True
  with first [OF assms] show ?thesis by (simp add: walk.simps [of "fetch q" None] next_of_def)
next
  case False
  note full = next_full [OF False assms]
  from walk_from [OF assms full(2)] first [OF assms] full(1) show ?thesis
    by (simp add: walk.simps [of "fetch q" None])
qed

end

lemma key_after_iff:
  "cursorCondition us id_of (Some (decimal (nat (us x)), id_of x)) r \<longleftrightarrow>
     row_key us id_of r < row_key us id_of x" if "0 \<le> us x"
  using that by (auto simp: cursorCondition_def row_key_def less_page_key_def)

lemma order_desc_set [simp]: "set (order_desc us id_of rows) = set rows"
  by (simp add: order_desc_def)

lemma order_desc_length [simp]: "length (order_desc us id_of rows) = length rows"
  by (simp add: order_desc_def)

lemma order_desc_filter: "order_desc us id_of (filter P rows) = filter P (order_desc us id_of rows)"
  by (simp add: order_desc_def filter_sort [symmetric] rev_filter)

lemma order_desc_strict:
  assumes "distinct (map id_of rows)"
  shows "sorted_wrt (\<lambda>x y. row_key us id_of y < row_key us id_of x) (order_desc us id_of rows)"
proof -
  let ?k = "row_key us id_of" and ?s = "sort_key (row_key us id_of) rows"
  have "distinct (map ?k rows)" using assms by (auto simp: distinct_map inj_on_def row_key_def)
  then have "distinct (map ?k ?s)" by (metis distinct_map distinct_sort set_sort)
  then have "sorted_wrt (<) (map ?k ?s)" by (simp add: strict_sorted_iff)
  then show ?thesis by (simp add: order_desc_def sorted_wrt_rev sorted_wrt_map)
qed

text \<open>In a strictly descending list, what comes after a position is what is below its key.\<close>

lemma filter_below:
  fixes k :: "'r \<Rightarrow> 'k::linorder"
  assumes "sorted_wrt (\<lambda>x y. k y < k x) (xs @ x # ys)"
  shows "filter (\<lambda>y. k y < k x) (xs @ x # ys) = ys"
  using assms by (auto simp: sorted_wrt_append filter_empty_conv intro!: filter_True)

text \<open>What the tables guarantee about the rows of a listing: ids are unique and not empty, and
  creation times lie after 1970 and within a \<open>bigint\<close>.\<close>

definition pageable :: "('r \<Rightarrow> int) \<Rightarrow> ('r \<Rightarrow> string) \<Rightarrow> 'r list \<Rightarrow> bool" where
  "pageable us id_of rows =
     (distinct (map id_of rows) \<and> (\<forall>r \<in> set rows. 0 \<le> us r \<and> us r < 2 ^ 63 \<and> id_of r \<noteq> []))"

definition cursor_of :: "('r \<Rightarrow> int) \<Rightarrow> ('r \<Rightarrow> string) \<Rightarrow> 'r \<Rightarrow> string" where
  "cursor_of us id_of r = encodeCursor (decimal_int (us r)) (id_of r)"

lemma pageable_filter: "pageable us id_of rows \<Longrightarrow> pageable us id_of (filter P rows)"
  by (auto simp: pageable_def distinct_map_filter)

lemma decode_cursor_of:
  assumes "0 \<le> us r" "id_of r \<noteq> []"
  shows "decodeCursor (Some (cursor_of us id_of r)) = Some (decimal (nat (us r)), id_of r)"
  using assms decimal_digits [of "nat (us r)"]
  by (simp add: cursor_of_def decimal_int_def decode_encode_cursor)

lemma first_page:
  "list_page us id_of cond limit None rows =
     Inr (take (resolveLimit limit) (order_desc us id_of (filter cond rows)),
          nextCursorFrom us id_of (take (resolveLimit limit) (order_desc us id_of (filter cond rows)))
            (resolveLimit limit))"
  by (simp add: list_page_def page_query_def decodeCursor_def cursorCondition_def Let_def)

lemma next_page:
  assumes "pageable us id_of rows" "order_desc us id_of (filter cond rows) = xs @ x # ys"
  shows "list_page us id_of cond limit (Some (cursor_of us id_of x)) rows =
     Inr (take (resolveLimit limit) ys, nextCursorFrom us id_of (take (resolveLimit limit) ys) (resolveLimit limit))"
proof -
  have "x \<in> set (order_desc us id_of (filter cond rows))" using assms(2) by simp
  then have x: "0 \<le> us x" "us x < 2 ^ 63" "id_of x \<noteq> []"
    using assms(1) by (auto simp: pageable_def)
  have "order_desc us id_of (filter (\<lambda>r. cond r \<and> cursorCondition us id_of (Some (decimal (nat (us x)), id_of x)) r) rows) =
      filter (\<lambda>r. row_key us id_of r < row_key us id_of x) (order_desc us id_of (filter cond rows))"
    using x(1) by (simp add: key_after_iff order_desc_filter [symmetric] conj_commute)
  also have "\<dots> = ys"
    unfolding assms(2) using order_desc_strict [of id_of "filter cond rows" us] assms
    by (intro filter_below) (simp add: pageable_def distinct_map_filter)
  finally show ?thesis
    using x by (simp add: list_page_def page_query_def decode_cursor_of Let_def)
qed

lemma nextCursorFrom_eq:
  "0 < n \<Longrightarrow> nextCursorFrom us id_of page n = next_of (cursor_of us id_of) n page"
  by (auto simp: nextCursorFrom_def cursor_of_def next_of_def)

lemma limit_pos: "0 < resolveLimit limit"
  using resolveLimit_bounds [of limit] by simp

interpretation page: keyset
  "\<lambda>(us, id_of, cond, limit, rows) cursor. list_page us id_of cond limit cursor rows"
  "\<lambda>(us, id_of, cond, limit, rows). pageable us id_of rows"
  "\<lambda>(us, id_of, cond, limit, rows). order_desc us id_of (filter cond rows)"
  "\<lambda>(us, id_of, cond, limit, rows). cursor_of us id_of"
  "\<lambda>(us, id_of, cond, limit, rows). resolveLimit limit"
  by unfold_locales
    (auto simp: limit_pos first_page next_page nextCursorFrom_eq)

end
