(* ===== verification/Audit_Query.thy ===== *)
theory Audit_Query
  imports Pagination Roles Agent_Auth Samples
begin

text \<open>
  Reading the audit trail: the event names with their legacy aliases
  (\<open>packages/core/src/constants.ts\<close>, \<open>serialize.ts\<close>) and the two listings of \<open>routers/audit.ts\<close>. A
  stored row carries its event as text; the serial id of a row is its position in the append-only
  table.
\<close>

section \<open>Event names\<close>

primrec audit_event_name :: "audit_event \<Rightarrow> string" where
    "audit_event_name Ev_profile_create = ''profile.create''"
  | "audit_event_name Ev_profile_read = ''profile.read''"
  | "audit_event_name Ev_profile_bootstrap = ''profile.bootstrap''"
  | "audit_event_name Ev_profile_rotate = ''profile.rotate''"
  | "audit_event_name Ev_profile_delete = ''profile.delete''"
  | "audit_event_name Ev_profile_delete_cascade = ''profile.delete_cascade''"
  | "audit_event_name Ev_profile_setup_recovery = ''profile.setup_recovery''"
  | "audit_event_name Ev_item_create = ''item.create''"
  | "audit_event_name Ev_item_read = ''item.read''"
  | "audit_event_name Ev_item_update = ''item.update''"
  | "audit_event_name Ev_item_delete = ''item.delete''"
  | "audit_event_name Ev_item_delete_cascade = ''item.delete_cascade''"
  | "audit_event_name Ev_item_export = ''item.export''"
  | "audit_event_name Ev_auth_login = ''auth.login''"
  | "audit_event_name Ev_auth_logout = ''auth.logout''"
  | "audit_event_name Ev_auth_signup = ''auth.signup''"
  | "audit_event_name Ev_auth_token_issue = ''auth.token_issue''"
  | "audit_event_name Ev_auth_token_revoke = ''auth.token_revoke''"
  | "audit_event_name Ev_user_api_key_create = ''user_api_key.create''"
  | "audit_event_name Ev_user_api_key_revoke = ''user_api_key.revoke''"
  | "audit_event_name Ev_account_register = ''account.register''"
  | "audit_event_name Ev_account_claim = ''account.claim''"
  | "audit_event_name Ev_account_claim_complete = ''account.claim_complete''"
  | "audit_event_name Ev_user_api_key_expire = ''user_api_key.expire''"
  | "audit_event_name Ev_org_create = ''org.create''"
  | "audit_event_name Ev_org_read = ''org.read''"
  | "audit_event_name Ev_org_update = ''org.update''"
  | "audit_event_name Ev_org_delete = ''org.delete''"
  | "audit_event_name Ev_org_member_add = ''org.member_add''"
  | "audit_event_name Ev_org_member_list = ''org.member_list''"
  | "audit_event_name Ev_org_member_remove = ''org.member_remove''"
  | "audit_event_name Ev_org_member_role_change = ''org.member_role_change''"
  | "audit_event_name Ev_org_invite = ''org.invite''"
  | "audit_event_name Ev_org_invite_accept = ''org.invite_accept''"
  | "audit_event_name Ev_org_invite_reject = ''org.invite_reject''"
  | "audit_event_name Ev_org_invite_revoke = ''org.invite_revoke''"
  | "audit_event_name Ev_agent_create = ''agent.create''"
  | "audit_event_name Ev_agent_bootstrap_issue = ''agent.bootstrap_issue''"
  | "audit_event_name Ev_agent_enroll = ''agent.enroll''"
  | "audit_event_name Ev_agent_rotate = ''agent.rotate''"
  | "audit_event_name Ev_agent_revoke = ''agent.revoke''"
  | "audit_event_name Ev_agent_revoke_cascade = ''agent.revoke_cascade''"
  | "audit_event_name Ev_agent_session_issue = ''agent.session_issue''"
  | "audit_event_name Ev_agent_session_reject = ''agent.session_reject''"
  | "audit_event_name Ev_agent_session_revoke = ''agent.session_revoke''"
  | "audit_event_name Ev_permission_create = ''permission.create''"
  | "audit_event_name Ev_permission_revoke = ''permission.revoke''"
  | "audit_event_name Ev_permission_revoke_cascade = ''permission.revoke_cascade''"
  | "audit_event_name Ev_access_ciphertext = ''access.ciphertext''"
  | "audit_event_name Ev_access_reveal = ''access.reveal''"
  | "audit_event_name Ev_access_mount_env = ''access.mount_env''"
  | "audit_event_name Ev_access_mount_file = ''access.mount_file''"

definition AUDIT_EVENT_TYPES :: "string list" where
  "AUDIT_EVENT_TYPES =
    [''profile.create'', ''profile.read'', ''profile.bootstrap'', ''profile.rotate'',
     ''profile.delete'', ''profile.delete_cascade'', ''profile.setup_recovery'', ''item.create'',
     ''item.read'', ''item.update'', ''item.delete'', ''item.delete_cascade'',
     ''item.export'', ''auth.login'', ''auth.logout'', ''auth.signup'',
     ''auth.token_issue'', ''auth.token_revoke'', ''user_api_key.create'', ''user_api_key.revoke'',
     ''account.register'', ''account.claim'', ''account.claim_complete'', ''user_api_key.expire'',
     ''org.create'', ''org.read'', ''org.update'', ''org.delete'',
     ''org.member_add'', ''org.member_list'', ''org.member_remove'', ''org.member_role_change'',
     ''org.invite'', ''org.invite_accept'', ''org.invite_reject'', ''org.invite_revoke'',
     ''agent.create'', ''agent.bootstrap_issue'', ''agent.enroll'', ''agent.rotate'',
     ''agent.revoke'', ''agent.revoke_cascade'', ''agent.session_issue'', ''agent.session_reject'',
     ''agent.session_revoke'', ''permission.create'', ''permission.revoke'', ''permission.revoke_cascade'',
     ''access.ciphertext'', ''access.reveal'', ''access.mount_env'', ''access.mount_file'']"

definition AUDIT_EVENT_TYPE_ALIASES :: "(string \<times> string) list" where
  "AUDIT_EVENT_TYPE_ALIASES =
    [(''principal.create'', ''agent.create''),
     (''principal.rotate'', ''agent.rotate''),
     (''principal.revoke'', ''agent.revoke''),
     (''grant.create'', ''permission.create''),
     (''grant.revoke'', ''permission.revoke''),
     (''vault.bootstrap'', ''profile.create''),
     (''vault.unlock'', ''auth.login''),
     (''vault.password_change'', ''profile.rotate''),
     (''vault.key_rotate'', ''profile.rotate''),
     (''operator_token.create'', ''auth.token_issue''),
     (''operator_token.revoke'', ''auth.token_revoke'')]"

definition LEGACY_AUDIT_EVENT_TYPES :: "string list" where
  "LEGACY_AUDIT_EVENT_TYPES = map fst AUDIT_EVENT_TYPE_ALIASES"

definition isAuditEventType :: "string \<Rightarrow> bool" where
  "isAuditEventType eventType = (eventType \<in> set AUDIT_EVENT_TYPES)"

definition normalizeAuditEventType :: "string \<Rightarrow> err + string" where
  "normalizeAuditEventType eventType =
     (let normalized = orElse (map_of AUDIT_EVENT_TYPE_ALIASES eventType) eventType in
      if \<not> isAuditEventType normalized then Inl (PlainErr ''Unknown audit event type'')
      else Inr normalized)"

definition event_filters :: "string \<Rightarrow> string list" where
  "event_filters normalized =
      (if normalized = ''profile.create'' then [''profile.create'', ''vault.bootstrap'']
       else if normalized = ''profile.rotate'' then [''profile.rotate'', ''vault.password_change'', ''vault.key_rotate'']
       else if normalized = ''auth.login'' then [''auth.login'', ''vault.unlock'']
       else if normalized = ''auth.token_issue'' then [''auth.token_issue'', ''operator_token.create'']
       else if normalized = ''auth.token_revoke'' then [''auth.token_revoke'', ''operator_token.revoke'']
       else if normalized = ''agent.create'' then [''agent.create'', ''principal.create'']
       else if normalized = ''agent.rotate'' then [''agent.rotate'', ''principal.rotate'']
       else if normalized = ''agent.revoke'' then [''agent.revoke'', ''principal.revoke'']
       else if normalized = ''permission.create'' then [''permission.create'', ''grant.create'']
       else if normalized = ''permission.revoke'' then [''permission.revoke'', ''grant.revoke'']
       else [normalized])"

definition getAuditEventTypeFilters :: "string \<Rightarrow> err + string list" where
  "getAuditEventTypeFilters eventType =
     (case normalizeAuditEventType eventType of
        Inl e \<Rightarrow> Inl e
      | Inr normalized \<Rightarrow> Inr (event_filters normalized))"

section \<open>Listing\<close>

record audit_query =
  aq_eventType :: "string option"
  aq_result :: "audit_result option"
  aq_agentId :: "string option"
  aq_itemId :: "string option"
  aq_profileId :: "string option"
  aq_surface :: "string option"
  aq_field :: "string option"
  aq_cursor :: "string option"
  aq_limit :: "nat option"

definition normalizeAuditQuery :: "audit_query \<Rightarrow> err + audit_query" where
  "normalizeAuditQuery q =
     (if falsy (aq_eventType q) then Inr (q\<lparr>aq_eventType := None\<rparr>)
      else (case normalizeAuditEventType (orElse (aq_eventType q) []) of
          Inl e \<Rightarrow> Inl e
        | Inr t \<Rightarrow> Inr (q\<lparr>aq_eventType := Some t\<rparr>)))"

definition buildEventTypeCondition :: "string \<Rightarrow> audit_row \<Rightarrow> bool" where
  "buildEventTypeCondition eventType r =
     (case getAuditEventTypeFilters eventType of
        Inl e \<Rightarrow> False
      | Inr eventTypes \<Rightarrow> audit_event_name (au_eventType r) \<in> set eventTypes)"

text \<open>An equality with an optional filter; a comparison with a null column is never true.\<close>

definition filtered_by :: "string option \<Rightarrow> string option \<Rightarrow> bool" where
  "filtered_by wanted column = (falsy wanted \<or> column = wanted)"

definition buildAuditConditions :: "audit_query \<Rightarrow> string option \<Rightarrow> string \<Rightarrow> nat \<times> audit_row \<Rightarrow> bool" where
  "buildAuditConditions q userId role e =
     (let r = snd e in
      (roleRank role < roleRank ''admin'' \<longrightarrow>
         (case userId of None \<Rightarrow> au_userId r = None | Some u \<Rightarrow> au_userId r = Some u)) \<and>
      (truthy (aq_eventType q) \<longrightarrow> buildEventTypeCondition (the (aq_eventType q)) r) \<and>
      (case aq_result q of None \<Rightarrow> True | Some x \<Rightarrow> au_result r = x) \<and>
      filtered_by (aq_agentId q) (au_agentId r) \<and> filtered_by (aq_itemId q) (au_itemId r) \<and>
      filtered_by (aq_profileId q) (au_profileId r) \<and> filtered_by (aq_surface q) (au_surface r) \<and>
      filtered_by (aq_field q) (au_field r))"

definition before_cursor :: "string option \<Rightarrow> nat \<times> audit_row \<Rightarrow> bool" where
  "before_cursor cursor e = (falsy cursor \<or> fst e < parse_decimal (orElse cursor []))"

text \<open>The rows with their ids, newest first.\<close>

definition numbered :: "audit_row list \<Rightarrow> (nat \<times> audit_row) list" where
  "numbered rows = enumerate 1 rows"

text \<open>A cursor beyond a \<open>bigint\<close> makes the statement fail; ids stay far below \<open>2 ^ 53\<close>, where
  \<open>Number\<close> is exact.\<close>

definition audit_page ::
  "(nat \<times> audit_row \<Rightarrow> bool) \<Rightarrow> nat \<Rightarrow> (nat \<times> audit_row) list \<Rightarrow> string option \<Rightarrow>
     err + (nat \<times> audit_row) list \<times> string option" where
  "audit_page cond limit rows cursor =
     (if truthy cursor \<and> parse_decimal (orElse cursor []) \<ge> 2 ^ 63 then Inl (DbErr ''22003'')
      else let entries = take limit (rev (sort_key fst (filter (\<lambda>e. cond e \<and> before_cursor cursor e) rows))) in
      Inr (entries, if length entries = limit \<and> entries \<noteq> [] then Some (decimal (fst (last entries))) else None))"

definition audit_visible :: "audit_query \<Rightarrow> string \<Rightarrow> string option \<Rightarrow> string \<Rightarrow> nat \<times> audit_row \<Rightarrow> bool" where
  "audit_visible q orgId userId role e = (orgScope au_org orgId (snd e) \<and> buildAuditConditions q userId role e)"

definition audit_list ::
  "audit_query \<Rightarrow> string \<Rightarrow> string option \<Rightarrow> string \<Rightarrow> ((nat \<times> audit_row) list \<times> string option) server" where
  "audit_list q orgId userId role =
     statement (\<lambda>d. case audit_page (audit_visible q orgId userId role) (orElse (aq_limit q) 50)
         (numbered (tbl_auditLogs d)) (aq_cursor q) of
       Inl e \<Rightarrow> Inl e | Inr p \<Rightarrow> Inr (p, d))"

definition listAuditEntries :: "session_ctx \<Rightarrow> audit_query \<Rightarrow> ((nat \<times> audit_row) list \<times> string option) server" where
  "listAuditEntries sx q =
     andThen (requireOrgRole (sx_orgId sx) (sx_userId sx) ''member'') (\<lambda>role.
       audit_list q (sx_orgId sx) (Some (sx_userId sx)) role)"

definition listAuditEntriesForAgent ::
  "agent_identity \<Rightarrow> audit_query \<Rightarrow> ((nat \<times> audit_row) list \<times> string option) server" where
  "listAuditEntriesForAgent i q = audit_list q (aid_orgId i) (aid_userId i) ''member''"

section \<open>Facts\<close>

lemma audit_event_named: "audit_event_name e \<in> set AUDIT_EVENT_TYPES"
  unfolding AUDIT_EVENT_TYPES_def
  by (cases e) (simp_all only: audit_event_name.simps list.set insert_iff simp_thms)

lemma numbered_stored: "e \<in> set (numbered rows) \<Longrightarrow> snd e \<in> set rows"
  unfolding numbered_def by (metis map_snd_enumerate imageI set_map)

lemma numbered_distinct: "distinct (map fst (numbered rows))"
  by (simp add: numbered_def)

lemma before_cursor_decimal: "before_cursor (Some (decimal n)) e \<longleftrightarrow> fst e < n"
  using decimal_digits [of n] by (simp add: before_cursor_def)

text \<open>The audit trail keeps the contract of a paged endpoint, so that its pages are complete.\<close>

definition audit_all :: "(nat \<times> audit_row \<Rightarrow> bool) \<Rightarrow> (nat \<times> audit_row) list \<Rightarrow> (nat \<times> audit_row) list" where
  "audit_all cond rows = rev (sort_key fst (filter cond rows))"

lemma audit_all_before:
  "rev (sort_key fst (filter (\<lambda>e. cond e \<and> before_cursor cursor e) rows)) =
     filter (before_cursor cursor) (audit_all cond rows)"
  by (simp add: audit_all_def rev_filter [symmetric] filter_sort conj_commute)

lemma audit_page_eq:
  "falsy cursor \<or> parse_decimal (orElse cursor []) < 2 ^ 63 \<Longrightarrow> audit_page cond n rows cursor =
     Inr (take n (filter (before_cursor cursor) (audit_all cond rows)),
       if length (take n (filter (before_cursor cursor) (audit_all cond rows))) = n \<and>
          take n (filter (before_cursor cursor) (audit_all cond rows)) \<noteq> []
       then Some (decimal (fst (last (take n (filter (before_cursor cursor) (audit_all cond rows)))))) else None)"
  unfolding audit_page_def Let_def audit_all_before by auto

lemma audit_all_strict:
  assumes "distinct (map fst rows)"
  shows "sorted_wrt (\<lambda>x y. fst y < fst x) (audit_all cond rows)"
proof -
  have "distinct (map fst (filter cond rows))" using assms by (simp add: distinct_map_filter)
  then have "distinct (map fst (sort_key fst (filter cond rows)))" by (metis distinct_map distinct_sort set_sort)
  then have "sorted_wrt (<) (map fst (sort_key fst (filter cond rows)))" by (simp add: strict_sorted_iff)
  then show ?thesis by (simp add: audit_all_def sorted_wrt_rev sorted_wrt_map)
qed

lemma audit_next:
  "0 < n \<Longrightarrow> (if length (take n ys) = n \<and> take n ys \<noteq> [] then Some (decimal (fst (last (take n ys)))) else None) =
     next_of (\<lambda>e. decimal (fst e)) n (take n ys)"
  by (auto simp: next_of_def)

lemma before_no_cursor [simp]: "before_cursor None = (\<lambda>_. True)"
  by (simp add: before_cursor_def fun_eq_iff)

lemma audit_page_next:
  "0 < n \<Longrightarrow> falsy cursor \<or> parse_decimal (orElse cursor []) < 2 ^ 63 \<Longrightarrow> audit_page cond n rows cursor =
     Inr (take n (filter (before_cursor cursor) (audit_all cond rows)),
          next_of (\<lambda>e. decimal (fst e)) n (take n (filter (before_cursor cursor) (audit_all cond rows))))"
  by (simp only: audit_page_eq audit_next)

lemma audit_later:
  assumes "distinct (map fst rows)" "audit_all cond rows = xs @ x # ys"
  shows "filter (before_cursor (Some (decimal (fst x)))) (audit_all cond rows) = ys"
proof -
  have "before_cursor (Some (decimal (fst x))) = (\<lambda>e. fst e < fst x)"
    by (simp add: before_cursor_decimal fun_eq_iff)
  moreover have "filter (\<lambda>e. fst e < fst x) (xs @ x # ys) = ys"
    using audit_all_strict [OF assms(1), of cond] by (intro filter_below) (simp add: assms(2))
  ultimately show ?thesis by (simp only: assms(2))
qed

lemma audit_keyset:
  "keyset (\<lambda>(cond, n, rows) cursor. audit_page cond n rows cursor)
    (\<lambda>(cond, n, rows). 0 < n \<and> distinct (map fst rows) \<and> (\<forall>e \<in> set rows. fst e < 2 ^ 63)) (\<lambda>(cond, n, rows). audit_all cond rows)
    (\<lambda>(cond, n, rows) e. decimal (fst e)) (\<lambda>(cond, n, rows). n)"
proof (unfold_locales, goal_cases)
  case (1 q)
  then show ?case by (cases q) simp
next
  case (2 q)
  then show ?case by (cases q) (simp add: audit_page_next)
next
  case (3 q xs x ys)
  obtain cond n rows where q: "q = (cond, n, rows)" by (cases q)
  with 3 have "filter (before_cursor (Some (decimal (fst x)))) (audit_all cond rows) = ys"
    by (intro audit_later) auto
  moreover have "x \<in> set (audit_all cond rows)" using 3(2) q by simp
  then have "fst x < 2 ^ 63" using 3(1) q by (auto simp: audit_all_def)
  ultimately show ?case using 3(1) q audit_page_next [of n "Some (decimal (fst x))" cond rows] by simp
qed

interpretation audit: keyset
  "\<lambda>(cond, n, rows) cursor. audit_page cond n rows cursor"
  "\<lambda>(cond, n, rows). 0 < n \<and> distinct (map fst rows) \<and> (\<forall>e \<in> set rows. fst e < 2 ^ 63)"
  "\<lambda>(cond, n, rows). audit_all cond rows"
  "\<lambda>(cond, n, rows) e. decimal (fst e)"
  "\<lambda>(cond, n, rows). n"
  by (rule audit_keyset)

section \<open>What the listings show\<close>

text \<open>C39: a listing shows only rows of the caller's organisation, and to a caller below
  admin only rows of its own user; it needs a membership, changes nothing, and each row shown is a
  stored row.\<close>

theorem audit_listing_confined:
  assumes "listAuditEntries sx q w = (Inr (entries, next), w')"
  shows "store w' = store w \<and>
    (\<exists>m \<in> set (tbl_members (store w)). mem_org m = sx_orgId sx \<and> mem_userId m = sx_userId sx \<and>
       (\<forall>e \<in> set entries. snd e \<in> set (tbl_auditLogs (store w)) \<and> au_org (snd e) = sx_orgId sx \<and>
          (roleRank (mem_role m) < 2 \<longrightarrow> au_userId (snd e) = Some (sx_userId sx))))"
proof -
  from assms obtain role w1 where
    r: "requireOrgRole (sx_orgId sx) (sx_userId sx) ''member'' w = (Inr role, w1)"
    and l: "audit_list q (sx_orgId sx) (Some (sx_userId sx)) role w1 = (Inr (entries, next), w')"
    by (auto simp: listAuditEntries_def andThen_Inr)
  from requireOrgRole_Inr [OF r] obtain m where
    st: "store w1 = store w" and f: "member_row_of (sx_orgId sx) (sx_userId sx) (store w) = Some m"
    and role: "mem_role m = role" by (auto simp: same_store_def)
  from find_SomeD [OF f [unfolded member_row_of_def]]
  have m: "m \<in> set (tbl_members (store w))" "mem_org m = sx_orgId sx" "mem_userId m = sx_userId sx" by auto
  from l have w': "store w' = store w"
    and e: "entries = take (orElse (aq_limit q) 50) (rev (sort_key fst (filter (\<lambda>e.
       audit_visible q (sx_orgId sx) (Some (sx_userId sx)) role e \<and> before_cursor (aq_cursor q) e)
       (numbered (tbl_auditLogs (store w))))))"
    by (auto simp: audit_list_def statement_ok audit_page_def Let_def st split: if_splits)
  have "snd x \<in> set (tbl_auditLogs (store w)) \<and> au_org (snd x) = sx_orgId sx \<and>
      (roleRank role < 2 \<longrightarrow> au_userId (snd x) = Some (sx_userId sx))" if "x \<in> set entries" for x
  proof -
    from that have "x \<in> set (numbered (tbl_auditLogs (store w)))"
      "audit_visible q (sx_orgId sx) (Some (sx_userId sx)) role x"
      unfolding e by (auto dest!: in_set_takeD)
    then show ?thesis
      by (auto simp: audit_visible_def buildAuditConditions_def orgScope_def Let_def dest: numbered_stored)
  qed
  with m w' role show ?thesis by blast
qed

definition audit_sample_db :: db where
  "audit_sample_db = sample_db\<lparr>tbl_members := [\<lparr>mem_id = ''m1'', mem_org = ''o1'', mem_userId = ''u1'',
     mem_role = ''member'', mem_createdAt = 0\<rparr>],
     tbl_auditLogs := [buildAuditRow (entry ''o1'' (Some ''u1'') Ev_item_read Allowed),
       buildAuditRow (entry ''o1'' (Some ''u2'') Ev_item_read Allowed)]\<rparr>"

definition any_audit :: audit_query where
  "any_audit = \<lparr>aq_eventType = None, aq_result = None, aq_agentId = None, aq_itemId = None, aq_profileId = None,
     aq_surface = None, aq_field = None, aq_cursor = None, aq_limit = None\<rparr>"

lemma sample_listing: "fst (listAuditEntries \<lparr>sx_orgId = ''o1'', sx_userId = ''u1'', sx_ip = None\<rparr> any_audit
     (sample_world audit_sample_db)) =
   Inr ([(1, buildAuditRow (entry ''o1'' (Some ''u1'') Ev_item_read Allowed))], None)"
  by (simp add: listAuditEntries_def requireOrgRole_def member_row_of_def audit_sample_db_def any_audit_def
      eff_defs select_def statement_def audit_list_def audit_page_def audit_visible_def buildAuditConditions_def
      filtered_by_def numbered_def orgScope_def Let_def)

lemma audit_listing_confined_witness:
  "store (snd (listAuditEntries \<lparr>sx_orgId = ''o1'', sx_userId = ''u1'', sx_ip = None\<rparr> any_audit
     (sample_world audit_sample_db))) = audit_sample_db"
  using audit_listing_confined [OF outcome [OF sample_listing]] by simp

lemma event_filters_computed:
  "list_all (\<lambda>n. list_all (\<lambda>s. s \<in> set (n # map fst (filter (\<lambda>e. snd e = n) AUDIT_EVENT_TYPE_ALIASES))) (event_filters n) \<and>
     list_all (\<lambda>s. s \<in> set (event_filters n)) (n # map fst (filter (\<lambda>e. snd e = n) AUDIT_EVENT_TYPE_ALIASES)) \<and>
     map_of AUDIT_EVENT_TYPE_ALIASES n = None) AUDIT_EVENT_TYPES"
  by code_simp

lemma event_filters_aliases:
  "n \<in> set AUDIT_EVENT_TYPES \<Longrightarrow> set (event_filters n) = insert n {s. (s, n) \<in> set AUDIT_EVENT_TYPE_ALIASES} \<and>
     map_of AUDIT_EVENT_TYPE_ALIASES n = None"
  using event_filters_computed by (fastforce simp: list_all_iff)

lemma aliases_distinct: "distinct (map fst AUDIT_EVENT_TYPE_ALIASES)"
  by (simp add: AUDIT_EVENT_TYPE_ALIASES_def)

text \<open>The filter for an event name selects exactly the stored names, current or legacy, that
  are read back as the same event.\<close>

theorem event_filter_matches_normalisation:
  assumes "getAuditEventTypeFilters t = Inr ts"
  shows "s \<in> set ts \<longleftrightarrow> normalizeAuditEventType s = normalizeAuditEventType t"
proof -
  from assms obtain n where n: "normalizeAuditEventType t = Inr n" "n \<in> set AUDIT_EVENT_TYPES" "ts = event_filters n"
    by (auto simp: getAuditEventTypeFilters_def normalizeAuditEventType_def isAuditEventType_def Let_def
        split: sum.splits if_splits)
  from event_filters_aliases [OF n(2)] have f: "set (event_filters n) = insert n {s. (s, n) \<in> set AUDIT_EVENT_TYPE_ALIASES}"
    "map_of AUDIT_EVENT_TYPE_ALIASES n = None" by auto
  have "normalizeAuditEventType s = Inr n \<longleftrightarrow> orElse (map_of AUDIT_EVENT_TYPE_ALIASES s) s = n"
    using n(2) by (auto simp: normalizeAuditEventType_def isAuditEventType_def Let_def)
  also have "\<dots> \<longleftrightarrow> s = n \<or> map_of AUDIT_EVENT_TYPE_ALIASES s = Some n"
    using f(2) by (cases "map_of AUDIT_EVENT_TYPE_ALIASES s") auto
  also have "\<dots> \<longleftrightarrow> s \<in> set ts"
    using f(1) aliases_distinct by (simp add: n(3))
  finally show ?thesis by (simp add: n(1))
qed

lemma event_filter_matches_normalisation_witness:
  "normalizeAuditEventType ''vault.key_rotate'' = normalizeAuditEventType ''vault.password_change''"
  using event_filter_matches_normalisation [of "''vault.password_change''"
      "[''profile.rotate'', ''vault.password_change'', ''vault.key_rotate'']" "''vault.key_rotate''"]
  by (simp add: getAuditEventTypeFilters_def normalizeAuditEventType_def isAuditEventType_def
      AUDIT_EVENT_TYPES_def AUDIT_EVENT_TYPE_ALIASES_def event_filters_def)

end
