(* ===== verification/Foreign_Keys.thy ===== *)
theory Foreign_Keys
  imports Tables
begin

text \<open>
  What the foreign keys of \<open>packages/db/src/schema\<close> do when a row is deleted: \<open>ON DELETE CASCADE\<close>
  removes the referencing rows, \<open>ON DELETE SET NULL\<close> clears the reference. The tables of the
  authentication library (sessions, accounts, verifications, device codes) are not modelled; the audit
  trail has no foreign keys on purpose. Referential integrity is an invariant of every deletion.
\<close>

section \<open>Deletions\<close>

definition delete_agents :: "(agent_row \<Rightarrow> bool) \<Rightarrow> db \<Rightarrow> db" where
  "delete_agents P d =
     (let gone = map ag_id (filter P (tbl_agents d)) in
      d\<lparr>tbl_agents := filter (\<lambda>a. \<not> P a) (tbl_agents d),
        tbl_agentSessions := filter (\<lambda>s. ses_agentId s \<notin> set gone) (tbl_agentSessions d),
        tbl_enrollmentTokens := filter (\<lambda>t. et_agentId t \<notin> set gone) (tbl_enrollmentTokens d),
        tbl_sessionChallenges := filter (\<lambda>c. ch_agentId c \<notin> set gone) (tbl_sessionChallenges d),
        tbl_permissions := filter (\<lambda>p. perm_agentId p \<notin> set gone) (tbl_permissions d),
        tbl_mountReservations := filter (\<lambda>r. res_agentId r \<notin> set gone) (tbl_mountReservations d)\<rparr>)"

definition delete_items :: "(item_row \<Rightarrow> bool) \<Rightarrow> db \<Rightarrow> db" where
  "delete_items P d =
     (let gone = map item_id (filter P (tbl_items d)) in
      d\<lparr>tbl_items := filter (\<lambda>i. \<not> P i) (tbl_items d),
        tbl_permissions := filter (\<lambda>p. perm_itemId p \<notin> Some ` set gone) (tbl_permissions d),
        tbl_mountReservations := filter (\<lambda>r. res_itemId r \<notin> set gone) (tbl_mountReservations d)\<rparr>)"

definition delete_profiles :: "(profile_row \<Rightarrow> bool) \<Rightarrow> db \<Rightarrow> db" where
  "delete_profiles P d =
     (let gone = map prof_id (filter P (tbl_profiles d)) in
      d\<lparr>tbl_profiles := filter (\<lambda>p. \<not> P p) (tbl_profiles d),
        tbl_permissions := filter (\<lambda>p. perm_profileId p \<notin> Some ` set gone) (tbl_permissions d),
        tbl_items := map (\<lambda>i. if item_profileId i \<in> Some ` set gone then i\<lparr>item_profileId := None\<rparr> else i)
          (tbl_items d)\<rparr>)"

definition delete_organizations :: "(organization_row \<Rightarrow> bool) \<Rightarrow> db \<Rightarrow> db" where
  "delete_organizations P d =
     (let gone = map org_id (filter P (tbl_organizations d));
          d1 = delete_profiles (\<lambda>p. prof_org p \<in> set gone)
            (delete_items (\<lambda>i. item_org i \<in> set gone) (delete_agents (\<lambda>a. ag_org a \<in> set gone) d))
      in d1\<lparr>tbl_organizations := filter (\<lambda>q. \<not> P q) (tbl_organizations d1),
        tbl_permissions := filter (\<lambda>p. perm_org p \<notin> set gone) (tbl_permissions d1),
        tbl_members := filter (\<lambda>m. mem_org m \<notin> set gone) (tbl_members d1),
        tbl_invitations := filter (\<lambda>i. inv_org i \<notin> set gone) (tbl_invitations d1),
        tbl_userApiKeys := filter (\<lambda>k. key_org k \<notin> set gone) (tbl_userApiKeys d1),
        tbl_accountClaims := filter (\<lambda>c. clm_org c \<notin> set gone) (tbl_accountClaims d1)\<rparr>)"

definition forget :: "string list \<Rightarrow> string option \<Rightarrow> string option" where
  "forget gone x = (if x \<in> Some ` set gone then None else x)"

definition delete_users :: "(user_row \<Rightarrow> bool) \<Rightarrow> db \<Rightarrow> db" where
  "delete_users P d =
     (let gone = map usr_id (filter P (tbl_users d)) in
      d\<lparr>tbl_users := filter (\<lambda>u. \<not> P u) (tbl_users d),
        tbl_members := filter (\<lambda>m. mem_userId m \<notin> set gone) (tbl_members d),
        tbl_userApiKeys := filter (\<lambda>k. key_userId k \<notin> set gone) (tbl_userApiKeys d),
        tbl_accountClaims := filter (\<lambda>c. clm_userId c \<notin> set gone) (tbl_accountClaims d),
        tbl_invitations := map (\<lambda>i. i\<lparr>inv_usedBy := forget gone (inv_usedBy i)\<rparr>)
          (filter (\<lambda>i. inv_inviterId i \<notin> set gone) (tbl_invitations d)),
        tbl_enrollmentTokens := map (\<lambda>t. t\<lparr>et_userId := forget gone (et_userId t)\<rparr>)
          (filter (\<lambda>t. et_createdBy t \<notin> set gone) (tbl_enrollmentTokens d)),
        tbl_agents := map (\<lambda>a. a\<lparr>ag_createdBy := forget gone (ag_createdBy a)\<rparr>) (tbl_agents d),
        tbl_items := map (\<lambda>i. i\<lparr>item_createdBy := forget gone (item_createdBy i)\<rparr>) (tbl_items d),
        tbl_agentSessions := map (\<lambda>s. s\<lparr>ses_userId := forget gone (ses_userId s)\<rparr>) (tbl_agentSessions d),
        tbl_permissions := map (\<lambda>p. p\<lparr>perm_grantedBy := forget gone (perm_grantedBy p)\<rparr>) (tbl_permissions d)\<rparr>)"

section \<open>Referential integrity\<close>

text \<open>Every key of a list, or every key that is there, names a row.\<close>

definition refs :: "string list \<Rightarrow> string list \<Rightarrow> bool" where
  "refs keys ids = (set keys \<subseteq> set ids)"

definition opt_refs :: "string option list \<Rightarrow> string list \<Rightarrow> bool" where
  "opt_refs keys ids = (\<forall>k. Some k \<in> set keys \<longrightarrow> k \<in> set ids)"

text \<open>The references inside a tenant, to the organisation, and to users.\<close>

definition tenant_refs :: "db \<Rightarrow> bool" where
  "tenant_refs d =
     (opt_refs (map item_profileId (tbl_items d)) (map prof_id (tbl_profiles d)) \<and>
      refs (map ses_agentId (tbl_agentSessions d)) (map ag_id (tbl_agents d)) \<and>
      refs (map et_agentId (tbl_enrollmentTokens d)) (map ag_id (tbl_agents d)) \<and>
      refs (map ch_agentId (tbl_sessionChallenges d)) (map ag_id (tbl_agents d)) \<and>
      refs (map perm_agentId (tbl_permissions d)) (map ag_id (tbl_agents d)) \<and>
      opt_refs (map perm_itemId (tbl_permissions d)) (map item_id (tbl_items d)) \<and>
      opt_refs (map perm_profileId (tbl_permissions d)) (map prof_id (tbl_profiles d)) \<and>
      refs (map res_agentId (tbl_mountReservations d)) (map ag_id (tbl_agents d)) \<and>
      refs (map res_itemId (tbl_mountReservations d)) (map item_id (tbl_items d)))"

definition org_refs :: "db \<Rightarrow> bool" where
  "org_refs d =
     (let orgs = map org_id (tbl_organizations d) in
      refs (map item_org (tbl_items d)) orgs \<and> refs (map prof_org (tbl_profiles d)) orgs \<and>
      refs (map ag_org (tbl_agents d)) orgs \<and> refs (map perm_org (tbl_permissions d)) orgs \<and>
      refs (map mem_org (tbl_members d)) orgs \<and> refs (map inv_org (tbl_invitations d)) orgs \<and>
      refs (map key_org (tbl_userApiKeys d)) orgs \<and> refs (map clm_org (tbl_accountClaims d)) orgs)"

definition user_refs :: "db \<Rightarrow> bool" where
  "user_refs d =
     (let users = map usr_id (tbl_users d) in
      refs (map mem_userId (tbl_members d)) users \<and> refs (map key_userId (tbl_userApiKeys d)) users \<and>
      refs (map clm_userId (tbl_accountClaims d)) users \<and> refs (map inv_inviterId (tbl_invitations d)) users \<and>
      refs (map et_createdBy (tbl_enrollmentTokens d)) users \<and>
      opt_refs (map inv_usedBy (tbl_invitations d)) users \<and> opt_refs (map et_userId (tbl_enrollmentTokens d)) users \<and>
      opt_refs (map ag_createdBy (tbl_agents d)) users \<and> opt_refs (map item_createdBy (tbl_items d)) users \<and>
      opt_refs (map ses_userId (tbl_agentSessions d)) users \<and>
      opt_refs (map perm_grantedBy (tbl_permissions d)) users)"

definition refs_ok :: "db \<Rightarrow> bool" where
  "refs_ok d = (tenant_refs d \<and> org_refs d \<and> user_refs d)"

section \<open>Deletions keep it\<close>

lemma refs_iff: "refs (map f xs) ids \<longleftrightarrow> (\<forall>x \<in> set xs. f x \<in> set ids)"
  by (auto simp: refs_def)

lemma opt_refs_iff: "opt_refs (map f xs) ids \<longleftrightarrow> (\<forall>x \<in> set xs. \<forall>k. f x = Some k \<longrightarrow> k \<in> set ids)"
  by (auto simp: opt_refs_def) (metis image_eqI)

lemmas refs_simps = refs_iff opt_refs_iff Let_def

text \<open>A key among the rows, but not among those that go, is among those that stay.\<close>

lemma survives:
  "k \<in> set (map f xs) \<Longrightarrow> k \<notin> set (map f (filter P xs)) \<Longrightarrow> k \<in> set (map f (filter (\<lambda>x. \<not> P x) xs))"
  by auto

lemma refs_survive:
  assumes "refs (map f xs) (map g ys)" "gone = map g (filter P ys)"
    and "\<And>x. x \<in> set xs' \<Longrightarrow> f x \<in> f ` set xs \<and> f x \<notin> set gone"
  shows "refs (map f xs') (map g (filter (\<lambda>y. \<not> P y) ys))"
  unfolding refs_iff
proof
  fix x
  assume "x \<in> set xs'"
  with assms(3) obtain y where "y \<in> set xs" "f x = f y" "f x \<notin> set gone" by blast
  with assms(1,2) show "f x \<in> set (map g (filter (\<lambda>y. \<not> P y) ys))"
    by (intro survives) (auto simp: refs_iff)
qed

lemma forget_Some [simp]: "forget gone x = Some k \<longleftrightarrow> x = Some k \<and> k \<notin> set gone"
  by (auto simp: forget_def)

lemma refs_forget:
  assumes "opt_refs (map f xs) (map g ys)" "gone = map g (filter P ys)"
    and "\<And>x. x \<in> set xs' \<Longrightarrow> \<exists>y \<in> set xs. f x = forget gone (f y)"
  shows "opt_refs (map f xs') (map g (filter (\<lambda>y. \<not> P y) ys))"
  unfolding opt_refs_iff
proof (intro ballI allI impI)
  fix x k
  assume "x \<in> set xs'" "f x = Some k"
  with assms(3) obtain y where "y \<in> set xs" "f y = Some k" "k \<notin> set gone" by fastforce
  with assms(1,2) show "k \<in> set (map g (filter (\<lambda>y. \<not> P y) ys))"
    by (intro survives) (auto simp: opt_refs_iff)
qed

lemma refs_fewer:
  "refs (map f xs) ids \<Longrightarrow> refs (map f (filter Q xs)) ids"
  "opt_refs (map h ys) ids \<Longrightarrow> opt_refs (map h (filter Q' ys)) ids"
  by (auto simp: refs_iff opt_refs_iff)

text \<open>Referencing rows that lose their row are deleted with it.\<close>

lemma refs_cascade:
  "refs (map f xs) (map g ys) \<Longrightarrow>
     refs (map f (filter (\<lambda>x. f x \<notin> set (map g (filter P ys))) xs)) (map g (filter (\<lambda>y. \<not> P y) ys))"
  by (rule refs_survive [OF _ refl]) auto

lemma opt_refs_cascade:
  "opt_refs (map f xs) (map g ys) \<Longrightarrow>
     opt_refs (map f (filter (\<lambda>x. f x \<notin> Some ` set (map g (filter P ys))) xs)) (map g (filter (\<lambda>y. \<not> P y) ys))"
  by (rule refs_forget [OF _ refl]) (auto simp: forget_def)

lemmas cascade_rules = refs_cascade opt_refs_cascade refs_fewer

lemma tenant_refs_delete_agents: "tenant_refs d \<Longrightarrow> tenant_refs (delete_agents P d)"
  unfolding tenant_refs_def delete_agents_def Let_def
  by (elim conjE, simp del: set_map set_filter) (intro conjI; (assumption | erule cascade_rules))

lemma tenant_refs_delete_items: "tenant_refs d \<Longrightarrow> tenant_refs (delete_items P d)"
  unfolding tenant_refs_def delete_items_def Let_def
  by (elim conjE, simp del: set_map set_filter) (intro conjI; (assumption | erule cascade_rules))

lemma cleared_item:
  "item_profileId (if item_profileId i \<in> Some ` set gone then i\<lparr>item_profileId := None\<rparr> else i) =
     forget gone (item_profileId i)"
  "item_id (if c then i\<lparr>item_profileId := None\<rparr> else i) = item_id i"
  "item_org (if c then i\<lparr>item_profileId := None\<rparr> else i) = item_org i"
  "item_createdBy (if c then i\<lparr>item_profileId := None\<rparr> else i) = item_createdBy i"
  by (simp_all add: forget_def)

lemma refs_cleared:
  "opt_refs (map f xs) (map g ys) \<Longrightarrow>
     opt_refs (map (\<lambda>x. forget (map g (filter P ys)) (f x)) xs) (map g (filter (\<lambda>y. \<not> P y) ys))"
  by (simp add: opt_refs_def forget_def image_iff split: if_splits) fastforce

lemma tenant_refs_delete_profiles: "tenant_refs d \<Longrightarrow> tenant_refs (delete_profiles P d)"
  unfolding tenant_refs_def delete_profiles_def Let_def
  by (elim conjE, simp del: set_map set_filter add: comp_def cleared_item)
    (intro conjI; (assumption | erule cascade_rules refs_cleared))

lemma org_refs_parts:
  "org_refs d \<Longrightarrow> org_refs (delete_agents P d)"
  "org_refs d \<Longrightarrow> org_refs (delete_items Q d)"
  "org_refs d \<Longrightarrow> org_refs (delete_profiles R d)"
  unfolding org_refs_def delete_agents_def delete_items_def delete_profiles_def refs_simps by auto

lemma user_refs_parts:
  "user_refs d \<Longrightarrow> user_refs (delete_agents P d)"
  "user_refs d \<Longrightarrow> user_refs (delete_items Q d)"
  "user_refs d \<Longrightarrow> user_refs (delete_profiles R d)"
  unfolding user_refs_def delete_agents_def delete_items_def delete_profiles_def refs_simps by auto

text \<open>The tenant tables after the three deletions of an organisation's cascade.\<close>

definition drop_tenants :: "string list \<Rightarrow> db \<Rightarrow> db" where
  "drop_tenants gone d = delete_profiles (\<lambda>p. prof_org p \<in> set gone)
     (delete_items (\<lambda>i. item_org i \<in> set gone) (delete_agents (\<lambda>a. ag_org a \<in> set gone) d))"

lemma refs_ok_drop_tenants: "refs_ok d \<Longrightarrow> refs_ok (drop_tenants gone d)"
  by (simp add: refs_ok_def drop_tenants_def tenant_refs_delete_agents tenant_refs_delete_items
      tenant_refs_delete_profiles org_refs_parts user_refs_parts)

lemma drop_tenants_gone:
  "x \<in> set (tbl_items (drop_tenants gone d)) \<Longrightarrow> item_org x \<notin> set gone"
  "y \<in> set (tbl_profiles (drop_tenants gone d)) \<Longrightarrow> prof_org y \<notin> set gone"
  "z \<in> set (tbl_agents (drop_tenants gone d)) \<Longrightarrow> ag_org z \<notin> set gone"
  by (auto simp: drop_tenants_def delete_agents_def delete_items_def delete_profiles_def Let_def)

lemma drop_tenants_kept:
  "tbl_organizations (drop_tenants gone d) = tbl_organizations d" "tbl_users (drop_tenants gone d) = tbl_users d"
  "tbl_members (drop_tenants gone d) = tbl_members d" "tbl_invitations (drop_tenants gone d) = tbl_invitations d"
  "tbl_userApiKeys (drop_tenants gone d) = tbl_userApiKeys d"
  "tbl_accountClaims (drop_tenants gone d) = tbl_accountClaims d"
  "tbl_auditLogs (drop_tenants gone d) = tbl_auditLogs d"
  by (simp_all add: drop_tenants_def delete_agents_def delete_items_def delete_profiles_def Let_def)

lemma delete_organizations_eq:
  "delete_organizations P d = (let gone = map org_id (filter P (tbl_organizations d)); d1 = drop_tenants gone d in
     d1\<lparr>tbl_organizations := filter (\<lambda>q. \<not> P q) (tbl_organizations d1),
        tbl_permissions := filter (\<lambda>p. perm_org p \<notin> set gone) (tbl_permissions d1),
        tbl_members := filter (\<lambda>m. mem_org m \<notin> set gone) (tbl_members d1),
        tbl_invitations := filter (\<lambda>i. inv_org i \<notin> set gone) (tbl_invitations d1),
        tbl_userApiKeys := filter (\<lambda>k. key_org k \<notin> set gone) (tbl_userApiKeys d1),
        tbl_accountClaims := filter (\<lambda>c. clm_org c \<notin> set gone) (tbl_accountClaims d1)\<rparr>)"
  by (simp add: delete_organizations_def drop_tenants_def Let_def)

lemma refs_ok_delete_organizations:
  assumes "refs_ok d"
  shows "refs_ok (delete_organizations P d)"
proof -
  define gone where "gone = map org_id (filter P (tbl_organizations d))"
  define d1 where "d1 = drop_tenants gone d"
  have k: "refs_ok d1" using assms by (simp add: d1_def refs_ok_drop_tenants)
  note g = drop_tenants_gone [where gone = gone and d = d, folded d1_def]
  have o: "tbl_organizations d1 = tbl_organizations d" by (simp add: d1_def drop_tenants_kept)
  have e: "delete_organizations P d =
     d1\<lparr>tbl_organizations := filter (\<lambda>q. \<not> P q) (tbl_organizations d1),
        tbl_permissions := filter (\<lambda>p. perm_org p \<notin> set gone) (tbl_permissions d1),
        tbl_members := filter (\<lambda>m. mem_org m \<notin> set gone) (tbl_members d1),
        tbl_invitations := filter (\<lambda>i. inv_org i \<notin> set gone) (tbl_invitations d1),
        tbl_userApiKeys := filter (\<lambda>k. key_org k \<notin> set gone) (tbl_userApiKeys d1),
        tbl_accountClaims := filter (\<lambda>c. clm_org c \<notin> set gone) (tbl_accountClaims d1)\<rparr>"
    by (simp add: delete_organizations_eq gone_def d1_def Let_def)
  have "tenant_refs (delete_organizations P d)"
    using k unfolding e refs_ok_def tenant_refs_def refs_simps by auto
  moreover have "user_refs (delete_organizations P d)"
    using k unfolding e refs_ok_def user_refs_def refs_simps by auto
  moreover have "org_refs (delete_organizations P d)"
  proof -
    have r: "refs (map item_org (tbl_items d1)) (map org_id (tbl_organizations d))"
      "refs (map prof_org (tbl_profiles d1)) (map org_id (tbl_organizations d))"
      "refs (map ag_org (tbl_agents d1)) (map org_id (tbl_organizations d))"
      "refs (map perm_org (tbl_permissions d1)) (map org_id (tbl_organizations d))"
      "refs (map mem_org (tbl_members d1)) (map org_id (tbl_organizations d))"
      "refs (map inv_org (tbl_invitations d1)) (map org_id (tbl_organizations d))"
      "refs (map key_org (tbl_userApiKeys d1)) (map org_id (tbl_organizations d))"
      "refs (map clm_org (tbl_accountClaims d1)) (map org_id (tbl_organizations d))"
      using k by (simp_all add: refs_ok_def org_refs_def Let_def o)
    let ?left = "map org_id (filter (\<lambda>q. \<not> P q) (tbl_organizations d))"
    have s1: "refs (map item_org (tbl_items d1)) ?left"
      by (rule refs_survive [OF r(1) gone_def]) (simp add: g(1))
    have s2: "refs (map prof_org (tbl_profiles d1)) ?left"
      by (rule refs_survive [OF r(2) gone_def]) (simp add: g(2))
    have s3: "refs (map ag_org (tbl_agents d1)) ?left"
      by (rule refs_survive [OF r(3) gone_def]) (simp add: g(3))
    have s4: "refs (map perm_org (filter (\<lambda>x. perm_org x \<notin> set gone) (tbl_permissions d1))) ?left"
      by (rule refs_survive [OF r(4) gone_def]) simp
    have s5: "refs (map mem_org (filter (\<lambda>x. mem_org x \<notin> set gone) (tbl_members d1))) ?left"
      by (rule refs_survive [OF r(5) gone_def]) simp
    have s6: "refs (map inv_org (filter (\<lambda>x. inv_org x \<notin> set gone) (tbl_invitations d1))) ?left"
      by (rule refs_survive [OF r(6) gone_def]) simp
    have s7: "refs (map key_org (filter (\<lambda>x. key_org x \<notin> set gone) (tbl_userApiKeys d1))) ?left"
      by (rule refs_survive [OF r(7) gone_def]) simp
    have s8: "refs (map clm_org (filter (\<lambda>x. clm_org x \<notin> set gone) (tbl_accountClaims d1))) ?left"
      by (rule refs_survive [OF r(8) gone_def]) simp
    from s1 s2 s3 s4 s5 s6 s7 s8 show ?thesis by (simp add: e org_refs_def Let_def o)
  qed
  ultimately show ?thesis by (simp add: refs_ok_def)
qed

lemma refs_ok_delete_users: "refs_ok d \<Longrightarrow> refs_ok (delete_users P d)"
proof -
  assume ok: "refs_ok d"
  then have "tenant_refs (delete_users P d)"
    unfolding refs_ok_def tenant_refs_def delete_users_def refs_simps by auto
  moreover have "org_refs (delete_users P d)"
    using ok unfolding refs_ok_def org_refs_def delete_users_def refs_simps by auto
  moreover have "user_refs (delete_users P d)"
  proof -
    define gone where "gone = map usr_id (filter P (tbl_users d))"
    let ?d = "delete_users P d" and ?left = "map usr_id (filter (\<lambda>u. \<not> P u) (tbl_users d))"
    note defs = delete_users_def Let_def gone_def [symmetric]
    have r: "refs (map mem_userId (tbl_members d)) (map usr_id (tbl_users d))"
      "refs (map key_userId (tbl_userApiKeys d)) (map usr_id (tbl_users d))"
      "refs (map clm_userId (tbl_accountClaims d)) (map usr_id (tbl_users d))"
      "refs (map inv_inviterId (tbl_invitations d)) (map usr_id (tbl_users d))"
      "refs (map et_createdBy (tbl_enrollmentTokens d)) (map usr_id (tbl_users d))"
      "opt_refs (map inv_usedBy (tbl_invitations d)) (map usr_id (tbl_users d))"
      "opt_refs (map et_userId (tbl_enrollmentTokens d)) (map usr_id (tbl_users d))"
      "opt_refs (map ag_createdBy (tbl_agents d)) (map usr_id (tbl_users d))"
      "opt_refs (map item_createdBy (tbl_items d)) (map usr_id (tbl_users d))"
      "opt_refs (map ses_userId (tbl_agentSessions d)) (map usr_id (tbl_users d))"
      "opt_refs (map perm_grantedBy (tbl_permissions d)) (map usr_id (tbl_users d))"
      using ok by (simp_all add: refs_ok_def user_refs_def Let_def)
    have s1: "refs (map mem_userId (tbl_members ?d)) ?left"
      by (rule refs_survive [OF r(1) gone_def]) (auto simp: defs)
    have s2: "refs (map key_userId (tbl_userApiKeys ?d)) ?left"
      by (rule refs_survive [OF r(2) gone_def]) (auto simp: defs)
    have s3: "refs (map clm_userId (tbl_accountClaims ?d)) ?left"
      by (rule refs_survive [OF r(3) gone_def]) (auto simp: defs)
    have s4: "refs (map inv_inviterId (tbl_invitations ?d)) ?left"
      by (rule refs_survive [OF r(4) gone_def]) (auto simp: defs)
    have s5: "refs (map et_createdBy (tbl_enrollmentTokens ?d)) ?left"
      by (rule refs_survive [OF r(5) gone_def]) (auto simp: defs)
    have s6: "opt_refs (map inv_usedBy (tbl_invitations ?d)) ?left"
      by (rule refs_forget [OF r(6) gone_def]) (auto simp: defs)
    have s7: "opt_refs (map et_userId (tbl_enrollmentTokens ?d)) ?left"
      by (rule refs_forget [OF r(7) gone_def]) (auto simp: defs)
    have s8: "opt_refs (map ag_createdBy (tbl_agents ?d)) ?left"
      by (rule refs_forget [OF r(8) gone_def]) (auto simp: defs)
    have s9: "opt_refs (map item_createdBy (tbl_items ?d)) ?left"
      by (rule refs_forget [OF r(9) gone_def]) (auto simp: defs)
    have s10: "opt_refs (map ses_userId (tbl_agentSessions ?d)) ?left"
      by (rule refs_forget [OF r(10) gone_def]) (auto simp: defs)
    have s11: "opt_refs (map perm_grantedBy (tbl_permissions ?d)) ?left"
      by (rule refs_forget [OF r(11) gone_def]) (auto simp: defs)
    have "tbl_users ?d = filter (\<lambda>u. \<not> P u) (tbl_users d)" by (simp add: defs)
    then show ?thesis unfolding user_refs_def Let_def by (simp only: s1 s2 s3 s4 s5 s6 s7 s8 s9 s10 s11 simp_thms)
  qed
  ultimately show ?thesis by (simp add: refs_ok_def)
qed

end
