(* ===== verification/Json.thy ===== *)
theory Json
  imports Pagination Audit_Log
begin

text \<open>
  \<open>JSON.stringify\<close> and \<open>JSON.parse\<close> of the language, on the values the program serialises: payloads of
  items, organisation metadata, public keys. A string is its UTF-8 bytes; an escape for a lone
  surrogate reads as the replacement character, as it would after encoding. Integers are unbounded, and
  a number written with a fraction or an exponent keeps its text. Parsing has fuel for one step per
  byte, which is enough: every printed value is read back.
\<close>

section \<open>Printing\<close>

definition hex_char :: "nat \<Rightarrow> char" where
  "hex_char n = ''0123456789abcdef'' ! n"

definition escape_char :: "char \<Rightarrow> string" where
  "escape_char c =
     (if c = CHR 0x22 then [CHR 0x5C, CHR 0x22]
      else if c = CHR 0x5C then [CHR 0x5C, CHR 0x5C]
      else if c = CHR 0x08 then [CHR 0x5C, CHR ''b'']
      else if c = CHR 0x09 then [CHR 0x5C, CHR ''t'']
      else if c = CHR 0x0A then [CHR 0x5C, CHR ''n'']
      else if c = CHR 0x0C then [CHR 0x5C, CHR ''f'']
      else if c = CHR 0x0D then [CHR 0x5C, CHR ''r'']
      else if of_char c < (32::nat)
      then [CHR 0x5C, CHR ''u'', CHR ''0'', CHR ''0'', hex_char (of_char c div 16), hex_char (of_char c mod 16)]
      else [c])"

definition quote :: "string \<Rightarrow> string" where
  "quote s = CHR 0x22 # concat (map escape_char s) @ [CHR 0x22]"

fun JSON_stringify :: "json \<Rightarrow> string" and stringify_elems :: "json list \<Rightarrow> string" and
  stringify_members :: "(string \<times> json) list \<Rightarrow> string" where
  "JSON_stringify JNull = ''null''"
| "JSON_stringify (JBool b) = (if b then ''true'' else ''false'')"
| "JSON_stringify (JNum i) = decimal_int i"
| "JSON_stringify (JFrac s) = s"
| "JSON_stringify (JStr s) = quote s"
| "JSON_stringify (JArr js) = CHR ''['' # stringify_elems js @ '']''"
| "JSON_stringify (JObj ob) = CHR ''{'' # stringify_members ob @ ''}''"
| "stringify_elems [] = []"
| "stringify_elems [j] = JSON_stringify j"
| "stringify_elems (j # js) = JSON_stringify j @ '','' @ stringify_elems js"
| "stringify_members [] = []"
| "stringify_members [(k, v)] = quote k @ '':'' @ JSON_stringify v"
| "stringify_members ((k, v) # ob) = quote k @ '':'' @ JSON_stringify v @ '','' @ stringify_members ob"

section \<open>Parsing\<close>

definition is_ws :: "char \<Rightarrow> bool" where
  "is_ws c = (c \<in> {CHR 0x20, CHR 0x09, CHR 0x0A, CHR 0x0D})"

definition skip_ws :: "string \<Rightarrow> string" where
  "skip_ws s = dropWhile is_ws s"

definition hex_val :: "char \<Rightarrow> nat option" where
  "hex_val c =
     (let n = of_char c in
      if 48 \<le> n \<and> n \<le> 57 then Some (n - 48)
      else if 97 \<le> n \<and> n \<le> 102 then Some (n - 87)
      else if 65 \<le> n \<and> n \<le> 70 then Some (n - 55)
      else None)"

definition hex4 :: "char \<Rightarrow> char \<Rightarrow> char \<Rightarrow> char \<Rightarrow> nat option" where
  "hex4 a b c d = (case (hex_val a, hex_val b, hex_val c, hex_val d) of
      (Some w, Some x, Some y, Some z) \<Rightarrow> Some (((w * 16 + x) * 16 + y) * 16 + z)
    | _ \<Rightarrow> None)"

text \<open>The UTF-8 bytes of a code point.\<close>

definition utf8 :: "nat \<Rightarrow> string" where
  "utf8 n =
     (if n < 0x80 then [char_of n]
      else if n < 0x800 then [char_of (0xC0 + n div 64), char_of (0x80 + n mod 64)]
      else if n < 0x10000
      then [char_of (0xE0 + n div 4096), char_of (0x80 + n div 64 mod 64), char_of (0x80 + n mod 64)]
      else [char_of (0xF0 + n div 262144), char_of (0x80 + n div 4096 mod 64),
            char_of (0x80 + n div 64 mod 64), char_of (0x80 + n mod 64)])"

definition replacement :: string where
  "replacement = utf8 0xFFFD"

definition simple_escape :: "char \<Rightarrow> char option" where
  "simple_escape e =
     (if e \<in> {CHR 0x22, CHR 0x5C, CHR ''/''} then Some e
      else if e = CHR ''b'' then Some (CHR 0x08)
      else if e = CHR ''f'' then Some (CHR 0x0C)
      else if e = CHR ''n'' then Some (CHR 0x0A)
      else if e = CHR ''r'' then Some (CHR 0x0D)
      else if e = CHR ''t'' then Some (CHR 0x09)
      else None)"

text \<open>One code unit after a pending high surrogate: the bytes it completes and the new pending one.\<close>

definition code_unit :: "nat option \<Rightarrow> nat \<Rightarrow> string \<times> nat option" where
  "code_unit pending u =
     (if 0xDC00 \<le> u \<and> u < 0xE000 then
        (case pending of None \<Rightarrow> replacement
         | Some h \<Rightarrow> utf8 (0x10000 + (h - 0xD800) * 1024 + (u - 0xDC00)), None)
      else (let lone = (if pending = None then [] else replacement) in
        if 0xD800 \<le> u \<and> u < 0xDC00 then (lone, Some u) else (lone @ utf8 u, None)))"

definition flush_unit :: "nat option \<Rightarrow> string" where
  "flush_unit pending = (if pending = None then [] else replacement)"

definition prepend :: "string \<Rightarrow> (string \<times> string) option \<Rightarrow> (string \<times> string) option" where
  "prepend p r = map_option (\<lambda>(t, rest). (p @ t, rest)) r"

text \<open>The rest of a string literal, after its opening quote.\<close>

fun parse_chars :: "nat option \<Rightarrow> string \<Rightarrow> (string \<times> string) option" where
  "parse_chars pending [] = None"
| "parse_chars pending (c # r) =
     (if c = CHR 0x22 then Some (flush_unit pending, r)
      else if c = CHR 0x5C then
        (case r of [] \<Rightarrow> None | e # r1 \<Rightarrow>
           if e = CHR ''u'' then
             (case r1 of h1 # h2 # h3 # h4 # r2 \<Rightarrow>
                (case hex4 h1 h2 h3 h4 of None \<Rightarrow> None
                 | Some u \<Rightarrow> prepend (fst (code_unit pending u)) (parse_chars (snd (code_unit pending u)) r2))
              | _ \<Rightarrow> None)
           else (case simple_escape e of None \<Rightarrow> None
                 | Some x \<Rightarrow> prepend (flush_unit pending @ [x]) (parse_chars None r1)))
      else if of_char c < (32::nat) then None
      else prepend (flush_unit pending @ [c]) (parse_chars None r))"

text \<open>A number: \<open>-?(0|[1-9][0-9]*)(\.[0-9]+)?([eE][+-]?[0-9]+)?\<close>.\<close>

definition take_digits :: "string \<Rightarrow> string \<times> string" where
  "take_digits s = (takeWhile is_digit s, dropWhile is_digit s)"

definition parse_fraction :: "string \<Rightarrow> (string \<times> string) option" where
  "parse_fraction s = (case s of
      c # r \<Rightarrow> if c = CHR ''.'' then
          (let (ds, r') = take_digits r in if ds = [] then None else Some (c # ds, r'))
        else Some ([], s)
    | [] \<Rightarrow> Some ([], s))"

definition parse_exponent :: "string \<Rightarrow> (string \<times> string) option" where
  "parse_exponent s = (case s of
      c # r \<Rightarrow> if c \<in> set ''eE'' then
          (let sign = takeWhile (\<lambda>x. x \<in> set ''+-'') (take 1 r);
               (ds, r') = take_digits (drop (length sign) r)
           in if ds = [] then None else Some (c # sign @ ds, r'))
        else Some ([], s)
    | [] \<Rightarrow> Some ([], s))"

definition parse_number :: "string \<Rightarrow> (json \<times> string) option" where
  "parse_number s =
     (let neg = (take 1 s = ''-''); r0 = (if neg then drop 1 s else s); (ds, r1) = take_digits r0 in
      if ds = [] \<or> (hd ds = CHR ''0'' \<and> length ds > 1) then None
      else (case parse_fraction r1 of None \<Rightarrow> None | Some (fr, r2) \<Rightarrow>
            (case parse_exponent r2 of None \<Rightarrow> None | Some (ex, r3) \<Rightarrow>
              Some (if fr = [] \<and> ex = []
                    then JNum (if neg then - int (parse_decimal ds) else int (parse_decimal ds))
                    else JFrac ((if neg then ''-'' else []) @ ds @ fr @ ex), r3))))"

text \<open>Properties of an object: array indices first, in ascending order, then the others as written; a
  repeated name keeps its place and takes the new value.\<close>

definition is_index :: "string \<Rightarrow> bool" where
  "is_index k = (k \<noteq> [] \<and> list_all is_digit k \<and> decimal (parse_decimal k) = k \<and> parse_decimal k < 2 ^ 32 - 1)"

definition key_before :: "string \<Rightarrow> string \<Rightarrow> bool" where
  "key_before k k' = (is_index k \<and> (\<not> is_index k' \<or> parse_decimal k < parse_decimal k'))"

definition put_member :: "string \<Rightarrow> json \<Rightarrow> json_object \<Rightarrow> json_object" where
  "put_member k v ob =
     (if k \<in> fst ` set ob then obj_set k v ob
      else takeWhile (\<lambda>e. \<not> key_before k (fst e)) ob @ (k, v) # dropWhile (\<lambda>e. \<not> key_before k (fst e)) ob)"

definition literal :: "string \<Rightarrow> json \<Rightarrow> string \<Rightarrow> (json \<times> string) option" where
  "literal w j s = (if take (length w) s = w then Some (j, drop (length w) s) else None)"

fun parse_value :: "nat \<Rightarrow> string \<Rightarrow> (json \<times> string) option" and
  parse_elems :: "nat \<Rightarrow> string \<Rightarrow> (json list \<times> string) option" and
  parse_members :: "nat \<Rightarrow> json_object \<Rightarrow> string \<Rightarrow> (json_object \<times> string) option" where
  "parse_value 0 s = None"
| "parse_value (Suc n) s =
     (case skip_ws s of
        [] \<Rightarrow> None
      | c # r \<Rightarrow>
        if c = CHR 0x22 then map_option (\<lambda>(t, r'). (JStr t, r')) (parse_chars None r)
        else if c = CHR ''['' then
          (if take 1 (skip_ws r) = '']'' then Some (JArr [], drop 1 (skip_ws r))
           else map_option (\<lambda>(js, r'). (JArr js, r')) (parse_elems n r))
        else if c = CHR ''{'' then
          (if take 1 (skip_ws r) = ''}'' then Some (JObj [], drop 1 (skip_ws r))
           else map_option (\<lambda>(ob, r'). (JObj ob, r')) (parse_members n [] r))
        else if c = CHR ''t'' then literal ''true'' (JBool True) (c # r)
        else if c = CHR ''f'' then literal ''false'' (JBool False) (c # r)
        else if c = CHR ''n'' then literal ''null'' JNull (c # r)
        else parse_number (c # r))"
| "parse_elems 0 s = None"
| "parse_elems (Suc n) s =
     (case parse_value n s of None \<Rightarrow> None | Some (j, r) \<Rightarrow>
        (case skip_ws r of
           [] \<Rightarrow> None
         | c # r' \<Rightarrow> if c = CHR '']'' then Some ([j], r')
             else if c = CHR '','' then map_option (\<lambda>(js, q). (j # js, q)) (parse_elems n r')
             else None))"
| "parse_members 0 ob s = None"
| "parse_members (Suc n) ob s =
     (case skip_ws s of [] \<Rightarrow> None | c # r \<Rightarrow>
        if c \<noteq> CHR 0x22 then None
        else (case parse_chars None r of None \<Rightarrow> None | Some (k, r1) \<Rightarrow>
          if take 1 (skip_ws r1) \<noteq> '':'' then None
          else (case parse_value n (drop 1 (skip_ws r1)) of None \<Rightarrow> None | Some (v, r2) \<Rightarrow>
            (case skip_ws r2 of
               [] \<Rightarrow> None
             | c' # r3 \<Rightarrow> if c' = CHR ''}'' then Some (put_member k v ob, r3)
                 else if c' = CHR '','' then parse_members n (put_member k v ob) r3
                 else None))))"

text \<open>\<open>None\<close> stands for the \<open>SyntaxError\<close>.\<close>

definition JSON_parse :: "string \<Rightarrow> json option" where
  "JSON_parse s = (case parse_value (Suc (length s)) s of
      Some (j, r) \<Rightarrow> if skip_ws r = [] then Some j else None
    | None \<Rightarrow> None)"

section \<open>Round trip\<close>

lemma escape_plain:
  "32 \<le> (of_char c :: nat) \<Longrightarrow> c \<noteq> CHR 0x22 \<Longrightarrow> c \<noteq> CHR 0x5C \<Longrightarrow> escape_char c = [c]"
  by (auto simp: escape_char_def)

lemma hex_vals: "list_all (\<lambda>n. hex_val (hex_char n) = Some n) [0..<16]"
  by code_simp

lemma hex_val_char [simp]: "n < 16 \<Longrightarrow> hex_val (hex_char n) = Some n"
  using hex_vals by (simp add: list_all_iff)

lemma code_unit_small: "u < 128 \<Longrightarrow> code_unit None u = ([char_of u], None)"
  by (simp add: code_unit_def utf8_def)

lemma parse_escaped:
  "parse_chars None (escape_char c @ r) = prepend [c] (parse_chars None r)"
proof -
  consider "c = CHR 0x22" | "c = CHR 0x5C" | "c = CHR 0x08" | "c = CHR 0x09" | "c = CHR 0x0A" | "c = CHR 0x0C"
    | "c = CHR 0x0D" | "c \<notin> {CHR 0x22, CHR 0x5C, CHR 0x08, CHR 0x09, CHR 0x0A, CHR 0x0C, CHR 0x0D}" by blast
  then show ?thesis
  proof cases
    case 8
    show ?thesis
    proof (cases "of_char c < (32::nat)")
      case True
      then have "hex4 (CHR ''0'') (CHR ''0'') (hex_char (of_char c div 16)) (hex_char (of_char c mod 16)) =
          Some (of_char c)"
        using hex_val_char [of "of_char c div 16"] hex_val_char [of "of_char c mod 16"]
        by (simp add: hex4_def hex_val_def)
      with 8 True show ?thesis by (simp add: escape_char_def code_unit_small)
    next
      case False
      with 8 show ?thesis by (simp add: escape_char_def flush_unit_def)
    qed
  qed (simp_all add: escape_char_def simple_escape_def flush_unit_def)
qed

lemma parse_quoted: "parse_chars None (concat (map escape_char s) @ CHR 0x22 # r) = Some (s, r)"
  by (induction s) (simp_all add: flush_unit_def parse_escaped prepend_def)

text \<open>What may follow a value: nothing a number could continue with.\<close>

definition stops :: "string \<Rightarrow> bool" where
  "stops r = (r = [] \<or> (\<not> is_digit (hd r) \<and> hd r \<notin> set ''.eE''))"

lemma stops_simps [simp]:
  "stops []" "stops (CHR '']'' # r)" "stops (CHR '','' # r)" "stops (CHR ''}'' # r)"
  by (simp_all add: stops_def is_digit_def)

lemma decimal_head: "0 < n \<Longrightarrow> hd (decimal n) \<noteq> CHR ''0''"
proof (induction n rule: decimal.induct)
  case (1 n)
  show ?case
  proof (cases "n < 10")
    case True
    with 1 digit_cases [OF True] show ?thesis by (subst decimal.simps) (auto simp: digit_char_def)
  next
    case False
    with 1 have "hd (decimal (n div 10)) \<noteq> CHR ''0''" by simp
    with False decimal_digits [of "n div 10"] show ?thesis by (subst decimal.simps) (simp add: hd_append)
  qed
qed

lemma take_digits_decimal: "stops r \<Longrightarrow> take_digits (decimal n @ r) = (decimal n, r)"
  using decimal_digits [of n]
  by (cases r) (auto simp: take_digits_def stops_def list_all_iff takeWhile_append dropWhile_append)

lemma decimal_no_leading_zero: "\<not> (hd (decimal n) = CHR ''0'' \<and> length (decimal n) > 1)"
proof (cases "n = 0")
  case True
  then show ?thesis by (subst (2) decimal.simps) simp
qed (simp add: decimal_head)

lemma parse_digits:
  assumes "stops r"
  shows "parse_number (decimal n @ r) = Some (JNum (int n), r)"
    "parse_number (CHR ''-'' # decimal n @ r) = Some (JNum (- int n), r)"
proof -
  have d: "decimal n \<noteq> []" "is_digit (hd (decimal n))"
    using decimal_digits [of n] by (auto simp: list_all_iff)
  then have h: "take 1 (decimal n @ r) \<noteq> ''-''"
    by (cases "decimal n") (auto simp: is_digit_def)
  have f: "parse_fraction r = Some ([], r)" "parse_exponent r = Some ([], r)"
    using assms by (auto simp: stops_def parse_fraction_def parse_exponent_def split: list.splits)
  show "parse_number (decimal n @ r) = Some (JNum (int n), r)"
    using h d f decimal_no_leading_zero [of n]
    by (simp add: parse_number_def take_digits_decimal [OF assms] Let_def)
  show "parse_number (CHR ''-'' # decimal n @ r) = Some (JNum (- int n), r)"
    using d f decimal_no_leading_zero [of n]
    by (simp add: parse_number_def take_digits_decimal [OF assms] Let_def)
qed

text \<open>The values \<open>JSON.parse\<close> produces, but for fractions: the names of an object are distinct and in order.\<close>

fun wf_json :: "json \<Rightarrow> bool" where
  "wf_json (JFrac s) = False"
| "wf_json (JArr js) = list_all wf_json js"
| "wf_json (JObj ob) = (foldl (\<lambda>a (k, v). put_member k v a) [] ob = ob \<and> list_all (\<lambda>(k, v). wf_json v) ob)"
| "wf_json j = True"

lemma decimal_int_head:
  obtains c r where "decimal_int i = c # r" "c = CHR ''-'' \<or> is_digit c"
proof -
  have "decimal n \<noteq> [] \<and> is_digit (hd (decimal n))" for n
    using decimal_digits [of n] by (auto simp: list_all_iff)
  then show ?thesis
    using that by (cases "decimal_int i") (auto simp: decimal_int_def split: if_splits, (metis list.sel(1))+)
qed

lemma skip_ws_simps [simp]:
  "skip_ws (CHR 0x22 # r) = CHR 0x22 # r" "skip_ws (CHR ''['' # r) = CHR ''['' # r"
  "skip_ws (CHR ''{'' # r) = CHR ''{'' # r" "skip_ws (CHR '']'' # r) = CHR '']'' # r"
  "skip_ws (CHR ''}'' # r) = CHR ''}'' # r" "skip_ws (CHR '','' # r) = CHR '','' # r"
  "skip_ws (CHR '':'' # r) = CHR '':'' # r" "skip_ws (CHR ''t'' # r) = CHR ''t'' # r"
  "skip_ws (CHR ''f'' # r) = CHR ''f'' # r" "skip_ws (CHR ''n'' # r) = CHR ''n'' # r"
  "skip_ws (CHR ''-'' # r) = CHR ''-'' # r" "skip_ws [] = []"
  by (simp_all add: skip_ws_def is_ws_def)

lemma skip_ws_digit: "is_digit c \<Longrightarrow> skip_ws (c # r) = c # r"
  by (auto simp: skip_ws_def is_ws_def is_digit_def)

text \<open>A printed value starts with a character that is neither white space nor a closing bracket.\<close>

lemma stringify_head:
  assumes "wf_json j"
  obtains c r where "JSON_stringify j = c # r" "\<And>t. skip_ws (c # t) = c # t" "c \<noteq> CHR '']''"
proof (cases j)
  case (JNum i)
  obtain c r where "decimal_int i = c # r" "c = CHR ''-'' \<or> is_digit c" by (rule decimal_int_head)
  with JNum show ?thesis by (intro that) (auto simp: skip_ws_digit is_digit_def)
next
  case (JBool b)
  then show ?thesis by (cases b) (auto intro: that)
qed (use assms in \<open>auto simp: quote_def intro: that\<close>)

lemma stringify_elems_head:
  assumes "wf_json j"
  obtains c r where "stringify_elems (j # js) = c # r" "\<And>t. skip_ws (c # t) = c # t" "c \<noteq> CHR '']''"
  using assms by (rule stringify_head, cases js) auto

lemma parse_int:
  assumes "stops r"
  shows "parse_value (Suc n) (decimal_int i @ r) = Some (JNum i, r)"
proof -
  obtain c s where c: "decimal_int i = c # s" "c = CHR ''-'' \<or> is_digit c" by (rule decimal_int_head)
  have "parse_number (decimal_int i @ r) = Some (JNum i, r)"
    using parse_digits [OF assms, of "nat i"] parse_digits [OF assms, of "nat (- i)"]
    by (simp add: decimal_int_def)
  with c show ?thesis by (auto simp: skip_ws_digit is_digit_def)
qed

lemma parse_stringify_parts:
  "wf_json j \<Longrightarrow> length (JSON_stringify j) \<le> n \<Longrightarrow> stops r \<Longrightarrow>
     parse_value (Suc n) (JSON_stringify j @ r) = Some (j, r)"
  "list_all wf_json js \<Longrightarrow> js \<noteq> [] \<Longrightarrow> length (stringify_elems js) < n \<Longrightarrow>
     parse_elems (Suc n) (stringify_elems js @ CHR '']'' # r) = Some (js, r)"
  "list_all (\<lambda>(k, v). wf_json v) ob \<Longrightarrow> ob \<noteq> [] \<Longrightarrow> length (stringify_members ob) < n \<Longrightarrow>
     parse_members (Suc n) acc (stringify_members ob @ CHR ''}'' # r) =
       Some (foldl (\<lambda>a (k, v). put_member k v a) acc ob, r)"
proof (induction j and js and ob arbitrary: n r and n r and n r acc
    rule: JSON_stringify_stringify_elems_stringify_members.induct)
  case (3 i)
  then show ?case using parse_int [of r n i] by (simp del: parse_value.simps)
next
  case (5 s)
  then show ?case by (simp add: quote_def parse_quoted)
next
  case (6 js)
  show ?case
  proof (cases js)
    case (Cons j js')
    with 6 obtain m where m: "n = Suc m" "length (stringify_elems js) < m" by (cases n) auto
    have "wf_json j" using 6 Cons by simp
    then obtain c q where c: "stringify_elems js = c # q" "skip_ws (c # q @ CHR '']'' # r) = c # q @ CHR '']'' # r"
      "c \<noteq> CHR '']''"
      unfolding Cons by (rule stringify_elems_head) blast
    have "parse_elems (Suc m) (stringify_elems js @ CHR '']'' # r) = Some (js, r)"
      using 6 m Cons by simp
    with c m(1) show ?thesis by simp
  qed simp
next
  case (7 ob)
  show ?case
  proof (cases ob)
    case (Cons e ob')
    with 7 obtain m where m: "n = Suc m" "length (stringify_members ob) < m" by (cases n) auto
    obtain q where "stringify_members ob @ CHR ''}'' # r = CHR 0x22 # q"
      using Cons by (cases e; cases ob') (auto simp: quote_def)
    moreover have "parse_members (Suc m) [] (stringify_members ob @ CHR ''}'' # r) =
        Some (foldl (\<lambda>a (k, v). put_member k v a) [] ob, r)"
      by (rule 7(1)) (use 7 m Cons in simp_all)
    ultimately show ?thesis using m(1) 7(2) by (simp del: parse_members.simps)
  qed simp
next
  case (9 j)
  then obtain m where "n = Suc m" "length (JSON_stringify j) \<le> m" by (cases n) auto
  with 9 show ?case by simp
next
  case (10 j j' js)
  then obtain m where m: "n = Suc m" "length (JSON_stringify j) \<le> m" "length (stringify_elems (j' # js)) < m"
    by (cases n) auto
  with 10 show ?case by simp
next
  case (12 k v)
  then obtain m where "n = Suc m" "length (JSON_stringify v) \<le> m" by (cases n) auto
  with 12 show ?case by (simp add: quote_def parse_quoted)
next
  case (13 k v e ob)
  then obtain m where m: "n = Suc m" "length (JSON_stringify v) \<le> m" "length (stringify_members (e # ob)) < m"
    by (cases n) (auto simp: quote_def)
  with 13 show ?case by (simp add: quote_def parse_quoted)
qed (simp_all add: literal_def)

lemma parse_stringify: "wf_json j \<Longrightarrow> JSON_parse (JSON_stringify j) = Some j"
  using parse_stringify_parts(1) [of j "length (JSON_stringify j)" "[]"] by (simp add: JSON_parse_def)

end
