(* ===== verification/Store_Invariant.thy ===== *)
theory Store_Invariant
  imports Roles
begin

text \<open>
  Invariants of the database, as a contract: a predicate on the store that does not look at the audit
  trail is kept by whatever only reads, logs or draws a value; a statement keeps it if its effect does; a
  transaction keeps it if its body does when it succeeds, since a failure restores the store. A
  handler keeps the invariant when its parts do.
\<close>

definition preserves :: "(db \<Rightarrow> bool) \<Rightarrow> world \<Rightarrow> world \<Rightarrow> bool" where
  "preserves P w w' \<longleftrightarrow> (P (store w) \<longrightarrow> P (store w'))"

lemma preserves_refl [simp]: "reflp (preserves P)"
  by (rule reflpI) (simp add: preserves_def)

lemma preserves_trans [simp]: "transp (preserves P)"
  by (rule transpI) (simp add: preserves_def)

lemma preservesD: "keeps (preserves P) m \<Longrightarrow> m w = (r, w') \<Longrightarrow> P (store w) \<Longrightarrow> P (store w')"
  by (drule (1) keepsD) (simp add: preserves_def)

lemma keeps_preserves_same: "keeps same_store m \<Longrightarrow> keeps (preserves P) m"
  by (simp add: keeps_def preserves_def same_store_def)

lemma keeps_preserves_statement:
  "(\<And>d x d'. P d \<Longrightarrow> f d = Inr (x, d') \<Longrightarrow> P d') \<Longrightarrow> keeps (preserves P) (statement f)"
  by (auto simp: keeps_def preserves_def statement_def split: option.split sum.split)

lemma keeps_preserves_modify: "(\<And>d. P d \<Longrightarrow> P (u d)) \<Longrightarrow> keeps (preserves P) (modify u)"
  by (auto simp: modify_def intro: keeps_preserves_statement)

lemma keeps_catch_all:
  assumes "transp R" "keeps R m" "\<And>e. keeps R (h e)"
  shows "keeps R (catch_all m h)"
proof (rule keepsI)
  fix w
  obtain r w1 where m: "m w = (r, w1)" by (cases "m w")
  with assms(2) have R1: "R w w1" by (rule keepsD)
  show "R w (snd (catch_all m h w))"
  proof (cases r)
    case (Inl e)
    have "R w1 (snd (h e w1))" using assms(3) by (simp add: keeps_def)
    with m R1 Inl assms(1) show ?thesis by (auto simp: catch_all_def dest: transpD)
  next
    case (Inr x)
    with m R1 show ?thesis by (simp add: catch_all_def)
  qed
qed

lemmas keeps_preserves_catch = keeps_catch_all [OF preserves_trans]

text \<open>Only the outcome of a successful body counts.\<close>

lemma keeps_preserves_transaction:
  assumes "\<And>w x w'. body w = (Inr x, w') \<Longrightarrow> P (store w) \<Longrightarrow> P (store w')"
  shows "keeps (preserves P) (transaction body)"
  using assms
  by (auto simp: keeps_def preserves_def transaction_def statement_def split: prod.split sum.split option.split)

lemma keeps_preserves_transaction_of:
  "keeps (preserves P) body \<Longrightarrow> keeps (preserves P) (transaction body)"
  by (rule keeps_preserves_transaction) (rule preservesD)

lemmas preserves_parts = keeps_andThen [OF preserves_trans] keeps_followed_by [OF preserves_trans]
  keeps_tap_error [OF preserves_trans] keeps_for_each [OF preserves_refl preserves_trans]
  keeps_succeed [OF preserves_refl] keeps_fail [OF preserves_refl]

locale db_invariant =
  fixes P :: "db \<Rightarrow> bool"
  assumes blind: "P (d\<lparr>tbl_auditLogs := as\<rparr>) = P d"
begin

lemma keeps_audits: "keeps (audits_where Q) m \<Longrightarrow> keeps (preserves P) m"
  unfolding keeps_def preserves_def using blind by (metis audits_whereE)

lemma keeps_insert: "keeps (preserves P) (insert_audit rs)"
  unfolding insert_audit_def by (rule keeps_preserves_statement) (auto simp: insert_audits_def blind)

lemma keeps_session_log: "keeps (preserves P) (logSessionAudit e)"
  by (rule keeps_audits [of "\<lambda>_. True"]) (rule session_log.keeps_log_where, simp)

lemma keeps_denied: "keeps (preserves P) (auditDeniedSession f x)"
  unfolding auditDeniedSession_def by (intro preserves_parts keeps_session_log)

lemma keeps_forbidden: "keeps same_store m \<Longrightarrow> keeps (preserves P) (forbidden_logged e m)"
  unfolding forbidden_logged_def
  by (rule keeps_tap_error [OF preserves_trans keeps_preserves_same]) (simp_all add: keeps_session_log preserves_parts)

lemma keeps_role: "keeps (preserves P) (requireOrgRole t u r)"
  by (rule keeps_preserves_same) (rule keeps_requireOrgRole)

lemma keeps_reads:
  "keeps (preserves P) (select q)" "keeps (preserves P) new_Date" "keeps (preserves P) randomUUID"
  by (auto intro: keeps_preserves_same)

lemmas keeps_parts = preserves_parts keeps_reads keeps_role keeps_session_log keeps_denied keeps_insert
  keeps_forbidden [OF keeps_requireOrgRole]

end

end
