(* ===== verification/Profiles.thy ===== *)
theory Profiles
  imports Members Foreign_Keys Json Store_Invariant
begin

text \<open>
  Profiles (\<open>packages/trpc/src/server/routers/profiles.ts\<close>): creation with the cap of personal
  accounts, bootstrap, change of password, recovery, rotation of the root key with the rewrapped keys of
  all items, deletion. The invariant: the keys of the live zero-knowledge items of a profile are wrapped
  under its current key version. An advisory lock is a statement that changes nothing; requests are
  run one at a time.
\<close>

section \<open>Rows\<close>

text \<open>The unique indexes of the table.\<close>

definition prof_clash :: "profile_row \<Rightarrow> profile_row \<Rightarrow> bool" where
  "prof_clash p q =
     (prof_id p = prof_id q \<or> (prof_org p = prof_org q \<and> prof_name p = prof_name q) \<or>
      (prof_org p = prof_org q \<and> prof_externalId p \<noteq> None \<and> prof_externalId p = prof_externalId q))"

definition insert_profiles :: "profile_row list \<Rightarrow> db \<Rightarrow> err + (unit \<times> db)" where
  "insert_profiles rs d =
     (if \<not> batch_ok prof_clash (tbl_profiles d) rs then Inl (DbErr ''23505'')
      else Inr ((), d\<lparr>tbl_profiles := tbl_profiles d @ rs\<rparr>))"

text \<open>\<open>UPDATE profiles SET ... WHERE ... RETURNING\<close>.\<close>

definition update_profiles ::
  "(profile_row \<Rightarrow> bool) \<Rightarrow> (profile_row \<Rightarrow> profile_row) \<Rightarrow> db \<Rightarrow> profile_row list \<times> db" where
  "update_profiles hit upd d =
     (map upd (filter hit (tbl_profiles d)),
      d\<lparr>tbl_profiles := map (\<lambda>p. if hit p then upd p else p) (tbl_profiles d)\<rparr>)"

definition update_items :: "(item_row \<Rightarrow> bool) \<Rightarrow> (item_row \<Rightarrow> item_row) \<Rightarrow> db \<Rightarrow> item_row list \<times> db" where
  "update_items hit upd d =
     (map upd (filter hit (tbl_items d)),
      d\<lparr>tbl_items := map (\<lambda>i. if hit i then upd i else i) (tbl_items d)\<rparr>)"

definition updating :: "(db \<Rightarrow> 'r list \<times> db) \<Rightarrow> 'r list server" where
  "updating u = statement (\<lambda>d. Inr (u d))"

definition advisory_lock :: "unit server" where
  "advisory_lock = statement (\<lambda>d. Inr ((), d))"

text \<open>What a caller sees of a profile: none of the server's key material.\<close>

record profile_view =
  pv_id :: string
  pv_org :: string
  pv_name :: string
  pv_externalId :: "string option"
  pv_description :: "string option"
  pv_storageMode :: storage_mode
  pv_wrappedRootKey :: "string option"
  pv_kdfSalt :: "string option"
  pv_kdfParams :: "json option"
  pv_recoveryWrappedRootKey :: "string option"
  pv_keyVersion :: int
  pv_createdAt :: int
  pv_updatedAt :: int

definition serializeProfile :: "profile_row \<Rightarrow> profile_view" where
  "serializeProfile p =
     \<lparr>pv_id = prof_id p, pv_org = prof_org p, pv_name = prof_name p, pv_externalId = prof_externalId p,
      pv_description = prof_description p, pv_storageMode = prof_storageMode p,
      pv_wrappedRootKey = prof_wrappedRootKey p, pv_kdfSalt = prof_kdfSalt p, pv_kdfParams = prof_kdfParams p,
      pv_recoveryWrappedRootKey = prof_recoveryWrappedRootKey p, pv_keyVersion = prof_keyVersion p,
      pv_createdAt = prof_createdAt p, pv_updatedAt = prof_updatedAt p\<rparr>"

section \<open>Loading\<close>

definition load_profile_as :: "string \<Rightarrow> session_ctx \<Rightarrow> string \<Rightarrow> audit_event \<Rightarrow> profile_row server" where
  "load_profile_as minRole sx profileId ev =
     andThen (select (org_profile (sx_orgId sx) profileId)) (\<lambda>found.
       case found of
         None \<Rightarrow> auditDeniedSession ((denied (sx_orgId sx) (Some (sx_userId sx)) ev ''not_found'')
             \<lparr>df_profileId := Some profileId, df_ipAddress := sx_ip sx\<rparr>) (notFound ''PROFILE_NOT_FOUND'')
       | Some profile \<Rightarrow>
           followed_by (forbidden_logged ((entry (sx_orgId sx) (Some (sx_userId sx)) ev Denied)
               \<lparr>ae_profileId := Some profileId, ae_ipAddress := sx_ip sx,
                ae_meta := Some [(''reason'', JStr ''insufficient_role'')]\<rparr>)
               (requireOrgRole (prof_org profile) (sx_userId sx) minRole))
             (succeed profile))"

definition loadProfile :: "session_ctx \<Rightarrow> string \<Rightarrow> audit_event \<Rightarrow> profile_row server" where
  "loadProfile = load_profile_as ''member''"

definition loadProfileForWrite :: "session_ctx \<Rightarrow> string \<Rightarrow> audit_event \<Rightarrow> profile_row server" where
  "loadProfileForWrite = load_profile_as ''admin''"

section \<open>Creating\<close>

definition ORG_TYPE_PERSONAL :: string where
  "ORG_TYPE_PERSONAL = ''personal''"

definition isPersonalOrg :: "string option \<Rightarrow> bool" where
  "isPersonalOrg metadata =
     (if falsy metadata then False
      else (case JSON_parse (orElse metadata []) of
          Some (JObj ob) \<Rightarrow> map_of ob ''type'' = Some (JStr ORG_TYPE_PERSONAL)
        | _ \<Rightarrow> False))"

definition org_metadata_of :: "string \<Rightarrow> db \<Rightarrow> string option" where
  "org_metadata_of orgId d =
     (case find (\<lambda>q. org_id q = orgId) (tbl_organizations d) of
        None \<Rightarrow> None | Some q \<Rightarrow> org_metadata q)"

definition assertPersonalProfileCap :: "string \<Rightarrow> unit server" where
  "assertPersonalProfileCap orgId =
     andThen (select (org_metadata_of orgId)) (\<lambda>metadata.
       if \<not> isPersonalOrg metadata then succeed ()
       else followed_by advisory_lock
         (andThen (select (\<lambda>d. findFirst prof_org orgId (\<lambda>_. True) (tbl_profiles d))) (\<lambda>existing.
            if existing \<noteq> None then fail_with (DomainErr ConflictError ''PROFILE_LIMIT_EXCEEDED'' [])
            else succeed ())))"

record create_profile_input =
  cf_orgId :: string
  cf_name :: string
  cf_description :: "string option"
  cf_externalId :: "string option"
  cf_storageMode :: storage_mode

definition new_profile :: "create_profile_input \<Rightarrow> string \<Rightarrow> int \<Rightarrow> profile_row" where
  "new_profile inp i now =
     \<lparr>prof_id = i, prof_org = cf_orgId inp, prof_name = cf_name inp,
      prof_description = cf_description inp, prof_externalId = cf_externalId inp,
      prof_storageMode = cf_storageMode inp, prof_wrappedRootKey = None, prof_kdfSalt = None,
      prof_kdfParams = None, prof_recoveryWrappedRootKey = None, prof_serverWrappedDek = None,
      prof_serverEncryptionCount = 0, prof_keyVersion = 1, prof_createdAt = now, prof_updatedAt = now\<rparr>"

text \<open>Translate a unique violation, and nothing else.\<close>

definition on_unique_violation :: "err \<Rightarrow> 'a server \<Rightarrow> 'a server" where
  "on_unique_violation x m = catch_all m (\<lambda>e. if e = DbErr ''23505'' then fail_with x else fail_with e)"

definition createProfile :: "session_ctx \<Rightarrow> create_profile_input \<Rightarrow> profile_view server" where
  "createProfile sx inp =
     followed_by (requireOrgRole (cf_orgId inp) (sx_userId sx) ''admin'')
     (andThen randomUUID (\<lambda>i. andThen new_Date (\<lambda>now.
      andThen (transaction
        (followed_by (assertPersonalProfileCap (cf_orgId inp))
        (followed_by (on_unique_violation (DomainErr ConflictError ''PROFILE_ALREADY_EXISTS'' [])
            (statement (insert_profiles [new_profile inp i now])))
          (select (org_profile (cf_orgId inp) i))))) (\<lambda>created.
      case created of
        None \<Rightarrow> fail_with (notFound ''PROFILE_NOT_FOUND'')
      | Some p \<Rightarrow>
          followed_by (logSessionAudit ((entry (cf_orgId inp) (Some (sx_userId sx)) Ev_profile_create Allowed)
            \<lparr>ae_profileId := Some i, ae_ipAddress := sx_ip sx\<rparr>))
            (succeed (serializeProfile p))))))"

definition listProfiles :: "session_ctx \<Rightarrow> string \<Rightarrow> profile_view list server" where
  "listProfiles sx orgId =
     followed_by (requireOrgRole orgId (sx_userId sx) ''member'')
       (andThen (select (\<lambda>d. findMany prof_org orgId (\<lambda>_. True) (tbl_profiles d))) (\<lambda>rows.
          succeed (map serializeProfile rows)))"

definition getProfile :: "session_ctx \<Rightarrow> string \<Rightarrow> profile_view server" where
  "getProfile sx profileId =
     andThen (loadProfile sx profileId Ev_profile_read) (\<lambda>p. succeed (serializeProfile p))"

section \<open>Key material\<close>

record root_key_input =
  rk_profileId :: string
  rk_wrappedRootKey :: string
  rk_kdfSalt :: string
  rk_kdfParams :: json

definition set_root_key :: "root_key_input \<Rightarrow> int \<Rightarrow> profile_row \<Rightarrow> profile_row" where
  "set_root_key inp now p = p\<lparr>prof_wrappedRootKey := Some (rk_wrappedRootKey inp),
     prof_kdfSalt := Some (rk_kdfSalt inp), prof_kdfParams := Some (rk_kdfParams inp), prof_updatedAt := now\<rparr>"

definition profile_audit :: "session_ctx \<Rightarrow> string \<Rightarrow> audit_event \<Rightarrow> string option \<Rightarrow> json_object option \<Rightarrow> audit_entry" where
  "profile_audit sx orgId ev profileId meta = (entry orgId (Some (sx_userId sx)) ev Allowed)
     \<lparr>ae_profileId := profileId, ae_ipAddress := sx_ip sx, ae_meta := meta\<rparr>"

definition bootstrapProfile :: "session_ctx \<Rightarrow> root_key_input \<Rightarrow> unit server" where
  "bootstrapProfile sx inp =
     andThen (loadProfileForWrite sx (rk_profileId inp) Ev_profile_bootstrap) (\<lambda>profile.
     andThen new_Date (\<lambda>now.
     andThen (updating (update_profiles
        (\<lambda>p. prof_id p = rk_profileId inp \<and> prof_wrappedRootKey p = None \<and> orgScope prof_org (prof_org profile) p)
        (set_root_key inp now))) (\<lambda>updated.
     if updated = [] then fail_with (DomainErr ConflictError ''PROFILE_ALREADY_EXISTS'' [])
     else logSessionAudit (profile_audit sx (prof_org profile) Ev_profile_bootstrap None
        (Some [(''profileId'', JStr (rk_profileId inp)), (''orgId'', JStr (prof_org profile))])))))"

definition changeProfilePassword :: "session_ctx \<Rightarrow> root_key_input \<Rightarrow> unit server" where
  "changeProfilePassword sx inp =
     andThen (loadProfileForWrite sx (rk_profileId inp) Ev_profile_rotate) (\<lambda>profile.
     if falsy (prof_wrappedRootKey profile) then fail_with (notFound ''PROFILE_NOT_FOUND'')
     else andThen new_Date (\<lambda>now.
     followed_by (updating (update_profiles
        (\<lambda>p. prof_id p = rk_profileId inp \<and> orgScope prof_org (prof_org profile) p)
        (set_root_key inp now)))
       (logSessionAudit (profile_audit sx (prof_org profile) Ev_profile_rotate None
          (Some [(''profileId'', JStr (rk_profileId inp))])))))"

definition setupProfileRecovery :: "session_ctx \<Rightarrow> string \<Rightarrow> string \<Rightarrow> unit server" where
  "setupProfileRecovery sx profileId recoveryWrappedRootKey =
     andThen (loadProfileForWrite sx profileId Ev_profile_setup_recovery) (\<lambda>profile.
     if falsy (prof_wrappedRootKey profile) then fail_with (notFound ''PROFILE_NOT_FOUND'')
     else andThen new_Date (\<lambda>now.
     followed_by (updating (update_profiles
        (\<lambda>p. prof_id p = profileId \<and> orgScope prof_org (prof_org profile) p)
        (\<lambda>p. p\<lparr>prof_recoveryWrappedRootKey := Some recoveryWrappedRootKey, prof_updatedAt := now\<rparr>)))
       (logSessionAudit (profile_audit sx (prof_org profile) Ev_profile_setup_recovery (Some profileId) None))))"

section \<open>Rotation\<close>

record rekeyed_item =
  ri_itemId :: string
  ri_encryptedItemKey :: string

record rotate_input =
  ro_profileId :: string
  ro_wrappedRootKey :: string
  ro_recoveryWrappedRootKey :: "string option"
  ro_rekeyedItems :: "rekeyed_item list"

definition zk_items_in_profile :: "string \<Rightarrow> string \<Rightarrow> db \<Rightarrow> item_row list" where
  "zk_items_in_profile orgId profileId d =
     filter (\<lambda>i. orgScope item_org orgId i \<and> item_profileId i = Some profileId \<and>
        item_storageMode i = Zero_knowledge \<and> item_deletedAt i = None) (tbl_items d)"

definition rekey_item :: "string \<Rightarrow> string \<Rightarrow> int \<Rightarrow> rekeyed_item \<Rightarrow> unit server" where
  "rekey_item orgId profileId nextKeyVersion r =
     andThen new_Date (\<lambda>now.
       andThen (updating (update_items
         (\<lambda>i. item_id i = ri_itemId r \<and> item_profileId i = Some profileId \<and> orgScope item_org orgId i)
         (\<lambda>i. i\<lparr>item_encryptedItemKey := Some (ri_encryptedItemKey r),
               item_cryptoVersion := nextKeyVersion, item_updatedAt := now\<rparr>))) (\<lambda>_. succeed ()))"

definition new_root_key :: "rotate_input \<Rightarrow> profile_row \<Rightarrow> int \<Rightarrow> profile_row \<Rightarrow> profile_row" where
  "new_root_key inp locked now p = p\<lparr>prof_wrappedRootKey := Some (ro_wrappedRootKey inp),
     prof_recoveryWrappedRootKey :=
       (case ro_recoveryWrappedRootKey inp of None \<Rightarrow> prof_recoveryWrappedRootKey locked | Some k \<Rightarrow> Some k),
     prof_keyVersion := prof_keyVersion locked + 1, prof_updatedAt := now\<rparr>"

text \<open>The body of the transaction, under the lock.\<close>

definition rotate_rows :: "string \<Rightarrow> rotate_input \<Rightarrow> int server" where
  "rotate_rows orgId inp =
     followed_by advisory_lock
     (andThen (select (org_profile orgId (ro_profileId inp))) (\<lambda>found.
      case found of
        None \<Rightarrow> fail_with (notFound ''PROFILE_NOT_FOUND'')
      | Some locked \<Rightarrow>
        if falsy (prof_wrappedRootKey locked) then fail_with (notFound ''PROFILE_NOT_FOUND'')
        else andThen (select (zk_items_in_profile orgId (ro_profileId inp))) (\<lambda>zkItems.
        let missing = filter (\<lambda>i. item_id i \<notin> set (map ri_itemId (ro_rekeyedItems inp))) zkItems in
        if missing \<noteq> [] then fail_with (DomainErr BadRequestError ''ROTATE_KEY_INCOMPLETE''
            [(''missingItemIds'', JArr (map (\<lambda>i. JStr (item_id i)) missing))])
        else andThen new_Date (\<lambda>now.
        andThen (updating (update_profiles
          (\<lambda>p. prof_id p = ro_profileId inp \<and> prof_keyVersion p = prof_keyVersion locked \<and> orgScope prof_org orgId p)
          (new_root_key inp locked now))) (\<lambda>updated.
        if updated = [] then fail_with (DomainErr ConflictError ''CONFLICT'' [])
        else followed_by
          (for_each (rekey_item orgId (ro_profileId inp) (prof_keyVersion locked + 1)) (ro_rekeyedItems inp))
          (succeed (prof_keyVersion locked + 1)))))))"

definition rotateProfileKey :: "session_ctx \<Rightarrow> rotate_input \<Rightarrow> int server" where
  "rotateProfileKey sx inp =
     andThen (loadProfileForWrite sx (ro_profileId inp) Ev_profile_rotate) (\<lambda>profile.
     if falsy (prof_wrappedRootKey profile) then fail_with (notFound ''PROFILE_NOT_FOUND'')
     else andThen (transaction (rotate_rows (prof_org profile) inp)) (\<lambda>nextKeyVersion.
     followed_by (logSessionAudit (profile_audit sx (prof_org profile) Ev_profile_rotate None
         (Some [(''profileId'', JStr (ro_profileId inp)),
                (''itemCount'', JNum (int (length (ro_rekeyedItems inp))))])))
       (succeed nextKeyVersion)))"

section \<open>Deleting\<close>

definition profile_grant_cascade :: "session_ctx \<Rightarrow> string \<Rightarrow> string \<Rightarrow> permission_row \<Rightarrow> audit_row" where
  "profile_grant_cascade sx orgId profileId g =
     \<lparr>au_org = orgId, au_userId = Some (sx_userId sx), au_agentId = Some (perm_agentId g), au_itemId = None,
      au_profileId = Some profileId, au_surface = None, au_eventType = Ev_permission_revoke_cascade,
      au_result = Cascade, au_deliveryMode = None, au_field = None, au_purpose = None,
      au_meta = [(''reason'', JStr ''profile_deleted''), (''permissionId'', JStr (perm_id g)),
        (''agentId'', JStr (perm_agentId g)), (''capability'', JStr (cap_name (perm_capability g)))],
      au_ipAddress = sx_ip sx\<rparr>"

definition profile_grants :: "string \<Rightarrow> string \<Rightarrow> db \<Rightarrow> permission_row list" where
  "profile_grants orgId profileId d =
     filter (\<lambda>p. orgScope perm_org orgId p \<and> perm_profileId p = Some profileId) (tbl_permissions d)"

definition active_items_of :: "string \<Rightarrow> string \<Rightarrow> db \<Rightarrow> item_row list" where
  "active_items_of orgId profileId d =
     filter (\<lambda>i. orgScope item_org orgId i \<and> item_profileId i = Some profileId \<and> item_deletedAt i = None)
       (tbl_items d)"

definition delete_profile_rows :: "session_ctx \<Rightarrow> string \<Rightarrow> string \<Rightarrow> unit server" where
  "delete_profile_rows sx orgId profileId =
     andThen (select (profile_grants orgId profileId)) (\<lambda>grants.
     followed_by (if grants \<noteq> [] then insert_audit (map (profile_grant_cascade sx orgId profileId) grants)
                  else succeed ())
       (modify (delete_profiles (\<lambda>p. prof_id p = profileId \<and> orgScope prof_org orgId p))))"

definition deleteProfile :: "session_ctx \<Rightarrow> string \<Rightarrow> unit server" where
  "deleteProfile sx profileId =
     andThen (loadProfileForWrite sx profileId Ev_profile_delete) (\<lambda>profile.
     andThen (select (active_items_of (prof_org profile) profileId)) (\<lambda>activeItems.
     if activeItems \<noteq> [] then fail_with (DomainErr ConflictError ''PROFILE_NOT_EMPTY'' [])
     else followed_by (transaction (delete_profile_rows sx (prof_org profile) profileId))
       (logSessionAudit (profile_audit sx (prof_org profile) Ev_profile_delete (Some profileId) None))))"

section \<open>Facts\<close>

lemma load_profile_Inr:
  assumes "load_profile_as r sx i ev w = (Inr p, w')"
  shows "same_store w w'" "org_profile (sx_orgId sx) i (store w) = Some p" "prof_org p = sx_orgId sx"
    "prof_id p = i" "actor_rank (roleRank r) sx (sx_orgId sx) (store w)"
proof -
  from assms obtain x where f: "org_profile (sx_orgId sx) i (store w) = Some p"
    and r: "requireOrgRole (prof_org p) (sx_userId sx) r (w\<lparr>stmts := Suc (stmts w)\<rparr>) = (Inr x, w')"
    by (auto simp: load_profile_as_def step_Inr auditDeniedSession_fails forbidden_logged_Inr succeed_def
        split: option.splits)
  from findFirst_SomeD [OF f [unfolded org_profile_def]] have p: "prof_org p = sx_orgId sx" "prof_id p = i" by auto
  from requireOrgRole_Inr [OF r] have q: "same_store w w'"
    "\<exists>m. member_row_of (sx_orgId sx) (sx_userId sx) (store w) = Some m \<and> mem_role m = x \<and> roleRank r \<le> roleRank x"
    by (auto simp: same_store_def env_kept_def p)
  from q(1) f p show "same_store w w'" "org_profile (sx_orgId sx) i (store w) = Some p"
    "prof_org p = sx_orgId sx" "prof_id p = i" by auto
  from q(2) show "actor_rank (roleRank r) sx (sx_orgId sx) (store w)" by (auto simp: actor_rank_def)
qed

lemma updating_Inr:
  "updating u w = (Inr rs, w') \<longleftrightarrow> faults w (stmts w) = None \<and>
     rs = fst (u (store w)) \<and> w' = w\<lparr>stmts := Suc (stmts w), store := snd (u (store w))\<rparr>"
  by (cases "u (store w)") (auto simp: updating_def statement_ok)

lemma advisory_lock_Inr:
  "advisory_lock w = (Inr u, w') \<longleftrightarrow> faults w (stmts w) = None \<and> w' = w\<lparr>stmts := Suc (stmts w)\<rparr>"
  by (auto simp: advisory_lock_def statement_ok)

lemma update_profiles_frame:
  "tbl_items (snd (update_profiles h u d)) = tbl_items d"
  "tbl_permissions (snd (update_profiles h u d)) = tbl_permissions d"
  "tbl_profiles (snd (update_profiles h u d)) = map (\<lambda>p. if h p then u p else p) (tbl_profiles d)"
  "fst (update_profiles h u d) = [] \<longleftrightarrow> filter h (tbl_profiles d) = []"
  by (simp_all add: update_profiles_def)

section \<open>What a rotation does to the items\<close>

definition without_time :: "item_row \<Rightarrow> item_row" where
  "without_time i = i\<lparr>item_updatedAt := 0\<rparr>"

text \<open>The last key supplied for an item counts.\<close>

definition rekeyed :: "string \<Rightarrow> string \<Rightarrow> int \<Rightarrow> rekeyed_item list \<Rightarrow> item_row \<Rightarrow> item_row" where
  "rekeyed orgId profileId v rs i =
     (if item_profileId i = Some profileId \<and> item_org i = orgId
      then (case find (\<lambda>r. ri_itemId r = item_id i) (rev rs) of
          None \<Rightarrow> i
        | Some r \<Rightarrow> i\<lparr>item_encryptedItemKey := Some (ri_encryptedItemKey r), item_cryptoVersion := v\<rparr>)
      else i)"

lemma without_time_sels [simp]:
  "item_id (without_time i) = item_id i" "item_org (without_time i) = item_org i"
  "item_profileId (without_time i) = item_profileId i" "item_storageMode (without_time i) = item_storageMode i"
  "item_deletedAt (without_time i) = item_deletedAt i" "item_cryptoVersion (without_time i) = item_cryptoVersion i"
  "item_encryptedItemKey (without_time i) = item_encryptedItemKey i"
  "item_ciphertext (without_time i) = item_ciphertext i"
  "without_time (i\<lparr>item_updatedAt := t\<rparr>) = without_time i"
  by (simp_all add: without_time_def)

lemma rekeyed_sels [simp]:
  "item_id (rekeyed t p v rs i) = item_id i" "item_org (rekeyed t p v rs i) = item_org i"
  "item_profileId (rekeyed t p v rs i) = item_profileId i" "item_storageMode (rekeyed t p v rs i) = item_storageMode i"
  "item_deletedAt (rekeyed t p v rs i) = item_deletedAt i" "item_ciphertext (rekeyed t p v rs i) = item_ciphertext i"
  by (simp_all add: rekeyed_def split: option.split)

lemma rekeyed_Nil [simp]: "rekeyed t p v [] i = i"
  by (simp add: rekeyed_def)

lemma find_append: "find P (xs @ ys) = (case find P xs of None \<Rightarrow> find P ys | Some x \<Rightarrow> Some x)"
  by (induction xs) auto

lemma rekeyed_Cons:
  "without_time (rekeyed t p v (r # rs) i) =
     without_time (rekeyed t p v rs
       (if item_id i = ri_itemId r \<and> item_profileId i = Some p \<and> item_org i = t
        then i\<lparr>item_encryptedItemKey := Some (ri_encryptedItemKey r), item_cryptoVersion := v, item_updatedAt := now\<rparr>
        else i))"
  by (auto simp: rekeyed_def find_append without_time_def split: option.split)

lemma rekey_item_Inr:
  assumes "rekey_item t p v r w = (Inr u, w')"
  shows "store w' = (store w)\<lparr>tbl_items := map (\<lambda>i. if item_id i = ri_itemId r \<and> item_profileId i = Some p \<and>
      item_org i = t
    then i\<lparr>item_encryptedItemKey := Some (ri_encryptedItemKey r), item_cryptoVersion := v,
      item_updatedAt := clock w (ticks w)\<rparr> else i) (tbl_items (store w))\<rparr>"
  using assms by (auto simp: rekey_item_def andThen_Inr updating_Inr update_items_def succeed_def orgScope_def)

lemma rekey_items_Inr:
  assumes "for_each (rekey_item t p v) rs w = (Inr u, w')"
  shows "\<exists>rows. map without_time rows = map (\<lambda>i. without_time (rekeyed t p v rs i)) (tbl_items (store w)) \<and>
    store w' = (store w)\<lparr>tbl_items := rows\<rparr>"
  using assms
proof (induction rs arbitrary: w)
  case Nil
  then show ?case by (intro exI [of _ "tbl_items (store w)"]) (simp add: succeed_def)
next
  case (Cons r rs)
  let ?rows = "map (\<lambda>i. if item_id i = ri_itemId r \<and> item_profileId i = Some p \<and> item_org i = t
    then i\<lparr>item_encryptedItemKey := Some (ri_encryptedItemKey r), item_cryptoVersion := v,
      item_updatedAt := clock w (ticks w)\<rparr> else i) (tbl_items (store w))"
  from Cons.prems obtain w1 where one: "rekey_item t p v r w = (Inr (), w1)"
    and rest: "for_each (rekey_item t p v) rs w1 = (Inr u, w')"
    by (auto simp: followed_by_def andThen_Inr)
  note w1 = rekey_item_Inr [OF one]
  from Cons.IH [OF rest] obtain js where
    js: "map without_time js = map (\<lambda>i. without_time (rekeyed t p v rs i)) ?rows"
    and st: "store w' = (store w)\<lparr>tbl_items := js\<rparr>" by (auto simp: w1)
  have "map (\<lambda>i. without_time (rekeyed t p v rs i)) ?rows =
      map (\<lambda>i. without_time (rekeyed t p v (r # rs) i)) (tbl_items (store w))"
    unfolding rekeyed_Cons [where now = "clock w (ticks w)"] by simp
  with js have "map without_time js = map (\<lambda>i. without_time (rekeyed t p v (r # rs) i)) (tbl_items (store w))"
    by (rule trans)
  with st show ?case by blast
qed

section \<open>Rotation\<close>

definition rotated_profiles :: "string \<Rightarrow> rotate_input \<Rightarrow> profile_row \<Rightarrow> int \<Rightarrow> profile_row list \<Rightarrow> profile_row list" where
  "rotated_profiles orgId inp locked now ps =
     map (\<lambda>p. if prof_id p = ro_profileId inp \<and> prof_keyVersion p = prof_keyVersion locked \<and> prof_org p = orgId
              then new_root_key inp locked now p else p) ps"

text \<open>The outcome of a rotation: one more key version, every live zero-knowledge item among the
  rekeyed ones, and exactly the rekeyed items of the profile changed.\<close>

lemma rotate_rows_Inr:
  assumes "rotate_rows t inp w = (Inr v, w')"
  obtains p rows now where "org_profile t (ro_profileId inp) (store w) = Some p" "v = prof_keyVersion p + 1"
    "\<And>i. i \<in> set (zk_items_in_profile t (ro_profileId inp) (store w)) \<Longrightarrow>
       item_id i \<in> set (map ri_itemId (ro_rekeyedItems inp))"
    "map without_time rows =
       map (\<lambda>i. without_time (rekeyed t (ro_profileId inp) v (ro_rekeyedItems inp) i)) (tbl_items (store w))"
    "store w' = (store w)\<lparr>tbl_profiles := rotated_profiles t inp p now (tbl_profiles (store w)), tbl_items := rows\<rparr>"
proof -
  from assms obtain p w1 where
    rest: "for_each (rekey_item t (ro_profileId inp) (prof_keyVersion p + 1)) (ro_rekeyedItems inp) w1 = (Inr (), w')"
    and w1: "store w1 = (store w)\<lparr>tbl_profiles :=
        rotated_profiles t inp p (clock w (ticks w)) (tbl_profiles (store w))\<rparr>"
    and p: "org_profile t (ro_profileId inp) (store w) = Some p"
    and v: "v = prof_keyVersion p + 1"
    and cover: "filter (\<lambda>i. item_id i \<notin> set (map ri_itemId (ro_rekeyedItems inp)))
        (zk_items_in_profile t (ro_profileId inp) (store w)) = []"
    unfolding rotate_rows_def Let_def
    by (auto simp: step_Inr advisory_lock_Inr updating_Inr update_profiles_def fail_with_def succeed_def
        rotated_profiles_def orgScope_def split: option.splits if_splits)
  from rekey_items_Inr [OF rest [folded v]] obtain js where
    "map without_time js = map (\<lambda>i. without_time (rekeyed t (ro_profileId inp) v (ro_rekeyedItems inp) i))
       (tbl_items (store w))"
    "store w' = (store w1)\<lparr>tbl_items := js\<rparr>" by (auto simp: w1)
  with p v cover w1 show ?thesis by (intro that [of p js "clock w (ticks w)"]) (auto simp: filter_empty_conv)
qed

section \<open>The invariant of key versions\<close>

text \<open>The key of a live zero-knowledge item is wrapped under the current key version of its profile.\<close>

definition item_in_step :: "profile_row list \<Rightarrow> item_row \<Rightarrow> bool" where
  "item_in_step ps i = (item_deletedAt i = None \<longrightarrow> item_storageMode i = Zero_knowledge \<longrightarrow>
     (\<forall>p \<in> set ps. item_profileId i = Some (prof_id p) \<longrightarrow> item_cryptoVersion i = prof_keyVersion p))"

text \<open>An item belongs to the organisation of its profile, which exists.\<close>

definition item_at_home :: "profile_row list \<Rightarrow> item_row \<Rightarrow> bool" where
  "item_at_home ps i = (\<forall>k. item_profileId i = Some k \<longrightarrow>
     (\<exists>p \<in> set ps. prof_id p = k \<and> prof_org p = item_org i))"

definition keys_in_step :: "db \<Rightarrow> bool" where
  "keys_in_step d = (distinct (map prof_id (tbl_profiles d)) \<and>
     (\<forall>i \<in> set (tbl_items d). item_at_home (tbl_profiles d) i \<and> item_in_step (tbl_profiles d) i))"

lemma item_in_step_time: "item_in_step ps (without_time i) = item_in_step ps i"
  by (simp add: item_in_step_def)

lemma item_at_home_time: "item_at_home ps (without_time i) = item_at_home ps i"
  by (simp add: item_at_home_def)

lemma same_id: "distinct (map prof_id ps) \<Longrightarrow> p \<in> set ps \<Longrightarrow> q \<in> set ps \<Longrightarrow> prof_id p = prof_id q \<Longrightarrow> p = q"
  by (rule distinct_map_inj_on_eq)

lemma org_profile_SomeD:
  "org_profile t i d = Some p \<Longrightarrow> p \<in> set (tbl_profiles d) \<and> prof_id p = i \<and> prof_org p = t"
  unfolding org_profile_def by (drule findFirst_SomeD) simp

lemma at_home_map:
  "(\<And>p. prof_id (f p) = prof_id p) \<Longrightarrow> (\<And>p. prof_org (f p) = prof_org p) \<Longrightarrow>
     item_at_home (map f ps) i = item_at_home ps i"
  by (simp add: item_at_home_def)

lemma in_step_map:
  "(\<And>p. prof_id (f p) = prof_id p) \<Longrightarrow> (\<And>p. prof_keyVersion (f p) = prof_keyVersion p) \<Longrightarrow>
     item_in_step (map f ps) i = item_in_step ps i"
  by (simp add: item_in_step_def)

text \<open>An update of a profile that leaves its key version alone keeps the invariant.\<close>

lemma keys_in_step_update:
  assumes "\<And>p. prof_id (u p) = prof_id p" "\<And>p. prof_org (u p) = prof_org p"
    "\<And>p. prof_keyVersion (u p) = prof_keyVersion p"
  shows "keys_in_step (snd (update_profiles h u d)) = keys_in_step d"
proof -
  let ?f = "\<lambda>p. if h p then u p else p"
  have "map prof_id (map ?f (tbl_profiles d)) = map prof_id (tbl_profiles d)"
    using assms by simp
  then show ?thesis
    using at_home_map [of ?f] in_step_map [of ?f] assms
    by (simp add: keys_in_step_def update_profiles_frame del: map_map)
qed

lemma keys_in_step_rotated:
  assumes ok: "keys_in_step d" and p: "org_profile t (ro_profileId inp) d = Some p"
    and cover: "\<And>i. i \<in> set (zk_items_in_profile t (ro_profileId inp) d) \<Longrightarrow>
       item_id i \<in> set (map ri_itemId (ro_rekeyedItems inp))"
    and rows: "map without_time rows =
       map (\<lambda>i. without_time (rekeyed t (ro_profileId inp) (prof_keyVersion p + 1) (ro_rekeyedItems inp) i)) (tbl_items d)"
  shows "keys_in_step (d\<lparr>tbl_profiles := rotated_profiles t inp p now (tbl_profiles d), tbl_items := rows\<rparr>)"
proof -
  let ?r = "rekeyed t (ro_profileId inp) (prof_keyVersion p + 1) (ro_rekeyedItems inp)"
  let ?f = "\<lambda>q. if prof_id q = ro_profileId inp \<and> prof_keyVersion q = prof_keyVersion p \<and> prof_org q = t
    then new_root_key inp p now q else q"
  let ?ps = "tbl_profiles d"
  have ps: "rotated_profiles t inp p now ?ps = map ?f ?ps" by (simp add: rotated_profiles_def)
  have f: "prof_id (?f q) = prof_id q" "prof_org (?f q) = prof_org q" for q by (simp_all add: new_root_key_def)
  have dist: "distinct (map prof_id ?ps)" using ok by (simp add: keys_in_step_def)
  have pin: "p \<in> set ?ps" "prof_id p = ro_profileId inp" "prof_org p = t"
    using org_profile_SomeD [OF p] by auto
  have "item_at_home (map ?f ?ps) j \<and> item_in_step (map ?f ?ps) j" if "j \<in> set rows" for j
  proof -
    from that have "without_time j \<in> set (map without_time rows)" by simp
    then obtain i where i: "i \<in> set (tbl_items d)" "without_time j = without_time (?r i)"
      by (auto simp: rows)
    have home: "item_at_home ?ps i" and step: "item_in_step ?ps i" using ok i(1) by (auto simp: keys_in_step_def)
    have "item_at_home (map ?f ?ps) (?r i)" using home by (simp only: at_home_map [of ?f, OF f]) (simp add: item_at_home_def)
    moreover have "item_in_step (map ?f ?ps) (?r i)"
      unfolding item_in_step_def
    proof (intro impI ballI)
      fix q'
      assume live: "item_deletedAt (?r i) = None" "item_storageMode (?r i) = Zero_knowledge"
        and "q' \<in> set (map ?f ?ps)" and q': "item_profileId (?r i) = Some (prof_id q')"
      then obtain q where q: "q \<in> set ?ps" "q' = ?f q" by auto
      show "item_cryptoVersion (?r i) = prof_keyVersion q'"
      proof (cases "prof_id q = ro_profileId inp")
        case True
        with q(1) pin same_id [OF dist] have qp: "q = p" by metis
        have "prof_id q' = prof_id p" unfolding q(2) f qp ..
        with q' have at_p: "item_profileId i = Some (prof_id p)" by simp
        with home obtain x where "x \<in> set ?ps" "prof_id x = prof_id p" "prof_org x = item_org i"
          by (auto simp: item_at_home_def)
        with pin same_id [OF dist] have org: "item_org i = t" by metis
        then have "i \<in> set (zk_items_in_profile t (ro_profileId inp) d)"
          using i(1) live at_p pin by (simp add: zk_items_in_profile_def orgScope_def)
        from cover [OF this] obtain r where "find (\<lambda>r. ri_itemId r = item_id i) (rev (ro_rekeyedItems inp)) = Some r"
          by (cases "find (\<lambda>r. ri_itemId r = item_id i) (rev (ro_rekeyedItems inp))") (auto dest: find_NoneD)
        moreover have "item_profileId i = Some (ro_profileId inp)" using at_p by (simp add: pin)
        ultimately show ?thesis using org pin by (simp add: rekeyed_def q qp new_root_key_def)
      next
        case False
        moreover have "item_profileId i = Some (prof_id q)" using q' by (simp add: q f)
        ultimately have "?r i = i" by (simp add: rekeyed_def)
        with step live q' q False show ?thesis by (auto simp: item_in_step_def)
      qed
    qed
    ultimately show ?thesis
      unfolding item_at_home_time [of _ j, symmetric] item_in_step_time [of _ j, symmetric] i(2)
      by (simp only: item_at_home_time item_in_step_time simp_thms)
  qed
  moreover have "map prof_id (map ?f ?ps) = map prof_id ?ps" using f by simp
  ultimately show ?thesis using dist by (simp add: keys_in_step_def ps del: map_map)
qed

section \<open>Every request on profiles keeps the invariant\<close>

interpretation keys: db_invariant keys_in_step
  by unfold_locales (simp add: keys_in_step_def)

lemma keys_load: "keeps (preserves keys_in_step) (load_profile_as r sx i ev)"
  unfolding load_profile_as_def by (auto intro!: keys.keeps_parts split: option.split)

lemma keys_updating:
  "(\<And>p. prof_id (u p) = prof_id p) \<Longrightarrow> (\<And>p. prof_org (u p) = prof_org p) \<Longrightarrow>
   (\<And>p. prof_keyVersion (u p) = prof_keyVersion p) \<Longrightarrow>
     keeps (preserves keys_in_step) (updating (update_profiles h u))"
  unfolding updating_def
  by (rule keeps_preserves_statement) (metis keys_in_step_update prod.collapse sum.inject(2) prod.inject)

lemma keys_advisory: "keeps (preserves keys_in_step) advisory_lock"
  unfolding advisory_lock_def by (rule keeps_preserves_statement) simp

lemma keys_insert_profile:
  assumes ok: "keys_in_step d" and ins: "insert_profiles [p] d = Inr (x, d')"
  shows "keys_in_step d'"
proof -
  have fresh: "prof_id p \<notin> prof_id ` set (tbl_profiles d)"
    and d': "d' = d\<lparr>tbl_profiles := tbl_profiles d @ [p]\<rparr>"
    using ins by (auto simp: insert_profiles_def prof_clash_def split: if_splits)
  have "item_at_home (tbl_profiles d @ [p]) i \<and> item_in_step (tbl_profiles d @ [p]) i" if "i \<in> set (tbl_items d)" for i
  proof -
    from ok that have home: "item_at_home (tbl_profiles d) i" and "item_in_step (tbl_profiles d) i"
      by (auto simp: keys_in_step_def)
    moreover from home fresh have "item_profileId i \<noteq> Some (prof_id p)" unfolding item_at_home_def by (metis image_eqI)
    ultimately show ?thesis by (auto simp: item_at_home_def item_in_step_def)
  qed
  with ok fresh show ?thesis by (simp add: keys_in_step_def d')
qed

lemma keys_create: "keeps (preserves keys_in_step) (createProfile sx inp)"
  unfolding createProfile_def assertPersonalProfileCap_def on_unique_violation_def
  by (auto intro!: keys.keeps_parts keeps_preserves_transaction_of keeps_preserves_catch
      keeps_preserves_statement keys_advisory intro: keys_insert_profile split: option.split)

lemma keys_bootstrap: "keeps (preserves keys_in_step) (bootstrapProfile sx inp)"
  unfolding bootstrapProfile_def loadProfileForWrite_def
  by (auto intro!: keys.keeps_parts keys_load keys_updating simp: set_root_key_def)

lemma keys_password: "keeps (preserves keys_in_step) (changeProfilePassword sx inp)"
  unfolding changeProfilePassword_def loadProfileForWrite_def
  by (auto intro!: keys.keeps_parts keys_load keys_updating simp: set_root_key_def)

lemma keys_recovery: "keeps (preserves keys_in_step) (setupProfileRecovery sx i k)"
  unfolding setupProfileRecovery_def loadProfileForWrite_def
  by (auto intro!: keys.keeps_parts keys_load keys_updating)

lemma keys_rotate: "keeps (preserves keys_in_step) (rotateProfileKey sx inp)"
proof -
  have "keeps (preserves keys_in_step) (transaction (rotate_rows t inp))" for t
  proof (rule keeps_preserves_transaction)
    fix w v w'
    assume r: "rotate_rows t inp w = (Inr v, w')" and ok: "keys_in_step (store w)"
    from r show "keys_in_step (store w')"
      by (rule rotate_rows_Inr) (simp, rule keys_in_step_rotated [OF ok], auto)
  qed
  then show ?thesis
    unfolding rotateProfileKey_def loadProfileForWrite_def by (auto intro!: keys.keeps_parts keys_load)
qed

lemma keys_delete_profiles:
  assumes ok: "keys_in_step d"
  shows "keys_in_step (delete_profiles P d)"
proof -
  let ?gone = "map prof_id (filter P (tbl_profiles d))" and ?ps = "filter (\<lambda>p. \<not> P p) (tbl_profiles d)"
  have dist: "distinct (map prof_id (tbl_profiles d))" using ok by (simp add: keys_in_step_def)
  define clear where "clear = (\<lambda>i :: item_row. if item_profileId i \<in> Some ` set ?gone then i\<lparr>item_profileId := None\<rparr> else i)"
  have rows: "tbl_items (delete_profiles P d) = map clear (tbl_items d)"
    "tbl_profiles (delete_profiles P d) = ?ps"
    by (simp_all add: delete_profiles_def Let_def clear_def)
  have "item_at_home ?ps (clear i) \<and> item_in_step ?ps (clear i)" if i: "i \<in> set (tbl_items d)" for i
  proof (cases "item_profileId i \<in> Some ` set ?gone")
    case True
    then have "item_profileId (clear i) = None" by (simp add: clear_def)
    then show ?thesis by (simp add: item_at_home_def item_in_step_def)
  next
    case False
    from ok i have home: "item_at_home (tbl_profiles d) i" and step: "item_in_step (tbl_profiles d) i"
      by (auto simp: keys_in_step_def)
    from False home have "item_at_home ?ps i"
      unfolding item_at_home_def by (auto simp: image_iff) metis
    moreover from step have "item_in_step ?ps i" by (auto simp: item_in_step_def)
    ultimately show ?thesis using False by (simp add: clear_def)
  qed
  then show ?thesis
    using dist by (simp add: keys_in_step_def rows distinct_map_filter)
qed

lemma keys_delete: "keeps (preserves keys_in_step) (deleteProfile sx i)"
proof -
  have "keeps (preserves keys_in_step) (delete_profile_rows sx t i)" for t
    unfolding delete_profile_rows_def
    by (auto intro!: keys.keeps_parts keeps_preserves_modify keys_delete_profiles)
  then show ?thesis
    unfolding deleteProfile_def loadProfileForWrite_def
    by (auto intro!: keys.keeps_parts keys_load keeps_preserves_transaction_of)
qed

end
