(* ===== verification/Js_Text.thy ===== *)
theory Js_Text
  imports Prelude
begin

text \<open>
  What the program uses of the language's strings, on their UTF-8 bytes: the white space that \<open>trim\<close> and \<open>\\s\<close>
  know, \<open>trim\<close> itself, the removal of characters by a regular expression, and \<open>length\<close>, which counts UTF-16
  code units.
\<close>

section \<open>White space\<close>

text \<open>The UTF-8 bytes of the characters \<open>trim\<close> removes.\<close>

definition JS_SPACES :: "string list" where
  "JS_SPACES = map (\<lambda>n. [char_of (n::nat)]) [9, 10, 11, 12, 13, 32] @
     [map char_of [0xC2, 0xA0 :: nat], map char_of [0xE1, 0x9A, 0x80 :: nat]] @
     map (\<lambda>n. map char_of [0xE2, 0x80, n :: nat]) ([0x80..<0x8B] @ [0xA8, 0xA9, 0xAF]) @
     [map char_of [0xE2, 0x81, 0x9F :: nat], map char_of [0xE3, 0x80, 0x80 :: nat],
      map char_of [0xEF, 0xBB, 0xBF :: nat]]"

definition space_at :: "string list \<Rightarrow> string \<Rightarrow> nat" where
  "space_at spaces s = (case find (\<lambda>w. w \<noteq> [] \<and> take (length w) s = w) spaces of None \<Rightarrow> 0 | Some w \<Rightarrow> length w)"

lemma space_at_le: "space_at spaces s \<le> length s"
  by (auto simp: space_at_def split: option.split dest!: find_SomeD) (metis length_take min.cobounded1)

function trim_front :: "string list \<Rightarrow> string \<Rightarrow> string" where
  "trim_front spaces s = (if space_at spaces s = 0 then s else trim_front spaces (drop (space_at spaces s) s))"
  by auto
termination
proof (relation "measure (\<lambda>(_, s). length s)", simp)
  fix spaces s
  assume "space_at spaces s \<noteq> 0"
  then show "((spaces, drop (space_at spaces s) s), spaces, s) \<in> measure (\<lambda>(_, s). length s)"
    using space_at_le [of spaces s] by simp
qed

declare trim_front.simps [simp del]

definition js_trim :: "string \<Rightarrow> string" where
  "js_trim s = rev (trim_front (map rev JS_SPACES) (rev (trim_front JS_SPACES s)))"

text \<open>\<open>s.replace(/[-\\s]/g, "")\<close> for any set of characters.\<close>

function remove_all :: "string list \<Rightarrow> string \<Rightarrow> string" where
  "remove_all ws [] = []"
| "remove_all ws (c # s) =
     (if space_at ws (c # s) = 0 then c # remove_all ws s else remove_all ws (drop (space_at ws (c # s)) (c # s)))"
  by pat_completeness auto
termination
proof (relation "measure (\<lambda>(_, s). length s)")
  fix ws c and s :: string
  assume "\<not> space_at ws (c # s) = 0"
  then show "((ws, drop (space_at ws (c # s)) (c # s)), ws, c # s) \<in> measure (\<lambda>(_, s). length s)"
    by (cases "space_at ws (c # s)") auto
qed simp_all

declare remove_all.simps(2) [simp del]

section \<open>Length\<close>

text \<open>A byte that does not continue a character starts one; a character of four bytes takes two code units.\<close>

definition code_units :: "char \<Rightarrow> nat" where
  "code_units c = (let n = of_char c :: nat in if 0x80 \<le> n \<and> n < 0xC0 then 0 else if 0xF0 \<le> n then 2 else 1)"

definition js_length :: "string \<Rightarrow> nat" where
  "js_length s = sum_list (map code_units s)"

definition ascii :: "string \<Rightarrow> bool" where
  "ascii s = list_all (\<lambda>c. of_char c < (128 :: nat)) s"

lemma js_length_ascii: "ascii s \<Longrightarrow> js_length s = length s"
  by (induction s) (auto simp: js_length_def ascii_def code_units_def)

lemma js_length_le: "js_length s \<le> 2 * length s"
  by (induction s) (auto simp: js_length_def code_units_def Let_def)

text \<open>Nothing is removed from a text none of whose characters starts one of the words.\<close>

lemma starts_with: "w \<noteq> [] \<Longrightarrow> take (length w) (c # s) = w \<Longrightarrow> hd w = c"
  by (cases w) simp_all

lemma space_at_zero:
  assumes "list_all (\<lambda>w. w = [] \<or> hd w \<noteq> c) ws"
  shows "space_at ws (c # s) = 0"
proof (cases "find (\<lambda>w. w \<noteq> [] \<and> take (length w) (c # s) = w) ws")
  case (Some w)
  note w = find_SomeD [OF Some, THEN conjunct1] find_SomeD [OF Some, THEN conjunct2, THEN conjunct1]
    find_SomeD [OF Some, THEN conjunct2, THEN conjunct2]
  note head = starts_with [OF w(2,3)]
  with w(1,2) assms show ?thesis by (auto simp: list_all_iff)
qed (simp add: space_at_def)

lemma remove_all_keeps:
  "list_all (\<lambda>c. list_all (\<lambda>w. w = [] \<or> hd w \<noteq> c) ws) s \<Longrightarrow> remove_all ws (s @ t) = s @ remove_all ws t"
proof (induction s)
  case (Cons c s)
  then have "space_at ws (c # s @ t) = 0" by (intro space_at_zero) simp
  with Cons show ?case by (simp add: remove_all.simps(2) [of ws c "s @ t"])
qed simp

lemma remove_all_word:
  assumes "[c] \<in> set ws" "list_all (\<lambda>w. length w \<le> 1 \<or> hd w \<noteq> c) ws"
  shows "remove_all ws (c # s) = remove_all ws s"
proof (cases "find (\<lambda>w. w \<noteq> [] \<and> take (length w) (c # s) = w) ws")
  case None
  from find_NoneD [OF this assms(1)] show ?thesis by simp
next
  case (Some w)
  note w = find_SomeD [OF Some, THEN conjunct1] find_SomeD [OF Some, THEN conjunct2, THEN conjunct1]
    find_SomeD [OF Some, THEN conjunct2, THEN conjunct2]
  note head = starts_with [OF w(2,3)]
  with w(1,2) assms(2) have "length w \<le> 1" by (auto simp: list_all_iff)
  with w(2) have "length w = 1" by (cases w) simp_all
  with Some have "space_at ws (c # s) = 1" by (simp add: space_at_def)
  then show ?thesis by (subst remove_all.simps(2)) simp
qed

end
