(* ===== verification/Items.thy ===== *)
theory Items
  imports Profiles Envelope_Properties Secret_Delivery Js_Text
begin

text \<open>
  Items (\<open>packages/trpc/src/server/routers/items.ts\<close>, \<open>item-labels.ts\<close>, \<open>serialize.ts\<close>): creation under
  either storage mode, reading, update by compare-and-set on the content version, and the owner's reveal
  (\<open>deleteItem\<close> and \<open>loadOwnedItem\<close> are in \<open>Cascades\<close>, the listings in \<open>Listings\<close>). The clock of a column
  default is the transaction's \<open>now()\<close>.
\<close>

section \<open>Labels\<close>

definition fallbackItemLabel :: "string \<Rightarrow> string" where
  "fallbackItemLabel itemId = ''migrated-'' @ take 8 itemId"

definition resolveStoredLabel :: "string \<Rightarrow> string option \<Rightarrow> string" where
  "resolveStoredLabel itemId label =
     (let trimmed = js_trim (orElse label []) in if trimmed \<noteq> [] then trimmed else fallbackItemLabel itemId)"

section \<open>What a caller sees\<close>

record item_view =
  iv_id :: string
  iv_label :: string
  iv_storageMode :: storage_mode
  iv_cryptoVersion :: int
  iv_contentVersion :: int
  iv_profileId :: "string option"
  iv_createdAt :: int
  iv_updatedAt :: int
  iv_encryptedItemKey :: "string option"
  iv_ciphertext :: "string option"

definition serializeItemSummary :: "item_row \<Rightarrow> item_view" where
  "serializeItemSummary i =
     \<lparr>iv_id = item_id i, iv_label = item_label i, iv_storageMode = item_storageMode i,
      iv_cryptoVersion = item_cryptoVersion i, iv_contentVersion = item_contentVersion i,
      iv_profileId = item_profileId i, iv_createdAt = item_createdAt i, iv_updatedAt = item_updatedAt i,
      iv_encryptedItemKey = None, iv_ciphertext = None\<rparr>"

definition serializeItemDetail :: "item_row \<Rightarrow> item_view" where
  "serializeItemDetail i =
     (case item_storageMode i of
        Zero_knowledge \<Rightarrow> (serializeItemSummary i)
          \<lparr>iv_encryptedItemKey := Some (orElse (item_encryptedItemKey i) []),
           iv_ciphertext := Some (orElse (item_ciphertext i) [])\<rparr>
      | Server_managed \<Rightarrow> serializeItemSummary i)"

definition item_audit :: "session_ctx \<Rightarrow> string \<Rightarrow> audit_event \<Rightarrow> json_object option \<Rightarrow> audit_entry" where
  "item_audit sx itemId ev meta = (entry (sx_orgId sx) (Some (sx_userId sx)) ev Allowed)
     \<lparr>ae_itemId := Some itemId, ae_ipAddress := sx_ip sx, ae_meta := meta\<rparr>"

definition getItem :: "session_ctx \<Rightarrow> string \<Rightarrow> item_view server" where
  "getItem sx itemId =
     andThen (loadOwnedItem sx itemId Ev_item_read) (\<lambda>item.
       followed_by (logSessionAudit (item_audit sx itemId Ev_item_read None))
         (succeed (serializeItemDetail item)))"

section \<open>Creating\<close>

definition insert_items :: "item_row list \<Rightarrow> db \<Rightarrow> err + (unit \<times> db)" where
  "insert_items rs d =
     (if \<not> batch_ok (\<lambda>i j. item_id i = item_id j) (tbl_items d) rs then Inl (DbErr ''23505'')
      else Inr ((), d\<lparr>tbl_items := tbl_items d @ rs\<rparr>))"

text \<open>An item with the defaults of the columns.\<close>

definition blank_item :: "string \<Rightarrow> string \<Rightarrow> string \<Rightarrow> string \<Rightarrow> string \<Rightarrow> storage_mode \<Rightarrow> int \<Rightarrow> item_row" where
  "blank_item i orgId userId profileId label mode now =
     \<lparr>item_id = i, item_org = orgId, item_profileId = Some profileId, item_createdBy = Some userId,
      item_label = label, item_kind = None, item_tags = [], item_storageMode = mode,
      item_encryptedItemKey = None, item_ciphertext = None, item_serverCiphertext = None,
      item_serverIv = None, item_serverKeyVersion = None, item_cryptoVersion = 1, item_contentVersion = 1,
      item_createdAt = now, item_updatedAt = now, item_deletedAt = None\<rparr>"

text \<open>Column defaults read the database clock.\<close>

definition insert_item :: "(int \<Rightarrow> item_row) \<Rightarrow> unit server" where
  "insert_item row = (\<lambda>w. statement (insert_items [row (pg_now w)]) w)"

record zk_create =
  zc_id :: string
  zc_profileId :: "string option"
  zc_label :: string
  zc_encryptedItemKey :: string
  zc_ciphertext :: string
  zc_expectedKeyVersion :: "int option"

definition zk_row :: "session_ctx \<Rightarrow> zk_create \<Rightarrow> string \<Rightarrow> int \<Rightarrow> int \<Rightarrow> item_row" where
  "zk_row sx inp profileId keyVersion now =
     (blank_item (zc_id inp) (sx_orgId sx) (sx_userId sx) profileId
        (resolveStoredLabel (zc_id inp) (Some (zc_label inp))) Zero_knowledge now)
       \<lparr>item_encryptedItemKey := Some (zc_encryptedItemKey inp), item_ciphertext := Some (zc_ciphertext inp),
        item_cryptoVersion := keyVersion\<rparr>"

definition zk_profile :: "string \<Rightarrow> string option \<Rightarrow> db \<Rightarrow> profile_row option" where
  "zk_profile orgId profileId d = findFirst prof_org orgId (\<lambda>p. prof_storageMode p = Zero_knowledge \<and>
     (truthy profileId \<longrightarrow> Some (prof_id p) = profileId)) (tbl_profiles d)"

definition insertZeroKnowledgeItem :: "session_ctx \<Rightarrow> zk_create \<Rightarrow> unit server" where
  "insertZeroKnowledgeItem sx inp =
     andThen (select (zk_profile (sx_orgId sx) (zc_profileId inp))) (\<lambda>found.
       case found of
         None \<Rightarrow> fail_with (notFound ''NOT_FOUND'')
       | Some profile \<Rightarrow>
           followed_by advisory_lock
           (andThen (select (\<lambda>d. find (\<lambda>p. prof_id p = prof_id profile) (tbl_profiles d))) (\<lambda>relocked.
            case relocked of
              None \<Rightarrow> fail_with (notFound ''NOT_FOUND'')
            | Some locked \<Rightarrow>
                if (case zc_expectedKeyVersion inp of None \<Rightarrow> False | Some v \<Rightarrow> prof_keyVersion locked \<noteq> v)
                then fail_with (DomainErr ConflictError ''CONFLICT''
                  [(''expectedKeyVersion'', JNum (the (zc_expectedKeyVersion inp))),
                   (''currentKeyVersion'', JNum (prof_keyVersion locked))])
                else insert_item (zk_row sx inp (prof_id profile) (prof_keyVersion locked)))))"

definition mode_name :: "storage_mode \<Rightarrow> string" where
  "mode_name m = (case m of Zero_knowledge \<Rightarrow> ''zero_knowledge'' | Server_managed \<Rightarrow> ''server_managed'')"

text \<open>\<open>ORDER BY (external_id = 'default') first, created_at LIMIT 1\<close>.\<close>

definition default_profile :: "string \<Rightarrow> storage_mode \<Rightarrow> db \<Rightarrow> profile_row option" where
  "default_profile orgId mode d =
     (case sort_key (\<lambda>p. (if prof_externalId p = Some ''default'' then 0 else 1 :: nat))
         (sort_key prof_createdAt
           (filter (\<lambda>p. orgScope prof_org orgId p \<and> prof_storageMode p = mode) (tbl_profiles d))) of
        [] \<Rightarrow> None | p # ps \<Rightarrow> Some p)"

definition resolveTargetProfile :: "session_ctx \<Rightarrow> storage_mode \<Rightarrow> string option \<Rightarrow> string server" where
  "resolveTargetProfile sx mode explicitProfileId =
     (case explicitProfileId of
        Some i \<Rightarrow> andThen (select (org_profile (sx_orgId sx) i)) (\<lambda>found.
          case found of
            None \<Rightarrow> fail_with (notFound ''PROFILE_NOT_FOUND'')
          | Some p \<Rightarrow>
              if prof_storageMode p \<noteq> mode then fail_with (DomainErr BadRequestError ''BAD_REQUEST''
                [(''reason'', JStr ''profile_mode_mismatch''), (''profileId'', JStr i),
                 (''profileStorageMode'', JStr (mode_name (prof_storageMode p))),
                 (''itemStorageMode'', JStr (mode_name mode))])
              else succeed (prof_id p))
      | None \<Rightarrow> andThen (select (default_profile (sx_orgId sx) mode)) (\<lambda>found.
          case found of
            None \<Rightarrow> fail_with (notFound ''PROFILE_NOT_FOUND'')
          | Some p \<Rightarrow> succeed (prof_id p)))"

fun kind_name :: "item_kind \<Rightarrow> string" where
  "kind_name Kind_login = ''login''" | "kind_name Kind_api_key = ''api_key''"
| "kind_name Kind_token = ''token''" | "kind_name Kind_json = ''json''"
| "kind_name Kind_certificate = ''certificate''" | "kind_name Kind_ssh_key = ''ssh_key''"
| "kind_name Kind_opaque = ''opaque''"

definition json_member :: "string \<Rightarrow> ('a \<Rightarrow> json) \<Rightarrow> 'a option \<Rightarrow> json_object" where
  "json_member k f x = (case x of None \<Rightarrow> [] | Some v \<Rightarrow> [(k, f v)])"

text \<open>The object \<open>JSON.stringify\<close> is given: the properties of the schema in its order, absent ones left out.\<close>

definition payload_json :: "item_payload \<Rightarrow> json" where
  "payload_json p = JObj (json_member ''v'' JNum (pl_v p) @ json_member ''label'' JStr (pl_label p) @
     json_member ''kind'' (\<lambda>k. JStr (kind_name k)) (pl_kind p) @
     json_member ''tags'' (\<lambda>ts. JArr (map JStr ts)) (pl_tags p) @
     json_member ''notes'' JStr (pl_notes p) @ [(''fields'', JObj (pl_fields p))])"

definition payload_bytes :: "item_payload \<Rightarrow> bytes" where
  "payload_bytes p = encode_text (JSON_stringify (payload_json p))"

definition sm_row :: "session_ctx \<Rightarrow> string \<Rightarrow> string \<Rightarrow> item_payload \<Rightarrow> server_encrypted \<Rightarrow> int \<Rightarrow> item_row" where
  "sm_row sx i profileId payload encrypted now =
     (blank_item i (sx_orgId sx) (sx_userId sx) profileId (resolveStoredLabel i (pl_label payload)) Server_managed now)
       \<lparr>item_serverCiphertext := Some (se_ciphertext encrypted), item_serverIv := Some (se_iv encrypted),
        item_serverKeyVersion := Some (se_keyVersion encrypted)\<rparr>"

datatype create_item_input =
    Create_zk zk_create
  | Create_sm "string option" item_payload

definition create_zk :: "session_ctx \<Rightarrow> zk_create \<Rightarrow> string server" where
  "create_zk sx inp =
     followed_by (if zc_profileId inp \<noteq> None
         then andThen (resolveTargetProfile sx Zero_knowledge (zc_profileId inp)) (\<lambda>_. succeed ()) else succeed ())
     (followed_by (on_unique_violation
         (DomainErr ConflictError ''ITEM_ALREADY_EXISTS'' [(''itemId'', JStr (zc_id inp))])
         (transaction (insertZeroKnowledgeItem sx inp)))
       (succeed (zc_id inp)))"

definition create_sm :: "webcrypto \<Rightarrow> string \<Rightarrow> session_ctx \<Rightarrow> string option \<Rightarrow> item_payload \<Rightarrow> string server" where
  "create_sm wc mk sx profileId payload =
     andThen randomUUID (\<lambda>i.
     andThen (resolveTargetProfile sx Server_managed profileId) (\<lambda>targetProfileId.
     andThen (encryptServerEnvelope wc mk (sx_orgId sx) (Some targetProfileId) i (payload_bytes payload)) (\<lambda>encrypted.
     followed_by (insert_item (sm_row sx i targetProfileId payload encrypted)) (succeed i))))"

definition createItem :: "webcrypto \<Rightarrow> string \<Rightarrow> session_ctx \<Rightarrow> create_item_input \<Rightarrow> string server" where
  "createItem wc mk sx inp =
     andThen (case inp of Create_zk z \<Rightarrow> create_zk sx z | Create_sm p payload \<Rightarrow> create_sm wc mk sx p payload) (\<lambda>i.
       followed_by (logSessionAudit (item_audit sx i Ev_item_create None)) (succeed i))"

section \<open>Updating\<close>

datatype update_item_input =
    Update_zk (up_label: string) (up_encryptedItemKey: string) (up_ciphertext: string) (up_contentVersion: int)
  | Update_sm (up_payload: item_payload) (up_contentVersion: int)

definition set_zk :: "string \<Rightarrow> update_item_input \<Rightarrow> int \<Rightarrow> int \<Rightarrow> item_row \<Rightarrow> item_row" where
  "set_zk itemId inp v now i = i\<lparr>item_label := resolveStoredLabel itemId (Some (up_label inp)),
     item_encryptedItemKey := Some (up_encryptedItemKey inp), item_ciphertext := Some (up_ciphertext inp),
     item_contentVersion := v, item_updatedAt := now\<rparr>"

definition set_sm :: "string \<Rightarrow> update_item_input \<Rightarrow> server_encrypted \<Rightarrow> int \<Rightarrow> int \<Rightarrow> item_row \<Rightarrow> item_row" where
  "set_sm itemId inp encrypted v now i = i\<lparr>item_label := resolveStoredLabel itemId (pl_label (up_payload inp)),
     item_serverCiphertext := Some (se_ciphertext encrypted), item_serverIv := Some (se_iv encrypted),
     item_serverKeyVersion := Some (se_keyVersion encrypted), item_contentVersion := v, item_updatedAt := now\<rparr>"

text \<open>The guarded write.\<close>

definition write_item :: "session_ctx \<Rightarrow> string \<Rightarrow> int \<Rightarrow> (int \<Rightarrow> item_row \<Rightarrow> item_row) \<Rightarrow> unit server" where
  "write_item sx itemId contentVersion change =
     andThen new_Date (\<lambda>now.
     andThen (updating (update_items
       (\<lambda>i. item_id i = itemId \<and> item_contentVersion i = contentVersion \<and> orgScope item_org (sx_orgId sx) i)
       (change now))) (\<lambda>updated.
     if updated = [] then fail_with (DomainErr ConflictError ''STALE_VERSION'' []) else succeed ()))"

definition updateItem :: "webcrypto \<Rightarrow> string \<Rightarrow> session_ctx \<Rightarrow> string \<Rightarrow> update_item_input \<Rightarrow> int server" where
  "updateItem wc mk sx itemId inp =
     andThen (loadOwnedItem sx itemId Ev_item_update) (\<lambda>item.
     let v = item_contentVersion item + 1 in
     followed_by
       (case inp of
          Update_zk _ _ _ _ \<Rightarrow> write_item sx itemId (up_contentVersion inp) (set_zk itemId inp v)
        | Update_sm payload _ \<Rightarrow>
            andThen (encryptServerEnvelope wc mk (sx_orgId sx) (item_profileId item) itemId (payload_bytes payload))
              (\<lambda>encrypted. write_item sx itemId (up_contentVersion inp) (set_sm itemId inp encrypted v)))
     (followed_by (logSessionAudit (item_audit sx itemId Ev_item_update None)) (succeed v)))"

section \<open>The owner's reveal\<close>

definition ownerReveal :: "webcrypto \<Rightarrow> string \<Rightarrow> session_ctx \<Rightarrow> string \<Rightarrow> item_payload server" where
  "ownerReveal wc mk sx itemId =
     andThen (loadOwnedItem sx itemId Ev_item_export) (\<lambda>item.
     if item_storageMode item \<noteq> Server_managed then
       auditDeniedSession ((denied (sx_orgId sx) (Some (sx_userId sx)) Ev_item_export ''zk_item_cannot_be_revealed'')
         \<lparr>df_itemId := Some itemId, df_ipAddress := sx_ip sx\<rparr>) (DomainErr BadRequestError ''BAD_REQUEST'' [])
     else if falsy (item_serverCiphertext item) \<or> falsy (item_serverIv item) \<or> item_serverKeyVersion item = None
     then fail_with (DomainErr BadRequestError ''BAD_REQUEST'' [])
     else andThen (decryptServerEnvelope wc mk (sx_orgId sx) item None) (\<lambda>decrypted.
       followed_by (logSessionAudit (item_audit sx itemId Ev_item_export (Some [(''exportFormat'', JStr ''json'')])))
         (succeed (decodeServerManagedPayload JSON_parse (item_id item) (decode_text decrypted)))))"

end
