(* ===== verification/Item_Properties.thy ===== *)
theory Item_Properties
  imports Items
begin

text \<open>
  What holds of items: creating, updating and deleting keep the invariant of key versions; a created
  server-managed item reveals its payload; of the updates that name the same content version at most one
  is accepted.
\<close>

section \<open>Key versions\<close>

definition head :: "profile_row \<Rightarrow> string \<times> string \<times> int" where
  "head p = (prof_id p, prof_org p, prof_keyVersion p)"

text \<open>Items and the heads of the profiles unchanged.\<close>

definition vault_kept :: "world \<Rightarrow> world \<Rightarrow> bool" where
  "vault_kept w w' \<longleftrightarrow> env_kept w w' \<and> tbl_items (store w') = tbl_items (store w) \<and>
     map head (tbl_profiles (store w')) = map head (tbl_profiles (store w))"

lemma vault_kept_refl [simp]: "reflp vault_kept"
  by (rule reflpI) (simp add: vault_kept_def)

lemma vault_kept_trans [simp]: "transp vault_kept"
  by (rule transpI) (auto simp: vault_kept_def intro: env_kept_trans)

lemma at_home_heads:
  "item_at_home ps i \<longleftrightarrow> (\<forall>k. item_profileId i = Some k \<longrightarrow> (\<exists>(a, b, c) \<in> set (map head ps). a = k \<and> b = item_org i))"
  by (auto simp: item_at_home_def head_def)

lemma in_step_heads:
  "item_in_step ps i \<longleftrightarrow> (item_deletedAt i = None \<longrightarrow> item_storageMode i = Zero_knowledge \<longrightarrow>
     (\<forall>(a, b, c) \<in> set (map head ps). item_profileId i = Some a \<longrightarrow> item_cryptoVersion i = c))"
  by (auto simp: item_in_step_def head_def)

lemma head_ids: "map prof_id ps = map fst (map head ps)"
  by (simp add: head_def)

lemma keys_kept: "vault_kept w w' \<Longrightarrow> keys_in_step (store w') = keys_in_step (store w)"
  unfolding vault_kept_def keys_in_step_def at_home_heads in_step_heads head_ids by simp

lemma keeps_vault_keys: "keeps vault_kept m \<Longrightarrow> keeps (preserves keys_in_step) m"
  unfolding keeps_def preserves_def using keys_kept by blast

lemma vault_same: "keeps same_store m \<Longrightarrow> keeps vault_kept m"
  by (simp add: keeps_def same_store_def vault_kept_def)

lemma vault_modify:
  "(\<And>d. tbl_items (u d) = tbl_items d) \<Longrightarrow> (\<And>d. map head (tbl_profiles (u d)) = map head (tbl_profiles d)) \<Longrightarrow>
     keeps vault_kept (modify u)"
  by (auto simp: keeps_def vault_kept_def env_kept_def modify_def statement_def split: option.split)

lemma vault_adopt: "keeps vault_kept (modify (adopt_dek p s))"
  by (rule vault_modify) (auto simp: adopt_dek_def head_def)

lemma vault_count: "keeps vault_kept (modify (count_encryption p))"
  by (rule vault_modify) (auto simp: count_encryption_def head_def)

lemmas vault_parts = keeps_andThen [OF vault_kept_trans] keeps_followed_by [OF vault_kept_trans]
  keeps_succeed [OF vault_kept_refl] keeps_fail [OF vault_kept_refl] vault_same [OF keeps_select]
  vault_same [OF keeps_randomBytes] vault_same [OF keeps_lift_result] vault_same [OF keeps_unwrap_key]
  vault_adopt vault_count keeps_catch_all [OF vault_kept_trans]

lemma vault_wrap: "keeps vault_kept (wrapServerDek wc mk dek t p)"
  unfolding wrapServerDek_def Let_def by (auto intro!: vault_parts)

lemma vault_serverEncrypt: "keeps vault_kept (serverEncrypt wc pt k v m)"
  unfolding serverEncrypt_def Let_def by (auto intro!: vault_parts)

lemma vault_ensure: "keeps vault_kept (ensureProfileDek wc mk t p)"
  unfolding ensureProfileDek_def adopt_and_reload_def loadWrappedDek_def generateServerDek_def
  by (auto intro!: vault_parts vault_wrap)

lemma vault_encrypt: "keeps vault_kept (encryptServerEnvelope wc mk t p i pt)"
  unfolding encryptServerEnvelope_def Let_def by (auto intro!: vault_parts vault_ensure vault_serverEncrypt)

lemma keys_insert_item:
  assumes "keys_in_step d" "item_at_home (tbl_profiles d) row" "item_in_step (tbl_profiles d) row"
    and "insert_items [row] d = Inr (x, d')"
  shows "keys_in_step d'"
  using assms by (auto simp: insert_items_def keys_in_step_def split: if_splits)

lemma insert_item_store:
  "keys_in_step (store w) \<Longrightarrow> item_at_home (tbl_profiles (store w)) (row (pg_now w)) \<Longrightarrow>
   item_in_step (tbl_profiles (store w)) (row (pg_now w)) \<Longrightarrow> keys_in_step (store (snd (insert_item row w)))"
  by (auto simp: insert_item_def statement_def split: option.split sum.split dest: keys_insert_item)

lemma resolveTargetProfile_Inr:
  assumes "resolveTargetProfile sx mode p w = (Inr i, w')"
  shows "same_store w w' \<and> (\<exists>q \<in> set (tbl_profiles (store w)). prof_id q = i \<and> prof_org q = sx_orgId sx \<and>
    prof_storageMode q = mode)"
proof -
  have default: "default_profile t m d = Some q \<Longrightarrow> q \<in> set (tbl_profiles d) \<and> prof_org q = t \<and> prof_storageMode q = m"
    for t m d q
  proof -
    let ?rows = "filter (\<lambda>p. orgScope prof_org t p \<and> prof_storageMode p = m) (tbl_profiles d)"
    let ?sorted = "sort_key (\<lambda>p. (if prof_externalId p = Some ''default'' then 0 else 1 :: nat)) (sort_key prof_createdAt ?rows)"
    assume "default_profile t m d = Some q"
    then have "q \<in> set ?sorted" by (auto simp: default_profile_def simp del: set_sort split: list.splits)
    then show ?thesis by (simp add: orgScope_def)
  qed
  show ?thesis
    using assms
    by (auto simp: resolveTargetProfile_def andThen_Inr select_ok fail_with_def succeed_def same_store_def env_kept_def
        dest!: default org_profile_SomeD split: option.splits if_splits)
qed

lemma keeps_resolveTarget: "keeps same_store (resolveTargetProfile sx mode p)"
  unfolding resolveTargetProfile_def by (auto intro!: keeps_same split: option.split)

lemma snd_last: "snd (followed_by m (succeed x) w) = snd (m w)"
  by (simp add: followed_by_def andThen_def succeed_def split: prod.split sum.split)

lemma keys_create_sm: "keeps (preserves keys_in_step) (create_sm wc mk sx p payload)"
proof (rule keepsI, unfold preserves_def, rule impI)
  fix w :: world
  assume ok: "keys_in_step (store w)"
  let ?i = "uuids w (draws w)" and ?w0 = "w\<lparr>draws := Suc (draws w)\<rparr>"
  obtain r w1 where r: "resolveTargetProfile sx Server_managed p ?w0 = (r, w1)" by fastforce
  then have s1: "store w1 = store w" using keepsD [OF keeps_resolveTarget] by (fastforce simp: same_store_def)
  show "keys_in_step (store (snd (create_sm wc mk sx p payload w)))"
  proof (cases r)
    case (Inl e)
    with r s1 ok show ?thesis by (simp add: create_sm_def andThen_def)
  next
    case (Inr q)
    let ?enc = "encryptServerEnvelope wc mk (sx_orgId sx) (Some q) ?i (payload_bytes payload)"
    obtain r2 w2 where e: "?enc w1 = (r2, w2)" by fastforce
    from keepsD [OF vault_encrypt e] have kept: "vault_kept w1 w2" .
    then have ok2: "keys_in_step (store w2)" using keys_kept ok s1 by simp
    from r Inr resolveTargetProfile_Inr have "\<exists>x \<in> set (tbl_profiles (store w1)). prof_id x = q \<and> prof_org x = sx_orgId sx"
      by (fastforce simp: s1)
    then have "item_at_home (tbl_profiles (store w1)) (sm_row sx ?i q payload c n)" for c n
      by (auto simp: item_at_home_def sm_row_def blank_item_def)
    then have home: "item_at_home (tbl_profiles (store w2)) (sm_row sx ?i q payload c n)" for c n
      using kept by (simp only: at_home_heads vault_kept_def)
    have step: "item_in_step ps (sm_row sx ?i q payload c n)" for ps c n
      by (simp add: item_in_step_def sm_row_def blank_item_def)
    show ?thesis
    proof (cases r2)
      case (Inl x)
      with r Inr e ok2 show ?thesis by (simp add: create_sm_def andThen_def)
    next
      case (Inr c)
      with r \<open>r = Inr q\<close> e insert_item_store [OF ok2 home step] show ?thesis
        by (simp add: create_sm_def andThen_def snd_last)
    qed
  qed
qed

lemma zk_profile_SomeD:
  "zk_profile t i d = Some p \<Longrightarrow> p \<in> set (tbl_profiles d) \<and> prof_org p = t"
  unfolding zk_profile_def by (drule findFirst_SomeD) simp

lemma keys_insert_zk: "keeps (preserves keys_in_step) (transaction (insertZeroKnowledgeItem sx inp))"
proof (rule keeps_preserves_transaction)
  fix w x w'
  assume run: "insertZeroKnowledgeItem sx inp w = (Inr x, w')" and ok: "keys_in_step (store w)"
  from run obtain p l w1 where
    ins: "insert_item (zk_row sx inp (prof_id p) (prof_keyVersion l)) w1 = (Inr (), w')" and w1: "store w1 = store w"
    and p: "zk_profile (sx_orgId sx) (zc_profileId inp) (store w) = Some p"
    and l: "find (\<lambda>q. prof_id q = prof_id p) (tbl_profiles (store w)) = Some l"
    by (auto simp: insertZeroKnowledgeItem_def step_Inr advisory_lock_Inr fail_with_def split: option.splits if_splits)
  from zk_profile_SomeD [OF p] find_SomeD [OF l] have q: "p \<in> set (tbl_profiles (store w))" "prof_org p = sx_orgId sx"
    "l \<in> set (tbl_profiles (store w))" "prof_id l = prof_id p" by auto
  have dist: "distinct (map prof_id (tbl_profiles (store w)))" using ok by (simp add: keys_in_step_def)
  have "item_at_home (tbl_profiles (store w)) (zk_row sx inp (prof_id p) (prof_keyVersion l) n)" for n
    using q by (auto simp: item_at_home_def zk_row_def blank_item_def)
  moreover have "item_in_step (tbl_profiles (store w)) (zk_row sx inp (prof_id p) (prof_keyVersion l) n)" for n
    using same_id [OF dist q(3)] q(4) by (auto simp: item_in_step_def zk_row_def blank_item_def)
  ultimately show "keys_in_step (store w')"
    using insert_item_store [of w1 "zk_row sx inp (prof_id p) (prof_keyVersion l)"] ok ins w1 by simp
qed

lemma keys_createItem: "keeps (preserves keys_in_step) (createItem wc mk sx inp)"
  unfolding createItem_def create_zk_def on_unique_violation_def
  by (auto intro!: keys.keeps_parts keys_create_sm keys_insert_zk keeps_preserves_catch
      keeps_preserves_same [OF keeps_resolveTarget] split: create_item_input.split)

lemma keys_update_items:
  assumes ok: "keys_in_step d"
    and u: "\<And>i. item_profileId (u i) = item_profileId i \<and> item_org (u i) = item_org i \<and>
      item_storageMode (u i) = item_storageMode i \<and> item_cryptoVersion (u i) = item_cryptoVersion i \<and>
      (item_deletedAt (u i) = None \<longrightarrow> item_deletedAt i = None)"
  shows "keys_in_step (d\<lparr>tbl_items := map (\<lambda>i. if h i then u i else i) (tbl_items d)\<rparr>)"
proof -
  have "item_at_home (tbl_profiles d) (u i) = item_at_home (tbl_profiles d) i"
    "item_in_step (tbl_profiles d) i \<Longrightarrow> item_in_step (tbl_profiles d) (u i)" for i
    using u [of i] by (auto simp: item_at_home_def item_in_step_def)
  with ok show ?thesis by (auto simp: keys_in_step_def)
qed

lemma keys_write_item:
  assumes "\<And>n i. item_profileId (c n i) = item_profileId i \<and> item_org (c n i) = item_org i \<and>
      item_storageMode (c n i) = item_storageMode i \<and> item_cryptoVersion (c n i) = item_cryptoVersion i \<and>
      item_deletedAt (c n i) = item_deletedAt i"
  shows "keeps (preserves keys_in_step) (write_item sx i v c)"
proof -
  have "keeps (preserves keys_in_step) (updating (update_items h (c n)))" for h n
    unfolding updating_def
    by (rule keeps_preserves_statement) (auto simp: update_items_def assms intro!: keys_update_items)
  then show ?thesis unfolding write_item_def by (auto intro!: keys.keeps_parts)
qed

lemma keys_loadOwnedItem: "keeps (preserves keys_in_step) (loadOwnedItem sx i ev)"
  unfolding loadOwnedItem_def by (auto intro!: keys.keeps_parts split: option.split)

lemma keys_updateItem: "keeps (preserves keys_in_step) (updateItem wc mk sx i inp)"
  unfolding updateItem_def Let_def
  by (auto intro!: keys.keeps_parts keys_loadOwnedItem keys_write_item keeps_vault_keys [OF vault_encrypt]
      simp: set_zk_def set_sm_def split: update_item_input.split)

lemma keys_deleteItem: "keeps (preserves keys_in_step) (deleteItem sx i)"
proof -
  have d: "keeps (preserves keys_in_step) (modify (mark_deleted now t i))" for now t
    by (rule keeps_preserves_modify) (auto simp: mark_deleted_def intro!: keys_update_items)
  have o: "keeps (preserves keys_in_step) (onItemDeleted i t a ip)" for t a ip
    unfolding onItemDeleted_def
    by (auto intro!: keys.keeps_parts keeps_preserves_modify simp: keys_in_step_def)
  show ?thesis
    unfolding deleteItem_def
    by (auto intro!: keys.keeps_parts keys_loadOwnedItem keeps_preserves_transaction_of d o)
qed

text \<open>The requests on the vault, each with any outcome.\<close>

inductive vault_step :: "webcrypto \<Rightarrow> string \<Rightarrow> world \<Rightarrow> world \<Rightarrow> bool" for wc mk where
  profile_created: "createProfile sx pi w = (r, w') \<Longrightarrow> vault_step wc mk w w'"
| bootstrapped: "bootstrapProfile sx ri w = (r', w') \<Longrightarrow> vault_step wc mk w w'"
| password_changed: "changeProfilePassword sx ri w = (r', w') \<Longrightarrow> vault_step wc mk w w'"
| recovery_set: "setupProfileRecovery sx p k w = (r', w') \<Longrightarrow> vault_step wc mk w w'"
| rotated: "rotateProfileKey sx ro w = (r'', w') \<Longrightarrow> vault_step wc mk w w'"
| profile_deleted: "deleteProfile sx p w = (r', w') \<Longrightarrow> vault_step wc mk w w'"
| item_created: "createItem wc mk sx ci w = (r3, w') \<Longrightarrow> vault_step wc mk w w'"
| item_updated: "updateItem wc mk sx i ui w = (r'', w') \<Longrightarrow> vault_step wc mk w w'"
| item_deleted: "deleteItem sx i w = (r', w') \<Longrightarrow> vault_step wc mk w w'"

lemma vault_step_keys: "vault_step wc mk w w' \<Longrightarrow> keys_in_step (store w) \<Longrightarrow> keys_in_step (store w')"
  by (induction rule: vault_step.induct)
    (auto dest: preservesD [OF keys_create] preservesD [OF keys_bootstrap] preservesD [OF keys_password]
      preservesD [OF keys_recovery] preservesD [OF keys_rotate] preservesD [OF keys_delete]
      preservesD [OF keys_createItem] preservesD [OF keys_updateItem] preservesD [OF keys_deleteItem])

text \<open>C19: in every state reached by requests on profiles and items, succeeding or failing, the key version
  recorded on each live zero-knowledge item is the current one of its profile, and each item belongs to
  the organisation of its profile.\<close>

theorem reachable_keys_in_step:
  assumes "(vault_step wc mk)\<^sup>*\<^sup>* w w'" "keys_in_step (store w)"
  shows "keys_in_step (store w')"
  using assms by (induction rule: rtranclp_induct) (auto dest: vault_step_keys)

section \<open>Rotation\<close>

text \<open>C20: a rotation that succeeds was asked for by an admin of the organisation and named a new key
  for every live zero-knowledge item of the profile. It advances the key version by one, stores the new
  root key with it, and gives exactly the named items of the profile the supplied key under the new
  version; no ciphertext and no other item changes.\<close>

theorem rotation_rewraps_every_item:
  assumes "rotateProfileKey sx inp w = (Inr v, w')" "distinct (map prof_id (tbl_profiles (store w)))"
  shows "\<exists>p p'. org_profile (sx_orgId sx) (ro_profileId inp) (store w) = Some p \<and>
    org_profile (sx_orgId sx) (ro_profileId inp) (store w') = Some p' \<and> actor_rank 2 sx (sx_orgId sx) (store w) \<and>
    v = prof_keyVersion p + 1 \<and> prof_keyVersion p' = v \<and> prof_wrappedRootKey p' = Some (ro_wrappedRootKey inp) \<and>
    item_id ` set (zk_items_in_profile (sx_orgId sx) (ro_profileId inp) (store w)) \<subseteq> ri_itemId ` set (ro_rekeyedItems inp) \<and>
    map without_time (tbl_items (store w')) = map (\<lambda>i. without_time
      (rekeyed (sx_orgId sx) (ro_profileId inp) v (ro_rekeyedItems inp) i)) (tbl_items (store w))"
proof -
  let ?t = "sx_orgId sx" and ?k = "ro_profileId inp"
  from assms(1) obtain q w1 w2 where
    t: "transaction (rotate_rows (prof_org q) inp) w1 = (Inr v, w2)"
    and l: "loadProfileForWrite sx ?k Ev_profile_rotate w = (Inr q, w1)"
    and log: "logSessionAudit (profile_audit sx (prof_org q) Ev_profile_rotate None
         (Some [(''profileId'', JStr ?k), (''itemCount'', JNum (int (length (ro_rekeyedItems inp))))])) w2 = (Inr (), w')"
    by (auto simp: rotateProfileKey_def followed_by_def andThen_Inr fail_with_def succeed_def split: if_splits)
  from load_profile_Inr [OF l [unfolded loadProfileForWrite_def]] have q: "store w1 = store w" "prof_org q = ?t"
    "actor_rank 2 sx ?t (store w)" by (auto simp: same_store_def)
  from t q obtain w3 where r: "rotate_rows ?t inp w1 = (Inr v, w3)" and st: "store w2 = store w3"
    by (auto simp: transaction_ok)
  have k: "keeps only_audits (logSessionAudit e)" for e by (rule session_log.keeps_log_where) (rule TrueI)
  from audits_where_frame [OF keepsD [OF k log]] have frame: "tbl_items (store w') = tbl_items (store w3)"
    "tbl_profiles (store w') = tbl_profiles (store w3)" by (simp_all add: st)
  from r obtain p rows now where p: "org_profile ?t ?k (store w) = Some p" "v = prof_keyVersion p + 1"
    "\<And>i. i \<in> set (zk_items_in_profile ?t ?k (store w)) \<Longrightarrow> item_id i \<in> set (map ri_itemId (ro_rekeyedItems inp))"
    and rows: "map without_time rows = map (\<lambda>i. without_time (rekeyed ?t ?k v (ro_rekeyedItems inp) i)) (tbl_items (store w))"
    and s3: "store w3 = (store w)\<lparr>tbl_profiles := rotated_profiles ?t inp p now (tbl_profiles (store w)), tbl_items := rows\<rparr>"
    by (rule rotate_rows_Inr) (simp add: q)
  have "org_profile ?t ?k (store w') = Some (new_root_key inp p now p)"
  proof -
    from org_profile_SomeD [OF p(1)] have pin: "p \<in> set (tbl_profiles (store w))" "prof_id p = ?k" "prof_org p = ?t" by auto
    have "find (\<lambda>x. orgScope prof_org ?t x \<and> prof_id x = ?k) (rotated_profiles ?t inp p now (tbl_profiles (store w))) =
      map_option (\<lambda>x. if prof_id x = ?k \<and> prof_keyVersion x = prof_keyVersion p \<and> prof_org x = ?t
        then new_root_key inp p now x else x) (find (\<lambda>x. orgScope prof_org ?t x \<and> prof_id x = ?k) (tbl_profiles (store w)))"
      unfolding rotated_profiles_def by (rule find_map_same) (simp add: new_root_key_def orgScope_def)
    with p(1) pin show ?thesis by (simp add: org_profile_def findFirst_def frame s3)
  qed
  with p q(3) rows s3 frame show ?thesis
    by (intro exI [of _ p] exI [of _ "new_root_key inp p now p"]) (auto simp: new_root_key_def)
qed

section \<open>No lost update\<close>

definition items_kept :: "world \<Rightarrow> world \<Rightarrow> bool" where
  "items_kept w w' \<longleftrightarrow> tbl_items (store w') = tbl_items (store w)"

lemma items_kept_refl [simp]: "reflp items_kept"
  by (rule reflpI) (simp add: items_kept_def)

lemma items_kept_trans [simp]: "transp items_kept"
  by (rule transpI) (simp add: items_kept_def)

lemma items_kept_vault: "keeps vault_kept m \<Longrightarrow> keeps items_kept m"
  by (simp add: keeps_def vault_kept_def items_kept_def)

lemma items_kept_audits: "keeps (audits_where P) m \<Longrightarrow> keeps items_kept m"
  unfolding keeps_def items_kept_def using audits_where_frame(1) by blast

lemma update_no_hit:
  "filter h xs = [] \<Longrightarrow> map (\<lambda>x. if h x then u x else x) xs = xs"
  by (induction xs) (auto split: if_splits)

lemma write_item_Inl: "write_item sx i v c w = (Inl e, w') \<Longrightarrow> items_kept w w'"
  by (auto simp: write_item_def andThen_Inl updating_Inr updating_def [symmetric] fail_with_def succeed_def
      items_kept_def update_items_def update_no_hit statement_fails split: if_splits)
    (auto simp: updating_def statement_fails)

lemma write_item_Inr:
  assumes "write_item sx i v c w = (Inr u, w')" "distinct (map item_id (tbl_items (store w)))"
  obtains n row where "row \<in> set (tbl_items (store w))" "item_id row = i" "item_contentVersion row = v"
    "item_org row = sx_orgId sx"
    "tbl_items (store w') = map (\<lambda>r. if item_id r = i then c n r else r) (tbl_items (store w))"
proof -
  let ?hit = "\<lambda>r. item_id r = i \<and> item_contentVersion r = v \<and> orgScope item_org (sx_orgId sx) r"
  let ?n = "clock w (ticks w)"
  from assms(1) have ne: "filter ?hit (tbl_items (store w)) \<noteq> []"
    and st: "tbl_items (store w') = map (\<lambda>r. if ?hit r then c ?n r else r) (tbl_items (store w))"
    by (auto simp: write_item_def andThen_Inr updating_Inr update_items_def fail_with_def succeed_def split: if_splits)
  from ne obtain row where row: "row \<in> set (tbl_items (store w))" "?hit row" by (auto simp: filter_empty_conv)
  have "?hit r \<longleftrightarrow> item_id r = i" if "r \<in> set (tbl_items (store w))" for r
    using row that distinct_map_inj_on_eq [OF assms(2) that row(1)] by auto
  with st have "tbl_items (store w') = map (\<lambda>r. if item_id r = i then c ?n r else r) (tbl_items (store w))"
    by simp
  with row show ?thesis by (intro that [of row ?n]) (auto simp: orgScope_def)
qed

lemma keeps_loadOwnedItem: "keeps items_kept (loadOwnedItem sx i ev)"
proof -
  have d: "keeps items_kept (auditDeniedSession f x :: item_row server)" for f x
    by (rule items_kept_audits [OF keeps_auditDeniedSession [of "\<lambda>_. True"]]) simp
  have q: "keeps items_kept (select g)" for g :: "db \<Rightarrow> item_row option"
    by (rule items_kept_vault) (rule vault_same [OF keeps_select])
  show ?thesis
    unfolding loadOwnedItem_def
    by (rule keeps_andThen [OF items_kept_trans q]) (simp add: d split: option.split)
qed

text \<open>A step that cannot fail after one that may.\<close>

lemma keeps_error_sure:
  "keeps_error R m \<Longrightarrow> (\<And>w e w'. k w \<noteq> (Inl e, w')) \<Longrightarrow> keeps_error R (followed_by m k)"
  by (auto simp: keeps_error_def followed_by_def andThen_Inl)

lemma updateItem_Inl: "updateItem wc mk sx i inp w = (Inl e, w') \<Longrightarrow> items_kept w w'"
proof -
  have wr: "keeps_error items_kept (write_item sx i v c)" for v c
    by (rule keeps_errorI) (rule write_item_Inl)
  have sure: "followed_by (logSessionAudit x) (succeed v) w1 \<noteq> (Inl e1, w2)" for x w1 e1 w2 and v :: int
    by (simp add: session_log.log_then succeed_def)
  have "keeps_error items_kept (updateItem wc mk sx i inp)"
    unfolding updateItem_def Let_def
    by (rule keeps_error_andThen [OF items_kept_trans keeps_loadOwnedItem], rule keeps_error_sure [OF _ sure])
      (auto intro!: keeps_error_andThen [OF items_kept_trans items_kept_vault [OF vault_encrypt]] wr
        split: update_item_input.split)
  then show "updateItem wc mk sx i inp w = (Inl e, w') \<Longrightarrow> items_kept w w'" by (rule keeps_errorD)
qed

lemma updateItem_Inr:
  assumes "updateItem wc mk sx i inp w = (Inr v, w')" "distinct (map item_id (tbl_items (store w)))"
  obtains row c where "row \<in> set (tbl_items (store w))" "item_id row = i" "item_org row = sx_orgId sx"
    "item_contentVersion row = up_contentVersion inp" "v = item_contentVersion row + 1"
    "tbl_items (store w') = map (\<lambda>r. if item_id r = i then c r else r) (tbl_items (store w))"
    "\<And>r. item_id (c r) = item_id r" "\<And>r. item_contentVersion (c r) = v"
proof -
  let ?log = "followed_by (logSessionAudit (item_audit sx i Ev_item_update None)) (succeed v)"
  from assms(1) obtain item w1 w2 where l: "loadOwnedItem sx i Ev_item_update w = (Inr item, w1)"
    and v: "v = item_contentVersion item + 1"
    and b: "(case inp of Update_zk a b c d \<Rightarrow> write_item sx i (up_contentVersion inp) (set_zk i inp v)
        | Update_sm payload d \<Rightarrow>
            andThen (encryptServerEnvelope wc mk (sx_orgId sx) (item_profileId item) i (payload_bytes payload))
              (\<lambda>encrypted. write_item sx i (up_contentVersion inp) (set_sm i inp encrypted v))) w1 = (Inr (), w2)"
    and log: "?log w2 = (Inr v, w')"
    by (auto simp: updateItem_def Let_def followed_by_def [of _ "followed_by _ _"] andThen_Inr
        session_log.log_then succeed_def)
  from loadOwnedItem_Inr [OF l] have item: "item \<in> set (tbl_items (store w))" "item_id item = i" and w1: "store w1 = store w"
    by auto
  obtain w3 c where c: "write_item sx i (up_contentVersion inp) c w3 = (Inr (), w2)" "tbl_items (store w3) = tbl_items (store w)"
    "\<And>n r. item_id (c n r) = item_id r" "\<And>n r. item_contentVersion (c n r) = v"
  proof (cases inp)
    case (Update_zk a b c d)
    with b w1 show ?thesis by (intro that [of "set_zk i inp v" w1]) (auto simp: set_zk_def)
  next
    case (Update_sm payload d)
    with b obtain x w3 where e: "encryptServerEnvelope wc mk (sx_orgId sx) (item_profileId item) i (payload_bytes payload) w1 = (Inr x, w3)"
      and wr: "write_item sx i (up_contentVersion inp) (set_sm i inp x v) w3 = (Inr (), w2)" by (auto simp: andThen_Inr)
    from keepsD [OF vault_encrypt e] w1 have "tbl_items (store w3) = tbl_items (store w)" by (simp add: vault_kept_def)
    with wr show ?thesis by (intro that [of "set_sm i inp x v" w3]) (auto simp: set_sm_def)
  qed
  from c(1) obtain n row where row: "row \<in> set (tbl_items (store w))" "item_id row = i" "item_org row = sx_orgId sx"
    "item_contentVersion row = up_contentVersion inp"
    "tbl_items (store w2) = map (\<lambda>r. if item_id r = i then c n r else r) (tbl_items (store w))"
    by (rule write_item_Inr) (auto simp: c(2) assms(2))
  from distinct_map_inj_on_eq [OF assms(2) row(1) item(1)] row(2) item(2) have "row = item" by simp
  moreover have "tbl_items (store w') = tbl_items (store w2)"
    using log audits_where_frame(1) [OF session_log.log_where [of "\<lambda>_. True"]]
    by (auto simp: session_log.log_then succeed_def)
  ultimately show ?thesis using row c(3,4) v by (intro that [of row "c n"]) auto
qed

text \<open>Updates of one item by any callers, one after the other; what each was based on, when accepted.\<close>

fun update_run ::
  "webcrypto \<Rightarrow> string \<Rightarrow> string \<Rightarrow> (session_ctx \<times> update_item_input) list \<Rightarrow> world \<Rightarrow> int list \<times> world" where
  "update_run wc mk i [] w = ([], w)"
| "update_run wc mk i ((sx, inp) # reqs) w =
     (case updateItem wc mk sx i inp w of
        (Inl e, w') \<Rightarrow> update_run wc mk i reqs w'
      | (Inr v, w') \<Rightarrow> (let (vs, w'') = update_run wc mk i reqs w' in (up_contentVersion inp # vs, w'')))"

definition item_at :: "string \<Rightarrow> int \<Rightarrow> db \<Rightarrow> bool" where
  "item_at i v d = (distinct (map item_id (tbl_items d)) \<and>
     (\<forall>r \<in> set (tbl_items d). item_id r = i \<longrightarrow> item_contentVersion r = v))"

lemma update_run_increasing:
  "update_run wc mk i reqs w = (vs, w') \<Longrightarrow> item_at i v (store w) \<Longrightarrow>
     vs = map (\<lambda>k. v + int k) [0..<length vs] \<and> item_at i (v + int (length vs)) (store w')"
proof (induction reqs arbitrary: w v vs)
  case Nil
  then show ?case by simp
next
  case (Cons r reqs)
  obtain sx inp where r: "r = (sx, inp)" by (cases r)
  obtain o1 w1 where u: "updateItem wc mk sx i inp w = (o1, w1)" by fastforce
  show ?case
  proof (cases o1)
    case (Inl e)
    with u updateItem_Inl have "item_at i v (store w1)"
      using Cons.prems(2) by (auto simp: item_at_def items_kept_def)
    moreover have "update_run wc mk i reqs w1 = (vs, w')" using Cons.prems(1) r u Inl by simp
    ultimately show ?thesis by (rule Cons.IH [rotated])
  next
    case (Inr n)
    with u have ok: "updateItem wc mk sx i inp w = (Inr n, w1)" by simp
    have dist: "distinct (map item_id (tbl_items (store w)))" using Cons.prems(2) by (simp add: item_at_def)
    obtain row c where row: "row \<in> set (tbl_items (store w))" "item_id row = i" "item_org row = sx_orgId sx"
      "item_contentVersion row = up_contentVersion inp" "n = item_contentVersion row + 1"
      and st: "tbl_items (store w1) = map (\<lambda>r. if item_id r = i then c r else r) (tbl_items (store w))"
      and c: "\<And>r. item_id (c r) = item_id r" "\<And>r. item_contentVersion (c r) = n"
      by (rule updateItem_Inr [OF ok dist]) (rule that)
    from row Cons.prems(2) have v: "up_contentVersion inp = v" "n = v + 1" by (auto simp: item_at_def)
    have "map item_id (tbl_items (store w1)) = map item_id (tbl_items (store w))" by (simp add: st c)
    then have at: "item_at i (v + 1) (store w1)"
      using Cons.prems(2) v c unfolding item_at_def by (auto simp: st simp del: map_map)
    from Cons.prems(1) r u Inr obtain vs' where vs: "vs = v # vs'" "update_run wc mk i reqs w1 = (vs', w')"
      by (auto simp: v split: prod.splits)
    from Cons.IH [OF vs(2) at] have tail: "vs' = map (\<lambda>k. v + 1 + int k) [0..<length vs']"
      "item_at i (v + int (length vs)) (store w')" by (simp_all add: vs(1) add.assoc)
    have "vs = map (\<lambda>k. v + int k) [0..<length vs]"
    proof -
      have "map (\<lambda>k. v + int k) [0..<Suc (length vs')] = v # map (\<lambda>k. v + 1 + int k) [0..<length vs']"
        by (simp add: upt_conv_Cons map_Suc_upt [symmetric] comp_def add.assoc del: upt_Suc)
      with tail(1) show ?thesis by (simp add: vs(1) del: upt_Suc)
    qed
    with tail(2) show ?thesis by simp
  qed
qed

text \<open>C21: of any sequence of updates of one item, whoever sends them, the accepted ones were based on
  consecutive versions, each on the state the previous one left; so two accepted updates never name
  the same version, and no accepted update is overwritten by one that had not seen it.\<close>

theorem no_update_is_lost:
  assumes "update_run wc mk i reqs w = (accepted, w')" "item_at i v (store w)"
  shows "accepted = map (\<lambda>k. v + int k) [0..<length accepted] \<and> item_at i (v + int (length accepted)) (store w')"
  using assms by (rule update_run_increasing)

section \<open>What is stored is what is revealed\<close>

lemma put_plain: "\<not> is_index k \<Longrightarrow> k \<notin> fst ` set ob \<Longrightarrow> put_member k v ob = ob @ [(k, v)]"
proof -
  assume k: "\<not> is_index k" "k \<notin> fst ` set ob"
  then have "takeWhile (\<lambda>e. \<not> key_before k (fst e)) ob = ob" "dropWhile (\<lambda>e. \<not> key_before k (fst e)) ob = []"
    by (simp_all add: key_before_def)
  with k show ?thesis by (simp add: put_member_def)
qed

lemma foldl_put_plain:
  "list_all (\<lambda>e. \<not> is_index (fst e)) ob \<Longrightarrow> distinct (map fst (acc @ ob)) \<Longrightarrow>
     foldl (\<lambda>a (k, v). put_member k v a) acc ob = acc @ ob"
proof (induction ob arbitrary: acc)
  case (Cons e ob)
  then show ?case by (cases e) (auto simp: put_plain)
qed simp

lemma kind_of_kind_name [simp]: "kind_of_name (kind_name k) = Some k"
  by (cases k) simp_all

lemma payload_names:
  "map fst (json_member ''v'' f a @ json_member ''label'' g b @ json_member ''kind'' h c @ json_member ''tags'' m d @
     json_member ''notes'' n e @ [(''fields'', x)]) = filter (\<lambda>k. (k = ''v'' \<longrightarrow> a \<noteq> None) \<and> (k = ''label'' \<longrightarrow> b \<noteq> None) \<and>
     (k = ''kind'' \<longrightarrow> c \<noteq> None) \<and> (k = ''tags'' \<longrightarrow> d \<noteq> None) \<and> (k = ''notes'' \<longrightarrow> e \<noteq> None))
     [''v'', ''label'', ''kind'', ''tags'', ''notes'', ''fields'']"
  by (simp add: json_member_def split: option.split)

lemma wf_payload_json: "wf_json (JObj (pl_fields p)) \<Longrightarrow> wf_json (payload_json p)"
proof -
  assume wf: "wf_json (JObj (pl_fields p))"
  let ?ob = "json_member ''v'' JNum (pl_v p) @ json_member ''label'' JStr (pl_label p) @
     json_member ''kind'' (\<lambda>k. JStr (kind_name k)) (pl_kind p) @
     json_member ''tags'' (\<lambda>ts. JArr (map JStr ts)) (pl_tags p) @
     json_member ''notes'' JStr (pl_notes p) @ [(''fields'', JObj (pl_fields p))]"
  have plain: "list_all (\<lambda>e. \<not> is_index (fst e)) ?ob"
    by (auto simp: json_member_def is_index_def is_digit_def split: option.split)
  have "distinct (map fst ?ob)" unfolding payload_names by (rule distinct_filter) simp
  with foldl_put_plain [OF plain, of "[]"] have "foldl (\<lambda>a (k, v). put_member k v a) [] ?ob = ?ob" by simp
  moreover have "list_all (\<lambda>(k, v). wf_json v) ?ob"
    using wf by (auto simp: json_member_def list_all_iff split: option.split)
  ultimately show ?thesis by (simp only: payload_json_def wf_json.simps simp_thms)
qed

lemma schema_payload_json: "pl_label p \<noteq> Some [] \<Longrightarrow> ItemPayloadSchema (payload_json p) = Some p"
proof -
  assume l: "pl_label p \<noteq> Some []"
  have s: "list_all is_string (map JStr ts)" "map (\<lambda>j. the (as_string j)) (map JStr ts) = ts" for ts
    by (simp_all add: list_all_iff comp_def)
  show ?thesis
    using l s
    by (cases "pl_v p"; cases "pl_label p"; cases "pl_kind p"; cases "pl_tags p"; cases "pl_notes p")
      (simp_all add: ItemPayloadSchema_def payload_json_def json_member_def optional_def del: kind_of_name.simps)
qed

lemma parse_payload:
  assumes "wf_json (JObj (pl_fields p))" "pl_label p \<noteq> Some []"
  shows "decodeServerManagedPayload JSON_parse i (decode_text (payload_bytes p)) =
    p\<lparr>pl_label := Some (orElse (pl_label p) (fallbackItemLabel i)), pl_kind := Some (orElse (pl_kind p) Kind_opaque)\<rparr>"
  using assms
  by (simp add: decodeServerManagedPayload_def payload_bytes_def parse_stringify wf_payload_json schema_payload_json
      fallbackItemLabel_def del: wf_json.simps)

text \<open>Decryption reads nothing but the profiles.\<close>

lemma fst_then_lift:
  "fst (andThen m (\<lambda>x. lift_result (g x)) w) = (case fst (m w) of Inl e \<Rightarrow> Inl e | Inr x \<Rightarrow> g x)"
  by (simp add: andThen_def lift_result_def split: prod.split sum.split)

lemma fst_select_quiet: "faults w (stmts w) = None \<Longrightarrow>
    fst (andThen (select q) f w) = fst (f (q (store w)) (w\<lparr>stmts := Suc (stmts w)\<rparr>))"
  by (simp add: andThen_def select_def statement_def)

lemma fst_unwrap: "fst (unwrap_key wc mk s t p w) = fst (unwrap_key wc mk s t p w')"
  by (simp add: unwrap_key_def andThen_def lift_result_def succeed_def split: sum.split)

lemma decrypt_reads_profiles:
  assumes "\<And>n. faults w1 n = None" "\<And>n. faults w2 n = None"
    and "tbl_profiles (store w1) = tbl_profiles (store w2)"
  shows "fst (decryptServerEnvelope wc mk t item cached w1) = fst (decryptServerEnvelope wc mk t item cached w2)"
proof -
  have d: "wrapped_dek q (store w1) = wrapped_dek q (store w2)" for q by (simp add: wrapped_dek_def assms(3))
  have "fst (loadProfileContentKey wc mk t q w1) = fst (loadProfileContentKey wc mk t q w2)" for q
    unfolding loadProfileContentKey_def loadWrappedDek_def fst_select_quiet [OF assms(1)] fst_select_quiet [OF assms(2)] d
    by (simp add: fail_with_def fst_unwrap [of wc mk _ t q "w1\<lparr>stmts := _\<rparr>" "w2\<lparr>stmts := Suc (stmts w2)\<rparr>"])
  then have c: "fst (content_key wc mk t p v cached w1) = fst (content_key wc mk t p v cached w2)" for p v
    by (simp add: content_key_def fail_with_def succeed_def split: option.split)
  show ?thesis
    unfolding decryptServerEnvelope_def by (simp add: fst_then_lift c fail_with_def split: option.split)
qed

lemma envelope_not_empty:
  assumes "encryptServerEnvelope wc mk t (Some q) i pt w = (Inr c, w')" "q \<noteq> []" "hmac_length wc" "quiet w"
  shows "se_ciphertext c \<noteq> []" "se_iv c \<noteq> []"
proof -
  from assms(1,2) obtain k w1 v m w2 where k: "ensureProfileDek wc mk t q w = (Inr k, w1)"
    and e: "serverEncrypt wc pt k SERVER_ENVELOPE_VERSION m w1 = (Inr c, w2)"
    by (auto simp: encryptServerEnvelope_def Let_def followed_by_def andThen_Inr succeed_def)
  from keepsD [OF vault_ensure k] have "randoms w1 = randoms w" by (simp add: vault_kept_def env_kept_def)
  with assms(4) have "length (randoms w1 (draws w1) IV_LENGTH) = IV_LENGTH" by (simp add: quiet_def)
  then have iv: "randoms w1 (draws w1) IV_LENGTH \<noteq> []" by (auto simp: IV_LENGTH_def)
  from serverEncrypt_ok [OF e] obtain key where
    c: "c = \<lparr>se_ciphertext = toBase64 (wc_hmac wc key COMMITMENT_CONTEXT @
          wc_encrypt wc key (randoms w1 (draws w1) IV_LENGTH) (map_option buildServerAad m) pt),
        se_iv = toBase64 (randoms w1 (draws w1) IV_LENGTH), se_keyVersion = SERVER_ENVELOPE_VERSION\<rparr>"
    by (auto simp: Let_def SERVER_ENVELOPE_VERSION_def COMMIT_MIN_VERSION_def)
  have "wc_hmac wc key COMMITMENT_CONTEXT \<noteq> []"
    using assms(3) by (metis hmac_length_def list.size(3) zero_neq_numeral)
  with iv c show "se_ciphertext c \<noteq> []" "se_iv c \<noteq> []" by simp_all
qed

lemma create_sm_Inr:
  assumes "createItem wc mk sx (Create_sm p payload) w = (Inr i, w')"
  obtains q c w1 w2 n where
    "encryptServerEnvelope wc mk (sx_orgId sx) (Some q) i (payload_bytes payload) w1 = (Inr c, w2)"
    "same_store w w1" "env_kept w w'" "tbl_items (store w') = tbl_items (store w2) @ [sm_row sx i q payload c n]"
    "tbl_profiles (store w') = tbl_profiles (store w2)" "i \<notin> item_id ` set (tbl_items (store w2))"
    "q \<in> prof_id ` set (tbl_profiles (store w))"
proof -
  let ?i = "uuids w (draws w)" and ?w0 = "w\<lparr>draws := Suc (draws w)\<rparr>"
  from assms obtain q c w1 w2 w3 where
    r: "resolveTargetProfile sx Server_managed p ?w0 = (Inr q, w1)"
    and e: "encryptServerEnvelope wc mk (sx_orgId sx) (Some q) ?i (payload_bytes payload) w1 = (Inr c, w2)"
    and ins: "insert_item (sm_row sx ?i q payload c) w2 = (Inr (), w3)"
    and i: "i = ?i" and log: "snd (logSessionAudit (item_audit sx ?i Ev_item_create None) w3) = w'"
    by (auto simp: createItem_def create_sm_def andThen_Inr followed_by_def [of "insert_item _"] session_log.log_then succeed_def)
  from resolveTargetProfile_Inr [OF r] have w1: "same_store w w1" "q \<in> prof_id ` set (tbl_profiles (store w))"
    by (auto simp: same_store_def env_kept_def)
  from keepsD [OF vault_encrypt e] have env2: "env_kept w1 w2" by (simp add: vault_kept_def)
  from ins have st: "store w3 = (store w2)\<lparr>tbl_items := tbl_items (store w2) @ [sm_row sx ?i q payload c (pg_now w2)]\<rparr>"
    and fresh: "?i \<notin> item_id ` set (tbl_items (store w2))" and env3: "env_kept w2 w3"
    by (auto simp: insert_item_def statement_ok insert_items_def sm_row_def blank_item_def env_kept_def split: if_splits)
  have "only_audits w3 w'"
    using log session_log.log_where [of "\<lambda>_. True"] by auto
  then have "env_kept w3 w'" and fr: "tbl_items (store w') = tbl_items (store w3)" "tbl_profiles (store w') = tbl_profiles (store w3)"
    by (auto simp: audits_where_def)
  then have "env_kept w w'" using w1(1) env2 env3 by (meson env_kept_trans same_store_def)
  with e w1 fresh st fr i show ?thesis by (intro that [of q w1 c w2 "pg_now w2"]) auto
qed

text \<open>C22: a server-managed item that was created reveals the payload it was created with to an owner
  of the same organisation: what is stored decrypts, and the decrypted text parses back to the same
  payload, with the label and the kind filled in. Profile ids are not empty, every statement of
  the reveal succeeds, and the fields are what \<open>JSON.parse\<close> can produce, without fractions.\<close>

theorem created_item_reveals_its_payload:
  assumes "createItem wc mk sx (Create_sm p payload) w = (Inr i, w')" "aead_correct wc" "hmac_length wc" "quiet w"
    and "[] \<notin> prof_id ` set (tbl_profiles (store w))"
    and "wf_json (JObj (pl_fields payload))" "pl_label payload \<noteq> Some []" "sx_orgId sx' = sx_orgId sx"
  shows "fst (ownerReveal wc mk sx' i w') = Inr (payload\<lparr>pl_label := Some (orElse (pl_label payload) (fallbackItemLabel i)),
    pl_kind := Some (orElse (pl_kind payload) Kind_opaque)\<rparr>)"
proof -
  let ?t = "sx_orgId sx"
  obtain q c w1 w2 n where e: "encryptServerEnvelope wc mk ?t (Some q) i (payload_bytes payload) w1 = (Inr c, w2)"
    and w1: "same_store w w1" and env: "env_kept w w'"
    and items: "tbl_items (store w') = tbl_items (store w2) @ [sm_row sx i q payload c n]"
    and ps: "tbl_profiles (store w') = tbl_profiles (store w2)" and fresh: "i \<notin> item_id ` set (tbl_items (store w2))"
    and q: "q \<in> prof_id ` set (tbl_profiles (store w))"
    using assms(1) by (rule create_sm_Inr)
  let ?row = "sm_row sx i q payload c n"
  have quiet: "quiet w1" "quiet w2" "quiet w'"
    using assms(4) w1 env keepsD [OF vault_encrypt e] by (simp_all add: quiet_def same_store_def env_kept_def vault_kept_def)
  have "q \<noteq> []" using q assms(5) by metis
  note filled = envelope_not_empty [OF e this assms(3) quiet(1)]
  have row: "item_id ?row = i" "item_org ?row = ?t" "item_deletedAt ?row = None" "item_storageMode ?row = Server_managed"
    "item_serverCiphertext ?row = Some (se_ciphertext c)" "item_serverIv ?row = Some (se_iv c)"
    "item_serverKeyVersion ?row = Some (se_keyVersion c)" "stores_envelope ?row (Some q) i c"
    by (simp_all add: sm_row_def blank_item_def stores_envelope_def)
  have "find (\<lambda>r. orgScope item_org ?t r \<and> item_id r = i \<and> item_deletedAt r = None) (tbl_items (store w')) = Some ?row"
  proof -
    have "find (\<lambda>r. orgScope item_org ?t r \<and> item_id r = i \<and> item_deletedAt r = None) (tbl_items (store w2)) = None"
      using fresh by (auto simp: find_None_iff)
    then show ?thesis by (simp add: items find_append row orgScope_def)
  qed
  then have load: "loadOwnedItem sx' i Ev_item_export w' = (Inr ?row, w'\<lparr>stmts := Suc (stmts w')\<rparr>)"
    using quiet(3) assms(8)
    by (simp add: loadOwnedItem_def findFirst_def andThen_def select_def statement_def quiet_def succeed_def)
  let ?w3 = "w'\<lparr>stmts := Suc (stmts w')\<rparr>"
  have no: "\<And>m. faults w2 m = None" "\<And>m. faults ?w3 m = None" using quiet by (simp_all add: quiet_def)
  have "fst (decryptServerEnvelope wc mk ?t ?row None ?w3) = fst (decryptServerEnvelope wc mk ?t ?row None w2)"
    by (rule decrypt_reads_profiles [OF no(2,1)]) (simp add: ps)
  also have "\<dots> = Inr (payload_bytes payload)"
    by (rule decrypt_encryptServerEnvelope [OF assms(2,3) e row(8) no(1)])
  finally obtain w4 where dec: "decryptServerEnvelope wc mk ?t ?row None ?w3 = (Inr (payload_bytes payload), w4)"
    by (metis prod.collapse)
  show ?thesis
    using load row filled dec assms(8) parse_payload [OF assms(6,7)]
    by (simp add: ownerReveal_def andThen_def session_log.log_then succeed_def)
qed

section \<open>Concrete runs\<close>

definition sample_vault :: db where
  "sample_vault = sample_db\<lparr>tbl_members := [sample_member\<lparr>mem_role := ''admin''\<rparr>],
     tbl_profiles := [sample_profile\<lparr>prof_wrappedRootKey := Some ''wrapped-1''\<rparr>]\<rparr>"

definition sample_rotation :: rotate_input where
  "sample_rotation = \<lparr>ro_profileId = ''p1'', ro_wrappedRootKey = ''wrapped-2'', ro_recoveryWrappedRootKey = None,
     ro_rekeyedItems = [\<lparr>ri_itemId = ''i1'', ri_encryptedItemKey = ''new-key''\<rparr>]\<rparr>"

lemmas vault_rows = sample_team_rows sample_vault_def sample_rotation_def

lemma sample_vault_keys: "keys_in_step (store (sample_world sample_vault))"
  by (simp add: keys_in_step_def item_at_home_def item_in_step_def vault_rows)

lemma sample_rotation_runs: "fst (rotateProfileKey sample_session sample_rotation (sample_world sample_vault)) = Inr 2"
  by (simp add: rotateProfileKey_def loadProfileForWrite_def load_profile_as_def forbidden_logged_def eff_defs select_def statement_def
      org_profile_def findFirst_def orgScope_def vault_rows guarded_def requireOrgRole_def member_row_of_def
      roleRank_def ROLE_RANK_def transaction_def rotate_rows_def advisory_lock_def new_Date_def updating_def
      zk_items_in_profile_def findMany_def update_profiles_def update_items_def new_root_key_def rekey_item_def
      logSessionAudit_def withAuditFailureWarning_def
      mirrorAuditRow_def insert_audit_def insert_audits_def Let_def)

theorem reachable_keys_in_step_witness:
  "keys_in_step (store (snd (rotateProfileKey sample_session sample_rotation (sample_world sample_vault)))) \<and>
   fst (rotateProfileKey sample_session sample_rotation (sample_world sample_vault)) = Inr 2"
  using reachable_keys_in_step [OF r_into_rtranclp [where r = "vault_step toy_webcrypto sample_master", OF rotated [OF prod.collapse [symmetric]]] sample_vault_keys]
    sample_rotation_runs by blast

theorem rotation_rewraps_every_item_witness:
  "\<exists>p'. org_profile ''o1'' ''p1'' (store (snd (rotateProfileKey sample_session sample_rotation (sample_world sample_vault)))) = Some p' \<and>
     prof_keyVersion p' = 2 \<and> prof_wrappedRootKey p' = Some ''wrapped-2''"
proof -
  let ?r = "rotateProfileKey sample_session sample_rotation (sample_world sample_vault)"
  have r: "?r = (Inr 2, snd ?r)" using sample_rotation_runs by (metis prod.collapse)
  have "distinct (map prof_id (tbl_profiles (store (sample_world sample_vault))))" by (simp add: vault_rows)
  from rotation_rewraps_every_item [OF r this] show ?thesis
    by (auto simp: sample_session_def sample_rotation_def)
qed

definition sample_update :: update_item_input where
  "sample_update = Update_zk ''label'' ''key-1'' ''text-1'' 1"

lemma sample_updates_run: "fst (update_run toy_webcrypto sample_master ''i1''
    [(sample_session, sample_update), (sample_session, sample_update)] (sample_world sample_vault)) = [1]"
  by (simp add: updateItem_def loadOwnedItem_def sample_update_def eff_defs select_def statement_def findFirst_def
      orgScope_def vault_rows write_item_def new_Date_def updating_def update_items_def set_zk_def
      logSessionAudit_def withAuditFailureWarning_def
      mirrorAuditRow_def insert_audit_def insert_audits_def Let_def)

theorem no_update_is_lost_witness:
  "item_at ''i1'' 2 (store (snd (update_run toy_webcrypto sample_master ''i1''
    [(sample_session, sample_update), (sample_session, sample_update)] (sample_world sample_vault))))"
proof -
  let ?run = "update_run toy_webcrypto sample_master ''i1''
    [(sample_session, sample_update), (sample_session, sample_update)] (sample_world sample_vault)"
  have "item_at ''i1'' 1 (store (sample_world sample_vault))" by (simp add: item_at_def vault_rows)
  with no_update_is_lost [OF prod.collapse [symmetric, of ?run]]
  have "item_at ''i1'' (1 + int (length (fst ?run))) (store (snd ?run))" by blast
  then show ?thesis unfolding sample_updates_run by simp
qed

definition sample_payload :: item_payload where
  "sample_payload = \<lparr>pl_v = None, pl_label = Some ''db'', pl_kind = None, pl_tags = None, pl_notes = None,
     pl_fields = [(''password'', JStr ''s3cret'')]\<rparr>"

definition sample_managed :: db where
  "sample_managed = sample_db\<lparr>tbl_items := [], tbl_profiles := [sample_profile\<lparr>prof_storageMode := Server_managed\<rparr>]\<rparr>"

lemma sample_managed_profile: "tbl_profiles sample_managed = [sample_profile\<lparr>prof_storageMode := Server_managed\<rparr>]"
  "prof_id sample_profile = ''p1''" "prof_org sample_profile = ''o1''"
  by (simp_all add: sample_managed_def sample_profile_def)

lemma sample_create_runs: "\<exists>i w'. createItem toy_webcrypto sample_master sample_session
    (Create_sm (Some ''p1'') sample_payload) (sample_world sample_managed) = (Inr i, w')"
proof -
  let ?w = "(sample_world sample_managed)\<lparr>draws := Suc 0, stmts := Suc 0\<rparr>"
  have dek: "dek_ready toy_webcrypto sample_master ''o1'' (Some ''p1'') (store ?w)"
    by (simp add: dek_ready_def wrapped_dek_def sample_managed_def sample_rows)
  have "quiet ?w" by (simp add: quiet_def)
  from encryptServerEnvelope_returns [OF toy_aead_correct sample_master_ok this dek] obtain c w' where
    e: "encryptServerEnvelope toy_webcrypto sample_master ''o1'' (Some ''p1'') ''u'' (payload_bytes sample_payload) ?w = (Inr c, w')"
    "quiet w'" by blast
  from keepsD [OF vault_encrypt e(1)] have "tbl_items (store w') = []"
    by (simp add: vault_kept_def sample_managed_def)
  moreover have "resolveTargetProfile sample_session Server_managed (Some ''p1'')
      ((sample_world sample_managed)\<lparr>draws := Suc 0\<rparr>) = (Inr ''p1'', ?w)"
    by (simp add: resolveTargetProfile_def eff_defs select_def statement_def org_profile_def findFirst_def orgScope_def
        sample_managed_profile sample_session_def sample_world_def)
  moreover have "fst (insert_item (sm_row sample_session ''u'' ''p1'' sample_payload c) w') = Inr ()"
    using \<open>tbl_items (store w') = []\<close> e(2)
    by (simp add: insert_item_def statement_def quiet_def insert_items_def split: sum.split)
  then obtain w'' where "insert_item (sm_row sample_session ''u'' ''p1'' sample_payload c) w' = (Inr (), w'')"
    by (metis prod.collapse)
  moreover have "sx_orgId sample_session = ''o1''" by (simp add: sample_session_def)
  ultimately show ?thesis
    using e by (simp add: createItem_def create_sm_def andThen_def succeed_def followed_by_def [of "insert_item _"]
        randomUUID_def session_log.log_then)
qed

theorem created_item_reveals_its_payload_witness:
  "\<exists>i w'. createItem toy_webcrypto sample_master sample_session (Create_sm (Some ''p1'') sample_payload)
      (sample_world sample_managed) = (Inr i, w') \<and>
    fst (ownerReveal toy_webcrypto sample_master sample_session i w') = Inr (sample_payload\<lparr>pl_kind := Some Kind_opaque\<rparr>)"
proof -
  from sample_create_runs obtain i w' where r: "createItem toy_webcrypto sample_master sample_session
    (Create_sm (Some ''p1'') sample_payload) (sample_world sample_managed) = (Inr i, w')" by blast
  have "[] \<notin> prof_id ` set (tbl_profiles (store (sample_world sample_managed)))"
    by (simp add: sample_managed_def sample_rows)
  moreover have "wf_json (JObj (pl_fields sample_payload))" "pl_label sample_payload \<noteq> Some []"
    by (simp_all add: sample_payload_def put_member_def key_before_def is_index_def is_digit_def)
  ultimately have "fst (ownerReveal toy_webcrypto sample_master sample_session i w') =
      Inr (sample_payload\<lparr>pl_label := Some (orElse (pl_label sample_payload) (fallbackItemLabel i)),
        pl_kind := Some (orElse (pl_kind sample_payload) Kind_opaque)\<rparr>)"
    by (rule created_item_reveals_its_payload [OF r toy_aead_correct toy_hmac_length sample_world_quiet]) (rule refl)
  with r show ?thesis by (auto simp: sample_payload_def)
qed

section \<open>Updates and rotation\<close>

text \<open>A rotation leaves the content version alone, so an update a client prepared before it, under the old
  root key, is accepted after it, and the row then claims the new key version.\<close>

lemma stale_update_after_rotation:
  "fst (updateItem toy_webcrypto sample_master sample_session ''i1'' sample_update
     (snd (rotateProfileKey sample_session sample_rotation (sample_world sample_vault)))) = Inr 2"
  by (simp add: updateItem_def loadOwnedItem_def sample_update_def write_item_def set_zk_def
      rotateProfileKey_def loadProfileForWrite_def load_profile_as_def forbidden_logged_def eff_defs select_def statement_def
      org_profile_def findFirst_def orgScope_def vault_rows guarded_def requireOrgRole_def member_row_of_def
      roleRank_def ROLE_RANK_def transaction_def rotate_rows_def advisory_lock_def new_Date_def updating_def
      zk_items_in_profile_def findMany_def update_profiles_def update_items_def new_root_key_def rekey_item_def
      logSessionAudit_def withAuditFailureWarning_def
      mirrorAuditRow_def insert_audit_def insert_audits_def Let_def)

end
