(* ===== verification/Listings.thy ===== *)
theory Listings
  imports Items Access_Pipeline Samples
begin

text \<open>
  The paged listings of items, agents and permissions (\<open>routers/items.ts\<close>, \<open>routers/agents.ts\<close>,
  \<open>routers/permissions.ts\<close>) and the reads of one agent, on the keyset pages of \<open>Pagination\<close>. Time stamps
  of the model are milliseconds, so \<open>epochMicros\<close> multiplies by 1000.
\<close>

section \<open>Queries\<close>

record list_query =
  lq_cursor :: "string option"
  lq_limit :: "int option"

record ('a) page =
  pg_rows :: "'a list"
  pg_nextCursor :: "string option"

definition epochMicros :: "('r \<Rightarrow> int) \<Rightarrow> 'r \<Rightarrow> int" where
  "epochMicros createdAt r = createdAt r * 1000"

text \<open>One \<open>SELECT ... WHERE cond ORDER BY ... LIMIT\<close> over a table.\<close>

definition read_page :: "(db \<Rightarrow> 'r list) \<Rightarrow> ('r \<Rightarrow> int) \<Rightarrow> ('r \<Rightarrow> string) \<Rightarrow> (db \<Rightarrow> 'r \<Rightarrow> bool) \<Rightarrow> list_query \<Rightarrow>
    ('r \<Rightarrow> 'v) \<Rightarrow> ('v page) server" where
  "read_page table createdAt id_of cond q view =
     andThen (statement (\<lambda>d. case list_page (epochMicros createdAt) id_of (cond d) (lq_limit q) (lq_cursor q) (table d) of
         Inl e \<Rightarrow> Inl e | Inr p \<Rightarrow> Inr (p, d))) (\<lambda>p.
       succeed \<lparr>pg_rows = map view (fst p), pg_nextCursor = snd p\<rparr>)"

section \<open>Items\<close>

definition live_in_org :: "string \<Rightarrow> db \<Rightarrow> item_row \<Rightarrow> bool" where
  "live_in_org orgId d i = (orgScope item_org orgId i \<and> item_deletedAt i = None)"

definition listItems :: "session_ctx \<Rightarrow> list_query \<Rightarrow> (item_view page) server" where
  "listItems sx q = read_page tbl_items item_createdAt item_id (live_in_org (sx_orgId sx)) q serializeItemSummary"

text \<open>The join with the permissions of the agent; \<open>DISTINCT\<close> leaves one row per item.\<close>

definition granted_in_org :: "agent_ctx \<Rightarrow> db \<Rightarrow> item_row \<Rightarrow> bool" where
  "granted_in_org cx d i =
     ((\<exists>p \<in> set (tbl_permissions d). perm_itemId p = Some (item_id i) \<and> perm_agentId p = cx_agentId cx) \<and>
      live_in_org (cx_orgId cx) d i)"

definition listItemsForAgent :: "agent_ctx \<Rightarrow> list_query \<Rightarrow> (item_view page) server" where
  "listItemsForAgent cx q = read_page tbl_items item_createdAt item_id (granted_in_org cx) q serializeItemSummary"

section \<open>Agents\<close>

record agent_view =
  av_id :: string
  av_organizationId :: string
  av_createdBy :: "string option"
  av_kind :: agent_kind
  av_locality :: agent_locality
  av_authMethod :: string
  av_name :: string
  av_description :: "string option"
  av_publicKeyConfigured :: bool
  av_enabled :: bool
  av_revokedAt :: "int option"
  av_lastUsedAt :: "int option"
  av_metadata :: json_object
  av_createdAt :: int

definition serializeAgent :: "agent_row \<Rightarrow> agent_view" where
  "serializeAgent a = \<lparr>av_id = ag_id a, av_organizationId = ag_org a, av_createdBy = ag_createdBy a,
     av_kind = ag_kind a, av_locality = ag_locality a, av_authMethod = ag_authMethod a, av_name = ag_name a,
     av_description = ag_description a, av_publicKeyConfigured = (ag_publicKey a \<noteq> None), av_enabled = ag_enabled a,
     av_revokedAt = ag_revokedAt a, av_lastUsedAt = ag_lastUsedAt a, av_metadata = ag_metadata a,
     av_createdAt = ag_createdAt a\<rparr>"

definition listAgents :: "session_ctx \<Rightarrow> list_query \<Rightarrow> (agent_view page) server" where
  "listAgents sx q = read_page tbl_agents ag_createdAt ag_id (\<lambda>_. orgScope ag_org (sx_orgId sx)) q serializeAgent"

definition getAgent :: "session_ctx \<Rightarrow> string \<Rightarrow> agent_view server" where
  "getAgent sx agentId =
     andThen (select (\<lambda>d. findFirst ag_org (sx_orgId sx) (\<lambda>a. ag_id a = agentId) (tbl_agents d))) (\<lambda>agent.
       case agent of None \<Rightarrow> fail_with (notFound ''AGENT_NOT_FOUND'') | Some a \<Rightarrow> succeed (serializeAgent a))"

text \<open>The agent reads its own record by id, without a tenant filter.\<close>

definition getCurrentAgent :: "agent_ctx \<Rightarrow> agent_view server" where
  "getCurrentAgent cx =
     andThen (select (\<lambda>d. find (\<lambda>a. ag_id a = cx_agentId cx) (tbl_agents d))) (\<lambda>agent.
       case agent of None \<Rightarrow> fail_with (notFound ''AGENT_NOT_FOUND'') | Some a \<Rightarrow> succeed (serializeAgent a))"

section \<open>Permissions\<close>

record permission_query = list_query +
  pq_agentId :: "string option"
  pq_itemId :: "string option"

definition no_page :: "'v page" where
  "no_page = \<lparr>pg_rows = [], pg_nextCursor = None\<rparr>"

definition permission_filters :: "string list \<Rightarrow> permission_query \<Rightarrow> permission_row \<Rightarrow> bool" where
  "permission_filters agentIds q p =
     ((if truthy (pq_agentId q) then Some (perm_agentId p) = pq_agentId q else perm_agentId p \<in> set agentIds) \<and>
      (truthy (pq_itemId q) \<longrightarrow> perm_itemId p = pq_itemId q))"

text \<open>A permission is serialized field by field.\<close>

definition list_matching :: "string list \<Rightarrow> permission_query \<Rightarrow> (permission_row page) server" where
  "list_matching agentIds q =
     read_page tbl_permissions perm_createdAt perm_id (\<lambda>_. permission_filters agentIds q)
       (list_query.truncate q) (\<lambda>p. p)"

definition listPermissions :: "session_ctx \<Rightarrow> permission_query \<Rightarrow> (permission_row page) server" where
  "listPermissions sx q =
     andThen (select (\<lambda>d. map ag_id (findMany ag_org (sx_orgId sx) (\<lambda>_. True) (tbl_agents d)))) (\<lambda>agentIds.
     if agentIds = [] then succeed no_page
     else if truthy (pq_agentId q) \<and> the (pq_agentId q) \<notin> set agentIds then succeed no_page
     else if truthy (pq_itemId q) then
       andThen (select (\<lambda>d. org_item (sx_orgId sx) (the (pq_itemId q)) d)) (\<lambda>item.
         if item = None then succeed no_page else list_matching agentIds q)
     else list_matching agentIds q)"

section \<open>Following the cursors\<close>

text \<open>A client of an endpoint that asks for page after page, while the state is \<open>w\<close>.\<close>

definition answer :: "(list_query \<Rightarrow> ('v page) server) \<Rightarrow> int option \<Rightarrow> world \<Rightarrow> string option \<Rightarrow> err + 'v list \<times> string option" where
  "answer endpoint limit w c = (case fst (endpoint \<lparr>lq_cursor = c, lq_limit = limit\<rparr> w) of
     Inl e \<Rightarrow> Inl e | Inr p \<Rightarrow> Inr (pg_rows p, pg_nextCursor p))"

definition follow :: "(list_query \<Rightarrow> ('v page) server) \<Rightarrow> int option \<Rightarrow> world \<Rightarrow> 'v list option" where
  "follow endpoint limit w = walk (answer endpoint limit w) None"

lemma answer_read_page:
  assumes "faults w (stmts w) = None"
  shows "answer (\<lambda>q. read_page table createdAt id_of cond q view) limit w c =
    (case list_page (epochMicros createdAt) id_of (cond (store w)) limit c (table (store w)) of
       Inl e \<Rightarrow> Inl e | Inr p \<Rightarrow> Inr (map view (fst p), snd p))"
  using assms by (simp add: answer_def read_page_def andThen_def statement_def succeed_def split: sum.split)

lemma walk_mapped:
  assumes "walk fetch c = Some xs"
  shows "walk (\<lambda>c. case fetch c of Inl e \<Rightarrow> Inl e | Inr p \<Rightarrow> Inr (map v (fst p), snd p)) c = Some (map v xs)"
proof (rule walk.raw_induct [where P = "\<lambda>fetch c xs. walk (\<lambda>c. case fetch c of Inl e \<Rightarrow> Inl e
    | Inr p \<Rightarrow> Inr (map v (fst p), snd p)) c = Some (map v xs)", OF _ assms])
  fix walk' and fetch :: "string option \<Rightarrow> err + 'a list \<times> string option" and c xs
  assume "\<And>fetch c xs. walk' fetch c = Some xs \<Longrightarrow>
      walk (\<lambda>c. case fetch c of Inl e \<Rightarrow> Inl e | Inr p \<Rightarrow> Inr (map v (fst p), snd p)) c = Some (map v xs)"
    and "(case fetch c of Inl e \<Rightarrow> None | Inr p \<Rightarrow> (case snd p of None \<Rightarrow> Some (fst p)
        | Some c \<Rightarrow> Option.bind (walk' fetch (Some c)) (\<lambda>later. Some (fst p @ later)))) = Some xs"
  then show "walk (\<lambda>c. case fetch c of Inl e \<Rightarrow> Inl e | Inr p \<Rightarrow> Inr (map v (fst p), snd p)) c = Some (map v xs)"
    by (subst walk.simps) (auto split: sum.splits option.splits simp: Option.bind_eq_Some_conv)
qed

lemma follow_read_page:
  assumes "faults w (stmts w) = None" "pageable (epochMicros createdAt) id_of (table (store w))"
  shows "follow (\<lambda>q. read_page table createdAt id_of cond q view) limit w =
    Some (map view (order_desc (epochMicros createdAt) id_of (filter (cond (store w)) (table (store w)))))"
  using walk_mapped [OF page.walk_all [of "(epochMicros createdAt, id_of, cond (store w), limit, table (store w))"], of view] assms
  by (simp add: follow_def answer_read_page [OF assms(1), abs_def])


section \<open>Pages under concurrent writes\<close>

text \<open>The same client, each page read from a possibly different state.\<close>

fun follow_over :: "(world \<Rightarrow> string option \<Rightarrow> err + 'v list \<times> string option) \<Rightarrow> string option \<Rightarrow> world list \<Rightarrow> 'v list option" where
  "follow_over fetch c [] = None"
| "follow_over fetch c (w # ws) = (case fetch w c of
     Inl e \<Rightarrow> None
   | Inr (rows, None) \<Rightarrow> Some rows
   | Inr (rows, Some c') \<Rightarrow> map_option ((@) rows) (follow_over fetch (Some c') ws))"

text \<open>The rows of a page are the first of those below the cursor.\<close>

definition below :: "page_key option \<Rightarrow> ('r \<Rightarrow> int) \<Rightarrow> ('r \<Rightarrow> string) \<Rightarrow> 'r \<Rightarrow> bool" where
  "below k us id_of r = (case k of None \<Rightarrow> True | Some x \<Rightarrow> row_key us id_of r < x)"

definition key_cursor :: "page_key option \<Rightarrow> string option" where
  "key_cursor k = map_option (\<lambda>x. encodeCursor (decimal_int (pk_us x)) (pk_id x)) k"

definition key_ok :: "page_key option \<Rightarrow> bool" where
  "key_ok k = (case k of None \<Rightarrow> True | Some x \<Rightarrow> 0 \<le> pk_us x \<and> pk_us x < 2 ^ 63 \<and> pk_id x \<noteq> [])"

lemma page_below:
  assumes "key_ok k"
  shows "list_page us id_of cond limit (key_cursor k) rows =
    (let page = take (resolveLimit limit) (order_desc us id_of (filter (\<lambda>r. cond r \<and> below k us id_of r) rows))
     in Inr (page, nextCursorFrom us id_of page (resolveLimit limit)))"
proof (cases k)
  case None
  then show ?thesis by (simp add: key_cursor_def first_page below_def Let_def)
next
  case (Some x)
  obtain u i where x: "x = Page_key u i" by (cases x)
  have d: "decodeCursor (key_cursor k) = Some (decimal (nat u), i)"
    using decode_cursor_of [of "\<lambda>_. u" "()" "\<lambda>_. i"] assms Some x by (simp add: key_ok_def key_cursor_def cursor_of_def)
  have "cursorCondition us id_of (Some (decimal (nat u), i)) r = below k us id_of r" for r
    using assms Some x by (simp add: cursorCondition_def below_def row_key_def less_page_key_def key_ok_def)
  moreover have "\<not> 2 ^ 63 \<le> nat u" using assms Some x by (simp add: key_ok_def not_le nat_less_iff)
  ultimately show ?thesis using d Some x by (simp add: list_page_def page_query_def Let_def)
qed

lemma next_key:
  assumes "nextCursorFrom us id_of page n = Some c" "\<And>r. r \<in> set page \<Longrightarrow> 0 \<le> us r \<and> us r < 2 ^ 63 \<and> id_of r \<noteq> []"
  shows "n \<le> length page \<and> page \<noteq> [] \<and> Some c = key_cursor (Some (row_key us id_of (last page))) \<and>
    key_ok (Some (row_key us id_of (last page)))"
  using assms by (auto simp: nextCursorFrom_def key_cursor_def key_ok_def row_key_def split: if_splits)

text \<open>In a descending list, what is not below the last row of a beginning is in that beginning.\<close>

lemma in_page:
  fixes k :: "'r \<Rightarrow> 'k::linorder"
  assumes "sorted_wrt (\<lambda>x y. k y < k x) xs" "x \<in> set xs" "n \<le> length (take n xs)" "take n xs \<noteq> []"
    and "\<not> k x < k (last (take n xs))"
  shows "x \<in> set (take n xs)"
proof (rule ccontr)
  assume "x \<notin> set (take n xs)"
  with assms(2) have "x \<in> set (drop n xs)" by (metis Un_iff append_take_drop_id set_append)
  with assms(1,4) have "k x < k (last (take n xs))"
    using sorted_wrt_append [of "\<lambda>x y. k y < k x" "take n xs" "drop n xs"] by simp
  with assms(5) show False by contradiction
qed

lemma last_least:
  fixes k :: "'r \<Rightarrow> 'k::linorder"
  assumes "sorted_wrt (\<lambda>x y. k y < k x) xs" "x \<in> set xs"
  shows "k (last xs) \<le> k x"
  using assms by (induction xs) (auto split: if_splits intro: less_imp_le)

lemma follow_over_rows:
  assumes "follow_over (\<lambda>w c. list_page us id_of (cond w) limit c (rows w)) (key_cursor k) ws = Some rs"
    and "\<And>w. w \<in> set ws \<Longrightarrow> pageable us id_of (rows w)" "key_ok k"
  shows "sorted_wrt (\<lambda>x y. row_key us id_of y < row_key us id_of x) rs \<and>
    (\<forall>r \<in> set rs. below k us id_of r \<and> (\<exists>w \<in> set ws. r \<in> set (rows w) \<and> cond w r)) \<and>
    (\<forall>y. (case k of None \<Rightarrow> True | Some x \<Rightarrow> y < x) \<longrightarrow>
      (\<forall>w \<in> set ws. \<exists>r \<in> set (rows w). cond w r \<and> row_key us id_of r = y) \<longrightarrow> y \<in> row_key us id_of ` set rs)"
  using assms
proof (induction ws arbitrary: k rs)
  case Nil
  then show ?case by simp
next
  case (Cons w ws)
  let ?k = "row_key us id_of" and ?n = "resolveLimit limit"
  let ?all = "order_desc us id_of (filter (\<lambda>r. cond w r \<and> below k us id_of r) (rows w))"
  let ?page = "take ?n ?all"
  have pg: "pageable us id_of (rows w)" using Cons.prems(2) by simp
  then have desc: "sorted_wrt (\<lambda>x y. ?k y < ?k x) ?all"
    by (intro order_desc_strict) (simp add: pageable_def distinct_map_filter)
  then have desc_page: "sorted_wrt (\<lambda>x y. ?k y < ?k x) ?page" by (rule sorted_wrt_take)
  have page: "r \<in> set ?page \<Longrightarrow> r \<in> set (rows w) \<and> cond w r \<and> below k us id_of r" for r
    by (auto dest: in_set_takeD)
  have fetch: "list_page us id_of (cond w) limit (key_cursor k) (rows w) = Inr (?page, nextCursorFrom us id_of ?page ?n)"
    using Cons.prems(3) by (simp add: page_below Let_def)
  have there: "\<exists>r \<in> set ?all. ?k r = y" if "case k of None \<Rightarrow> True | Some x \<Rightarrow> y < x"
    "\<forall>v \<in> set (w # ws). \<exists>r \<in> set (rows v). cond v r \<and> ?k r = y" for y
    using that by (auto simp: below_def split: option.splits)
  show ?case
  proof (cases "nextCursorFrom us id_of ?page ?n")
    case None
    then have "length ?page < ?n \<or> ?page = []" by (auto simp: nextCursorFrom_def split: if_splits)
    then have "?page = ?all" using limit_pos [of limit] by (cases "?all = []") (auto simp: take_all_iff min_def split: if_splits)
    with None fetch Cons.prems(1) have rs: "rs = ?all" by simp
    have "\<forall>r \<in> set ?all. below k us id_of r \<and> (\<exists>v \<in> set (w # ws). r \<in> set (rows v) \<and> cond v r)" by auto
    moreover have "y \<in> ?k ` set ?all" if "case k of None \<Rightarrow> True | Some x \<Rightarrow> y < x"
      "\<forall>v \<in> set (w # ws). \<exists>r \<in> set (rows v). cond v r \<and> ?k r = y" for y
      using there [OF that] by blast
    ultimately show ?thesis using desc unfolding rs by (intro conjI allI impI) simp_all
  next
    case (Some c)
    have ids: "0 \<le> us r \<and> us r < 2 ^ 63 \<and> id_of r \<noteq> []" if "r \<in> set ?page" for r
      using page [OF that] pg by (simp add: pageable_def)
    from next_key [OF Some ids] have nk: "?n \<le> length ?page" "?page \<noteq> []" "Some c = key_cursor (Some (?k (last ?page)))"
      "key_ok (Some (?k (last ?page)))" by blast+
    from Some fetch Cons.prems(1) obtain later where
      rest: "follow_over (\<lambda>w c. list_page us id_of (cond w) limit c (rows w)) (key_cursor (Some (?k (last ?page)))) ws = Some later"
      and rs: "rs = ?page @ later" by (auto simp: nk(3) [symmetric])
    have IH: "sorted_wrt (\<lambda>x y. ?k y < ?k x) later"
      "\<And>r. r \<in> set later \<Longrightarrow> below (Some (?k (last ?page))) us id_of r"
      "\<And>r. r \<in> set later \<Longrightarrow> \<exists>v \<in> set (w # ws). r \<in> set (rows v) \<and> cond v r"
      "\<And>y. y < ?k (last ?page) \<Longrightarrow> \<forall>v \<in> set ws. \<exists>r \<in> set (rows v). cond v r \<and> ?k r = y \<Longrightarrow> y \<in> ?k ` set later"
      using Cons.IH [OF rest Cons.prems(2) nk(4)] by simp_all
    have low: "?k r < ?k (last ?page)" if "r \<in> set later" for r using IH(2) [OF that] by (simp add: below_def)
    have "sorted_wrt (\<lambda>x y. ?k y < ?k x) rs"
      unfolding rs sorted_wrt_append
      by (intro conjI ballI desc_page IH(1) less_le_trans [OF low last_least [OF desc_page]])
    moreover have "below k us id_of r" if "r \<in> set later" for r
      using low [OF that] page [OF last_in_set [OF nk(2)]] by (auto simp: below_def split: option.splits)
    moreover have "y \<in> ?k ` set rs" if "case k of None \<Rightarrow> True | Some x \<Rightarrow> y < x"
      "\<forall>v \<in> set (w # ws). \<exists>r \<in> set (rows v). cond v r \<and> ?k r = y" for y
    proof (cases "y < ?k (last ?page)")
      case True
      with that(2) have "y \<in> ?k ` set later" by (intro IH(4)) simp_all
      then show ?thesis by (simp only: rs set_append image_Un Un_iff simp_thms)
    next
      case False
      from there [OF that] obtain r where "r \<in> set ?all" "?k r = y" by blast
      with in_page [OF desc _ nk(1,2)] False have "r \<in> set ?page" by blast
      with \<open>?k r = y\<close> show ?thesis by (simp only: rs set_append image_Un Un_iff) blast
    qed
    moreover have "\<exists>v \<in> set (w # ws). r \<in> set (rows v) \<and> cond v r" if "r \<in> set ?page" for r
      using page [OF that] by (intro bexI [of _ w]) simp_all
    moreover note IH(3)
    moreover have "below k us id_of r" if "r \<in> set ?page" for r using page [OF that] by simp
    ultimately show ?thesis by (intro conjI ballI allI impI) (auto simp only: rs set_append Un_iff)
  qed
qed

lemma follow_over_mapped:
  assumes "\<And>w c. w \<in> set ws \<Longrightarrow> g w c = (case f w c of Inl e \<Rightarrow> Inl e | Inr p \<Rightarrow> Inr (map v (fst p), snd p))"
  shows "follow_over g c ws = map_option (map v) (follow_over f c ws)"
  using assms
proof (induction ws arbitrary: c)
  case (Cons w ws)
  have "follow_over g c' ws = map_option (map v) (follow_over f c' ws)" for c'
    by (rule Cons.IH) (use Cons.prems in simp)
  with Cons.prems [of w c] show ?case
    by (auto simp: option.map_comp comp_def split: sum.split option.split)
qed simp

text \<open>The creation time of a row never changes.\<close>

definition same_times :: "world list \<Rightarrow> bool" where
  "same_times ws = (\<forall>v \<in> set ws. \<forall>w \<in> set ws. \<forall>i \<in> set (tbl_items (store v)). \<forall>j \<in> set (tbl_items (store w)).
     item_id i = item_id j \<longrightarrow> item_createdAt i = item_createdAt j)"

definition readable_items :: "world \<Rightarrow> bool" where
  "readable_items w = (faults w (stmts w) = None \<and> pageable (epochMicros item_createdAt) item_id (tbl_items (store w)))"

lemma stable_item_rows:
  assumes run: "follow_over (\<lambda>w c. list_page (epochMicros item_createdAt) item_id (cond w) limit c (tbl_items (store w)))
      (key_cursor None) ws = Some rs"
    and ok: "list_all readable_items ws" and times: "same_times ws" and "ws \<noteq> []"
  shows "distinct (map item_id rs)"
    and "\<And>r. r \<in> set rs \<Longrightarrow> \<exists>w \<in> set ws. r \<in> set (tbl_items (store w)) \<and> cond w r"
    and "\<And>k. \<forall>w \<in> set ws. \<exists>i \<in> set (tbl_items (store w)). cond w i \<and> item_id i = k \<Longrightarrow> k \<in> item_id ` set rs"
proof -
  let ?us = "epochMicros item_createdAt" and ?rows = "\<lambda>w. tbl_items (store w)"
  let ?k = "row_key ?us item_id"
  have "pageable ?us item_id (?rows w)" if "w \<in> set ws" for w
    using ok that by (auto simp: list_all_iff readable_items_def)
  from follow_over_rows [OF run this] have all: "sorted_wrt (\<lambda>x y. ?k y < ?k x) rs"
    and mem: "\<And>r. r \<in> set rs \<Longrightarrow> \<exists>w \<in> set ws. r \<in> set (?rows w) \<and> cond w r"
    and there: "\<And>y. \<forall>w \<in> set ws. \<exists>r \<in> set (?rows w). cond w r \<and> ?k r = y \<Longrightarrow> y \<in> ?k ` set rs"
    by (simp_all add: key_ok_def)
  have same: "item_createdAt i = item_createdAt j" if "i \<in> set (?rows v)" "j \<in> set (?rows w)" "v \<in> set ws" "w \<in> set ws"
    "item_id i = item_id j" for i j v w
    using that times unfolding same_times_def by blast
  show "\<And>r. r \<in> set rs \<Longrightarrow> \<exists>w \<in> set ws. r \<in> set (?rows w) \<and> cond w r" by (rule mem)
  have "distinct (map ?k rs)" using all by (induction rs) auto
  moreover have "?k r = ?k s" if "r \<in> set rs" "s \<in> set rs" "item_id r = item_id s" for r s
    using mem [OF that(1)] mem [OF that(2)] same that(3) by (metis row_key_def epochMicros_def)
  ultimately show "distinct (map item_id rs)" unfolding distinct_map inj_on_def by metis
  fix k
  assume k: "\<forall>w \<in> set ws. \<exists>i \<in> set (?rows w). cond w i \<and> item_id i = k"
  from \<open>ws \<noteq> []\<close> obtain v where v: "v \<in> set ws" by (cases ws) auto
  with k obtain i where i: "i \<in> set (?rows v)" "item_id i = k" by blast
  have "\<exists>r \<in> set (?rows w). cond w r \<and> ?k r = ?k i" if w: "w \<in> set ws" for w
    using k w same [OF _ i(1) w v] i(2) by (fastforce simp: row_key_def epochMicros_def)
  with there have "?k i \<in> ?k ` set rs" by blast
  with i(2) show "k \<in> item_id ` set rs" by (auto simp: row_key_def)
qed

text \<open>While other requests insert, change and delete items between the pages of a listing, a client
  that reaches the last page has seen no item twice, only items that were live in its organisation when
  their page was read, and every item that was live there all the time.\<close>

theorem pages_are_stable:
  assumes "follow_over (\<lambda>w. answer (listItems sx) limit w) None ws = Some views"
    and "list_all readable_items ws" "same_times ws" "ws \<noteq> []"
  shows "distinct (map iv_id views) \<and>
    (\<forall>v \<in> set views. \<exists>w \<in> set ws. \<exists>i \<in> set (tbl_items (store w)).
       live_in_org (sx_orgId sx) (store w) i \<and> v = serializeItemSummary i) \<and>
    (\<forall>k. (\<forall>w \<in> set ws. \<exists>i \<in> set (tbl_items (store w)). live_in_org (sx_orgId sx) (store w) i \<and> item_id i = k) \<longrightarrow>
       k \<in> set (map iv_id views))"
proof -
  let ?us = "epochMicros item_createdAt" and ?cond = "\<lambda>w. live_in_org (sx_orgId sx) (store w)"
  have "answer (listItems sx) limit w c = (case list_page ?us item_id (?cond w) limit c (tbl_items (store w)) of
      Inl e \<Rightarrow> Inl e | Inr p \<Rightarrow> Inr (map serializeItemSummary (fst p), snd p))" if "w \<in> set ws" for w c
    using that assms(2) answer_read_page [where table = tbl_items and w = w]
    by (simp add: listItems_def [abs_def] list_all_iff readable_items_def)
  from follow_over_mapped [of ws "\<lambda>w. answer (listItems sx) limit w", OF this] assms(1) obtain rs where
    run: "follow_over (\<lambda>w c. list_page ?us item_id (?cond w) limit c (tbl_items (store w))) (key_cursor None) ws = Some rs"
    and views: "views = map serializeItemSummary rs" by (auto simp: key_cursor_def)
  note rows = stable_item_rows [OF run assms(2-4)]
  have "map iv_id views = map item_id rs" by (simp add: views serializeItemSummary_def)
  moreover have "\<exists>w \<in> set ws. \<exists>i \<in> set (tbl_items (store w)). ?cond w i \<and> v = serializeItemSummary i"
    if "v \<in> set views" for v
    using that rows(2) unfolding views by fastforce
  ultimately show ?thesis using rows(1,3) by (metis set_map)
qed

section \<open>Concrete runs\<close>

lemma sample_pageable:
  "pageable (epochMicros item_createdAt) item_id (tbl_items sample_db)"
  "pageable (epochMicros ag_createdAt) ag_id (tbl_agents sample_db)"
  by (simp_all add: pageable_def epochMicros_def sample_rows)

definition sample_reader :: session_ctx where
  "sample_reader = \<lparr>sx_orgId = ''o1'', sx_userId = ''u1'', sx_ip = None\<rparr>"

definition sample_client :: agent_ctx where
  "sample_client = \<lparr>cx_orgId = ''o1'', cx_userId = None, cx_agentId = ''a1'', cx_locality = Local, cx_ip = None,
     cx_ENCRYPTION_KEY = []\<rparr>"


lemma sample_items_listing:
  "follow_over (\<lambda>w. answer (listItems sample_reader) None w) None [sample_world sample_db] =
     Some [serializeItemSummary sample_item]"
  by (simp add: answer_read_page listItems_def [abs_def] first_page nextCursorFrom_def resolveLimit_def DEFAULT_PAGE_LIMIT_def
      order_desc_def live_in_org_def orgScope_def sample_reader_def sample_rows)

theorem pages_are_stable_witness:
  "''i1'' \<in> set (map iv_id [serializeItemSummary sample_item])"
proof -
  have "list_all readable_items [sample_world sample_db]" by (simp add: readable_items_def sample_pageable)
  moreover have "same_times [sample_world sample_db]" by (simp add: same_times_def sample_rows)
  ultimately have "\<And>k. \<exists>i \<in> set (tbl_items sample_db). live_in_org ''o1'' sample_db i \<and> item_id i = k \<Longrightarrow>
      k \<in> set (map iv_id [serializeItemSummary sample_item])"
    using pages_are_stable [OF sample_items_listing] by (simp add: sample_reader_def)
  from this [of "''i1''"] show ?thesis by (simp add: live_in_org_def orgScope_def sample_rows)
qed

end
