(* ===== verification/Organizations.thy ===== *)
theory Organizations
  imports Members Profiles Agent_Sessions Items
begin

text \<open>
  Organisations (\<open>packages/trpc/src/server/routers/organizations.ts\<close>, \<open>packages/auth/src/personal-org.ts\<close>):
  creation with the owner's membership and the default profile, reading, update, deletion behind a typed
  confirmation and a second password check, the members, and invitations. The account store and the
  password check of the authentication library are parameters (\<open>reauth_api\<close>).
\<close>

section \<open>Callers and slugs\<close>

text \<open>\<open>UserRequestContext\<close>: an authenticated user without an organisation.\<close>

record user_ctx =
  ux_userId :: string
  ux_ip :: "string option"

text \<open>\<open>toLowerCase\<close>, as far as it yields ASCII: the letters, the Kelvin sign, and the dotted capital I,
  which becomes an i with a combining dot.\<close>

fun js_lower :: "string \<Rightarrow> string" where
  "js_lower [] = []"
| "js_lower (c # s) =
     (if take 3 (c # s) = map char_of [0xE2, 0x84, 0xAA :: nat] then CHR ''k'' # js_lower (drop 2 s)
      else if take 2 (c # s) = map char_of [0xC4, 0xB0 :: nat]
        then CHR ''i'' # map char_of [0xCC, 0x87 :: nat] @ js_lower (drop 1 s)
      else (if CHR ''A'' \<le> c \<and> c \<le> CHR ''Z'' then char_of (of_char c + 32 :: nat) else c) # js_lower s)"

definition slug_char :: "char \<Rightarrow> bool" where
  "slug_char c = ((CHR ''a'' \<le> c \<and> c \<le> CHR ''z'') \<or> (CHR ''0'' \<le> c \<and> c \<le> CHR ''9''))"

text \<open>\<open>replace(/[^a-z0-9]+/g, "-")\<close>; the flag says that the last character replaced belongs to a run.\<close>

fun dash_runs :: "bool \<Rightarrow> string \<Rightarrow> string" where
  "dash_runs b [] = []"
| "dash_runs b (c # s) =
     (if slug_char c then c # dash_runs False s
      else if b then dash_runs True s else CHR ''-'' # dash_runs True s)"

definition trim_dashes :: "string \<Rightarrow> string" where
  "trim_dashes s = rev (dropWhile (\<lambda>c. c = CHR ''-'') (rev (dropWhile (\<lambda>c. c = CHR ''-'') s)))"

definition slug_base :: "string \<Rightarrow> string" where
  "slug_base name = take 40 (trim_dashes (dash_runs False (js_lower name)))"

definition toSlug :: "string \<Rightarrow> string server" where
  "toSlug name = andThen randomUUID (\<lambda>u.
     let base = slug_base name; suffix = take 8 u in
     succeed (if base \<noteq> [] then base @ CHR ''-'' # suffix else suffix))"

section \<open>Rows\<close>

definition insert_organization :: "organization_row \<Rightarrow> db \<Rightarrow> err + (unit \<times> db)" where
  "insert_organization r d =
     (if \<exists>q \<in> set (tbl_organizations d). org_id q = org_id r \<or> org_slug q = org_slug r then Inl (DbErr ''23505'')
      else Inr ((), d\<lparr>tbl_organizations := tbl_organizations d @ [r]\<rparr>))"

definition insert_member :: "member_row \<Rightarrow> db \<Rightarrow> err + (unit \<times> db)" where
  "insert_member r d =
     (if \<exists>m \<in> set (tbl_members d). mem_id m = mem_id r then Inl (DbErr ''23505'')
      else if mem_org r \<notin> set (map org_id (tbl_organizations d)) \<or> mem_userId r \<notin> set (map usr_id (tbl_users d))
        then Inl (DbErr ''23503'')
      else Inr ((), d\<lparr>tbl_members := tbl_members d @ [r]\<rparr>))"

definition insert_invitation :: "invitation_row \<Rightarrow> db \<Rightarrow> err + (unit \<times> db)" where
  "insert_invitation r d =
     (if \<exists>i \<in> set (tbl_invitations d). inv_id i = inv_id r \<or> inv_tokenHash i = inv_tokenHash r
      then Inl (DbErr ''23505'')
      else if inv_org r \<notin> set (map org_id (tbl_organizations d)) \<or> inv_inviterId r \<notin> set (map usr_id (tbl_users d))
        then Inl (DbErr ''23503'')
      else Inr ((), d\<lparr>tbl_invitations := tbl_invitations d @ [r]\<rparr>))"

section \<open>Creating\<close>

record seed_input =
  si_userId :: string
  si_name :: string
  si_slug :: string
  si_logo :: "string option"
  si_metadata :: "string option"
  si_profileName :: string
  si_profileExternalId :: "string option"

record seed_result =
  sr_org :: organization_row
  sr_memberId :: string
  sr_profileId :: string

definition seed_profile :: "seed_input \<Rightarrow> string \<Rightarrow> string \<Rightarrow> int \<Rightarrow> profile_row" where
  "seed_profile inp profileId orgId createdAt =
     \<lparr>prof_id = profileId, prof_org = orgId, prof_name = si_profileName inp, prof_description = None,
      prof_externalId = si_profileExternalId inp, prof_storageMode = Server_managed, prof_wrappedRootKey = None,
      prof_kdfSalt = None, prof_kdfParams = None, prof_recoveryWrappedRootKey = None, prof_serverWrappedDek = None,
      prof_serverEncryptionCount = 0, prof_keyVersion = 1, prof_createdAt = createdAt, prof_updatedAt = createdAt\<rparr>"

text \<open>The statement before the profile sets the tenant.\<close>

definition seedOrgWithOwnerProfile :: "seed_input \<Rightarrow> seed_result server" where
  "seedOrgWithOwnerProfile inp =
     andThen randomUUID (\<lambda>memberId.
     andThen randomUUID (\<lambda>profileId.
     andThen new_Date (\<lambda>createdAt.
     andThen randomUUID (\<lambda>orgId.
     let org = \<lparr>org_id = orgId, org_name = si_name inp, org_slug = si_slug inp, org_logo = si_logo inp,
           org_metadata = si_metadata inp, org_createdAt = createdAt\<rparr> in
     followed_by (statement (insert_organization org))
     (followed_by (statement (insert_member \<lparr>mem_id = memberId, mem_org = orgId, mem_userId = si_userId inp,
         mem_role = ''owner'', mem_createdAt = createdAt\<rparr>))
     (followed_by (statement (\<lambda>d. Inr ((), d)))
     (followed_by (statement (insert_profiles [seed_profile inp profileId orgId createdAt]))
       (succeed \<lparr>sr_org = org, sr_memberId = memberId, sr_profileId = profileId\<rparr>))))))))"

record org_view =
  ov_id :: string
  ov_name :: string
  ov_slug :: string
  ov_logo :: "string option"
  ov_createdAt :: int
  ov_isPersonal :: bool

definition serializeOrg :: "organization_row \<Rightarrow> org_view" where
  "serializeOrg r = \<lparr>ov_id = org_id r, ov_name = org_name r, ov_slug = org_slug r, ov_logo = org_logo r,
     ov_createdAt = org_createdAt r, ov_isPersonal = isPersonalOrg (org_metadata r)\<rparr>"

definition checkSlug :: "string \<Rightarrow> bool server" where
  "checkSlug slug = andThen (select (\<lambda>d. find (\<lambda>q. org_slug q = slug) (tbl_organizations d)))
     (\<lambda>existing. succeed (existing = None))"

definition slugTaken :: err where
  "slugTaken = DomainErr ConflictError ''SLUG_TAKEN'' []"

definition seed_in_transaction :: "seed_input \<Rightarrow> seed_result server" where
  "seed_in_transaction inp = on_unique_violation slugTaken (transaction (seedOrgWithOwnerProfile inp))"

definition org_created :: "user_ctx \<Rightarrow> string \<Rightarrow> json_object \<Rightarrow> audit_entry" where
  "org_created ux orgId meta = (entry orgId (Some (ux_userId ux)) Ev_org_create Allowed)
     \<lparr>ae_ipAddress := ux_ip ux, ae_meta := Some meta\<rparr>"

text \<open>The organisation and the id of its default profile, whose other fields are fixed.\<close>

definition createOrg :: "user_ctx \<Rightarrow> string \<Rightarrow> string option \<Rightarrow> string option \<Rightarrow> (org_view \<times> string) server" where
  "createOrg ux name slug_given logo =
     andThen (case slug_given of Some s \<Rightarrow> succeed s | None \<Rightarrow> toSlug name) (\<lambda>slug.
     andThen (select (\<lambda>d. find (\<lambda>q. org_slug q = slug) (tbl_organizations d))) (\<lambda>existingSlug.
     if existingSlug \<noteq> None then fail_with slugTaken
     else andThen (seed_in_transaction \<lparr>si_userId = ux_userId ux, si_name = name, si_slug = slug, si_logo = logo,
           si_metadata = None, si_profileName = ''default'', si_profileExternalId = Some ''default''\<rparr>) (\<lambda>seed.
     followed_by (logUserAudit (org_created ux (org_id (sr_org seed))
         [(''slug'', JStr slug), (''autoDefaultProfile'', JStr (sr_profileId seed))]))
       (succeed (serializeOrg (sr_org seed), sr_profileId seed)))))"

definition PERSONAL_ORG_METADATA :: string where
  "PERSONAL_ORG_METADATA = CHR ''{'' # quote ''type'' @ CHR '':'' # quote ORG_TYPE_PERSONAL @ ''}''"

definition personal_names :: "user_row option \<Rightarrow> string \<times> string" where
  "personal_names u =
     (let trimmed = (case u of None \<Rightarrow> [] | Some r \<Rightarrow> js_trim (usr_name r));
          local_part = (case u of None \<Rightarrow> [] | Some r \<Rightarrow> takeWhile (\<lambda>c. c \<noteq> CHR ''@'') (usr_email r))
      in (if trimmed \<noteq> [] then trimmed @ CHR 0x27 # ''s workspace'' else ''Personal workspace'',
          if trimmed \<noteq> [] then trimmed else if local_part \<noteq> [] then local_part else ''personal''))"

definition createPersonalOrg :: "user_ctx \<Rightarrow> (org_view \<times> string) server" where
  "createPersonalOrg ux =
     andThen (select (\<lambda>d. find (\<lambda>u. usr_id u = ux_userId ux) (tbl_users d))) (\<lambda>userRow.
     let (displayName, slug_name) = personal_names userRow in
     andThen (toSlug slug_name) (\<lambda>slug.
     andThen (seed_in_transaction \<lparr>si_userId = ux_userId ux, si_name = displayName, si_slug = slug, si_logo = None,
           si_metadata = Some PERSONAL_ORG_METADATA, si_profileName = ''default'',
           si_profileExternalId = Some ''default''\<rparr>) (\<lambda>seed.
     followed_by (logUserAudit (org_created ux (org_id (sr_org seed))
         [(''slug'', JStr slug), (''personal'', JBool True), (''autoDefaultProfile'', JStr (sr_profileId seed))]))
       (succeed (serializeOrg (sr_org seed), sr_profileId seed)))))"

section \<open>Reading and updating\<close>

definition LIST_ORGS_LIMIT :: nat where
  "LIST_ORGS_LIMIT = 100"

text \<open>A membership with its organisation, in the order of joining.\<close>

definition joined_orgs :: "string \<Rightarrow> db \<Rightarrow> (member_row \<times> organization_row) list" where
  "joined_orgs userId d = take LIST_ORGS_LIMIT
     (concat (map (\<lambda>m. map (Pair m) (filter (\<lambda>q. org_id q = mem_org m) (tbl_organizations d)))
       (sort_key mem_createdAt (filter (\<lambda>m. mem_userId m = userId) (tbl_members d)))))"

text \<open>One organisation after the other: set the tenant, look for a usable profile.\<close>

fun bootstrapped_orgs :: "string list \<Rightarrow> (string list) server" where
  "bootstrapped_orgs [] = succeed []"
| "bootstrapped_orgs (orgId # orgIds) =
     followed_by (statement (\<lambda>d. Inr ((), d)))
     (andThen (select (\<lambda>d. findFirst prof_org orgId (\<lambda>p. prof_storageMode p = Server_managed \<or>
         prof_wrappedRootKey p \<noteq> None) (tbl_profiles d))) (\<lambda>row.
      andThen (bootstrapped_orgs orgIds) (\<lambda>rest.
        succeed (if row \<noteq> None then orgId # rest else rest))))"

record org_list_item = org_view +
  ol_role :: string
  ol_hasBootstrappedProfile :: bool

definition list_item :: "string list \<Rightarrow> member_row \<times> organization_row \<Rightarrow> org_list_item" where
  "list_item ready mq = org_view.extend (serializeOrg (snd mq))
     \<lparr>ol_role = mem_role (fst mq), ol_hasBootstrappedProfile = (org_id (snd mq) \<in> set ready)\<rparr>"

definition listOrgs :: "user_ctx \<Rightarrow> (org_list_item list) server" where
  "listOrgs ux =
     andThen (select (joined_orgs (ux_userId ux))) (\<lambda>rows.
     andThen (if rows = [] then succeed [] else transaction (bootstrapped_orgs (map (\<lambda>mq. org_id (snd mq)) rows))) (\<lambda>ready.
       succeed (map (list_item ready) rows)))"

definition org_denied :: "session_ctx \<Rightarrow> audit_event \<Rightarrow> string \<Rightarrow> string \<Rightarrow> audit_entry" where
  "org_denied sx ev why orgId = member_denied sx ev [(''reason'', JStr why), (''targetOrgId'', JStr orgId)]"

definition org_row :: "string \<Rightarrow> db \<Rightarrow> organization_row option" where
  "org_row orgId d = find (\<lambda>q. org_id q = orgId) (tbl_organizations d)"

definition getOrg :: "session_ctx \<Rightarrow> string \<Rightarrow> org_view server" where
  "getOrg sx orgId =
     followed_by (forbidden_logged (org_denied sx Ev_org_read ''insufficient_role'' orgId)
       (requireOrgRole orgId (sx_userId sx) ''member''))
     (andThen (select (org_row orgId)) (\<lambda>org.
       case org of None \<Rightarrow> fail_with (notFound ''NOT_FOUND'') | Some q \<Rightarrow> succeed (serializeOrg q)))"

definition set_org :: "string \<Rightarrow> string option \<Rightarrow> string option \<Rightarrow> db \<Rightarrow> db" where
  "set_org orgId name logo d = d\<lparr>tbl_organizations := map (\<lambda>q. if org_id q = orgId
     then q\<lparr>org_name := orElse name (org_name q), org_logo := (if logo = None then org_logo q else logo)\<rparr> else q)
     (tbl_organizations d)\<rparr>"

definition updateOrg :: "session_ctx \<Rightarrow> string \<Rightarrow> string option \<Rightarrow> string option \<Rightarrow> unit server" where
  "updateOrg sx orgId name logo =
     followed_by (forbidden_logged (org_denied sx Ev_org_update ''insufficient_role'' orgId)
       (requireOrgRole orgId (sx_userId sx) ''owner''))
     (let fields = (if name \<noteq> None then [''name''] else []) @ (if logo \<noteq> None then [''logo''] else []) in
      if fields = [] then succeed ()
      else followed_by (modify (set_org orgId name logo))
        (logSessionAudit ((entry orgId (Some (sx_userId sx)) Ev_org_update Allowed)
          \<lparr>ae_ipAddress := sx_ip sx, ae_meta := Some [(''fields'', JArr (map JStr fields))]\<rparr>)))"

section \<open>Deleting\<close>

record auth_account =
  ac_providerId :: string
  ac_password :: "string option"

text \<open>The internals of the authentication library that the deletion reaches for, if they are there.\<close>

record reauth_api =
  ra_findAccounts :: "(string \<Rightarrow> (auth_account list) server) option"
  ra_verify :: "(string \<Rightarrow> string \<Rightarrow> bool server) option"

definition reauthenticatePassword :: "reauth_api server \<Rightarrow> string \<Rightarrow> string \<Rightarrow> unit server" where
  "reauthenticatePassword auth userId password =
     andThen auth (\<lambda>api.
       case (ra_findAccounts api, ra_verify api) of
         (Some findAccounts, Some verify) \<Rightarrow>
           andThen (findAccounts userId) (\<lambda>accounts.
             case find (\<lambda>a. ac_providerId a = ''credential'' \<and> truthy (ac_password a)) accounts of
               None \<Rightarrow> fail_with (DomainErr BadRequestError ''REAUTH_PASSWORD_REQUIRED'' [])
             | Some credential \<Rightarrow> andThen (verify password (the (ac_password credential))) (\<lambda>valid.
                 if \<not> valid then fail_with (DomainErr UnauthorizedError ''REAUTH_FAILED'' []) else succeed ()))
       | _ \<Rightarrow> fail_with (PlainErr ''Better Auth context is missing the expected re-authentication API''))"

definition deletion_denied :: "session_ctx \<Rightarrow> string \<Rightarrow> string \<Rightarrow> unit server" where
  "deletion_denied sx orgId why = logSessionAudit ((entry orgId (Some (sx_userId sx)) Ev_org_delete Denied)
     \<lparr>ae_ipAddress := sx_ip sx, ae_meta := Some [(''reason'', JStr why), (''sessionOrgId'', JStr (sx_orgId sx))]\<rparr>)"

definition reauth_denied :: "session_ctx \<Rightarrow> string \<Rightarrow> err \<Rightarrow> unit server" where
  "reauth_denied sx orgId e =
     (if is_class BadRequestError e \<and> err_code e = ''REAUTH_PASSWORD_REQUIRED'' then deletion_denied sx orgId ''no_password_set''
      else if is_class UnauthorizedError e then deletion_denied sx orgId ''reauth_failed'' else succeed ())"

definition deleteOrg :: "reauth_api server \<Rightarrow> session_ctx \<Rightarrow> string \<Rightarrow> string \<Rightarrow> string \<Rightarrow> unit server" where
  "deleteOrg auth sx orgId confirmName password =
     followed_by (tap_error (requireOrgRole orgId (sx_userId sx) ''owner'')
       (\<lambda>e. if is_class ForbiddenError e then deletion_denied sx orgId ''insufficient_role'' else succeed ()))
     (andThen (select (org_row orgId)) (\<lambda>orgRow.
       case orgRow of
         None \<Rightarrow> fail_with (notFound ''NOT_FOUND'')
       | Some q \<Rightarrow>
           if confirmName \<noteq> org_name q then followed_by (deletion_denied sx orgId ''name_mismatch'')
             (fail_with (DomainErr BadRequestError ''CONFIRMATION_MISMATCH'' []))
           else followed_by (tap_error (reauthenticatePassword auth (sx_userId sx) password) (reauth_denied sx orgId))
             (followed_by (modify (delete_organizations (\<lambda>q. org_id q = orgId)))
               (logSessionAudit ((entry orgId (Some (sx_userId sx)) Ev_org_delete Allowed)\<lparr>ae_ipAddress := sx_ip sx\<rparr>)))))"

section \<open>Members\<close>

record member_view =
  mv_id :: string
  mv_userId :: string
  mv_name :: string
  mv_email :: "string option"
  mv_role :: string
  mv_createdAt :: int

definition member_view_of :: "bool \<Rightarrow> db \<Rightarrow> member_row \<Rightarrow> member_view" where
  "member_view_of canSeeEmail d m =
     (let u = find (\<lambda>u. usr_id u = mem_userId m) (tbl_users d) in
      \<lparr>mv_id = mem_id m, mv_userId = mem_userId m, mv_name = (case u of None \<Rightarrow> [] | Some r \<Rightarrow> usr_name r),
       mv_email = (if canSeeEmail then map_option usr_email u else None), mv_role = mem_role m,
       mv_createdAt = mem_createdAt m\<rparr>)"

definition listMembers :: "session_ctx \<Rightarrow> string \<Rightarrow> (member_view list) server" where
  "listMembers sx orgId =
     andThen (forbidden_logged (org_denied sx Ev_org_member_list ''not_member'' orgId)
       (requireOrgRole orgId (sx_userId sx) ''member'')) (\<lambda>callerRole.
     let canSeeEmail = callerRole = ''owner'' \<or> callerRole = ''admin'' in
     select (\<lambda>d. map (member_view_of canSeeEmail d) (filter (\<lambda>m. mem_org m = orgId) (tbl_members d))))"

section \<open>Invitations\<close>

definition INVITE_TOKEN_PREFIX :: string where
  "INVITE_TOKEN_PREFIX = ''abi_''"

definition INVITE_TOKEN_TTL_MS :: int where
  "INVITE_TOKEN_TTL_MS = 7 * 24 * 60 * 60 * 1000"

definition new_invitation :: "session_ctx \<Rightarrow> string \<Rightarrow> string \<Rightarrow> string \<Rightarrow> string \<Rightarrow> int \<Rightarrow> int \<Rightarrow> invitation_row" where
  "new_invitation sx orgId inviteRole invitationId tokenHash expiresAt now =
     \<lparr>inv_id = invitationId, inv_org = orgId, inv_role = Some inviteRole, inv_status = ''pending'',
      inv_tokenHash = tokenHash, inv_expiresAt = expiresAt, inv_usedAt = None, inv_usedBy = None,
      inv_createdAt = now, inv_inviterId = sx_userId sx\<rparr>"

definition createInvite :: "webcrypto \<Rightarrow> session_ctx \<Rightarrow> string \<Rightarrow> string option \<Rightarrow> (string \<times> string) server" where
  "createInvite wc sx orgId role =
     andThen (forbidden_logged (org_denied sx Ev_org_invite ''insufficient_role'' orgId)
       (requireOrgRole orgId (sx_userId sx) ''admin'')) (\<lambda>actorRole.
     let inviteRole = orElse role ''member'' in
     followed_by (forbidden_logged (member_denied sx Ev_org_invite
         [(''reason'', JStr ''invite_role_exceeds_actor_role''), (''inviteRole'', JStr inviteRole), (''actorRole'', JStr actorRole)])
       (lift_result (assertCanAssignRole actorRole inviteRole)))
     (andThen (generateOpaqueToken INVITE_TOKEN_PREFIX) (\<lambda>token.
      andThen randomUUID (\<lambda>invitationId.
      andThen new_Date (\<lambda>issued.
      andThen new_Date (\<lambda>now.
      followed_by (statement (insert_invitation (new_invitation sx orgId inviteRole invitationId (hashApiKey wc token)
          (issued + INVITE_TOKEN_TTL_MS) now)))
      (followed_by (logSessionAudit ((entry orgId (Some (sx_userId sx)) Ev_org_invite Allowed)
          \<lparr>ae_ipAddress := sx_ip sx, ae_meta := Some [(''role'', JStr inviteRole), (''invitationId'', JStr invitationId)]\<rparr>))
        (succeed (invitationId, token)))))))))"

definition GET_INVITE_INFO_LIMIT :: nat where
  "GET_INVITE_INFO_LIMIT = 10"

definition GET_INVITE_INFO_WINDOW_MS :: int where
  "GET_INVITE_INFO_WINDOW_MS = 60000"

definition count_lookup :: "int \<Rightarrow> (nat \<times> int) option \<Rightarrow> nat \<times> int" where
  "count_lookup now e = (case e of None \<Rightarrow> (1, now + GET_INVITE_INFO_WINDOW_MS)
     | Some (count, resetAt) \<Rightarrow> if now > resetAt then (1, now + GET_INVITE_INFO_WINDOW_MS) else (Suc count, resetAt))"

text \<open>A first lookup of a window is allowed, later ones as long as the count is within the limit.\<close>

definition checkGetInviteInfoRateLimit :: "string \<Rightarrow> bool server" where
  "checkGetInviteInfoRateLimit key =
     andThen new_Date (\<lambda>now w.
       let e = count_lookup now (inviteInfoCounters w key) in
       (Inr (fst e \<le> GET_INVITE_INFO_LIMIT), w\<lparr>inviteInfoCounters := (inviteInfoCounters w)(key \<mapsto> e)\<rparr>))"

text \<open>The invitation of a token with its organisation.\<close>

definition invited :: "string \<Rightarrow> db \<Rightarrow> (invitation_row \<times> organization_row) option" where
  "invited tokenHash d =
     (case find (\<lambda>i. inv_tokenHash i = tokenHash) (tbl_invitations d) of
        None \<Rightarrow> None
      | Some i \<Rightarrow> map_option (Pair i) (org_row (inv_org i) d))"

text \<open>Unknown, used and expired tokens are refused, in that order.\<close>

definition usable_invite :: "(invitation_row \<times> organization_row) option \<Rightarrow> (invitation_row \<times> organization_row) server" where
  "usable_invite found =
     (case found of
        None \<Rightarrow> fail_with (notFound ''INVITE_NOT_FOUND'')
      | Some row \<Rightarrow>
          if inv_usedAt (fst row) \<noteq> None then fail_with (DomainErr ConflictError ''INVITE_ALREADY_USED'' [])
          else andThen new_Date (\<lambda>now.
            if inv_expiresAt (fst row) < now then fail_with (notFound ''INVITE_EXPIRED'') else succeed row))"

record invite_info =
  ii_organizationName :: string
  ii_organizationSlug :: string
  ii_role :: string
  ii_expiresAt :: int

definition getInviteInfo :: "webcrypto \<Rightarrow> user_ctx \<Rightarrow> string \<Rightarrow> invite_info server" where
  "getInviteInfo wc ux token =
     andThen (checkGetInviteInfoRateLimit (ux_userId ux @ CHR '':'' # orElse (ux_ip ux) ''unknown'')) (\<lambda>ok.
     if \<not> ok then fail_with (DomainErr RateLimitError ''RATE_LIMITED'' [])
     else andThen (select (invited (hashApiKey wc token))) (\<lambda>found.
       andThen (usable_invite found) (\<lambda>row.
       succeed \<lparr>ii_organizationName = org_name (snd row), ii_organizationSlug = org_slug (snd row),
         ii_role = orElse (inv_role (fst row)) ''member'', ii_expiresAt = inv_expiresAt (fst row)\<rparr>)))"

definition open_invite :: "string \<Rightarrow> invitation_row \<Rightarrow> bool" where
  "open_invite i r = (inv_id r = i \<and> inv_usedAt r = None)"

definition use_invite :: "string \<Rightarrow> string \<Rightarrow> int \<Rightarrow> db \<Rightarrow> bool \<times> db" where
  "use_invite i userId now d =
     (let (hit, rows) = update_hit (open_invite i)
            (\<lambda>r. r\<lparr>inv_usedAt := Some now, inv_usedBy := Some userId, inv_status := ''accepted''\<rparr>) (tbl_invitations d)
      in (hit, d\<lparr>tbl_invitations := rows\<rparr>))"

record accepted_invite =
  ai_organizationId :: string
  ai_organizationName :: string
  ai_organizationSlug :: string

definition acceptInvite :: "webcrypto \<Rightarrow> user_ctx \<Rightarrow> string \<Rightarrow> accepted_invite server" where
  "acceptInvite wc ux token =
     andThen (select (invited (hashApiKey wc token))) (\<lambda>found.
     andThen (usable_invite found) (\<lambda>row.
     let i = fst row; role = orElse (inv_role i) ''member'' in
     andThen (select (member_row_of (inv_org i) (ux_userId ux))) (\<lambda>existingMember.
     if existingMember \<noteq> None then fail_with (DomainErr ConflictError ''ALREADY_MEMBER'' [])
     else andThen new_Date (\<lambda>used.
       andThen (statement (\<lambda>d. Inr (use_invite (inv_id i) (ux_userId ux) used d))) (\<lambda>updated.
       if \<not> updated then fail_with (DomainErr ConflictError ''INVITE_ALREADY_USED'' [])
       else andThen randomUUID (\<lambda>memberId.
         andThen new_Date (\<lambda>now.
         followed_by (statement (insert_member \<lparr>mem_id = memberId, mem_org = inv_org i, mem_userId = ux_userId ux,
             mem_role = role, mem_createdAt = now\<rparr>))
         (followed_by (logUserAudit ((entry (inv_org i) (Some (ux_userId ux)) Ev_org_invite_accept Allowed)
             \<lparr>ae_ipAddress := ux_ip ux, ae_meta := Some [(''invitationId'', JStr (inv_id i)), (''role'', JStr role)]\<rparr>))
           (succeed \<lparr>ai_organizationId = inv_org i, ai_organizationName = org_name (snd row),
              ai_organizationSlug = org_slug (snd row)\<rparr>)))))))))"

definition pending_invite :: "string \<Rightarrow> string \<Rightarrow> invitation_row \<Rightarrow> bool" where
  "pending_invite orgId invitationId i = (inv_id i = invitationId \<and> inv_org i = orgId \<and> inv_usedAt i = None)"

definition revokeInvite :: "session_ctx \<Rightarrow> string \<Rightarrow> string \<Rightarrow> unit server" where
  "revokeInvite sx orgId invitationId =
     followed_by (forbidden_logged (org_denied sx Ev_org_invite_revoke ''insufficient_role'' orgId)
       (requireOrgRole orgId (sx_userId sx) ''admin''))
     (andThen (statement (\<lambda>d. Inr (filter (pending_invite orgId invitationId) (tbl_invitations d),
         d\<lparr>tbl_invitations := filter (\<lambda>i. \<not> pending_invite orgId invitationId i) (tbl_invitations d)\<rparr>))) (\<lambda>deleted.
      if deleted = [] then fail_with (notFound ''INVITE_NOT_FOUND'')
      else logSessionAudit ((entry orgId (Some (sx_userId sx)) Ev_org_invite_revoke Allowed)
        \<lparr>ae_ipAddress := sx_ip sx, ae_meta := Some [(''invitationId'', JStr invitationId)]\<rparr>)))"

interpretation invite: single_use open_invite
  "\<lambda>now r. r\<lparr>inv_usedAt := Some now, inv_usedBy := Some u, inv_status := ''accepted''\<rparr>" for u
  by unfold_locales (simp add: open_invite_def)

end
