(* ===== verification/Org_Properties.thy ===== *)
theory Org_Properties
  imports Organizations Store_Invariant Item_Properties
begin

text \<open>
  What organisations promise: owners are made by owners only, whatever the requests of everyone else; an
  invitation admits one user once; a deletion was confirmed by an owner and leaves nothing of the tenant.
\<close>

section \<open>Requests\<close>

definition store_kept :: "world \<Rightarrow> world \<Rightarrow> bool" where
  "store_kept w w' \<longleftrightarrow> store w' = store w"

text \<open>The re-authentication reads accounts and hashes, it does not write.\<close>

definition reauth_reads :: "reauth_api server \<Rightarrow> bool" where
  "reauth_reads auth \<longleftrightarrow> keeps store_kept auth \<and> (\<forall>w api w'. auth w = (Inr api, w') \<longrightarrow>
     (\<forall>f u. ra_findAccounts api = Some f \<longrightarrow> keeps store_kept (f u)) \<and>
     (\<forall>v p h. ra_verify api = Some v \<longrightarrow> keeps store_kept (v p h)))"

text \<open>A request of user \<open>u\<close> that touches organisations, members or invitations, with any outcome.\<close>

inductive org_request :: "webcrypto \<Rightarrow> reauth_api server \<Rightarrow> string \<Rightarrow> world \<Rightarrow> world \<Rightarrow> bool" for wc auth u where
  found_org: "ux_userId ux = u \<Longrightarrow> createOrg ux name slug logo w = (r, w') \<Longrightarrow> org_request wc auth u w w'"
| found_personal: "ux_userId ux = u \<Longrightarrow> createPersonalOrg ux w = (r, w') \<Longrightarrow> org_request wc auth u w w'"
| update_org: "sx_userId sx = u \<Longrightarrow> updateOrg sx s new_name new_logo w = (r', w') \<Longrightarrow> org_request wc auth u w w'"
| delete_org: "sx_userId sx = u \<Longrightarrow> deleteOrg auth sx s name pw w = (r', w') \<Longrightarrow> org_request wc auth u w w'"
| invite: "sx_userId sx = u \<Longrightarrow> createInvite wc sx s role w = (i, w') \<Longrightarrow> org_request wc auth u w w'"
| look_up: "ux_userId ux = u \<Longrightarrow> getInviteInfo wc ux token w = (info, w') \<Longrightarrow> org_request wc auth u w w'"
| accept: "ux_userId ux = u \<Longrightarrow> acceptInvite wc ux token w = (a, w') \<Longrightarrow> org_request wc auth u w w'"
| withdraw: "sx_userId sx = u \<Longrightarrow> revokeInvite sx s inviteId w = (r', w') \<Longrightarrow> org_request wc auth u w w'"
| set_role: "sx_userId sx = u \<Longrightarrow> updateMemberRole sx s m new_role w = (r', w') \<Longrightarrow> org_request wc auth u w w'"
| remove_member: "sx_userId sx = u \<Longrightarrow> removeMember sx s m w = (r', w') \<Longrightarrow> org_request wc auth u w w'"

section \<open>Owners are made by owners\<close>

text \<open>The organisation exists, its owners are among \<open>os\<close>, and no open invitation makes an owner of it.\<close>

definition closed_to :: "string set \<Rightarrow> string \<Rightarrow> db \<Rightarrow> bool" where
  "closed_to os t d \<longleftrightarrow> t \<in> set (map org_id (tbl_organizations d)) \<and> distinct (map mem_id (tbl_members d)) \<and>
     (\<forall>m \<in> set (tbl_members d). mem_org m = t \<and> mem_role m = ''owner'' \<longrightarrow> mem_userId m \<in> os) \<and>
     (\<forall>i \<in> set (tbl_invitations d). inv_org i = t \<and> inv_usedAt i = None \<longrightarrow> inv_role i \<noteq> Some ''owner'')"

interpretation closed: db_invariant "closed_to os t" for os t
  by unfold_locales (simp add: closed_to_def)

text \<open>What comes after a step may rely on what the step returned.\<close>

lemma keeps_preserves_then:
  assumes "keeps (preserves P) m" "\<And>w x w'. m w = (Inr x, w') \<Longrightarrow> P (store w) \<Longrightarrow> keeps (preserves P) (f x)"
  shows "keeps (preserves P) (andThen m f)"
proof (rule keepsI)
  fix w
  show "preserves P w (snd (andThen m f w))"
  proof (cases "m w")
    case (Pair r w1)
    with assms(1) have R1: "preserves P w w1" by (rule keepsD)
    show ?thesis
    proof (cases r)
      case (Inl e)
      with Pair R1 show ?thesis by (simp add: andThen_def)
    next
      case (Inr x)
      show ?thesis
      proof (cases "P (store w)")
        case True
        with assms(2) Pair Inr have "keeps (preserves P) (f x)" by blast
        then have "preserves P w1 (snd (f x w1))" by (simp add: keeps_def)
        with R1 True Pair Inr show ?thesis by (simp add: andThen_def preserves_def)
      qed (simp add: preserves_def)
    qed
  qed
qed

lemma keeps_preserves_after:
  assumes "keeps (preserves P) m" "\<And>w x w'. m w = (Inr x, w') \<Longrightarrow> P (store w) \<Longrightarrow> keeps (preserves P) k"
  shows "keeps (preserves P) (followed_by m k)"
  unfolding followed_by_def using assms by (rule keeps_preserves_then)

lemma closed_opaque: "keeps (preserves (closed_to os t)) (generateOpaqueToken p)"
  unfolding generateOpaqueToken_def by (auto intro!: keeps_preserves_same keeps_same)

text \<open>Members that stay, with their roles, and invitations that stay, used or not, keep the invariant.\<close>

lemma closed_fewer:
  assumes "closed_to os t d" "t \<in> set (map org_id (tbl_organizations d'))"
    and "tbl_members d' = filter P (tbl_members d)"
    and "\<And>i. i \<in> set (tbl_invitations d') \<Longrightarrow> inv_usedAt i = None \<Longrightarrow>
      i \<in> set (tbl_invitations d)"
  shows "closed_to os t d'"
  using assms unfolding closed_to_def by (auto simp: distinct_map_filter)

lemma closed_outsider:
  assumes "closed_to os t d" "u \<notin> os" "member_row_of t u d = Some m"
  shows "mem_role m \<noteq> ''owner''"
proof -
  from assms(3) have "m \<in> set (tbl_members d)" "mem_org m = t" "mem_userId m = u"
    unfolding member_row_of_def by (auto dest: find_SomeD)
  with assms(1,2) show ?thesis by (auto simp: closed_to_def)
qed

lemma outsider_role:
  assumes "closed_to os t (store w)" "u \<notin> os" "forbidden_logged e (requireOrgRole t u r) w = (Inr x, w')"
  shows "x \<noteq> ''owner''"
  using requireOrgRole_Inr [of t u r w x w'] closed_outsider [OF assms(1,2)] assms(3) by (auto simp: forbidden_logged_Inr)

lemma outsider_no_owner:
  assumes "closed_to os t (store w)" "u \<notin> os" "requireOrgRole t u ''owner'' w = (Inr x, w')"
  shows False
  using requireOrgRole_Inr [OF assms(3)] closed_outsider [OF assms(1,2)] rank_owner by auto

lemma closed_insert_member:
  assumes "mem_org r \<noteq> t \<or> mem_role r \<noteq> ''owner''"
  shows "keeps (preserves (closed_to os t)) (statement (insert_member r))"
proof (rule keeps_preserves_statement)
  fix d x d'
  assume "closed_to os t d" "insert_member r d = Inr (x, d')"
  moreover from this(2) have "d' = d\<lparr>tbl_members := tbl_members d @ [r]\<rparr>" "mem_id r \<notin> mem_id ` set (tbl_members d)"
    by (auto simp: insert_member_def split: if_splits)
  ultimately show "closed_to os t d'" using assms by (auto simp: closed_to_def)
qed

lemma closed_seed: "keeps (preserves (closed_to os t)) (seedOrgWithOwnerProfile inp)"
proof -
  have org: "keeps (preserves (closed_to os t)) (statement (insert_organization q))" for q
    by (rule keeps_preserves_statement) (auto simp: insert_organization_def closed_to_def split: if_splits)
  have prof: "keeps (preserves (closed_to os t)) (statement (insert_profiles ps))" for ps
    by (rule keeps_preserves_statement) (auto simp: insert_profiles_def closed_to_def split: if_splits)
  have other: "org_id q \<noteq> t" if "statement (insert_organization q) w = (Inr x, w')" "closed_to os t (store w)" for q w x w'
    using that by (auto simp: statement_ok insert_organization_def closed_to_def split: if_splits)
  have nop: "keeps (preserves (closed_to os t)) (statement (\<lambda>d. Inr ((), d)))"
    by (rule keeps_preserves_statement) simp
  show ?thesis
    unfolding seedOrgWithOwnerProfile_def Let_def
    by (intro closed.keeps_parts keeps_preserves_after [OF org] prof nop closed_insert_member)
      (auto dest: other)
qed

lemma closed_seed_in_transaction: "keeps (preserves (closed_to os t)) (seed_in_transaction inp)"
  unfolding seed_in_transaction_def on_unique_violation_def
  by (intro keeps_preserves_catch keeps_preserves_transaction_of closed_seed) (auto intro!: closed.keeps_parts)

lemma keeps_toSlug: "keeps same_store (toSlug name)"
  unfolding toSlug_def Let_def by (auto intro!: keeps_same)

lemma closed_user_log: "keeps (preserves (closed_to os t)) (logUserAudit e)"
  unfolding logUserAudit_def logSessionAudit_def [symmetric] by (rule closed.keeps_session_log)

lemma closed_found:
  "keeps (preserves (closed_to os t)) (createOrg ux name slug logo)"
  "keeps (preserves (closed_to os t)) (createPersonalOrg ux)"
  unfolding createOrg_def createPersonalOrg_def Let_def
  by (auto intro!: closed.keeps_parts closed_seed_in_transaction keeps_preserves_same [OF keeps_toSlug] closed_user_log
      split: option.split prod.split)

lemma closed_cong:
  assumes "map org_id (tbl_organizations d') = map org_id (tbl_organizations d)"
    and "tbl_members d' = tbl_members d" "tbl_invitations d' = tbl_invitations d"
  shows "closed_to os t d' = closed_to os t d"
  unfolding closed_to_def assms ..

lemma closed_update: "keeps (preserves (closed_to os t)) (updateOrg sx s new_name new_logo)"
proof -
  have "keeps (preserves (closed_to os t)) (modify (set_org s n l))" for n l
    by (rule keeps_preserves_modify) (rule closed_cong [THEN iffD2], simp_all add: set_org_def)
  then show ?thesis unfolding updateOrg_def Let_def by (auto intro!: closed.keeps_parts)
qed

lemma closed_kept: "keeps store_kept m \<Longrightarrow> keeps (preserves P) m"
  by (auto simp: keeps_def store_kept_def preserves_def)

text \<open>Any predicate of the store is preserved, so the store itself is.\<close>

lemma keeps_reauthenticate: "reauth_reads auth \<Longrightarrow> keeps (preserves (closed_to os t)) (reauthenticatePassword auth u pw)"
  unfolding reauthenticatePassword_def
  by (rule keeps_preserves_then)
    (auto simp: reauth_reads_def intro!: closed.keeps_parts closed_kept [of auth] split: option.split, (blast intro: closed_kept)+)

text \<open>The members, the invitations and the organisations are those of the store before, less those of the
  deleted organisation.\<close>

lemma closed_delete_organization:
  assumes "closed_to os t d" "s \<noteq> t"
  shows "closed_to os t (delete_organizations (\<lambda>q. org_id q = s) d)"
proof -
  let ?d = "delete_organizations (\<lambda>q. org_id q = s) d"
  have "set (map org_id (filter (\<lambda>q. org_id q = s) (tbl_organizations d))) \<subseteq> {s}" by auto
  moreover have "\<exists>P. tbl_members ?d = filter P (tbl_members d)" "\<exists>P. tbl_invitations ?d = filter P (tbl_invitations d)"
    "tbl_organizations ?d = filter (\<lambda>q. org_id q \<noteq> s) (tbl_organizations d)"
    by (auto simp: delete_organizations_eq Let_def drop_tenants_kept)
  ultimately show ?thesis using assms by (auto intro!: closed_fewer [OF assms(1)] simp: closed_to_def distinct_map_filter)
qed

lemma closed_deletion_denied: "keeps (preserves (closed_to os t)) (deletion_denied sx s why)"
  unfolding deletion_denied_def by (rule closed.keeps_parts)

lemma closed_delete:
  assumes "reauth_reads auth" "sx_userId sx \<notin> os"
  shows "keeps (preserves (closed_to os t)) (deleteOrg auth sx s name pw)"
proof -
  let ?P = "closed_to os t"
  let ?guard = "tap_error (requireOrgRole s (sx_userId sx) ''owner'')
       (\<lambda>e. if is_class ForbiddenError e then deletion_denied sx s ''insufficient_role'' else succeed ())"
  have guard: "keeps (preserves ?P) ?guard"
    by (auto intro!: closed.keeps_parts closed_deletion_denied)
  have "s \<noteq> t" if "?guard w = (Inr x, w')" "?P (store w)" for w x w'
    using that outsider_no_owner [OF that(2) assms(2)] by (auto simp: tap_error_def split: prod.splits sum.splits)
  then show ?thesis
    unfolding deleteOrg_def reauth_denied_def
    by (intro keeps_preserves_after [OF guard])
      (auto intro!: closed.keeps_parts closed_deletion_denied keeps_reauthenticate [OF assms(1)]
        keeps_preserves_modify closed_delete_organization split: option.split)
qed

lemma closed_insert_invitation:
  assumes "inv_org r \<noteq> t \<or> inv_role r \<noteq> Some ''owner''"
  shows "keeps (preserves (closed_to os t)) (statement (insert_invitation r))"
  by (rule keeps_preserves_statement) (use assms in \<open>auto simp: insert_invitation_def closed_to_def split: if_splits\<close>)

lemma closed_invite:
  assumes "sx_userId sx \<notin> os"
  shows "keeps (preserves (closed_to os t)) (createInvite wc sx s role)"
  unfolding createInvite_def Let_def
proof (rule keeps_preserves_then)
  show "keeps (preserves (closed_to os t))
     (forbidden_logged (org_denied sx Ev_org_invite ''insufficient_role'' s) (requireOrgRole s (sx_userId sx) ''admin''))"
    by (rule closed.keeps_parts)
next
  fix w actor w'
  assume actor: "forbidden_logged (org_denied sx Ev_org_invite ''insufficient_role'' s)
      (requireOrgRole s (sx_userId sx) ''admin'') w = (Inr actor, w')" "closed_to os t (store w)"
  let ?r = "orElse role ''member''"
  have owner: "s \<noteq> t \<or> ?r \<noteq> ''owner''" if "assertCanAssignRole actor ?r = Inr x" for x
  proof -
    have "actor \<noteq> ''owner''" if "s = t" using outsider_role [OF actor(2) assms] actor(1) that by blast
    with that show ?thesis using rank_owner [of actor] rank_owner [of ?r]
      by (auto simp: assertCanAssignRole_def split: if_splits)
  qed
  have lift: "assertCanAssignRole actor ?r = Inr x" if "forbidden_logged e (lift_result (assertCanAssignRole actor ?r)) v = (Inr x, v')"
    for e v x v' using that by (simp add: forbidden_logged_Inr lift_result_def)
  show "keeps (preserves (closed_to os t)) (followed_by (forbidden_logged e (lift_result (assertCanAssignRole actor ?r)))
       (andThen (generateOpaqueToken INVITE_TOKEN_PREFIX) (\<lambda>token. andThen randomUUID (\<lambda>i. andThen new_Date (\<lambda>issued.
        andThen new_Date (\<lambda>now. followed_by (statement (insert_invitation (new_invitation sx s ?r i (h token)
            (issued + INVITE_TOKEN_TTL_MS) now))) (followed_by (logSessionAudit (l i)) (succeed (i, token)))))))))" for e h l
    by (rule keeps_preserves_after [OF closed.keeps_forbidden [OF keeps_lift_result]])
      (auto intro!: closed.keeps_parts closed_opaque closed_insert_invitation dest!: lift owner simp: new_invitation_def)
qed

text \<open>The invitation that is accepted is one of the open invitations of the table.\<close>

lemma usable_invite_Inr:
  "usable_invite found w = (Inr row, w') \<Longrightarrow> found = Some row \<and> inv_usedAt (fst row) = None \<and>
    (\<exists>now \<in> range (clock w). now \<le> inv_expiresAt (fst row)) \<and> same_store w w'"
  by (auto simp: usable_invite_def andThen_Inr fail_with_def succeed_def same_store_def env_kept_def new_Date_def not_less
      split: option.splits if_splits)

lemma keeps_usable: "keeps same_store (usable_invite found)"
  unfolding usable_invite_def by (auto intro!: keeps_same split: option.split)

lemma invited_Some:
  "invited h d = Some row \<Longrightarrow> fst row \<in> set (tbl_invitations d) \<and> inv_tokenHash (fst row) = h"
  by (auto simp: invited_def split: option.splits dest: find_SomeD)

lemma closed_use_invite: "keeps (preserves (closed_to os t)) (statement (\<lambda>d. Inr (use_invite i u now d)))"
  by (rule keeps_preserves_statement) (auto simp: use_invite_def update_hit_def closed_to_def split: if_splits)

lemma closed_accept: "keeps (preserves (closed_to os t)) (acceptInvite wc ux token)"
  unfolding acceptInvite_def
proof (rule keeps_preserves_then, rule closed.keeps_parts, rule keeps_preserves_then,
    rule keeps_preserves_same, rule keeps_usable, goal_cases)
  case (1 w found w1 v row v')
  from usable_invite_Inr [OF 1(3)] have row: "found = Some row" "inv_usedAt (fst row) = None" by simp_all
  with 1(1) have "invited (hashApiKey wc token) (store w) = Some row" by (auto simp: select_ok)
  from invited_Some [OF this] have "fst row \<in> set (tbl_invitations (store w))" by simp
  with 1(2) row have "inv_org (fst row) \<noteq> t \<or> orElse (inv_role (fst row)) ''member'' \<noteq> ''owner''"
    by (auto simp: closed_to_def orElse_def split: option.split)
  then show ?case unfolding Let_def
    by (auto intro!: closed.keeps_parts closed_use_invite closed_insert_member closed_user_log)
qed

lemma closed_other:
  "keeps (preserves (closed_to os t)) (getInviteInfo wc ux token)"
  "keeps (preserves (closed_to os t)) (revokeInvite sx s i)"
proof -
  have "keeps store_kept (checkGetInviteInfoRateLimit key)" for key
    by (auto simp: keeps_def store_kept_def checkGetInviteInfoRateLimit_def andThen_def new_Date_def Let_def)
  then show "keeps (preserves (closed_to os t)) (getInviteInfo wc ux token)"
    unfolding getInviteInfo_def
    by (auto intro!: closed.keeps_parts keeps_preserves_same [OF keeps_usable] intro: closed_kept)
  show "keeps (preserves (closed_to os t)) (revokeInvite sx s i)"
    unfolding revokeInvite_def
    by (auto intro!: closed.keeps_parts keeps_preserves_statement simp: closed_to_def)
qed

text \<open>Another organisation's member is another row.\<close>

lemma closed_set_role_store:
  assumes "closed_to os t d" "org_member s m d = Some target" "s \<noteq> t"
  shows "closed_to os t (set_role m role d)"
proof -
  from org_member_SomeD [OF assms(2)] have target: "target \<in> set (tbl_members d)" "mem_id target = m" "mem_org target = s"
    by simp_all
  from assms(1) have dist: "distinct (map mem_id (tbl_members d))" by (simp add: closed_to_def)
  have ids: "map mem_id (tbl_members (set_role m role d)) = map mem_id (tbl_members d)"
    by (simp add: set_role_def)
  have other: "x \<in> set (tbl_members d)" if "x \<in> set (tbl_members (set_role m role d))" "mem_org x = t" for x
  proof -
    from that(1) obtain y where y: "y \<in> set (tbl_members d)" "x = (if mem_id y = m then y\<lparr>mem_role := role\<rparr> else y)"
      by (auto simp: set_role_def)
    have "mem_id y \<noteq> m"
    proof
      assume "mem_id y = m"
      with target y(1) dist have "y = target" by (metis distinct_map_inj_on_eq)
      with y(2) that(2) target(3) assms(3) show False by (auto split: if_splits)
    qed
    with y show ?thesis by simp
  qed
  have "tbl_invitations (set_role m role d) = tbl_invitations d" "tbl_organizations (set_role m role d) = tbl_organizations d"
    by (simp_all add: set_role_def)
  with assms(1) other show ?thesis unfolding closed_to_def ids by auto
qed

lemma closed_set_role:
  assumes "sx_userId sx \<notin> os"
  shows "keeps (preserves (closed_to os t)) (updateMemberRole sx s m role)"
proof (rule keepsI, unfold preserves_def, rule impI)
  fix w :: world
  assume P: "closed_to os t (store w)"
  obtain r w' where run: "updateMemberRole sx s m role w = (r, w')" by (cases "updateMemberRole sx s m role w")
  have audits: "closed_to os t (store v) \<Longrightarrow> closed_to os t (store v')" if "only_audits v v'" for v v'
    using that closed.blind by (metis audits_whereE)
  show "closed_to os t (store (snd (updateMemberRole sx s m role w)))"
  proof (cases r)
    case (Inl e)
    with keeps_errorD [OF keeps_error_updateMemberRole] run P closed.blind show ?thesis by (metis audits_whereE snd_conv)
  next
    case (Inr u)
    with run have "updateMemberRole sx s m role w = (Inr u, w')" by simp
    then obtain target w1 where t: "actor_rank 3 sx s (store w)" "org_member s m (store w) = Some target"
      and w1: "store w1 = set_role m role (store w)" "only_audits w1 w'"
      by (rule updateMemberRole_Inr) blast
    from t(1) closed_outsider [OF P assms] have "s \<noteq> t" by (auto simp: actor_rank_def rank_owner)
    from closed_set_role_store [OF P t(2) this] w1 audits run show ?thesis by simp
  qed
qed

lemma closed_remove: "keeps (preserves (closed_to os t)) (removeMember sx s m)"
proof -
  have drop: "closed_to os t (drop_member m d)" if "closed_to os t d" for d
    using that by (rule closed_fewer) (use that in \<open>auto simp: drop_member_def closed_to_def\<close>)
  have off: "closed_to os t (disable_agents now Q d) = closed_to os t d" "closed_to os t (revoke_sessions now R d) = closed_to os t d"
    "closed_to os t (d\<lparr>tbl_permissions := ps\<rparr>) = closed_to os t d" for now Q R ps d
    by (rule closed_cong, simp_all add: disable_agents_def revoke_sessions_def)+
  have onRemoved: "keeps (preserves (closed_to os t)) (onMemberRemoved s u a ip)" for u a ip
    unfolding onMemberRemoved_def revoke_member_agents_def delete_member_grants_def Let_def
    by (auto intro!: closed.keeps_parts keeps_preserves_modify simp: off)
  show ?thesis
    unfolding removeMember_def remove_rows_def assertOwnersRemainAfterChange_def
    by (auto intro!: closed.keeps_parts keeps_preserves_transaction_of drop keeps_preserves_modify
        keeps_preserves_statement onRemoved split: option.split)
qed

lemma closed_request:
  assumes "org_request wc auth u w w'" "reauth_reads auth" "u \<notin> os" "closed_to os t (store w)"
  shows "closed_to os t (store w')"
  using assms
  by cases (auto intro: preservesD [OF closed_found(1)] preservesD [OF closed_found(2)] preservesD [OF closed_update]
      preservesD [OF closed_delete] preservesD [OF closed_invite] preservesD [OF closed_other(1)]
      preservesD [OF closed_accept] preservesD [OF closed_other(2)] preservesD [OF closed_set_role]
      preservesD [OF closed_remove])

text \<open>Any number of requests of users outside \<open>os\<close>, in any order, with any outcome.\<close>

inductive outsiders_run :: "webcrypto \<Rightarrow> reauth_api server \<Rightarrow> string set \<Rightarrow> world \<Rightarrow> world \<Rightarrow> bool" for wc auth os where
  at_rest: "outsiders_run wc auth os w w"
| one_more: "outsiders_run wc auth os w v \<Longrightarrow> org_request wc auth u v w' \<Longrightarrow> u \<notin> os \<Longrightarrow> outsiders_run wc auth os w w'"

definition owner_ids :: "string \<Rightarrow> db \<Rightarrow> string set" where
  "owner_ids t d = mem_userId ` set (owners t d)"

text \<open>C35: whatever the users who are not owners of an organisation ask for, in any number and order of
  requests on organisations, members and invitations, no one becomes an owner of it: everyone who owns
  it in the end owned it at the start. At the start no open invitation to own it is outstanding, and member
  ids are unique.\<close>

theorem only_owners_make_owners:
  assumes "outsiders_run wc auth (owner_ids t (store w)) w w'" "reauth_reads auth"
    and "t \<in> set (map org_id (tbl_organizations (store w)))" "distinct (map mem_id (tbl_members (store w)))"
    and "filter (\<lambda>i. inv_org i = t \<and> inv_usedAt i = None \<and> inv_role i = Some ''owner'') (tbl_invitations (store w)) = []"
  shows "owner_ids t (store w') \<subseteq> owner_ids t (store w)"
proof -
  define os where "os = owner_ids t (store w)"
  have start: "closed_to os t (store w)"
    using assms(3-5) by (auto simp: closed_to_def os_def owner_ids_def owners_def filter_empty_conv)
  from assms(1) [folded os_def] have "closed_to os t (store w')"
    using start by induction (auto intro: closed_request [OF _ assms(2)])
  then show ?thesis by (auto simp: closed_to_def owner_ids_def [of t "store w'"] owners_def os_def)
qed

section \<open>An invitation admits one user, once\<close>

lemma used_invite_found:
  assumes "invited h d = Some row" "tbl_invitations d' = tbl_invitations (snd (use_invite (inv_id (fst row)) u now d))"
    and "invited h d' = Some row'"
  shows "inv_usedAt (fst row') \<noteq> None"
proof -
  let ?mark = "\<lambda>r. if open_invite (inv_id (fst row)) r
    then r\<lparr>inv_usedAt := Some now, inv_usedBy := Some u, inv_status := ''accepted''\<rparr> else r"
  from assms(1) have "find (\<lambda>i. inv_tokenHash i = h) (tbl_invitations d) = Some (fst row)"
    by (auto simp: invited_def split: option.splits)
  moreover have "tbl_invitations d' = map ?mark (tbl_invitations d)"
    by (simp add: assms(2) use_invite_def update_hit_def)
  ultimately have "find (\<lambda>i. inv_tokenHash i = h) (tbl_invitations d') = Some (?mark (fst row))"
    by (simp add: find_map_same)
  with assms(3) show ?thesis by (auto simp: invited_def open_invite_def split: option.splits if_splits)
qed

lemma acceptInvite_Inr:
  assumes "acceptInvite wc ux token w = (Inr a, w')"
  obtains row now m where "invited (hashApiKey wc token) (store w) = Some row" "inv_usedAt (fst row) = None"
    "\<exists>now \<in> range (clock w). now \<le> inv_expiresAt (fst row)"
    "member_row_of (inv_org (fst row)) (ux_userId ux) (store w) = None"
    "mem_org m = inv_org (fst row)" "mem_userId m = ux_userId ux" "mem_role m = orElse (inv_role (fst row)) ''member''"
    "tbl_members (store w') = tbl_members (store w) @ [m]" "ai_organizationId a = inv_org (fst row)"
    "tbl_invitations (store w') = tbl_invitations (snd (use_invite (inv_id (fst row)) (ux_userId ux) now (store w)))"
proof -
  let ?m = "\<lambda>row i now. \<lparr>mem_id = i, mem_org = inv_org (fst row), mem_userId = ux_userId ux,
             mem_role = orElse (inv_role (fst row)) ''member'', mem_createdAt = now\<rparr>"
  let ?log = "\<lambda>row. logUserAudit ((entry (inv_org (fst row)) (Some (ux_userId ux)) Ev_org_invite_accept Allowed)
             \<lparr>ae_ipAddress := ux_ip ux, ae_meta := Some [(''invitationId'', JStr (inv_id (fst row))),
              (''role'', JStr (orElse (inv_role (fst row)) ''member''))]\<rparr>)"
  from assms obtain row w1 w2 now t i d where
    u: "usable_invite (invited (hashApiKey wc token) (store w)) (w\<lparr>stmts := Suc (stmts w)\<rparr>) = (Inr row, w1)"
    and log: "?log row w2 = (Inr (), w')"
    and new: "member_row_of (inv_org (fst row)) (ux_userId ux) (store w1) = None"
    and use: "use_invite (inv_id (fst row)) (ux_userId ux) now (store w1) = (True, d)"
    and ins: "insert_member (?m row i t) d = Inr ((), store w2)" and a: "ai_organizationId a = inv_org (fst row)"
    by (auto simp: acceptInvite_def andThen_Inr Let_def select_ok followed_by_def statement_ok fail_with_def succeed_def
        split: if_splits)
  from usable_invite_Inr [OF u] have k: "store w1 = store w" "inv_usedAt (fst row) = None"
    "invited (hashApiKey wc token) (store w) = Some row"
    "\<exists>now \<in> range (clock w). now \<le> inv_expiresAt (fst row)" by (auto simp: same_store_def)
  from log audits_where_frame [OF session_log.log_where [of "\<lambda>_. True"]]
  have "tbl_members (store w') = tbl_members (store w2)" "tbl_invitations (store w') = tbl_invitations (store w2)"
    unfolding logUserAudit_def logSessionAudit_def [symmetric] by (metis snd_conv)+
  moreover from ins have "store w2 = d\<lparr>tbl_members := tbl_members d @ [?m row i t]\<rparr>"
    by (auto simp: insert_member_def split: if_splits)
  moreover from use have "d = snd (use_invite (inv_id (fst row)) (ux_userId ux) now (store w))" by (simp add: k(1))
  moreover from this have "tbl_members d = tbl_members (store w)" by (simp add: use_invite_def split: prod.split)
  ultimately show ?thesis using new k a by (intro that [of row "?m row i t" now]) simp_all
qed


section \<open>Deletion\<close>

text \<open>The password was checked against the credential account of the user.\<close>

definition password_checked :: "reauth_api server \<Rightarrow> string \<Rightarrow> string \<Rightarrow> bool" where
  "password_checked auth u pw = (\<exists>v v'. reauthenticatePassword auth u pw v = (Inr (), v'))"

lemma password_checkedD:
  assumes "password_checked auth u pw"
  shows "\<exists>api findAccounts verify accounts c v1 v2 v3 v4 v5. auth v1 = (Inr api, v2) \<and>
    ra_findAccounts api = Some findAccounts \<and> ra_verify api = Some verify \<and> findAccounts u v2 = (Inr accounts, v3) \<and>
    c \<in> set accounts \<and> ac_providerId c = ''credential'' \<and> truthy (ac_password c) \<and>
    verify pw (the (ac_password c)) v4 = (Inr True, v5)"
proof -
  from assms obtain v v' where "reauthenticatePassword auth u pw v = (Inr (), v')" by (auto simp: password_checked_def)
  then obtain api v1 where api: "auth v = (Inr api, v1)"
    and k: "(case (ra_findAccounts api, ra_verify api) of
         (Some findAccounts, Some verify) \<Rightarrow> andThen (findAccounts u) (\<lambda>accounts.
             case find (\<lambda>a. ac_providerId a = ''credential'' \<and> truthy (ac_password a)) accounts of
               None \<Rightarrow> fail_with (DomainErr BadRequestError ''REAUTH_PASSWORD_REQUIRED'' [])
             | Some credential \<Rightarrow> andThen (verify pw (the (ac_password credential))) (\<lambda>valid.
                 if \<not> valid then fail_with (DomainErr UnauthorizedError ''REAUTH_FAILED'' []) else succeed ()))
       | _ \<Rightarrow> fail_with (PlainErr ''Better Auth context is missing the expected re-authentication API'')) v1 = (Inr (), v')"
    unfolding reauthenticatePassword_def andThen_Inr by blast
  from k obtain findAccounts verify where fns: "ra_findAccounts api = Some findAccounts" "ra_verify api = Some verify"
    by (cases "ra_findAccounts api"; cases "ra_verify api") (auto simp: fail_with_def)
  with k obtain accounts v2 where f: "findAccounts u v1 = (Inr accounts, v2)"
    and c: "(case find (\<lambda>a. ac_providerId a = ''credential'' \<and> truthy (ac_password a)) accounts of
               None \<Rightarrow> fail_with (DomainErr BadRequestError ''REAUTH_PASSWORD_REQUIRED'' [])
             | Some credential \<Rightarrow> andThen (verify pw (the (ac_password credential))) (\<lambda>valid.
                 if \<not> valid then fail_with (DomainErr UnauthorizedError ''REAUTH_FAILED'' []) else succeed ())) v2 = (Inr (), v')"
    by (auto simp: andThen_Inr)
  from c obtain cred v3 where "find (\<lambda>a. ac_providerId a = ''credential'' \<and> truthy (ac_password a)) accounts = Some cred"
    "verify pw (the (ac_password cred)) v2 = (Inr True, v3)"
    by (auto simp: fail_with_def andThen_Inr split: option.split_asm if_split_asm)
  with find_SomeD [OF this(1)] api fns f show ?thesis by blast
qed

lemma reauthenticate_store:
  assumes "reauth_reads auth" "reauthenticatePassword auth u pw w = (r, w')"
  shows "store w' = store w"
proof -
  have "keeps (preserves (\<lambda>d. d = store w)) (reauthenticatePassword auth u pw)"
    using assms(1) unfolding reauthenticatePassword_def
    by (intro keeps_preserves_then [of _ auth])
      (auto simp: reauth_reads_def intro!: preserves_parts closed_kept [of auth] split: option.split,
       (blast intro: closed_kept)+)
  from preservesD [OF this assms(2)] show ?thesis by simp
qed

lemma deleteOrg_Inr:
  assumes "deleteOrg auth sx t name pw w = (Inr (), w')" "reauth_reads auth"
  shows "actor_rank 3 sx t (store w) \<and> (\<exists>q. org_row t (store w) = Some q \<and> org_name q = name) \<and>
    password_checked auth (sx_userId sx) pw \<and>
    (\<exists>as. store w' = (delete_organizations (\<lambda>q. org_id q = t) (store w))\<lparr>tbl_auditLogs := as\<rparr>)"
proof -
  let ?log = "logSessionAudit ((entry t (Some (sx_userId sx)) Ev_org_delete Allowed)\<lparr>ae_ipAddress := sx_ip sx\<rparr>)"
  have tap: "tap_error m h v = (Inr x, v') \<longleftrightarrow> m v = (Inr x, v')" for m h and x :: 'a and v v'
    by (auto simp: tap_error_def split: prod.splits sum.splits)
  from assms(1) obtain r w1 q w2 where r: "requireOrgRole t (sx_userId sx) ''owner'' w = (Inr r, w1)"
    and q: "org_row t (store w1) = Some q" "org_name q = name"
    and p: "reauthenticatePassword auth (sx_userId sx) pw (w1\<lparr>stmts := Suc (stmts w1)\<rparr>) = (Inr (), w2)"
    and l: "?log (w2\<lparr>stmts := Suc (stmts w2), store := delete_organizations (\<lambda>q. org_id q = t) (store w2)\<rparr>) = (Inr (), w')"
    by (auto simp: deleteOrg_def followed_by_def andThen_Inr tap select_ok modify_ok fail_with_def
        split: option.splits if_splits)
  from requireOrgRole_Inr [OF r] have k: "store w1 = store w" and a: "actor_rank 3 sx t (store w)"
    by (auto simp: same_store_def actor_rank_def)
  from reauthenticate_store [OF assms(2) p] k have s2: "store w2 = store w" by simp
  have "keeps only_audits ?log" by (rule session_log.keeps_log_where) (rule TrueI)
  from keepsD [OF this l] s2 have
    "\<exists>as. store w' = (delete_organizations (\<lambda>q. org_id q = t) (store w))\<lparr>tbl_auditLogs := as\<rparr>"
    by (auto elim!: audits_whereE)
  with a q k p show ?thesis by (auto simp: password_checked_def)
qed

lemma drop_tenants_rest:
  "tbl_agents (drop_tenants g d) = filter (\<lambda>a. ag_org a \<notin> set g) (tbl_agents d)"
  "tbl_profiles (drop_tenants g d) = filter (\<lambda>p. prof_org p \<notin> set g) (tbl_profiles d)"
  "map item_id (tbl_items (drop_tenants g d)) = map item_id (filter (\<lambda>i. item_org i \<notin> set g) (tbl_items d))"
  by (simp_all add: drop_tenants_def delete_agents_def delete_items_def delete_profiles_def Let_def comp_def)


section \<open>Founding\<close>

definition seeded :: "string \<Rightarrow> seed_result \<Rightarrow> db \<Rightarrow> db \<Rightarrow> bool" where
  "seeded u s d d' \<longleftrightarrow> (\<exists>m p. tbl_organizations d' = tbl_organizations d @ [sr_org s] \<and>
     org_id (sr_org s) \<notin> org_id ` set (tbl_organizations d) \<and> org_slug (sr_org s) \<notin> org_slug ` set (tbl_organizations d) \<and>
     tbl_members d' = tbl_members d @ [m] \<and> mem_org m = org_id (sr_org s) \<and> mem_userId m = u \<and> mem_role m = ''owner'' \<and>
     tbl_profiles d' = tbl_profiles d @ [p] \<and> prof_org p = org_id (sr_org s) \<and> prof_id p = sr_profileId s \<and>
     prof_storageMode p = Server_managed \<and> prof_externalId p = Some ''default'' \<and> tbl_agents d' = tbl_agents d \<and>
     tbl_permissions d' = tbl_permissions d \<and> tbl_items d' = tbl_items d)"

lemma seed_in_transaction_Inr:
  assumes "seed_in_transaction inp w = (Inr s, w')" "si_profileExternalId inp = Some ''default''"
  shows "seeded (si_userId inp) s (store w) (store w')"
  using assms
  by (auto simp: seed_in_transaction_def on_unique_violation_def catch_all_def transaction_ok seedOrgWithOwnerProfile_def
      andThen_Inr followed_by_def Let_def statement_ok insert_organization_def insert_member_def insert_profiles_def
      fail_with_def succeed_def seeded_def seed_profile_def split: prod.splits sum.splits if_splits)

lemma seed_in_transaction_Inl: "seed_in_transaction inp w = (Inl e, w') \<Longrightarrow> store w' = store w"
  by (auto simp: seed_in_transaction_def on_unique_violation_def catch_all_def transaction_def fail_with_def
      split: prod.splits sum.splits if_splits)

lemma founded_cases:
  assumes "andThen pre (\<lambda>slug. andThen (seed_in_transaction (inp slug)) (\<lambda>s. followed_by (logUserAudit (e slug s)) (succeed (out s)))) w = (r, w')"
    and "keeps same_store pre" "\<And>slug. si_profileExternalId (inp slug) = Some ''default''" "\<And>slug. si_userId (inp slug) = u"
  shows "case r of Inr x \<Rightarrow> \<exists>s d. x = out s \<and> seeded u s (store w) d \<and> (\<exists>as. store w' = d\<lparr>tbl_auditLogs := as\<rparr>)
    | Inl _ \<Rightarrow> store w' = store w"
proof -
  obtain r1 w1 where p: "pre w = (r1, w1)" by (cases "pre w")
  with keepsD [OF assms(2)] have s1: "store w1 = store w" by (simp add: same_store_def)
  show ?thesis
  proof (cases r1)
    case (Inl x)
    with assms(1) p s1 show ?thesis by (auto simp: andThen_def)
  next
    case (Inr slug)
    obtain r2 w2 where sd: "seed_in_transaction (inp slug) w1 = (r2, w2)" by (cases "seed_in_transaction (inp slug) w1")
    show ?thesis
    proof (cases r2)
      case (Inl x)
      with assms(1) p Inr sd s1 seed_in_transaction_Inl show ?thesis by (fastforce simp: andThen_def)
    next
      case r2: (Inr s)
      with assms(1) p Inr sd have r: "r = Inr (out s)" and w': "w' = snd (logSessionAudit (e slug s) w2)"
        by (auto simp: andThen_def logUserAudit_def logSessionAudit_def [symmetric] session_log.log_then succeed_def)
      from seed_in_transaction_Inr [OF sd [unfolded r2]] assms(3,4) s1 have "seeded u s (store w) (store w2)" by simp
      moreover from session_log.log_where [of "\<lambda>_. True" "e slug s" w2] have "\<exists>as. store w' = store w2\<lparr>tbl_auditLogs := as\<rparr>"
        by (auto simp: w' elim!: audits_whereE)
      ultimately show ?thesis using r by auto
    qed
  qed
qed

lemma createOrg_alt:
  "createOrg ux name slug logo =
     andThen (andThen (case slug of Some s \<Rightarrow> succeed s | None \<Rightarrow> toSlug name) (\<lambda>s.
       andThen (select (\<lambda>d. find (\<lambda>q. org_slug q = s) (tbl_organizations d))) (\<lambda>existing.
         if existing \<noteq> None then fail_with slugTaken else succeed s)))
     (\<lambda>s. andThen (seed_in_transaction \<lparr>si_userId = ux_userId ux, si_name = name, si_slug = s, si_logo = logo,
           si_metadata = None, si_profileName = ''default'', si_profileExternalId = Some ''default''\<rparr>) (\<lambda>seed.
       followed_by (logUserAudit (org_created ux (org_id (sr_org seed))
         [(''slug'', JStr s), (''autoDefaultProfile'', JStr (sr_profileId seed))]))
       (succeed (serializeOrg (sr_org seed), sr_profileId seed))))"
  by (rule ext) (auto simp: createOrg_def andThen_def succeed_def fail_with_def split: prod.split sum.split)

lemma createPersonalOrg_alt:
  "createPersonalOrg ux =
     andThen (andThen (select (\<lambda>d. find (\<lambda>u. usr_id u = ux_userId ux) (tbl_users d))) (\<lambda>userRow.
       let (displayName, slug_name) = personal_names userRow in
       andThen (toSlug slug_name) (\<lambda>slug. succeed (displayName, slug))))
     (\<lambda>names. andThen (seed_in_transaction \<lparr>si_userId = ux_userId ux, si_name = fst names, si_slug = snd names, si_logo = None,
           si_metadata = Some PERSONAL_ORG_METADATA, si_profileName = ''default'',
           si_profileExternalId = Some ''default''\<rparr>) (\<lambda>seed.
       followed_by (logUserAudit (org_created ux (org_id (sr_org seed))
         [(''slug'', JStr (snd names)), (''personal'', JBool True), (''autoDefaultProfile'', JStr (sr_profileId seed))]))
       (succeed (serializeOrg (sr_org seed), sr_profileId seed))))"
  by (rule ext) (auto simp: createPersonalOrg_def andThen_def succeed_def fail_with_def split: prod.split sum.split)

lemma createOrg_cases:
  assumes "createOrg ux name slug logo w = (r, w') \<or> createPersonalOrg ux w = (r, w')"
  shows "case r of Inl _ \<Rightarrow> store w' = store w
    | Inr x \<Rightarrow> \<exists>s d. x = (serializeOrg (sr_org s), sr_profileId s) \<and> seeded (ux_userId ux) s (store w) d \<and>
        (\<exists>as. store w' = d\<lparr>tbl_auditLogs := as\<rparr>)"
proof (cases "createOrg ux name slug logo w = (r, w')")
  case True
  show ?thesis
    by (rule founded_cases [OF True [unfolded createOrg_alt]])
      (auto intro!: keeps_same keeps_toSlug split: option.split)
next
  case False
  with assms have p: "createPersonalOrg ux w = (r, w')" by simp
  show ?thesis
    by (rule founded_cases [OF p [unfolded createPersonalOrg_alt]])
      (auto intro!: keeps_same keeps_toSlug split: option.split prod.split)
qed

text \<open>An organisation is created as a whole or not at all. A failed request leaves the store as it was;
  one that succeeds adds one organisation, with an id and a slug that no other has, the caller's
  membership as its only owner, and one server-managed default profile, and the caller passes the owner check from
  then on.\<close>

theorem organisation_is_founded_whole:
  assumes "createOrg ux name slug logo w = (r, w') \<or> createPersonalOrg ux w = (r, w')" "org_refs (store w)"
    and "\<And>n. faults v n = None" "store v = store w'"
  shows "case r of Inl _ \<Rightarrow> store w' = store w
    | Inr (view, profileId) \<Rightarrow> \<exists>s. view = serializeOrg (sr_org s) \<and> profileId = sr_profileId s \<and>
        seeded (ux_userId ux) s (store w) (store w') \<and> owner_ids (ov_id view) (store w') = {ux_userId ux} \<and>
        fst (requireOrgRole (ov_id view) (ux_userId ux) ''owner'' v) = Inr ''owner''"
proof (cases r)
  case (Inl e)
  with createOrg_cases [OF assms(1)] show ?thesis by simp
next
  case (Inr x)
  with createOrg_cases [OF assms(1)] obtain s d as where x: "x = (serializeOrg (sr_org s), sr_profileId s)"
    and d: "seeded (ux_userId ux) s (store w) d" and as: "store w' = d\<lparr>tbl_auditLogs := as\<rparr>" by auto
  from d as have sd: "seeded (ux_userId ux) s (store w) (store w')" by (simp add: seeded_def)
  then obtain m where m: "tbl_members (store w') = tbl_members (store w) @ [m]" "mem_org m = org_id (sr_org s)"
    "mem_userId m = ux_userId ux" "mem_role m = ''owner''"
    and fresh: "org_id (sr_org s) \<notin> org_id ` set (tbl_organizations (store w))" by (auto simp: seeded_def)
  have "mem_org x \<in> org_id ` set (tbl_organizations (store w))" if "x \<in> set (tbl_members (store w))" for x
    using that assms(2) by (auto simp: org_refs_def refs_iff Let_def)
  with fresh have none: "filter (\<lambda>x. mem_org x = org_id (sr_org s) \<and> Q x) (tbl_members (store w)) = []" for Q
    unfolding filter_empty_conv by metis
  with m have own: "owner_ids (org_id (sr_org s)) (store w') = {ux_userId ux}"
    by (simp add: owner_ids_def owners_def)
  have "member_row_of (org_id (sr_org s)) (ux_userId ux) (store w') = Some m"
    using m none [of "\<lambda>x. mem_userId x = ux_userId ux"] by (simp add: member_row_of_def find_append filter_empty_conv find_None_iff [THEN iffD2] split: option.split)
  with m(4) assms(3,4) have "fst (requireOrgRole (org_id (sr_org s)) (ux_userId ux) ''owner'' v) = Inr ''owner''"
    by (simp add: requireOrgRole_def andThen_def select_def statement_def succeed_def)
  with sd own show ?thesis by (auto simp: Inr x serializeOrg_def)
qed

section \<open>Slugs\<close>

text \<open>The base is cut to 40 characters after its dashes were trimmed: a name can lead to a slug of 49 characters with
  two dashes in a row, which the pattern and the length that the router's slug schema asks for would reject.\<close>

lemma long_name_parts:
  "js_lower (replicate n (CHR ''a'') @ s) = replicate n (CHR ''a'') @ js_lower s"
  "dash_runs b (replicate (Suc n) (CHR ''a'') @ s) = replicate (Suc n) (CHR ''a'') @ dash_runs False s"
proof -
  have "CHR ''a'' \<noteq> char_of (0xE2 :: nat)" "CHR ''a'' \<noteq> char_of (0xC4 :: nat)" by code_simp+
  then show "js_lower (replicate n (CHR ''a'') @ s) = replicate n (CHR ''a'') @ js_lower s"
    by (induction n) (simp_all add: less_eq_char_def)
  show "dash_runs b (replicate (Suc n) (CHR ''a'') @ s) = replicate (Suc n) (CHR ''a'') @ dash_runs False s"
    by (induction n arbitrary: b) (simp_all add: slug_char_def less_eq_char_def)
qed

lemma slug_of_a_long_name:
  "fst (toSlug (replicate 39 (CHR ''a'') @ '' bc'') w) =
     Inr (replicate 39 (CHR ''a'') @ ''--'' @ take 8 (uuids w (draws w)))"
proof -
  have n39: "39 = Suc 38" by simp
  have "js_lower '' bc'' = '' bc''" "dash_runs False '' bc'' = ''-bc''" by code_simp+
  then have "slug_base (replicate 39 (CHR ''a'') @ '' bc'') = replicate 39 (CHR ''a'') @ ''-''"
    unfolding slug_base_def long_name_parts n39 trim_dashes_def by (simp add: dropWhile_append)
  then show ?thesis by (simp add: toSlug_def randomUUID_def andThen_def succeed_def Let_def)
qed

section \<open>A concrete organisation\<close>

definition org_sample_db :: db where
  "org_sample_db = \<lparr>tbl_items = [], tbl_profiles = [], tbl_agents = [], tbl_agentSessions = [], tbl_enrollmentTokens = [],
     tbl_sessionChallenges = [], tbl_permissions = [], tbl_mountReservations = [],
     tbl_members = [\<lparr>mem_id = ''m1'', mem_org = ''o1'', mem_userId = ''u1'', mem_role = ''owner'', mem_createdAt = 0\<rparr>],
     tbl_userApiKeys = [], tbl_organizations = [\<lparr>org_id = ''o1'', org_name = ''Acme'', org_slug = ''acme'',
       org_logo = None, org_metadata = None, org_createdAt = 0\<rparr>],
     tbl_users = [\<lparr>usr_id = ''u1'', usr_name = ''A'', usr_email = ''a'', usr_emailVerified = True, usr_createdAt = 0, usr_updatedAt = 0\<rparr>,
       \<lparr>usr_id = ''u2'', usr_name = ''B'', usr_email = ''b'', usr_emailVerified = True, usr_createdAt = 0, usr_updatedAt = 0\<rparr>],
     tbl_invitations = [\<lparr>inv_id = ''i1'', inv_org = ''o1'', inv_role = Some ''admin'', inv_status = ''pending'',
       inv_tokenHash = hashApiKey toy_webcrypto ''abi_x'', inv_expiresAt = 5000, inv_usedAt = None, inv_usedBy = None,
       inv_createdAt = 0, inv_inviterId = ''u1''\<rparr>],
     tbl_accountClaims = [], tbl_auditLogs = []\<rparr>"

definition newcomer :: user_ctx where
  "newcomer = \<lparr>ux_userId = ''u2'', ux_ip = None\<rparr>"

definition sample_reauth :: "reauth_api server" where
  "sample_reauth = succeed \<lparr>ra_findAccounts = Some (\<lambda>_. succeed [\<lparr>ac_providerId = ''credential'', ac_password = Some ''h''\<rparr>]),
     ra_verify = Some (\<lambda>p h. succeed (p = ''pw'' \<and> h = ''h''))\<rparr>"

lemma sample_reauth_reads: "reauth_reads sample_reauth"
  by (auto simp: reauth_reads_def sample_reauth_def keeps_def store_kept_def succeed_def)

lemma sample_accept: "\<exists>a w'. acceptInvite toy_webcrypto newcomer ''abi_x'' (sample_world org_sample_db) = (Inr a, w')"
proof -
  have log: "followed_by (logUserAudit e) k = (\<lambda>w. k (snd (logUserAudit e w)))" for e and k :: "'a server"
    by (rule ext) (simp add: logUserAudit_def logSessionAudit_def [symmetric] session_log.log_then)
  have "\<exists>a. fst (acceptInvite toy_webcrypto newcomer ''abi_x'' (sample_world org_sample_db)) = Inr a"
    unfolding acceptInvite_def log Let_def
    by (simp add: andThen_def select_def statement_def invited_def org_sample_db_def usable_invite_def org_row_def new_Date_def
        succeed_def member_row_of_def newcomer_def use_invite_def update_hit_def open_invite_def randomUUID_def followed_by_def
        insert_member_def)
  then show ?thesis by (metis prod.collapse)
qed


theorem only_owners_make_owners_witness:
  "\<exists>w'. outsiders_run toy_webcrypto sample_reauth {''u1''} (sample_world org_sample_db) w' \<and>
     length (tbl_members (store w')) = 2 \<and> owner_ids ''o1'' (store w') \<subseteq> {''u1''}"
proof -
  obtain a w' where run: "acceptInvite toy_webcrypto newcomer ''abi_x'' (sample_world org_sample_db) = (Inr a, w')"
    using sample_accept by blast
  have own: "owner_ids ''o1'' (store (sample_world org_sample_db)) = {''u1''}"
    by (simp add: owner_ids_def owners_def org_sample_db_def)
  have "org_request toy_webcrypto sample_reauth ''u2'' (sample_world org_sample_db) w'"
    by (rule accept [OF _ run]) (simp add: newcomer_def)
  then have steps: "outsiders_run toy_webcrypto sample_reauth {''u1''} (sample_world org_sample_db) w'"
    by (rule one_more [OF at_rest]) simp
  have "owner_ids ''o1'' (store w') \<subseteq> owner_ids ''o1'' (store (sample_world org_sample_db))"
    by (rule only_owners_make_owners [OF steps [folded own] sample_reauth_reads]) (simp_all add: org_sample_db_def)
  moreover have "length (tbl_members (store w')) = 2"
    using run by (rule acceptInvite_Inr) (simp add: org_sample_db_def)
  ultimately show ?thesis using steps own by auto
qed


theorem organisation_is_founded_whole_witness:
  "\<exists>w' view p. createOrg newcomer ''Beta'' (Some ''beta'') None (sample_world org_sample_db) = (Inr (view, p), w') \<and>
     owner_ids (ov_id view) (store w') = {''u2''}"
proof -
  let ?run = "createOrg newcomer ''Beta'' (Some ''beta'') None (sample_world org_sample_db)"
  have log: "followed_by (logUserAudit e) k = (\<lambda>w. k (snd (logUserAudit e w)))" for e and k :: "'a server"
    by (rule ext) (simp add: logUserAudit_def logSessionAudit_def [symmetric] session_log.log_then)
  have "\<exists>x. fst ?run = Inr x"
    unfolding createOrg_def log
    by (simp add: andThen_def select_def statement_def org_sample_db_def succeed_def seed_in_transaction_def
        on_unique_violation_def catch_all_def transaction_def seedOrgWithOwnerProfile_def Let_def followed_by_def newcomer_def
        insert_organization_def insert_member_def insert_profiles_def randomUUID_def new_Date_def)
  then obtain view p w' where run: "?run = (Inr (view, p), w')" by (metis prod.collapse)
  have refs: "org_refs (store (sample_world org_sample_db))"
    by (simp add: org_refs_def refs_def org_sample_db_def)
  from organisation_is_founded_whole [OF disjI1 [OF run] refs, of "w'\<lparr>faults := \<lambda>_. None\<rparr>"]
  have "owner_ids (ov_id view) (store w') = {''u2''}" by (auto simp: newcomer_def)
  with run show ?thesis by blast
qed

end
