(* ===== verification/Api_Keys.thy ===== *)
theory Api_Keys
  imports Auth_Properties Agent_Sessions Listings
begin

text \<open>
  Personal API keys (\<open>packages/trpc/src/server/routers/api-keys.ts\<close>, \<open>generateApiKey\<close> of
  \<open>packages/crypto/src/shared/api-keys.ts\<close>) and the creation of agents (\<open>routers/agents.ts\<close>). An
  expiry is the instant its ISO string denotes, or none for a string that denotes no date.
\<close>

section \<open>Keys\<close>

record generated_key =
  gk_key :: string
  gk_hash :: string
  gk_prefix :: string

definition generateApiKey :: "webcrypto \<Rightarrow> string \<Rightarrow> generated_key server" where
  "generateApiKey wc prefix = andThen (randomBytes 32) (\<lambda>secret.
     let key = prefix @ toBase64 secret in
     succeed \<lparr>gk_key = key, gk_hash = hashApiKey wc key, gk_prefix = take 8 key\<rparr>)"

record user_api_key_view =
  kv_id :: string
  kv_organizationId :: string
  kv_userId :: string
  kv_name :: string
  kv_keyPrefix :: string
  kv_enabled :: bool
  kv_revokedAt :: "int option"
  kv_expiresAt :: "int option"
  kv_lastUsedAt :: "int option"
  kv_createdAt :: int

definition serializeUserApiKey :: "user_api_key_row \<Rightarrow> user_api_key_view" where
  "serializeUserApiKey k = \<lparr>kv_id = key_id k, kv_organizationId = key_org k, kv_userId = key_userId k,
     kv_name = key_name k, kv_keyPrefix = key_secretPrefix k, kv_enabled = key_enabled k,
     kv_revokedAt = key_revokedAt k, kv_expiresAt = key_expiresAt k, kv_lastUsedAt = key_lastUsedAt k,
     kv_createdAt = key_createdAt k\<rparr>"

text \<open>A personal key must not mint or revoke keys.\<close>

definition requireInteractiveSession :: "auth_method \<Rightarrow> unit server" where
  "requireInteractiveSession how =
     (if how = User_api_key then fail_with (forbidden ''FORBIDDEN'' []) else succeed ())"

record create_key_input =
  ck_name :: string
  ck_expiresAt :: "int option option"

definition insert_user_api_key :: "user_api_key_row \<Rightarrow> db \<Rightarrow> err + (user_api_key_row \<times> db)" where
  "insert_user_api_key k d =
     (if \<exists>j \<in> set (tbl_userApiKeys d). key_id j = key_id k then Inl (DbErr ''23505'')
      else Inr (k, d\<lparr>tbl_userApiKeys := tbl_userApiKeys d @ [k]\<rparr>))"

definition key_audit :: "session_ctx \<Rightarrow> audit_event \<Rightarrow> json_object \<Rightarrow> audit_entry" where
  "key_audit sx ev meta = (entry (sx_orgId sx) (Some (sx_userId sx)) ev Allowed)
     \<lparr>ae_ipAddress := sx_ip sx, ae_meta := Some meta\<rparr>"

text \<open>The clock is read only when there is a date to compare.\<close>

definition expiry_refused :: "int option option \<Rightarrow> bool server" where
  "expiry_refused e = (case e of None \<Rightarrow> succeed False | Some None \<Rightarrow> succeed True
     | Some (Some t) \<Rightarrow> andThen new_Date (\<lambda>now. succeed (t \<le> now)))"

definition new_key :: "session_ctx \<Rightarrow> create_key_input \<Rightarrow> string \<Rightarrow> generated_key \<Rightarrow> int \<Rightarrow> user_api_key_row" where
  "new_key sx inp i g now = \<lparr>key_id = i, key_userId = sx_userId sx, key_org = sx_orgId sx, key_name = ck_name inp,
     key_secretHash = gk_hash g, key_secretPrefix = gk_prefix g, key_enabled = True, key_revokedAt = None,
     key_expiresAt = (case ck_expiresAt inp of None \<Rightarrow> None | Some e \<Rightarrow> e), key_lastUsedAt = None, key_createdAt = now\<rparr>"

definition createUserApiKey ::
  "webcrypto \<Rightarrow> session_ctx \<Rightarrow> auth_method \<Rightarrow> create_key_input \<Rightarrow> (user_api_key_view \<times> string) server" where
  "createUserApiKey wc sx how inp =
     followed_by (requireInteractiveSession how)
     (andThen randomUUID (\<lambda>i.
      andThen (generateApiKey wc USER_API_KEY_PREFIX) (\<lambda>g.
      andThen (expiry_refused (ck_expiresAt inp)) (\<lambda>refused.
      if refused then fail_with (DomainErr BadRequestError ''BAD_REQUEST'' [])
      else andThen (\<lambda>w. statement (insert_user_api_key (new_key sx inp i g (pg_now w))) w) (\<lambda>inserted.
        followed_by (logSessionAudit (key_audit sx Ev_user_api_key_create
            [(''keyId'', JStr i), (''keyPrefix'', JStr (gk_prefix g))]))
          (succeed (serializeUserApiKey inserted, gk_key g)))))))"

text \<open>The newest first.\<close>

definition listUserApiKeys :: "session_ctx \<Rightarrow> (user_api_key_view list) server" where
  "listUserApiKeys sx = andThen (select (\<lambda>d. sort_key (\<lambda>k. - key_createdAt k)
       (filter (\<lambda>k. key_org k = sx_orgId sx \<and> key_userId k = sx_userId sx) (tbl_userApiKeys d)))) (\<lambda>rows.
     succeed (map serializeUserApiKey rows))"

definition revocable_key :: "session_ctx \<Rightarrow> string \<Rightarrow> user_api_key_row \<Rightarrow> bool" where
  "revocable_key sx keyId k = (key_id k = keyId \<and> key_org k = sx_orgId sx \<and> key_userId k = sx_userId sx \<and>
     key_revokedAt k = None)"

definition revoke_keys :: "session_ctx \<Rightarrow> string \<Rightarrow> int \<Rightarrow> db \<Rightarrow> bool \<times> db" where
  "revoke_keys sx keyId now d =
     (let (hit, rows) = update_hit (revocable_key sx keyId)
            (\<lambda>k. k\<lparr>key_revokedAt := Some now, key_enabled := False\<rparr>) (tbl_userApiKeys d)
      in (hit, d\<lparr>tbl_userApiKeys := rows\<rparr>))"

definition revokeUserApiKey :: "session_ctx \<Rightarrow> auth_method \<Rightarrow> string \<Rightarrow> unit server" where
  "revokeUserApiKey sx how keyId =
     followed_by (requireInteractiveSession how)
     (andThen new_Date (\<lambda>now.
      andThen (statement (\<lambda>d. Inr (revoke_keys sx keyId now d))) (\<lambda>updated.
      if \<not> updated then auditDeniedSession
          ((denied (sx_orgId sx) (Some (sx_userId sx)) Ev_user_api_key_revoke ''not_found'')
             \<lparr>df_ipAddress := sx_ip sx, df_meta := Some [(''keyId'', JStr keyId)]\<rparr>) (notFound ''NOT_FOUND'')
      else logSessionAudit (key_audit sx Ev_user_api_key_revoke [(''keyId'', JStr keyId)]))))"

interpretation user_key: single_use "\<lambda>(sx, i). revocable_key sx i" "\<lambda>now k. k\<lparr>key_revokedAt := Some now, key_enabled := False\<rparr>"
  by unfold_locales (simp add: revocable_key_def split: prod.split)

section \<open>The life of a key\<close>

lemma requireInteractiveSession_Inr:
  "requireInteractiveSession how w = (Inr u, w') \<longleftrightarrow> how \<noteq> User_api_key \<and> w' = w"
  by (auto simp: requireInteractiveSession_def fail_with_def succeed_def)

text \<open>A key cannot manage keys.\<close>

lemma key_manages_no_key:
  "createUserApiKey wc sx User_api_key inp w = (Inl (forbidden ''FORBIDDEN'' []), w)"
  "revokeUserApiKey sx User_api_key i w = (Inl (forbidden ''FORBIDDEN'' []), w)"
  by (simp_all add: createUserApiKey_def revokeUserApiKey_def requireInteractiveSession_def followed_by_def andThen_def
      fail_with_def)

lemma expiry_refused_Inr:
  "expiry_refused e w = (Inr False, w') \<Longrightarrow> env_kept w w' \<and> store w' = store w \<and> e \<noteq> Some None"
  by (auto simp: expiry_refused_def andThen_Inr succeed_def env_kept_def split: option.splits)

lemma createUserApiKey_Inr:
  assumes "createUserApiKey wc sx how inp w = (Inr (view, key), w')"
  obtains i g now where "how \<noteq> User_api_key" "view = serializeUserApiKey (new_key sx inp i g now)" "key = gk_key g"
    "gk_hash g = hashApiKey wc key" "gk_prefix g = take 8 key" "startsWith key USER_API_KEY_PREFIX"
    "tbl_userApiKeys (store w') = tbl_userApiKeys (store w) @ [new_key sx inp i g now]"
proof -
  from assms obtain w1 g w2 w3 w4 where how: "how \<noteq> User_api_key"
    and g: "generateApiKey wc USER_API_KEY_PREFIX w1 = (Inr g, w2)" and w1: "store w1 = store w"
    and e: "expiry_refused (ck_expiresAt inp) w2 = (Inr False, w3)"
    and ins: "statement (insert_user_api_key (new_key sx inp (uuids w (draws w)) g (pg_now w3))) w3 =
        (Inr (new_key sx inp (uuids w (draws w)) g (pg_now w3)), w4)"
    and log: "snd (logSessionAudit (key_audit sx Ev_user_api_key_create [(''keyId'', JStr (uuids w (draws w))),
        (''keyPrefix'', JStr (gk_prefix g))]) w4) = w'"
    and out: "view = serializeUserApiKey (new_key sx inp (uuids w (draws w)) g (pg_now w3))" "key = gk_key g"
    by (auto simp: createUserApiKey_def followed_by_def [of "requireInteractiveSession _"] andThen_Inr
        requireInteractiveSession_Inr session_log.log_then fail_with_def succeed_def statement_ok insert_user_api_key_def
        split: if_splits)
  from g have gk: "gk_hash g = hashApiKey wc (gk_key g)" "gk_prefix g = take 8 (gk_key g)" "store w2 = store w1"
    "startsWith (gk_key g) USER_API_KEY_PREFIX"
    by (auto simp: generateApiKey_def andThen_Inr succeed_def Let_def startsWith_def)
  from audits_where_frame [OF session_log.log_where [of "\<lambda>_. True"]] log
  have "tbl_userApiKeys (store w') = tbl_userApiKeys (store w4)" by auto
  moreover from ins expiry_refused_Inr [OF e] gk(3) w1
  have "tbl_userApiKeys (store w4) = tbl_userApiKeys (store w) @ [new_key sx inp (uuids w (draws w)) g (pg_now w3)]"
    by (auto simp: statement_ok insert_user_api_key_def split: if_splits)
  ultimately show ?thesis using how gk out by (intro that [of "uuids w (draws w)" g "pg_now w3"]) simp_all
qed

lemma check_keys_hit:
  assumes "k \<in> set ks" "key_secretHash k = hashApiKey wc token"
    and "\<And>j. j \<in> set ks \<Longrightarrow> key_secretHash j = hashApiKey wc token \<Longrightarrow> j = k"
    and "case key_expiresAt k of None \<Rightarrow> True | Some t \<Rightarrow> clock w (ticks w) < t"
  shows "fst (check_keys wc rq token ks w) = Inr (Some \<lparr>sid_userId = key_userId k, sid_orgId = key_org k, sid_method = User_api_key\<rparr>)"
  using assms(1,3)
proof (induction ks)
  case (Cons j ks)
  show ?case
  proof (cases "key_secretHash j = hashApiKey wc token")
    case True
    with Cons.prems(2) [of j] have "j = k" by simp
    with True assms(4) show ?thesis
      by (auto simp: verifyApiKey_eq andThen_def key_expired_def succeed_def touchUserApiKey_def touch_then
          split: option.splits)
  next
    case False
    with assms(2) Cons.prems(1) have "k \<in> set ks" by auto
    with False Cons show ?thesis by (simp add: verifyApiKey_eq)
  qed
qed simp

text \<open>The key a user is handed authenticates as that user in that organisation, until it expires
  and as long as the table of keys stays as the creation left it: hashes of keys are unique, and at
  most ten active keys share the prefix.\<close>

theorem created_key_identifies_its_owner:
  assumes "createUserApiKey wc sx how inp w = (Inr (view, key), w')"
    and "tbl_userApiKeys (store v) = tbl_userApiKeys (store w')" "faults v (stmts v) = None"
    and "inj_on key_secretHash (set (tbl_userApiKeys (store v)))"
    and "length (filter (\<lambda>k. key_secretPrefix k = take 8 key \<and> key_enabled k \<and> key_revokedAt k = None)
          (tbl_userApiKeys (store v))) \<le> 10"
    and "bearer rq = Some key" "case kv_expiresAt view of None \<Rightarrow> True | Some t \<Rightarrow> clock v (ticks v) < t"
  shows "fst (resolveBearerSessionIdentity ba wc rq v) =
    Inr (Some \<lparr>sid_userId = sx_userId sx, sid_orgId = sx_orgId sx, sid_method = User_api_key\<rparr>)"
proof -
  obtain i g now where view: "view = serializeUserApiKey (new_key sx inp i g now)" and key: "key = gk_key g"
    "gk_hash g = hashApiKey wc key" "gk_prefix g = take 8 key" "startsWith key USER_API_KEY_PREFIX"
    and tbl: "tbl_userApiKeys (store w') = tbl_userApiKeys (store w) @ [new_key sx inp i g now]"
    using assms(1) by (rule createUserApiKey_Inr)
  let ?k = "new_key sx inp i g now"
  have k: "?k \<in> set (key_candidates key (store v))"
    using assms(2,5) key tbl by (simp add: key_candidates_def new_key_def)
  have h: "key_secretHash ?k = hashApiKey wc key" using key by (simp add: new_key_def)
  have "j = ?k" if "j \<in> set (key_candidates key (store v))" "key_secretHash j = hashApiKey wc key" for j
  proof (rule inj_onD [OF assms(4)])
    show "key_secretHash j = key_secretHash ?k" using that h by simp
    show "j \<in> set (tbl_userApiKeys (store v))" using that(1) by (auto simp: key_candidates_def dest: in_set_takeD)
    show "?k \<in> set (tbl_userApiKeys (store v))" using assms(2) tbl by simp
  qed
  moreover have "case key_expiresAt ?k of None \<Rightarrow> True | Some t \<Rightarrow> clock v (ticks v) < t"
    using assms(7) by (simp add: view serializeUserApiKey_def)
  ultimately have "fst (check_keys wc rq key (key_candidates key (store v)) (v\<lparr>stmts := Suc (stmts v)\<rparr>)) =
      Inr (Some \<lparr>sid_userId = key_userId ?k, sid_orgId = key_org ?k, sid_method = User_api_key\<rparr>)"
    by (intro check_keys_hit [OF k h]) (auto split: option.splits)
  with assms(3,6) key(4) show ?thesis
    by (simp add: resolveBearerSessionIdentity_def resolveUserApiKeyIdentity_def andThen_def select_def statement_def new_key_def)
qed

text \<open>After a user has revoked a key, and while the table of keys stays as the revocation left it,
  no request that presents the key is identified by it. Ids and hashes of keys are unique.\<close>

theorem revoked_key_identifies_no_one:
  assumes "revokeUserApiKey sx how keyId w = (Inr (), w')"
    and "k \<in> set (tbl_userApiKeys (store w))" "key_id k = keyId" "key_secretHash k = hashApiKey wc token"
    and "inj_on key_id (set (tbl_userApiKeys (store w)))" "inj_on key_secretHash (set (tbl_userApiKeys (store w)))"
    and "tbl_userApiKeys (store v) = tbl_userApiKeys (store w')"
    and "bearer rq = Some token" "startsWith token USER_API_KEY_PREFIX"
  shows "fst (resolveBearerSessionIdentity ba wc rq v) \<noteq> Inr (Some i)"
proof
  assume "fst (resolveBearerSessionIdentity ba wc rq v) = Inr (Some i)"
  with assms(8,9) obtain v' where r: "resolveUserApiKeyIdentity wc rq token v = (Inr (Some i), v')"
    by (cases "resolveUserApiKeyIdentity wc rq token v") (auto simp: resolveBearerSessionIdentity_def)
  from r have c: "check_keys wc rq token (key_candidates token (store v)) (v\<lparr>stmts := Suc (stmts v)\<rparr>) = (Inr (Some i), v')"
    by (auto simp: resolveUserApiKeyIdentity_def andThen_Inr select_ok)
  from check_keys_Some [OF c] obtain j where j: "j \<in> set (key_candidates token (store v))" "key_secretHash j = hashApiKey wc token"
    by auto
  then have j': "j \<in> set (tbl_userApiKeys (store v))" "key_enabled j"
    by (auto simp: key_candidates_def dest: in_set_takeD)
  let ?now = "clock w (ticks w)" and ?dead = "\<lambda>now k. k\<lparr>key_revokedAt := Some now, key_enabled := False\<rparr>"
  from assms(1) obtain w1 where
    log: "logSessionAudit (key_audit sx Ev_user_api_key_revoke [(''keyId'', JStr keyId)]) w1 = (Inr (), w')"
    and u: "fst (revoke_keys sx keyId ?now (store w))" and w1: "store w1 = snd (revoke_keys sx keyId ?now (store w))"
    by (auto simp: revokeUserApiKey_def followed_by_def [of "requireInteractiveSession _"] andThen_Inr
        requireInteractiveSession_Inr statement_ok auditDeniedSession_fails split: if_splits)
  from audits_where_frame [OF session_log.log_where [of "\<lambda>_. True"]] log
  have "tbl_userApiKeys (store w') = tbl_userApiKeys (store w1)" by (metis snd_conv)
  with w1 have tbl: "tbl_userApiKeys (store v) = map (\<lambda>k. if revocable_key sx keyId k then ?dead ?now k else k) (tbl_userApiKeys (store w))"
    by (simp add: assms(7) revoke_keys_def update_hit_def)
  from u obtain x where "x \<in> set (tbl_userApiKeys (store w))" "revocable_key sx keyId x"
    by (auto simp: revoke_keys_def update_hit_def)
  with inj_onD [OF assms(5), of x k] assms(2,3) have rk: "revocable_key sx keyId k" by (simp add: revocable_key_def)
  from j'(1) tbl obtain j0 where j0: "j0 \<in> set (tbl_userApiKeys (store w))"
    "j = (if revocable_key sx keyId j0 then ?dead ?now j0 else j0)" by auto
  with j(2) have "key_secretHash j0 = key_secretHash k" using assms(4) by (auto split: if_splits)
  with inj_onD [OF assms(6)] j0(1) assms(2) have "j0 = k" by blast
  with j0(2) rk j'(2) show False by simp
qed

section \<open>Creating agents\<close>

definition MAX_AGENTS_PER_ORG :: nat where
  "MAX_AGENTS_PER_ORG = 500"

record create_agent_input =
  ca_kind :: agent_kind
  ca_name :: string
  ca_authMethod :: "string option"
  ca_publicKey :: "string option"
  ca_issueBootstrapToken :: bool
  ca_metadata :: "json_object option"

record bootstrap =
  bo_token :: string
  bo_hash :: string
  bo_expiresAt :: int

text \<open>What the agent will prove itself with: a public key, or a bootstrap token to enroll one later.\<close>

definition agent_credential :: "auth_runtime \<Rightarrow> create_agent_input \<Rightarrow> (string option \<times> bootstrap option) server" where
  "agent_credential rt inp =
     (if truthy (ca_publicKey inp) then
        (case normalizeEd25519PublicKeyJwk rt (the (ca_publicKey inp)) of
           Inl _ \<Rightarrow> fail_with (DomainErr BadRequestError ''BAD_REQUEST'' [])
         | Inr k \<Rightarrow> succeed (Some k, None))
      else if ca_issueBootstrapToken inp then
        andThen (generateOpaqueToken AGENT_BOOTSTRAP_PREFIX) (\<lambda>token.
        andThen new_Date (\<lambda>now.
          succeed (None, Some \<lparr>bo_token = token, bo_hash = hashApiKey (ar_crypto rt) token,
            bo_expiresAt = now + AGENT_BOOTSTRAP_TTL_MS\<rparr>)))
      else fail_with (DomainErr BadRequestError ''PUBLIC_KEY_REQUIRED'' []))"

definition insert_agent :: "agent_row \<Rightarrow> db \<Rightarrow> err + (unit \<times> db)" where
  "insert_agent r d =
     (if \<exists>a \<in> set (tbl_agents d). ag_id a = ag_id r then Inl (DbErr ''23505'')
      else Inr ((), d\<lparr>tbl_agents := tbl_agents d @ [r]\<rparr>))"

definition new_agent :: "session_ctx \<Rightarrow> create_agent_input \<Rightarrow> string \<Rightarrow> string option \<Rightarrow> int \<Rightarrow> agent_row" where
  "new_agent sx inp i publicKey now =
     \<lparr>ag_id = i, ag_org = sx_orgId sx, ag_createdBy = Some (sx_userId sx), ag_name = ca_name inp, ag_description = None,
      ag_kind = ca_kind inp, ag_locality = agentLocalityForKind (ca_kind inp),
      ag_authMethod = orElse (ca_authMethod inp) ''public_key_session'', ag_publicKey = publicKey,
      ag_enabled = True, ag_revokedAt = None, ag_lastUsedAt = None, ag_metadata = orElse (ca_metadata inp) [],
      ag_createdAt = now\<rparr>"

definition insert_bootstrap :: "session_ctx \<Rightarrow> string \<Rightarrow> bootstrap option \<Rightarrow> unit server" where
  "insert_bootstrap sx agentId b =
     (case b of None \<Rightarrow> succeed ()
      | Some t \<Rightarrow> andThen randomUUID (\<lambda>newId. statement (insert_token \<lparr>et_id = newId, et_agentId = agentId,
            et_userId = Some (sx_userId sx), et_createdBy = sx_userId sx, et_tokenHash = bo_hash t,
            et_expiresAt = bo_expiresAt t, et_usedAt = None\<rparr>)))"

definition org_agents :: "string \<Rightarrow> db \<Rightarrow> agent_row list" where
  "org_agents orgId d = findMany ag_org orgId (\<lambda>_. True) (tbl_agents d)"

text \<open>The row carries the database's time, the answer that of the server.\<close>

definition createAgent ::
  "auth_runtime \<Rightarrow> session_ctx \<Rightarrow> create_agent_input \<Rightarrow> (agent_view \<times> bootstrap option) server" where
  "createAgent rt sx inp =
     andThen randomUUID (\<lambda>i.
     andThen (agent_credential rt inp) (\<lambda>(publicKey, token).
     andThen (select (\<lambda>d. length (org_agents (sx_orgId sx) d))) (\<lambda>count.
     if count \<ge> MAX_AGENTS_PER_ORG then fail_with (DomainErr ConflictError ''CONFLICT''
         [(''currentCount'', JNum (int count)), (''limit'', JNum (int MAX_AGENTS_PER_ORG))])
     else followed_by (\<lambda>w. statement (insert_agent (new_agent sx inp i publicKey (pg_now w))) w)
       (followed_by (insert_bootstrap sx i token)
       (followed_by (logSessionAudit ((entry (sx_orgId sx) (Some (sx_userId sx)) Ev_agent_create Allowed)
           \<lparr>ae_agentId := Some i, ae_ipAddress := sx_ip sx\<rparr>))
       (andThen new_Date (\<lambda>now. succeed (serializeAgent (new_agent sx inp i publicKey now), token))))))))"

section \<open>The quota\<close>

lemma agent_credential_same: "keeps same_store (agent_credential rt inp)"
  unfolding agent_credential_def generateOpaqueToken_def
  by (auto intro!: keeps_same split: sum.split)

lemma agent_credential_Inr:
  "agent_credential rt inp w = (Inr (k, b), w') \<Longrightarrow> store w' = store w \<and>
    ((\<exists>j. k = Some j \<and> b = None) \<or> (\<exists>t. k = None \<and> b = Some t \<and> bo_hash t = hashApiKey (ar_crypto rt) (bo_token t)))"
  by (auto simp: agent_credential_def generateOpaqueToken_def andThen_Inr succeed_def fail_with_def Let_def
      split: if_splits sum.splits)

text \<open>The row of the token that was issued with an agent.\<close>

definition bootstrap_row :: "session_ctx \<Rightarrow> string \<Rightarrow> string \<Rightarrow> bootstrap \<Rightarrow> enrollment_token_row" where
  "bootstrap_row sx newId agentId t = \<lparr>et_id = newId, et_agentId = agentId, et_userId = Some (sx_userId sx),
     et_createdBy = sx_userId sx, et_tokenHash = bo_hash t, et_expiresAt = bo_expiresAt t, et_usedAt = None\<rparr>"

lemma insert_bootstrap_Inr:
  "insert_bootstrap sx i b w = (Inr (), w') \<Longrightarrow> \<exists>newId.
    store w' = store w\<lparr>tbl_enrollmentTokens := tbl_enrollmentTokens (store w) @
      (case b of None \<Rightarrow> [] | Some t \<Rightarrow> [bootstrap_row sx newId i t])\<rparr>"
  by (auto simp: insert_bootstrap_def andThen_Inr succeed_def statement_ok insert_token_def bootstrap_row_def
      split: option.splits if_splits)

lemma createAgent_Inr:
  assumes "createAgent rt sx inp w = (Inr (view, token), w')"
  obtains key i now t newId where
    "key \<noteq> None \<and> token = None \<or>
     key = None \<and> (\<exists>b. token = Some b \<and> bo_hash b = hashApiKey (ar_crypto rt) (bo_token b))"
    "length (org_agents (sx_orgId sx) (store w)) < MAX_AGENTS_PER_ORG"
    "tbl_agents (store w') = tbl_agents (store w) @ [new_agent sx inp i key now]"
    "view = serializeAgent (new_agent sx inp i key t)"
    "tbl_enrollmentTokens (store w') = tbl_enrollmentTokens (store w) @
       (case token of None \<Rightarrow> [] | Some b \<Rightarrow> [bootstrap_row sx newId i b])"
proof -
  let ?i = "uuids w (draws w)"
  from assms obtain w2 w3 w4 w5 w6 key where
    cred: "agent_credential rt inp (w\<lparr>draws := Suc (draws w)\<rparr>) = (Inr (key, token), w2)"
    and count: "select (\<lambda>d. length (org_agents (sx_orgId sx) d)) w2 = (Inr (length (org_agents (sx_orgId sx) (store w2))), w3)"
    and max: "length (org_agents (sx_orgId sx) (store w2)) < MAX_AGENTS_PER_ORG"
    and ins: "statement (insert_agent (new_agent sx inp ?i key (pg_now w3))) w3 = (Inr (), w4)"
    and boot: "insert_bootstrap sx ?i token w4 = (Inr (), w5)"
    and log: "logSessionAudit ((entry (sx_orgId sx) (Some (sx_userId sx)) Ev_agent_create Allowed)
           \<lparr>ae_agentId := Some ?i, ae_ipAddress := sx_ip sx\<rparr>) w5 = (Inr (), w6)"
    and w': "store w' = store w6" and view: "view = serializeAgent (new_agent sx inp ?i key (clock w6 (ticks w6)))"
    by (auto simp: createAgent_def followed_by_def andThen_Inr fail_with_def succeed_def
        select_ok split: if_splits prod.splits)
  from audits_where_frame [OF session_log.log_where [of "\<lambda>_. True"]] log
  have frame: "tbl_agents (store w6) = tbl_agents (store w5)" "tbl_enrollmentTokens (store w6) = tbl_enrollmentTokens (store w5)"
    by (metis snd_conv)+
  from insert_bootstrap_Inr [OF boot] obtain newId where
    s5: "store w5 = store w4\<lparr>tbl_enrollmentTokens := tbl_enrollmentTokens (store w4) @
      (case token of None \<Rightarrow> [] | Some t \<Rightarrow> [bootstrap_row sx newId ?i t])\<rparr>" by blast
  from ins count have s4: "store w4 = store w2\<lparr>tbl_agents := tbl_agents (store w2) @ [new_agent sx inp ?i key (pg_now w3)]\<rparr>"
    by (auto simp: statement_ok insert_agent_def select_ok split: if_splits)
  from agent_credential_Inr [OF cred] have s2: "store w2 = store w" and
    k: "key \<noteq> None \<and> token = None \<or>
     key = None \<and> (\<exists>b. token = Some b \<and> bo_hash b = hashApiKey (ar_crypto rt) (bo_token b))" by auto
  show ?thesis by (rule that [OF k max [unfolded s2] _ view]) (simp_all add: s2 w' frame s5 s4)
qed

text \<open>A request to create an agent that succeeds leaves its organisation within the limit of agents.
  It adds exactly one agent, enabled, of the caller and in the caller's organisation, with the locality
  of its kind; the agent holds a public key exactly when no bootstrap token was issued for it, and a
  token that was issued is stored by its hash alone, for that agent.\<close>

theorem created_agent_is_within_quota:
  assumes "createAgent rt sx inp w = (Inr (view, token), w')"
  shows "\<exists>a. tbl_agents (store w') = tbl_agents (store w) @ [a] \<and>
    length (org_agents (sx_orgId sx) (store w')) \<le> MAX_AGENTS_PER_ORG \<and>
    av_id view = ag_id a \<and> ag_org a = sx_orgId sx \<and> ag_createdBy a = Some (sx_userId sx) \<and> ag_enabled a \<and>
    ag_locality a = agentLocalityForKind (ca_kind inp) \<and> (ag_publicKey a = None \<longleftrightarrow> token \<noteq> None) \<and>
    map (\<lambda>t. (et_agentId t, et_tokenHash t)) (tbl_enrollmentTokens (store w')) =
      map (\<lambda>t. (et_agentId t, et_tokenHash t)) (tbl_enrollmentTokens (store w)) @
      (case token of None \<Rightarrow> [] | Some b \<Rightarrow> [(ag_id a, hashApiKey (ar_crypto rt) (bo_token b))])"
  using assms
proof (rule createAgent_Inr, goal_cases)
  case (1 key i now t newId)
  then show ?case
    by (intro exI [of _ "new_agent sx inp i key now"])
      (auto simp: org_agents_def findMany_def serializeAgent_def new_agent_def bootstrap_row_def split: option.splits)
qed

section \<open>Concrete runs\<close>

definition sample_key :: string where
  "sample_key = USER_API_KEY_PREFIX @ toBase64 (replicate 32 7)"

definition sample_key_row :: user_api_key_row where
  "sample_key_row = new_key sample_session \<lparr>ck_name = ''ci'', ck_expiresAt = None\<rparr> ''u''
     \<lparr>gk_key = sample_key, gk_hash = hashApiKey toy_webcrypto sample_key, gk_prefix = take 8 sample_key\<rparr> 1000"

definition key_request :: request_ctx where
  "key_request = \<lparr>rq_authorization = Some (''Bearer '' @ sample_key), rq_orgHeader = None, rq_ip = None\<rparr>"

lemma key_request_bearer: "bearer key_request = Some sample_key"
  by (simp add: bearer_def getBearerToken_def key_request_def sample_key_def USER_API_KEY_PREFIX_def)

lemma interactive_then: "followed_by (requireInteractiveSession Browser_session) k = k"
  by (simp add: fun_eq_iff followed_by_def andThen_def requireInteractiveSession_def succeed_def)

lemma hd_sample_keys:
  "key_secretHash sample_key_row = hashApiKey toy_webcrypto sample_key" "key_secretPrefix sample_key_row = take 8 sample_key"
  by (simp_all add: sample_key_row_def new_key_def)

lemma sample_key_starts: "startsWith sample_key USER_API_KEY_PREFIX"
  by (simp add: startsWith_def sample_key_def del: take_append) simp

theorem created_key_identifies_its_owner_witness:
  "\<exists>view w'. createUserApiKey toy_webcrypto sample_session Browser_session \<lparr>ck_name = ''ci'', ck_expiresAt = None\<rparr>
     (sample_world sample_db) = (Inr (view, sample_key), w') \<and>
   fst (resolveBearerSessionIdentity sample_better_auth toy_webcrypto key_request (w'\<lparr>faults := \<lambda>_. None\<rparr>)) =
     Inr (Some \<lparr>sid_userId = ''u1'', sid_orgId = ''o1'', sid_method = User_api_key\<rparr>)"
proof -
  let ?run = "createUserApiKey toy_webcrypto sample_session Browser_session \<lparr>ck_name = ''ci'', ck_expiresAt = None\<rparr>
     (sample_world sample_db)"
  have f: "fst ?run = Inr (serializeUserApiKey sample_key_row, sample_key)"
    by (simp add: createUserApiKey_def interactive_then andThen_def session_log.log_then)
       (simp add: succeed_def generateApiKey_def expiry_refused_def statement_def insert_user_api_key_def Let_def
        andThen_def sample_key_row_def sample_key_def session_log.log_then sample_db_def)
  then obtain w' where w': "?run = (Inr (serializeUserApiKey sample_key_row, sample_key), w')"
    by (metis prod.collapse)
  obtain i g now where tbl: "tbl_userApiKeys (store w') = [new_key sample_session \<lparr>ck_name = ''ci'', ck_expiresAt = None\<rparr> i g now]"
    and g: "take 8 sample_key = gk_prefix g"
    using w' by (rule createUserApiKey_Inr) (auto simp: sample_db_def)
  have "fst (resolveBearerSessionIdentity sample_better_auth toy_webcrypto key_request (w'\<lparr>faults := \<lambda>_. None\<rparr>)) =
     Inr (Some \<lparr>sid_userId = sx_userId sample_session, sid_orgId = sx_orgId sample_session, sid_method = User_api_key\<rparr>)"
    by (rule created_key_identifies_its_owner [OF w'])
      (simp_all add: tbl key_request_bearer serializeUserApiKey_def sample_key_row_def new_key_def)
  then show ?thesis using w' by (auto simp: sample_session_def)
qed

theorem revoked_key_identifies_no_one_witness:
  "\<exists>w'. revokeUserApiKey sample_session Browser_session ''u'' (sample_world (sample_db\<lparr>tbl_userApiKeys := [sample_key_row]\<rparr>)) =
     (Inr (), w') \<and>
   fst (resolveBearerSessionIdentity sample_better_auth toy_webcrypto key_request w') \<noteq>
     Inr (Some \<lparr>sid_userId = ''u1'', sid_orgId = ''o1'', sid_method = User_api_key\<rparr>)"
proof -
  let ?w = "sample_world (sample_db\<lparr>tbl_userApiKeys := [sample_key_row]\<rparr>)"
  let ?run = "revokeUserApiKey sample_session Browser_session ''u'' ?w"
  have "fst ?run = Inr ()"
    by (simp add: revokeUserApiKey_def interactive_then andThen_def new_Date_def statement_def revoke_keys_def update_hit_def
        revocable_key_def sample_key_row_def new_key_def sample_session_def session_log.never_fails)
  then obtain w' where w': "?run = (Inr (), w')" by (metis prod.collapse)
  have "fst (resolveBearerSessionIdentity sample_better_auth toy_webcrypto key_request w') \<noteq>
     Inr (Some \<lparr>sid_userId = ''u1'', sid_orgId = ''o1'', sid_method = User_api_key\<rparr>)"
    by (rule revoked_key_identifies_no_one [OF w', where k = sample_key_row and token = sample_key])
      (simp_all add: key_request_bearer sample_key_starts, simp_all add: sample_key_row_def new_key_def)
  with w' show ?thesis by blast
qed

definition sample_runtime :: auth_runtime where
  "sample_runtime = \<lparr>ar_crypto = toy_webcrypto, ar_JSON_parse = (\<lambda>_. None), ar_subtle_verify = (\<lambda>_ _ _. None)\<rparr>"

definition sample_bot :: create_agent_input where
  "sample_bot = \<lparr>ca_kind = Remote_kind, ca_name = ''bot'', ca_authMethod = None, ca_publicKey = None,
     ca_issueBootstrapToken = True, ca_metadata = None\<rparr>"

theorem created_agent_is_within_quota_witness:
  "\<exists>view token w'. createAgent sample_runtime sample_session sample_bot (sample_world sample_db) = (Inr (view, Some token), w') \<and>
     length (org_agents ''o1'' (store w')) \<le> MAX_AGENTS_PER_ORG \<and>
     map (\<lambda>t. (et_agentId t, et_tokenHash t)) (tbl_enrollmentTokens (store w')) =
       [(''u'', hashApiKey toy_webcrypto (bo_token token))]"
proof -
  let ?run = "createAgent sample_runtime sample_session sample_bot (sample_world sample_db)"
  have log: "followed_by (logSessionAudit e) k = (\<lambda>w. k (snd (logSessionAudit e w)))" for e and k :: "'a server"
    by (rule ext) (rule session_log.log_then)
  have "\<exists>view token. fst ?run = Inr (view, Some token) \<and> av_id view = ''u''"
    unfolding createAgent_def log
    by (simp add: agent_credential_def sample_bot_def generateOpaqueToken_def Let_def succeed_def serializeAgent_def
        andThen_def select_def statement_def org_agents_def findMany_def sample_rows MAX_AGENTS_PER_ORG_def
        followed_by_def insert_agent_def insert_bootstrap_def insert_token_def new_agent_def)
  then obtain view token w' where w': "?run = (Inr (view, Some token), w')" and i: "av_id view = ''u''" by (metis prod.collapse)
  have sel: "sx_orgId sample_session = ''o1''" "ar_crypto sample_runtime = toy_webcrypto" "tbl_enrollmentTokens sample_db = []"
    by (simp_all add: sample_session_def sample_runtime_def sample_db_def)
  from created_agent_is_within_quota [OF w'] i
  have "length (org_agents ''o1'' (store w')) \<le> MAX_AGENTS_PER_ORG"
    "map (\<lambda>t. (et_agentId t, et_tokenHash t)) (tbl_enrollmentTokens (store w')) = [(''u'', hashApiKey toy_webcrypto (bo_token token))]"
    by (auto simp: sel)
  with w' show ?thesis by (intro exI conjI)
qed

end
