(* ===== verification/Registration.thy ===== *)
theory Registration
  imports Organizations Api_Keys
begin

text \<open>
  Agent registration without an account (\<open>packages/trpc/src/server/routers/agent-registration.ts\<close>): an agent
  opens an unclaimed personal account and is handed a personal key and a claim token; a human claims the
  account with a six-digit code sent by mail (\<open>packages/auth/src/mailer.ts\<close>). The mail binding of the platform is a
  parameter. The code is drawn by rejection sampling (\<open>generateNumericOtp\<close>), a loop that ends only if the
  source of randomness supplies enough small bytes: a request may not return, and is then \<open>None\<close>.
\<close>

section \<open>One-time codes\<close>

definition digit_char :: "nat \<Rightarrow> char" where
  "digit_char n = char_of (48 + n)"

text \<open>One round: a byte below 250 contributes its last digit, any other byte is thrown away. A buffer without
  bytes counts as zero.\<close>

definition otp_byte :: "byte \<Rightarrow> string" where
  "otp_byte b = (if unat b < 250 then [digit_char (unat b mod 10)] else [])"

definition first_byte :: "bytes \<Rightarrow> byte" where
  "first_byte buf = (case buf of [] \<Rightarrow> 0 | b # _ \<Rightarrow> b)"

partial_function (option) otp_loop :: "nat \<Rightarrow> string \<Rightarrow> world \<Rightarrow> (string \<times> world) option" where
  "otp_loop digits out w =
     (if length out < digits
      then otp_loop digits (out @ otp_byte (first_byte (randoms w (draws w) 1))) (w\<lparr>draws := Suc (draws w)\<rparr>)
      else Some (out, w))"

definition generateNumericOtp :: "nat \<Rightarrow> world \<Rightarrow> (string \<times> world) option" where
  "generateNumericOtp digits = otp_loop digits []"

section \<open>Constants, mail and rows\<close>

definition AGENT_CLAIM_PREFIX :: string where
  "AGENT_CLAIM_PREFIX = ''clm_''"

definition AGENT_CLAIM_TTL_MS :: int where
  "AGENT_CLAIM_TTL_MS = 24 * 60 * 60 * 1000"

definition AGENT_CLAIM_OTP_TTL_MS :: int where
  "AGENT_CLAIM_OTP_TTL_MS = 10 * 60 * 1000"

definition AGENT_CLAIM_OTP_MAX_ATTEMPTS :: int where
  "AGENT_CLAIM_OTP_MAX_ATTEMPTS = 5"

definition UNCLAIMED_ACCOUNT_EMAIL_DOMAIN :: string where
  "UNCLAIMED_ACCOUNT_EMAIL_DOMAIN = ''unclaimed.abadge.invalid''"

definition AGENT_PRECLAIM_SCOPES :: "string list" where
  "AGENT_PRECLAIM_SCOPES = [''abadge:account.read'']"

definition AGENT_POSTCLAIM_SCOPES :: "string list" where
  "AGENT_POSTCLAIM_SCOPES = [''abadge:account.read'', ''abadge:account.manage'']"

text \<open>What is handed to the binding, and the mailer's and the router's environment. The binding rejects with a
  message.\<close>

record outgoing =
  og_fromName :: string
  og_fromEmail :: string
  og_to :: string
  og_subject :: string
  og_text :: string
  og_html :: "string option"

record mail_env =
  me_send :: "outgoing \<Rightarrow> world \<Rightarrow> (string + unit) \<times> world"
  me_from :: "string option"
  me_fromName :: "string option"
  me_apiUrl :: "string option"
  me_appUrl :: "string option"

record mail =
  ml_to :: string
  ml_from :: "string option"
  ml_fromName :: "string option"
  ml_subject :: string
  ml_text :: string
  ml_html :: "string option"

definition DEFAULT_FROM_EMAIL :: string where
  "DEFAULT_FROM_EMAIL = ''no-reply@notifications.abadge.io''"

definition DEFAULT_FROM_NAME :: string where
  "DEFAULT_FROM_NAME = ''abadge''"

definition sendEmail :: "mail_env \<Rightarrow> mail \<Rightarrow> unit server" where
  "sendEmail env m = (\<lambda>w.
     case me_send env \<lparr>og_fromName = orElse (ml_fromName m) (orElse (me_fromName env) DEFAULT_FROM_NAME),
         og_fromEmail = orElse (ml_from m) (orElse (me_from env) DEFAULT_FROM_EMAIL),
         og_to = ml_to m, og_subject = ml_subject m, og_text = ml_text m, og_html = ml_html m\<rparr> w of
       (Inl message, w') \<Rightarrow> (Inl (PlainErr (''Cloudflare Email Send failed: '' @ message)), w')
     | (Inr u, w') \<Rightarrow> (Inr u, w'))"

definition plain_mail :: "string \<Rightarrow> string \<Rightarrow> string \<Rightarrow> mail" where
  "plain_mail addr subject body = \<lparr>ml_to = addr, ml_from = None, ml_fromName = None, ml_subject = subject, ml_text = body, ml_html = None\<rparr>"

definition apiBase :: "string option \<Rightarrow> string" where
  "apiBase raw = (let s = orElse raw [] in if s \<noteq> [] \<and> last s = CHR ''/'' then butlast s else s)"

definition insert_user :: "user_row \<Rightarrow> db \<Rightarrow> err + (unit \<times> db)" where
  "insert_user u d =
     (if \<exists>v \<in> set (tbl_users d). usr_id v = usr_id u \<or> usr_email v = usr_email u then Inl (DbErr ''23505'')
      else Inr ((), d\<lparr>tbl_users := tbl_users d @ [u]\<rparr>))"

definition insert_claim :: "account_claim_row \<Rightarrow> db \<Rightarrow> err + (unit \<times> db)" where
  "insert_claim c d =
     (if \<exists>b \<in> set (tbl_accountClaims d). clm_id b = clm_id c \<or> clm_claimTokenHash b = clm_claimTokenHash c
        then Inl (DbErr ''23505'')
      else if clm_org c \<notin> set (map org_id (tbl_organizations d)) \<or> clm_userId c \<notin> set (map usr_id (tbl_users d))
        then Inl (DbErr ''23503'')
      else Inr ((), d\<lparr>tbl_accountClaims := tbl_accountClaims d @ [c]\<rparr>))"

section \<open>Errors and denials\<close>

definition invalidClaimToken :: err where
  "invalidClaimToken = DomainErr BadRequestError ''INVALID_CLAIM_TOKEN'' []"

definition claimTokenExpired :: err where
  "claimTokenExpired = DomainErr BadRequestError ''CLAIM_TOKEN_EXPIRED'' []"

definition emailInUse :: err where
  "emailInUse = DomainErr ConflictError ''CLAIM_EMAIL_IN_USE'' []"

definition claim_entry :: "string option \<Rightarrow> account_claim_row \<Rightarrow> audit_event \<Rightarrow> audit_result \<Rightarrow> audit_entry" where
  "claim_entry ip r ev res = (entry (clm_org r) (Some (clm_userId r)) ev res)
     \<lparr>ae_ipAddress := ip, ae_surface := Some ''auth''\<rparr>"

definition auditClaimDenied :: "string option \<Rightarrow> account_claim_row \<Rightarrow> string \<Rightarrow> unit server" where
  "auditClaimDenied ip r why = logBaseAudit ((claim_entry ip r Ev_account_claim_complete Denied)
     \<lparr>ae_meta := Some [(''reason'', JStr why)]\<rparr>)"

definition denyClaim :: "string option \<Rightarrow> account_claim_row \<Rightarrow> string \<Rightarrow> string \<Rightarrow> 'a server" where
  "denyClaim ip r why code =
     followed_by (auditClaimDenied ip r why) (fail_with (DomainErr BadRequestError code []))"

section \<open>Registering\<close>

definition GC_LIMIT :: nat where
  "GC_LIMIT = 25"

definition stale_claims :: "int \<Rightarrow> db \<Rightarrow> account_claim_row list" where
  "stale_claims now d = take GC_LIMIT (filter (\<lambda>c. clm_usedAt c = None \<and> clm_expiresAt c < now) (tbl_accountClaims d))"

definition drop_account :: "account_claim_row \<Rightarrow> unit server" where
  "drop_account c = followed_by (modify (delete_organizations (\<lambda>q. org_id q = clm_org c)))
     (modify (delete_users (\<lambda>u. usr_id u = clm_userId c)))"

text \<open>The first failure ends the sweep and is ignored.\<close>

definition gcExpiredClaims :: "unit server" where
  "gcExpiredClaims = catch_all
     (andThen new_Date (\<lambda>now. andThen (select (stale_claims now)) (\<lambda>stale. for_each drop_account stale)))
     (\<lambda>_. succeed ())"

definition pending_user :: "string \<Rightarrow> int \<Rightarrow> user_row" where
  "pending_user userId now = \<lparr>usr_id = userId, usr_name = ''Pending owner'',
     usr_email = ''acct-'' @ userId @ CHR ''@'' # UNCLAIMED_ACCOUNT_EMAIL_DOMAIN, usr_emailVerified = False,
     usr_createdAt = now, usr_updatedAt = now\<rparr>"

definition credential_row :: "string \<Rightarrow> string \<Rightarrow> string \<Rightarrow> generated_key \<Rightarrow> int \<Rightarrow> user_api_key_row" where
  "credential_row keyId userId orgId g now = \<lparr>key_id = keyId, key_userId = userId, key_org = orgId,
     key_name = ''auth.md credential'', key_secretHash = gk_hash g, key_secretPrefix = gk_prefix g, key_enabled = True,
     key_revokedAt = None, key_expiresAt = None, key_lastUsedAt = None, key_createdAt = now\<rparr>"

definition new_claim :: "string \<Rightarrow> string \<Rightarrow> string \<Rightarrow> string \<Rightarrow> int \<Rightarrow> account_claim_row" where
  "new_claim claimId orgId userId tokenHash expiresAt = \<lparr>clm_id = claimId, clm_org = orgId, clm_userId = userId,
     clm_claimTokenHash = tokenHash, clm_email = None, clm_otpHash = None, clm_otpExpiresAt = None, clm_otpAttempts = 0,
     clm_status = ''pending'', clm_expiresAt = expiresAt, clm_usedAt = None\<rparr>"

record registration =
  rg_id :: string
  rg_credential :: string
  rg_scopes :: "string list"
  rg_claimUrl :: string
  rg_claimToken :: string
  rg_claimTokenExpires :: int
  rg_postClaimScopes :: "string list"

text \<open>The rows of an account, in one transaction.\<close>

definition seed_account ::
  "string \<Rightarrow> string \<Rightarrow> string \<Rightarrow> string \<Rightarrow> generated_key \<Rightarrow> int \<Rightarrow> int \<Rightarrow> string \<Rightarrow> seed_result server" where
  "seed_account userId claimId keyId tokenHash credential now expiresAt slug =
     followed_by (statement (insert_user (pending_user userId now)))
     (andThen (seedOrgWithOwnerProfile \<lparr>si_userId = userId, si_name = ''Personal account (unclaimed)'', si_slug = slug,
         si_logo = None, si_metadata = Some PERSONAL_ORG_METADATA, si_profileName = ''default'',
         si_profileExternalId = Some ''default''\<rparr>) (\<lambda>seed.
      followed_by (\<lambda>w. statement (insert_user_api_key (credential_row keyId userId (org_id (sr_org seed)) credential (pg_now w))) w)
      (followed_by (statement (insert_claim (new_claim claimId (org_id (sr_org seed)) userId tokenHash expiresAt)))
        (succeed seed))))"

definition registerAnonymous :: "webcrypto \<Rightarrow> mail_env \<Rightarrow> string option \<Rightarrow> registration server" where
  "registerAnonymous wc env ip =
     followed_by gcExpiredClaims
     (andThen randomUUID (\<lambda>userId. andThen randomUUID (\<lambda>claimId. andThen randomUUID (\<lambda>keyId.
      andThen (generateOpaqueToken AGENT_CLAIM_PREFIX) (\<lambda>claimToken.
      andThen (generateApiKey wc USER_API_KEY_PREFIX) (\<lambda>credential.
      andThen new_Date (\<lambda>now.
      andThen randomUUID (\<lambda>slugId.
      andThen (transaction (seed_account userId claimId keyId (hashApiKey wc claimToken) credential now
          (now + AGENT_CLAIM_TTL_MS) (''account-'' @ take 12 slugId))) (\<lambda>seeded.
      followed_by (logBaseAudit ((entry (org_id (sr_org seeded)) (Some userId) Ev_account_register Allowed)
          \<lparr>ae_ipAddress := ip, ae_surface := Some ''auth'',
           ae_meta := Some [(''registrationId'', JStr claimId), (''keyId'', JStr keyId)]\<rparr>))
        (succeed \<lparr>rg_id = claimId, rg_credential = gk_key credential, rg_scopes = AGENT_PRECLAIM_SCOPES,
           rg_claimUrl = apiBase (me_apiUrl env) @ ''/agent/auth/claim'', rg_claimToken = claimToken,
           rg_claimTokenExpires = now + AGENT_CLAIM_TTL_MS, rg_postClaimScopes = AGENT_POSTCLAIM_SCOPES\<rparr>))))))))))"

section \<open>Claiming\<close>

definition open_claim :: "string \<Rightarrow> account_claim_row \<Rightarrow> bool" where
  "open_claim tokenHash c = (clm_claimTokenHash c = tokenHash \<and> clm_usedAt c = None)"

definition loadClaim :: "webcrypto \<Rightarrow> string \<Rightarrow> account_claim_row server" where
  "loadClaim wc claimToken =
     andThen (select (\<lambda>d. find (open_claim (hashApiKey wc claimToken)) (tbl_accountClaims d))) (\<lambda>record.
       case record of
         None \<Rightarrow> fail_with invalidClaimToken
       | Some r \<Rightarrow> andThen new_Date (\<lambda>now. if clm_expiresAt r \<le> now then fail_with claimTokenExpired else succeed r))"

definition update_claims :: "(account_claim_row \<Rightarrow> bool) \<Rightarrow> (account_claim_row \<Rightarrow> account_claim_row) \<Rightarrow> db \<Rightarrow> bool \<times> db" where
  "update_claims hit f d = (let (any, rows) = update_hit hit f (tbl_accountClaims d) in (any, d\<lparr>tbl_accountClaims := rows\<rparr>))"

record claim_started =
  cs_registrationId :: string
  cs_expiresAt :: int

definition otp_mail :: "string \<Rightarrow> string \<Rightarrow> mail" where
  "otp_mail email otp = plain_mail email ''Your abadge account claim code''
     (''Your abadge claim code is '' @ otp @ [CHR 10, CHR 10] @ ''It expires in 10 minutes. Give it to the agent that requested it. If you didn'' @
      CHR 0x27 # ''t expect this, you can ignore this email.'')"

text \<open>What follows once the code is drawn.\<close>

definition start_claim :: "webcrypto \<Rightarrow> mail_env \<Rightarrow> string option \<Rightarrow> string \<Rightarrow> account_claim_row \<Rightarrow> string \<Rightarrow> claim_started server" where
  "start_claim wc env ip email r otp =
     andThen new_Date (\<lambda>now.
     let expires = now + AGENT_CLAIM_OTP_TTL_MS in
     followed_by (statement (\<lambda>d. Inr (update_claims (\<lambda>c. clm_id c = clm_id r)
         (\<lambda>c. c\<lparr>clm_email := Some email, clm_otpHash := Some (hashApiKey wc otp), clm_otpExpiresAt := Some expires,
            clm_otpAttempts := 0, clm_status := ''otp_sent''\<rparr>) d)))
     (followed_by (sendEmail env (otp_mail email otp))
     (followed_by (logBaseAudit (claim_entry ip r Ev_account_claim Allowed))
       (succeed \<lparr>cs_registrationId = clm_id r, cs_expiresAt = expires\<rparr>))))"

definition claim :: "webcrypto \<Rightarrow> mail_env \<Rightarrow> string option \<Rightarrow> string \<Rightarrow> string \<Rightarrow> world \<Rightarrow> ((err + claim_started) \<times> world) option" where
  "claim wc env ip claimToken email w =
     (case loadClaim wc claimToken w of
        (Inl e, w1) \<Rightarrow> Some (Inl e, w1)
      | (Inr r, w1) \<Rightarrow> (case generateNumericOtp 6 w1 of
          None \<Rightarrow> None
        | Some (otp, w2) \<Rightarrow> Some (start_claim wc env ip email r otp w2)))"

section \<open>Completing\<close>

definition local_part :: "string \<Rightarrow> string" where
  "local_part email = takeWhile (\<lambda>c. c \<noteq> CHR ''@'') email"

definition displayName :: "string \<Rightarrow> string" where
  "displayName email = (if local_part email \<noteq> [] then local_part email else ''owner'')"

definition bind_owner :: "string \<Rightarrow> string \<Rightarrow> int \<Rightarrow> db \<Rightarrow> err + (unit \<times> db)" where
  "bind_owner userId email now d =
     (if \<exists>u \<in> set (tbl_users d). usr_id u \<noteq> userId \<and> usr_email u = email \<and> userId \<in> set (map usr_id (tbl_users d))
      then Inl (DbErr ''23505'')
      else Inr ((), d\<lparr>tbl_users := map (\<lambda>u. if usr_id u = userId
        then u\<lparr>usr_email := email, usr_name := displayName email, usr_emailVerified := True, usr_updatedAt := now\<rparr> else u)
        (tbl_users d)\<rparr>))"

text \<open>The transaction: take the claim, refuse an address that has an account, rebind the placeholder.\<close>

definition complete_rows :: "account_claim_row \<Rightarrow> string \<Rightarrow> int \<Rightarrow> unit server" where
  "complete_rows r email now =
     andThen (statement (\<lambda>d. Inr (update_claims (\<lambda>c. clm_id c = clm_id r \<and> clm_usedAt c = None)
         (\<lambda>c. c\<lparr>clm_usedAt := Some now, clm_status := ''claimed''\<rparr>) d))) (\<lambda>claimed.
     if \<not> claimed then fail_with (DomainErr ConflictError ''CLAIM_ALREADY_COMPLETED'' [])
     else andThen (select (\<lambda>d. find (\<lambda>u. usr_email u = email) (tbl_users d))) (\<lambda>existing.
       if existing \<noteq> None then fail_with emailInUse
       else statement (bind_owner (clm_userId r) email now)))"

definition completion_denied :: "string option \<Rightarrow> account_claim_row \<Rightarrow> err \<Rightarrow> unit server" where
  "completion_denied ip r e = auditClaimDenied ip r
     (if is_class ConflictError e then js_lower (err_code e) else ''claim_failed'')"

definition ready_mail :: "mail_env \<Rightarrow> string \<Rightarrow> mail" where
  "ready_mail env email = plain_mail email ''Your abadge account is ready''
     (''Your abadge personal account is set up and an agent is managing your credentials.'' @ [CHR 10, CHR 10] @
      ''To access the dashboard, go to '' @ apiBase (me_appUrl env) @ ''/login and use \"Forgot password\" to set a password for '' @
      email @ ''.'')"

definition count_wrong_guess :: "account_claim_row \<Rightarrow> unit server" where
  "count_wrong_guess r = followed_by (statement (\<lambda>d. Inr (update_claims (\<lambda>c. clm_id c = clm_id r)
     (\<lambda>c. c\<lparr>clm_otpAttempts := clm_otpAttempts c + 1\<rparr>) d))) (succeed ())"

definition claimComplete :: "webcrypto \<Rightarrow> mail_env \<Rightarrow> string option \<Rightarrow> string \<Rightarrow> string \<Rightarrow> string server" where
  "claimComplete wc env ip claimToken otp =
     andThen (loadClaim wc claimToken) (\<lambda>r.
     if falsy (clm_otpHash r) \<or> falsy (clm_email r) \<or> clm_otpExpiresAt r = None
     then denyClaim ip r ''otp_not_requested'' ''OTP_NOT_REQUESTED''
     else andThen new_Date (\<lambda>checked.
     if the (clm_otpExpiresAt r) \<le> checked then denyClaim ip r ''otp_expired'' ''OTP_EXPIRED''
     else if clm_otpAttempts r \<ge> AGENT_CLAIM_OTP_MAX_ATTEMPTS
     then denyClaim ip r ''otp_attempts_exceeded'' ''OTP_ATTEMPTS_EXCEEDED''
     else if \<not> verifyApiKey wc otp (the (clm_otpHash r))
     then followed_by (count_wrong_guess r) (denyClaim ip r ''otp_invalid'' ''OTP_INVALID'')
     else let email = the (clm_email r) in
       andThen new_Date (\<lambda>now.
       followed_by (tap_error (on_unique_violation emailInUse (transaction (complete_rows r email now))) (completion_denied ip r))
       (followed_by (catch_all (sendEmail env (ready_mail env email)) (\<lambda>_. succeed ()))
       (followed_by (logBaseAudit (claim_entry ip r Ev_account_claim_complete Allowed))
         (succeed (clm_id r)))))))"

interpretation account_claim: single_use "\<lambda>i c. clm_id c = i \<and> clm_usedAt c = None"
  "\<lambda>now c. c\<lparr>clm_usedAt := Some now, clm_status := ''claimed''\<rparr>"
  by unfold_locales simp

end
