(* ===== verification/Registration_Properties.thy ===== *)
theory Registration_Properties
  imports Registration Org_Properties
begin

text \<open>
  What the registration ceremony promises: codes are unbiased and the loop that draws them ends whenever the
  source of randomness permits; an account is claimed once, by someone who holds both the claim token and
  the code, after at most five wrong guesses; the sweep of expired registrations never touches a
  claimed account.
\<close>

section \<open>One-time codes\<close>

definition is_digit :: "char \<Rightarrow> bool" where
  "is_digit c = (CHR ''0'' \<le> c \<and> c \<le> CHR ''9'')"

lemma digit_char_is_digit: "n < 10 \<Longrightarrow> is_digit (digit_char n)"
  by (auto simp: is_digit_def digit_char_def less_eq_char_def)

lemma digit_char_inj: "m < 10 \<Longrightarrow> n < 10 \<Longrightarrow> digit_char m = digit_char n \<longleftrightarrow> m = n"
  by (auto simp: digit_char_def dest!: arg_cong [where f = "of_char :: char \<Rightarrow> nat"])

lemma card_bytes: "card {b :: byte. P (unat b)} = card {n :: nat. n < 256 \<and> P n}"
proof (rule bij_betw_same_card [of unat], rule bij_betw_byWitness [where f' = of_nat])
  show "unat ` {b :: byte. P (unat b)} \<subseteq> {n. n < 256 \<and> P n}" using byte_bound by auto
  show "of_nat ` {n. n < 256 \<and> P n} \<subseteq> {b :: byte. P (unat b)}" by (auto simp: unat_of_nat)
qed (auto simp: unat_of_nat)

text \<open>Every digit is drawn by as many bytes as every other.\<close>

lemma otp_byte_unbiased:
  assumes "d < 10"
  shows "card {b. otp_byte b = [digit_char d]} = 25"
proof -
  have "{b. otp_byte b = [digit_char d]} = {b. unat b < 250 \<and> unat b mod 10 = d}"
    using assms by (auto simp: otp_byte_def digit_char_inj)
  then have "card {b. otp_byte b = [digit_char d]} = card {n. n < 256 \<and> (n < 250 \<and> n mod 10 = d)}"
    using card_bytes [of "\<lambda>n. n < 250 \<and> n mod 10 = d"] by simp
  also have "{n. n < 256 \<and> (n < 250 \<and> n mod 10 = d)} = (\<lambda>k. 10 * k + d) ` {..<25}"
  proof (intro set_eqI iffI)
    fix n assume "n \<in> {n. n < 256 \<and> (n < 250 \<and> n mod 10 = d)}"
    then have "n = 10 * (n div 10) + d" "n div 10 < 25" by auto
    then show "n \<in> (\<lambda>k. 10 * k + d) ` {..<25}" by blast
  next
    fix n assume "n \<in> (\<lambda>k. 10 * k + d) ` {..<25}"
    then obtain k where "k < 25" "n = 10 * k + d" by auto
    with assms show "n \<in> {n. n < 256 \<and> (n < 250 \<and> n mod 10 = d)}" by simp
  qed
  also have "card \<dots> = 25" by (subst card_image) (auto intro: inj_onI)
  finally show ?thesis .
qed

text \<open>The digits that the first \<open>n\<close> bytes supply.\<close>

definition drawn :: "world \<Rightarrow> nat \<Rightarrow> string" where
  "drawn w n = concat (map (\<lambda>i. otp_byte (first_byte (randoms w i 1))) [draws w..<draws w + n])"

lemma drawn_0 [simp]: "drawn w 0 = []"
  by (simp add: drawn_def)

lemma drawn_Suc: "drawn w (Suc n) = otp_byte (first_byte (randoms w (draws w) 1)) @ drawn (w\<lparr>draws := Suc (draws w)\<rparr>) n"
  by (simp add: drawn_def upt_conv_Cons del: upt_Suc)

lemma drawn_digits: "c \<in> set (drawn w n) \<Longrightarrow> is_digit c"
  by (auto simp: drawn_def otp_byte_def intro: digit_char_is_digit split: if_splits)

lemma length_otp_byte: "length (otp_byte b) \<le> 1"
  by (simp add: otp_byte_def)

lemma otp_loop_result:
  assumes "otp_loop k out w = Some y"
  shows "length out \<le> k \<longrightarrow> (\<exists>n. fst y = out @ drawn w n \<and> length (fst y) = k \<and> snd y = w\<lparr>draws := draws w + n\<rparr>)"
proof (rule otp_loop.raw_induct [where P = "\<lambda>k out w y. length out \<le> k \<longrightarrow>
    (\<exists>n. fst y = out @ drawn w n \<and> length (fst y) = k \<and> snd y = w\<lparr>draws := draws w + n\<rparr>)", OF _ assms])
  fix loop k out y and w :: world
  let ?b = "otp_byte (first_byte (randoms w (draws w) 1))" and ?w = "w\<lparr>draws := Suc (draws w)\<rparr>"
  assume IH: "\<And>k out w y. loop k out w = Some y \<Longrightarrow>
      length out \<le> k \<longrightarrow> (\<exists>n. fst y = out @ drawn w n \<and> length (fst y) = k \<and> snd y = w\<lparr>draws := draws w + n\<rparr>)"
    and step: "(if length out < k then loop k (out @ ?b) ?w else Some (out, w)) = Some y"
  show "length out \<le> k \<longrightarrow> (\<exists>n. fst y = out @ drawn w n \<and> length (fst y) = k \<and> snd y = w\<lparr>draws := draws w + n\<rparr>)"
  proof (cases "length out < k")
    case True
    with IH [of k "out @ ?b" ?w y] step length_otp_byte [of "first_byte (randoms w (draws w) 1)"] obtain n where
      "fst y = out @ ?b @ drawn ?w n" "length (fst y) = k" "snd y = w\<lparr>draws := Suc (draws w + n)\<rparr>" by auto
    then show ?thesis by (intro impI exI [of _ "Suc n"]) (simp add: drawn_Suc)
  next
    case False
    with step show ?thesis by (intro impI exI [of _ 0]) auto
  qed
qed

lemma otp_loop_returns:
  "length out \<le> k \<Longrightarrow> k \<le> length out + length (drawn w n) \<Longrightarrow> otp_loop k out w \<noteq> None"
proof (induction n arbitrary: out w)
  case 0
  then show ?case by (subst otp_loop.simps) simp
next
  case (Suc n)
  show ?case
  proof (cases "length out < k")
    case True
    have "length (out @ otp_byte (first_byte (randoms w (draws w) 1))) \<le> k"
      using True length_otp_byte [of "first_byte (randoms w (draws w) 1)"] by simp
    with Suc.IH [of "out @ otp_byte (first_byte (randoms w (draws w) 1))" "w\<lparr>draws := Suc (draws w)\<rparr>"] Suc.prems True
    show ?thesis by (subst otp_loop.simps) (simp add: drawn_Suc)
  qed (subst otp_loop.simps, simp)
qed

text \<open>The loop that draws a one-time code ends exactly when the source of randomness supplies
  enough bytes below 250; the code it returns then has the digits asked for, which are the digits of those bytes in order, and
  every digit is drawn by 25 of the 256 bytes, so that a uniform source makes all codes equally likely.\<close>

theorem code_is_drawn_when_bytes_suffice:
  "(generateNumericOtp k w \<noteq> None) = (\<exists>n. k \<le> length (drawn w n)) \<and>
   (case generateNumericOtp k w of None \<Rightarrow> True
    | Some (code, w') \<Rightarrow> length code = k \<and> list_all is_digit code \<and>
        code \<in> drawn w ` {n. w' = w\<lparr>draws := draws w + n\<rparr>}) \<and>
   map (\<lambda>d. card {b. otp_byte b = [digit_char d]}) [0..<10] = replicate 10 25"
proof -
  have res: "\<exists>n. fst y = drawn w n \<and> length (fst y) = k \<and> snd y = w\<lparr>draws := draws w + n\<rparr>"
    if "generateNumericOtp k w = Some y" for y
    using otp_loop_result [of k "[]" w y] that by (simp add: generateNumericOtp_def)
  have "(generateNumericOtp k w \<noteq> None) = (\<exists>n. k \<le> length (drawn w n))"
    using res otp_loop_returns [of "[]" k w] by (fastforce simp: generateNumericOtp_def)
  moreover have "case generateNumericOtp k w of None \<Rightarrow> True
    | Some (code, w') \<Rightarrow> length code = k \<and> list_all is_digit code \<and> code \<in> drawn w ` {n. w' = w\<lparr>draws := draws w + n\<rparr>}"
    using res drawn_digits [of _ w] by (fastforce simp: list_all_iff split: option.split)
  moreover have "map (\<lambda>d. card {b. otp_byte b = [digit_char d]}) [0..<10] = map (\<lambda>_. 25) [0..<(10 :: nat)]"
    by (rule map_cong) (simp_all add: otp_byte_unbiased)
  ultimately show ?thesis by (simp add: map_replicate_const)
qed

section \<open>An account is claimed once, by whoever holds token and code\<close>

definition mail_quiet :: "mail_env \<Rightarrow> bool" where
  "mail_quiet env \<longleftrightarrow> (\<forall>m w. store (snd (me_send env m w)) = store w)"

lemma keeps_sendEmail: "mail_quiet env \<Longrightarrow> keeps store_kept (sendEmail env m)"
  unfolding keeps_def store_kept_def sendEmail_def mail_quiet_def
  by (auto split: prod.split sum.split) (metis snd_conv)+

lemma sendEmail_store: "mail_quiet env \<Longrightarrow> sendEmail env m w = (r, w') \<Longrightarrow> store w' = store w"
  using keepsD [OF keeps_sendEmail] by (simp add: store_kept_def)

lemma loadClaim_Inr:
  "loadClaim wc t w = (Inr r, w') \<Longrightarrow> store w' = store w \<and>
     find (open_claim (hashApiKey wc t)) (tbl_accountClaims (store w)) = Some r \<and>
     (\<exists>now \<in> range (clock w). now < clm_expiresAt r) \<and> clock w' = clock w"
  by (auto simp: loadClaim_def andThen_Inr select_ok fail_with_def succeed_def not_le split: option.splits if_splits)

lemma open_claim_found:
  "find (open_claim h) cs = Some r \<Longrightarrow> r \<in> set cs \<and> clm_claimTokenHash r = h \<and> clm_usedAt r = None"
  by (drule find_SomeD) (simp add: open_claim_def)

definition taken_claims :: "string \<Rightarrow> int \<Rightarrow> account_claim_row list \<Rightarrow> account_claim_row list" where
  "taken_claims i now cs = snd (update_hit (\<lambda>c. clm_id c = i \<and> clm_usedAt c = None)
     (\<lambda>c. c\<lparr>clm_usedAt := Some now, clm_status := ''claimed''\<rparr>) cs)"

lemma complete_rows_Inr:
  assumes "complete_rows r email now w = (Inr (), w')"
  shows "tbl_accountClaims (store w') = taken_claims (clm_id r) now (tbl_accountClaims (store w)) \<and>
    email \<notin> usr_email ` set (tbl_users (store w)) \<and>
    tbl_users (store w') = map (\<lambda>u. if usr_id u = clm_userId r
        then u\<lparr>usr_email := email, usr_name := displayName email, usr_emailVerified := True, usr_updatedAt := now\<rparr> else u)
        (tbl_users (store w))"
  using assms
  by (auto simp: complete_rows_def andThen_Inr statement_ok select_ok update_claims_def taken_claims_def bind_owner_def
      fail_with_def find_None_iff image_iff split: if_splits prod.splits)

lemma denyClaim_fails: "denyClaim ip r why code w = (Inr x, w') \<longleftrightarrow> False"
  by (simp add: denyClaim_def auditClaimDenied_def base_log.log_then_fail)

lemma claimComplete_Inr:
  assumes "claimComplete wc env ip t otp w = (Inr i, w')" "mail_quiet env"
  obtains r now email where "find (open_claim (hashApiKey wc t)) (tbl_accountClaims (store w)) = Some r" "i = clm_id r"
    "\<exists>now \<in> range (clock w). now < clm_expiresAt r" "clm_otpHash r = Some (hashApiKey wc otp)" "clm_email r = Some email"
    "\<exists>now \<in> range (clock w). now < the (clm_otpExpiresAt r)" "clm_otpAttempts r < AGENT_CLAIM_OTP_MAX_ATTEMPTS"
    "email \<notin> usr_email ` set (tbl_users (store w))"
    "tbl_accountClaims (store w') = taken_claims (clm_id r) now (tbl_accountClaims (store w))"
    "tbl_users (store w') = map (\<lambda>u. if usr_id u = clm_userId r
        then u\<lparr>usr_email := email, usr_name := displayName email, usr_emailVerified := True, usr_updatedAt := now\<rparr> else u)
        (tbl_users (store w))"
proof -
  let ?log = "\<lambda>r. logBaseAudit (claim_entry ip r Ev_account_claim_complete Allowed)"
  have tap: "tap_error m h v = (Inr x, v') \<longleftrightarrow> m v = (Inr x, v')" for m h and x :: 'a and v v'
    by (auto simp: tap_error_def split: prod.splits sum.splits)
  from assms(1) obtain r w1 w2 w3 where l: "loadClaim wc t w = (Inr r, w1)"
    and body: "tap_error (on_unique_violation emailInUse (transaction (complete_rows r (the (clm_email r)) (clock w1 (Suc (ticks w1))))))
        (completion_denied ip r) (w1\<lparr>ticks := Suc (Suc (ticks w1))\<rparr>) = (Inr (), w2)"
    and mail: "catch_all (sendEmail env (ready_mail env (the (clm_email r)))) (\<lambda>_. succeed ()) w2 = (Inr (), w3)"
    and log: "?log r w3 = (Inr (), w')"
    and f: "clm_otpHash r = Some (hashApiKey wc otp)" "clm_email r \<noteq> None" "clock w1 (ticks w1) < the (clm_otpExpiresAt r)"
      "clm_otpAttempts r < AGENT_CLAIM_OTP_MAX_ATTEMPTS" and i: "i = clm_id r"
    by (auto simp: claimComplete_def andThen_Inr followed_by_def denyClaim_fails verifyApiKey_eq Let_def not_le succeed_def
        elim!: truthyE split: if_splits)
  from loadClaim_Inr [OF l] have k: "store w1 = store w" "clock w1 = clock w"
    and found: "find (open_claim (hashApiKey wc t)) (tbl_accountClaims (store w)) = Some r"
    and live: "\<exists>now \<in> range (clock w). now < clm_expiresAt r" by auto
  let ?now = "clock w1 (Suc (ticks w1))" and ?email = "the (clm_email r)"
  from body obtain v' where rows: "complete_rows r ?email ?now (w1\<lparr>ticks := Suc (Suc (ticks w1))\<rparr>) = (Inr (), v')"
    "store v' = store w2"
    by (auto simp: tap on_unique_violation_def catch_all_def transaction_ok fail_with_def split: prod.splits sum.splits if_splits)
  from mail have "store w3 = store w2"
    by (auto simp: catch_all_def succeed_def dest: sendEmail_store [OF assms(2)] split: prod.splits sum.splits)
  moreover from audits_where_frame [OF base_log.log_where [of "\<lambda>_. True"]] log
  have "tbl_accountClaims (store w') = tbl_accountClaims (store w3)" "tbl_users (store w') = tbl_users (store w3)"
    by (metis snd_conv)+
  moreover have "\<exists>now \<in> range (clock w). now < the (clm_otpExpiresAt r)" using f(3) k(2) by auto
  moreover have "clm_email r = Some ?email" using f(2) by simp
  ultimately show ?thesis using complete_rows_Inr [OF rows(1)] rows(2) k f found live i
    by (intro that [of r ?email ?now]) simp_all
qed

lemma taken_claim_found:
  assumes "find (open_claim h) cs = Some r"
  shows "find (open_claim h) (taken_claims (clm_id r) now cs) = find (open_claim h) (filter (\<lambda>c. clm_id c \<noteq> clm_id r) cs)"
  by (induction cs) (auto simp: taken_claims_def update_hit_def open_claim_def)


section \<open>Guessing\<close>

text \<open>One request after the other with the same claim token, each with its own guess.\<close>

fun guess_run :: "webcrypto \<Rightarrow> mail_env \<Rightarrow> string option \<Rightarrow> string \<Rightarrow> string list \<Rightarrow> world \<Rightarrow> (err + string) list" where
  "guess_run wc env ip t [] w = []"
| "guess_run wc env ip t (g # gs) w =
     (let (r, w') = claimComplete wc env ip t g w in r # guess_run wc env ip t gs w')"

definition guessed_wrong :: "err + string \<Rightarrow> bool" where
  "guessed_wrong r = (r = Inl (DomainErr BadRequestError ''OTP_INVALID'' []))"

definition counted :: "string \<Rightarrow> account_claim_row list \<Rightarrow> account_claim_row list" where
  "counted i cs = map (\<lambda>c. if clm_id c = i then c\<lparr>clm_otpAttempts := clm_otpAttempts c + 1\<rparr> else c) cs"

text \<open>A request to complete a claim leaves the table alone, counts a wrong guess, or takes the claim.\<close>

definition guess_effect :: "string \<Rightarrow> (err + string) \<Rightarrow> account_claim_row list \<Rightarrow> account_claim_row list \<Rightarrow> bool" where
  "guess_effect h r cs cs' \<longleftrightarrow>
     (\<exists>c. find (open_claim h) cs = Some c \<and> clm_otpAttempts c < AGENT_CLAIM_OTP_MAX_ATTEMPTS \<and>
        (guessed_wrong r \<and> cs' = counted (clm_id c) cs \<or> \<not> guessed_wrong r \<and> (\<exists>now. cs' = taken_claims (clm_id c) now cs))) \<or>
     \<not> guessed_wrong r \<and> cs' = cs"

lemma keeps_loadClaim: "keeps same_store (loadClaim wc t)"
  unfolding loadClaim_def by (auto intro!: keeps_same split: option.split)

lemma loadClaim_Inl: "loadClaim wc t w = (Inl e, w') \<Longrightarrow> \<not> guessed_wrong (Inl e)"
  by (auto simp: loadClaim_def andThen_def select_def statement_def new_Date_def fail_with_def succeed_def
      guessed_wrong_def invalidClaimToken_def claimTokenExpired_def split: prod.splits sum.splits option.splits if_splits)

lemma denied:
  assumes "denyClaim ip r why code w = (x, w')"
  shows "x = Inl (DomainErr BadRequestError code []) \<and> tbl_accountClaims (store w') = tbl_accountClaims (store w)"
  using assms audits_where_frame [OF base_log.log_where [of "\<lambda>_. True"]]
  by (auto simp: denyClaim_def auditClaimDenied_def base_log.log_then_fail)

lemma complete_rows_Inl: "complete_rows r email now w = (Inl e, w') \<Longrightarrow> \<not> guessed_wrong (Inl e)"
  by (auto simp: complete_rows_def andThen_def select_def statement_def fail_with_def update_claims_def bind_owner_def
      guessed_wrong_def emailInUse_def split: prod.splits sum.splits option.splits if_splits)

lemma completion_denied_claims:
  "tbl_accountClaims (store (snd (completion_denied ip r e w))) = tbl_accountClaims (store w)"
  "fst (completion_denied ip r e w) = Inr ()"
  using audits_where_frame [OF base_log.log_where [of "\<lambda>_. True"]]
  by (simp_all add: completion_denied_def auditClaimDenied_def base_log.never_fails)

lemma taking_rows:
  assumes "on_unique_violation emailInUse (transaction (complete_rows r email now)) w = (x, w')"
  shows "case x of Inl e \<Rightarrow> tbl_accountClaims (store w') = tbl_accountClaims (store w) \<and> \<not> guessed_wrong (Inl e)
    | Inr _ \<Rightarrow> tbl_accountClaims (store w') = taken_claims (clm_id r) now (tbl_accountClaims (store w))"
  using assms complete_rows_Inr [of r email now w] complete_rows_Inl [of r email now w]
  by (auto simp: on_unique_violation_def catch_all_def transaction_def statement_def fail_with_def guessed_wrong_def emailInUse_def
      split: prod.splits sum.splits option.splits if_splits)

lemma taking_effect:
  assumes "tap_error (on_unique_violation emailInUse (transaction (complete_rows r email now))) (completion_denied ip r) w = (x, w')"
  shows "case x of Inl e \<Rightarrow> tbl_accountClaims (store w') = tbl_accountClaims (store w) \<and> \<not> guessed_wrong (Inl e)
    | Inr _ \<Rightarrow> tbl_accountClaims (store w') = taken_claims (clm_id r) now (tbl_accountClaims (store w))"
proof -
  obtain y v where m: "on_unique_violation emailInUse (transaction (complete_rows r email now)) w = (y, v)"
    by (cases "on_unique_violation emailInUse (transaction (complete_rows r email now)) w")
  show ?thesis
  proof (cases y)
    case (Inl e)
    obtain z v' where h: "completion_denied ip r e v = (z, v')" by (cases "completion_denied ip r e v")
    with completion_denied_claims [of ip r e v] have "z = Inr ()" "tbl_accountClaims (store v') = tbl_accountClaims (store v)"
      by simp_all
    with taking_rows [OF m] Inl m h assms show ?thesis by (auto simp: tap_error_def)
  next
    case (Inr u)
    with taking_rows [OF m] m assms show ?thesis by (auto simp: tap_error_def)
  qed
qed

lemma followed_by_Inr: "m w = (Inr x, v) \<Longrightarrow> followed_by m k w = k v"
  by (simp add: followed_by_def andThen_def)

lemma dated: "andThen new_Date f w = f (clock w (ticks w)) (w\<lparr>ticks := Suc (ticks w)\<rparr>)"
  by (simp add: andThen_def new_Date_def)

lemma selected: "faults w (stmts w) = None \<Longrightarrow> andThen (select q) f w = f (q (store w)) (w\<lparr>stmts := Suc (stmts w)\<rparr>)"
  by (simp add: andThen_def select_def statement_def)

lemma finishing_effect:
  assumes "mail_quiet env"
    "followed_by (catch_all (sendEmail env m) (\<lambda>_. succeed ())) (followed_by (logBaseAudit e) (succeed i)) w = (x, w')"
  shows "tbl_accountClaims (store w') = tbl_accountClaims (store w) \<and> x = Inr i"
proof -
  obtain y v where s: "sendEmail env m w = (y, v)" by (cases "sendEmail env m w")
  have "store v = store w" by (rule sendEmail_store [OF assms(1) s])
  moreover have "tbl_accountClaims (store (snd (logBaseAudit e v))) = tbl_accountClaims (store v)"
    using audits_where_frame [OF base_log.log_where [of "\<lambda>_. True"]] by simp
  moreover have "catch_all (sendEmail env m) (\<lambda>_. succeed ()) w = (Inr (), v)"
    using s by (cases y) (simp_all add: catch_all_def succeed_def)
  ultimately show ?thesis using assms(2)
    by (auto simp: followed_by_Inr base_log.log_then succeed_def)
qed

lemma counting_effect:
  assumes "followed_by (count_wrong_guess c) (denyClaim ip c ''otp_invalid'' ''OTP_INVALID'') w = (x, w')"
  shows "guessed_wrong x \<and> tbl_accountClaims (store w') = counted (clm_id c) (tbl_accountClaims (store w)) \<or>
    \<not> guessed_wrong x \<and> tbl_accountClaims (store w') = tbl_accountClaims (store w)"
proof (cases "faults w (stmts w)")
  case None
  define v where "v = w\<lparr>stmts := Suc (stmts w), store := snd (update_claims (\<lambda>d. clm_id d = clm_id c)
     (\<lambda>d. d\<lparr>clm_otpAttempts := clm_otpAttempts d + 1\<rparr>) (store w))\<rparr>"
  from None have "count_wrong_guess c w = (Inr (), v)"
    by (simp add: count_wrong_guess_def followed_by_def andThen_def statement_def succeed_def v_def split: prod.split)
  with assms have "(x, w') = denyClaim ip c ''otp_invalid'' ''OTP_INVALID'' v" by (simp add: followed_by_def andThen_def)
  then have "denyClaim ip c ''otp_invalid'' ''OTP_INVALID'' v = (x, w')" ..
  from denied [OF this]
  have "x = Inl (DomainErr BadRequestError ''OTP_INVALID'' [])" "tbl_accountClaims (store w') = tbl_accountClaims (store v)"
    by auto
  moreover have "tbl_accountClaims (store v) = counted (clm_id c) (tbl_accountClaims (store w))"
    by (simp add: v_def update_claims_def update_hit_def counted_def)
  ultimately show ?thesis by (simp add: guessed_wrong_def)
next
  case (Some code)
  with assms show ?thesis
    by (auto simp: followed_by_def andThen_def count_wrong_guess_def statement_def guessed_wrong_def)
qed

lemma guess_effect_of:
  assumes "claimComplete wc env ip t g w = (r, w')" "mail_quiet env"
  shows "guess_effect (hashApiKey wc t) r (tbl_accountClaims (store w)) (tbl_accountClaims (store w'))"
proof (cases "loadClaim wc t w")
  case (Pair x w1)
  with keepsD [OF keeps_loadClaim] have s1: "store w1 = store w" by (simp add: same_store_def)
  show ?thesis
  proof (cases x)
    case (Inl e)
    with Pair assms(1) loadClaim_Inl s1 show ?thesis by (auto simp: claimComplete_def andThen_def guess_effect_def)
  next
    case (Inr c)
    with loadClaim_Inr [of wc t w c w1] Pair have found: "find (open_claim (hashApiKey wc t)) (tbl_accountClaims (store w)) = Some c"
      by simp
    let ?out = "falsy (clm_otpHash c) \<or> falsy (clm_email c) \<or> clm_otpExpiresAt c = None"
    let ?w2 = "w1\<lparr>ticks := Suc (ticks w1)\<rparr>"
    note run = assms(1) [unfolded claimComplete_def andThen_def [of "loadClaim _ _"] Pair prod.case Inr sum.case]
    have same: ?thesis if "\<not> guessed_wrong r" "tbl_accountClaims (store w') = tbl_accountClaims (store w1)"
      using that s1 by (simp add: guess_effect_def)
    show ?thesis
    proof (cases "?out \<or> the (clm_otpExpiresAt c) \<le> clock w1 (ticks w1) \<or> AGENT_CLAIM_OTP_MAX_ATTEMPTS \<le> clm_otpAttempts c")
      case True
      with run show ?thesis
        by (intro same) (auto simp: dated guessed_wrong_def dest!: denied split: if_splits)
    next
      case False
      then have few: "clm_otpAttempts c < AGENT_CLAIM_OTP_MAX_ATTEMPTS" and f: "\<not> ?out" "\<not> the (clm_otpExpiresAt c) \<le> clock w1 (ticks w1)"
        "\<not> AGENT_CLAIM_OTP_MAX_ATTEMPTS \<le> clm_otpAttempts c" by auto
      note run' = run [unfolded if_not_P [OF f(1)] dated if_not_P [OF f(2)] if_not_P [OF f(3)]]
      show ?thesis
      proof (cases "verifyApiKey wc g (the (clm_otpHash c))")
        case no: False
        with run' have "followed_by (count_wrong_guess c) (denyClaim ip c ''otp_invalid'' ''OTP_INVALID'') ?w2 = (r, w')"
          by simp
        from counting_effect [OF this] found few s1 show ?thesis by (auto simp: guess_effect_def)
      next
        case yes: True
        obtain y v where tk: "tap_error (on_unique_violation emailInUse (transaction (complete_rows c (the (clm_email c)) (clock ?w2 (ticks ?w2)))))
            (completion_denied ip c) (?w2\<lparr>ticks := Suc (ticks ?w2)\<rparr>) = (y, v)"
          by (metis surj_pair)
        note eff = taking_effect [OF tk]
        show ?thesis
        proof (cases y)
          case (Inl e)
          with run' yes tk have "r = Inl e" "w' = v"
            by (simp_all add: dated Let_def followed_by_def [of "tap_error _ _"] andThen_def [of "tap_error _ _"])
          with eff Inl show ?thesis by (intro same) simp_all
        next
          case (Inr u)
          with run' yes tk have "followed_by (catch_all (sendEmail env (ready_mail env (the (clm_email c)))) (\<lambda>_. succeed ()))
              (followed_by (logBaseAudit (claim_entry ip c Ev_account_claim_complete Allowed)) (succeed (clm_id c))) v = (r, w')"
            by (simp add: dated Let_def followed_by_Inr)
          from finishing_effect [OF assms(2) this] eff Inr found few s1 show ?thesis
            by (auto simp: guess_effect_def guessed_wrong_def)
        qed
      qed
    qed
  qed
qed

definition guesses_left :: "string \<Rightarrow> account_claim_row list \<Rightarrow> nat" where
  "guesses_left h cs = (case find (open_claim h) cs of None \<Rightarrow> 0
     | Some c \<Rightarrow> nat (AGENT_CLAIM_OTP_MAX_ATTEMPTS - clm_otpAttempts c))"

lemma guess_costs:
  assumes "guess_effect h r cs cs'" "distinct (map clm_claimTokenHash cs)"
  shows "guesses_left h cs' + (if guessed_wrong r then 1 else 0) \<le> guesses_left h cs \<and>
    distinct (map clm_claimTokenHash cs')"
  using assms(1) unfolding guess_effect_def
proof (elim disjE exE conjE)
  fix c assume c: "find (open_claim h) cs = Some c" "clm_otpAttempts c < AGENT_CLAIM_OTP_MAX_ATTEMPTS"
    and w: "guessed_wrong r" "cs' = counted (clm_id c) cs"
  have "find (open_claim h) cs' = Some (c\<lparr>clm_otpAttempts := clm_otpAttempts c + 1\<rparr>)"
    unfolding w(2) counted_def by (subst find_map_same) (auto simp: c(1) open_claim_def)
  moreover have "map clm_claimTokenHash cs' = map clm_claimTokenHash cs" by (simp add: w(2) counted_def)
  ultimately show ?thesis using c w(1) assms(2) by (auto simp: guesses_left_def simp del: map_map)
next
  fix c now assume c: "find (open_claim h) cs = Some c" and w: "\<not> guessed_wrong r" "cs' = taken_claims (clm_id c) now cs"
  have "map clm_claimTokenHash cs' = map clm_claimTokenHash cs" by (simp add: w(2) taken_claims_def update_hit_def)
  moreover have "find (open_claim h) (filter (\<lambda>d. clm_id d \<noteq> clm_id c) cs) = None"
    using assms(2) open_claim_found [OF c] by (auto simp: find_None_iff open_claim_def) (metis distinct_map_inj_on_eq)
  ultimately show ?thesis using taken_claim_found [OF c] w assms(2) by (simp add: guesses_left_def del: map_map)
qed (use assms(2) in simp)


section \<open>The sweep\<close>

definition spared :: "string set \<Rightarrow> string set \<Rightarrow> db \<Rightarrow> db \<Rightarrow> bool" where
  "spared us os d d' \<longleftrightarrow> (refs_ok d \<longrightarrow> refs_ok d') \<and>
     (\<forall>u \<in> set (tbl_users d). usr_id u \<in> us \<or> u \<in> set (tbl_users d')) \<and>
     (\<forall>q \<in> set (tbl_organizations d). org_id q \<in> os \<or> q \<in> set (tbl_organizations d'))"

lemma spared_trans: "spared us os d d1 \<Longrightarrow> spared us os d1 d2 \<Longrightarrow> spared us os d d2"
  unfolding spared_def by blast

lemma spared_refl: "spared us os d d"
  by (simp add: spared_def)

lemma deletion_tables:
  "tbl_users (delete_organizations P d) = tbl_users d"
  "tbl_organizations (delete_organizations P d) = filter (\<lambda>q. \<not> P q) (tbl_organizations d)"
  "tbl_users (delete_users Q d) = filter (\<lambda>u. \<not> Q u) (tbl_users d)"
  "tbl_organizations (delete_users Q d) = tbl_organizations d"
  by (simp_all add: delete_organizations_eq delete_users_def drop_tenants_kept Let_def)

lemma spared_deletions:
  "i \<in> os \<Longrightarrow> spared us os d (delete_organizations (\<lambda>q. org_id q = i) d)"
  "j \<in> us \<Longrightarrow> spared us os d (delete_users (\<lambda>u. usr_id u = j) d)"
  using refs_ok_delete_organizations refs_ok_delete_users
  by (auto simp: spared_def deletion_tables)

lemma drop_account_spares:
  assumes "drop_account c w = (r, w')" "clm_org c \<in> os" "clm_userId c \<in> us"
  shows "spared us os (store w) (store w')"
  using assms spared_trans [OF spared_deletions(1) spared_deletions(2)]
  by (auto simp: drop_account_def followed_by_def andThen_def modify_def statement_def spared_refl spared_deletions
      split: option.splits)

lemma drop_accounts_spare:
  "for_each drop_account cs w = (r, w') \<Longrightarrow> clm_org ` set cs \<subseteq> os \<Longrightarrow> clm_userId ` set cs \<subseteq> us \<Longrightarrow>
     spared us os (store w) (store w')"
proof (induction cs arbitrary: w)
  case Nil
  then show ?case by (simp add: succeed_def spared_refl)
next
  case (Cons c cs)
  obtain x v where d: "drop_account c w = (x, v)" by (cases "drop_account c w")
  from drop_account_spares [OF d, of os us] Cons.prems have s: "spared us os (store w) (store v)" by simp
  show ?case
  proof (cases x)
    case (Inl e)
    with Cons.prems(1) d s show ?thesis by (simp add: followed_by_def andThen_def)
  next
    case (Inr u)
    with Cons.prems d have "for_each drop_account cs v = (r, w')" by (simp add: followed_by_def andThen_def)
    from spared_trans [OF s Cons.IH [OF this]] Cons.prems show ?thesis by simp
  qed
qed

text \<open>The sweep that starts every registration never fails the registration, and whatever statement of it
  fails, it deletes no user and no organisation other than those of registrations that nobody claimed and whose time had
  run out at the instant the clock was read; no reference is left dangling.\<close>

theorem sweep_spares_claimed_accounts:
  assumes "gcExpiredClaims w = (r, w')" "refs_ok (store w)"
  shows "r = Inr () \<and> refs_ok (store w') \<and>
    (\<forall>u \<in> set (tbl_users (store w)). u \<in> set (tbl_users (store w')) \<or>
       (\<exists>c \<in> set (tbl_accountClaims (store w)). clm_userId c = usr_id u \<and> clm_usedAt c = None \<and> clm_expiresAt c < clock w (ticks w))) \<and>
    (\<forall>q \<in> set (tbl_organizations (store w)). q \<in> set (tbl_organizations (store w')) \<or>
       (\<exists>c \<in> set (tbl_accountClaims (store w)). clm_org c = org_id q \<and> clm_usedAt c = None \<and> clm_expiresAt c < clock w (ticks w)))"
proof -
  let ?cs = "stale_claims (clock w (ticks w)) (store w)" and ?w1 = "w\<lparr>ticks := Suc (ticks w)\<rparr>"
  have "r = Inr () \<and> spared (clm_userId ` set ?cs) (clm_org ` set ?cs) (store w) (store w')"
  proof (cases "faults w (stmts w)")
    case (Some e)
    with assms(1) show ?thesis
      by (auto simp: gcExpiredClaims_def catch_all_def dated andThen_def select_def statement_def succeed_def spared_refl)
  next
    case None
    obtain x v where "for_each drop_account ?cs (w\<lparr>ticks := Suc (ticks w), stmts := Suc (stmts w)\<rparr>) = (x, v)" by (metis surj_pair)
    moreover from drop_accounts_spare [OF this subset_refl subset_refl] None assms(1) this
    have "r = Inr ()" "store w' = store v"
      by (auto simp: gcExpiredClaims_def catch_all_def dated selected succeed_def split: sum.splits)
    ultimately show ?thesis using drop_accounts_spare [OF _ subset_refl subset_refl] by fastforce
  qed
  moreover have "set ?cs \<subseteq> {c \<in> set (tbl_accountClaims (store w)). clm_usedAt c = None \<and> clm_expiresAt c < clock w (ticks w)}"
    by (auto simp: stale_claims_def dest: in_set_takeD)
  then have stale: "\<exists>c \<in> set (tbl_accountClaims (store w)). f c = x \<and> clm_usedAt c = None \<and> clm_expiresAt c < clock w (ticks w)"
    if "x \<in> f ` set ?cs" for x and f :: "account_claim_row \<Rightarrow> string" using that by auto
  ultimately show ?thesis using assms(2) stale [of _ clm_userId] stale [of _ clm_org] unfolding spared_def by blast
qed

section \<open>A concrete registration\<close>

definition sample_claim :: account_claim_row where
  "sample_claim = \<lparr>clm_id = ''c1'', clm_org = ''o1'', clm_userId = ''u2'', clm_claimTokenHash = hashApiKey toy_webcrypto ''clm_x'',
     clm_email = Some ''x@y'', clm_otpHash = Some (hashApiKey toy_webcrypto ''123456''), clm_otpExpiresAt = Some 5000,
     clm_otpAttempts = 4, clm_status = ''otp_sent'', clm_expiresAt = 9000, clm_usedAt = None\<rparr>"

definition claim_db :: db where
  "claim_db = org_sample_db\<lparr>tbl_accountClaims := [sample_claim]\<rparr>"

definition quiet_mail :: mail_env where
  "quiet_mail = \<lparr>me_send = (\<lambda>_ w. (Inr (), w)), me_from = None, me_fromName = None, me_apiUrl = None, me_appUrl = None\<rparr>"

lemma quiet_mail_quiet: "mail_quiet quiet_mail"
  by (simp add: mail_quiet_def quiet_mail_def)

lemma sample_load: "loadClaim toy_webcrypto ''clm_x'' (sample_world claim_db) =
    (Inr sample_claim, (sample_world claim_db)\<lparr>stmts := 1, ticks := 1\<rparr>)"
  by (simp add: loadClaim_def selected dated succeed_def)
    (simp add: claim_db_def open_claim_def sample_claim_def selected dated succeed_def)

lemma sample_completion: "\<exists>w'. claimComplete toy_webcrypto quiet_mail None ''clm_x'' ''123456'' (sample_world claim_db) = (Inr ''c1'', w')"
proof -
  have log: "followed_by (logBaseAudit e) k = (\<lambda>w. k (snd (logBaseAudit e w)))" for e and k :: "'a server"
    by (rule ext) (rule base_log.log_then)
  have hash: "hashApiKey toy_webcrypto ''123456'' \<noteq> []" by code_simp
  have "fst (claimComplete toy_webcrypto quiet_mail None ''clm_x'' ''123456'' (sample_world claim_db)) = Inr ''c1''"
    unfolding claimComplete_def log andThen_def [of "loadClaim _ _"] sample_load
    using hash by (simp add: sample_claim_def dated AGENT_CLAIM_OTP_MAX_ATTEMPTS_def verifyApiKey_eq Let_def followed_by_def tap_error_def
        on_unique_violation_def catch_all_def transaction_def complete_rows_def andThen_def statement_def select_def
        update_claims_def update_hit_def claim_db_def org_sample_db_def bind_owner_def sendEmail_def quiet_mail_def succeed_def)
  then show ?thesis by (metis prod.collapse)
qed



theorem sweep_spares_claimed_accounts_witness:
  "\<exists>w'. gcExpiredClaims (sample_world claim_db) = (Inr (), w') \<and> refs_ok (store w') \<and>
     map usr_id (filter (\<lambda>u. u \<in> set (tbl_users (store w'))) (tbl_users claim_db)) = [''u1'', ''u2'']"
proof -
  obtain r w' where run: "gcExpiredClaims (sample_world claim_db) = (r, w')" by (cases "gcExpiredClaims (sample_world claim_db)")
  have refs: "refs_ok (store (sample_world claim_db))"
    by (simp add: refs_ok_def tenant_refs_def org_refs_def user_refs_def refs_def opt_refs_def claim_db_def org_sample_db_def
        sample_claim_def)
  note swept = sweep_spares_claimed_accounts [OF run refs]
  have cl: "tbl_accountClaims (store (sample_world claim_db)) = [sample_claim]" by (simp add: claim_db_def)
  have "u \<in> set (tbl_users (store w'))" if "u \<in> set (tbl_users claim_db)" for u
    using swept [unfolded cl] that by (auto simp: sample_claim_def)
  then have "list_all (\<lambda>u. u \<in> set (tbl_users (store w'))) (tbl_users claim_db)" by (simp add: list_all_iff)
  then have "filter (\<lambda>u. u \<in> set (tbl_users (store w'))) (tbl_users claim_db) = tbl_users claim_db"
    by (simp add: list_all_iff filter_id_conv)
  with swept run show ?thesis by (auto simp: claim_db_def org_sample_db_def)
qed

end
