(* ===== verification/Base32.thy ===== *)
theory Base32
  imports Encoding Core_Model Js_Text
begin

unbundle bit_operations_syntax

text \<open>
  The base32 of recovery keys (\<open>packages/crypto/src/shared/encoding.ts\<close>): both loops keep a register of 32
  bits that is shifted to the left and never masked, and a count of the bits still to be used. Decoding what
  was encoded, dashes and all, gives the bytes back. The Unicode upper-case mapping is a parameter that
  is taken to act letter by letter on ASCII text.
\<close>

section \<open>The code\<close>

definition BASE32_ALPHABET :: string where
  "BASE32_ALPHABET = ''ABCDEFGHIJKLMNOPQRSTUVWXYZ234567''"

definition b32_char :: "32 word \<Rightarrow> char" where
  "b32_char v = BASE32_ALPHABET ! unat (v AND 0x1F)"

definition b32_index :: "char \<Rightarrow> nat option" where
  "b32_index c = map_of (zip BASE32_ALPHABET [0..<32]) c"

text \<open>The inner loop: the characters it appends and the bits it leaves.\<close>

fun b32_emit :: "32 word \<Rightarrow> nat \<Rightarrow> string \<times> nat" where
  "b32_emit value bits =
     (if bits \<ge> 5 then (let (r, b) = b32_emit value (bits - 5) in (b32_char (drop_bit (bits - 5) value) # r, b))
      else ([], bits))"

fun b32_loop :: "32 word \<Rightarrow> nat \<Rightarrow> bytes \<Rightarrow> string" where
  "b32_loop value bits [] = (if bits > 0 then [b32_char (push_bit (5 - bits) value)] else [])"
| "b32_loop value bits (byte # data) =
     (let value' = push_bit 8 value OR ucast byte; (r, b) = b32_emit value' (bits + 8) in r @ b32_loop value' b data)"

definition toBase32 :: "bytes \<Rightarrow> string" where
  "toBase32 = b32_loop 0 0"

fun unb32_loop :: "32 word \<Rightarrow> nat \<Rightarrow> string \<Rightarrow> err + bytes" where
  "unb32_loop value bits [] = Inr []"
| "unb32_loop value bits (c # clean) =
     (case b32_index c of
        None \<Rightarrow> Inl (PlainErr (''Invalid base32 character: '' @ [c]))
      | Some idx \<Rightarrow>
          let value' = push_bit 5 value OR of_nat idx in
          if bits + 5 \<ge> 8
          then (case unb32_loop value' (bits + 5 - 8) clean of Inl e \<Rightarrow> Inl e
                | Inr out \<Rightarrow> Inr (ucast (drop_bit (bits + 5 - 8) value') # out))
          else unb32_loop value' (bits + 5) clean)"

definition fromBase32 :: "(string \<Rightarrow> string) \<Rightarrow> string \<Rightarrow> err + bytes" where
  "fromBase32 toUpperCase encoded = unb32_loop 0 0 (toUpperCase (remove_all (''-'' # JS_SPACES) encoded))"

text \<open>The matches of \<open>/.{1,5}/g\<close>; the dot matches no line end.\<close>

fun dot_groups :: "string \<Rightarrow> string \<Rightarrow> string list" where
  "dot_groups g [] = (if g = [] then [] else [g])"
| "dot_groups g (c # s) =
     (if c = CHR 0x0A \<or> c = CHR 0x0D then (if g = [] then [] else [g]) @ dot_groups [] s
      else if length g = 4 then (g @ [c]) # dot_groups [] s
      else dot_groups (g @ [c]) s)"

fun join_with :: "string \<Rightarrow> string list \<Rightarrow> string" where
  "join_with sep [] = []"
| "join_with sep [g] = g"
| "join_with sep (g # gs) = g @ sep @ join_with sep gs"

definition formatRecoveryKey :: "string \<Rightarrow> string" where
  "formatRecoveryKey base32 = (case dot_groups [] base32 of [] \<Rightarrow> base32 | gs \<Rightarrow> join_with ''-'' gs)"

section \<open>Big-endian values\<close>

fun be_val :: "nat \<Rightarrow> nat list \<Rightarrow> nat" where
  "be_val B [] = 0"
| "be_val B (d # ds) = d * B ^ length ds + be_val B ds"

abbreviation bytes_val :: "bytes \<Rightarrow> nat" where
  "bytes_val bs \<equiv> be_val 256 (map unat bs)"

lemma be_val_append: "be_val B (xs @ ys) = be_val B xs * B ^ length ys + be_val B ys"
  by (induction xs) (simp_all add: power_add algebra_simps)

lemma be_val_bound: "list_all (\<lambda>d. d < B) ds \<Longrightarrow> be_val B ds < B ^ length ds"
proof (induction ds)
  case (Cons d ds)
  then have "be_val B ds < B ^ length ds" "Suc d \<le> B" by simp_all
  then have "d * B ^ length ds + be_val B ds < Suc d * B ^ length ds" by simp
  also have "\<dots> \<le> B * B ^ length ds" using \<open>Suc d \<le> B\<close> by (rule mult_le_mono1)
  finally show ?case by simp
qed simp

lemma mixed_radix:
  fixes x y :: nat
  assumes "x * m + p = y * m + q" "p < m" "q < m"
  shows "x = y \<and> p = q"
proof -
  have "(x * m + p) div m = x" "(y * m + q) div m = y" using assms(2,3) by simp_all
  with assms(1) show ?thesis by simp
qed

lemma bytes_val_inject: "length xs = length ys \<Longrightarrow> bytes_val xs = bytes_val ys \<Longrightarrow> xs = ys"
proof (induction xs ys rule: list_induct2)
  case (Cons x xs y ys)
  have "bytes_val zs < 256 ^ length zs" for zs :: bytes
    using be_val_bound [of 256 "map unat zs"] by (simp add: list_all_iff byte_bound)
  from this [of xs] this [of ys] have b: "bytes_val xs < 256 ^ length xs" "bytes_val ys < 256 ^ length xs"
    by (simp_all only: Cons.hyps)
  from Cons.prems Cons.hyps have "unat x * 256 ^ length xs + bytes_val xs = unat y * 256 ^ length xs + bytes_val ys" by simp
  then have "unat x = unat y \<and> bytes_val xs = bytes_val ys"
    using mixed_radix [OF _ b] by simp
  with Cons.IH show ?case by (simp add: unsigned_word_eqI)
qed simp

section \<open>The register\<close>

definition pending :: "32 word \<Rightarrow> nat \<Rightarrow> nat" where
  "pending v b = unat v mod 2 ^ b"

lemma pending_push:
  assumes "b + k \<le> 32" "d < 2 ^ k"
  shows "pending (push_bit k v OR of_nat d) (b + k) = pending v b * 2 ^ k + d"
proof -
  have less: "d < 2 ^ n" if "k \<le> n" for n
    using order.strict_trans2 [OF assms(2) power_increasing [OF that]] by simp
  then have d32: "take_bit 32 d = d" "take_bit (b + k) d = d"
    using assms by (simp_all only: take_bit_nat_eq_self_iff)
  have "pending (push_bit k v OR of_nat d) (b + k) = take_bit (b + k) (unat (push_bit k v OR (of_nat d :: 32 word)))"
    by (simp add: pending_def take_bit_eq_mod)
  also have "\<dots> = take_bit (b + k) (push_bit k (unat v)) OR d"
    using assms d32 by (simp add: unsigned_or_eq unsigned_push_bit_eq unsigned_of_nat take_bit_take_bit min_def)
  also have "\<dots> = push_bit k (take_bit b (unat v)) OR take_bit k d"
    using assms by (simp add: take_bit_push_bit take_bit_nat_eq_self)
  also have "\<dots> = push_bit k (take_bit b (unat v)) + take_bit k d"
    by (rule disjunctive_add_eq_or [symmetric]) (simp add: bit_eq_iff bit_simps)
  finally show ?thesis using assms by (simp add: pending_def take_bit_nat_eq_self push_bit_eq_mult take_bit_eq_mod)
qed

lemma pending_drop: "k \<le> b \<Longrightarrow> unat (drop_bit k v) mod 2 ^ (b - k) * 2 ^ k + pending v k = pending v b"
proof -
  assume "k \<le> b"
  then have "unat v mod (2 ^ k * 2 ^ (b - k)) = 2 ^ k * (unat v div 2 ^ k mod 2 ^ (b - k)) + unat v mod 2 ^ k"
    by (rule_tac mod_mult2_eq)
  with \<open>k \<le> b\<close> show ?thesis
    by (simp add: pending_def unat_drop_bit_eq drop_bit_eq_div [where 'a = nat] power_add [symmetric] mult.commute)
qed

lemma unat_and_31: "unat (v AND 0x1F :: 32 word) = unat v mod 32"
proof -
  have "v AND 0x1F = take_bit 5 v" by (simp add: take_bit_eq_mask mask_eq_exp_minus_1)
  then have "unat (v AND 0x1F) = take_bit 5 (unat v)" by (simp only: unsigned_take_bit_eq)
  then show ?thesis by (simp add: take_bit_eq_mod)
qed

lemma b32_index_all: "list_all (\<lambda>d. b32_index (BASE32_ALPHABET ! d) = Some d) [0..<32]"
  by code_simp

lemma b32_index_char: "d < 32 \<Longrightarrow> b32_index (BASE32_ALPHABET ! d) = Some d"
  using b32_index_all by (simp add: list_all_iff)

abbreviation b32_text :: "nat list \<Rightarrow> string" where
  "b32_text ds \<equiv> map (\<lambda>d. BASE32_ALPHABET ! d) ds"

lemma pow_32: "(32 :: nat) ^ n = 2 ^ (5 * n)"
  by (simp add: power_mult)

lemma pow_256: "(256 :: nat) ^ n = 2 ^ (8 * n)"
  by (simp add: power_mult)

declare b32_emit.simps [simp del]

lemma b32_emit_digits:
  "\<exists>ds. b32_emit v bits = (b32_text ds, bits mod 5) \<and> list_all (\<lambda>d. d < 32) ds \<and> 5 * length ds + bits mod 5 = bits \<and>
     be_val 32 ds * 2 ^ (bits mod 5) + pending v (bits mod 5) = pending v bits"
proof (induction bits rule: less_induct)
  case (less bits)
  show ?case
  proof (cases "bits \<ge> 5")
    case True
    let ?d = "unat (drop_bit (bits - 5) v) mod 32"
    from True have "bits - 5 < bits" "(bits - 5) mod 5 = bits mod 5" by (simp_all add: le_mod_geq)
    with less [of "bits - 5"] obtain ds where ds: "b32_emit v (bits - 5) = (b32_text ds, bits mod 5)" "list_all (\<lambda>d. d < 32) ds"
      "5 * length ds + bits mod 5 = bits - 5" "be_val 32 ds * 2 ^ (bits mod 5) + pending v (bits mod 5) = pending v (bits - 5)"
      by auto
    have pow: "(32 :: nat) ^ length ds * 2 ^ (bits mod 5) = 2 ^ (bits - 5)"
      unfolding pow_32 power_add [symmetric] ds(3) ..
    have "?d * 2 ^ (bits - 5) + pending v (bits - 5) = pending v bits"
      using pending_drop [of "bits - 5" bits v] True by simp
    then have "be_val 32 (?d # ds) * 2 ^ (bits mod 5) + pending v (bits mod 5) = pending v bits"
      unfolding ds(4) [symmetric] pow [symmetric] by (simp only: be_val.simps add_mult_distrib mult.assoc add.assoc)
    moreover have "b32_emit v bits = (b32_text (?d # ds), bits mod 5)"
      using True ds(1) by (simp add: b32_emit.simps [of v bits] b32_char_def unat_and_31)
    ultimately show ?thesis using ds(2,3) True by (intro exI [of _ "?d # ds"]) simp
  qed (intro exI [of _ "[]"], simp add: b32_emit.simps)
qed

section \<open>The loops\<close>

lemma b32_loop_digits:
  assumes "bits < 5"
  shows "\<exists>ds pad. b32_loop v bits bs = b32_text ds \<and> list_all (\<lambda>d. d < 32) ds \<and> pad < 5 \<and>
     5 * length ds = bits + 8 * length bs + pad \<and>
     be_val 32 ds = (pending v bits * 256 ^ length bs + bytes_val bs) * 2 ^ pad"
  using assms
proof (induction bs arbitrary: v bits)
  case Nil
  show ?case
  proof (cases "bits = 0")
    case True
    then show ?thesis by (intro exI [of _ "[]"] exI [of _ 0]) (simp add: pending_def)
  next
    case False
    let ?d = "unat (push_bit (5 - bits) v) mod 32"
    from Nil have "pending (push_bit (5 - bits) v OR of_nat 0) (bits + (5 - bits)) = pending v bits * 2 ^ (5 - bits) + 0"
      by (intro pending_push) simp_all
    with Nil have "?d = pending v bits * 2 ^ (5 - bits)" by (simp add: pending_def)
    with False Nil show ?thesis
      by (intro exI [of _ "[?d]"] exI [of _ "5 - bits"]) (simp add: b32_char_def unat_and_31)
  qed
next
  case (Cons b bs)
  let ?v = "push_bit 8 v OR ucast b"
  have push: "pending ?v (bits + 8) = pending v bits * 256 + unat b"
    using pending_push [of bits 8 "unat b" v] Cons.prems byte_bound [of b] by simp
  obtain ds where ds: "b32_emit ?v (bits + 8) = (b32_text ds, (bits + 8) mod 5)" "list_all (\<lambda>d. d < 32) ds"
    "5 * length ds + (bits + 8) mod 5 = bits + 8"
    "be_val 32 ds * 2 ^ ((bits + 8) mod 5) + pending ?v ((bits + 8) mod 5) = pending ?v (bits + 8)"
    using b32_emit_digits [of ?v "bits + 8"] by blast
  have "(bits + 8) mod 5 < 5" by simp
  from Cons.IH [OF this, of ?v] obtain es pad where es: "b32_loop ?v ((bits + 8) mod 5) bs = b32_text es"
    "list_all (\<lambda>d. d < 32) es" "pad < 5" "5 * length es = (bits + 8) mod 5 + 8 * length bs + pad"
    "be_val 32 es = (pending ?v ((bits + 8) mod 5) * 256 ^ length bs + bytes_val bs) * 2 ^ pad" by blast
  have "(32 :: nat) ^ length es = 2 ^ ((bits + 8) mod 5) * 256 ^ length bs * 2 ^ pad"
    unfolding pow_32 pow_256 es(4) power_add ..
  then have "be_val 32 (ds @ es) = (be_val 32 ds * 2 ^ ((bits + 8) mod 5) + pending ?v ((bits + 8) mod 5)) * 256 ^ length bs * 2 ^ pad
      + bytes_val bs * 2 ^ pad"
    by (simp add: be_val_append es(5) algebra_simps)
  also have "\<dots> = (pending v bits * 256 ^ length (b # bs) + bytes_val (b # bs)) * 2 ^ pad"
    unfolding ds(4) push by (simp add: algebra_simps)
  finally show ?case using ds(1-3) es(1-4)
    by (intro exI [of _ "ds @ es"] exI [of _ pad]) simp
qed

lemma unb32_loop_digits:
  assumes "bits < 8" "list_all (\<lambda>d. d < 32) ds"
  shows "\<exists>out rem q. unb32_loop v bits (b32_text ds) = Inr out \<and> rem < 8 \<and> 8 * length out + rem = bits + 5 * length ds \<and>
     q < 2 ^ rem \<and> pending v bits * 32 ^ length ds + be_val 32 ds = bytes_val out * 2 ^ rem + q"
  using assms
proof (induction ds arbitrary: v bits)
  case Nil
  then show ?case by (intro exI [of _ "[]"] exI [of _ bits] exI [of _ "pending v bits"]) (simp add: pending_def)
next
  case (Cons d ds)
  let ?v = "push_bit 5 v OR of_nat d"
  have push: "pending ?v (bits + 5) = pending v bits * 32 + d" using pending_push [of bits 5 d v] Cons.prems by simp
  show ?case
  proof (cases "bits + 5 \<ge> 8")
    case False
    with Cons.IH [of "bits + 5" ?v] Cons.prems obtain out rem q where
      "unb32_loop ?v (bits + 5) (b32_text ds) = Inr out" "rem < 8" "8 * length out + rem = bits + 5 + 5 * length ds"
      "q < 2 ^ rem" "pending ?v (bits + 5) * 32 ^ length ds + be_val 32 ds = bytes_val out * 2 ^ rem + q" by auto
    with False Cons.prems push show ?thesis
      by (intro exI [of _ out] exI [of _ rem] exI [of _ q]) (simp add: b32_index_char algebra_simps)
  next
    case True
    let ?k = "bits + 5 - 8" and ?b = "ucast (drop_bit (bits + 5 - 8) ?v) :: byte"
    have k: "?k < 8" "list_all (\<lambda>d. d < 32) ds" using Cons.prems by simp_all
    from Cons.IH [OF k, of ?v] obtain out rem q where
      o: "unb32_loop ?v ?k (b32_text ds) = Inr out" "rem < 8" "8 * length out + rem = ?k + 5 * length ds"
      "q < 2 ^ rem" "pending ?v ?k * 32 ^ length ds + be_val 32 ds = bytes_val out * 2 ^ rem + q" by blast
    have "unat ?b = unat (drop_bit ?k ?v) mod 2 ^ (bits + 5 - ?k)"
      using True by (simp add: unsigned_ucast_eq take_bit_eq_mod)
    with pending_drop [of ?k "bits + 5" ?v] push
    have b: "pending v bits * 32 + d = unat ?b * 2 ^ ?k + pending ?v ?k" by simp
    have pow: "(2 :: nat) ^ ?k * 32 ^ length ds = 256 ^ length out * 2 ^ rem"
      unfolding pow_32 pow_256 power_add [symmetric] o(3) ..
    have "pending v bits * 32 ^ length (d # ds) + be_val 32 (d # ds) = (pending v bits * 32 + d) * 32 ^ length ds + be_val 32 ds"
      by (simp add: algebra_simps)
    also have "\<dots> = unat ?b * (2 ^ ?k * 32 ^ length ds) + (bytes_val out * 2 ^ rem + q)"
      unfolding b o(5) [symmetric] by (simp add: algebra_simps)
    also have "\<dots> = bytes_val (?b # out) * 2 ^ rem + q" unfolding pow by (simp add: algebra_simps)
    finally show ?thesis using o(1-4) True Cons.prems
      by (intro exI [of _ "?b # out"] exI [of _ rem] exI [of _ q]) (simp add: b32_index_char)
  qed
qed

lemma pending_zero: "pending 0 b = 0"
  by (simp add: pending_def)

lemma unb32_b32: "unb32_loop 0 0 (toBase32 bs) = Inr bs"
proof -
  from b32_loop_digits [of 0 0 bs] obtain ds pad where ds: "toBase32 bs = b32_text ds" "list_all (\<lambda>d. d < 32) ds" "pad < 5"
    "5 * length ds = 8 * length bs + pad" "be_val 32 ds = bytes_val bs * 2 ^ pad" by (auto simp: toBase32_def pending_def)
  from unb32_loop_digits [OF zero_less_numeral ds(2), of 0, unfolded pending_zero add_0 mult_0]
  obtain out rem q where o: "unb32_loop 0 0 (b32_text ds) = Inr out"
    "rem < 8" "8 * length out + rem = 5 * length ds" "q < 2 ^ rem" "be_val 32 ds = bytes_val out * 2 ^ rem + q" by (elim exE conjE) (rule that)
  from ds(3,4) o(2,3) mixed_radix [of "length out" 8 rem "length bs" pad] have "length out = length bs" "rem = pad" by simp_all
  with ds(5) o(4,5) mixed_radix [of "bytes_val bs" "2 ^ pad" 0 "bytes_val out" q] have "bytes_val bs = bytes_val out" by simp
  with \<open>length out = length bs\<close> bytes_val_inject have "out = bs" by metis
  with ds(1) o(1) show ?thesis by simp
qed

lemma toBase32_letters: "list_all (\<lambda>c. c \<in> set BASE32_ALPHABET) (toBase32 bs)"
proof -
  from b32_loop_digits [of 0 0 bs] obtain ds where "toBase32 bs = b32_text ds" "list_all (\<lambda>d. d < 32) ds"
    by (auto simp: toBase32_def)
  moreover have "length BASE32_ALPHABET = 32" by (simp add: BASE32_ALPHABET_def)
  ultimately show ?thesis by (auto simp: list_all_iff)
qed

section \<open>Formatting\<close>

definition plain_letter :: "char \<Rightarrow> bool" where
  "plain_letter c \<longleftrightarrow> c \<noteq> CHR 0x0A \<and> c \<noteq> CHR 0x0D \<and> of_char c < (128 :: nat) \<and>
     list_all (\<lambda>w. w = [] \<or> hd w \<noteq> c) (''-'' # JS_SPACES)"

definition space_heads :: string where
  "space_heads = [CHR 9, CHR 10, CHR 11, CHR 12, CHR 13, CHR 32, CHR 0xC2, CHR 0xE1, CHR 0xE2, CHR 0xE3, CHR 0xEF]"

lemma space_words: "list_all (\<lambda>w. w \<noteq> [] \<and> hd w \<in> set space_heads) JS_SPACES"
  by code_simp

lemma plain_if_no_head: "c \<notin> set space_heads \<Longrightarrow> c \<noteq> CHR ''-'' \<Longrightarrow> of_char c < (128 :: nat) \<Longrightarrow> plain_letter c"
  using space_words by (auto simp: plain_letter_def list_all_iff space_heads_def)

lemma alphabet_plain: "list_all plain_letter BASE32_ALPHABET"
  unfolding BASE32_ALPHABET_def by (simp add: plain_if_no_head space_heads_def)

lemma dot_groups_concat: "list_all plain_letter s \<Longrightarrow> concat (dot_groups g s) = g @ s"
  by (induction g s rule: dot_groups.induct) (auto simp: plain_letter_def)

lemma remove_dash: "remove_all (''-'' # JS_SPACES) (CHR ''-'' # s) = remove_all (''-'' # JS_SPACES) s"
proof (rule remove_all_word)
  show "list_all (\<lambda>w. length w \<le> 1 \<or> hd w \<noteq> CHR ''-'') (''-'' # JS_SPACES)" by code_simp
qed simp

lemma remove_joined:
  "list_all (list_all plain_letter) gs \<Longrightarrow> remove_all (''-'' # JS_SPACES) (join_with ''-'' gs) = concat gs"
proof (induction gs rule: induct_list012)
  case (2 g)
  then show ?case using remove_all_keeps [of "''-'' # JS_SPACES" g "[]"] by (simp add: plain_letter_def list_all_iff)
next
  case (3 g h gs)
  then have "list_all (\<lambda>c. list_all (\<lambda>w. w = [] \<or> hd w \<noteq> c) (''-'' # JS_SPACES)) g"
    by (simp add: plain_letter_def list_all_iff)
  from remove_all_keeps [OF this] 3 remove_dash show ?case by simp
qed simp

lemma remove_formatted:
  assumes "list_all plain_letter s"
  shows "remove_all (''-'' # JS_SPACES) (formatRecoveryKey s) = s"
proof (cases "dot_groups [] s")
  case Nil
  with dot_groups_concat [OF assms, of "[]"] show ?thesis by (simp add: formatRecoveryKey_def)
next
  case (Cons g gs)
  note c = dot_groups_concat [OF assms, of "[]"]
  have "list_all plain_letter (concat (dot_groups [] s))" unfolding c using assms by simp
  then have "list_all (list_all plain_letter) (dot_groups [] s)" by (auto simp: list_all_iff)
  with remove_joined c Cons show ?thesis by (simp add: formatRecoveryKey_def)
qed

text \<open>The upper-case mapping of the language, on text that is upper-case ASCII already.\<close>

definition upper_fixes :: "(string \<Rightarrow> string) \<Rightarrow> bool" where
  "upper_fixes up \<longleftrightarrow> (\<forall>s. list_all (\<lambda>c. c \<in> set BASE32_ALPHABET) s \<longrightarrow> up s = s)"

lemma recovery_key_text: "upper_fixes up \<Longrightarrow> fromBase32 up (formatRecoveryKey (toBase32 bs)) = Inr bs"
proof -
  assume "upper_fixes up"
  then have "up (toBase32 bs) = toBase32 bs" using toBase32_letters by (simp add: upper_fixes_def)
  moreover have "list_all plain_letter (toBase32 bs)"
    using toBase32_letters [of bs] alphabet_plain by (auto simp: list_all_iff)
  ultimately show ?thesis by (simp add: fromBase32_def remove_formatted unb32_b32)
qed

end
