(* ===== verification/Zk_Crypto.thy ===== *)
theory Zk_Crypto
  imports Base32 Samples Json
begin

text \<open>
  Client-side encryption (\<open>packages/crypto/src/client/keys.ts\<close>, \<open>items.ts\<close>, \<open>kdf.ts\<close>). XChaCha20-Poly1305 and
  Argon2id are not code of the repository: they are the fields of the parameter \<open>noble\<close>, each of which may throw.
  Keys live in buffers of an explicit heap, so that \<open>fill(0)\<close> and what it leaves behind is visible; other byte strings are
  values. Randomness is an arbitrary function of a counter.
\<close>

section \<open>Parameters and memory\<close>

record noble =
  nb_encrypt :: "bytes \<Rightarrow> bytes \<Rightarrow> bytes \<Rightarrow> bytes \<Rightarrow> err + bytes"
  nb_decrypt :: "bytes \<Rightarrow> bytes \<Rightarrow> bytes \<Rightarrow> bytes \<Rightarrow> err + bytes"
  nb_argon2id :: "bytes \<Rightarrow> bytes \<Rightarrow> json option \<times> json option \<times> json option \<times> json option \<Rightarrow> err + bytes"

text \<open>What the code relies on: under a 32-byte key and a 24-byte nonce decryption inverts encryption, and fails under
  other additional data.\<close>

definition cipher_correct :: "noble \<Rightarrow> bool" where
  "cipher_correct nb \<longleftrightarrow> (\<forall>k n a p. length k = 32 \<longrightarrow> length n = 24 \<longrightarrow>
     (\<exists>c. nb_encrypt nb k n a p = Inr c \<and> nb_decrypt nb k n a c = Inr p))"

definition cipher_binding :: "noble \<Rightarrow> bool" where
  "cipher_binding nb \<longleftrightarrow> (\<forall>k n a a' p c. a \<noteq> a' \<longrightarrow> nb_encrypt nb k n a p = Inr c \<longrightarrow> isl (nb_decrypt nb k n a' c))"

record memory =
  mem_heap :: "bytes list"
  mem_random :: "nat \<Rightarrow> nat \<Rightarrow> bytes"
  mem_draws :: nat

type_synonym ('z, 'a) client = "('z memory_scheme, err, 'a) eff"

definition alloc :: "bytes \<Rightarrow> ('z, nat) client" where
  "alloc bs = (\<lambda>m. (Inr (length (mem_heap m)), m\<lparr>mem_heap := mem_heap m @ [bs]\<rparr>))"

definition deref :: "nat \<Rightarrow> ('z, bytes) client" where
  "deref a = (\<lambda>m. (Inr (mem_heap m ! a), m))"

definition zeroKey :: "nat \<Rightarrow> ('z, unit) client" where
  "zeroKey a = (\<lambda>m. (Inr (), m\<lparr>mem_heap := (mem_heap m)[a := replicate (length (mem_heap m ! a)) 0]\<rparr>))"

definition random_bytes :: "nat \<Rightarrow> ('z, bytes) client" where
  "random_bytes n = (\<lambda>m. (Inr (mem_random m (mem_draws m) n), m\<lparr>mem_draws := Suc (mem_draws m)\<rparr>))"

definition lift_err :: "err + 'a \<Rightarrow> ('z, 'a) client" where
  "lift_err r = (\<lambda>m. (r, m))"

text \<open>\<open>getRandomValues\<close> fills the buffer it is given.\<close>

definition fills_buffers :: "'z memory_scheme \<Rightarrow> bool" where
  "fills_buffers m \<longleftrightarrow> (\<forall>i n. length (mem_random m i n) = n)"

section \<open>Root keys\<close>

definition NONCE_LEN :: nat where
  "NONCE_LEN = 24"

definition generateRootKey :: "('z, nat) client" where
  "generateRootKey = andThen (random_bytes 32) alloc"

definition generateSalt :: "('z, bytes) client" where
  "generateSalt = random_bytes 16"

definition wrapRootKey :: "noble \<Rightarrow> nat \<Rightarrow> nat \<Rightarrow> string \<Rightarrow> int \<Rightarrow> ('z, string) client" where
  "wrapRootKey nb rootKey kek profileId keyVersion =
     andThen (random_bytes NONCE_LEN) (\<lambda>nonce.
     andThen (deref kek) (\<lambda>k.
     andThen (deref rootKey) (\<lambda>r.
     andThen (lift_err (nb_encrypt nb k nonce (buildZkRootWrapAad profileId keyVersion) r)) (\<lambda>ciphertext.
     succeed (toBase64 (nonce @ ciphertext))))))"

definition unwrapRootKey :: "noble \<Rightarrow> string \<Rightarrow> nat \<Rightarrow> string \<Rightarrow> int \<Rightarrow> ('z, nat) client" where
  "unwrapRootKey nb wrapped kek profileId keyVersion =
     andThen (lift_err (decode_base64 wrapped)) (\<lambda>combined.
     andThen (deref kek) (\<lambda>k.
     andThen (lift_err (nb_decrypt nb k (take NONCE_LEN combined) (buildZkRootWrapAad profileId keyVersion)
        (drop NONCE_LEN combined))) alloc))"

definition generateRecoveryKey :: "noble \<Rightarrow> nat \<Rightarrow> string \<Rightarrow> int \<Rightarrow> ('z, string \<times> string) client" where
  "generateRecoveryKey nb rootKey profileId keyVersion =
     andThen (random_bytes 32) (\<lambda>bytes.
     andThen (alloc bytes) (\<lambda>recoveryBytes.
     andThen (wrapRootKey nb rootKey recoveryBytes profileId keyVersion) (\<lambda>wrapped.
     andThen (deref recoveryBytes) (\<lambda>bs.
     succeed (formatRecoveryKey (toBase32 bs), wrapped)))))"

definition recoverRootKey :: "noble \<Rightarrow> (string \<Rightarrow> string) \<Rightarrow> string \<Rightarrow> string \<Rightarrow> string \<Rightarrow> int \<Rightarrow> ('z, nat) client" where
  "recoverRootKey nb toUpperCase recoveryKey wrapped profileId keyVersion =
     andThen (lift_err (fromBase32 toUpperCase recoveryKey)) (\<lambda>bytes.
     andThen (alloc bytes) (\<lambda>recoveryBytes.
     unwrapRootKey nb wrapped recoveryBytes profileId keyVersion))"

text \<open>The parameters are read off the stored object; a missing property is \<open>undefined\<close>.\<close>

definition property :: "string \<Rightarrow> json \<Rightarrow> json option" where
  "property k j = (case j of JObj ob \<Rightarrow> map_of ob k | _ \<Rightarrow> None)"

definition deriveKEK :: "noble \<Rightarrow> string \<Rightarrow> bytes \<Rightarrow> json \<Rightarrow> ('z, nat) client" where
  "deriveKEK nb password salt params =
     andThen (lift_err (nb_argon2id nb (encode_text password) salt
       (property ''iterations'' params, property ''memory'' params, property ''parallelism'' params,
        property ''hashLength'' params))) alloc"

section \<open>Items\<close>

record encrypted_item =
  ei_encryptedItemKey :: string
  ei_ciphertext :: string

definition encryptItem :: "noble \<Rightarrow> bytes \<Rightarrow> nat \<Rightarrow> string \<Rightarrow> string \<Rightarrow> int option \<Rightarrow> ('z, encrypted_item) client" where
  "encryptItem nb plaintext rootKey profileId itemId contentVersion =
     andThen (andThen (random_bytes 32) alloc) (\<lambda>dek.
     andThen (random_bytes NONCE_LEN) (\<lambda>contentNonce.
     andThen (deref dek) (\<lambda>k.
     andThen (lift_err (nb_encrypt nb k contentNonce (buildZkContentAad profileId itemId (orElse contentVersion 1)) plaintext)) (\<lambda>content.
     andThen (random_bytes NONCE_LEN) (\<lambda>keyNonce.
     andThen (deref rootKey) (\<lambda>r.
     andThen (lift_err (nb_encrypt nb r keyNonce (buildZkDekWrapAad profileId itemId) k)) (\<lambda>wrappedDek.
     followed_by (zeroKey dek)
       (succeed \<lparr>ei_encryptedItemKey = toBase64 (keyNonce @ wrappedDek), ei_ciphertext = toBase64 (contentNonce @ content)\<rparr>))))))))"

text \<open>Unwrapping a data key, which \<open>decryptItem\<close> and \<open>rekeyItem\<close> both begin with.\<close>

definition unwrap_dek :: "noble \<Rightarrow> string \<Rightarrow> nat \<Rightarrow> string \<Rightarrow> string \<Rightarrow> ('z, nat) client" where
  "unwrap_dek nb encryptedItemKey rootKey profileId itemId =
     andThen (lift_err (decode_base64 encryptedItemKey)) (\<lambda>keyCombined.
     andThen (deref rootKey) (\<lambda>r.
     andThen (lift_err (nb_decrypt nb r (take NONCE_LEN keyCombined) (buildZkDekWrapAad profileId itemId)
        (drop NONCE_LEN keyCombined))) alloc))"

definition decryptItem :: "noble \<Rightarrow> encrypted_item \<Rightarrow> nat \<Rightarrow> string \<Rightarrow> string \<Rightarrow> int option \<Rightarrow> ('z, bytes) client" where
  "decryptItem nb item rootKey profileId itemId contentVersion =
     andThen (unwrap_dek nb (ei_encryptedItemKey item) rootKey profileId itemId) (\<lambda>dek.
     andThen (lift_err (decode_base64 (ei_ciphertext item))) (\<lambda>contentCombined.
     andThen (deref dek) (\<lambda>k.
     andThen (lift_err (nb_decrypt nb k (take NONCE_LEN contentCombined)
        (buildZkContentAad profileId itemId (orElse contentVersion 1)) (drop NONCE_LEN contentCombined))) (\<lambda>plaintext.
     followed_by (zeroKey dek) (succeed plaintext)))))"

definition rekeyItem :: "noble \<Rightarrow> string \<Rightarrow> nat \<Rightarrow> nat \<Rightarrow> string \<Rightarrow> string \<Rightarrow> ('z, string) client" where
  "rekeyItem nb encryptedItemKey oldRootKey newRootKey profileId itemId =
     andThen (unwrap_dek nb encryptedItemKey oldRootKey profileId itemId) (\<lambda>dek.
     andThen (random_bytes NONCE_LEN) (\<lambda>newNonce.
     andThen (deref newRootKey) (\<lambda>r.
     andThen (deref dek) (\<lambda>k.
     andThen (lift_err (nb_encrypt nb r newNonce (buildZkDekWrapAad profileId itemId) k)) (\<lambda>wrapped.
     followed_by (zeroKey dek) (succeed (toBase64 (newNonce @ wrapped))))))))"

definition serializeItemPayload :: "json \<Rightarrow> bytes" where
  "serializeItemPayload payload = encode_text (JSON_stringify payload)"

definition deserializeItemPayload :: "bytes \<Rightarrow> err + json" where
  "deserializeItemPayload bs = (case JSON_parse (decode_text bs) of None \<Rightarrow> Inl (PlainErr ''SyntaxError'') | Some j \<Rightarrow> Inr j)"

section \<open>What the steps do\<close>

lemma alloc_eq [simp]: "alloc bs m = (Inr (length (mem_heap m)), m\<lparr>mem_heap := mem_heap m @ [bs]\<rparr>)"
  by (simp add: alloc_def)

lemma random_bytes_eq [simp]: "random_bytes n m = (Inr (mem_random m (mem_draws m) n), m\<lparr>mem_draws := Suc (mem_draws m)\<rparr>)"
  by (simp add: random_bytes_def)

lemma client_steps [simp]:
  "andThen (deref a) f m = f (mem_heap m ! a) m"
  "andThen (lift_err (Inr x)) g m = g x m"
  "andThen (lift_err (Inl e)) g m = (Inl e, m)"
  "followed_by (zeroKey a) k m = k (m\<lparr>mem_heap := (mem_heap m)[a := replicate (length (mem_heap m ! a)) 0]\<rparr>)"
  "andThen (random_bytes n) h m = h (mem_random m (mem_draws m) n) (m\<lparr>mem_draws := Suc (mem_draws m)\<rparr>)"
  "andThen (alloc bs) i m = i (length (mem_heap m)) (m\<lparr>mem_heap := mem_heap m @ [bs]\<rparr>)"
  by (simp_all add: andThen_def followed_by_def deref_def lift_err_def zeroKey_def)

lemma fills_lengths [simp]:
  "fills_buffers m \<Longrightarrow> length (mem_random m i n) = n"
  by (simp add: fills_buffers_def)

lemma fills_updates [simp]:
  "fills_buffers (m\<lparr>mem_heap := h\<rparr>) = fills_buffers m" "fills_buffers (m\<lparr>mem_draws := d\<rparr>) = fills_buffers m"
  by (simp_all add: fills_buffers_def)

lemma cipher_correctE:
  assumes "cipher_correct nb" "length k = 32" "length n = 24"
  obtains c where "nb_encrypt nb k n a p = Inr c" "nb_decrypt nb k n a c = Inr p"
  using assms unfolding cipher_correct_def by blast

lemma deserialize_serialize: "wf_json j \<Longrightarrow> deserializeItemPayload (serializeItemPayload j) = Inr j"
  by (simp add: deserializeItemPayload_def serializeItemPayload_def parse_stringify)

section \<open>An item opens under its own identity only\<close>

lemma encryptItem_ok:
  assumes "cipher_correct nb" "fills_buffers m" "root < length (mem_heap m)" "length (mem_heap m ! root) = 32"
  obtains dek kn cn c w m' where
    "encryptItem nb p root prof it v m =
       (Inr \<lparr>ei_encryptedItemKey = toBase64 (kn @ w), ei_ciphertext = toBase64 (cn @ c)\<rparr>, m')"
    "length dek = 32" "length kn = 24" "length cn = 24"
    "nb_encrypt nb dek cn (buildZkContentAad prof it (orElse v 1)) p = Inr c"
    "nb_encrypt nb (mem_heap m ! root) kn (buildZkDekWrapAad prof it) dek = Inr w"
    "mem_heap m' = mem_heap m @ [replicate 32 0]" "fills_buffers m'"
proof -
  let ?dek = "mem_random m (mem_draws m) 32" and ?cn = "mem_random m (Suc (mem_draws m)) 24"
    and ?kn = "mem_random m (Suc (Suc (mem_draws m))) 24"
  have len: "length ?dek = 32" "length ?cn = 24" "length ?kn = 24" using assms(2) by simp_all
  obtain c where c: "nb_encrypt nb ?dek ?cn (buildZkContentAad prof it (orElse v 1)) p = Inr c"
    using cipher_correctE [OF assms(1) len(1,2)] by metis
  obtain w where w: "nb_encrypt nb (mem_heap m ! root) ?kn (buildZkDekWrapAad prof it) ?dek = Inr w"
    using cipher_correctE [OF assms(1,4) len(3)] by metis
  from c w assms(2,3) len show thesis
    by (intro that [of ?kn w ?cn c "m\<lparr>mem_draws := mem_draws m + 3, mem_heap := mem_heap m @ [replicate 32 0]\<rparr>" ?dek])
      (simp_all add: encryptItem_def NONCE_LEN_def andThen_assoc nth_append succeed_def)
qed

lemma decryptItem_run:
  assumes "length kn = 24" "length cn = 24"
  shows "fst (decryptItem nb \<lparr>ei_encryptedItemKey = toBase64 (kn @ w), ei_ciphertext = toBase64 (cn @ c)\<rparr> root prof it v m) =
     (case nb_decrypt nb (mem_heap m ! root) kn (buildZkDekWrapAad prof it) w of
        Inl e \<Rightarrow> Inl e
      | Inr dek \<Rightarrow> nb_decrypt nb dek cn (buildZkContentAad prof it (orElse v 1)) c)"
  using assms
  by (auto simp: decryptItem_def unwrap_dek_def NONCE_LEN_def andThen_assoc nth_append succeed_def andThen_def lift_err_def deref_def
      followed_by_def zeroKey_def split: sum.splits)

definition zk_id_ok :: "string \<Rightarrow> string \<Rightarrow> int option \<Rightarrow> bool" where
  "zk_id_ok prof it v \<longleftrightarrow> nul_free prof \<and> nul_free it \<and> u32_range (orElse v 1)"

text \<open>C17: an item encrypted under a root key is decrypted by whoever holds that key and names the profile, the
  item and the content version it was encrypted for, and then yields the payload unchanged; under any other
  profile, item or version decryption fails. Encryption leaves no trace of the item's data key in memory. The
  identifiers contain no terminator byte and the versions fit their field.\<close>

theorem zk_item_opens_under_its_identity:
  assumes "cipher_correct nb" "cipher_binding nb" "fills_buffers m"
    and "root < length (mem_heap m)" "length (mem_heap m ! root) = 32"
    and "zk_id_ok prof it v" "zk_id_ok prof' it' v'" and "mem_heap n ! r = mem_heap m ! root"
  shows "\<exists>item m'. encryptItem nb (serializeItemPayload p) root prof it v m = (Inr item, m') \<and>
     mem_heap m' = mem_heap m @ [replicate 32 0] \<and>
     (if prof' = prof \<and> it' = it \<and> orElse v' 1 = orElse v 1
      then fst (decryptItem nb item r prof' it' v' n) = Inr (serializeItemPayload p)
      else isl (fst (decryptItem nb item r prof' it' v' n)))"
  using assms(1,3-5)
proof (rule encryptItem_ok [where p = "serializeItemPayload p" and prof = prof and it = it and v = v], goal_cases)
  case (1 dek kn cn c w m')
  note run = decryptItem_run [OF 1(3,4), where m = n and root = r, unfolded assms(8)]
  have dek: "nb_decrypt nb (mem_heap m ! root) kn (buildZkDekWrapAad prof it) w = Inr dek"
    using cipher_correctE [OF assms(1,5) 1(3)] 1(6) by (metis Inr_inject)
  have content: "nb_decrypt nb dek cn (buildZkContentAad prof it (orElse v 1)) c = Inr (serializeItemPayload p)"
    using cipher_correctE [OF assms(1) 1(2,4)] 1(5) by (metis Inr_inject)
  have other: "isl (nb_decrypt nb (mem_heap m ! root) kn (buildZkDekWrapAad prof' it') w)" if "\<not> (prof' = prof \<and> it' = it)"
    using that assms(2,6,7) 1(6) buildZkDekWrapAad_eqD unfolding cipher_binding_def zk_id_ok_def by metis
  have version: "isl (nb_decrypt nb dek cn (buildZkContentAad prof it (orElse v' 1)) c)" if "orElse v' 1 \<noteq> orElse v 1"
    using that assms(2,6,7) 1(5) buildZkContentAad_eqD unfolding cipher_binding_def zk_id_ok_def by metis
  have "if prof' = prof \<and> it' = it \<and> orElse v' 1 = orElse v 1
      then fst (decryptItem nb \<lparr>ei_encryptedItemKey = toBase64 (kn @ w), ei_ciphertext = toBase64 (cn @ c)\<rparr> r prof' it' v' n) =
        Inr (serializeItemPayload p)
      else isl (fst (decryptItem nb \<lparr>ei_encryptedItemKey = toBase64 (kn @ w), ei_ciphertext = toBase64 (cn @ c)\<rparr> r prof' it' v' n))"
  proof (cases "prof' = prof \<and> it' = it")
    case True
    then show ?thesis using dek content version unfolding run by auto
  next
    case False
    with other show ?thesis unfolding run by (auto simp: isl_def)
  qed
  with 1(1,7) show ?case by blast
qed

text \<open>Rotation: a data key rewrapped under a new root key opens the unchanged content.\<close>

lemma rekeyItem_ok:
  assumes "cipher_correct nb" "fills_buffers m" "length (mem_heap m ! new) = 32" "new < length (mem_heap m)"
    and "length kn = 24" "nb_decrypt nb (mem_heap m ! old) kn (buildZkDekWrapAad prof it) w = Inr dek"
  obtains kn' w' m' where
    "rekeyItem nb (toBase64 (kn @ w)) old new prof it m = (Inr (toBase64 (kn' @ w')), m')"
    "length kn' = 24" "nb_decrypt nb (mem_heap m ! new) kn' (buildZkDekWrapAad prof it) w' = Inr dek"
    "mem_heap m' = mem_heap m @ [replicate (length dek) 0]"
proof -
  let ?kn = "mem_random m (mem_draws m) 24"
  have "length ?kn = 24" using assms(2) by simp
  from cipher_correctE [OF assms(1,3) this] obtain w' where w': "nb_encrypt nb (mem_heap m ! new) ?kn (buildZkDekWrapAad prof it) dek = Inr w'"
    "nb_decrypt nb (mem_heap m ! new) ?kn (buildZkDekWrapAad prof it) w' = Inr dek" by blast
  have "rekeyItem nb (toBase64 (kn @ w)) old new prof it m = (Inr (toBase64 (?kn @ w')),
      m\<lparr>mem_heap := mem_heap m @ [replicate (length dek) 0], mem_draws := Suc (mem_draws m)\<rparr>)"
    using assms(4-6) w'(1) by (simp add: rekeyItem_def unwrap_dek_def NONCE_LEN_def andThen_assoc nth_append succeed_def)
  from that [OF this \<open>length ?kn = 24\<close> w'(2)] show thesis by simp
qed

section \<open>Root keys and recovery\<close>

lemma wrapRootKey_ok:
  assumes "cipher_correct nb" "fills_buffers m" "length (mem_heap m ! kek) = 32"
  obtains n c where "wrapRootKey nb root kek prof v m = (Inr (toBase64 (n @ c)), m\<lparr>mem_draws := Suc (mem_draws m)\<rparr>)"
    "length n = 24" "nb_encrypt nb (mem_heap m ! kek) n (buildZkRootWrapAad prof v) (mem_heap m ! root) = Inr c"
    "nb_decrypt nb (mem_heap m ! kek) n (buildZkRootWrapAad prof v) c = Inr (mem_heap m ! root)"
proof -
  let ?n = "mem_random m (mem_draws m) 24"
  have n: "length ?n = 24" using assms(2) by simp
  from cipher_correctE [OF assms(1,3) n] obtain c where c: "nb_encrypt nb (mem_heap m ! kek) ?n (buildZkRootWrapAad prof v) (mem_heap m ! root) = Inr c"
    "nb_decrypt nb (mem_heap m ! kek) ?n (buildZkRootWrapAad prof v) c = Inr (mem_heap m ! root)" by blast
  then have "wrapRootKey nb root kek prof v m = (Inr (toBase64 (?n @ c)), m\<lparr>mem_draws := Suc (mem_draws m)\<rparr>)"
    by (simp add: wrapRootKey_def NONCE_LEN_def succeed_def)
  then show thesis using n c by (rule that)
qed

lemma unwrapRootKey_run:
  "length n = 24 \<Longrightarrow> unwrapRootKey nb (toBase64 (n @ c)) kek prof v m =
     (case nb_decrypt nb (mem_heap m ! kek) n (buildZkRootWrapAad prof v) c of
        Inl e \<Rightarrow> (Inl e, m) | Inr root \<Rightarrow> (Inr (length (mem_heap m)), m\<lparr>mem_heap := mem_heap m @ [root]\<rparr>))"
  by (auto simp: unwrapRootKey_def NONCE_LEN_def split: sum.splits)

text \<open>C18: the recovery key shown once, a base32 text with dashes, recovers the very root key it was made
  for, from the wrapped root key stored beside it, when the profile and the key version are the ones it was made
  under; under another profile or key version recovery fails.\<close>

theorem recovery_key_recovers_the_root_key:
  assumes "cipher_correct nb" "cipher_binding nb" "upper_fixes up" "fills_buffers m" "root < length (mem_heap m)"
    and "zk_id_ok prof [] (Some v)" "zk_id_ok prof' [] (Some v')"
  shows "\<exists>key wrapped m'. generateRecoveryKey nb root prof v m = (Inr (key, wrapped), m') \<and>
     (if prof' = prof \<and> v' = v
      then recoverRootKey nb up key wrapped prof' v' n =
         (Inr (Suc (length (mem_heap n))), n\<lparr>mem_heap := mem_heap n @ [mem_random m (mem_draws m) 32, mem_heap m ! root]\<rparr>)
      else isl (fst (recoverRootKey nb up key wrapped prof' v' n)))"
proof -
  let ?r = "mem_random m (mem_draws m) 32" and ?a = "length (mem_heap m)"
  let ?m = "m\<lparr>mem_draws := Suc (mem_draws m), mem_heap := mem_heap m @ [?r]\<rparr>"
  have "length (mem_heap ?m ! ?a) = 32" using assms(4) by simp
  moreover have "fills_buffers ?m" using assms(4) by simp
  ultimately obtain k c where w: "wrapRootKey nb root ?a prof v ?m = (Inr (toBase64 (k @ c)), ?m\<lparr>mem_draws := Suc (Suc (mem_draws m))\<rparr>)"
    "length k = 24" "nb_encrypt nb ?r k (buildZkRootWrapAad prof v) (mem_heap m ! root) = Inr c"
    "nb_decrypt nb ?r k (buildZkRootWrapAad prof v) c = Inr (mem_heap m ! root)"
    using wrapRootKey_ok [OF assms(1), of ?m ?a root prof v] assms(5) by (auto simp: nth_append)
  have gen: "generateRecoveryKey nb root prof v m = (Inr (formatRecoveryKey (toBase32 ?r), toBase64 (k @ c)), ?m\<lparr>mem_draws := Suc (Suc (mem_draws m))\<rparr>)"
    using w(1) by (simp add: generateRecoveryKey_def andThen_def succeed_def deref_def)
  have run: "recoverRootKey nb up (formatRecoveryKey (toBase32 ?r)) (toBase64 (k @ c)) prof' v' n =
      (case nb_decrypt nb ?r k (buildZkRootWrapAad prof' v') c of Inl e \<Rightarrow> (Inl e, n\<lparr>mem_heap := mem_heap n @ [?r]\<rparr>)
       | Inr root \<Rightarrow> (Inr (Suc (length (mem_heap n))), n\<lparr>mem_heap := mem_heap n @ [?r, root]\<rparr>))"
    using w(2) assms(3) by (auto simp: recoverRootKey_def recovery_key_text unwrapRootKey_run split: sum.splits)
  have "isl (nb_decrypt nb ?r k (buildZkRootWrapAad prof' v') c)" if "\<not> (prof' = prof \<and> v' = v)"
    using that assms(2,6,7) w(3) buildZkRootWrapAad_eqD unfolding cipher_binding_def zk_id_ok_def by (metis orElse_simps(2))
  with gen run w(4) show ?thesis by (auto simp: isl_def)
qed

section \<open>A toy cipher\<close>

definition toy_noble :: noble where
  "toy_noble = \<lparr>nb_encrypt = (\<lambda>_ _ aad pt. Inr (toy_header (Some aad) @ pt)),
     nb_decrypt = (\<lambda>_ _ aad ct. case toy_strip (toy_header (Some aad)) ct of None \<Rightarrow> Inl (PlainErr ''invalid tag'') | Some p \<Rightarrow> Inr p),
     nb_argon2id = (\<lambda>pw salt _. Inr (take 32 (pw @ salt @ replicate 32 0)))\<rparr>"

lemma toy_cipher_correct: "cipher_correct toy_noble"
  by (simp add: cipher_correct_def toy_noble_def toy_strip_append)

lemma toy_cipher_binding: "cipher_binding toy_noble"
  unfolding cipher_binding_def toy_noble_def
  by (auto simp: isl_def split: option.split) (metis toy_header_prefix_free option.distinct(1) option.inject)

definition toy_memory :: memory where
  "toy_memory = \<lparr>mem_heap = [replicate 32 7], mem_random = (\<lambda>i n. replicate n (of_nat i)), mem_draws = 0\<rparr>"

lemma toy_memory_facts: "fills_buffers toy_memory" "0 < length (mem_heap toy_memory)" "length (mem_heap toy_memory ! 0) = 32"
  by (simp_all add: toy_memory_def fills_buffers_def)

lemma toy_ids: "zk_id_ok ''p1'' ''i1'' (Some 2)" "zk_id_ok ''p1'' ''i2'' (Some 2)" "zk_id_ok ''p1'' [] (Some 1)"
    "zk_id_ok ''p2'' [] (Some 1)"
  by (simp_all add: zk_id_ok_def nul_free_def NUL_def u32_range_def)

theorem zk_item_opens_under_its_identity_witness:
  "\<exists>item m'. encryptItem toy_noble (serializeItemPayload (JStr ''s'')) 0 ''p1'' ''i1'' (Some 2) toy_memory = (Inr item, m') \<and>
     isl (fst (decryptItem toy_noble item 0 ''p1'' ''i2'' (Some 2) toy_memory))"
  using zk_item_opens_under_its_identity [OF toy_cipher_correct toy_cipher_binding toy_memory_facts toy_ids(1,2),
      of toy_memory 0 "JStr ''s''"] by auto

theorem recovery_key_recovers_the_root_key_witness:
  "\<exists>key wrapped m'. generateRecoveryKey toy_noble 0 ''p1'' 1 toy_memory = (Inr (key, wrapped), m') \<and>
     isl (fst (recoverRootKey toy_noble id key wrapped ''p2'' 1 toy_memory))"
proof -
  have "upper_fixes id" by (simp add: upper_fixes_def)
  from recovery_key_recovers_the_root_key [OF toy_cipher_correct toy_cipher_binding this toy_memory_facts(1,2) toy_ids(3,4),
      of toy_memory] show ?thesis by auto
qed

end
