(* ===== verification/Vault_State.thy ===== *)
theory Vault_State
  imports Zk_Crypto Profiles
begin

text \<open>
  The vault held by the local daemon (\<open>packages/daemon/src/vault-state.ts\<close>): the unlocked root key in a buffer of
  the heap, the metadata it was unwrapped with, and the pending auto-lock timer, given by the instant it is due. Time
  stands still while a method runs.
\<close>

section \<open>State\<close>

record vault_meta =
  vm_id :: string
  vm_wrappedRootKey :: string
  vm_kdfSalt :: string
  vm_keyVersion :: int
  vm_kdfParams :: json

record vault = memory +
  vs_rootKey :: "nat option"
  vs_meta :: "vault_meta option"
  vs_autoLockTimer :: "int option"
  vs_autoLockMs :: int
  vs_now :: int

type_synonym ('z, 'a) vault_method = "('z vault_scheme, err, 'a) eff"

definition locked :: "'z vault_scheme \<Rightarrow> bool" where
  "locked v = (vs_rootKey v = None)"

definition keyVersion :: "'z vault_scheme \<Rightarrow> int" where
  "keyVersion v = (case vs_meta v of None \<Rightarrow> 0 | Some m \<Rightarrow> vm_keyVersion m)"

section \<open>The timer\<close>

definition clearAutoLock :: "'z vault_scheme \<Rightarrow> 'z vault_scheme" where
  "clearAutoLock v = v\<lparr>vs_autoLockTimer := None\<rparr>"

definition resetAutoLock :: "'z vault_scheme \<Rightarrow> 'z vault_scheme" where
  "resetAutoLock v =
     (let v' = clearAutoLock v in
      if vs_autoLockMs v > 0 then v'\<lparr>vs_autoLockTimer := Some (vs_now v + vs_autoLockMs v)\<rparr> else v')"

definition lock :: "'z vault_scheme \<Rightarrow> 'z vault_scheme" where
  "lock v = clearAutoLock (case vs_rootKey v of
      None \<Rightarrow> v
    | Some a \<Rightarrow> v\<lparr>mem_heap := (mem_heap v)[a := replicate (length (mem_heap v ! a)) 0], vs_rootKey := None\<rparr>)"

text \<open>The callback of the timer: it locks and tells the listener, which prints a line.\<close>

definition auto_lock :: "'z vault_scheme \<Rightarrow> 'z vault_scheme" where
  "auto_lock v = lock (v\<lparr>vs_autoLockTimer := None\<rparr>)"

definition resetting :: "'a \<Rightarrow> ('z, 'a) vault_method" where
  "resetting x = (\<lambda>v. (Inr x, resetAutoLock v))"

section \<open>Methods\<close>

definition requireUnlocked :: "('z, nat) vault_method" where
  "requireUnlocked = (\<lambda>v. (case vs_rootKey v of None \<Rightarrow> Inl (PlainErr ''Vault is locked'') | Some a \<Rightarrow> Inr a, v))"

definition unlock :: "noble \<Rightarrow> string \<Rightarrow> vault_meta \<Rightarrow> ('z, unit) vault_method" where
  "unlock nb password meta =
     andThen (lift_err (decode_base64 (vm_kdfSalt meta))) (\<lambda>salt.
     andThen (deriveKEK nb password salt (vm_kdfParams meta)) (\<lambda>kek.
     andThen (unwrapRootKey nb (vm_wrappedRootKey meta) kek (vm_id meta) (vm_keyVersion meta)) (\<lambda>rootKey.
     followed_by (zeroKey kek)
       (\<lambda>v. resetting () (v\<lparr>vs_rootKey := Some rootKey, vs_meta := Some meta\<rparr>)))))"

record rewrapped =
  rw_wrappedRootKey :: string
  rw_kdfSalt :: string
  rw_kdfParams :: json

definition changePassword :: "noble \<Rightarrow> string \<Rightarrow> string \<Rightarrow> vault_meta \<Rightarrow> ('z, rewrapped) vault_method" where
  "changePassword nb oldPassword newPassword meta =
     andThen requireUnlocked (\<lambda>rootKey.
     andThen (lift_err (decode_base64 (vm_kdfSalt meta))) (\<lambda>oldSalt.
     andThen (deriveKEK nb oldPassword oldSalt (vm_kdfParams meta)) (\<lambda>oldKek.
     andThen (unwrapRootKey nb (vm_wrappedRootKey meta) oldKek (vm_id meta) (vm_keyVersion meta)) (\<lambda>verified.
     followed_by (zeroKey oldKek) (followed_by (zeroKey verified)
     (andThen generateSalt (\<lambda>newSalt.
      andThen (deriveKEK nb newPassword newSalt (vm_kdfParams meta)) (\<lambda>newKek.
      andThen (wrapRootKey nb rootKey newKek (vm_id meta) (vm_keyVersion meta)) (\<lambda>newWrapped.
      followed_by (zeroKey newKek)
        (resetting \<lparr>rw_wrappedRootKey = newWrapped, rw_kdfSalt = toBase64 newSalt, rw_kdfParams = vm_kdfParams meta\<rparr>))))))))))"

definition encrypt :: "noble \<Rightarrow> json \<Rightarrow> string \<Rightarrow> string \<Rightarrow> int option \<Rightarrow> ('z, encrypted_item) vault_method" where
  "encrypt nb payload profileId itemId contentVersion =
     andThen requireUnlocked (\<lambda>rootKey.
     andThen (encryptItem nb (serializeItemPayload payload) rootKey profileId itemId contentVersion) resetting)"

definition decrypt :: "noble \<Rightarrow> string \<Rightarrow> string \<Rightarrow> string \<Rightarrow> string \<Rightarrow> int option \<Rightarrow> ('z, json) vault_method" where
  "decrypt nb encryptedItemKey ciphertext profileId itemId contentVersion =
     andThen requireUnlocked (\<lambda>rootKey.
     andThen (decryptItem nb \<lparr>ei_encryptedItemKey = encryptedItemKey, ei_ciphertext = ciphertext\<rparr> rootKey profileId itemId contentVersion) (\<lambda>bytes.
     andThen (lift_err (deserializeItemPayload bytes)) resetting))"

fun map_eff :: "('a \<Rightarrow> ('w, 'e, 'b) eff) \<Rightarrow> 'a list \<Rightarrow> ('w, 'e, 'b list) eff" where
  "map_eff f [] = succeed []"
| "map_eff f (x # xs) = andThen (f x) (\<lambda>y. andThen (map_eff f xs) (\<lambda>ys. succeed (y # ys)))"

definition rekey :: "noble \<Rightarrow> (string \<times> string) list \<Rightarrow> nat \<Rightarrow> string \<Rightarrow> ('z, (string \<times> string) list) vault_method" where
  "rekey nb items oldRootKey profileId =
     andThen requireUnlocked (\<lambda>rootKey.
     andThen (map_eff (\<lambda>(i, k). andThen (rekeyItem nb k oldRootKey rootKey profileId i) (\<lambda>k'. succeed (i, k'))) items) resetting)"

definition destroy :: "'z vault_scheme \<Rightarrow> 'z vault_scheme" where
  "destroy v = lock v"

end
