(* ===== verification/Daemon.thy ===== *)
theory Daemon
  imports Vault_State Secret_Delivery
begin

text \<open>
  The local daemon (\<open>packages/daemon/src/server.ts\<close>, \<open>api.ts\<close>, \<open>identity.ts\<close>, \<open>error-kind.ts\<close>, \<open>types.ts\<close>): its JSON-RPC
  handlers over the vault, the operator's session, the files it mounted and the processes it spawned. A handler that waits for the
  API or for a process is split where it waits: it answers, or it leaves a call and what remains to be done, so that other
  requests, the clock and the timer can come in between (\<open>Daemon_Run\<close>). Requests are those of the client library: a
  parameter has the type the handler casts it to, or is missing. The operating system, the
  ciphers and the upper-case mapping are the parameter \<open>runtime\<close>.
\<close>

section \<open>State\<close>

record daemon_auth =
  da_token :: string
  da_expiresAt :: int
  da_organizationId :: "string option"

record child =
  ch_argv :: "string list"
  ch_env :: "string \<rightharpoonup> string"

record host = vault +
  dm_auth :: "daemon_auth option"
  dm_mounted :: "string list"
  dm_files :: "string \<rightharpoonup> string"
  dm_children :: "child list"

text \<open>What a handler throws: an object with a code and a message, or an error of the language.\<close>

datatype rpc_err = Rpc int string | Thrown err

type_synonym 'a daemon = "(host, rpc_err, 'a) eff"

record daemon_identity =
  di_publicKey :: string
  di_sessionStartMs :: int
  di_fingerprint :: string

record runtime =
  rt_noble :: noble
  rt_identity :: daemon_identity
  rt_sign :: "string \<Rightarrow> err + string"
  rt_dateMs :: "string \<Rightarrow> int option"
  rt_toISO :: "int \<Rightarrow> string"
  rt_toUpperCase :: "string \<Rightarrow> string"
  rt_environ :: "(string \<times> string) list"
  rt_spawn :: "string list \<Rightarrow> err option"
  rt_tmpdir :: string
  rt_resolve :: "string \<Rightarrow> string"
  rt_join :: "string \<Rightarrow> string \<Rightarrow> string"
  rt_write :: "string \<Rightarrow> string \<Rightarrow> err option"
  rt_rm :: "string \<Rightarrow> bool"
  rt_errCode :: "err \<Rightarrow> json option"

definition INVALID_PARAMS :: int where "INVALID_PARAMS = -32602"
definition METHOD_NOT_FOUND :: int where "METHOD_NOT_FOUND = -32601"
definition INVALID_REQUEST :: int where "INVALID_REQUEST = -32600"
definition PARSE_ERROR :: int where "PARSE_ERROR = -32700"
definition INTERNAL_ERROR :: int where "INTERNAL_ERROR = -32603"
definition VAULT_LOCKED :: int where "VAULT_LOCKED = -32000"
definition VAULT_ALREADY_UNLOCKED :: int where "VAULT_ALREADY_UNLOCKED = -32001"
definition WRONG_PASSWORD :: int where "WRONG_PASSWORD = -32002"
definition VAULT_NOT_FOUND :: int where "VAULT_NOT_FOUND = -32003"
definition AUTH_REQUIRED :: int where "AUTH_REQUIRED = -32004"

definition MAX_AUTH_SESSION_MS :: int where
  "MAX_AUTH_SESSION_MS = 24 * 60 * 60 * 1000"

definition BULK_ITEMS_MAX :: nat where
  "BULK_ITEMS_MAX = 256"

section \<open>Parameters\<close>

definition str_param :: "string \<Rightarrow> json_object \<Rightarrow> string option" where
  "str_param k ps = (case map_of ps k of Some (JStr s) \<Rightarrow> Some s | _ \<Rightarrow> None)"

definition num_param :: "string \<Rightarrow> json_object \<Rightarrow> int option" where
  "num_param k ps = (case map_of ps k of Some (JNum n) \<Rightarrow> Some n | _ \<Rightarrow> None)"

definition strs_param :: "string \<Rightarrow> json_object \<Rightarrow> string list" where
  "strs_param k ps = (case map_of ps k of Some j \<Rightarrow> orElse (as_strings j) [] | None \<Rightarrow> [])"

definition invalid :: "string \<Rightarrow> 'a daemon" where
  "invalid msg = fail_with (Rpc INVALID_PARAMS msg)"

text \<open>What the code throws as an error object.\<close>

definition throwing :: "(host, err, 'a) eff \<Rightarrow> 'a daemon" where
  "throwing m = (\<lambda>h. case m h of (Inl e, h') \<Rightarrow> (Inl (Thrown e), h') | (Inr x, h') \<Rightarrow> (Inr x, h'))"

definition require_unlocked :: "unit daemon" where
  "require_unlocked = (\<lambda>h. (if locked h then Inl (Rpc VAULT_LOCKED ''Vault is locked'') else Inr (), h))"

section \<open>The operator's session\<close>

definition isAuthExpired :: "int \<Rightarrow> daemon_auth \<Rightarrow> bool" where
  "isAuthExpired now auth = (da_expiresAt auth \<le> now)"

definition live_auth :: "host \<Rightarrow> daemon_auth option" where
  "live_auth h = (case dm_auth h of None \<Rightarrow> None | Some a \<Rightarrow> if isAuthExpired (vs_now h) a then None else Some a)"

definition authStatus :: "runtime \<Rightarrow> host \<Rightarrow> json" where
  "authStatus rt h = (case live_auth h of
      None \<Rightarrow> JObj [(''authenticated'', JBool False), (''type'', JNull), (''expiresAt'', JNull)]
    | Some a \<Rightarrow> JObj [(''authenticated'', JBool True), (''type'', JStr ''better_auth_session''),
        (''expiresAt'', JStr (rt_toISO rt (da_expiresAt a)))])"

definition not_logged_in :: rpc_err where
  "not_logged_in = Rpc AUTH_REQUIRED ''Not logged in. Run `abadge login` first.''"

text \<open>The headers are determined by the session they carry.\<close>

definition buildAuthHeaders :: "daemon_auth daemon" where
  "buildAuthHeaders = (\<lambda>h. (case live_auth h of None \<Rightarrow> Inl not_logged_in | Some a \<Rightarrow> Inr a, h))"

definition auth_headers_json :: "runtime \<Rightarrow> daemon_auth \<Rightarrow> json" where
  "auth_headers_json rt a = JObj [(''type'', JStr ''better_auth_session''), (''expiresAt'', JStr (rt_toISO rt (da_expiresAt a))),
     (''headers'', JObj [(''Authorization'', JStr (''Bearer '' @ da_token a))])]"

definition resolveAuthExpiry :: "runtime \<Rightarrow> string option \<Rightarrow> int daemon" where
  "resolveAuthExpiry rt expiresAt = (\<lambda>h.
     let capped = vs_now h + MAX_AUTH_SESSION_MS;
         requested = (if truthy expiresAt then rt_dateMs rt (the expiresAt) else Some capped) in
     case requested of
       None \<Rightarrow> (Inl (Rpc INVALID_PARAMS ''expiresAt must be a future ISO timestamp''), h)
     | Some t \<Rightarrow> if t \<le> vs_now h then (Inl (Rpc INVALID_PARAMS ''expiresAt must be a future ISO timestamp''), h)
         else (Inr (min t capped), h))"

definition org_param :: "json_object \<Rightarrow> string option" where
  "org_param ps = (if truthy (str_param ''organizationId'' ps) then str_param ''organizationId'' ps else None)"

definition setSession :: "runtime \<Rightarrow> json_object \<Rightarrow> json daemon" where
  "setSession rt ps =
     (if falsy (str_param ''token'' ps) \<or> str_param ''type'' ps \<noteq> Some ''better_auth_session''
      then invalid ''token and type are required''
      else andThen (resolveAuthExpiry rt (str_param ''expiresAt'' ps)) (\<lambda>expires h.
        let h' = h\<lparr>dm_auth := Some \<lparr>da_token = the (str_param ''token'' ps), da_expiresAt = expires, da_organizationId = org_param ps\<rparr>\<rparr> in
        (Inr (authStatus rt h'), h')))"

definition setOrg :: "runtime \<Rightarrow> json_object \<Rightarrow> json daemon" where
  "setOrg rt ps = (\<lambda>h. case live_auth h of
      None \<Rightarrow> (Inl not_logged_in, h)
    | Some a \<Rightarrow> let h' = h\<lparr>dm_auth := Some (a\<lparr>da_organizationId := org_param ps\<rparr>)\<rparr> in (Inr (authStatus rt h'), h'))"

definition clearSession :: "runtime \<Rightarrow> json daemon" where
  "clearSession rt = (\<lambda>h. let h' = h\<lparr>dm_auth := None\<rparr> in (Inr (authStatus rt h'), h'))"

definition identitySign :: "runtime \<Rightarrow> json_object \<Rightarrow> json daemon" where
  "identitySign rt ps = (case str_param ''nonce'' ps of
      None \<Rightarrow> invalid ''nonce is required''
    | Some nonce \<Rightarrow> if nonce = [] then invalid ''nonce is required''
        else if js_length nonce > 512 then invalid ''nonce must be 1..512 chars''
        else (\<lambda>h. case rt_sign rt (nonce @ ''|'' @ decimal_int (di_sessionStartMs (rt_identity rt))) of
            Inl e \<Rightarrow> (Inl (Thrown e), h)
          | Inr s \<Rightarrow> (Inr (JObj [(''signature'', JStr s), (''publicKey'', JStr (di_publicKey (rt_identity rt))),
              (''sessionStartMs'', JNum (di_sessionStartMs (rt_identity rt)))]), h)))"

section \<open>Calls that are waited for\<close>

record norm_error =
  ne_httpStatus :: "nat option"
  ne_code :: string
  ne_message :: string

datatype api_call =
    Get_profile daemon_auth string "string option"
  | Put_password daemon_auth string rewrapped "string option"
  | Wait_exit

datatype waiting =
    Unlocking string
  | Changing string string string
  | Uploading
  | Running

datatype outcome = Answer json | Await api_call waiting

datatype api_reply =
    Profile_reply "norm_error + profile_view"
  | Password_reply "norm_error + unit"
  | Exit_reply int "string option"

definition fetchVaultMeta :: "norm_error + profile_view \<Rightarrow> rpc_err + vault_meta option" where
  "fetchVaultMeta reply = (case reply of
      Inr p \<Rightarrow> if falsy (pv_wrappedRootKey p) \<or> falsy (pv_kdfSalt p) \<or> pv_kdfParams p = None then Inr None
        else Inr (Some \<lparr>vm_id = pv_id p, vm_wrappedRootKey = the (pv_wrappedRootKey p), vm_kdfSalt = the (pv_kdfSalt p),
               vm_keyVersion = pv_keyVersion p, vm_kdfParams = the (pv_kdfParams p)\<rparr>)
    | Inl e \<Rightarrow> if ne_httpStatus e = Some 404 \<or> ne_code e = ''PROFILE_NOT_FOUND'' then Inr None
        else Inl (Thrown (PlainErr (if ne_message e \<noteq> [] then ne_message e else ''Failed to fetch profile metadata''))))"

definition updateVaultPassword :: "norm_error + unit \<Rightarrow> rpc_err + unit" where
  "updateVaultPassword reply = (case reply of
      Inr _ \<Rightarrow> Inr ()
    | Inl e \<Rightarrow> Inl (Thrown (PlainErr (if ne_message e \<noteq> [] then ne_message e else ''Failed to update profile password''))))"

fun text_includes :: "string \<Rightarrow> string \<Rightarrow> bool" where
  "text_includes sub [] = (sub = [])"
| "text_includes sub (c # s) = (take (length sub) (c # s) = sub \<or> text_includes sub s)"

fun err_message :: "err \<Rightarrow> string" where
  "err_message (PlainErr m) = m"
| "err_message (DbErr c) = c"
| "err_message (DomainErr _ c _) = c"

text \<open>A failed unwrap is told from other failures by the words of its message.\<close>

definition unwrap_failure :: "string \<Rightarrow> string \<Rightarrow> err \<Rightarrow> rpc_err" where
  "unwrap_failure wrong other e = (let msg = err_message e in
     if text_includes ''tag'' msg \<or> text_includes ''decrypt'' msg \<or> text_includes ''auth'' msg then Rpc WRONG_PASSWORD wrong
     else Rpc INTERNAL_ERROR (other @ msg))"

definition rethrowing :: "(err \<Rightarrow> rpc_err) \<Rightarrow> (host, err, 'a) eff \<Rightarrow> 'a daemon" where
  "rethrowing f m = (\<lambda>h. case m h of (Inl e, h') \<Rightarrow> (Inl (f e), h') | (Inr x, h') \<Rightarrow> (Inr x, h'))"

definition ok_answer :: "json_object \<Rightarrow> outcome daemon" where
  "ok_answer extra = succeed (Answer (JObj ((''ok'', JBool True) # extra)))"

definition answering :: "json daemon \<Rightarrow> outcome daemon" where
  "answering m = andThen m (\<lambda>j. succeed (Answer j))"

section \<open>The vault\<close>

definition fetch_meta :: "string \<Rightarrow> waiting \<Rightarrow> outcome daemon" where
  "fetch_meta profileId k = andThen buildAuthHeaders (\<lambda>a. succeed (Await (Get_profile a profileId (da_organizationId a)) k))"

definition vaultUnlock :: "json_object \<Rightarrow> outcome daemon" where
  "vaultUnlock ps =
     (if falsy (str_param ''masterPassword'' ps) then invalid ''masterPassword is required''
      else if falsy (str_param ''profileId'' ps) then invalid ''profileId is required''
      else (\<lambda>h. if \<not> locked h then (Inl (Rpc VAULT_ALREADY_UNLOCKED ''Vault is already unlocked''), h)
        else fetch_meta (the (str_param ''profileId'' ps)) (Unlocking (the (str_param ''masterPassword'' ps))) h))"

definition finish_unlock :: "runtime \<Rightarrow> string \<Rightarrow> norm_error + profile_view \<Rightarrow> outcome daemon" where
  "finish_unlock rt password reply = (case fetchVaultMeta reply of
      Inl e \<Rightarrow> fail_with e
    | Inr None \<Rightarrow> fail_with (Rpc VAULT_NOT_FOUND (''Vault not found '' @ [CHR 0xE2, CHR 0x80, CHR 0x94] @ '' bootstrap first''))
    | Inr (Some meta) \<Rightarrow>
        followed_by (rethrowing (unwrap_failure ''Wrong master password'' ''Unlock failed: '') (unlock (rt_noble rt) password meta))
          (\<lambda>h. ok_answer [(''keyVersion'', JNum (keyVersion h))] h))"

definition vaultLock :: "outcome daemon" where
  "vaultLock = (\<lambda>h. ok_answer [] (lock h))"

definition vaultStatus :: "outcome daemon" where
  "vaultStatus = (\<lambda>h. (Inr (Answer (JObj [(''locked'', JBool (locked h)), (''keyVersion'', JNum (keyVersion h))])), h))"

definition vaultChangePassword :: "json_object \<Rightarrow> outcome daemon" where
  "vaultChangePassword ps =
     (if falsy (str_param ''oldPassword'' ps) \<or> falsy (str_param ''newPassword'' ps) then invalid ''oldPassword and newPassword are required''
      else if falsy (str_param ''profileId'' ps) then invalid ''profileId is required''
      else followed_by require_unlocked
        (fetch_meta (the (str_param ''profileId'' ps))
          (Changing (the (str_param ''oldPassword'' ps)) (the (str_param ''newPassword'' ps)) (the (str_param ''profileId'' ps)))))"

definition finish_change :: "runtime \<Rightarrow> string \<Rightarrow> string \<Rightarrow> string \<Rightarrow> norm_error + profile_view \<Rightarrow> outcome daemon" where
  "finish_change rt oldPassword newPassword profileId reply = (case fetchVaultMeta reply of
      Inl e \<Rightarrow> fail_with e
    | Inr None \<Rightarrow> fail_with (Rpc VAULT_NOT_FOUND ''Vault not found'')
    | Inr (Some meta) \<Rightarrow>
        andThen (rethrowing (unwrap_failure ''Wrong old password'' ''Password change failed: '')
          (changePassword (rt_noble rt) oldPassword newPassword meta)) (\<lambda>result.
        andThen buildAuthHeaders (\<lambda>a. succeed (Await (Put_password a profileId result (da_organizationId a)) Uploading))))"

definition finish_upload :: "norm_error + unit \<Rightarrow> outcome daemon" where
  "finish_upload reply = (case updateVaultPassword reply of Inl e \<Rightarrow> fail_with e | Inr _ \<Rightarrow> ok_answer [])"

section \<open>Items\<close>

definition itemEncrypt :: "runtime \<Rightarrow> json_object \<Rightarrow> outcome daemon" where
  "itemEncrypt rt ps = (case map_of ps ''payload'' of
      None \<Rightarrow> invalid ''payload is required''
    | Some payload \<Rightarrow>
        if falsy (str_param ''profileId'' ps) \<or> falsy (str_param ''itemId'' ps) then invalid ''profileId and itemId are required''
        else followed_by require_unlocked
          (andThen (throwing (encrypt (rt_noble rt) payload (the (str_param ''profileId'' ps)) (the (str_param ''itemId'' ps))
             (num_param ''contentVersion'' ps))) (\<lambda>r.
           succeed (Answer (JObj [(''encryptedItemKey'', JStr (ei_encryptedItemKey r)), (''ciphertext'', JStr (ei_ciphertext r))])))))"

text \<open>What \<open>Object.entries(payload?.fields ?? \<cdot>)\<close> and \<open>payload?.kind\<close> read off an unvalidated payload. A kind that is
  set but unknown makes the lookup of its standard fields fail.\<close>

definition indexed :: "json list \<Rightarrow> json_object" where
  "indexed js = zip (map (\<lambda>i. decimal i) [0..<length js]) js"

definition loose_payload :: "json \<Rightarrow> item_payload" where
  "loose_payload j = \<lparr>pl_v = None, pl_label = None,
     pl_kind = (case property ''kind'' j of Some (JStr k) \<Rightarrow> kind_of_name k | _ \<Rightarrow> None), pl_tags = None, pl_notes = None,
     pl_fields = (case property ''fields'' j of Some (JObj ob) \<Rightarrow> ob | Some (JArr js) \<Rightarrow> indexed js
        | Some (JStr s) \<Rightarrow> indexed (map (\<lambda>c. JStr [c]) s) | _ \<Rightarrow> [])\<rparr>"

fun js_truthy :: "json \<Rightarrow> bool" where
  "js_truthy JNull = False"
| "js_truthy (JBool b) = b"
| "js_truthy (JNum n) = (n \<noteq> 0)"
| "js_truthy (JStr s) = (s \<noteq> [])"
| "js_truthy _ = True"

definition unknown_kind :: "json \<Rightarrow> bool" where
  "unknown_kind j = (case property ''kind'' j of None \<Rightarrow> False | Some k \<Rightarrow>
     js_truthy k \<and> (case k of JStr s \<Rightarrow> kind_of_name s = None | _ \<Rightarrow> True))"

definition select_fields :: "json \<Rightarrow> err + string list" where
  "select_fields j = (if unknown_kind j then Inl (PlainErr ''TypeError'') else expandFieldSelection (loose_payload j) [])"

definition resolve_field :: "json \<Rightarrow> string option \<Rightarrow> err + string" where
  "resolve_field j field = (if falsy field \<and> unknown_kind j then Inl (PlainErr ''TypeError'') else resolveFieldValue (loose_payload j) field)"

definition itemDecrypt :: "runtime \<Rightarrow> json_object \<Rightarrow> outcome daemon" where
  "itemDecrypt rt ps =
     (if falsy (str_param ''encryptedItemKey'' ps) \<or> falsy (str_param ''ciphertext'' ps)
      then invalid ''encryptedItemKey and ciphertext are required''
      else if falsy (str_param ''profileId'' ps) \<or> falsy (str_param ''itemId'' ps) then invalid ''profileId and itemId are required''
      else followed_by require_unlocked
        (andThen (throwing (decrypt (rt_noble rt) (the (str_param ''encryptedItemKey'' ps)) (the (str_param ''ciphertext'' ps))
           (the (str_param ''profileId'' ps)) (the (str_param ''itemId'' ps)) (num_param ''contentVersion'' ps))) (\<lambda>payload.
         if map_of ps ''field'' = None then succeed (Answer (JObj [(''payload'', payload)]))
         else andThen (throwing (lift_err (resolve_field payload (str_param ''field'' ps)))) (\<lambda>value.
           succeed (Answer (JObj [(''payload'', JStr value)]))))))"

definition zeroing :: "nat \<Rightarrow> unit daemon" where
  "zeroing a = throwing (zeroKey a)"

fun rekey_entry :: "json \<Rightarrow> string \<times> string" where
  "rekey_entry (JObj ob) = (orElse (str_param ''id'' ob) [], orElse (str_param ''encryptedItemKey'' ob) [])"
| "rekey_entry _ = ([], [])"

definition itemRekey :: "runtime \<Rightarrow> json_object \<Rightarrow> outcome daemon" where
  "itemRekey rt ps = (case map_of ps ''items'' of
      Some (JArr items) \<Rightarrow>
        if falsy (str_param ''oldRootKey'' ps) then invalid ''items and oldRootKey are required''
        else if falsy (str_param ''profileId'' ps) then invalid ''profileId is required''
        else followed_by require_unlocked
          (andThen (throwing (andThen (lift_err (decode_base64 (the (str_param ''oldRootKey'' ps)))) alloc)) (\<lambda>oldRootKey.
           andThen (throwing (rekey (rt_noble rt) (map rekey_entry items) oldRootKey (the (str_param ''profileId'' ps)))) (\<lambda>results.
           followed_by (zeroing oldRootKey)
             (succeed (Answer (JArr (map (\<lambda>(i, k). JObj [(''id'', JStr i), (''newEncryptedItemKey'', JStr k)]) results)))))))
    | _ \<Rightarrow> invalid ''items and oldRootKey are required'')"

section \<open>Processes and files\<close>

definition validateEnvKey :: "string \<Rightarrow> unit daemon" where
  "validateEnvKey key =
     (if \<not> ENV_VAR_NAME_PATTERN key then invalid (''Invalid env key: '' @ quote key @ ''. Must match [A-Z_][A-Z0-9_]*.'')
      else if key \<in> set RESERVED_ENV_KEYS then invalid (''Refusing to inject reserved env var: '' @ key)
      else succeed ())"

definition buildChildEnv :: "(string \<times> string) list \<Rightarrow> string \<rightharpoonup> string" where
  "buildChildEnv environ = map_of (filter (\<lambda>(k, v). take 7 k \<noteq> ''ABADGE_'') environ)"

text \<open>The process is started at once; the handler then waits for its end.\<close>

definition spawn :: "runtime \<Rightarrow> json_object \<Rightarrow> (string \<times> string) list \<Rightarrow> outcome daemon" where
  "spawn rt ps extra = (\<lambda>h.
     let argv = the (str_param ''command'' ps) # strs_param ''args'' ps in
     case rt_spawn rt argv of
       Some e \<Rightarrow> (Inl (Thrown e), h)
     | None \<Rightarrow> (Inr (Await Wait_exit Running),
         h\<lparr>dm_children := dm_children h @ [\<lparr>ch_argv = argv, ch_env = buildChildEnv (rt_environ rt) ++ map_of extra\<rparr>]\<rparr>))"

definition gated :: "outcome daemon \<Rightarrow> outcome daemon" where
  "gated body = followed_by buildAuthHeaders (followed_by require_unlocked body)"

definition finish_exec :: "int \<Rightarrow> string option \<Rightarrow> outcome daemon" where
  "finish_exec exitCode signal = succeed (Answer (JObj ((''exitCode'', JNum exitCode) #
     (case signal of None \<Rightarrow> [] | Some s \<Rightarrow> [(''signal'', JStr s)]))))"

definition execEnv :: "runtime \<Rightarrow> json_object \<Rightarrow> outcome daemon" where
  "execEnv rt ps = gated
     (if falsy (str_param ''secretValue'' ps) \<or> falsy (str_param ''envVar'' ps) \<or> falsy (str_param ''command'' ps)
      then invalid ''secretValue, envVar, and command are required''
      else followed_by (validateEnvKey (the (str_param ''envVar'' ps)))
        (spawn rt ps [(the (str_param ''envVar'' ps), the (str_param ''secretValue'' ps))]))"

definition expand_payload :: "runtime \<Rightarrow> json_object \<Rightarrow> json daemon" where
  "expand_payload rt ps =
     (if truthy (str_param ''encryptedItemKey'' ps) \<and> truthy (str_param ''ciphertext'' ps)
      then if falsy (str_param ''profileId'' ps) \<or> falsy (str_param ''itemId'' ps)
        then invalid ''profileId and itemId are required for ZK expandEnv''
        else throwing (decrypt (rt_noble rt) (the (str_param ''encryptedItemKey'' ps)) (the (str_param ''ciphertext'' ps))
           (the (str_param ''profileId'' ps)) (the (str_param ''itemId'' ps)) (num_param ''contentVersion'' ps))
      else case map_of ps ''serverPayload'' of
        Some p \<Rightarrow> succeed p
      | None \<Rightarrow> invalid ''Either encryptedItemKey+ciphertext or serverPayload is required'')"

fun collect_env :: "json \<Rightarrow> string list \<Rightarrow> (string \<times> string) list daemon" where
  "collect_env payload [] = succeed []"
| "collect_env payload (f # fs) =
     followed_by (validateEnvKey f)
     (andThen (collect_env payload fs) (\<lambda>rest.
       succeed (case field_text (loose_payload payload) f of Some v \<Rightarrow> (f, v) # rest | None \<Rightarrow> rest)))"

definition execExpandEnv :: "runtime \<Rightarrow> json_object \<Rightarrow> outcome daemon" where
  "execExpandEnv rt ps = gated
     (if falsy (str_param ''command'' ps) then invalid ''command is required''
      else andThen (expand_payload rt ps) (\<lambda>payload.
       andThen (throwing (lift_err (select_fields payload))) (\<lambda>fields.
       andThen (collect_env payload fields) (spawn rt ps))))"

definition hex_byte :: "byte \<Rightarrow> string" where
  "hex_byte b = [hex_char (unat b div 16), hex_char (unat b mod 16)]"

definition mount_path :: "runtime \<Rightarrow> json_object \<Rightarrow> bytes \<Rightarrow> string" where
  "mount_path rt ps suffix = (if truthy (str_param ''path'' ps) then rt_resolve rt (the (str_param ''path'' ps))
     else rt_join rt (rt_tmpdir rt) (''abadge-secret-'' @ concat (map hex_byte suffix)))"

definition write_mount :: "runtime \<Rightarrow> string \<Rightarrow> string \<Rightarrow> outcome daemon" where
  "write_mount rt path secretValue = (\<lambda>h. case rt_write rt path secretValue of
      Some e \<Rightarrow> (Inl (Thrown e), h)
    | None \<Rightarrow> (Inr (Answer (JObj [(''path'', JStr path)])),
        h\<lparr>dm_files := (dm_files h)(path \<mapsto> secretValue), dm_mounted := List.insert path (dm_mounted h)\<rparr>))"

definition execMount :: "runtime \<Rightarrow> json_object \<Rightarrow> outcome daemon" where
  "execMount rt ps = gated
     (if falsy (str_param ''secretValue'' ps) then invalid ''secretValue is required''
      else andThen (throwing (random_bytes 8)) (\<lambda>suffix.
        let path = mount_path rt ps suffix; prefix = rt_tmpdir rt @ ''/'' in
        if take (length prefix) path \<noteq> prefix
        then invalid (''Mount path must be under the system temp directory ('' @ rt_tmpdir rt @ '')'')
        else write_mount rt path (the (str_param ''secretValue'' ps))))"

text \<open>\<open>rmSync\<close> may fail, which is ignored.\<close>

definition rm_file :: "runtime \<Rightarrow> string \<Rightarrow> (string \<rightharpoonup> string) \<Rightarrow> (string \<rightharpoonup> string)" where
  "rm_file rt path fs = (if rt_rm rt path then fs(path := None) else fs)"

definition execCleanup :: "runtime \<Rightarrow> json_object \<Rightarrow> outcome daemon" where
  "execCleanup rt ps = gated
     (if falsy (str_param ''path'' ps) then invalid ''path is required''
      else (\<lambda>h. let path = the (str_param ''path'' ps) in
        if path \<notin> set (dm_mounted h) then (Inl (Rpc INVALID_PARAMS ''Path was not mounted by this daemon''), h)
        else ok_answer [] (h\<lparr>dm_mounted := remove1 path (dm_mounted h), dm_files := rm_file rt path (dm_files h)\<rparr>)))"

definition close :: "runtime \<Rightarrow> host \<Rightarrow> host" where
  "close rt h = (destroy h)\<lparr>dm_files := fold (rm_file rt) (dm_mounted h) (dm_files h), dm_mounted := []\<rparr>"

section \<open>All secrets of a profile\<close>

record bulk_entry =
  be_key :: string
  be_value :: string
  be_itemId :: string
  be_label :: string

definition bulk_payload :: "runtime \<Rightarrow> json_object \<Rightarrow> string \<Rightarrow> json daemon" where
  "bulk_payload rt item itemId =
     (if str_param ''storageMode'' item = Some ''zero_knowledge''
      then if falsy (str_param ''encryptedItemKey'' item) \<or> falsy (str_param ''ciphertext'' item) \<or> falsy (str_param ''profileId'' item)
        then invalid (''ZK bulk item '' @ itemId @ '' missing encryptedItemKey/ciphertext/profileId'')
        else throwing (decrypt (rt_noble rt) (the (str_param ''encryptedItemKey'' item)) (the (str_param ''ciphertext'' item))
          (the (str_param ''profileId'' item)) itemId (num_param ''contentVersion'' item))
      else succeed (orElse (map_of item ''payload'') JNull))"

definition item_text :: "string \<Rightarrow> string \<Rightarrow> string" where
  "item_text itemId label = ''Item label '' @ [CHR 0x27] @ label @ [CHR 0x27] @ '' (id='' @ itemId @ '')''"

definition collision_text :: "string \<Rightarrow> bulk_entry \<Rightarrow> string \<Rightarrow> string \<Rightarrow> string" where
  "collision_text k e itemId label = ''Env var collision on '' @ [CHR 0x27] @ k @ [CHR 0x27] @ '': items '' @ be_itemId e @ '' ('' @
     [CHR 0x27] @ be_label e @ [CHR 0x27] @ '') and '' @ itemId @ '' ('' @ [CHR 0x27] @ label @ [CHR 0x27] @ ''). Rename one of them.''"

text \<open>The variable an item with exactly one string field contributes; the other items are skipped.\<close>

definition add_secret :: "runtime \<Rightarrow> bulk_entry list \<Rightarrow> string \<Rightarrow> string \<Rightarrow> string \<Rightarrow> bulk_entry list daemon" where
  "add_secret rt acc itemId label value =
     (let envKey = labelToEnvKey (rt_toUpperCase rt) label in
      if envKey = [] then invalid (item_text itemId label @ '' cannot be normalized into a valid env var name'')
      else if envKey \<in> set RESERVED_ENV_KEYS then invalid (item_text itemId label @ '' normalizes to reserved env var '' @ [CHR 0x27] @
        envKey @ [CHR 0x27] @ ''. Rename the item or exclude it.'')
      else if \<not> ENV_VAR_NAME_PATTERN envKey then invalid (item_text itemId label @ '' produces invalid env var '' @ [CHR 0x27] @ envKey @ [CHR 0x27])
      else case find (\<lambda>e. be_key e = envKey) acc of
          Some e \<Rightarrow> invalid (collision_text envKey e itemId label)
        | None \<Rightarrow> succeed (acc @ [\<lparr>be_key = envKey, be_value = value, be_itemId = itemId, be_label = label\<rparr>]))"

definition single_secret :: "json \<Rightarrow> string option" where
  "single_secret payload = (case listStringFields (loose_payload payload) of
      [f] \<Rightarrow> field_text (loose_payload payload) f | _ \<Rightarrow> None)"

definition bulk_item :: "runtime \<Rightarrow> bulk_entry list \<Rightarrow> json \<Rightarrow> bulk_entry list daemon" where
  "bulk_item rt acc j =
     (case j of
        JObj item \<Rightarrow>
          if falsy (str_param ''itemId'' item) \<or> falsy (str_param ''label'' item) \<or> falsy (str_param ''storageMode'' item)
          then invalid ''Each bulk item requires itemId, label, and storageMode''
          else let itemId = the (str_param ''itemId'' item); mode = the (str_param ''storageMode'' item) in
          if mode \<noteq> ''zero_knowledge'' \<and> mode \<noteq> ''server_managed''
          then invalid (''Unknown storage mode '' @ [CHR 0x27] @ mode @ [CHR 0x27] @ '' for item '' @ itemId)
          else andThen (bulk_payload rt item itemId) (\<lambda>payload.
            case single_secret payload of
              None \<Rightarrow> succeed acc
            | Some value \<Rightarrow> add_secret rt acc itemId (the (str_param ''label'' item)) value)
      | JArr _ \<Rightarrow> invalid ''Each bulk item requires itemId, label, and storageMode''
      | _ \<Rightarrow> invalid ''Malformed bulk item entry'')"

fun bulk_env :: "runtime \<Rightarrow> bulk_entry list \<Rightarrow> json list \<Rightarrow> bulk_entry list daemon" where
  "bulk_env rt acc [] = succeed acc"
| "bulk_env rt acc (j # js) = andThen (bulk_item rt acc j) (\<lambda>acc'. bulk_env rt acc' js)"

definition execEnvBulk :: "runtime \<Rightarrow> json_object \<Rightarrow> outcome daemon" where
  "execEnvBulk rt ps = gated
     (if falsy (str_param ''command'' ps) then invalid ''command is required''
      else case map_of ps ''items'' of
        Some (JArr items) \<Rightarrow>
          if length items > BULK_ITEMS_MAX then invalid (''items exceeds limit of '' @ decimal BULK_ITEMS_MAX)
          else andThen (bulk_env rt [] items) (\<lambda>entries. spawn rt ps (map (\<lambda>e. (be_key e, be_value e)) entries))
      | _ \<Rightarrow> invalid ''items must be an array'')"

section \<open>Requests and answers\<close>

text \<open>The table of handlers. The error of a name that is not in it is the dispatcher's.\<close>

definition handler :: "runtime \<Rightarrow> string \<Rightarrow> (json_object \<Rightarrow> outcome daemon) option" where
  "handler rt m = map_of
     [(''identity.sign'', \<lambda>ps. answering (identitySign rt ps)),
      (''auth.setSession'', \<lambda>ps. answering (setSession rt ps)),
      (''auth.setOrg'', \<lambda>ps. answering (setOrg rt ps)),
      (''auth.clearSession'', \<lambda>ps. answering (clearSession rt)),
      (''auth.status'', \<lambda>ps. answering (\<lambda>h. (Inr (authStatus rt h), h))),
      (''auth.getHeaders'', \<lambda>ps. andThen buildAuthHeaders (\<lambda>a. succeed (Answer (auth_headers_json rt a)))),
      (''vault.unlock'', vaultUnlock),
      (''vault.lock'', \<lambda>ps. vaultLock),
      (''vault.status'', \<lambda>ps. vaultStatus),
      (''vault.changePassword'', vaultChangePassword),
      (''item.encrypt'', itemEncrypt rt),
      (''item.decrypt'', itemDecrypt rt),
      (''item.rekey'', itemRekey rt),
      (''exec.env'', execEnv rt),
      (''exec.expandEnv'', execExpandEnv rt),
      (''exec.envBulk'', execEnvBulk rt),
      (''exec.mount'', execMount rt),
      (''exec.cleanup'', execCleanup rt)] m"

definition rpcError :: "json option \<Rightarrow> json \<Rightarrow> string \<Rightarrow> json" where
  "rpcError i code message = JObj [(''jsonrpc'', JStr ''2.0''),
     (''id'', case i of None \<Rightarrow> JNum 0 | Some JNull \<Rightarrow> JNum 0 | Some j \<Rightarrow> j),
     (''error'', JObj [(''code'', code), (''message'', JStr message)])]"

definition rpcOk :: "json \<Rightarrow> json \<Rightarrow> json" where
  "rpcOk i result = JObj [(''jsonrpc'', JStr ''2.0''), (''id'', i), (''result'', result)]"

text \<open>Errors with a code of their own keep it: the objects the handlers throw, domain errors, errors of the platform.\<close>

definition thrown_code :: "runtime \<Rightarrow> err \<Rightarrow> json" where
  "thrown_code rt e = (case e of DomainErr _ c _ \<Rightarrow> JStr c | _ \<Rightarrow> orElse (rt_errCode rt e) (JNum INTERNAL_ERROR))"

definition rpc_failure :: "runtime \<Rightarrow> json \<Rightarrow> rpc_err \<Rightarrow> json" where
  "rpc_failure rt i e = (case e of
      Rpc code msg \<Rightarrow> rpcError (Some i) (JNum code) msg
    | Thrown x \<Rightarrow> rpcError (Some i) (thrown_code rt x) (err_message x))"

datatype dispatched =
    Respond json
  | Start json string json_object
  | Rejects

text \<open>The checks before a handler runs. Reading a property of \<open>null\<close> throws outside of the guarded part.\<close>

definition parse_request :: "runtime \<Rightarrow> string \<Rightarrow> dispatched" where
  "parse_request rt raw = (case JSON_parse raw of
      None \<Rightarrow> Respond (rpcError None (JNum PARSE_ERROR) ''Invalid JSON'')
    | Some JNull \<Rightarrow> Rejects
    | Some req \<Rightarrow>
        let i = property ''id'' req; m = property ''method'' req in
        if property ''jsonrpc'' req \<noteq> Some (JStr ''2.0'') \<or> m = None \<or> \<not> js_truthy (the m) \<or> i = None
        then Respond (rpcError i (JNum INVALID_REQUEST) ''Invalid JSON-RPC request'')
        else (case the m of
            JStr name \<Rightarrow> if handler rt name = None
              then Respond (rpcError i (JNum METHOD_NOT_FOUND) (''Unknown method: '' @ name))
              else Start (the i) name (case property ''params'' req of Some (JObj ps) \<Rightarrow> ps | _ \<Rightarrow> [])
          | _ \<Rightarrow> Respond (rpcError i (JNum METHOD_NOT_FOUND) (''Unknown method: ''))))"

definition run_handler :: "runtime \<Rightarrow> string \<Rightarrow> json_object \<Rightarrow> outcome daemon" where
  "run_handler rt name ps = (case handler rt name of None \<Rightarrow> fail_with (Rpc METHOD_NOT_FOUND name) | Some f \<Rightarrow> f ps)"

text \<open>What a waiting handler does with the reply; a reply of another kind never comes.\<close>

definition resume :: "runtime \<Rightarrow> waiting \<Rightarrow> api_reply \<Rightarrow> outcome daemon" where
  "resume rt k reply = (case (k, reply) of
      (Unlocking pw, Profile_reply p) \<Rightarrow> finish_unlock rt pw p
    | (Changing old new pid, Profile_reply p) \<Rightarrow> finish_change rt old new pid p
    | (Uploading, Password_reply r) \<Rightarrow> finish_upload r
    | (Running, Exit_reply code sig) \<Rightarrow> finish_exec code sig
    | _ \<Rightarrow> fail_with (Thrown (PlainErr ''unexpected reply'')))"

section \<open>Framing\<close>

text \<open>A chunk of bytes is turned into text on its own and appended to what is left of the line.\<close>

fun split_lines :: "string \<Rightarrow> string list \<times> string" where
  "split_lines [] = ([], [])"
| "split_lines (c # s) = (let (ls, rest) = split_lines s in
     if c = CHR 0x0A then ([] # ls, rest)
     else case ls of [] \<Rightarrow> ([], c # rest) | l # ls' \<Rightarrow> ((c # l) # ls', rest))"

definition on_data :: "(string \<Rightarrow> string) \<Rightarrow> string \<Rightarrow> string \<Rightarrow> string list \<times> string" where
  "on_data toString prev data = (let (lines, rest) = split_lines (prev @ toString data) in
     (filter (\<lambda>l. l \<noteq> []) (map js_trim lines), rest))"

text \<open>How the clients of the daemon classify an error (\<open>error-kind.ts\<close>).\<close>

datatype error_kind = K_locked | K_unreachable | K_auth | K_other

definition daemonErrorKind :: "json \<Rightarrow> error_kind" where
  "daemonErrorKind e =
     (if property ''code'' e = Some (JNum VAULT_LOCKED) then K_locked
      else if property ''code'' e = Some (JNum AUTH_REQUIRED) then K_auth
      else if property ''code'' e \<in> {Some (JStr ''ENOENT''), Some (JStr ''ECONNREFUSED'')} then K_unreachable
      else case property ''message'' e of
          Some (JStr m) \<Rightarrow> if text_includes ''Cannot connect to vaultd'' m \<or> text_includes ''ECONNREFUSED'' m \<or>
            text_includes ''ENOENT'' m then K_unreachable else K_other
        | _ \<Rightarrow> K_other)"

end
