(* ===== verification/Daemon_Run.thy ===== *)
theory Daemon_Run
  imports Daemon
begin


text \<open>
  The daemon as a machine: lines of requests, replies of the API and ends of processes, the passing of time and the
  auto-lock timer come in any order, also while handlers wait. What every reachable state satisfies,
  and what a step needs before it starts a process, writes a file or holds a root key.
\<close>

section \<open>The machine\<close>

datatype event =
    Request_line string
  | Reply nat api_reply
  | Clock int
  | Timer_due

type_synonym conf = "host \<times> (json \<times> api_call \<times> waiting) list"

definition settle :: "runtime \<Rightarrow> json \<Rightarrow> (json \<times> api_call \<times> waiting) list \<Rightarrow> (rpc_err + outcome) \<times> host \<Rightarrow> conf \<times> json option" where
  "settle rt i ws rh = (case rh of
      (Inl e, h) \<Rightarrow> ((h, ws), Some (rpc_failure rt i e))
    | (Inr (Answer j), h) \<Rightarrow> ((h, ws), Some (rpcOk i j))
    | (Inr (Await c k), h) \<Rightarrow> ((h, ws @ [(i, c, k)]), None))"

text \<open>\<open>dispatch\<close>, cut where a handler waits.\<close>

definition dispatch :: "runtime \<Rightarrow> string \<Rightarrow> conf \<Rightarrow> conf \<times> json option" where
  "dispatch rt raw c = (case parse_request rt raw of
      Respond j \<Rightarrow> (c, Some j)
    | Rejects \<Rightarrow> (c, None)
    | Start i name ps \<Rightarrow> settle rt i (snd c) (run_handler rt name ps (fst c)))"

fun react :: "runtime \<Rightarrow> event \<Rightarrow> conf \<Rightarrow> conf \<times> json option" where
  "react rt (Request_line raw) c = dispatch rt raw c"
| "react rt (Reply n reply) (h, ws) =
     (if n < length ws then (case ws ! n of (i, c, k) \<Rightarrow> settle rt i (take n ws @ drop (Suc n) ws) (resume rt k reply h))
      else ((h, ws), None))"
| "react rt (Clock t) (h, ws) = ((h\<lparr>vs_now := max t (vs_now h)\<rparr>, ws), None)"
| "react rt Timer_due (h, ws) =
     ((case vs_autoLockTimer h of Some d \<Rightarrow> if d \<le> vs_now h then auto_lock h else h | None \<Rightarrow> h, ws), None)"

definition fresh :: "host \<Rightarrow> bool" where
  "fresh h \<longleftrightarrow> vs_rootKey h = None \<and> vs_meta h = None \<and> vs_autoLockTimer h = None \<and> dm_auth h = None \<and>
     dm_mounted h = [] \<and> dm_files h = Map.empty \<and> dm_children h = []"

inductive reachable :: "runtime \<Rightarrow> conf \<Rightarrow> bool" for rt where
  started: "fresh h \<Longrightarrow> reachable rt (h, [])"
| step: "reachable rt c \<Longrightarrow> react rt e c = (c', r) \<Longrightarrow> reachable rt c'"

section \<open>What the layers leave alone\<close>

text \<open>Client-side encryption only allocates, wipes and draws.\<close>

definition mem_only :: "'z memory_scheme \<Rightarrow> 'z memory_scheme \<Rightarrow> bool" where
  "mem_only m m' \<longleftrightarrow> length (mem_heap m) \<le> length (mem_heap m') \<and>
     m' = m\<lparr>mem_heap := mem_heap m', mem_draws := mem_draws m'\<rparr>"

lemma mem_only_refl: "reflp mem_only"
  by (simp add: reflp_def mem_only_def)

lemma mem_only_trans: "transp mem_only"
proof (rule transpI)
  fix a b c :: "'z memory_scheme"
  assume "mem_only a b" "mem_only b c"
  then show "mem_only a c" by (cases a; cases b; cases c) (simp add: mem_only_def)
qed

named_theorems keeping \<open>effects that keep a relation\<close>

lemma keeps_mem_prims [keeping]:
  "keeps mem_only (alloc bs)" "keeps mem_only (deref a)" "keeps mem_only (zeroKey a)"
  "keeps mem_only (random_bytes n)" "keeps mem_only (lift_err r)"
  by (auto intro!: keepsI simp: mem_only_def deref_def zeroKey_def lift_err_def)

lemmas mem_rules = keeps_andThen [OF mem_only_trans] keeps_followed_by [OF mem_only_trans]
  keeps_succeed [OF mem_only_refl] keeps_fail [OF mem_only_refl]

lemma keeps_mem_ops [keeping]:
  "keeps mem_only (wrapRootKey nb a k p v)" "keeps mem_only (unwrapRootKey nb w k p v)"
  "keeps mem_only (deriveKEK nb pw salt params)" "keeps mem_only generateSalt"
  "keeps mem_only (encryptItem nb pt a p it cv)" "keeps mem_only (decryptItem nb ei a p it cv)"
  "keeps mem_only (rekeyItem nb ek a b p it)"
  unfolding wrapRootKey_def unwrapRootKey_def deriveKEK_def generateSalt_def encryptItem_def decryptItem_def rekeyItem_def unwrap_dek_def
  by (intro mem_rules keeping)+

lemma keeps_map_eff: "reflp R \<Longrightarrow> transp R \<Longrightarrow> (\<And>x. keeps R (f x)) \<Longrightarrow> keeps R (map_eff f xs)"
  by (induction xs) (auto intro!: keeps_andThen keeps_succeed)

section \<open>The vault\<close>

definition vault_ok :: "host \<Rightarrow> bool" where
  "vault_ok h \<longleftrightarrow> (case vs_rootKey h of
      None \<Rightarrow> vs_autoLockTimer h = None
    | Some a \<Rightarrow> a < length (mem_heap h) \<and>
        (if vs_autoLockMs h > 0 then \<exists>d. vs_autoLockTimer h = Some d \<and> d \<le> vs_now h + vs_autoLockMs h
         else vs_autoLockTimer h = None))"

definition outside_same :: "host \<Rightarrow> host \<Rightarrow> bool" where
  "outside_same h h' \<longleftrightarrow> dm_mounted h' = dm_mounted h \<and> dm_files h' = dm_files h \<and> dm_children h' = dm_children h \<and>
     vs_now h' = vs_now h \<and> vs_autoLockMs h' = vs_autoLockMs h"

definition keyed_step :: "host \<Rightarrow> host \<Rightarrow> bool" where
  "keyed_step h h' \<longleftrightarrow> outside_same h h' \<and> (vault_ok h \<longrightarrow> vault_ok h') \<and> (locked h \<longrightarrow> locked h')"

definition open_step :: "host \<Rightarrow> host \<Rightarrow> bool" where
  "open_step h h' \<longleftrightarrow> outside_same h h' \<and> (\<not> locked h \<and> vault_ok h \<longrightarrow> vault_ok h') \<and> (locked h = locked h')"

lemma keyed_step_refl: "reflp keyed_step" and keyed_step_trans: "transp keyed_step"
  and open_step_refl: "reflp open_step" and open_step_trans: "transp open_step"
  by (auto simp: reflp_def transp_def keyed_step_def open_step_def outside_same_def)

lemmas keyed_rules = keeps_andThen [OF keyed_step_trans] keeps_followed_by [OF keyed_step_trans]
  keeps_succeed [OF keyed_step_refl] keeps_fail [OF keyed_step_refl]

lemmas open_rules = keeps_andThen [OF open_step_trans] keeps_followed_by [OF open_step_trans]
  keeps_succeed [OF open_step_refl] keeps_fail [OF open_step_refl]

lemma mem_only_open: "mem_only (h :: host) h' \<Longrightarrow> open_step h h'"
proof -
  assume m: "mem_only h h'"
  then obtain hp d where "h' = h\<lparr>mem_heap := hp, mem_draws := d\<rparr>" "length (mem_heap h) \<le> length hp"
    unfolding mem_only_def by metis
  then show ?thesis by (auto simp: open_step_def outside_same_def vault_ok_def locked_def split: option.splits)
qed

lemma mem_only_step: "mem_only (h :: host) h' \<Longrightarrow> keyed_step h h'"
proof -
  assume m: "mem_only h h'"
  then obtain hp d where "h' = h\<lparr>mem_heap := hp, mem_draws := d\<rparr>" "length (mem_heap h) \<le> length hp"
    unfolding mem_only_def by metis
  then show ?thesis by (auto simp: keyed_step_def outside_same_def vault_ok_def locked_def split: option.splits)
qed

lemma keeps_weaken: "keeps R m \<Longrightarrow> (\<And>w w'. R w w' \<Longrightarrow> S w w') \<Longrightarrow> keeps S m"
  by (simp add: keeps_def)

lemmas keeps_open = keeps_weaken [OF _ mem_only_open]
lemmas keeps_step = keeps_weaken [OF _ mem_only_step]

lemma keeps_resetting: "keeps open_step (resetting x)"
  by (auto intro!: keepsI simp: resetting_def resetAutoLock_def clearAutoLock_def open_step_def outside_same_def vault_ok_def
      locked_def Let_def split: option.splits)

lemma keeps_requireUnlocked: "(\<And>a. keeps open_step (f a)) \<Longrightarrow> keeps keyed_step (andThen requireUnlocked f)"
proof (rule keepsI)
  fix h :: host
  assume f: "\<And>a. keeps open_step (f a)"
  show "keyed_step h (snd (andThen requireUnlocked f h))"
  proof (cases "vs_rootKey h")
    case None
    then show ?thesis by (simp add: andThen_def requireUnlocked_def reflpD [OF keyed_step_refl])
  next
    case (Some a)
    have "open_step h (snd (f a h))" using f by (simp add: keeps_def)
    with Some show ?thesis by (auto simp: andThen_def requireUnlocked_def open_step_def keyed_step_def locked_def)
  qed
qed

lemma keeps_vault_methods:
  "keeps keyed_step (encrypt nb j p it v)" "keeps keyed_step (decrypt nb ek ct p it v)"
  "keeps keyed_step (rekey nb items a p)" "keeps keyed_step (changePassword nb old new meta)"
  unfolding encrypt_def decrypt_def rekey_def changePassword_def
  by (intro keeps_requireUnlocked open_rules keeps_resetting keeps_map_eff open_step_refl open_step_trans
      keeping [THEN keeps_open] | simp split: prod.split | safe)+

definition kdf_opts :: "json \<Rightarrow> json option \<times> json option \<times> json option \<times> json option" where
  "kdf_opts params = (property ''iterations'' params, property ''memory'' params, property ''parallelism'' params, property ''hashLength'' params)"

text \<open>What unlocking leaves in memory: the derived key wiped and the root key if the password fits, the derived
  key as it is if it does not.\<close>

lemma unlock_run:
  "unlock nb pw meta h = (case decode_base64 (vm_kdfSalt meta) of Inl e \<Rightarrow> (Inl e, h) | Inr salt \<Rightarrow>
     case nb_argon2id nb (encode_text pw) salt (kdf_opts (vm_kdfParams meta)) of Inl e \<Rightarrow> (Inl e, h) | Inr k \<Rightarrow>
     case decode_base64 (vm_wrappedRootKey meta) of Inl e \<Rightarrow> (Inl e, h\<lparr>mem_heap := mem_heap h @ [k]\<rparr>) | Inr c \<Rightarrow>
     case nb_decrypt nb k (take 24 c) (buildZkRootWrapAad (vm_id meta) (vm_keyVersion meta)) (drop 24 c) of
       Inl e \<Rightarrow> (Inl e, h\<lparr>mem_heap := mem_heap h @ [k]\<rparr>)
     | Inr root \<Rightarrow> (Inr (), resetAutoLock (h\<lparr>mem_heap := mem_heap h @ [replicate (length k) 0, root],
         vs_rootKey := Some (Suc (length (mem_heap h))), vs_meta := Some meta\<rparr>)))"
  by (simp add: unlock_def deriveKEK_def unwrapRootKey_def kdf_opts_def NONCE_LEN_def andThen_assoc resetting_def nth_append
      list_update_append split: sum.split)

lemma unlock_cases:
  assumes "unlock nb pw meta (h :: host) = (r, h')"
  shows "(isl r \<and> mem_only h h') \<or> (r = Inr () \<and> (\<exists>h1 a. mem_only h h1 \<and> a < length (mem_heap h1) \<and>
     h' = resetAutoLock (h1\<lparr>vs_rootKey := Some a, vs_meta := Some meta\<rparr>)))"
proof -
  have m: "mem_only h (h\<lparr>mem_heap := mem_heap h @ xs\<rparr>)" for xs by (simp add: mem_only_def)
  have "(isl r \<and> (h' = h \<or> (\<exists>k. h' = h\<lparr>mem_heap := mem_heap h @ [k]\<rparr>))) \<or>
     (r = Inr () \<and> (\<exists>k root. h' = resetAutoLock ((h\<lparr>mem_heap := mem_heap h @ [k, root]\<rparr>)
        \<lparr>vs_rootKey := Some (Suc (length (mem_heap h))), vs_meta := Some meta\<rparr>)))"
    using assms unfolding unlock_run by (auto split: sum.splits)
  then show ?thesis
  proof (elim disjE conjE exE)
    fix k root assume "r = Inr ()" and h': "h' = resetAutoLock ((h\<lparr>mem_heap := mem_heap h @ [k, root]\<rparr>)
        \<lparr>vs_rootKey := Some (Suc (length (mem_heap h))), vs_meta := Some meta\<rparr>)"
    moreover have "Suc (length (mem_heap h)) < length (mem_heap (h\<lparr>mem_heap := mem_heap h @ [k, root]\<rparr>))" by simp
    ultimately show ?thesis using m [of "[k, root]"] by blast
  qed (use m reflpD [OF mem_only_refl, of h] in auto)
qed

section \<open>The handlers\<close>

lemma keeps_throwing: "keeps R m \<Longrightarrow> keeps R (throwing m)" "keeps R m \<Longrightarrow> keeps R (rethrowing f m)"
  by (auto simp: keeps_def throwing_def rethrowing_def split: prod.split sum.split) (metis snd_conv)+

lemma keeps_same: "reflp R \<Longrightarrow> (\<And>h. snd (m h) = h) \<Longrightarrow> keeps R m"
  by (simp add: keeps_def reflpD)

lemma keeps_checks [keeping]:
  assumes "reflp R"
  shows "keeps R require_unlocked" "keeps R buildAuthHeaders" "keeps R (invalid msg)" "keeps R vaultStatus"
    "keeps R (resolveAuthExpiry rt t)" "keeps R (identitySign rt ps)" "keeps R (ok_answer xs)" "keeps R (validateEnvKey k)"
    "keeps R (finish_exec code sig)"
  using assms by (auto intro!: keeps_same simp: require_unlocked_def buildAuthHeaders_def invalid_def fail_with_def vaultStatus_def
      resolveAuthExpiry_def identitySign_def ok_answer_def validateEnvKey_def succeed_def finish_exec_def Let_def split: option.split sum.split)

lemma keeps_field_updates [keeping]:
  "keeps keyed_step (setSession rt ps)" "keeps keyed_step (setOrg rt ps)" "keeps keyed_step (clearSession rt)" "keeps keyed_step vaultLock"
  "keeps keyed_step (fetch_meta p k)" "keeps keyed_step (vaultUnlock ps)" "keeps keyed_step (vaultChangePassword ps)"
proof -
  have same: "keyed_step h (h\<lparr>dm_auth := a\<rparr>)" "keyed_step h h" for h a
    by (auto simp: keyed_step_def outside_same_def vault_ok_def locked_def split: option.split)
  have "keeps keyed_step (\<lambda>h. (Inr (f h), h\<lparr>dm_auth := a\<rparr>))" for f :: "host \<Rightarrow> json" and a by (rule keepsI) (simp add: same)
  then show "keeps keyed_step (setSession rt ps)" unfolding setSession_def Let_def
    by (auto intro!: keyed_rules keeping keyed_step_refl)
  show "keeps keyed_step (setOrg rt ps)" "keeps keyed_step (clearSession rt)"
    by (auto intro!: keepsI simp: setOrg_def clearSession_def same Let_def split: option.split)
  show "keeps keyed_step vaultLock"
    by (auto intro!: keepsI simp: vaultLock_def ok_answer_def succeed_def lock_def clearAutoLock_def keyed_step_def outside_same_def
        vault_ok_def locked_def split: option.split)
  show fetch: "keeps keyed_step (fetch_meta p k)" for p k unfolding fetch_meta_def
    by (intro keyed_rules keeping keyed_step_refl)
  show "keeps keyed_step (vaultChangePassword ps)" unfolding vaultChangePassword_def
    by (auto intro!: keyed_rules keeping keyed_step_refl fetch)
  show "keeps keyed_step (vaultUnlock ps)"
    unfolding vaultUnlock_def using keepsD [OF fetch] same(2)
    by (auto intro!: keepsI simp: invalid_def fail_with_def split: if_splits) (metis surjective_pairing)+
qed

lemma keeps_answering [keeping]: "reflp R \<Longrightarrow> transp R \<Longrightarrow> keeps R m \<Longrightarrow> keeps R (answering m)"
  unfolding answering_def by (intro keeps_andThen keeps_succeed)

lemma keeps_zeroing [keeping]: "keeps keyed_step (zeroing a)"
  unfolding zeroing_def by (intro keeps_throwing keeping [THEN keeps_step])

lemma keeps_items [keeping]:
  "keeps keyed_step (itemEncrypt rt ps)" "keeps keyed_step (itemDecrypt rt ps)" "keeps keyed_step (itemRekey rt ps)"
  "keeps keyed_step (finish_change rt old new p reply)" "keeps keyed_step (finish_upload reply')"
  unfolding itemEncrypt_def itemDecrypt_def itemRekey_def finish_change_def finish_upload_def
  by (auto intro!: keyed_rules keeping keyed_step_refl keeps_throwing keeps_vault_methods keeping [THEN keeps_step]
      split: option.split json.split sum.split prod.split)

section \<open>Processes and files\<close>

definition under_tmp :: "runtime \<Rightarrow> string \<Rightarrow> bool" where
  "under_tmp rt p \<longleftrightarrow> take (Suc (length (rt_tmpdir rt))) p = rt_tmpdir rt @ ''/''"

definition env_key_ok :: "string \<Rightarrow> bool" where
  "env_key_ok k \<longleftrightarrow> ENV_VAR_NAME_PATTERN k \<and> k \<notin> set RESERVED_ENV_KEYS"

text \<open>Every variable of a child is a checked name with a secret, or inherited and not one of the daemon's own.\<close>

definition child_ok :: "runtime \<Rightarrow> child \<Rightarrow> bool" where
  "child_ok rt ch \<longleftrightarrow> (\<forall>k v. ch_env ch k = Some v \<longrightarrow> env_key_ok k \<or> (take 7 k \<noteq> ''ABADGE_'' \<and> (k, v) \<in> set (rt_environ rt)))"

definition confined :: "runtime \<Rightarrow> host \<Rightarrow> bool" where
  "confined rt h \<longleftrightarrow> list_all (under_tmp rt) (dm_mounted h) \<and> (\<forall>p \<in> dom (dm_files h). under_tmp rt p) \<and>
     list_all (child_ok rt) (dm_children h)"

definition work_step :: "runtime \<Rightarrow> host \<Rightarrow> host \<Rightarrow> bool" where
  "work_step rt h h' \<longleftrightarrow> (vault_ok h \<longrightarrow> vault_ok h') \<and> (locked h \<longrightarrow> locked h') \<and> (confined rt h \<longrightarrow> confined rt h')"

lemma work_step_refl: "reflp (work_step rt)" and work_step_trans: "transp (work_step rt)"
  by (auto simp: reflp_def transp_def work_step_def)

lemmas work_rules = keeps_andThen [OF work_step_trans] keeps_followed_by [OF work_step_trans]
  keeps_succeed [OF work_step_refl] keeps_fail [OF work_step_refl]

lemma vault_work: "keyed_step h h' \<Longrightarrow> work_step rt h h'"
  by (simp add: keyed_step_def work_step_def outside_same_def confined_def)

lemmas keeps_work = keeps_weaken [OF _ vault_work]

lemma keeps_andThen_result:
  assumes "transp R" "keeps R m" "\<And>w x w'. m w = (Inr x, w') \<Longrightarrow> P x" "\<And>x. P x \<Longrightarrow> keeps R (f x)"
  shows "keeps R (andThen m f)"
proof (rule keepsI)
  fix w
  obtain r w1 where m: "m w = (r, w1)" by (cases "m w")
  with assms(2) have R1: "R w w1" by (rule keepsD)
  show "R w (snd (andThen m f w))"
  proof (cases r)
    case (Inr x)
    with assms(3,4) m have "R w1 (snd (f x w1))" by (auto simp: keeps_def)
    with m R1 Inr assms(1) show ?thesis by (auto simp: andThen_def dest: transpD)
  qed (simp add: andThen_def m R1)
qed

lemma child_env_ok:
  assumes "list_all (\<lambda>(k, v). env_key_ok k) extra"
  shows "child_ok rt \<lparr>ch_argv = argv, ch_env = buildChildEnv (rt_environ rt) ++ map_of extra\<rparr>"
  using assms by (auto simp: child_ok_def buildChildEnv_def list_all_iff map_add_Some_iff dest!: map_of_SomeD)

lemma keeps_spawn: "list_all (\<lambda>(k, v). env_key_ok k) extra \<Longrightarrow> keeps (work_step rt) (spawn rt ps extra)"
  using child_env_ok [of extra rt]
  by (auto intro!: keepsI simp: spawn_def Let_def work_step_def vault_ok_def locked_def confined_def split: option.split)

lemma validateEnvKey_ok: "validateEnvKey k h = (Inr x, h') \<longleftrightarrow> env_key_ok k \<and> h' = h"
  by (auto simp: validateEnvKey_def env_key_ok_def invalid_def fail_with_def succeed_def)

lemma collect_env_keys: "collect_env p fs h = (Inr kvs, h') \<Longrightarrow> list_all (\<lambda>(k, v). env_key_ok k) kvs \<and> h' = h"
  by (induction fs arbitrary: kvs h')
    (auto simp: succeed_def followed_by_def andThen_Inr validateEnvKey_ok split: option.split)

lemma keeps_collect_env [keeping]: "keeps (work_step rt) (collect_env p fs)"
  by (induction fs) (auto intro!: work_rules keeping work_step_refl)

lemma keeps_expand_payload [keeping]: "keeps keyed_step (expand_payload rt ps)"
  unfolding expand_payload_def
  by (auto intro!: keyed_rules keeping keyed_step_refl keeps_throwing keeps_vault_methods split: option.split)

definition entry_ok :: "bulk_entry \<Rightarrow> bool" where
  "entry_ok e \<longleftrightarrow> env_key_ok (be_key e)"

lemma add_secret_ok:
  assumes "add_secret rt acc i l v h = (Inr acc', h')"
  shows "h' = h \<and> (\<exists>k. acc' = acc @ [\<lparr>be_key = k, be_value = v, be_itemId = i, be_label = l\<rparr>] \<and> env_key_ok k \<and>
     k = labelToEnvKey (rt_toUpperCase rt) l \<and> k \<notin> be_key ` set acc)"
  using assms by (auto simp: add_secret_def Let_def invalid_def fail_with_def succeed_def env_key_ok_def
      split: if_splits option.splits dest: find_NoneD)

lemma keeps_add_secret [keeping]: "reflp R \<Longrightarrow> keeps R (add_secret rt acc i l v)"
  by (rule keeps_same) (auto simp: add_secret_def Let_def invalid_def fail_with_def succeed_def split: option.split)

lemma keeps_bulk_payload [keeping]: "keeps keyed_step (bulk_payload rt item i)"
  unfolding bulk_payload_def by (auto intro!: keyed_rules keeping keyed_step_refl keeps_throwing keeps_vault_methods)

lemma keeps_bulk_item [keeping]: "keeps keyed_step (bulk_item rt acc j)"
  unfolding bulk_item_def Let_def
  by (auto intro!: keyed_rules keeping keyed_step_refl split: json.split option.split)

lemma bulk_item_entries:
  "bulk_item rt acc j h = (Inr acc', h') \<Longrightarrow> list_all entry_ok acc \<Longrightarrow> list_all entry_ok acc'"
  by (auto simp: bulk_item_def Let_def andThen_Inr invalid_def fail_with_def succeed_def entry_ok_def
      split: json.splits if_splits option.splits dest!: add_secret_ok)

lemma bulk_env_entries: "bulk_env rt acc js h = (Inr es, h') \<Longrightarrow> list_all entry_ok acc \<Longrightarrow> list_all entry_ok es"
proof (induction js arbitrary: acc h)
  case (Cons j js)
  then obtain acc1 h1 where "bulk_item rt acc j h = (Inr acc1, h1)" "bulk_env rt acc1 js h1 = (Inr es, h')" by (auto simp: andThen_Inr)
  with Cons bulk_item_entries show ?case by blast
qed (simp add: succeed_def)

lemma keeps_bulk_env [keeping]: "keeps keyed_step (bulk_env rt acc js)"
  by (induction js arbitrary: acc) (auto intro!: keyed_rules keeping)

lemma gated_cases: "gated body h = (r, h') \<Longrightarrow> (isl r \<and> h' = h) \<or> (live_auth h \<noteq> None \<and> \<not> locked h \<and> body h = (r, h'))"
  by (auto simp: gated_def followed_by_def andThen_def buildAuthHeaders_def require_unlocked_def split: option.splits if_splits)

lemma keeps_gated: "keeps (work_step rt) body \<Longrightarrow> keeps (work_step rt) (gated body)"
  unfolding gated_def by (intro work_rules keeping work_step_refl)

definition guarded :: "runtime \<Rightarrow> outcome daemon \<Rightarrow> bool" where
  "guarded rt m \<longleftrightarrow> (\<exists>body. m = gated body \<and> keeps (work_step rt) body)"

lemma guardedI: "keeps (work_step rt) body \<Longrightarrow> guarded rt (gated body)"
  unfolding guarded_def by blast

lemma work_files:
  assumes "set (dm_mounted h') \<subseteq> set (dm_mounted h) \<union> {p. under_tmp rt p}"
    and "dom (dm_files h') \<subseteq> dom (dm_files h) \<union> {p. under_tmp rt p}"
    and "dm_children h' = dm_children h" "vault_ok h' = vault_ok h" "locked h' = locked h"
  shows "work_step rt h h'"
  unfolding work_step_def confined_def list_all_iff assms(3-5) using assms(1,2) by blast

lemma vault_ok_files [simp]:
  "vault_ok (h\<lparr>dm_mounted := ms\<rparr>) = vault_ok h" "vault_ok (h\<lparr>dm_files := fs\<rparr>) = vault_ok h"
  "locked (h\<lparr>dm_mounted := ms\<rparr>) = locked h" "locked (h\<lparr>dm_files := fs\<rparr>) = locked h"
  by (simp_all add: vault_ok_def locked_def split: option.split)

lemma keeps_write_mount: "under_tmp rt path \<Longrightarrow> keeps (work_step rt) (write_mount rt path v)"
  by (rule keepsI) (auto intro!: work_files reflpD [OF work_step_refl] simp: write_mount_def split: option.split if_splits)

lemma exec_guarded:
  "guarded rt (execEnv rt ps)" "guarded rt (execExpandEnv rt ps)" "guarded rt (execEnvBulk rt ps)"
  "guarded rt (execMount rt ps)" "guarded rt (execCleanup rt ps)"
proof -
  note mem = keeps_throwing(1) [OF keeps_mem_prims(4) [THEN keeps_step, THEN keeps_work]]
    keeps_throwing(1) [OF keeps_mem_prims(5) [THEN keeps_step, THEN keeps_work]]
  have "keeps (work_step rt) (followed_by (validateEnvKey k) (spawn rt ps [(k, v)]))" for k v
    unfolding followed_by_def
    by (rule keeps_andThen_result [where P = "\<lambda>_. env_key_ok k"])
      (auto intro!: keeping keeps_spawn work_step_refl work_step_trans simp: validateEnvKey_ok)
  then show "guarded rt (execEnv rt ps)" unfolding execEnv_def
    by (intro guardedI) (auto intro!: keeping work_step_refl)
  have "keeps (work_step rt) (andThen (collect_env p fs) (spawn rt ps))" for p fs
    by (rule keeps_andThen_result [where P = "list_all (\<lambda>(k, v). env_key_ok k)"])
      (auto intro!: keeping keeps_spawn work_step_trans dest: collect_env_keys)
  note tail = this
  have "keeps (work_step rt) (andThen (expand_payload rt ps) (\<lambda>payload.
       andThen (throwing (lift_err (select_fields payload))) (\<lambda>fields. andThen (collect_env payload fields) (spawn rt ps))))"
    by (intro work_rules(1) keeps_expand_payload [THEN keeps_work] mem(2) tail)
  then show "guarded rt (execExpandEnv rt ps)" unfolding execExpandEnv_def
    by (intro guardedI) (auto intro!: keeping work_step_refl)
  have "keeps (work_step rt) (andThen (bulk_env rt [] js) (\<lambda>es. spawn rt ps (map (\<lambda>e. (be_key e, be_value e)) es)))" for js
    by (rule keeps_andThen_result [where P = "list_all entry_ok"])
      (auto intro!: keeping [THEN keeps_work] keeps_spawn work_step_trans dest!: bulk_env_entries simp: entry_ok_def list_all_iff)
  then show "guarded rt (execEnvBulk rt ps)" unfolding execEnvBulk_def
    by (intro guardedI) (auto intro!: keeping work_step_refl split: option.split json.split)
  show "guarded rt (execMount rt ps)" unfolding execMount_def Let_def
    by (intro guardedI) (auto intro!: work_rules(1) [OF mem(1)] keeping work_step_refl keeps_write_mount simp: under_tmp_def)
  have "keeps (work_step rt) (\<lambda>h. if p \<notin> set (dm_mounted h) then (Inl e, h)
      else ok_answer [] (h\<lparr>dm_mounted := remove1 p (dm_mounted h), dm_files := rm_file rt p (dm_files h)\<rparr>))" for p e
    by (rule keepsI) (auto intro!: work_files reflpD [OF work_step_refl] simp: ok_answer_def succeed_def rm_file_def
      split: if_splits dest: set_remove1_subset [THEN subsetD])
  then show "guarded rt (execCleanup rt ps)" unfolding execCleanup_def Let_def
    by (intro guardedI) (auto intro!: keeping work_step_refl)
qed

section \<open>Reachable states\<close>

lemma handler_kinds: "handler rt name = Some f \<Longrightarrow> keeps keyed_step (f ps) \<or> guarded rt (f ps)"
proof -
  assume f: "handler rt name = Some f"
  have status: "keeps keyed_step (answering (\<lambda>h. (Inr (authStatus rt h), h)))"
    by (rule keeps_answering [OF keyed_step_refl keyed_step_trans keeps_same [OF keyed_step_refl]]) simp
  have headers: "keeps keyed_step (andThen buildAuthHeaders (\<lambda>a. succeed (Answer (auth_headers_json rt a))))"
    by (intro keyed_rules keeping keyed_step_refl)
  from map_of_SomeD [OF f [unfolded handler_def]] show ?thesis
    using exec_guarded [of rt ps] status headers
    by (auto intro!: keeping keyed_step_refl keyed_step_trans)
qed

lemma run_handler_kinds: "keeps keyed_step (run_handler rt name ps) \<or> guarded rt (run_handler rt name ps)"
  using handler_kinds [of rt name] by (auto simp: run_handler_def keyed_rules split: option.split)

lemma run_handler_steps:
  assumes "run_handler rt name ps h = (r, h')"
  shows "work_step rt h h' \<and> (outside_same h h' \<or> (live_auth h \<noteq> None \<and> \<not> locked h))"
proof -
  consider "keeps keyed_step (run_handler rt name ps)" | body where "run_handler rt name ps = gated body" "keeps (work_step rt) body"
    using run_handler_kinds [of rt name ps] by (auto simp: guarded_def)
  then show ?thesis
  proof cases
    case 1
    with assms keepsD vault_work show ?thesis by (fastforce simp: keyed_step_def)
  next
    case 2
    then have "work_step rt h h'" using assms keepsD [OF keeps_gated] by metis
    moreover have "outside_same h h' \<or> (live_auth h \<noteq> None \<and> \<not> locked h)"
      using gated_cases [OF assms [unfolded 2(1)]] by (auto simp: outside_same_def)
    ultimately show ?thesis by simp
  qed
qed

text \<open>A root key comes into memory in one way: an unlock request waited for the profile, and the password given with it
  derives the key that opens the wrapped root key of the reply under the profile and key version of the reply.\<close>

definition opens_with :: "runtime \<Rightarrow> string \<Rightarrow> vault_meta \<Rightarrow> bytes \<Rightarrow> bool" where
  "opens_with rt pw meta root \<longleftrightarrow> (\<exists>salt k c. decode_base64 (vm_kdfSalt meta) = Inr salt \<and>
     nb_argon2id (rt_noble rt) (encode_text pw) salt (kdf_opts (vm_kdfParams meta)) = Inr k \<and>
     decode_base64 (vm_wrappedRootKey meta) = Inr c \<and>
     nb_decrypt (rt_noble rt) k (take 24 c) (buildZkRootWrapAad (vm_id meta) (vm_keyVersion meta)) (drop 24 c) = Inr root)"

lemma unlock_opens:
  assumes "unlock (rt_noble rt) pw meta h = (Inr x, h')"
  shows "\<exists>k root. opens_with rt pw meta root \<and> h' = resetAutoLock (h\<lparr>mem_heap := mem_heap h @ [k, root],
     vs_rootKey := Some (Suc (length (mem_heap h))), vs_meta := Some meta\<rparr>)"
  using assms unfolding unlock_run opens_with_def by (auto split: sum.splits)

lemma finish_unlock_cases:
  assumes "finish_unlock rt pw reply h = (r, h')"
  shows "keyed_step h h' \<or> (\<exists>meta k root. fetchVaultMeta reply = Inr (Some meta) \<and> opens_with rt pw meta root \<and>
     h' = resetAutoLock (h\<lparr>mem_heap := mem_heap h @ [k, root], vs_rootKey := Some (Suc (length (mem_heap h))), vs_meta := Some meta\<rparr>))"
proof (cases "fetchVaultMeta reply")
  case (Inl e)
  with assms show ?thesis by (simp add: finish_unlock_def fail_with_def reflpD [OF keyed_step_refl])
next
  case (Inr found)
  show ?thesis
  proof (cases found)
    case None
    with Inr assms show ?thesis by (simp add: finish_unlock_def fail_with_def reflpD [OF keyed_step_refl])
  next
    case (Some meta)
    obtain u h1 where u: "unlock (rt_noble rt) pw meta h = (u, h1)" by (cases "unlock (rt_noble rt) pw meta h")
    with assms Inr Some have h': "h' = h1"
      by (auto simp: finish_unlock_def followed_by_def andThen_def rethrowing_def ok_answer_def succeed_def split: sum.splits)
    show ?thesis
    proof (cases u)
      case (Inl e)
      with unlock_cases [OF u] mem_only_step h' show ?thesis by auto
    next
      case (Inr x)
      with unlock_opens u h' Some \<open>fetchVaultMeta reply = Inr found\<close> show ?thesis by blast
    qed
  qed
qed

lemma resume_cases:
  assumes "resume rt k reply h = (r, h')"
  shows "keyed_step h h' \<or> (\<exists>pw p. k = Unlocking pw \<and> reply = Profile_reply p \<and> finish_unlock rt pw p h = (r, h'))"
proof (cases "\<exists>pw p. k = Unlocking pw \<and> reply = Profile_reply p")
  case False
  then have "keeps keyed_step (resume rt k reply)"
    by (auto simp: resume_def split: waiting.split api_reply.split intro!: keyed_rules keeping keyed_step_refl)
  with assms keepsD show ?thesis by fast
qed (use assms in \<open>auto simp: resume_def\<close>)

lemma settle_host [simp]: "fst (fst (settle rt i ws rh)) = snd rh"
  by (auto simp: settle_def split: prod.split sum.split outcome.split)

text \<open>The effect of one event on the host.\<close>

lemma react_host:
  assumes "react rt e (h, ws) = (c', r)"
  shows "(\<exists>name ps. snd (run_handler rt name ps h) = fst c') \<or> fst c' = h \<or>
     (\<exists>n i c k reply. e = Reply n reply \<and> ws ! n = (i, c, k) \<and> snd (resume rt k reply h) = fst c') \<or>
     (\<exists>t. fst c' = h\<lparr>vs_now := max t (vs_now h)\<rparr>) \<or>
     (\<exists>d. vs_autoLockTimer h = Some d \<and> d \<le> vs_now h \<and> fst c' = auto_lock h)"
proof (cases e)
  case (Request_line raw)
  with assms show ?thesis
    by (auto simp: dispatch_def split: dispatched.splits) (metis fst_conv settle_host)
next
  case (Reply n reply)
  show ?thesis
  proof (cases "n < length ws")
    case True
    obtain i c k where w: "ws ! n = (i, c, k)" by (cases "ws ! n")
    with assms Reply True have "snd (resume rt k reply h) = fst c'" by (auto simp: prod_eq_iff) 
    with Reply w show ?thesis by blast
  qed (use assms Reply in auto)
qed (use assms in \<open>auto split: option.splits if_splits\<close>)

lemma auto_lock_ok: "vault_ok h \<Longrightarrow> vault_ok (auto_lock h) \<and> locked (auto_lock h)" and auto_lock_outside: "outside_same h (auto_lock h)"
  by (auto simp: auto_lock_def lock_def clearAutoLock_def vault_ok_def locked_def outside_same_def split: option.splits)

lemma later_ok: "vault_ok h \<Longrightarrow> vault_ok (h\<lparr>vs_now := max t (vs_now h)\<rparr>)"
  by (auto simp: vault_ok_def split: option.splits if_splits)

lemma react_ok:
  assumes "react rt e (h, ws) = (c', r)" "vault_ok h" "confined rt h"
  shows "vault_ok (fst c') \<and> confined rt (fst c')"
proof -
  have out: "outside_same h h' \<Longrightarrow> confined rt h'" for h' using assms(3) by (simp add: outside_same_def confined_def)
  have res: "vault_ok (snd (resume rt k reply h)) \<and> confined rt (snd (resume rt k reply h))" for k reply
  proof -
    obtain x h' where r: "resume rt k reply h = (x, h')" by (cases "resume rt k reply h")
    from resume_cases [OF this] finish_unlock_cases [of rt _ _ h x h']
    consider "keyed_step h h'" | meta k root where
      "h' = resetAutoLock (h\<lparr>mem_heap := mem_heap h @ [k, root], vs_rootKey := Some (Suc (length (mem_heap h))), vs_meta := Some meta\<rparr>)" by blast
    then show ?thesis
    proof cases
      case 1
      with r assms(2) out show ?thesis by (simp add: keyed_step_def)
    next
      case 2
      then have "vault_ok h'" by (simp add: resetAutoLock_def clearAutoLock_def vault_ok_def Let_def)
      moreover have "outside_same h h'" using 2 by (simp add: outside_same_def resetAutoLock_def clearAutoLock_def Let_def)
      ultimately show ?thesis using r out by simp
    qed
  qed
  have run: "vault_ok (snd (run_handler rt name ps h)) \<and> confined rt (snd (run_handler rt name ps h))" for name ps
    using run_handler_steps [of rt name ps h] assms(2,3) by (metis prod.collapse work_step_def)
  from react_host [OF assms(1)] show ?thesis
  proof (elim disjE exE conjE)
    fix t assume "fst c' = h\<lparr>vs_now := max t (vs_now h)\<rparr>"
    then show ?thesis using assms(3) later_ok [OF assms(2)] by (simp add: confined_def)
  qed (use run res assms(2,3) auto_lock_ok [OF assms(2)] out [OF auto_lock_outside] in \<open>metis+\<close>)
qed

lemma reachable_ok: "reachable rt c \<Longrightarrow> vault_ok (fst c) \<and> confined rt (fst c)"
proof (induction rule: reachable.induct)
  case (started h)
  then show ?case by (simp add: fresh_def vault_ok_def confined_def)
next
  case (step c e c' r)
  then show ?case using react_ok by (metis prod.collapse)
qed


text \<open>C12: a step that starts a process, or writes or removes a file, begins with a live operator session and
  an unlocked vault; and the vault goes from locked to unlocked only when the reply to an unlock request arrives and
  the password given with it opens the wrapped root key of that reply, which is then the key held.\<close>

theorem daemon_acts_only_when_open:
  assumes "react rt e (h, ws) = ((h', ws'), r)"
  shows "(dm_children h' \<noteq> dm_children h \<or> dm_files h' \<noteq> dm_files h \<or> dm_mounted h' \<noteq> dm_mounted h \<longrightarrow>
       live_auth h \<noteq> None \<and> vs_rootKey h \<noteq> None) \<and>
     (vs_rootKey h = None \<and> vs_rootKey h' \<noteq> None \<longrightarrow>
       (\<exists>n i c pw reply meta. e = Reply n (Profile_reply reply) \<and> ws ! n = (i, c, Unlocking pw) \<and>
          fetchVaultMeta reply = Inr (Some meta) \<and> opens_with rt pw meta (mem_heap h' ! the (vs_rootKey h'))))"
proof (cases "outside_same h h' \<and> (vs_rootKey h = None \<longrightarrow> vs_rootKey h' = None)")
  case False
  let ?opened = "\<exists>n i c pw reply meta. e = Reply n (Profile_reply reply) \<and> ws ! n = (i, c, Unlocking pw) \<and>
          fetchVaultMeta reply = Inr (Some meta) \<and> opens_with rt pw meta (mem_heap h' ! the (vs_rootKey h'))"
  from react_host [OF assms] show ?thesis
  proof (elim disjE exE conjE)
    fix name ps assume "snd (run_handler rt name ps h) = fst (h', ws')"
    then obtain x where "run_handler rt name ps h = (x, h')" by (metis fst_conv prod.collapse)
    from run_handler_steps [OF this] show ?thesis by (auto simp: work_step_def outside_same_def locked_def)
  next
    fix n i c k reply assume reply: "e = Reply n reply" "ws ! n = (i, c, k)" "snd (resume rt k reply h) = fst (h', ws')"
    then obtain x where x: "resume rt k reply h = (x, h')" by (metis fst_conv prod.collapse)
    from resume_cases [OF x] show ?thesis
    proof (elim disjE exE conjE)
      assume "keyed_step h h'"
      with False show ?thesis by (simp add: keyed_step_def locked_def)
    next
      fix pw p assume k: "k = Unlocking pw" "reply = Profile_reply p" "finish_unlock rt pw p h = (x, h')"
      from finish_unlock_cases [OF k(3)] show ?thesis
      proof (elim disjE exE conjE)
        assume "keyed_step h h'"
        with False show ?thesis by (simp add: keyed_step_def locked_def)
      next
        fix meta ky root assume o: "fetchVaultMeta p = Inr (Some meta)" "opens_with rt pw meta root"
          "h' = resetAutoLock (h\<lparr>mem_heap := mem_heap h @ [ky, root], vs_rootKey := Some (Suc (length (mem_heap h))), vs_meta := Some meta\<rparr>)"
        have "mem_heap h' ! the (vs_rootKey h') = root" "outside_same h h'"
          by (simp_all add: o(3) resetAutoLock_def clearAutoLock_def Let_def nth_append outside_same_def)
        with o(1,2) reply(1,2) k(1,2) have "?opened" by blast
        with \<open>outside_same h h'\<close> show ?thesis by (simp add: outside_same_def)
      qed
    qed
  next
    fix t assume "fst (h', ws') = h\<lparr>vs_now := max t (vs_now h)\<rparr>"
    then show ?thesis by auto
  next
    fix d assume "fst (h', ws') = auto_lock h"
    then show ?thesis using auto_lock_outside [of h] by (auto simp: outside_same_def auto_lock_def lock_def clearAutoLock_def split: option.splits)
  qed auto
qed (auto simp: outside_same_def)

text \<open>C16: from every reachable state, once the auto-lock period has passed with no request in between, the
  timer is due and its callback leaves the vault locked and the buffer that held the root key filled with zeros.\<close>

theorem idle_vault_locks:
  assumes "reachable rt (h, ws)" "vs_autoLockMs h > 0" "t \<ge> vs_now h + vs_autoLockMs h"
  shows "let h' = fst (fst (react rt Timer_due (fst (react rt (Clock t) (h, ws))))) in
     vs_rootKey h' = None \<and> vs_autoLockTimer h' = None \<and>
     (case vs_rootKey h of None \<Rightarrow> mem_heap h' = mem_heap h
      | Some a \<Rightarrow> mem_heap h' = (mem_heap h)[a := replicate (length (mem_heap h ! a)) 0] \<and> a < length (mem_heap h'))"
proof -
  have ok: "vault_ok h" using reachable_ok [OF assms(1)] by simp
  show ?thesis
  proof (cases "vs_rootKey h")
    case None
    with ok have "vs_autoLockTimer h = None" by (simp add: vault_ok_def)
    with None show ?thesis by simp
  next
    case (Some a)
    with ok assms(2) obtain d where "vs_autoLockTimer h = Some d" "d \<le> vs_now h + vs_autoLockMs h" "a < length (mem_heap h)"
      by (auto simp: vault_ok_def)
    with Some assms(3) show ?thesis by (simp add: auto_lock_def lock_def clearAutoLock_def Let_def)
  qed
qed

end
