(* ===== verification/Daemon_Properties.thy ===== *)
theory Daemon_Properties
  imports Daemon_Run
begin

text \<open>
  What the daemon's vault means for its user: a changed password opens the same root key once the server stored
  what the daemon sent, an environment for all secrets of a profile holds exactly the secrets of the items that
  have one, and the framing of requests does not depend on how the bytes arrive. A concrete daemon shows that the
  hypotheses can hold.
\<close>

section \<open>Changing the password\<close>

definition kdf_ok :: "noble \<Rightarrow> json \<Rightarrow> bool" where
  "kdf_ok nb params \<longleftrightarrow> (\<forall>pw salt. length salt = 16 \<longrightarrow> (\<exists>k. nb_argon2id nb pw salt (kdf_opts params) = Inr k \<and> length k = 32))"

lemma lift_err_case: "andThen (lift_err r) g m = (case r of Inl e \<Rightarrow> (Inl e, m) | Inr x \<Rightarrow> g x m)"
  by (simp split: sum.split)

lemma open_steps:
  "vs_rootKey h = Some a \<Longrightarrow> andThen requireUnlocked f h = f a h"
  "vs_rootKey h = None \<Longrightarrow> andThen requireUnlocked f h = (Inl (PlainErr ''Vault is locked''), h)"
  by (simp_all add: andThen_def requireUnlocked_def)

lemma changePassword_rewraps:
  assumes "cipher_correct nb" "fills_buffers h" "kdf_ok nb (vm_kdfParams meta)"
    and "vs_rootKey h = Some a" "a < length (mem_heap h)" "changePassword nb old new meta h = (Inr res, h')"
  shows "\<exists>salt n c k. rw_kdfSalt res = toBase64 salt \<and> length salt = 16 \<and> rw_kdfParams res = vm_kdfParams meta \<and>
     rw_wrappedRootKey res = toBase64 (n @ c) \<and> length n = 24 \<and>
     nb_argon2id nb (encode_text new) salt (kdf_opts (vm_kdfParams meta)) = Inr k \<and>
     nb_decrypt nb k n (buildZkRootWrapAad (vm_id meta) (vm_keyVersion meta)) c = Inr (mem_heap h ! a)"
proof -
  let ?m = "mem_random h" and ?d = "mem_draws h"
  let ?salt = "?m ?d 16" and ?n = "?m (Suc ?d) 24" and ?aad = "buildZkRootWrapAad (vm_id meta) (vm_keyVersion meta)"
  have len: "length ?salt = 16" "length ?n = 24" using assms(2) by simp_all
  with assms(3) obtain k where k: "nb_argon2id nb (encode_text new) ?salt (kdf_opts (vm_kdfParams meta)) = Inr k" "length k = 32"
    unfolding kdf_ok_def by metis
  obtain c where c: "nb_encrypt nb k ?n ?aad (mem_heap h ! a) = Inr c" "nb_decrypt nb k ?n ?aad c = Inr (mem_heap h ! a)"
    using cipher_correctE [OF assms(1) k(2) len(2)] by metis
  have "rw_kdfSalt res = toBase64 ?salt \<and> rw_kdfParams res = vm_kdfParams meta \<and> rw_wrappedRootKey res = toBase64 (?n @ c)"
    using assms(4-6) k c
    by (auto simp: changePassword_def open_steps deriveKEK_def unwrapRootKey_def wrapRootKey_def generateSalt_def NONCE_LEN_def
        kdf_opts_def andThen_assoc lift_err_case resetting_def nth_append nth_list_update split: sum.splits)
  with len k c show ?thesis by blast
qed

lemma toBase64_nonempty: "bs \<noteq> [] \<Longrightarrow> toBase64 bs \<noteq> []"
proof -
  have "toBase64 [] = []" by (simp add: toBase64_def btoa_def b64_padding_def strip_padding_def)
  then show "bs \<noteq> [] \<Longrightarrow> toBase64 bs \<noteq> []" by (metis fromBase64_toBase64 option.inject)
qed

definition stored_change :: "string \<Rightarrow> rewrapped \<Rightarrow> root_key_input" where
  "stored_change profileId res = \<lparr>rk_profileId = profileId, rk_wrappedRootKey = rw_wrappedRootKey res,
     rk_kdfSalt = rw_kdfSalt res, rk_kdfParams = rw_kdfParams res\<rparr>"


text \<open>The key that is wrapped is the one in memory, whichever profile the request names: if the vault holds the key of
  another profile, the password change puts that key in the place of the profile's own.\<close>

lemma password_change_of_another_profile:
  assumes "cipher_correct nb" "fills_buffers h" "kdf_ok nb (vm_kdfParams meta)"
    and "vs_rootKey h = Some a" "a < length (mem_heap h)" "changePassword nb old new meta h = (Inr res, h')"
    and "mem_heap h ! a \<noteq> own"
  shows "\<exists>n c k. rw_wrappedRootKey res = toBase64 (n @ c) \<and>
     nb_decrypt nb k n (buildZkRootWrapAad (vm_id meta) (vm_keyVersion meta)) c = Inr (mem_heap h ! a) \<and> mem_heap h ! a \<noteq> own"
  using changePassword_rewraps [OF assms(1-6)] assms(7) by blast

section \<open>The environment of all secrets\<close>

text \<open>What opening an item under a root key yields, and the secret an item contributes, without a machine.\<close>

definition open_item :: "noble \<Rightarrow> bytes \<Rightarrow> string \<Rightarrow> string \<Rightarrow> string \<Rightarrow> string \<Rightarrow> int option \<Rightarrow> err + bytes" where
  "open_item nb root ek ct prof it v =
     (case decode_base64 ek of Inl e \<Rightarrow> Inl e | Inr kc \<Rightarrow>
      case nb_decrypt nb root (take 24 kc) (buildZkDekWrapAad prof it) (drop 24 kc) of Inl e \<Rightarrow> Inl e | Inr dek \<Rightarrow>
      case decode_base64 ct of Inl e \<Rightarrow> Inl e | Inr cc \<Rightarrow>
      nb_decrypt nb dek (take 24 cc) (buildZkContentAad prof it (orElse v 1)) (drop 24 cc))"

definition item_json :: "noble \<Rightarrow> bytes \<Rightarrow> json_object \<Rightarrow> json option" where
  "item_json nb root item =
     (if str_param ''storageMode'' item = Some ''zero_knowledge''
      then (case open_item nb root (the (str_param ''encryptedItemKey'' item)) (the (str_param ''ciphertext'' item))
              (the (str_param ''profileId'' item)) (the (str_param ''itemId'' item)) (num_param ''contentVersion'' item) of
          Inl e \<Rightarrow> None | Inr bytes \<Rightarrow> JSON_parse (decode_text bytes))
      else Some (orElse (map_of item ''payload'') JNull))"

definition contribution :: "noble \<Rightarrow> bytes \<Rightarrow> json \<Rightarrow> (string \<times> string \<times> string) list" where
  "contribution nb root j = (case j of JObj item \<Rightarrow>
       (case Option.bind (item_json nb root item) single_secret of None \<Rightarrow> []
        | Some v \<Rightarrow> [(the (str_param ''itemId'' item), the (str_param ''label'' item), v)])
     | _ \<Rightarrow> [])"

lemma andThen_followed: "andThen (followed_by m k) f = followed_by m (andThen k f)"
  by (simp add: followed_by_def andThen_assoc)

lemma decrypt_pure:
  assumes "vs_rootKey h = Some a" "a < length (mem_heap h)" "decrypt nb ek ct prof it v (h :: host) = (Inr j, h')"
  shows "\<exists>bs. open_item nb (mem_heap h ! a) ek ct prof it v = Inr bs \<and> JSON_parse (decode_text bs) = Some j \<and>
     vs_rootKey h' = Some a \<and> a < length (mem_heap h') \<and> mem_heap h' ! a = mem_heap h ! a"
  using assms
  by (auto simp: decrypt_def open_steps decryptItem_def unwrap_dek_def andThen_assoc andThen_followed lift_err_case NONCE_LEN_def
      open_item_def deserializeItemPayload_def resetting_def resetAutoLock_def clearAutoLock_def Let_def nth_append list_update_append
      split: sum.splits option.splits if_splits)

definition keys_from_labels :: "runtime \<Rightarrow> bulk_entry list \<Rightarrow> bool" where
  "keys_from_labels rt es \<longleftrightarrow> distinct (map be_key es) \<and>
     list_all (\<lambda>e. be_key e = labelToEnvKey (rt_toUpperCase rt) (be_label e) \<and> env_key_ok (be_key e)) es"

abbreviation secrets :: "bulk_entry list \<Rightarrow> (string \<times> string \<times> string) list" where
  "secrets es \<equiv> map (\<lambda>e. (be_itemId e, be_label e, be_value e)) es"

lemma bulk_payload_pure:
  assumes "vs_rootKey h = Some a" "a < length (mem_heap h)" "str_param ''itemId'' item = Some i" "bulk_payload rt item i h = (Inr j, h')"
  shows "item_json (rt_noble rt) (mem_heap h ! a) item = Some j \<and> vs_rootKey h' = Some a \<and> a < length (mem_heap h') \<and>
     mem_heap h' ! a = mem_heap h ! a"
  using assms decrypt_pure [OF assms(1,2), of "rt_noble rt"]
  by (fastforce simp: bulk_payload_def item_json_def throwing_def invalid_def fail_with_def succeed_def split: if_splits sum.splits prod.splits)

lemma bulk_item_reference:
  assumes "vs_rootKey h = Some a" "a < length (mem_heap h)" "bulk_item rt acc j h = (Inr acc', h')"
  shows "(\<exists>new. acc' = acc @ new \<and> secrets new = contribution (rt_noble rt) (mem_heap h ! a) j) \<and>
     (keys_from_labels rt acc \<longrightarrow> keys_from_labels rt acc') \<and>
     vs_rootKey h' = Some a \<and> a < length (mem_heap h') \<and> mem_heap h' ! a = mem_heap h ! a"
proof -
  from assms(3) obtain item i l where it: "j = JObj item" "str_param ''itemId'' item = Some i" "str_param ''label'' item = Some l"
    by (cases j) (auto simp: bulk_item_def invalid_def fail_with_def split: if_splits elim!: truthyE)
  from assms(3) it obtain p h1 where p: "bulk_payload rt item i h = (Inr p, h1)"
    "(case single_secret p of None \<Rightarrow> succeed acc | Some v \<Rightarrow> add_secret rt acc i (the (str_param ''label'' item)) v) h1 = (Inr acc', h')"
    by (auto simp: bulk_item_def Let_def andThen_Inr invalid_def fail_with_def split: if_splits)
  note pure = bulk_payload_pure [OF assms(1,2) it(2) p(1)]
  show ?thesis
  proof (cases "single_secret p")
    case None
    with p(2) pure it(1) show ?thesis by (simp add: succeed_def contribution_def)
  next
    case (Some v)
    with p(2) it(3) have "add_secret rt acc i l v h1 = (Inr acc', h')" by simp
    from add_secret_ok [OF this] pure it Some show ?thesis
      by (auto simp: contribution_def keys_from_labels_def)
  qed
qed

lemma bulk_env_reference:
  assumes "vs_rootKey h = Some a" "a < length (mem_heap h)" "bulk_env rt acc items h = (Inr es, h')"
  shows "(\<exists>new. es = acc @ new \<and> secrets new = concat (map (contribution (rt_noble rt) (mem_heap h ! a)) items)) \<and>
     (keys_from_labels rt acc \<longrightarrow> keys_from_labels rt es)"
  using assms
proof (induction items arbitrary: acc h)
  case (Cons j js)
  then obtain acc1 h1 where b: "bulk_item rt acc j h = (Inr acc1, h1)" "bulk_env rt acc1 js h1 = (Inr es, h')" by (auto simp: andThen_Inr)
  note one = bulk_item_reference [OF Cons.prems(1,2) b(1)]
  from one obtain new1 where new1: "acc1 = acc @ new1" "secrets new1 = contribution (rt_noble rt) (mem_heap h ! a) j" by blast
  from Cons.IH [OF _ _ b(2)] one obtain new where new: "es = acc1 @ new"
    "secrets new = concat (map (contribution (rt_noble rt) (mem_heap h ! a)) js)" "keys_from_labels rt acc1 \<longrightarrow> keys_from_labels rt es" by auto
  have "es = acc @ new1 @ new \<and> secrets (new1 @ new) = concat (map (contribution (rt_noble rt) (mem_heap h ! a)) (j # js))"
    using new1 new(1,2) by simp
  then show ?case using one new(3) by blast
qed (simp add: succeed_def)

text \<open>C14: when all secrets of a profile are injected into a command, the environment of the process is the inherited
  one, less the daemon's own variables, overridden by exactly one variable for each item of the list that has exactly
  one text field, holding that field as the root key in memory opens it, under the name made of the item's label;
  the names are valid, not reserved and pairwise different, so no secret hides another.\<close>

theorem bulk_environment_matches_reference:
  assumes "execEnvBulk rt ps h = (r, h')" "dm_children h' \<noteq> dm_children h" "map_of ps ''items'' = Some (JArr items)"
    and "vs_rootKey h = Some a" "a < length (mem_heap h)"
  shows "length items \<le> BULK_ITEMS_MAX \<and> (\<exists>es ch. dm_children h' = dm_children h @ [ch] \<and>
     secrets es = concat (map (contribution (rt_noble rt) (mem_heap h ! a)) items) \<and> keys_from_labels rt es \<and>
     ch_env ch = buildChildEnv (rt_environ rt) ++ map_of (map (\<lambda>e. (be_key e, be_value e)) es))"
proof -
  let ?body = "\<lambda>es. spawn rt ps (map (\<lambda>e. (be_key e, be_value e)) es)"
  from gated_cases [OF assms(1) [unfolded execEnvBulk_def]] assms(2,3)
  have n: "length items \<le> BULK_ITEMS_MAX" and run: "andThen (bulk_env rt [] items) ?body h = (r, h')"
    by (auto simp: invalid_def fail_with_def not_le split: if_splits)
  obtain x h1 where b: "bulk_env rt [] items h = (x, h1)" by (cases "bulk_env rt [] items h")
  with keepsD [OF keeps_bulk_env] have "keyed_step h h1" by blast
  then have same: "dm_children h1 = dm_children h" by (simp add: keyed_step_def outside_same_def)
  show ?thesis
  proof (cases x)
    case (Inl e)
    with run b same assms(2) show ?thesis by (simp add: andThen_def)
  next
    case (Inr es)
    with run b have "?body es h1 = (r, h')" by (simp add: andThen_def)
    with same assms(2) obtain ch where ch: "dm_children h' = dm_children h @ [ch]"
      "ch_env ch = buildChildEnv (rt_environ rt) ++ map_of (map (\<lambda>e. (be_key e, be_value e)) es)"
      by (auto simp: spawn_def Let_def split: option.splits)
    moreover have "keys_from_labels rt []" by (simp add: keys_from_labels_def)
    ultimately show ?thesis using n bulk_env_reference [OF assms(4,5) b [unfolded Inr]] by auto
  qed
qed

text \<open>Each of the variables reads as its own secret.\<close>

lemma bulk_lookup:
  "keys_from_labels rt es \<Longrightarrow> e \<in> set es \<Longrightarrow> (env ++ map_of (map (\<lambda>e. (be_key e, be_value e)) es)) (be_key e) = Some (be_value e)"
  by (simp add: keys_from_labels_def map_add_Some_iff map_of_eq_Some_iff comp_def)

section \<open>Framing\<close>

text \<open>However the bytes of a session are cut into chunks, the lines are the same, if every chunk is complete text.\<close>

lemma split_lines_append:
  "split_lines (s @ t) = (let (ls, rest) = split_lines s; (ms, rest') = split_lines (rest @ t) in (ls @ ms, rest'))"
proof (induction s)
  case (Cons c s)
  obtain ls rest where s: "split_lines s = (ls, rest)" by (cases "split_lines s")
  obtain ms rest' where t: "split_lines (rest @ t) = (ms, rest')" by (cases "split_lines (rest @ t)")
  show ?case using Cons s t by (cases ls) (auto simp: Let_def split: prod.splits list.splits)
qed simp

fun on_chunks :: "(string \<Rightarrow> string) \<Rightarrow> string \<Rightarrow> string list \<Rightarrow> string list \<times> string" where
  "on_chunks toString prev [] = ([], prev)"
| "on_chunks toString prev (d # ds) = (let (ls, rest) = on_data toString prev d; (ms, rest') = on_chunks toString rest ds in (ls @ ms, rest'))"

lemma split_rest: "split_lines s = (ls, rest) \<Longrightarrow> split_lines rest = ([], rest)"
  by (induction s arbitrary: ls rest) (auto simp: Let_def split: prod.splits list.splits if_splits)

lemma on_chunks_id: "(\<And>d. d \<in> set ds \<Longrightarrow> toString d = d) \<Longrightarrow> on_chunks toString prev ds = on_chunks id prev ds"
  by (induction ds arbitrary: prev) (auto simp: on_data_def Let_def split: prod.splits)

lemma on_chunks_concat: "split_lines prev = ([], prev) \<Longrightarrow> on_chunks id prev ds = on_data id prev (concat ds)"
proof (induction ds arbitrary: prev)
  case (Cons d ds)
  obtain ls rest where s: "split_lines (prev @ d) = (ls, rest)" by (cases "split_lines (prev @ d)")
  from Cons.IH [OF split_rest [OF s]] s split_lines_append [of "prev @ d" "concat ds"] show ?case
    by (auto simp: on_data_def Let_def split: prod.splits)
qed (simp add: on_data_def)

lemma framing_independent_of_chunks:
  assumes "\<And>d. d \<in> set ds \<Longrightarrow> toString d = d" "toString (concat ds) = concat ds" "split_lines prev = ([], prev)"
  shows "on_chunks toString prev ds = on_data toString prev (concat ds)"
  using on_chunks_id [of ds toString, OF assms(1)] on_chunks_concat [OF assms(3)] assms(2) by (simp add: on_data_def)

section \<open>A concrete daemon\<close>

definition toy_runtime :: runtime where
  "toy_runtime = \<lparr>rt_noble = toy_noble, rt_identity = \<lparr>di_publicKey = ''k'', di_sessionStartMs = 0, di_fingerprint = ''f''\<rparr>,
     rt_sign = (\<lambda>s. Inr s), rt_dateMs = (\<lambda>_. None), rt_toISO = (\<lambda>_. ''t''), rt_toUpperCase = id,
     rt_environ = [(''LANG'', ''C''), (''ABADGE_TOKEN'', ''x'')], rt_spawn = (\<lambda>_. None), rt_tmpdir = ''/tmp'', rt_resolve = id,
     rt_join = (\<lambda>a b. a @ ''/'' @ b), rt_write = (\<lambda>_ _. None), rt_rm = (\<lambda>_. True), rt_errCode = (\<lambda>_. None)\<rparr>"

lemma toy_runtime_noble [simp]: "rt_noble toy_runtime = toy_noble"
  by (simp add: toy_runtime_def)

lemma toy_kdf_ok: "kdf_ok toy_noble params"
  unfolding kdf_ok_def toy_noble_def by (simp add: min_def)

definition fresh_host :: host where
  "fresh_host = \<lparr>mem_heap = [], mem_random = (\<lambda>i n. replicate n (of_nat i)), mem_draws = 0, vs_rootKey = None, vs_meta = None,
     vs_autoLockTimer = None, vs_autoLockMs = 900, vs_now = 100, dm_auth = None, dm_mounted = [], dm_files = Map.empty, dm_children = []\<rparr>"

definition open_host :: host where
  "open_host = fresh_host\<lparr>mem_heap := [replicate 32 7], vs_rootKey := Some 0, vs_autoLockTimer := Some 1000,
     dm_auth := Some \<lparr>da_token = ''tk'', da_expiresAt = 5000, da_organizationId = None\<rparr>\<rparr>"

definition sample_bulk_item :: json where
  "sample_bulk_item = JObj [(''itemId'', JStr ''i1''), (''label'', JStr ''A_KEY''),
     (''storageMode'', JStr ''server_managed''), (''payload'', JObj [(''fields'', JObj [(''value'', JStr ''s3'')])])]"

definition sample_bulk :: json_object where
  "sample_bulk = [(''command'', JStr ''env''), (''items'', JArr [sample_bulk_item])]"

lemma fresh_reachable: "reachable toy_runtime (fresh_host, [])"
  by (rule reachable.started) (simp add: fresh_def fresh_host_def)

text \<open>A session, an unlock request and the reply of the API.\<close>

definition login_json :: json where
  "login_json = JObj [(''jsonrpc'', JStr ''2.0''), (''id'', JNum 1), (''method'', JStr ''auth.setSession''),
     (''params'', JObj [(''token'', JStr ''tk''), (''type'', JStr ''better_auth_session'')])]"

definition unlock_json :: json where
  "unlock_json = JObj [(''jsonrpc'', JStr ''2.0''), (''id'', JNum 2), (''method'', JStr ''vault.unlock''),
     (''params'', JObj [(''masterPassword'', JStr ''pw''), (''profileId'', JStr ''p1'')])]"

lemma lines_parse: "JSON_parse (JSON_stringify login_json) = Some login_json" "JSON_parse (JSON_stringify unlock_json) = Some unlock_json"
  by (rule parse_stringify, code_simp)+

definition profile_answer :: profile_view where
  "profile_answer = \<lparr>pv_id = ''p1'', pv_org = ''o1'', pv_name = ''n'', pv_externalId = None, pv_description = None,
     pv_storageMode = Zero_knowledge, pv_wrappedRootKey = Some (toBase64 (replicate 24 0 @ toy_header (Some (buildZkRootWrapAad ''p1'' 1)) @ [5, 6])),
     pv_kdfSalt = Some (toBase64 [1]), pv_kdfParams = Some (JObj []), pv_recoveryWrappedRootKey = None, pv_keyVersion = 1,
     pv_createdAt = 0, pv_updatedAt = 0\<rparr>"

definition after_login :: conf where
  "after_login = fst (react toy_runtime (Request_line (JSON_stringify login_json)) (fresh_host, []))"

definition after_request :: conf where
  "after_request = fst (react toy_runtime (Request_line (JSON_stringify unlock_json)) after_login)"

definition unlocked_conf :: conf where
  "unlocked_conf = fst (react toy_runtime (Reply 0 (Profile_reply (Inr profile_answer))) after_request)"

lemma reachable_fst: "reachable rt c \<Longrightarrow> reachable rt (fst (react rt e c))"
  by (cases "react rt e c") (auto intro: reachable.step)

lemma unlocked_reachable: "reachable toy_runtime unlocked_conf"
  unfolding unlocked_conf_def after_request_def after_login_def
  by (intro reachable_fst fresh_reachable)

definition toy_session :: daemon_auth where
  "toy_session = \<lparr>da_token = ''tk'', da_expiresAt = 100 + MAX_AUTH_SESSION_MS, da_organizationId = None\<rparr>"

lemma after_login_eq: "after_login = (fresh_host\<lparr>dm_auth := Some toy_session\<rparr>, [])"
  by (simp add: after_login_def dispatch_def parse_request_def lines_parse) (simp add: login_json_def property_def handler_def run_handler_def
      answering_def setSession_def str_param_def resolveAuthExpiry_def org_param_def toy_session_def fresh_host_def andThen_def succeed_def
      settle_def MAX_AUTH_SESSION_MS_def Let_def)

lemma after_request_eq: "after_request =
    (fresh_host\<lparr>dm_auth := Some toy_session\<rparr>, [(JNum 2, Get_profile toy_session ''p1'' None, Unlocking ''pw'')])"
  by (simp add: after_request_def after_login_eq dispatch_def parse_request_def lines_parse) (simp add: unlock_json_def property_def handler_def
      run_handler_def vaultUnlock_def str_param_def fetch_meta_def buildAuthHeaders_def live_auth_def isAuthExpired_def locked_def
      toy_session_def fresh_host_def andThen_def succeed_def settle_def MAX_AUTH_SESSION_MS_def Let_def)

lemma unlocked_facts: "vs_rootKey (fst unlocked_conf) = Some 1 \<and> mem_heap (fst unlocked_conf) ! 1 = [5, 6] \<and>
    vs_autoLockMs (fst unlocked_conf) = 900 \<and> vs_now (fst unlocked_conf) = 100"
  by (simp add: unlocked_conf_def after_request_eq resume_def finish_unlock_def fetchVaultMeta_def profile_answer_def unlock_run
      toy_noble_def toy_strip_append toBase64_nonempty rethrowing_def followed_by_def andThen_def ok_answer_def succeed_def settle_def
      resetAutoLock_def clearAutoLock_def fresh_host_def Let_def)

lemma request_facts: "vs_rootKey (fst after_request) = None"
  by (simp add: after_request_eq fresh_host_def)


theorem daemon_acts_only_when_open_witness:
  "\<exists>pw reply meta. fetchVaultMeta reply = Inr (Some meta) \<and> opens_with toy_runtime pw meta [5, 6]"
proof -
  obtain h' ws' r where e: "react toy_runtime (Reply 0 (Profile_reply (Inr profile_answer))) (fst after_request, snd after_request) = ((h', ws'), r)"
    by (metis surj_pair)
  then have "h' = fst unlocked_conf" by (simp add: unlocked_conf_def)
  with daemon_acts_only_when_open [OF e] request_facts unlocked_facts show ?thesis by auto
qed

theorem idle_vault_locks_witness:
  "mem_heap (fst (fst (react toy_runtime Timer_due (fst (react toy_runtime (Clock 1000) unlocked_conf))))) ! 1 = [0, 0]"
  using idle_vault_locks [of toy_runtime "fst unlocked_conf" "snd unlocked_conf" 1000] unlocked_reachable unlocked_facts
  by (auto simp: Let_def)

lemma sample_bulk_runs: "length (dm_children (snd (execEnvBulk toy_runtime sample_bulk open_host))) = 1"
  by code_simp

theorem bulk_environment_matches_reference_witness:
  "\<exists>es ch. dm_children (snd (execEnvBulk toy_runtime sample_bulk open_host)) = dm_children open_host @ [ch] \<and>
     secrets es = [(''i1'', ''A_KEY'', ''s3'')]"
proof -
  obtain r h' where run: "execEnvBulk toy_runtime sample_bulk open_host = (r, h')" by (metis surj_pair)
  have new: "dm_children h' \<noteq> dm_children open_host"
    using sample_bulk_runs run by (auto simp: open_host_def fresh_host_def)
  have it: "map_of sample_bulk ''items'' = Some (JArr [sample_bulk_item])" "vs_rootKey open_host = Some 0" "0 < length (mem_heap open_host)"
    by (simp_all add: sample_bulk_def sample_bulk_item_def open_host_def)
  have c: "contribution (rt_noble toy_runtime) (mem_heap open_host ! 0) sample_bulk_item = [(''i1'', ''A_KEY'', ''s3'')]" by code_simp
  from bulk_environment_matches_reference [OF run new it] obtain es ch where "dm_children h' = dm_children open_host @ [ch]"
    "secrets es = concat (map (contribution (rt_noble toy_runtime) (mem_heap open_host ! 0)) [sample_bulk_item])" by blast
  with c run show ?thesis by (intro exI [of _ es] exI [of _ ch]) simp
qed

definition sample_vault_meta :: vault_meta where
  "sample_vault_meta = \<lparr>vm_id = ''p1'', vm_wrappedRootKey = toBase64 (replicate 24 0 @ toy_header (Some (buildZkRootWrapAad ''p1'' 1)) @ [5, 6]),
     vm_kdfSalt = toBase64 [1], vm_keyVersion = 1, vm_kdfParams = JObj []\<rparr>"

lemma change_runs: "\<not> isl (fst (changePassword toy_noble ''pw'' ''new'' sample_vault_meta open_host))"
  by code_simp


end
