(* ===== verification/Schemas.thy ===== *)
theory Schemas
  imports Audit_Query Items Js_Text
begin

text \<open>
  The shapes of requests and answers (\<open>packages/core/src/schemas.ts\<close>), as terms over the combinators of \<open>effect/Schema\<close>, one definition
  per schema of the file. Which values a schema accepts is the business of that library: it is the parameter of the
  locale \<open>effect_schema\<close>, whose assumptions say what the library documents for each combinator; \<open>conforms\<close>
  meets them. The procedures of the API decode with \<open>onExcessProperty: "error"\<close> (\<open>strictSchema\<close>): properties a struct does not
  declare are refused, so what is accepted reaches the handler unchanged. A value is what \<open>JSON.parse\<close> returns; a number whose
  text has a fraction or an exponent is taken not to be an integer.
\<close>

section \<open>Combinators\<close>

text \<open>\<open>Schema.filter\<close> and the ready-made filters on lengths, patterns and numbers.\<close>

datatype refinement =
    MinLength nat
  | MaxLength nat
  | Pattern "string \<Rightarrow> bool"
  | Integer
  | Positive
  | NonNegative
  | AtLeast int
  | AtMost int
  | Where "json \<Rightarrow> bool"

text \<open>A struct lists its properties, each with whether it is required.\<close>

datatype schema =
    SString
  | SNumber
  | SNumberFromString
  | SInt
  | SBoolean
  | SNull
  | SUnknown
  | SLiteral "string list"
  | SArray schema
  | SNonEmptyArray schema
  | SRecord schema
  | SStruct "(string \<times> bool \<times> schema) list"
  | SUnion "schema list"
  | SFilter schema refinement

abbreviation must :: "string \<Rightarrow> schema \<Rightarrow> string \<times> bool \<times> schema" where "must k s \<equiv> (k, True, s)"
abbreviation may :: "string \<Rightarrow> schema \<Rightarrow> string \<times> bool \<times> schema" where "may k s \<equiv> (k, False, s)"
abbreviation NullOr :: "schema \<Rightarrow> schema" where "NullOr s \<equiv> SUnion [s, SNull]"

text \<open>A spread followed by further properties: the later one wins.\<close>

definition spread :: "(string \<times> bool \<times> schema) list \<Rightarrow> (string \<times> bool \<times> schema) list \<Rightarrow> (string \<times> bool \<times> schema) list" where
  "spread base fs = filter (\<lambda>f. fst f \<notin> fst ` set fs) base @ fs"

section \<open>Filters\<close>

text \<open>\<open>/^[0-9a-f]{8}-[0-9a-f]{4}-[0-9a-f]{4}-[0-9a-f]{4}-[0-9a-f]{12}$/i\<close>\<close>

definition uuid_pattern :: "string \<Rightarrow> bool" where
  "uuid_pattern s = (length s = 36 \<and>
     list_all (\<lambda>(i, c). if i \<in> {8, 13, 18, 23} then c = CHR ''-'' else hex_val c \<noteq> None) (zip [0..<36] s))"

text \<open>Nesting depth with an explicit stack; the search stops once the limit is exceeded. The children of an object are
  its values.\<close>

definition MAX_AGENT_METADATA_DEPTH :: nat where
  "MAX_AGENT_METADATA_DEPTH = 8"

definition MAX_AGENT_METADATA_JSON_BYTES :: nat where
  "MAX_AGENT_METADATA_JSON_BYTES = 16 * 1024"

fun children :: "json \<Rightarrow> json list" where
  "children (JArr js) = js"
| "children (JObj ob) = map snd ob"
| "children _ = []"

fun json_nodes :: "json \<Rightarrow> nat" where
  "json_nodes (JArr js) = Suc (sum_list (map json_nodes js))"
| "json_nodes (JObj ob) = Suc (sum_list (map (\<lambda>(k, v). json_nodes v) ob))"
| "json_nodes _ = 1"

lemma json_nodes_children: "sum_list (map json_nodes (children j)) < json_nodes j"
  by (cases j) (auto simp: case_prod_unfold comp_def)

text \<open>\<open>stack.pop()\<close> takes the last pair; the head of the list is the top.\<close>

function depth_loop :: "nat \<Rightarrow> (json \<times> nat) list \<Rightarrow> nat" where
  "depth_loop maxDepth [] = maxDepth"
| "depth_loop maxDepth ((v, d) # stack) =
     (let m = (if d > maxDepth then d else maxDepth) in
      if m > MAX_AGENT_METADATA_DEPTH then m
      else depth_loop m (rev (map (\<lambda>c. (c, d + 1)) (children v)) @ stack))"
  by pat_completeness auto
termination
proof (relation "measure (\<lambda>(_, stack). sum_list (map (\<lambda>(v, d). json_nodes v) stack))")
  fix maxDepth v d and stack :: "(json \<times> nat) list" and m
  show "((m, rev (map (\<lambda>c. (c, d + 1)) (children v)) @ stack), maxDepth, (v, d) # stack)
      \<in> measure (\<lambda>(_, stack). sum_list (map (\<lambda>(v, d). json_nodes v) stack))"
    using json_nodes_children [of v] by (simp add: comp_def flip: rev_map)
qed simp

definition jsonDepth :: "json \<Rightarrow> nat" where
  "jsonDepth root = depth_loop 0 [(root, 0)]"

text \<open>The characters \<open>BoundedNameString\<close> refuses: U+200B to U+200F, U+202A to U+202E, U+2066 to U+2069, U+FEFF, U+180E.\<close>

definition DISGUISING :: "string list" where
  "DISGUISING = map utf8 ([0x200B..<0x2010] @ [0x202A..<0x202F] @ [0x2066..<0x206A] @ [0xFEFF, 0x180E])"

definition has_one_of :: "string list \<Rightarrow> string \<Rightarrow> bool" where
  "has_one_of ws s = list_ex (\<lambda>i. space_at ws (drop i s) \<noteq> 0) [0..<length s]"

definition plain_name :: "json \<Rightarrow> bool" where
  "plain_name v = (case v of JStr s \<Rightarrow> js_trim s \<noteq> [] \<and> \<not> has_one_of DISGUISING s | _ \<Rightarrow> False)"

text \<open>\<open>parsed.kty\<close>, \<open>parsed.crv\<close> and \<open>parsed.x\<close>; an array has none of them.\<close>

definition ed25519_jwk :: "json \<Rightarrow> bool" where
  "ed25519_jwk v = (case v of JStr s \<Rightarrow>
       (case JSON_parse s of
          Some (JObj jwk) \<Rightarrow> map_of jwk ''kty'' = Some (JStr ''OKP'') \<and> map_of jwk ''crv'' = Some (JStr ''Ed25519'') \<and>
            (case map_of jwk ''x'' of Some (JStr x) \<Rightarrow> 40 \<le> js_length x | _ \<Rightarrow> False)
        | _ \<Rightarrow> False)
     | _ \<Rightarrow> False)"

text \<open>\<open>/^[A-Za-z0-9_-]+=*$/\<close>\<close>

definition base64url_char :: "char \<Rightarrow> bool" where
  "base64url_char c = (let n = of_char c :: nat in
     65 \<le> n \<and> n \<le> 90 \<or> 97 \<le> n \<and> n \<le> 122 \<or> 48 \<le> n \<and> n \<le> 57 \<or> c = CHR ''_'' \<or> c = CHR ''-'')"

definition base64url_pattern :: "string \<Rightarrow> bool" where
  "base64url_pattern s = (takeWhile base64url_char s \<noteq> [] \<and> list_all (\<lambda>c. c = CHR ''='') (dropWhile base64url_char s))"

text \<open>\<open>/^[^@\s]+@[^@\s]+\.[^@\s]+$/\<close>\<close>

definition email_pattern :: "string \<Rightarrow> bool" where
  "email_pattern s =
     (let local = takeWhile (\<lambda>c. c \<noteq> CHR ''@'') s; host = drop 1 (dropWhile (\<lambda>c. c \<noteq> CHR ''@'') s) in
      \<not> has_one_of JS_SPACES s \<and> local \<noteq> [] \<and> CHR ''@'' \<in> set s \<and> CHR ''@'' \<notin> set host \<and>
      list_ex (\<lambda>i. host ! i = CHR ''.'') [1..<length host - 1])"

text \<open>\<open>/^\d{6}$/\<close>\<close>

definition otp_pattern :: "string \<Rightarrow> bool" where
  "otp_pattern s = (length s = 6 \<and> list_all is_digit s)"

text \<open>\<open>new Set(arr).size === arr.length\<close>\<close>

definition no_duplicates :: "json \<Rightarrow> bool" where
  "no_duplicates v = (case v of JArr js \<Rightarrow> distinct js | _ \<Rightarrow> False)"

text \<open>The filter of \<open>CreateAgentSchema\<close>: an empty public key is falsy. \<open>JSON.stringify\<close> cannot throw on what \<open>JSON.parse\<close> returned.\<close>

definition agent_credentials_ok :: "json \<Rightarrow> bool" where
  "agent_credentials_ok v = (case v of JObj ob \<Rightarrow>
       (if (case map_of ob ''publicKey'' of Some (JStr s) \<Rightarrow> s \<noteq> [] | _ \<Rightarrow> False) \<and>
           map_of ob ''issueBootstrapToken'' = Some (JBool True) then False
        else (case map_of ob ''metadata'' of None \<Rightarrow> True
          | Some metadata \<Rightarrow> jsonDepth metadata \<le> MAX_AGENT_METADATA_DEPTH \<and>
              js_length (JSON_stringify metadata) \<le> MAX_AGENT_METADATA_JSON_BYTES))
     | _ \<Rightarrow> False)"

section \<open>Vocabulary\<close>

definition ITEM_KINDS :: "string list" where
  "ITEM_KINDS = [''login'', ''api_key'', ''token'', ''json'', ''certificate'', ''ssh_key'', ''opaque'']"

definition STORAGE_MODES :: "string list" where
  "STORAGE_MODES = [''zero_knowledge'', ''server_managed'']"

definition AGENT_KINDS :: "string list" where
  "AGENT_KINDS = [''local_cli'', ''local_mcp'', ''remote'']"

definition AGENT_AUTH_METHODS :: "string list" where
  "AGENT_AUTH_METHODS = [''public_key_session'']"

primrec capability_name :: "capability \<Rightarrow> string" where
  "capability_name Cap_read = ''read''"
| "capability_name Cap_use = ''use''"
| "capability_name Read_ciphertext = ''read_ciphertext''"
| "capability_name Reveal_plaintext = ''reveal_plaintext''"
| "capability_name Mount_env = ''mount_env''"
| "capability_name Mount_file = ''mount_file''"

definition AUDIT_RESULTS :: "string list" where
  "AUDIT_RESULTS = [''allowed'', ''denied'', ''expired'', ''revoked'', ''cascade'']"

section \<open>Schemas\<close>

definition NonEmptyString :: schema where
  "NonEmptyString = SFilter SString (MinLength 1)"

definition UuidString :: schema where
  "UuidString = SFilter SString (Pattern uuid_pattern)"

definition BoundedNameString :: schema where
  "BoundedNameString = SFilter (SFilter (SFilter SString (MinLength 1)) (MaxLength 255)) (Where plain_name)"

definition AgentPublicKeyString :: schema where
  "AgentPublicKeyString = SFilter (SFilter (SFilter SString (MinLength 50)) (MaxLength 1024)) (Where ed25519_jwk)"

definition IsoDateString :: schema where
  "IsoDateString = SString"

definition JsonRecord :: schema where
  "JsonRecord = SRecord SUnknown"

definition NullableIsoDateString :: schema where
  "NullableIsoDateString = NullOr IsoDateString"

definition StorageModeSchema :: schema where
  "StorageModeSchema = SLiteral STORAGE_MODES"

definition ItemKindSchema :: schema where
  "ItemKindSchema = SLiteral ITEM_KINDS"

definition AgentKindSchema :: schema where
  "AgentKindSchema = SLiteral AGENT_KINDS"

definition AgentAuthMethodSchema :: schema where
  "AgentAuthMethodSchema = SLiteral AGENT_AUTH_METHODS"

definition CapabilitySchema :: schema where
  "CapabilitySchema = SLiteral (map capability_name CAPABILITIES)"

definition CanonicalCapabilitySchema :: schema where
  "CanonicalCapabilitySchema = SLiteral (map capability_name CANONICAL_CAPABILITIES)"

definition AuditEventTypeSchema :: schema where
  "AuditEventTypeSchema = SLiteral AUDIT_EVENT_TYPES"

definition AuditResultSchema :: schema where
  "AuditResultSchema = SLiteral AUDIT_RESULTS"

definition KdfParamsSchema :: schema where
  "KdfParamsSchema =
    SStruct [must ''algorithm'' (SLiteral [''argon2id'']), must ''memory'' (SFilter SInt Positive),
      must ''iterations'' (SFilter SInt Positive), must ''parallelism'' (SFilter SInt Positive),
      must ''hashLength'' (SFilter SInt Positive)]"

definition item_payload_schema :: schema where
  "item_payload_schema =
    SStruct [may ''v'' SInt, may ''label'' NonEmptyString, may ''kind'' ItemKindSchema,
      may ''tags'' (SArray SString), may ''notes'' SString, must ''fields'' JsonRecord]"

definition VaultBootstrapSchema :: schema where
  "VaultBootstrapSchema =
    SStruct [must ''wrappedRootKey'' NonEmptyString, must ''kdfSalt'' NonEmptyString,
      must ''kdfParams'' KdfParamsSchema]"

definition ChangePasswordSchema :: schema where
  "ChangePasswordSchema =
    SStruct [must ''wrappedRootKey'' NonEmptyString, must ''kdfSalt'' NonEmptyString,
      must ''kdfParams'' KdfParamsSchema]"

definition RecoverySetupSchema :: schema where
  "RecoverySetupSchema = SStruct [must ''recoveryWrappedRootKey'' NonEmptyString]"

definition RekeyedItemSchema :: schema where
  "RekeyedItemSchema = SStruct [must ''itemId'' NonEmptyString, must ''encryptedItemKey'' NonEmptyString]"

definition RotateKeySchema :: schema where
  "RotateKeySchema =
    SStruct [must ''wrappedRootKey'' NonEmptyString, may ''recoveryWrappedRootKey'' SString,
      must ''rekeyedItems'' (SArray RekeyedItemSchema)]"

definition ZeroKnowledgeCreateItemSchema :: schema where
  "ZeroKnowledgeCreateItemSchema =
    SStruct [must ''storageMode'' (SLiteral [''zero_knowledge'']), must ''id'' UuidString,
      may ''profileId'' UuidString, must ''label'' NonEmptyString, must ''encryptedItemKey'' NonEmptyString,
      must ''ciphertext'' NonEmptyString, may ''expectedKeyVersion'' (SFilter SInt NonNegative)]"

definition ServerManagedCreateItemSchema :: schema where
  "ServerManagedCreateItemSchema =
    SStruct [must ''storageMode'' (SLiteral [''server_managed'']), may ''profileId'' UuidString,
      must ''payload'' item_payload_schema]"

definition CreateItemSchema :: schema where
  "CreateItemSchema = SUnion [ZeroKnowledgeCreateItemSchema, ServerManagedCreateItemSchema]"

definition ZeroKnowledgeUpdateItemSchema :: schema where
  "ZeroKnowledgeUpdateItemSchema =
    SStruct [must ''storageMode'' (SLiteral [''zero_knowledge'']), must ''label'' NonEmptyString,
      must ''encryptedItemKey'' NonEmptyString, must ''ciphertext'' NonEmptyString,
      must ''contentVersion'' (SFilter SInt Positive)]"

definition ServerManagedUpdateItemSchema :: schema where
  "ServerManagedUpdateItemSchema =
    SStruct [must ''storageMode'' (SLiteral [''server_managed'']), must ''payload'' item_payload_schema,
      must ''contentVersion'' (SFilter SInt Positive)]"

definition UpdateItemSchema :: schema where
  "UpdateItemSchema = SUnion [ZeroKnowledgeUpdateItemSchema, ServerManagedUpdateItemSchema]"

definition CreateAgentSchemaBase :: schema where
  "CreateAgentSchemaBase =
    SStruct [must ''kind'' AgentKindSchema, must ''name'' BoundedNameString,
      may ''authMethod'' AgentAuthMethodSchema, may ''publicKey'' AgentPublicKeyString,
      may ''issueBootstrapToken'' SBoolean, may ''metadata'' JsonRecord]"

definition CreateAgentSchema :: schema where
  "CreateAgentSchema = SFilter CreateAgentSchemaBase (Where agent_credentials_ok)"

definition IssueAgentBootstrapTokenSchema :: schema where
  "IssueAgentBootstrapTokenSchema = SStruct [must ''agentId'' NonEmptyString]"

definition EnrollAgentSchema :: schema where
  "EnrollAgentSchema =
    SStruct [must ''bootstrapToken'' NonEmptyString, must ''publicKey'' AgentPublicKeyString]"

definition CreateAgentChallengeSchema :: schema where
  "CreateAgentChallengeSchema = SStruct [must ''agentId'' NonEmptyString]"

definition Base64UrlSig :: schema where
  "Base64UrlSig =
    SFilter (SFilter (SFilter SString (Pattern base64url_pattern)) (MinLength 86)) (MaxLength 88)"

definition Base64UrlChallenge :: schema where
  "Base64UrlChallenge =
    SFilter (SFilter (SFilter SString (Pattern base64url_pattern)) (MinLength 8)) (MaxLength 256)"

definition ExchangeAgentSessionSchema :: schema where
  "ExchangeAgentSessionSchema =
    SStruct [must ''agentId'' NonEmptyString, must ''challengeId'' NonEmptyString,
      must ''challenge'' Base64UrlChallenge, must ''signature'' Base64UrlSig]"

definition RevokeAgentSessionSchema :: schema where
  "RevokeAgentSessionSchema = SStruct [must ''token'' NonEmptyString]"

definition CreatePermissionCapabilities :: schema where
  "CreatePermissionCapabilities = SFilter (SNonEmptyArray CapabilitySchema) (Where no_duplicates)"

definition CreateItemPermissionSchema :: schema where
  "CreateItemPermissionSchema =
    SStruct [must ''agentId'' NonEmptyString, must ''itemId'' NonEmptyString,
      must ''capabilities'' CreatePermissionCapabilities, may ''expiresAt'' IsoDateString]"

definition CreateProfilePermissionSchema :: schema where
  "CreateProfilePermissionSchema =
    SStruct [must ''agentId'' NonEmptyString, must ''profileId'' NonEmptyString,
      must ''capabilities'' CreatePermissionCapabilities, may ''expiresAt'' IsoDateString]"

definition CreatePermissionSchema :: schema where
  "CreatePermissionSchema = SUnion [CreateItemPermissionSchema, CreateProfilePermissionSchema]"

definition ReadAccessSchema :: schema where
  "ReadAccessSchema =
    SStruct [must ''itemId'' NonEmptyString, may ''field'' NonEmptyString, may ''purpose'' NonEmptyString]"

definition UseAccessSchema :: schema where
  "UseAccessSchema =
    SStruct [must ''itemId'' NonEmptyString, must ''delivery'' (SLiteral [''env'', ''file'']),
      may ''field'' NonEmptyString, may ''envVarName'' NonEmptyString, may ''purpose'' NonEmptyString]"

definition ProfileUseAccessSchema :: schema where
  "ProfileUseAccessSchema =
    SStruct [must ''profileId'' NonEmptyString, must ''delivery'' (SLiteral [''env'', ''file'']),
      may ''purpose'' NonEmptyString]"

definition ReadAccessResponseSchema :: schema where
  "ReadAccessResponseSchema =
    SUnion [SStruct [must ''storageMode'' (SLiteral [''server_managed'']),
      must ''payload'' item_payload_schema], SStruct [must ''storageMode'' (SLiteral [''zero_knowledge'']),
      must ''encryptedItemKey'' NonEmptyString, must ''ciphertext'' NonEmptyString,
      must ''cryptoVersion'' SNumber, must ''itemId'' NonEmptyString, must ''profileId'' NonEmptyString,
      must ''contentVersion'' SNumber]]"

definition UseAccessResponseSchema :: schema where
  "UseAccessResponseSchema =
    SStruct [must ''mountId'' NonEmptyString, must ''delivery'' (SLiteral [''env'', ''file'']),
      must ''expiresAt'' IsoDateString]"

definition RedeemMountSchema :: schema where
  "RedeemMountSchema = SStruct [must ''mountId'' NonEmptyString]"

definition RedeemMountResponseSchema :: schema where
  "RedeemMountResponseSchema =
    SUnion [SStruct [must ''storageMode'' (SLiteral [''server_managed'']),
      must ''delivery'' (SLiteral [''env'', ''file'']), must ''payload'' item_payload_schema,
      must ''label'' NonEmptyString, must ''itemId'' NonEmptyString],
      SStruct [must ''storageMode'' (SLiteral [''zero_knowledge'']), must ''delivery'' (SLiteral [''env'',
      ''file'']), must ''encryptedItemKey'' NonEmptyString, must ''ciphertext'' NonEmptyString,
      must ''cryptoVersion'' SNumber, must ''contentVersion'' SNumber, must ''label'' NonEmptyString,
      must ''itemId'' NonEmptyString, must ''profileId'' NonEmptyString]]"

definition CiphertextAccessSchema :: schema where
  "CiphertextAccessSchema = SStruct [must ''itemId'' NonEmptyString]"

definition RevealAccessSchema :: schema where
  "RevealAccessSchema =
    SStruct [must ''itemId'' NonEmptyString, may ''field'' NonEmptyString, may ''purpose'' SString]"

definition MountAccessSchema :: schema where
  "MountAccessSchema =
    SStruct [must ''itemId'' NonEmptyString, must ''mountType'' (SLiteral [''env'', ''file'']),
      may ''field'' NonEmptyString, may ''purpose'' SString]"

definition AuditQuerySchema :: schema where
  "AuditQuerySchema =
    SStruct [may ''orgId'' SString, may ''profileId'' SString, may ''surface'' SString,
      may ''field'' SString, may ''eventType'' AuditEventTypeSchema, may ''result'' AuditResultSchema,
      may ''agentId'' SString, may ''itemId'' SString, may ''cursor'' SString,
      may ''limit'' (SFilter (SFilter SInt (AtLeast 1)) (AtMost 100))]"

definition ProfileSchema :: schema where
  "ProfileSchema =
    SStruct [must ''id'' NonEmptyString, must ''organizationId'' NonEmptyString,
      must ''name'' NonEmptyString, must ''externalId'' (NullOr SString),
      must ''description'' (NullOr SString), must ''storageMode'' StorageModeSchema,
      must ''wrappedRootKey'' (NullOr SString), must ''kdfSalt'' (NullOr SString),
      must ''kdfParams'' (NullOr KdfParamsSchema), must ''recoveryWrappedRootKey'' (NullOr SString),
      must ''keyVersion'' (SFilter SInt Positive), must ''createdAt'' IsoDateString,
      must ''updatedAt'' IsoDateString]"

definition ItemSummarySchema :: schema where
  "ItemSummarySchema =
    SStruct [must ''id'' NonEmptyString, must ''label'' NonEmptyString,
      must ''storageMode'' StorageModeSchema, must ''cryptoVersion'' SInt, must ''contentVersion'' SInt,
      must ''profileId'' (NullOr SString), must ''createdAt'' IsoDateString,
      must ''updatedAt'' IsoDateString]"

definition ItemDetailBaseFields :: "(string \<times> bool \<times> schema) list" where
  "ItemDetailBaseFields =
    [must ''id'' NonEmptyString, must ''label'' NonEmptyString, must ''storageMode'' StorageModeSchema,
      must ''cryptoVersion'' SInt, must ''contentVersion'' SInt, must ''profileId'' (NullOr SString),
      must ''createdAt'' IsoDateString, must ''updatedAt'' IsoDateString]"

definition ZeroKnowledgeItemDetailSchema :: schema where
  "ZeroKnowledgeItemDetailSchema =
    SStruct (spread ItemDetailBaseFields [must ''storageMode'' (SLiteral [''zero_knowledge'']),
      must ''encryptedItemKey'' NonEmptyString, must ''ciphertext'' NonEmptyString])"

definition ServerManagedItemDetailSchema :: schema where
  "ServerManagedItemDetailSchema =
    SStruct (spread ItemDetailBaseFields [must ''storageMode'' (SLiteral [''server_managed''])])"

definition ItemDetailSchema :: schema where
  "ItemDetailSchema = SUnion [ZeroKnowledgeItemDetailSchema, ServerManagedItemDetailSchema]"

definition AgentSchema :: schema where
  "AgentSchema =
    SStruct [must ''id'' NonEmptyString, must ''organizationId'' NonEmptyString,
      must ''createdBy'' (NullOr NonEmptyString), must ''kind'' AgentKindSchema,
      must ''locality'' (SLiteral [''local'', ''remote'']), must ''authMethod'' AgentAuthMethodSchema,
      must ''name'' NonEmptyString, may ''description'' (NullOr SString),
      must ''publicKeyConfigured'' SBoolean, must ''enabled'' SBoolean,
      must ''revokedAt'' (NullOr IsoDateString), must ''lastUsedAt'' (NullOr IsoDateString),
      must ''metadata'' JsonRecord, must ''createdAt'' IsoDateString]"

definition AgentRegistrationResultSchema :: schema where
  "AgentRegistrationResultSchema =
    SStruct [must ''agent'' AgentSchema, must ''bootstrapToken'' (NullOr SString),
      must ''bootstrapExpiresAt'' (NullOr IsoDateString)]"

definition AgentWithKeySchema :: schema where
  "AgentWithKeySchema = AgentRegistrationResultSchema"

definition AgentBootstrapTokenResultSchema :: schema where
  "AgentBootstrapTokenResultSchema =
    SStruct [must ''agentId'' NonEmptyString, must ''bootstrapToken'' NonEmptyString,
      must ''expiresAt'' IsoDateString]"

definition AgentEnrollmentResultSchema :: schema where
  "AgentEnrollmentResultSchema = SStruct [must ''agent'' AgentSchema, must ''enrolledAt'' IsoDateString]"

definition AgentChallengeResultSchema :: schema where
  "AgentChallengeResultSchema =
    SStruct [must ''agentId'' NonEmptyString, must ''challengeId'' NonEmptyString,
      must ''challenge'' NonEmptyString, must ''expiresAt'' IsoDateString]"

definition AgentSessionSchema :: schema where
  "AgentSessionSchema = SStruct [must ''token'' NonEmptyString, must ''expiresAt'' IsoDateString]"

definition AgentSessionResultSchema :: schema where
  "AgentSessionResultSchema = SStruct [must ''agentId'' NonEmptyString, must ''session'' AgentSessionSchema]"

definition EmailString :: schema where
  "EmailString = SFilter (SFilter SString (Pattern email_pattern)) (MaxLength 320)"

definition AgentRegisterAnonymousSchema :: schema where
  "AgentRegisterAnonymousSchema =
    SStruct [may ''type'' (SLiteral [''anonymous'']),
      may ''requested_credential_type'' (SLiteral [''api_key''])]"

definition AgentRegisterAnonymousResultSchema :: schema where
  "AgentRegisterAnonymousResultSchema =
    SStruct [must ''registration_id'' NonEmptyString, must ''registration_type'' (SLiteral [''anonymous'']),
      must ''credential_type'' (SLiteral [''api_key'']), must ''credential'' NonEmptyString,
      must ''credential_expires'' SNull, must ''scopes'' (SArray SString),
      must ''claim_url'' NonEmptyString, must ''claim_token'' NonEmptyString,
      must ''claim_token_expires'' IsoDateString, must ''post_claim_scopes'' (SArray SString)]"

definition AgentClaimSchema :: schema where
  "AgentClaimSchema = SStruct [must ''claim_token'' NonEmptyString, must ''email'' EmailString]"

definition AgentClaimResultSchema :: schema where
  "AgentClaimResultSchema =
    SStruct [must ''registration_id'' NonEmptyString, must ''claim_attempt_id'' NonEmptyString,
      must ''status'' (SLiteral [''initiated'']), must ''expires_at'' IsoDateString]"

definition AgentClaimCompleteSchema :: schema where
  "AgentClaimCompleteSchema =
    SStruct [must ''claim_token'' NonEmptyString, must ''otp'' (SFilter SString (Pattern otp_pattern))]"

definition AgentClaimCompleteResultSchema :: schema where
  "AgentClaimCompleteResultSchema =
    SStruct [must ''registration_id'' NonEmptyString, must ''status'' (SLiteral [''claimed''])]"

definition CreateUserApiKeySchema :: schema where
  "CreateUserApiKeySchema = SStruct [must ''name'' BoundedNameString, may ''expiresAt'' IsoDateString]"

definition UserApiKeySchema :: schema where
  "UserApiKeySchema =
    SStruct [must ''id'' NonEmptyString, must ''organizationId'' NonEmptyString,
      must ''userId'' NonEmptyString, must ''name'' NonEmptyString, must ''keyPrefix'' NonEmptyString,
      must ''enabled'' SBoolean, must ''revokedAt'' NullableIsoDateString,
      must ''expiresAt'' NullableIsoDateString, must ''lastUsedAt'' NullableIsoDateString,
      must ''createdAt'' IsoDateString]"

definition UserApiKeyWithSecretSchema :: schema where
  "UserApiKeyWithSecretSchema = SStruct [must ''apiKey'' UserApiKeySchema, must ''key'' NonEmptyString]"

definition UserApiKeyListResultSchema :: schema where
  "UserApiKeyListResultSchema = SStruct [must ''apiKeys'' (SArray UserApiKeySchema)]"

definition CliLocalAgentReferenceSchema :: schema where
  "CliLocalAgentReferenceSchema =
    SStruct [must ''agentId'' NonEmptyString, must ''privateKeyPath'' NonEmptyString]"

definition CliProfileConfigSchema :: schema where
  "CliProfileConfigSchema =
    SStruct [must ''apiUrl'' NonEmptyString, may ''operatorUserId'' NonEmptyString,
      may ''profileName'' NonEmptyString,
      may ''localAgents'' (SStruct [may ''cli'' CliLocalAgentReferenceSchema,
      may ''mcp'' CliLocalAgentReferenceSchema])]"

definition DaemonOperatorSessionSchema :: schema where
  "DaemonOperatorSessionSchema =
    SStruct [must ''authenticated'' SBoolean, must ''userId'' (NullOr SString),
      must ''expiresAt'' (NullOr IsoDateString)]"

definition PermissionSchema :: schema where
  "PermissionSchema =
    SStruct [must ''id'' NonEmptyString, must ''organizationId'' NonEmptyString,
      must ''agentId'' NonEmptyString, must ''itemId'' (NullOr NonEmptyString),
      must ''profileId'' (NullOr NonEmptyString), must ''capability'' CapabilitySchema,
      must ''expiresAt'' NullableIsoDateString, must ''grantedBy'' (NullOr NonEmptyString),
      must ''createdAt'' IsoDateString]"

definition AuditEntrySchema :: schema where
  "AuditEntrySchema =
    SStruct [must ''id'' SInt, must ''organizationId'' NonEmptyString,
      must ''userId'' (NullOr NonEmptyString), must ''agentId'' (NullOr SString),
      must ''itemId'' (NullOr SString), must ''profileId'' (NullOr SString),
      must ''surface'' (NullOr SString), must ''eventType'' AuditEventTypeSchema,
      must ''result'' AuditResultSchema, must ''deliveryMode'' (NullOr SString),
      must ''field'' (NullOr SString), must ''purpose'' (NullOr SString), must ''meta'' JsonRecord,
      must ''ipAddress'' (NullOr SString), must ''occurredAt'' IsoDateString]"

definition CiphertextAccessResponseSchema :: schema where
  "CiphertextAccessResponseSchema =
    SStruct [must ''encryptedItemKey'' NonEmptyString, must ''ciphertext'' NonEmptyString,
      must ''cryptoVersion'' SInt, must ''itemId'' NonEmptyString, must ''profileId'' NonEmptyString,
      must ''contentVersion'' (SFilter SInt Positive)]"

definition RevealAccessResponseSchema :: schema where
  "RevealAccessResponseSchema = SStruct [must ''payload'' item_payload_schema]"

definition ZeroKnowledgeMountAccessResponseSchema :: schema where
  "ZeroKnowledgeMountAccessResponseSchema =
    SStruct [must ''storageMode'' (SLiteral [''zero_knowledge'']), must ''encryptedItemKey'' NonEmptyString,
      must ''ciphertext'' NonEmptyString, must ''cryptoVersion'' SInt, must ''itemId'' NonEmptyString,
      must ''profileId'' NonEmptyString, must ''contentVersion'' (SFilter SInt Positive)]"

definition ServerManagedMountAccessResponseSchema :: schema where
  "ServerManagedMountAccessResponseSchema =
    SStruct [must ''storageMode'' (SLiteral [''server_managed'']), must ''payload'' item_payload_schema]"

definition MountAccessResponseSchema :: schema where
  "MountAccessResponseSchema =
    SUnion [ZeroKnowledgeMountAccessResponseSchema, ServerManagedMountAccessResponseSchema]"

definition BulkMountEnvSchema :: schema where
  "BulkMountEnvSchema = SStruct [must ''profileId'' NonEmptyString]"

definition BulkMountEnvItemBaseFields :: "(string \<times> bool \<times> schema) list" where
  "BulkMountEnvItemBaseFields = [must ''itemId'' NonEmptyString, must ''label'' NonEmptyString]"

definition ZeroKnowledgeBulkMountEnvItemSchema :: schema where
  "ZeroKnowledgeBulkMountEnvItemSchema =
    SStruct (spread BulkMountEnvItemBaseFields [must ''storageMode'' (SLiteral [''zero_knowledge'']),
      must ''encryptedItemKey'' NonEmptyString, must ''ciphertext'' NonEmptyString,
      must ''cryptoVersion'' SInt, must ''profileId'' NonEmptyString,
      must ''contentVersion'' (SFilter SInt Positive)])"

definition ServerManagedBulkMountEnvItemSchema :: schema where
  "ServerManagedBulkMountEnvItemSchema =
    SStruct (spread BulkMountEnvItemBaseFields [must ''storageMode'' (SLiteral [''server_managed'']),
      must ''payload'' item_payload_schema])"

definition BulkMountEnvItemSchema :: schema where
  "BulkMountEnvItemSchema = SUnion [ZeroKnowledgeBulkMountEnvItemSchema, ServerManagedBulkMountEnvItemSchema]"

definition BulkMountEnvResponseSchema :: schema where
  "BulkMountEnvResponseSchema = SStruct [must ''items'' (SArray BulkMountEnvItemSchema)]"

definition IdResultSchema :: schema where
  "IdResultSchema = SStruct [must ''id'' NonEmptyString]"

definition SuccessResultSchema :: schema where
  "SuccessResultSchema = SStruct [must ''ok'' SBoolean]"

definition KeyVersionResultSchema :: schema where
  "KeyVersionResultSchema = SStruct [must ''ok'' SBoolean, must ''keyVersion'' (SFilter SInt Positive)]"

definition ItemVersionResultSchema :: schema where
  "ItemVersionResultSchema = SStruct [must ''ok'' SBoolean, must ''contentVersion'' (SFilter SInt Positive)]"

definition ProfileResultSchema :: schema where
  "ProfileResultSchema = SStruct [must ''profile'' ProfileSchema]"

definition ProfileListResultSchema :: schema where
  "ProfileListResultSchema = SStruct [must ''profiles'' (SArray ProfileSchema)]"

definition ItemResultSchema :: schema where
  "ItemResultSchema = SStruct [must ''item'' ItemDetailSchema]"

definition ItemListResultSchema :: schema where
  "ItemListResultSchema =
    SStruct [must ''items'' (SArray ItemSummarySchema), must ''nextCursor'' (NullOr SString)]"

definition AgentResultSchema :: schema where
  "AgentResultSchema = SStruct [must ''agent'' AgentSchema]"

definition AgentListResultSchema :: schema where
  "AgentListResultSchema =
    SStruct [must ''agents'' (SArray AgentSchema), must ''nextCursor'' (NullOr SString)]"

definition PermissionListResultSchema :: schema where
  "PermissionListResultSchema =
    SStruct [must ''permissions'' (SArray PermissionSchema), must ''nextCursor'' (NullOr SString)]"

definition AuditListResultSchema :: schema where
  "AuditListResultSchema =
    SStruct [must ''entries'' (SArray AuditEntrySchema), must ''nextCursor'' (NullOr SString)]"

end
