(* ===== verification/Schema_Laws.thy ===== *)
theory Schema_Laws
  imports Schemas
begin

text \<open>
  What \<open>effect/Schema\<close> documents of the combinators the program uses, as the locale \<open>effect_schema\<close>, the decoder \<open>conforms\<close> that
  meets it, and how a reader of a decoded value is related to the schema that accepted the value.
\<close>

section \<open>The library\<close>

text \<open>\<open>number\<close> is what \<open>NumberFromString\<close> makes of a text.\<close>

fun as_number :: "(string \<Rightarrow> json option) \<Rightarrow> json \<Rightarrow> int option" where
  "as_number number (JNum i) = Some i"
| "as_number number (JStr s) = (case number s of Some (JNum i) \<Rightarrow> Some i | _ \<Rightarrow> None)"
| "as_number number _ = None"

definition fraction :: "json \<Rightarrow> bool" where
  "fraction v = (case v of JFrac _ \<Rightarrow> True | _ \<Rightarrow> False)"

fun refines :: "(string \<Rightarrow> json option) \<Rightarrow> refinement \<Rightarrow> json \<Rightarrow> bool" where
  "refines number (MinLength n) v = (case v of JStr s \<Rightarrow> n \<le> js_length s | _ \<Rightarrow> False)"
| "refines number (MaxLength n) v = (case v of JStr s \<Rightarrow> js_length s \<le> n | _ \<Rightarrow> False)"
| "refines number (Pattern p) v = (case v of JStr s \<Rightarrow> p s | _ \<Rightarrow> False)"
| "refines number Integer v = (case as_number number v of Some i \<Rightarrow> \<bar>i\<bar> < 2 ^ 53 | None \<Rightarrow> False)"
| "refines number Positive v = (case as_number number v of Some i \<Rightarrow> 0 < i | None \<Rightarrow> False)"
| "refines number NonNegative v = (case as_number number v of Some i \<Rightarrow> 0 \<le> i | None \<Rightarrow> False)"
| "refines number (AtLeast m) v = (case as_number number v of Some i \<Rightarrow> m \<le> i | None \<Rightarrow> False)"
| "refines number (AtMost m) v = (case as_number number v of Some i \<Rightarrow> i \<le> m | None \<Rightarrow> False)"
| "refines number (Where p) v = p v"

definition struct_ok ::
  "(schema \<Rightarrow> json \<Rightarrow> bool) \<Rightarrow> (string \<times> bool \<times> schema) list \<Rightarrow> json_object \<Rightarrow> bool" where
  "struct_ok accepts fs ob =
     (list_all (\<lambda>(k, x). case map_of fs k of None \<Rightarrow> False | Some (r, s) \<Rightarrow> accepts s x) ob \<and>
      list_all (\<lambda>(k, r, s). r \<longrightarrow> k \<in> fst ` set ob) fs)"

text \<open>Comparisons of numbers that are not integers are left open.\<close>

locale effect_schema =
  fixes accepts :: "schema \<Rightarrow> json \<Rightarrow> bool"
    and number :: "string \<Rightarrow> json option"
  assumes string: "accepts SString v = (case v of JStr _ \<Rightarrow> True | _ \<Rightarrow> False)"
    and number: "accepts SNumber v = (case v of JNum _ \<Rightarrow> True | JFrac _ \<Rightarrow> True | _ \<Rightarrow> False)"
    and number_from_string: "accepts SNumberFromString v = (case v of JStr s \<Rightarrow> number s \<noteq> None | _ \<Rightarrow> False)"
    and int: "accepts SInt v = (case v of JNum i \<Rightarrow> \<bar>i\<bar> < 2 ^ 53 | _ \<Rightarrow> False)"
    and boolean: "accepts SBoolean v = (case v of JBool _ \<Rightarrow> True | _ \<Rightarrow> False)"
    and null: "accepts SNull v = (v = JNull)"
    and unknown: "accepts SUnknown v"
    and literal: "accepts (SLiteral ws) v = (case v of JStr s \<Rightarrow> s \<in> set ws | _ \<Rightarrow> False)"
    and array: "accepts (SArray s) v = (case v of JArr xs \<Rightarrow> list_all (accepts s) xs | _ \<Rightarrow> False)"
    and nonempty: "accepts (SNonEmptyArray s) v = (case v of JArr xs \<Rightarrow> xs \<noteq> [] \<and> list_all (accepts s) xs | _ \<Rightarrow> False)"
    and dictionary: "accepts (SRecord s) v = (case v of JObj ob \<Rightarrow> list_all (\<lambda>(k, x). accepts s x) ob | _ \<Rightarrow> False)"
    and struct: "accepts (SStruct fs) v = (case v of JObj ob \<Rightarrow> struct_ok accepts fs ob | _ \<Rightarrow> False)"
    and union: "accepts (SUnion ss) v = list_ex (\<lambda>s. accepts s v) ss"
    and filter_source: "accepts (SFilter s r) v \<Longrightarrow> accepts s v"
    and filter: "\<not> fraction v \<or> r = Integer \<Longrightarrow> accepts (SFilter s r) v = (accepts s v \<and> refines number r v)"

section \<open>A decoder\<close>

fun conforms :: "(string \<Rightarrow> json option) \<Rightarrow> schema \<Rightarrow> json \<Rightarrow> bool" and
  conforms_field :: "(string \<Rightarrow> json option) \<Rightarrow> (string \<times> bool \<times> schema) list \<Rightarrow> string \<Rightarrow> json \<Rightarrow> bool" and
  conforms_any :: "(string \<Rightarrow> json option) \<Rightarrow> schema list \<Rightarrow> json \<Rightarrow> bool" where
  "conforms number SString v = (case v of JStr _ \<Rightarrow> True | _ \<Rightarrow> False)"
| "conforms number SNumber v = (case v of JNum _ \<Rightarrow> True | JFrac _ \<Rightarrow> True | _ \<Rightarrow> False)"
| "conforms number SNumberFromString v = (case v of JStr s \<Rightarrow> number s \<noteq> None | _ \<Rightarrow> False)"
| "conforms number SInt v = (case v of JNum i \<Rightarrow> \<bar>i\<bar> < 2 ^ 53 | _ \<Rightarrow> False)"
| "conforms number SBoolean v = (case v of JBool _ \<Rightarrow> True | _ \<Rightarrow> False)"
| "conforms number SNull v = (v = JNull)"
| "conforms number SUnknown v = True"
| "conforms number (SLiteral ws) v = (case v of JStr s \<Rightarrow> s \<in> set ws | _ \<Rightarrow> False)"
| "conforms number (SArray s) v = (case v of JArr xs \<Rightarrow> list_all (conforms number s) xs | _ \<Rightarrow> False)"
| "conforms number (SNonEmptyArray s) v =
     (case v of JArr xs \<Rightarrow> xs \<noteq> [] \<and> list_all (conforms number s) xs | _ \<Rightarrow> False)"
| "conforms number (SRecord s) v = (case v of JObj ob \<Rightarrow> list_all (\<lambda>(k, x). conforms number s x) ob | _ \<Rightarrow> False)"
| "conforms number (SStruct fs) v = (case v of JObj ob \<Rightarrow>
       list_all (\<lambda>(k, x). conforms_field number fs k x) ob \<and> list_all (\<lambda>(k, r, s). r \<longrightarrow> k \<in> fst ` set ob) fs
     | _ \<Rightarrow> False)"
| "conforms number (SUnion ss) v = conforms_any number ss v"
| "conforms number (SFilter s r) v = (conforms number s v \<and> refines number r v)"
| "conforms_field number [] k x = False"
| "conforms_field number ((k', r, s) # fs) k x = (if k = k' then conforms number s x else conforms_field number fs k x)"
| "conforms_any number [] v = False"
| "conforms_any number (s # ss) v = (conforms number s v \<or> conforms_any number ss v)"

lemma conforms_field_lookup:
  "conforms_field number fs = (\<lambda>k x. case map_of fs k of None \<Rightarrow> False | Some (r, s) \<Rightarrow> conforms number s x)"
proof (intro ext)
  fix k x
  show "conforms_field number fs k x = (case map_of fs k of None \<Rightarrow> False | Some (r, s) \<Rightarrow> conforms number s x)"
    by (induction fs) auto
qed

lemma conforms_any_ex: "conforms_any number ss v = list_ex (\<lambda>s. conforms number s v) ss"
  by (induction ss) auto

interpretation decoder: effect_schema "conforms number" number for number
proof unfold_locales
  fix fs v
  show "conforms number (SStruct fs) v = (case v of JObj ob \<Rightarrow> struct_ok (conforms number) fs ob | _ \<Rightarrow> False)"
    by (cases v) (simp_all add: struct_ok_def conforms_field_lookup)
qed (auto simp: conforms_any_ex fraction_def split: json.split)

section \<open>Reading what was accepted\<close>

definition required :: "(json \<Rightarrow> 'a option) \<Rightarrow> string \<Rightarrow> json_object \<Rightarrow> 'a option" where
  "required dec k ob = Option.bind (map_of ob k) dec"

text \<open>A reader fits a schema if it reads every accepted value, to something of the right kind.\<close>

definition fits :: "(schema \<Rightarrow> json \<Rightarrow> bool) \<Rightarrow> schema \<Rightarrow> (json \<Rightarrow> 'a option) \<Rightarrow> ('a \<Rightarrow> bool) \<Rightarrow> bool" where
  "fits accepts s dec P = (\<forall>v. accepts s v \<longrightarrow> (\<exists>a. dec v = Some a \<and> P a))"

definition field_ok :: "(schema \<Rightarrow> json \<Rightarrow> bool) \<Rightarrow> bool \<Rightarrow> schema \<Rightarrow> json option \<Rightarrow> bool" where
  "field_ok accepts r s x = (case x of None \<Rightarrow> \<not> r | Some v \<Rightarrow> accepts s v)"

lemma requiredE:
  assumes "field_ok accepts True s (map_of ob k)" "fits accepts s dec P"
  obtains a where "required dec k ob = Some a" "P a"
  using assms by (fastforce simp: field_ok_def fits_def required_def split: option.splits)

lemma optionalE:
  assumes "field_ok accepts False s (map_of ob k)" "fits accepts s dec P"
  obtains a where "optional dec k ob = Some a" "pred_option P a"
  using assms by (fastforce simp: field_ok_def fits_def optional_def split: option.splits)

lemma struct_fields:
  assumes "struct_ok accepts fs ob" "distinct (map fst fs)"
  shows "list_all (\<lambda>(k, r, s). field_ok accepts r s (map_of ob k)) fs"
proof (unfold list_all_iff, clarify)
  fix k r s
  assume f: "(k, r, s) \<in> set fs"
  with assms(2) have m: "map_of fs k = Some (r, s)" by simp
  show "field_ok accepts r s (map_of ob k)"
  proof (cases "map_of ob k")
    case None
    then have "k \<notin> fst ` set ob" by (simp add: map_of_eq_None_iff)
    with assms(1) f None show ?thesis by (auto simp: struct_ok_def list_all_iff field_ok_def)
  next
    case (Some x)
    then have "(k, x) \<in> set ob" by (rule map_of_SomeD)
    with assms(1) m Some show ?thesis by (fastforce simp: struct_ok_def list_all_iff field_ok_def)
  qed
qed

lemma struct_excess:
  assumes "struct_ok accepts fs ob" "k \<notin> fst ` set fs"
  shows "map_of ob k = None"
proof (cases "map_of ob k")
  case (Some x)
  then have "(k, x) \<in> set ob" by (rule map_of_SomeD)
  moreover from assms(2) have "map_of fs k = None" by (simp add: map_of_eq_None_iff)
  ultimately show ?thesis using assms(1) by (fastforce simp: struct_ok_def list_all_iff)
qed simp

section \<open>The depth of metadata\<close>

text \<open>The specification: how many containers lie around the innermost value.\<close>

fun nesting :: "json \<Rightarrow> nat" where
  "nesting (JArr js) = foldr max (map (\<lambda>j. Suc (nesting j)) js) 0"
| "nesting (JObj ob) = foldr max (map (\<lambda>(k, j). Suc (nesting j)) ob) 0"
| "nesting _ = 0"

lemma nesting_children: "nesting v = foldr max (map (\<lambda>c. Suc (nesting c)) (children v)) 0"
  by (cases v) (simp_all add: comp_def case_prod_unfold)

definition reach :: "(json \<times> nat) list \<Rightarrow> nat" where
  "reach stack = foldr max (map (\<lambda>(v, d). d + nesting v) stack) 0"

lemma reach_simps [simp]:
  "reach [] = 0"
  "reach ((v, d) # stack) = max (d + nesting v) (reach stack)"
  by (simp_all add: reach_def)

lemma reach_append: "reach (xs @ ys) = max (reach xs) (reach ys)"
  by (induction xs) auto

lemma reach_rev: "reach (rev xs) = reach xs"
  by (induction xs) (auto simp: reach_append)

lemma reach_children: "max d (reach (map (\<lambda>c. (c, Suc d)) (children v))) = d + nesting v"
proof -
  have "max d (reach (map (\<lambda>c. (c, Suc d)) cs)) = d + foldr max (map (\<lambda>c. Suc (nesting c)) cs) 0" for cs
  proof (induction cs)
    case (Cons c cs)
    let ?R = "reach (map (\<lambda>c. (c, Suc d)) cs)" and ?F = "foldr max (map (\<lambda>c. Suc (nesting c)) cs) 0"
    have "max d (max (Suc d + nesting c) ?R) = max (Suc d + nesting c) (max d ?R)" by (rule max.left_commute)
    also have "\<dots> = d + max (Suc (nesting c)) ?F" unfolding Cons by (simp add: nat_add_max_right)
    finally show ?case by simp
  qed simp
  then show ?thesis by (subst nesting_children) simp
qed

lemma depth_loop_reach:
  "m \<le> 8 \<Longrightarrow> list_all (\<lambda>(v, d). d \<le> 9) stack \<Longrightarrow> depth_loop m stack = min 9 (max m (reach stack))"
proof (induction m stack rule: depth_loop.induct)
  case (2 m v d stack)
  define n where "n = (if d > m then d else m)"
  show ?case
  proof (cases "n > 8")
    case True
    with 2(2,3) show ?thesis by (auto simp: n_def MAX_AGENT_METADATA_DEPTH_def)
  next
    case False
    let ?next = "rev (map (\<lambda>c. (c, d + 1)) (children v)) @ stack"
    have "depth_loop m ((v, d) # stack) = depth_loop n ?next"
      using False by (simp add: n_def MAX_AGENT_METADATA_DEPTH_def Let_def)
    also have "\<dots> = min 9 (max n (reach ?next))"
      by (rule 2(1) [OF n_def]) (use False 2(3) in \<open>auto simp: n_def MAX_AGENT_METADATA_DEPTH_def list_all_iff split: if_splits\<close>)
    also have "max n (reach ?next) = max m (reach ((v, d) # stack))"
      using reach_children [of d v] by (auto simp: n_def reach_append reach_rev)
    finally show ?thesis .
  qed
qed simp



end
