(* ===== verification/Api_Schemas.thy ===== *)
theory Api_Schemas
  imports Schemas
begin

text \<open>
  The surface of the API: the schemas that the routers declare for themselves (\<open>packages/trpc/src/server/routers\<close>), and the table of all
  procedures (\<open>router.ts\<close>): which callers a procedure admits, what input it decodes and what output it promises.
\<close>


section \<open>\<open>routers/profiles.ts\<close>\<close>

definition profiles_NonEmptyString :: schema where
  "profiles_NonEmptyString = SFilter SString (MinLength 1)"

definition profiles_BoundedNameString :: schema where
  "profiles_BoundedNameString = SFilter (SFilter SString (MinLength 1)) (MaxLength 255)"

definition profiles_OrgIdSchema :: schema where
  "profiles_OrgIdSchema = SStruct [must ''orgId'' profiles_NonEmptyString]"

definition ProfileIdSchema :: schema where
  "ProfileIdSchema = SStruct [must ''profileId'' profiles_NonEmptyString]"

definition CreateProfileSchema :: schema where
  "CreateProfileSchema =
    SStruct [must ''orgId'' profiles_NonEmptyString, must ''name'' profiles_BoundedNameString,
      may ''description'' SString, may ''externalId'' SString,
      must ''storageMode'' (SLiteral [''zero_knowledge'', ''server_managed''])]"

definition ProfileBootstrapSchema :: schema where
  "ProfileBootstrapSchema =
    SStruct [must ''profileId'' profiles_NonEmptyString, must ''wrappedRootKey'' profiles_NonEmptyString,
      must ''kdfSalt'' profiles_NonEmptyString,
      must ''kdfParams'' (SStruct [must ''algorithm'' (SLiteral [''argon2id'']),
      must ''memory'' (SFilter SInt Positive), must ''iterations'' (SFilter SInt Positive),
      must ''parallelism'' (SFilter SInt Positive), must ''hashLength'' (SFilter SInt Positive)])]"

definition ProfileChangePasswordSchema :: schema where
  "ProfileChangePasswordSchema =
    SStruct [must ''profileId'' profiles_NonEmptyString, must ''wrappedRootKey'' profiles_NonEmptyString,
      must ''kdfSalt'' profiles_NonEmptyString,
      must ''kdfParams'' (SStruct [must ''algorithm'' (SLiteral [''argon2id'']),
      must ''memory'' (SFilter SInt Positive), must ''iterations'' (SFilter SInt Positive),
      must ''parallelism'' (SFilter SInt Positive), must ''hashLength'' (SFilter SInt Positive)])]"

definition ProfileSetupRecoverySchema :: schema where
  "ProfileSetupRecoverySchema =
    SStruct [must ''profileId'' profiles_NonEmptyString,
      must ''recoveryWrappedRootKey'' profiles_NonEmptyString]"

definition ProfileRotateKeySchema :: schema where
  "ProfileRotateKeySchema =
    SStruct [must ''profileId'' profiles_NonEmptyString, must ''wrappedRootKey'' profiles_NonEmptyString,
      may ''recoveryWrappedRootKey'' SString, must ''rekeyedItems'' (SArray RekeyedItemSchema)]"

definition profiles_KeyVersionResultSchema :: schema where
  "profiles_KeyVersionResultSchema =
    SStruct [must ''ok'' SBoolean, must ''keyVersion'' (SFilter SInt Positive)]"

section \<open>\<open>routers/organizations.ts\<close>\<close>

text \<open>\<open>/^[a-z0-9]+(?:-[a-z0-9]+)*$/\<close>: runs of letters and digits with single dashes between them.\<close>

definition slug_char :: "char \<Rightarrow> bool" where
  "slug_char c = (let n = of_char c :: nat in 97 \<le> n \<and> n \<le> 122 \<or> 48 \<le> n \<and> n \<le> 57)"

fun slug_rest :: "string \<Rightarrow> bool" where
  "slug_rest [] = True"
| "slug_rest [c] = slug_char c"
| "slug_rest (c # d # s) = (if slug_char c then slug_rest (d # s) else c = CHR ''-'' \<and> slug_char d \<and> slug_rest s)"

definition slug_pattern :: "string \<Rightarrow> bool" where
  "slug_pattern s = (case s of [] \<Rightarrow> False | c # r \<Rightarrow> slug_char c \<and> slug_rest r)"

definition OrgIdSchema :: schema where
  "OrgIdSchema = SStruct [must ''orgId'' (SFilter SString (MinLength 1))]"

definition CreateOrganizationSchema :: schema where
  "CreateOrganizationSchema =
    SStruct [must ''name'' (SFilter (SFilter SString (MinLength 1)) (MaxLength 255)),
      may ''slug'' (SFilter (SFilter (SFilter SString (MinLength 1)) (MaxLength 48)) (Pattern slug_pattern)),
      may ''logo'' SString]"

definition UpdateOrganizationSchema :: schema where
  "UpdateOrganizationSchema =
    SStruct [must ''orgId'' (SFilter SString (MinLength 1)),
      may ''name'' (SFilter (SFilter SString (MinLength 1)) (MaxLength 255)), may ''logo'' SString]"

definition DeleteOrganizationSchema :: schema where
  "DeleteOrganizationSchema =
    SStruct [must ''orgId'' (SFilter SString (MinLength 1)),
      must ''confirmName'' (SFilter SString (MinLength 1)),
      must ''password'' (SFilter SString (MinLength 1))]"

definition CreateInviteSchema :: schema where
  "CreateInviteSchema =
    SStruct [must ''orgId'' (SFilter SString (MinLength 1)), may ''role'' (SLiteral [''owner'', ''admin'',
      ''member''])]"

definition RemoveMemberSchema :: schema where
  "RemoveMemberSchema =
    SStruct [must ''orgId'' (SFilter SString (MinLength 1)),
      must ''memberId'' (SFilter SString (MinLength 1))]"

definition UpdateMemberRoleSchema :: schema where
  "UpdateMemberRoleSchema =
    SStruct [must ''orgId'' (SFilter SString (MinLength 1)),
      must ''memberId'' (SFilter SString (MinLength 1)), must ''role'' (SLiteral [''owner'', ''admin'',
      ''member''])]"

definition CheckSlugSchema :: schema where
  "CheckSlugSchema =

      SStruct [must ''slug'' (SFilter (SFilter (SFilter SString (MinLength 1)) (MaxLength 48)) (Pattern slug_pattern))]"

definition CheckSlugResultSchema :: schema where
  "CheckSlugResultSchema = SStruct [must ''available'' SBoolean]"

definition OrgDataSchema :: schema where
  "OrgDataSchema =
    SStruct [must ''id'' SString, must ''name'' SString, must ''slug'' SString,
      must ''logo'' (NullOr SString), must ''createdAt'' SString, must ''isPersonal'' SBoolean]"

definition OrgListItemSchema :: schema where
  "OrgListItemSchema =
    SStruct [must ''id'' SString, must ''name'' SString, must ''slug'' SString,
      must ''logo'' (NullOr SString), must ''createdAt'' SString, must ''role'' SString,
      must ''hasBootstrappedProfile'' SBoolean, must ''isPersonal'' SBoolean]"

definition DefaultProfileDataSchema :: schema where
  "DefaultProfileDataSchema =
    SStruct [must ''id'' SString, must ''name'' SString, must ''externalId'' (NullOr SString),
      must ''storageMode'' (SLiteral [''server_managed'', ''zero_knowledge'']), must ''keyVersion'' SInt]"

definition CreateOrgResultSchema :: schema where
  "CreateOrgResultSchema =
    SStruct [must ''organization'' OrgDataSchema, must ''defaultProfile'' DefaultProfileDataSchema]"

definition OrgResultSchema :: schema where
  "OrgResultSchema = SStruct [must ''organization'' OrgDataSchema]"

definition OrgListResultSchema :: schema where
  "OrgListResultSchema = SStruct [must ''organizations'' (SArray OrgListItemSchema)]"

definition MemberDataSchema :: schema where
  "MemberDataSchema =
    SStruct [must ''id'' SString, must ''userId'' SString, must ''name'' SString,
      must ''email'' (NullOr SString), must ''role'' SString, must ''createdAt'' SString]"

definition MemberListResultSchema :: schema where
  "MemberListResultSchema = SStruct [must ''members'' (SArray MemberDataSchema)]"

definition CreateInviteResultSchema :: schema where
  "CreateInviteResultSchema =
    SStruct [must ''ok'' SBoolean, must ''invitationId'' SString, must ''token'' SString]"

definition InviteTokenSchema :: schema where
  "InviteTokenSchema = SStruct [must ''token'' (SFilter SString (MinLength 1))]"

definition InviteInfoResultSchema :: schema where
  "InviteInfoResultSchema =
    SStruct [must ''organizationName'' SString, must ''organizationSlug'' SString, must ''role'' SString,
      must ''expiresAt'' SString]"

definition AcceptInviteResultSchema :: schema where
  "AcceptInviteResultSchema =
    SStruct [must ''ok'' SBoolean, must ''organizationId'' SString, must ''organizationName'' SString,
      must ''organizationSlug'' SString]"

definition RevokeInviteSchema :: schema where
  "RevokeInviteSchema =
    SStruct [must ''orgId'' (SFilter SString (MinLength 1)),
      must ''invitationId'' (SFilter SString (MinLength 1))]"

section \<open>\<open>routers/onboarding.ts\<close>\<close>

definition OnboardingStatusResultSchema :: schema where
  "OnboardingStatusResultSchema = SStruct [must ''complete'' SBoolean]"

section \<open>\<open>routers/items.ts\<close>\<close>

definition ItemListQuerySchema :: schema where
  "ItemListQuerySchema =
    SStruct [may ''cursor'' SString, may ''limit'' (SFilter (SFilter SInt (AtLeast 1)) (AtMost 100))]"

definition ItemIdSchema :: schema where
  "ItemIdSchema = SStruct [must ''itemId'' (SFilter SString (MinLength 1))]"

definition UpdateItemInputEnvelopeSchema :: schema where
  "UpdateItemInputEnvelopeSchema =
    SStruct [must ''itemId'' (SFilter SString (MinLength 1)), must ''data'' UpdateItemSchema]"

section \<open>\<open>routers/agents.ts\<close>\<close>

definition AgentIdSchema :: schema where
  "AgentIdSchema = SStruct [must ''agentId'' (SFilter SString (MinLength 1))]"

definition AgentListQuerySchema :: schema where
  "AgentListQuerySchema =
    SStruct [may ''cursor'' SString, may ''limit'' (SFilter (SFilter SInt (AtLeast 1)) (AtMost 100))]"

section \<open>\<open>routers/api-keys.ts\<close>\<close>

definition ApiKeyIdSchema :: schema where
  "ApiKeyIdSchema = SStruct [must ''keyId'' (SFilter SString (MinLength 1))]"

section \<open>\<open>routers/permissions.ts\<close>\<close>

definition PermissionIdSchema :: schema where
  "PermissionIdSchema = SStruct [must ''permissionId'' (SFilter SString (MinLength 1))]"

definition PermissionListQuerySchema :: schema where
  "PermissionListQuerySchema =
    SStruct [may ''agentId'' SString, may ''itemId'' SString, may ''cursor'' SString,
      may ''limit'' (SFilter (SFilter SInt (AtLeast 1)) (AtMost 100))]"

section \<open>\<open>routers/access.ts\<close>\<close>

definition ProfileUseAccessResponseSchema :: schema where
  "ProfileUseAccessResponseSchema =
    SStruct [must ''items'' (SArray (SStruct [must ''itemId'' (SFilter SString (MinLength 1)),
      must ''mountId'' (SFilter SString (MinLength 1)), must ''delivery'' (SLiteral [''env'', ''file'']),
      must ''expiresAt'' SString]))]"

section \<open>\<open>routers/audit.ts\<close>\<close>

text \<open>\<open>/^\d+$/\<close>\<close>

definition digits_pattern :: "string \<Rightarrow> bool" where
  "digits_pattern s = (s \<noteq> [] \<and> list_all is_digit s)"

definition AUDIT_EVENT_TYPE_FILTERS :: "string list" where
  "AUDIT_EVENT_TYPE_FILTERS = AUDIT_EVENT_TYPES @ LEGACY_AUDIT_EVENT_TYPES"

definition AuditQueryInputSchema :: schema where
  "AuditQueryInputSchema =
    SStruct [may ''eventType'' (SLiteral AUDIT_EVENT_TYPE_FILTERS), may ''result'' AuditResultSchema,
      may ''agentId'' SString, may ''itemId'' SString, may ''profileId'' SString, may ''surface'' SString,
      may ''field'' SString, may ''cursor'' (SFilter SString (Pattern digits_pattern)),
      may ''limit'' (SFilter (SFilter (SFilter (SUnion [SNumber,
      SNumberFromString]) Integer) (AtLeast 1)) (AtMost 100))]"

section \<open>Procedures\<close>

text \<open>Who may call: the procedure builders of \<open>init.ts\<close>. The scope of a scoped procedure is documentation; the builder ignores it.\<close>

datatype builder =
    PublicProcedure
  | SessionProcedure
  | UserProcedure
  | AgentProcedure
  | ScopedSessionProcedure string

datatype input =
    No_input
  | Input schema
  | Optional_input schema

record procedure =
  pr_path :: string
  pr_builder :: builder
  pr_input :: input
  pr_output :: schema

definition authRouter :: "procedure list" where
  "authRouter =
    [\<lparr>pr_path = ''auth.recordLogin'', pr_builder = SessionProcedure,
       pr_input = No_input, pr_output = SuccessResultSchema\<rparr>,
     \<lparr>pr_path = ''auth.logout'', pr_builder = SessionProcedure,
       pr_input = No_input, pr_output = SuccessResultSchema\<rparr>,
     \<lparr>pr_path = ''auth.issueBootstrapToken'', pr_builder = ScopedSessionProcedure ''agents:write'',
       pr_input = Input IssueAgentBootstrapTokenSchema, pr_output = AgentBootstrapTokenResultSchema\<rparr>,
     \<lparr>pr_path = ''auth.enroll'', pr_builder = PublicProcedure,
       pr_input = Input EnrollAgentSchema, pr_output = AgentEnrollmentResultSchema\<rparr>,
     \<lparr>pr_path = ''auth.createChallenge'', pr_builder = PublicProcedure,
       pr_input = Input CreateAgentChallengeSchema, pr_output = AgentChallengeResultSchema\<rparr>,
     \<lparr>pr_path = ''auth.exchangeSession'', pr_builder = PublicProcedure,
       pr_input = Input ExchangeAgentSessionSchema, pr_output = AgentSessionResultSchema\<rparr>,
     \<lparr>pr_path = ''auth.revokeSession'', pr_builder = ScopedSessionProcedure ''agents:write'',
       pr_input = Input RevokeAgentSessionSchema, pr_output = SuccessResultSchema\<rparr>]"

definition profilesRouter :: "procedure list" where
  "profilesRouter =
    [\<lparr>pr_path = ''profiles.create'', pr_builder = ScopedSessionProcedure ''profiles'',
       pr_input = Input CreateProfileSchema, pr_output = ProfileResultSchema\<rparr>,
     \<lparr>pr_path = ''profiles.list'', pr_builder = ScopedSessionProcedure ''profiles'',
       pr_input = Input profiles_OrgIdSchema, pr_output = ProfileListResultSchema\<rparr>,
     \<lparr>pr_path = ''profiles.get'', pr_builder = ScopedSessionProcedure ''profiles'',
       pr_input = Input ProfileIdSchema, pr_output = ProfileResultSchema\<rparr>,
     \<lparr>pr_path = ''profiles.bootstrap'', pr_builder = ScopedSessionProcedure ''profiles'',
       pr_input = Input ProfileBootstrapSchema, pr_output = SuccessResultSchema\<rparr>,
     \<lparr>pr_path = ''profiles.changePassword'', pr_builder = ScopedSessionProcedure ''profiles'',
       pr_input = Input ProfileChangePasswordSchema, pr_output = SuccessResultSchema\<rparr>,
     \<lparr>pr_path = ''profiles.setupRecovery'', pr_builder = ScopedSessionProcedure ''profiles'',
       pr_input = Input ProfileSetupRecoverySchema, pr_output = SuccessResultSchema\<rparr>,
     \<lparr>pr_path = ''profiles.rotateKey'', pr_builder = ScopedSessionProcedure ''profiles'',
       pr_input = Input ProfileRotateKeySchema, pr_output = profiles_KeyVersionResultSchema\<rparr>,
     \<lparr>pr_path = ''profiles.delete'', pr_builder = ScopedSessionProcedure ''profiles'',
       pr_input = Input ProfileIdSchema, pr_output = SuccessResultSchema\<rparr>]"

definition organizationsRouter :: "procedure list" where
  "organizationsRouter =
    [\<lparr>pr_path = ''organizations.create'', pr_builder = UserProcedure,
       pr_input = Input CreateOrganizationSchema, pr_output = CreateOrgResultSchema\<rparr>,
     \<lparr>pr_path = ''organizations.createPersonal'', pr_builder = UserProcedure,
       pr_input = No_input, pr_output = CreateOrgResultSchema\<rparr>,
     \<lparr>pr_path = ''organizations.checkSlug'', pr_builder = UserProcedure,
       pr_input = Input CheckSlugSchema, pr_output = CheckSlugResultSchema\<rparr>,
     \<lparr>pr_path = ''organizations.list'', pr_builder = UserProcedure,
       pr_input = No_input, pr_output = OrgListResultSchema\<rparr>,
     \<lparr>pr_path = ''organizations.get'', pr_builder = SessionProcedure,
       pr_input = Input OrgIdSchema, pr_output = OrgResultSchema\<rparr>,
     \<lparr>pr_path = ''organizations.update'', pr_builder = SessionProcedure,
       pr_input = Input UpdateOrganizationSchema, pr_output = SuccessResultSchema\<rparr>,
     \<lparr>pr_path = ''organizations.delete'', pr_builder = SessionProcedure,
       pr_input = Input DeleteOrganizationSchema, pr_output = SuccessResultSchema\<rparr>,
     \<lparr>pr_path = ''organizations.members.list'', pr_builder = SessionProcedure,
       pr_input = Input OrgIdSchema, pr_output = MemberListResultSchema\<rparr>,
     \<lparr>pr_path = ''organizations.members.invite'', pr_builder = SessionProcedure,
       pr_input = Input CreateInviteSchema, pr_output = CreateInviteResultSchema\<rparr>,
     \<lparr>pr_path = ''organizations.members.getInviteInfo'', pr_builder = UserProcedure,
       pr_input = Input InviteTokenSchema, pr_output = InviteInfoResultSchema\<rparr>,
     \<lparr>pr_path = ''organizations.members.acceptInvite'', pr_builder = UserProcedure,
       pr_input = Input InviteTokenSchema, pr_output = AcceptInviteResultSchema\<rparr>,
     \<lparr>pr_path = ''organizations.members.revokeInvite'', pr_builder = SessionProcedure,
       pr_input = Input RevokeInviteSchema, pr_output = SuccessResultSchema\<rparr>,
     \<lparr>pr_path = ''organizations.members.remove'', pr_builder = SessionProcedure,
       pr_input = Input RemoveMemberSchema, pr_output = SuccessResultSchema\<rparr>,
     \<lparr>pr_path = ''organizations.members.updateRole'', pr_builder = SessionProcedure,
       pr_input = Input UpdateMemberRoleSchema, pr_output = SuccessResultSchema\<rparr>]"

definition onboardingRouter :: "procedure list" where
  "onboardingRouter =
    [\<lparr>pr_path = ''onboarding.status'', pr_builder = UserProcedure,
       pr_input = No_input, pr_output = OnboardingStatusResultSchema\<rparr>]"

definition itemsRouter :: "procedure list" where
  "itemsRouter =
    [\<lparr>pr_path = ''items.create'', pr_builder = ScopedSessionProcedure ''items:write'',
       pr_input = Input CreateItemSchema, pr_output = IdResultSchema\<rparr>,
     \<lparr>pr_path = ''items.list'', pr_builder = ScopedSessionProcedure ''items:read'',
       pr_input = Optional_input ItemListQuerySchema, pr_output = ItemListResultSchema\<rparr>,
     \<lparr>pr_path = ''items.listForAgent'', pr_builder = AgentProcedure,
       pr_input = Optional_input ItemListQuerySchema, pr_output = ItemListResultSchema\<rparr>,
     \<lparr>pr_path = ''items.get'', pr_builder = ScopedSessionProcedure ''items:read'',
       pr_input = Input ItemIdSchema, pr_output = ItemResultSchema\<rparr>,
     \<lparr>pr_path = ''items.update'', pr_builder = ScopedSessionProcedure ''items:write'',
       pr_input = Input UpdateItemInputEnvelopeSchema, pr_output = ItemVersionResultSchema\<rparr>,
     \<lparr>pr_path = ''items.ownerReveal'', pr_builder = ScopedSessionProcedure ''items:write'',
       pr_input = Input ItemIdSchema, pr_output = RevealAccessResponseSchema\<rparr>,
     \<lparr>pr_path = ''items.delete'', pr_builder = ScopedSessionProcedure ''items:write'',
       pr_input = Input ItemIdSchema, pr_output = SuccessResultSchema\<rparr>]"

definition agentsRouter :: "procedure list" where
  "agentsRouter =
    [\<lparr>pr_path = ''agents.create'', pr_builder = ScopedSessionProcedure ''agents:write'',
       pr_input = Input CreateAgentSchema, pr_output = AgentWithKeySchema\<rparr>,
     \<lparr>pr_path = ''agents.list'', pr_builder = ScopedSessionProcedure ''agents:read'',
       pr_input = Optional_input AgentListQuerySchema, pr_output = AgentListResultSchema\<rparr>,
     \<lparr>pr_path = ''agents.self'', pr_builder = AgentProcedure,
       pr_input = No_input, pr_output = AgentResultSchema\<rparr>,
     \<lparr>pr_path = ''agents.get'', pr_builder = ScopedSessionProcedure ''agents:read'',
       pr_input = Input AgentIdSchema, pr_output = AgentResultSchema\<rparr>,
     \<lparr>pr_path = ''agents.revoke'', pr_builder = ScopedSessionProcedure ''agents:write'',
       pr_input = Input AgentIdSchema, pr_output = SuccessResultSchema\<rparr>]"

definition agentRegistrationRouter :: "procedure list" where
  "agentRegistrationRouter =
    [\<lparr>pr_path = ''agentAuth.register'', pr_builder = PublicProcedure,
       pr_input = Input AgentRegisterAnonymousSchema, pr_output = AgentRegisterAnonymousResultSchema\<rparr>,
     \<lparr>pr_path = ''agentAuth.claim'', pr_builder = PublicProcedure,
       pr_input = Input AgentClaimSchema, pr_output = AgentClaimResultSchema\<rparr>,
     \<lparr>pr_path = ''agentAuth.claimComplete'', pr_builder = PublicProcedure,
       pr_input = Input AgentClaimCompleteSchema, pr_output = AgentClaimCompleteResultSchema\<rparr>]"

definition apiKeysRouter :: "procedure list" where
  "apiKeysRouter =
    [\<lparr>pr_path = ''apiKeys.create'', pr_builder = ScopedSessionProcedure ''api_keys:write'',
       pr_input = Input CreateUserApiKeySchema, pr_output = UserApiKeyWithSecretSchema\<rparr>,
     \<lparr>pr_path = ''apiKeys.list'', pr_builder = ScopedSessionProcedure ''api_keys:read'',
       pr_input = No_input, pr_output = UserApiKeyListResultSchema\<rparr>,
     \<lparr>pr_path = ''apiKeys.revoke'', pr_builder = ScopedSessionProcedure ''api_keys:write'',
       pr_input = Input ApiKeyIdSchema, pr_output = SuccessResultSchema\<rparr>]"

definition permissionsRouter :: "procedure list" where
  "permissionsRouter =
    [\<lparr>pr_path = ''permissions.create'', pr_builder = ScopedSessionProcedure ''permissions:write'',
       pr_input = Input CreatePermissionSchema, pr_output = PermissionListResultSchema\<rparr>,
     \<lparr>pr_path = ''permissions.list'', pr_builder = ScopedSessionProcedure ''permissions:read'',
       pr_input = Input PermissionListQuerySchema, pr_output = PermissionListResultSchema\<rparr>,
     \<lparr>pr_path = ''permissions.revoke'', pr_builder = ScopedSessionProcedure ''permissions:write'',
       pr_input = Input PermissionIdSchema, pr_output = SuccessResultSchema\<rparr>]"

definition accessRouter :: "procedure list" where
  "accessRouter =
    [\<lparr>pr_path = ''access.ciphertext'', pr_builder = AgentProcedure,
       pr_input = Input CiphertextAccessSchema, pr_output = CiphertextAccessResponseSchema\<rparr>,
     \<lparr>pr_path = ''access.reveal'', pr_builder = AgentProcedure,
       pr_input = Input RevealAccessSchema, pr_output = RevealAccessResponseSchema\<rparr>,
     \<lparr>pr_path = ''access.mount'', pr_builder = AgentProcedure,
       pr_input = Input MountAccessSchema, pr_output = MountAccessResponseSchema\<rparr>,
     \<lparr>pr_path = ''access.bulkMountEnv'', pr_builder = AgentProcedure,
       pr_input = Input BulkMountEnvSchema, pr_output = BulkMountEnvResponseSchema\<rparr>,
     \<lparr>pr_path = ''access.read'', pr_builder = AgentProcedure,
       pr_input = Input ReadAccessSchema, pr_output = ReadAccessResponseSchema\<rparr>,
     \<lparr>pr_path = ''access.use'', pr_builder = AgentProcedure,
       pr_input = Input UseAccessSchema, pr_output = UseAccessResponseSchema\<rparr>,
     \<lparr>pr_path = ''access.useProfile'', pr_builder = AgentProcedure,
       pr_input = Input ProfileUseAccessSchema, pr_output = ProfileUseAccessResponseSchema\<rparr>,
     \<lparr>pr_path = ''access.redeemMount'', pr_builder = AgentProcedure,
       pr_input = Input RedeemMountSchema, pr_output = RedeemMountResponseSchema\<rparr>]"

definition auditRouter :: "procedure list" where
  "auditRouter =
    [\<lparr>pr_path = ''audit.list'', pr_builder = ScopedSessionProcedure ''audit:read'',
       pr_input = Input AuditQueryInputSchema, pr_output = AuditListResultSchema\<rparr>,
     \<lparr>pr_path = ''audit.listForAgent'', pr_builder = AgentProcedure,
       pr_input = Input AuditQueryInputSchema, pr_output = AuditListResultSchema\<rparr>]"

definition appRouter :: "procedure list" where
  "appRouter = authRouter @ profilesRouter @ organizationsRouter @ onboardingRouter @ itemsRouter @ agentsRouter @
    agentRegistrationRouter @ apiKeysRouter @ permissionsRouter @ accessRouter @ auditRouter"

definition procedure_of :: "string \<Rightarrow> procedure option" where
  "procedure_of path = find (\<lambda>p. pr_path p = path) appRouter"

end
