(* ===== verification/Api_Requests.thy ===== *)
theory Api_Requests
  imports Schema_Laws Api_Schemas Registration Legacy_Access Mount_Redeem Listings "HOL-Library.Monad_Syntax"
begin

text \<open>
  From a decoded input to the call of a handler: \<open>read_request\<close> is what the arrow functions of the routers hand over, for each of
  the procedures of \<open>Api_Schemas\<close>. An accepted input is always read, and what is read satisfies what the handler's
  input type and the schema promise (\<open>well_typed\<close>). The instant an ISO string denotes is the parameter \<open>date\<close>.
\<close>

section \<open>Requests\<close>

datatype (plugins only: code size) request =
    Record_login
  | Record_logout
  | Issue_bootstrap_token string
  | Enroll string string
  | Create_challenge string
  | Exchange_session exchange_input
  | Revoke_session string
  | Create_profile create_profile_input
  | List_profiles string
  | Get_profile string
  | Bootstrap_profile root_key_input
  | Change_password root_key_input
  | Setup_recovery string string
  | Rotate_key rotate_input
  | Delete_profile string
  | Create_org string "string option" "string option"
  | Create_personal_org
  | Check_slug string
  | List_orgs
  | Get_org string
  | Update_org string "string option" "string option"
  | Delete_org string string string
  | List_members string
  | Create_invite string "string option"
  | Get_invite_info string
  | Accept_invite string
  | Revoke_invite string string
  | Remove_member string string
  | Update_role string string string
  | Onboarding_status
  | Create_item create_item_input
  | List_items list_query
  | List_items_for_agent list_query
  | Get_item string
  | Update_item string update_item_input
  | Owner_reveal string
  | Delete_item string
  | Create_agent create_agent_input
  | List_agents list_query
  | Current_agent
  | Get_agent string
  | Revoke_agent string
  | Register_anonymous
  | Claim string string
  | Claim_complete string string
  | Create_key create_key_input
  | List_keys
  | Revoke_key string
  | Create_permission create_permission_input
  | List_permissions permission_query
  | Revoke_permission string
  | Access_ciphertext string
  | Access_reveal legacy_input
  | Access_mount legacy_input delivery_mode
  | Bulk_mount_env string
  | Access access_input
  | Use_profile profile_input
  | Redeem_mount string
  | List_audit audit_query
  | List_audit_for_agent audit_query

section \<open>Readers\<close>

text \<open>Values of an enumeration.\<close>

definition member_of :: "('a \<times> string) list \<Rightarrow> json \<Rightarrow> 'a option" where
  "member_of names v = (case v of JStr s \<Rightarrow> map_option fst (find (\<lambda>(a, n). n = s) names) | _ \<Rightarrow> None)"

definition capability_names :: "(capability \<times> string) list" where
  "capability_names = map (\<lambda>c. (c, capability_name c)) CAPABILITIES"

definition agent_kind_names :: "(agent_kind \<times> string) list" where
  "agent_kind_names = [(Local_cli, ''local_cli''), (Local_mcp, ''local_mcp''), (Remote_kind, ''remote'')]"

definition storage_mode_names :: "(storage_mode \<times> string) list" where
  "storage_mode_names = [(Zero_knowledge, ''zero_knowledge''), (Server_managed, ''server_managed'')]"

definition delivery_names :: "(delivery_mode \<times> string) list" where
  "delivery_names = [(Env, ''env''), (File, ''file'')]"

definition result_names :: "(audit_result \<times> string) list" where
  "result_names =
    [(Allowed, ''allowed''), (Denied, ''denied''), (Expired, ''expired''), (Revoked, ''revoked''), (Cascade, ''cascade'')]"

fun as_bool :: "json \<Rightarrow> bool option" where "as_bool (JBool b) = Some b" | "as_bool _ = None"

fun read_all :: "(json \<Rightarrow> 'a option) \<Rightarrow> json list \<Rightarrow> 'a list option" where
  "read_all dec [] = Some []"
| "read_all dec (v # vs) = (case (dec v, read_all dec vs) of (Some a, Some as) \<Rightarrow> Some (a # as) | _ \<Rightarrow> None)"

fun as_list :: "(json \<Rightarrow> 'a option) \<Rightarrow> json \<Rightarrow> 'a list option" where
  "as_list dec (JArr vs) = read_all dec vs"
| "as_list dec _ = None"

definition of_object :: "(json_object \<Rightarrow> 'a option) \<Rightarrow> json \<Rightarrow> 'a option" where
  "of_object f v = (case v of JObj ob \<Rightarrow> f ob | _ \<Rightarrow> None)"

text \<open>\<open>input.expiresAt ? new Date(input.expiresAt) : null\<close>\<close>

definition expiry :: "(string \<Rightarrow> int option) \<Rightarrow> string option \<Rightarrow> int option option" where
  "expiry date s = (if falsy s then None else Some (date (orElse s [])))"

definition read_exchange :: "json_object \<Rightarrow> exchange_input option" where
  "read_exchange ob = do {
     a \<leftarrow> required as_string ''agentId'' ob; i \<leftarrow> required as_string ''challengeId'' ob;
     c \<leftarrow> required as_string ''challenge'' ob; s \<leftarrow> required as_string ''signature'' ob;
     Some \<lparr>xi_agentId = a, xi_challengeId = i, xi_challenge = c, xi_signature = s\<rparr> }"

definition read_create_profile :: "json_object \<Rightarrow> create_profile_input option" where
  "read_create_profile ob = do {
     p \<leftarrow> required as_string ''orgId'' ob; n \<leftarrow> required as_string ''name'' ob;
     d \<leftarrow> optional as_string ''description'' ob; e \<leftarrow> optional as_string ''externalId'' ob;
     m \<leftarrow> required (member_of storage_mode_names) ''storageMode'' ob;
     Some \<lparr>cf_orgId = p, cf_name = n, cf_description = d, cf_externalId = e, cf_storageMode = m\<rparr> }"

definition read_root_key :: "json_object \<Rightarrow> root_key_input option" where
  "read_root_key ob = do {
     p \<leftarrow> required as_string ''profileId'' ob; w \<leftarrow> required as_string ''wrappedRootKey'' ob;
     s \<leftarrow> required as_string ''kdfSalt'' ob; k \<leftarrow> required Some ''kdfParams'' ob;
     Some \<lparr>rk_profileId = p, rk_wrappedRootKey = w, rk_kdfSalt = s, rk_kdfParams = k\<rparr> }"

definition read_rekeyed :: "json_object \<Rightarrow> rekeyed_item option" where
  "read_rekeyed ob = do {
     i \<leftarrow> required as_string ''itemId'' ob; k \<leftarrow> required as_string ''encryptedItemKey'' ob;
     Some \<lparr>ri_itemId = i, ri_encryptedItemKey = k\<rparr> }"

definition read_rotate :: "json_object \<Rightarrow> rotate_input option" where
  "read_rotate ob = do {
     p \<leftarrow> required as_string ''profileId'' ob; w \<leftarrow> required as_string ''wrappedRootKey'' ob;
     r \<leftarrow> optional as_string ''recoveryWrappedRootKey'' ob;
     xs \<leftarrow> required (as_list (of_object read_rekeyed)) ''rekeyedItems'' ob;
     Some \<lparr>ro_profileId = p, ro_wrappedRootKey = w, ro_recoveryWrappedRootKey = r, ro_rekeyedItems = xs\<rparr> }"

text \<open>\<open>createItem\<close> and \<open>updateItem\<close> tell the two shapes apart by \<open>storageMode\<close>.\<close>

definition read_create_item :: "json_object \<Rightarrow> create_item_input option" where
  "read_create_item ob =
     (if map_of ob ''storageMode'' = Some (JStr ''zero_knowledge'') then do {
        i \<leftarrow> required as_string ''id'' ob; p \<leftarrow> optional as_string ''profileId'' ob;
        l \<leftarrow> required as_string ''label'' ob; k \<leftarrow> required as_string ''encryptedItemKey'' ob;
        c \<leftarrow> required as_string ''ciphertext'' ob; e \<leftarrow> optional as_int ''expectedKeyVersion'' ob;
        Some (Create_zk \<lparr>zc_id = i, zc_profileId = p, zc_label = l, zc_encryptedItemKey = k, zc_ciphertext = c,
          zc_expectedKeyVersion = e\<rparr>) }
      else do {
        p \<leftarrow> optional as_string ''profileId'' ob; d \<leftarrow> required ItemPayloadSchema ''payload'' ob;
        Some (Create_sm p d) })"

definition read_update_item :: "json_object \<Rightarrow> update_item_input option" where
  "read_update_item ob =
     (if map_of ob ''storageMode'' = Some (JStr ''zero_knowledge'') then do {
        l \<leftarrow> required as_string ''label'' ob; k \<leftarrow> required as_string ''encryptedItemKey'' ob;
        c \<leftarrow> required as_string ''ciphertext'' ob; v \<leftarrow> required as_int ''contentVersion'' ob;
        Some (Update_zk l k c v) }
      else do {
        d \<leftarrow> required ItemPayloadSchema ''payload'' ob; v \<leftarrow> required as_int ''contentVersion'' ob;
        Some (Update_sm d v) })"

definition read_create_agent :: "json_object \<Rightarrow> create_agent_input option" where
  "read_create_agent ob = do {
     k \<leftarrow> required (member_of agent_kind_names) ''kind'' ob; n \<leftarrow> required as_string ''name'' ob;
     a \<leftarrow> optional as_string ''authMethod'' ob; p \<leftarrow> optional as_string ''publicKey'' ob;
     b \<leftarrow> optional as_bool ''issueBootstrapToken'' ob; m \<leftarrow> optional as_object ''metadata'' ob;
     Some \<lparr>ca_kind = k, ca_name = n, ca_authMethod = a, ca_publicKey = p, ca_issueBootstrapToken = orElse b False,
       ca_metadata = m\<rparr> }"

definition read_create_key :: "(string \<Rightarrow> int option) \<Rightarrow> json_object \<Rightarrow> create_key_input option" where
  "read_create_key date ob = do {
     n \<leftarrow> required as_string ''name'' ob; e \<leftarrow> optional as_string ''expiresAt'' ob;
     Some \<lparr>ck_name = n, ck_expiresAt = expiry date e\<rparr> }"

text \<open>\<open>"profileId" in input\<close> decides which row of the union it is.\<close>

definition read_create_permission :: "(string \<Rightarrow> int option) \<Rightarrow> json_object \<Rightarrow> create_permission_input option" where
  "read_create_permission date ob = do {
     a \<leftarrow> required as_string ''agentId'' ob;
     t \<leftarrow> (if map_of ob ''profileId'' \<noteq> None then map_option On_profile (required as_string ''profileId'' ob)
       else map_option On_item (required as_string ''itemId'' ob));
     cs \<leftarrow> required (as_list (member_of capability_names)) ''capabilities'' ob;
     e \<leftarrow> optional as_string ''expiresAt'' ob;
     Some \<lparr>cp_agentId = a, cp_target = t, cp_capabilities = cs, cp_expiresAt = expiry date e\<rparr> }"

definition read_list_query :: "json_object \<Rightarrow> list_query option" where
  "read_list_query ob = do {
     c \<leftarrow> optional as_string ''cursor'' ob; l \<leftarrow> optional as_int ''limit'' ob;
     Some \<lparr>lq_cursor = c, lq_limit = l\<rparr> }"

definition read_permission_query :: "json_object \<Rightarrow> permission_query option" where
  "read_permission_query ob = do {
     a \<leftarrow> optional as_string ''agentId'' ob; i \<leftarrow> optional as_string ''itemId'' ob;
     c \<leftarrow> optional as_string ''cursor'' ob; l \<leftarrow> optional as_int ''limit'' ob;
     Some \<lparr>lq_cursor = c, lq_limit = l, pq_agentId = a, pq_itemId = i\<rparr> }"

definition read_legacy :: "json_object \<Rightarrow> legacy_input option" where
  "read_legacy ob = do {
     i \<leftarrow> required as_string ''itemId'' ob; f \<leftarrow> optional as_string ''field'' ob;
     p \<leftarrow> optional as_string ''purpose'' ob;
     Some \<lparr>li_itemId = i, li_field = f, li_purpose = p\<rparr> }"

definition read_read :: "json_object \<Rightarrow> access_input option" where
  "read_read ob = do {
     i \<leftarrow> required as_string ''itemId'' ob; f \<leftarrow> optional as_string ''field'' ob;
     p \<leftarrow> optional as_string ''purpose'' ob;
     Some \<lparr>in_itemId = i, in_action = Act_read, in_delivery = None, in_field = f, in_envVarName = None, in_purpose = p\<rparr> }"

definition read_use :: "json_object \<Rightarrow> access_input option" where
  "read_use ob = do {
     i \<leftarrow> required as_string ''itemId'' ob; d \<leftarrow> required (member_of delivery_names) ''delivery'' ob;
     f \<leftarrow> optional as_string ''field'' ob; e \<leftarrow> optional as_string ''envVarName'' ob;
     p \<leftarrow> optional as_string ''purpose'' ob;
     Some \<lparr>in_itemId = i, in_action = Act_use, in_delivery = Some d, in_field = f, in_envVarName = e, in_purpose = p\<rparr> }"

definition read_use_profile :: "json_object \<Rightarrow> profile_input option" where
  "read_use_profile ob = do {
     i \<leftarrow> required as_string ''profileId'' ob; d \<leftarrow> required (member_of delivery_names) ''delivery'' ob;
     p \<leftarrow> optional as_string ''purpose'' ob;
     Some \<lparr>pi_profileId = i, pi_action = Act_use, pi_delivery = d, pi_purpose = p\<rparr> }"

definition read_audit_query :: "(string \<Rightarrow> json option) \<Rightarrow> json_object \<Rightarrow> audit_query option" where
  "read_audit_query number ob = do {
     e \<leftarrow> optional as_string ''eventType'' ob; r \<leftarrow> optional (member_of result_names) ''result'' ob;
     a \<leftarrow> optional as_string ''agentId'' ob; i \<leftarrow> optional as_string ''itemId'' ob;
     p \<leftarrow> optional as_string ''profileId'' ob; s \<leftarrow> optional as_string ''surface'' ob;
     f \<leftarrow> optional as_string ''field'' ob; c \<leftarrow> optional as_string ''cursor'' ob;
     l \<leftarrow> optional (as_number number) ''limit'' ob;
     Some \<lparr>aq_eventType = e, aq_result = r, aq_agentId = a, aq_itemId = i, aq_profileId = p, aq_surface = s,
       aq_field = f, aq_cursor = c, aq_limit = map_option nat l\<rparr> }"

section \<open>Routing\<close>

abbreviation read_text :: "string \<Rightarrow> json_object \<Rightarrow> string option" where
  "read_text k ob \<equiv> required as_string k ob"

definition one_text :: "string \<Rightarrow> (string \<Rightarrow> request) \<Rightarrow> json_object \<Rightarrow> request option" where
  "one_text k R ob = do { a \<leftarrow> read_text k ob; Some (R a) }"

definition two_texts :: "string \<Rightarrow> string \<Rightarrow> (string \<Rightarrow> string \<Rightarrow> request) \<Rightarrow> json_object \<Rightarrow> request option" where
  "two_texts k k' R ob = do { a \<leftarrow> read_text k ob; b \<leftarrow> read_text k' ob; Some (R a b) }"

definition three_texts ::
  "string \<Rightarrow> string \<Rightarrow> string \<Rightarrow> (string \<Rightarrow> string \<Rightarrow> string \<Rightarrow> request) \<Rightarrow> json_object \<Rightarrow> request option" where
  "three_texts k k' k'' R ob =
     do { a \<leftarrow> read_text k ob; b \<leftarrow> read_text k' ob; c \<leftarrow> read_text k'' ob; Some (R a b c) }"

definition read_create_org :: "json_object \<Rightarrow> request option" where
  "read_create_org ob = do { n \<leftarrow> read_text ''name'' ob; s \<leftarrow> optional as_string ''slug'' ob;
     l \<leftarrow> optional as_string ''logo'' ob; Some (Create_org n s l) }"

definition read_update_org :: "json_object \<Rightarrow> request option" where
  "read_update_org ob = do { i \<leftarrow> read_text ''orgId'' ob; n \<leftarrow> optional as_string ''name'' ob;
     l \<leftarrow> optional as_string ''logo'' ob; Some (Update_org i n l) }"

definition read_invite :: "json_object \<Rightarrow> request option" where
  "read_invite ob = do { i \<leftarrow> read_text ''orgId'' ob; r \<leftarrow> optional as_string ''role'' ob; Some (Create_invite i r) }"

definition read_update :: "json_object \<Rightarrow> request option" where
  "read_update ob = do { i \<leftarrow> read_text ''itemId'' ob; u \<leftarrow> required (of_object read_update_item) ''data'' ob;
     Some (Update_item i u) }"

definition read_mount :: "json_object \<Rightarrow> request option" where
  "read_mount ob = do { x \<leftarrow> read_legacy ob; d \<leftarrow> required (member_of delivery_names) ''mountType'' ob;
     Some (Access_mount x d) }"

type_synonym body_reader = "json_object \<Rightarrow> request option"

definition auth_bodies :: "(string \<times> body_reader) list" where
  "auth_bodies =
    [(''auth.recordLogin'', \<lambda>ob. Some Record_login), (''auth.logout'', \<lambda>ob. Some Record_logout),
     (''auth.issueBootstrapToken'', one_text ''agentId'' Issue_bootstrap_token),
     (''auth.enroll'', two_texts ''bootstrapToken'' ''publicKey'' Enroll),
     (''auth.createChallenge'', one_text ''agentId'' Create_challenge),
     (''auth.exchangeSession'', map_option Exchange_session \<circ> read_exchange),
     (''auth.revokeSession'', one_text ''token'' Revoke_session)]"

definition profiles_bodies :: "(string \<times> body_reader) list" where
  "profiles_bodies =
    [(''profiles.create'', map_option Create_profile \<circ> read_create_profile),
     (''profiles.list'', one_text ''orgId'' List_profiles), (''profiles.get'', one_text ''profileId'' Get_profile),
     (''profiles.bootstrap'', map_option Bootstrap_profile \<circ> read_root_key),
     (''profiles.changePassword'', map_option Change_password \<circ> read_root_key),
     (''profiles.setupRecovery'', two_texts ''profileId'' ''recoveryWrappedRootKey'' Setup_recovery),
     (''profiles.rotateKey'', map_option Rotate_key \<circ> read_rotate),
     (''profiles.delete'', one_text ''profileId'' Delete_profile)]"

definition organizations_bodies :: "(string \<times> body_reader) list" where
  "organizations_bodies =
    [(''organizations.create'', read_create_org), (''organizations.createPersonal'', \<lambda>ob. Some Create_personal_org),
     (''organizations.checkSlug'', one_text ''slug'' Check_slug), (''organizations.list'', \<lambda>ob. Some List_orgs),
     (''organizations.get'', one_text ''orgId'' Get_org), (''organizations.update'', read_update_org),
     (''organizations.delete'', three_texts ''orgId'' ''confirmName'' ''password'' Delete_org),
     (''organizations.members.list'', one_text ''orgId'' List_members),
     (''organizations.members.invite'', read_invite),
     (''organizations.members.getInviteInfo'', one_text ''token'' Get_invite_info),
     (''organizations.members.acceptInvite'', one_text ''token'' Accept_invite),
     (''organizations.members.revokeInvite'', two_texts ''orgId'' ''invitationId'' Revoke_invite),
     (''organizations.members.remove'', two_texts ''orgId'' ''memberId'' Remove_member),
     (''organizations.members.updateRole'', three_texts ''orgId'' ''memberId'' ''role'' Update_role)]"

definition onboarding_bodies :: "(string \<times> body_reader) list" where
  "onboarding_bodies = [(''onboarding.status'', \<lambda>ob. Some Onboarding_status)]"

definition items_bodies :: "(string \<times> body_reader) list" where
  "items_bodies =
    [(''items.create'', map_option Create_item \<circ> read_create_item),
     (''items.list'', map_option List_items \<circ> read_list_query),
     (''items.listForAgent'', map_option List_items_for_agent \<circ> read_list_query),
     (''items.get'', one_text ''itemId'' Get_item), (''items.update'', read_update),
     (''items.ownerReveal'', one_text ''itemId'' Owner_reveal), (''items.delete'', one_text ''itemId'' Delete_item)]"

definition agents_bodies :: "(string \<times> body_reader) list" where
  "agents_bodies =
    [(''agents.create'', map_option Create_agent \<circ> read_create_agent),
     (''agents.list'', map_option List_agents \<circ> read_list_query), (''agents.self'', \<lambda>ob. Some Current_agent),
     (''agents.get'', one_text ''agentId'' Get_agent), (''agents.revoke'', one_text ''agentId'' Revoke_agent)]"

definition registration_bodies :: "(string \<times> body_reader) list" where
  "registration_bodies =
    [(''agentAuth.register'', \<lambda>ob. Some Register_anonymous),
     (''agentAuth.claim'', two_texts ''claim_token'' ''email'' Claim),
     (''agentAuth.claimComplete'', two_texts ''claim_token'' ''otp'' Claim_complete)]"

definition keys_bodies :: "(string \<Rightarrow> int option) \<Rightarrow> (string \<times> body_reader) list" where
  "keys_bodies date =
    [(''apiKeys.create'', map_option Create_key \<circ> read_create_key date), (''apiKeys.list'', \<lambda>ob. Some List_keys),
     (''apiKeys.revoke'', one_text ''keyId'' Revoke_key)]"

definition permissions_bodies :: "(string \<Rightarrow> int option) \<Rightarrow> (string \<times> body_reader) list" where
  "permissions_bodies date =
    [(''permissions.create'', map_option Create_permission \<circ> read_create_permission date),
     (''permissions.list'', map_option List_permissions \<circ> read_permission_query),
     (''permissions.revoke'', one_text ''permissionId'' Revoke_permission)]"

definition access_bodies :: "(string \<times> body_reader) list" where
  "access_bodies =
    [(''access.ciphertext'', one_text ''itemId'' Access_ciphertext),
     (''access.reveal'', map_option Access_reveal \<circ> read_legacy), (''access.mount'', read_mount),
     (''access.bulkMountEnv'', one_text ''profileId'' Bulk_mount_env),
     (''access.read'', map_option Access \<circ> read_read), (''access.use'', map_option Access \<circ> read_use),
     (''access.useProfile'', map_option Use_profile \<circ> read_use_profile),
     (''access.redeemMount'', one_text ''mountId'' Redeem_mount)]"

definition audit_bodies :: "(string \<Rightarrow> json option) \<Rightarrow> (string \<times> body_reader) list" where
  "audit_bodies number =
    [(''audit.list'', map_option List_audit \<circ> read_audit_query number),
     (''audit.listForAgent'', map_option List_audit_for_agent \<circ> read_audit_query number)]"

definition bodies :: "(string \<Rightarrow> int option) \<Rightarrow> (string \<Rightarrow> json option) \<Rightarrow> (string \<times> body_reader) list" where
  "bodies date number = auth_bodies @ profiles_bodies @ organizations_bodies @ onboarding_bodies @ items_bodies @
     agents_bodies @ registration_bodies @ keys_bodies date @ permissions_bodies date @ access_bodies @ audit_bodies number"

text \<open>A missing optional input is \<open>{}\<close>; the input of a procedure that declares none is not looked at.\<close>

definition read_request ::
  "(string \<Rightarrow> int option) \<Rightarrow> (string \<Rightarrow> json option) \<Rightarrow> string \<Rightarrow> json option \<Rightarrow> request option" where
  "read_request date number path body =
     (case map_of (bodies date number) path of
        None \<Rightarrow> None
      | Some reader \<Rightarrow> reader (case body of Some (JObj ob) \<Rightarrow> ob | _ \<Rightarrow> []))"

definition input_accepted :: "(schema \<Rightarrow> json \<Rightarrow> bool) \<Rightarrow> input \<Rightarrow> json option \<Rightarrow> bool" where
  "input_accepted accepts i body = (case i of
       No_input \<Rightarrow> True
     | Input s \<Rightarrow> (case body of None \<Rightarrow> False | Some v \<Rightarrow> accepts s v)
     | Optional_input s \<Rightarrow> (case body of None \<Rightarrow> True | Some v \<Rightarrow> accepts s v))"

section \<open>What a request promises\<close>

definition jwk_text :: "string \<Rightarrow> bool" where
  "jwk_text s = (50 \<le> js_length s \<and> js_length s \<le> 1024 \<and> ed25519_jwk (JStr s))"

definition name_text :: "string \<Rightarrow> bool" where
  "name_text s = (1 \<le> js_length s \<and> js_length s \<le> 255 \<and> plain_name (JStr s))"

definition slug_text :: "string \<Rightarrow> bool" where
  "slug_text s = (1 \<le> js_length s \<and> js_length s \<le> 48 \<and> slug_pattern s)"

definition title_text :: "string \<Rightarrow> bool" where
  "title_text s = (1 \<le> js_length s \<and> js_length s \<le> 255)"

definition role_text :: "string \<Rightarrow> bool" where
  "role_text s = (s \<in> {''owner'', ''admin'', ''member''})"

definition page_limit :: "int \<Rightarrow> bool" where
  "page_limit l = (1 \<le> l \<and> l \<le> 100)"

definition positive_field :: "json_object \<Rightarrow> string \<Rightarrow> bool" where
  "positive_field ob k = (case map_of ob k of Some (JNum i) \<Rightarrow> 0 < i | _ \<Rightarrow> False)"

definition kdf_params :: "json \<Rightarrow> bool" where
  "kdf_params v = (case v of JObj ob \<Rightarrow> map_of ob ''algorithm'' = Some (JStr ''argon2id'') \<and>
       positive_field ob ''memory'' \<and> positive_field ob ''iterations'' \<and> positive_field ob ''parallelism'' \<and>
       positive_field ob ''hashLength''
     | _ \<Rightarrow> False)"

definition payload_typed :: "item_payload \<Rightarrow> bool" where
  "payload_typed p = (pl_label p \<noteq> Some [])"

definition root_key_typed :: "root_key_input \<Rightarrow> bool" where
  "root_key_typed i =
     (rk_profileId i \<noteq> [] \<and> rk_wrappedRootKey i \<noteq> [] \<and> rk_kdfSalt i \<noteq> [] \<and> kdf_params (rk_kdfParams i))"

definition exchange_typed :: "exchange_input \<Rightarrow> bool" where
  "exchange_typed x =
     (xi_agentId x \<noteq> [] \<and> xi_challengeId x \<noteq> [] \<and> base64url_pattern (xi_challenge x) \<and>
      8 \<le> js_length (xi_challenge x) \<and> js_length (xi_challenge x) \<le> 256 \<and> base64url_pattern (xi_signature x) \<and>
      86 \<le> js_length (xi_signature x) \<and> js_length (xi_signature x) \<le> 88)"

definition rotate_typed :: "rotate_input \<Rightarrow> bool" where
  "rotate_typed i =
     (ro_profileId i \<noteq> [] \<and> ro_wrappedRootKey i \<noteq> [] \<and>
      list_all (\<lambda>r. ri_itemId r \<noteq> [] \<and> ri_encryptedItemKey r \<noteq> []) (ro_rekeyedItems i))"

definition create_item_typed :: "create_item_input \<Rightarrow> bool" where
  "create_item_typed i = (case i of
       Create_zk z \<Rightarrow> uuid_pattern (zc_id z) \<and> pred_option uuid_pattern (zc_profileId z) \<and> zc_label z \<noteq> [] \<and>
         zc_encryptedItemKey z \<noteq> [] \<and> zc_ciphertext z \<noteq> [] \<and> pred_option (\<lambda>v. 0 \<le> v) (zc_expectedKeyVersion z)
     | Create_sm p d \<Rightarrow> pred_option uuid_pattern p \<and> payload_typed d)"

definition update_item_typed :: "update_item_input \<Rightarrow> bool" where
  "update_item_typed i = (case i of
       Update_zk l k c v \<Rightarrow> l \<noteq> [] \<and> k \<noteq> [] \<and> c \<noteq> [] \<and> 0 < v
     | Update_sm d v \<Rightarrow> payload_typed d \<and> 0 < v)"

definition create_agent_typed :: "create_agent_input \<Rightarrow> bool" where
  "create_agent_typed i =
     (name_text (ca_name i) \<and> pred_option (\<lambda>m. m = ''public_key_session'') (ca_authMethod i) \<and>
      pred_option jwk_text (ca_publicKey i) \<and> \<not> (ca_publicKey i \<noteq> None \<and> ca_issueBootstrapToken i) \<and>
      pred_option (\<lambda>m. jsonDepth (JObj m) \<le> 8 \<and> js_length (JSON_stringify (JObj m)) \<le> 16384) (ca_metadata i))"

definition create_permission_typed :: "create_permission_input \<Rightarrow> bool" where
  "create_permission_typed i =
     (cp_agentId i \<noteq> [] \<and> (case cp_target i of On_item x \<Rightarrow> x \<noteq> [] | On_profile x \<Rightarrow> x \<noteq> []) \<and>
      cp_capabilities i \<noteq> [] \<and> distinct (cp_capabilities i))"

definition audit_query_typed :: "audit_query \<Rightarrow> bool" where
  "audit_query_typed q =
     (pred_option (\<lambda>e. e \<in> set AUDIT_EVENT_TYPE_FILTERS) (aq_eventType q) \<and> pred_option digits_pattern (aq_cursor q) \<and>
      pred_option (\<lambda>l. 1 \<le> l \<and> l \<le> 100) (aq_limit q))"

definition access_typed :: "access_input \<Rightarrow> bool" where
  "access_typed i =
     (in_itemId i \<noteq> [] \<and> in_field i \<noteq> Some [] \<and> in_envVarName i \<noteq> Some [] \<and> in_purpose i \<noteq> Some [] \<and>
      (in_delivery i = None \<longleftrightarrow> in_action i = Act_read))"

primrec well_typed :: "request \<Rightarrow> bool" where
  "well_typed Record_login = True"
| "well_typed Record_logout = True"
| "well_typed (Issue_bootstrap_token a) = (a \<noteq> [])"
| "well_typed (Enroll t k) = (t \<noteq> [] \<and> jwk_text k)"
| "well_typed (Create_challenge a) = (a \<noteq> [])"
| "well_typed (Exchange_session x) = exchange_typed x"
| "well_typed (Revoke_session t) = (t \<noteq> [])"
| "well_typed (Create_profile i) = (cf_orgId i \<noteq> [] \<and> title_text (cf_name i))"
| "well_typed (List_profiles p) = (p \<noteq> [])"
| "well_typed (Get_profile p) = (p \<noteq> [])"
| "well_typed (Bootstrap_profile i) = root_key_typed i"
| "well_typed (Change_password i) = root_key_typed i"
| "well_typed (Setup_recovery p k) = (p \<noteq> [] \<and> k \<noteq> [])"
| "well_typed (Rotate_key i) = rotate_typed i"
| "well_typed (Delete_profile p) = (p \<noteq> [])"
| "well_typed (Create_org n s l) = (title_text n \<and> pred_option slug_text s)"
| "well_typed Create_personal_org = True"
| "well_typed (Check_slug s) = slug_text s"
| "well_typed List_orgs = True"
| "well_typed (Get_org p) = (p \<noteq> [])"
| "well_typed (Update_org p n l) = (p \<noteq> [] \<and> pred_option title_text n)"
| "well_typed (Delete_org p n w) = (p \<noteq> [] \<and> n \<noteq> [] \<and> w \<noteq> [])"
| "well_typed (List_members p) = (p \<noteq> [])"
| "well_typed (Create_invite p r) = (p \<noteq> [] \<and> pred_option role_text r)"
| "well_typed (Get_invite_info t) = (t \<noteq> [])"
| "well_typed (Accept_invite t) = (t \<noteq> [])"
| "well_typed (Revoke_invite p i) = (p \<noteq> [] \<and> i \<noteq> [])"
| "well_typed (Remove_member p m) = (p \<noteq> [] \<and> m \<noteq> [])"
| "well_typed (Update_role p m r) = (p \<noteq> [] \<and> m \<noteq> [] \<and> role_text r)"
| "well_typed Onboarding_status = True"
| "well_typed (Create_item i) = create_item_typed i"
| "well_typed (List_items q) = pred_option page_limit (lq_limit q)"
| "well_typed (List_items_for_agent q) = pred_option page_limit (lq_limit q)"
| "well_typed (Get_item i) = (i \<noteq> [])"
| "well_typed (Update_item i u) = (i \<noteq> [] \<and> update_item_typed u)"
| "well_typed (Owner_reveal i) = (i \<noteq> [])"
| "well_typed (Delete_item i) = (i \<noteq> [])"
| "well_typed (Create_agent i) = create_agent_typed i"
| "well_typed (List_agents q) = pred_option page_limit (lq_limit q)"
| "well_typed Current_agent = True"
| "well_typed (Get_agent a) = (a \<noteq> [])"
| "well_typed (Revoke_agent a) = (a \<noteq> [])"
| "well_typed Register_anonymous = True"
| "well_typed (Claim t e) = (t \<noteq> [] \<and> email_pattern e \<and> js_length e \<le> 320)"
| "well_typed (Claim_complete t c) = (t \<noteq> [] \<and> otp_pattern c)"
| "well_typed (Create_key i) = name_text (ck_name i)"
| "well_typed List_keys = True"
| "well_typed (Revoke_key k) = (k \<noteq> [])"
| "well_typed (Create_permission i) = create_permission_typed i"
| "well_typed (List_permissions q) = pred_option page_limit (lq_limit q)"
| "well_typed (Revoke_permission p) = (p \<noteq> [])"
| "well_typed (Access_ciphertext i) = (i \<noteq> [])"
| "well_typed (Access_reveal i) = (li_itemId i \<noteq> [] \<and> li_field i \<noteq> Some [])"
| "well_typed (Access_mount i d) = (li_itemId i \<noteq> [] \<and> li_field i \<noteq> Some [])"
| "well_typed (Bulk_mount_env p) = (p \<noteq> [])"
| "well_typed (Access i) = access_typed i"
| "well_typed (Use_profile i) = (pi_profileId i \<noteq> [] \<and> pi_action i = Act_use \<and> pi_purpose i \<noteq> Some [])"
| "well_typed (Redeem_mount m) = (m \<noteq> [])"
| "well_typed (List_audit q) = audit_query_typed q"
| "well_typed (List_audit_for_agent q) = audit_query_typed q"

end
