(* ===== verification/Sdk_Client.thy ===== *)
theory Sdk_Client
  imports Api_Requests
begin

text \<open>
  The SDK (\<open>packages/sdk/src/client.ts\<close>): the procedure and the input of every method of its two clients, the loop that drains a
  paged listing, and the background refresh of an agent's session as a machine whose events (a call of \<open>connect\<close>, the
  end of an exchange, the timer, \<open>disconnect\<close>) come in any order. How the transport encodes an input is not modelled; a
  property that is \<open>undefined\<close> is not sent.
\<close>

section \<open>Calls\<close>

datatype (plugins only: code size) sdk_call =
    Orgs_create string "string option"
  | Orgs_create_personal
  | Orgs_list
  | Orgs_get string
  | Orgs_update string "string option"
  | Orgs_delete string string string
  | Profiles_create string string "string option" "string option"
  | Profiles_list string
  | Profiles_get string
  | Profiles_changePassword string json_object
  | Profiles_delete string
  | Items_create json_object
  | Items_list "string option"
  | Items_get string
  | Items_update string json_object
  | Items_delete string
  | Agents_create json_object
  | Agents_list "string option"
  | Agents_delete string
  | Permissions_create json_object
  | Permissions_list "string option" "string option" "string option" "string option"
  | Permissions_delete string
  | Audit_list json_object
  | OwnerReveal string
  | IssueBootstrapToken string
  | ListMembers string
  | InviteMember string "string option"
  | GetInviteInfo string
  | AcceptInvite string
  | RevokeInvite string string
  | RemoveMember string string
  | UpdateMemberRole string string string
  | BootstrapProfile string json_object
  | SetupProfileRecovery string json_object
  | RotateProfileKey string json_object
  | Agent_challenge string
  | Agent_exchange string string string string
  | Agent_enroll string string
  | Agent_self
  | Agent_listItems "string option"
  | Agent_getItem string
  | Agent_getAudit json_object
  | Agent_read string "string option" "string option"
  | Agent_use string delivery_mode "string option" "string option" "string option"
  | Agent_useProfile string delivery_mode "string option"
  | Agent_redeemMount string

definition DRAIN_PAGE_SIZE :: int where
  "DRAIN_PAGE_SIZE = 100"

text \<open>A property that may be \<open>undefined\<close>; \<open>...(x ? { k: x } : {})\<close>, which also leaves out an empty string; \<open>{ k: v, ...data }\<close>.\<close>

definition given :: "string \<Rightarrow> string option \<Rightarrow> json_object" where
  "given k x = (case x of None \<Rightarrow> [] | Some s \<Rightarrow> [(k, JStr s)])"

definition if_truthy :: "string \<Rightarrow> string option \<Rightarrow> json_object" where
  "if_truthy k x = (case x of None \<Rightarrow> [] | Some s \<Rightarrow> if s = [] then [] else [(k, JStr s)])"

definition and_data :: "string \<Rightarrow> string \<Rightarrow> json_object \<Rightarrow> json_object" where
  "and_data k v data = (if k \<in> fst ` set data then data else (k, JStr v) # data)"

definition text1 :: "string \<Rightarrow> string \<Rightarrow> json option" where
  "text1 k v = Some (JObj [(k, JStr v)])"

definition text2 :: "string \<Rightarrow> string \<Rightarrow> string \<Rightarrow> string \<Rightarrow> json option" where
  "text2 k v l w = Some (JObj [(k, JStr v), (l, JStr w)])"

definition page_input :: "string option \<Rightarrow> json_object" where
  "page_input cursor = given ''cursor'' cursor @ [(''limit'', JNum DRAIN_PAGE_SIZE)]"

primrec sdk_request :: "sdk_call \<Rightarrow> string \<times> json option" where
  "sdk_request (Orgs_create n s) = (''organizations.create'', Some (JObj ((''name'', JStr n) # given ''slug'' s)))"
| "sdk_request Orgs_create_personal = (''organizations.createPersonal'', None)"
| "sdk_request Orgs_list = (''organizations.list'', None)"
| "sdk_request (Orgs_get i) = (''organizations.get'', text1 ''orgId'' i)"
| "sdk_request (Orgs_update i n) = (''organizations.update'', Some (JObj ((''orgId'', JStr i) # given ''name'' n)))"
| "sdk_request (Orgs_delete i n p) = (''organizations.delete'',
     Some (JObj [(''orgId'', JStr i), (''confirmName'', JStr n), (''password'', JStr p)]))"
| "sdk_request (Profiles_create i n d m) = (''profiles.create'',
     Some (JObj ([(''orgId'', JStr i), (''name'', JStr n)] @ given ''description'' d @ given ''storageMode'' m)))"
| "sdk_request (Profiles_list i) = (''profiles.list'', text1 ''orgId'' i)"
| "sdk_request (Profiles_get i) = (''profiles.get'', text1 ''profileId'' i)"
| "sdk_request (Profiles_changePassword i data) =
     (''profiles.changePassword'', Some (JObj (and_data ''profileId'' i data)))"
| "sdk_request (Profiles_delete i) = (''profiles.delete'', text1 ''profileId'' i)"
| "sdk_request (Items_create data) = (''items.create'', Some (JObj data))"
| "sdk_request (Items_list c) = (''items.list'', Some (JObj (page_input c)))"
| "sdk_request (Items_get i) = (''items.get'', text1 ''itemId'' i)"
| "sdk_request (Items_update i data) = (''items.update'', Some (JObj [(''itemId'', JStr i), (''data'', JObj data)]))"
| "sdk_request (Items_delete i) = (''items.delete'', text1 ''itemId'' i)"
| "sdk_request (Agents_create data) = (''agents.create'', Some (JObj data))"
| "sdk_request (Agents_list c) = (''agents.list'', Some (JObj (page_input c)))"
| "sdk_request (Agents_delete i) = (''agents.revoke'', text1 ''agentId'' i)"
| "sdk_request (Permissions_create data) = (''permissions.create'', Some (JObj data))"
| "sdk_request (Permissions_list a i p c) = (''permissions.list'',
     Some (JObj (given ''agentId'' a @ given ''itemId'' i @ given ''profileId'' p @ page_input c)))"
| "sdk_request (Permissions_delete i) = (''permissions.revoke'', text1 ''permissionId'' i)"
| "sdk_request (Audit_list data) = (''audit.list'', Some (JObj data))"
| "sdk_request (OwnerReveal i) = (''items.ownerReveal'', text1 ''itemId'' i)"
| "sdk_request (IssueBootstrapToken i) = (''auth.issueBootstrapToken'', text1 ''agentId'' i)"
| "sdk_request (ListMembers i) = (''organizations.members.list'', text1 ''orgId'' i)"
| "sdk_request (InviteMember i r) = (''organizations.members.invite'', Some (JObj ((''orgId'', JStr i) # given ''role'' r)))"
| "sdk_request (GetInviteInfo t) = (''organizations.members.getInviteInfo'', text1 ''token'' t)"
| "sdk_request (AcceptInvite t) = (''organizations.members.acceptInvite'', text1 ''token'' t)"
| "sdk_request (RevokeInvite i v) = (''organizations.members.revokeInvite'', text2 ''orgId'' i ''invitationId'' v)"
| "sdk_request (RemoveMember i u) = (''organizations.members.remove'', text2 ''orgId'' i ''userId'' u)"
| "sdk_request (UpdateMemberRole i u r) = (''organizations.members.updateRole'',
     Some (JObj [(''orgId'', JStr i), (''userId'', JStr u), (''role'', JStr r)]))"
| "sdk_request (BootstrapProfile i data) = (''profiles.bootstrap'', Some (JObj (and_data ''profileId'' i data)))"
| "sdk_request (SetupProfileRecovery i data) = (''profiles.setupRecovery'', Some (JObj (and_data ''profileId'' i data)))"
| "sdk_request (RotateProfileKey i data) = (''profiles.rotateKey'', Some (JObj (and_data ''profileId'' i data)))"
| "sdk_request (Agent_challenge i) = (''auth.createChallenge'', text1 ''agentId'' i)"
| "sdk_request (Agent_exchange i k c s) = (''auth.exchangeSession'',
     Some (JObj [(''agentId'', JStr i), (''challengeId'', JStr k), (''challenge'', JStr c), (''signature'', JStr s)]))"
| "sdk_request (Agent_enroll t k) = (''auth.enroll'', text2 ''bootstrapToken'' t ''publicKey'' k)"
| "sdk_request Agent_self = (''agents.self'', None)"
| "sdk_request (Agent_listItems c) = (''items.listForAgent'', Some (JObj (page_input c)))"
| "sdk_request (Agent_getItem i) = (''items.get'', text1 ''itemId'' i)"
| "sdk_request (Agent_getAudit data) = (''audit.listForAgent'', Some (JObj data))"
| "sdk_request (Agent_read i f p) = (''access.read'',
     Some (JObj ((''itemId'', JStr i) # if_truthy ''field'' f @ if_truthy ''purpose'' p)))"
| "sdk_request (Agent_use i d f e p) = (''access.use'',
     Some (JObj ([(''itemId'', JStr i), (''delivery'', JStr (delivery_name d))] @ if_truthy ''field'' f @
       if_truthy ''envVarName'' e @ if_truthy ''purpose'' p)))"
| "sdk_request (Agent_useProfile i d p) = (''access.useProfile'',
     Some (JObj ([(''profileId'', JStr i), (''delivery'', JStr (delivery_name d))] @ if_truthy ''purpose'' p)))"
| "sdk_request (Agent_redeemMount m) = (''access.redeemMount'', text1 ''mountId'' m)"

text \<open>Which of the two clients has the method, and what its token lets it call.\<close>

definition of_agent_client :: "sdk_call \<Rightarrow> bool" where
  "of_agent_client c = (case c of
       Agent_challenge _ \<Rightarrow> True | Agent_exchange _ _ _ _ \<Rightarrow> True | Agent_enroll _ _ \<Rightarrow> True | Agent_self \<Rightarrow> True
     | Agent_listItems _ \<Rightarrow> True | Agent_getItem _ \<Rightarrow> True | Agent_getAudit _ \<Rightarrow> True | Agent_read _ _ _ \<Rightarrow> True
     | Agent_use _ _ _ _ _ \<Rightarrow> True | Agent_useProfile _ _ _ \<Rightarrow> True | Agent_redeemMount _ \<Rightarrow> True | _ \<Rightarrow> False)"

definition admits :: "builder \<Rightarrow> bool \<Rightarrow> bool" where
  "admits b agent = (case b of PublicProcedure \<Rightarrow> True | AgentProcedure \<Rightarrow> agent | _ \<Rightarrow> \<not> agent)"

definition reaches_handler :: "(schema \<Rightarrow> json \<Rightarrow> bool) \<Rightarrow> sdk_call \<Rightarrow> bool" where
  "reaches_handler accepts c = (case procedure_of (fst (sdk_request c)) of
       None \<Rightarrow> False
     | Some p \<Rightarrow> admits (pr_builder p) (of_agent_client c) \<and> input_accepted accepts (pr_input p) (snd (sdk_request c)))"

section \<open>Draining a listing\<close>

definition MAX_DRAIN_PAGES :: nat where
  "MAX_DRAIN_PAGES = 1000"

definition runaway :: err where
  "runaway = PlainErr ''PAGINATION_RUNAWAY''"

text \<open>The number of pages still allowed, and the cursor; \<open>!nextCursor\<close> is also true of an empty one.\<close>

fun drain_from :: "(string option \<Rightarrow> err + 'r list \<times> string option) \<Rightarrow> nat \<Rightarrow> string option \<Rightarrow> err + 'r list" where
  "drain_from fetchPage 0 cursor = Inl runaway"
| "drain_from fetchPage (Suc n) cursor =
     (case fetchPage cursor of
        Inl e \<Rightarrow> Inl e
      | Inr (rows, nextCursor) \<Rightarrow>
          if falsy nextCursor then Inr rows
          else (case drain_from fetchPage n nextCursor of Inl e \<Rightarrow> Inl e | Inr rest \<Rightarrow> Inr (rows @ rest)))"

definition drainPages :: "(string option \<Rightarrow> err + 'r list \<times> string option) \<Rightarrow> err + 'r list" where
  "drainPages fetchPage = drain_from fetchPage MAX_DRAIN_PAGES None"

context keyset
begin

lemma drain_later:
  assumes "ok q" "\<And>x. x \<in> set (all q) \<Longrightarrow> cur q x \<noteq> []"
  shows "all q = xs @ x # ys \<Longrightarrow> length ys < size q * n \<Longrightarrow> drain_from (fetch q) n (Some (cur q x)) = Inr ys"
proof (induction n arbitrary: xs x ys)
  case (Suc n)
  note page = later [OF assms(1) Suc.prems(1)]
  show ?case
  proof (cases "length ys < size q")
    case True
    with page show ?thesis by (simp add: next_of_def)
  next
    case False
    note full = next_full [OF False assms(1)]
    have all: "all q = (xs @ x # take (size q - 1) ys) @ ys ! (size q - 1) # drop (size q) ys"
      using Suc.prems(1) full(2) by simp
    then have "cur q (ys ! (size q - 1)) \<noteq> []" by (intro assms(2)) simp
    moreover have "length (drop (size q) ys) < size q * n" using False Suc.prems(2) by simp
    ultimately show ?thesis using Suc.IH [OF all] page full(1) by (simp add:)
  qed
qed simp

lemma drain_all:
  assumes "ok q" "\<And>x. x \<in> set (all q) \<Longrightarrow> cur q x \<noteq> []" "length (all q) < size q * n"
  shows "drain_from (fetch q) n None = Inr (all q)"
proof (cases n)
  case (Suc m)
  show ?thesis
  proof (cases "length (all q) < size q")
    case True
    with first [OF assms(1)] Suc show ?thesis by (simp add: next_of_def)
  next
    case False
    note full = next_full [OF False assms(1)]
    have "all q ! (size q - 1) \<in> set (all q)" using False size_pos [OF assms(1)] by simp
    then have "cur q (all q ! (size q - 1)) \<noteq> []" by (rule assms(2))
    moreover have "length (drop (size q) (all q)) < size q * m" using False assms(3) Suc by simp
    ultimately show ?thesis
      using drain_later [OF assms(1,2) full(2)] first [OF assms(1)] full(1) Suc by (simp add:)
  qed
qed (use assms(3) in simp)

end

section \<open>The session of an agent\<close>

text \<open>
  \<open>connect\<close> and every refresh run an exchange that ends later, with a token and its expiry or with an error; an exchange in flight is
  \<open>None\<close> when \<open>connect\<close> waits for it and \<open>Some k\<close> when it is refresh attempt \<open>k\<close>. The timer holds the instant it is due and the
  attempt it will start. Times are milliseconds.
\<close>

definition REFRESH_RETRY_SCHEDULE_MS :: "int list" where
  "REFRESH_RETRY_SCHEDULE_MS = [30000, 60000, 120000, 240000, 300000]"

record sdk_agent =
  sg_sessionExpired :: bool
  sg_lastExpiresAtMs :: int
  sg_token :: "string option"
  sg_timer :: "(int \<times> nat) option"
  sg_inFlight :: "nat option list"
  sg_now :: int

definition sdk_agent :: "int \<Rightarrow> sdk_agent" where
  "sdk_agent now = \<lparr>sg_sessionExpired = False, sg_lastExpiresAtMs = 0, sg_token = None, sg_timer = None,
     sg_inFlight = [], sg_now = now\<rparr>"

definition armTimer :: "int \<Rightarrow> nat \<Rightarrow> sdk_agent \<Rightarrow> sdk_agent" where
  "armTimer delayMs attempt s = s\<lparr>sg_timer := Some (sg_now s + delayMs, attempt)\<rparr>"

definition scheduleRefreshFromExpiry :: "sdk_agent \<Rightarrow> sdk_agent" where
  "scheduleRefreshFromExpiry s = armTimer (max 0 (sg_lastExpiresAtMs s - sg_now s - 2 * 60 * 1000)) 0 s"

definition connect :: "sdk_agent \<Rightarrow> sdk_agent" where
  "connect s = s\<lparr>sg_sessionExpired := False, sg_inFlight := sg_inFlight s @ [None]\<rparr>"

text \<open>The timer has fired: \<open>refreshOnce\<close> starts. (The code keeps the handle of a timer that fired; clearing it has no effect.)\<close>

definition fire :: "sdk_agent \<Rightarrow> sdk_agent" where
  "fire s = (case sg_timer s of
       None \<Rightarrow> s
     | Some (due, attempt) \<Rightarrow> if sg_now s < due then s
         else s\<lparr>sg_timer := None, sg_inFlight := sg_inFlight s @ [Some attempt]\<rparr>)"

definition exchange_ok :: "string \<Rightarrow> int \<Rightarrow> sdk_agent \<Rightarrow> sdk_agent" where
  "exchange_ok token expiresAt s =
     scheduleRefreshFromExpiry (s\<lparr>sg_token := Some token, sg_lastExpiresAtMs := expiresAt\<rparr>)"

text \<open>The \<open>catch\<close> of \<open>refreshOnce\<close>, with an \<open>onSessionError\<close> that returns; the error of an exchange that \<open>connect\<close> waits for is thrown to the caller.\<close>

definition exchange_failed :: "nat option \<Rightarrow> sdk_agent \<Rightarrow> sdk_agent" where
  "exchange_failed origin s = (case origin of
       None \<Rightarrow> s
     | Some attempt \<Rightarrow>
         if attempt \<ge> length REFRESH_RETRY_SCHEDULE_MS then s\<lparr>sg_sessionExpired := True\<rparr>
         else armTimer (REFRESH_RETRY_SCHEDULE_MS ! attempt) (attempt + 1) s)"

definition remove_at :: "nat \<Rightarrow> 'a list \<Rightarrow> 'a list" where
  "remove_at i xs = take i xs @ drop (Suc i) xs"

definition exchange_ends :: "nat \<Rightarrow> (string \<times> int) option \<Rightarrow> sdk_agent \<Rightarrow> sdk_agent" where
  "exchange_ends i result s =
     (if i < length (sg_inFlight s) then
        (let s' = s\<lparr>sg_inFlight := remove_at i (sg_inFlight s)\<rparr> in
         case result of Some (token, expiresAt) \<Rightarrow> exchange_ok token expiresAt s'
         | None \<Rightarrow> exchange_failed (sg_inFlight s ! i) s')
      else s)"

definition disconnect :: "sdk_agent \<Rightarrow> sdk_agent" where
  "disconnect s = s\<lparr>sg_timer := None\<rparr>"

definition session_refresh_failed :: err where
  "session_refresh_failed = DomainErr UnauthorizedError ''SESSION_REFRESH_FAILED'' []"

definition authedCall :: "sdk_agent \<Rightarrow> (string option \<Rightarrow> err + 'a) \<Rightarrow> err + 'a" where
  "authedCall s operation = (if sg_sessionExpired s then Inl session_refresh_failed else operation (sg_token s))"

datatype sdk_event =
    Connect
  | Exchange_ends nat "(string \<times> int) option"
  | Pass int
  | Timer
  | Disconnect

fun sdk_step :: "sdk_event \<Rightarrow> sdk_agent \<Rightarrow> sdk_agent" where
  "sdk_step Connect s = connect s"
| "sdk_step (Exchange_ends i r) s = exchange_ends i r s"
| "sdk_step (Pass d) s = s\<lparr>sg_now := sg_now s + max 0 d\<rparr>"
| "sdk_step Timer s = fire s"
| "sdk_step Disconnect s = disconnect s"

end
