(* ===== verification/Api_Types.thy ===== *)
theory Api_Types
  imports Api_Requests
begin

text \<open>
  Every procedure reads what its input schema accepts (\<open>accepted_requests_are_well_typed\<close>): first the leaves, then the structs, then
  the routers, each under the laws of \<open>effect_schema\<close>.
\<close>

lemmas leaf_schemas = NonEmptyString_def UuidString_def BoundedNameString_def AgentPublicKeyString_def IsoDateString_def
  StorageModeSchema_def AgentKindSchema_def AgentAuthMethodSchema_def CapabilitySchema_def AuditResultSchema_def
  profiles_NonEmptyString_def profiles_BoundedNameString_def EmailString_def Base64UrlSig_def Base64UrlChallenge_def

lemma js_length_0: "js_length [] = 0"
  by (simp add: js_length_def)

lemma fits_imp: "fits accepts s dec P \<Longrightarrow> (\<And>a. P a \<Longrightarrow> Q a) \<Longrightarrow> fits accepts s dec Q"
  by (fastforce simp: fits_def)

lemma member_of_names:
  assumes "s \<in> set (map snd names)"
  shows "\<exists>a. member_of names (JStr s) = Some a \<and> (a, s) \<in> set names"
proof -
  from assms obtain p where p: "find (\<lambda>(a, n). n = s) names = Some p"
    by (cases "find (\<lambda>(a, n). n = s) names") (auto simp: find_None_iff)
  then have "p \<in> set names \<and> snd p = s" by (auto simp: find_Some_iff case_prod_unfold)
  with p show ?thesis by (cases p) (auto simp: member_of_def)
qed

lemma capability_read: "s \<in> set (map capability_name CAPABILITIES) \<Longrightarrow>
    \<exists>c. s = capability_name c \<and> member_of capability_names (JStr s) = Some c"
proof -
  have "member_of capability_names (JStr (capability_name c)) = Some c" for c
    by (cases c) (simp_all add: member_of_def capability_names_def CAPABILITIES_def)
  then show "s \<in> set (map capability_name CAPABILITIES) \<Longrightarrow> ?thesis" by auto
qed

lemma read_all_injective:
  assumes "list_all (\<lambda>x. \<exists>c. x = f c \<and> dec x = Some c) vs" "distinct vs"
  shows "\<exists>cs. read_all dec vs = Some cs \<and> distinct cs \<and> length cs = length vs"
proof -
  from assms(1) have "\<exists>cs. read_all dec vs = Some cs \<and> map f cs = vs"
    by (induction vs) (auto split: option.splits)
  then obtain cs where cs: "read_all dec vs = Some cs" "map f cs = vs" by blast
  from cs(2) assms(2) have "distinct cs" by (auto simp: distinct_map)
  moreover from cs(2) have "length cs = length vs" by auto
  ultimately show ?thesis using cs(1) by blast
qed

definition read_payload :: "json_object \<Rightarrow> item_payload option" where
  "read_payload ob = ItemPayloadSchema (JObj ob)"

lemma read_payload: "of_object read_payload = ItemPayloadSchema"
proof
  fix v
  show "of_object read_payload v = ItemPayloadSchema v"
    by (cases v) (simp_all add: of_object_def read_payload_def ItemPayloadSchema_def)
qed

text \<open>What the filter of \<open>CreateAgentSchema\<close> adds.\<close>

lemma agent_filter:
  assumes "read_create_agent ob = Some i" "pred_option jwk_text (ca_publicKey i)" "agent_credentials_ok (JObj ob)"
  shows "\<not> (ca_publicKey i \<noteq> None \<and> ca_issueBootstrapToken i) \<and>
    pred_option (\<lambda>m. jsonDepth (JObj m) \<le> 8 \<and> js_length (JSON_stringify (JObj m)) \<le> 16384) (ca_metadata i)"
proof -
  have p: "optional as_string ''publicKey'' ob = Some (ca_publicKey i)"
    and b: "\<exists>b. optional as_bool ''issueBootstrapToken'' ob = Some b \<and> ca_issueBootstrapToken i = orElse b False"
    and m: "optional as_object ''metadata'' ob = Some (ca_metadata i)"
    using assms(1) by (auto simp: read_create_agent_def bind_eq_Some_conv)
  have "ca_publicKey i \<noteq> None \<and> ca_issueBootstrapToken i \<Longrightarrow> False"
  proof -
    assume a: "ca_publicKey i \<noteq> None \<and> ca_issueBootstrapToken i"
    then obtain k where k: "ca_publicKey i = Some k" by blast
    with assms(2) have "k \<noteq> []" by (auto simp: jwk_text_def js_length_def)
    moreover from p k have "map_of ob ''publicKey'' = Some (JStr k)"
      by (auto simp: optional_def split: option.splits elim!: as_string.elims)
    moreover from b a have "map_of ob ''issueBootstrapToken'' = Some (JBool True)"
      by (auto simp: optional_def split: option.splits elim!: as_bool.elims)
    ultimately show False using assms(3) by (simp add: agent_credentials_ok_def)
  qed
  moreover have "jsonDepth (JObj q) \<le> 8 \<and> js_length (JSON_stringify (JObj q)) \<le> 16384" if "ca_metadata i = Some q" for q
  proof -
    from m that have "map_of ob ''metadata'' = Some (JObj q)"
      by (auto simp: optional_def split: option.splits elim!: as_object.elims)
    with assms(3) show ?thesis
      by (auto simp: agent_credentials_ok_def MAX_AGENT_METADATA_DEPTH_def MAX_AGENT_METADATA_JSON_BYTES_def
          split: if_splits)
  qed
  ultimately show ?thesis by (cases "ca_metadata i") auto
qed

context effect_schema
begin

lemma filter_simps:
  "accepts (SFilter s r) (JStr t) = (accepts s (JStr t) \<and> refines number r (JStr t))"
  "accepts (SFilter s r) (JNum i) = (accepts s (JNum i) \<and> refines number r (JNum i))"
  "accepts (SFilter s r) (JObj ob) = (accepts s (JObj ob) \<and> refines number r (JObj ob))"
  "accepts (SFilter s r) (JArr vs) = (accepts s (JArr vs) \<and> refines number r (JArr vs))"
  "accepts (SFilter s r) (JBool b) = (accepts s (JBool b) \<and> refines number r (JBool b))"
  "accepts (SFilter s r) JNull = (accepts s JNull \<and> refines number r JNull)"
  by (simp_all add: filter fraction_def)

lemmas laws = string number number_from_string int boolean null unknown literal array nonempty dictionary struct union
  filter_simps

text \<open>A schema none of whose values is a fraction is looked at shape by shape.\<close>

lemma fits_shapes:
  assumes "\<And>t. \<not> accepts s (JFrac t)"
    and "\<And>v. accepts s v \<Longrightarrow> \<not> fraction v \<Longrightarrow> \<exists>a. dec v = Some a \<and> P a"
  shows "fits accepts s dec P"
proof (unfold fits_def, intro allI impI)
  fix v
  assume "accepts s v"
  then show "\<exists>a. dec v = Some a \<and> P a"
    using assms by (cases v) (fastforce simp: fraction_def)+
qed

lemma no_fraction_text: "accepts (SFilter SString r) (JFrac t) = False"
  "accepts (SFilter (SFilter SString r) r') (JFrac t) = False"
  "accepts (SFilter (SFilter (SFilter SString r) r') r'') (JFrac t) = False"
  by (auto dest!: filter_source simp: string)

lemma no_fraction_int: "accepts (SFilter SInt r) (JFrac t) = False"
  "accepts (SFilter (SFilter SInt r) r') (JFrac t) = False"
  by (auto dest!: filter_source simp: int)

lemmas leaf_laws = leaf_schemas laws filter no_fraction_text no_fraction_int js_length_0

lemma fits_string: "fits accepts SString as_string (\<lambda>s. True)"
  by (auto simp: fits_def string split: json.splits)

lemma fits_nonempty: "fits accepts NonEmptyString as_string (\<lambda>s. s \<noteq> [])"
  by (rule fits_shapes) (auto simp: leaf_laws split: json.splits)

lemma fits_min1: "fits accepts (SFilter SString (MinLength 1)) as_string (\<lambda>s. s \<noteq> [])"
  using fits_nonempty by (simp add: NonEmptyString_def)

lemma fits_uuid: "fits accepts UuidString as_string uuid_pattern"
  by (rule fits_shapes) (auto simp: leaf_laws split: json.splits)

lemma fits_name: "fits accepts BoundedNameString as_string name_text"
  by (rule fits_shapes) (auto simp: leaf_laws name_text_def split: json.splits)

lemma fits_title: "fits accepts (SFilter (SFilter SString (MinLength 1)) (MaxLength 255)) as_string title_text"
  by (rule fits_shapes) (auto simp: leaf_laws title_text_def split: json.splits)

lemma fits_profile_name: "fits accepts profiles_BoundedNameString as_string title_text"
  using fits_title by (simp add: profiles_BoundedNameString_def)

lemma fits_profile_text: "fits accepts profiles_NonEmptyString as_string (\<lambda>s. s \<noteq> [])"
  using fits_nonempty by (simp add: profiles_NonEmptyString_def NonEmptyString_def)

lemma fits_slug:
  "fits accepts (SFilter (SFilter (SFilter SString (MinLength 1)) (MaxLength 48)) (Pattern slug_pattern)) as_string slug_text"
  by (rule fits_shapes) (auto simp: leaf_laws slug_text_def split: json.splits)

lemma fits_jwk: "fits accepts AgentPublicKeyString as_string jwk_text"
  by (rule fits_shapes) (auto simp: leaf_laws jwk_text_def split: json.splits)

lemma fits_date: "fits accepts IsoDateString as_string (\<lambda>s. True)"
  using fits_string by (simp add: IsoDateString_def)

lemma fits_email: "fits accepts EmailString as_string (\<lambda>s. email_pattern s \<and> js_length s \<le> 320)"
  by (rule fits_shapes) (auto simp: leaf_laws split: json.splits)

lemma fits_otp: "fits accepts (SFilter SString (Pattern otp_pattern)) as_string otp_pattern"
  by (rule fits_shapes) (auto simp: leaf_laws split: json.splits)

lemma fits_cursor: "fits accepts (SFilter SString (Pattern digits_pattern)) as_string digits_pattern"
  by (rule fits_shapes) (auto simp: leaf_laws split: json.splits)

lemma fits_signature: "fits accepts Base64UrlSig as_string
    (\<lambda>s. base64url_pattern s \<and> 86 \<le> js_length s \<and> js_length s \<le> 88)"
  by (rule fits_shapes) (auto simp: leaf_laws split: json.splits)

lemma fits_challenge: "fits accepts Base64UrlChallenge as_string
    (\<lambda>s. base64url_pattern s \<and> 8 \<le> js_length s \<and> js_length s \<le> 256)"
  by (rule fits_shapes) (auto simp: leaf_laws split: json.splits)

lemma fits_bool: "fits accepts SBoolean as_bool (\<lambda>b. True)"
  by (auto simp: fits_def boolean split: json.splits)

lemma fits_unknown: "fits accepts s Some (accepts s)"
  by (simp add: fits_def)

lemma fits_record: "fits accepts JsonRecord as_object (\<lambda>ob. True)"
  by (auto simp: fits_def JsonRecord_def dictionary split: json.splits)

lemma fits_int: "fits accepts SInt as_int (\<lambda>i. True)"
  by (auto simp: fits_def int split: json.splits)

lemma fits_positive: "fits accepts (SFilter SInt Positive) as_int (\<lambda>i. 0 < i)"
  by (rule fits_shapes) (auto simp: leaf_laws split: json.splits)

lemma fits_nonneg: "fits accepts (SFilter SInt NonNegative) as_int (\<lambda>i. 0 \<le> i)"
  by (rule fits_shapes) (auto simp: leaf_laws split: json.splits)

lemma fits_limit: "fits accepts (SFilter (SFilter SInt (AtLeast 1)) (AtMost 100)) as_int page_limit"
  by (rule fits_shapes) (auto simp: leaf_laws page_limit_def split: json.splits)

lemma any_number_no_fraction: "accepts (SFilter (SUnion [SNumber, SNumberFromString]) Integer) (JFrac t) = False"
  by (simp add: filter)

lemma fits_any_limit:
  "fits accepts (SFilter (SFilter (SFilter (SUnion [SNumber, SNumberFromString]) Integer) (AtLeast 1)) (AtMost 100))
     (as_number number) page_limit"
proof (unfold fits_def, intro allI impI)
  fix v
  assume a: "accepts (SFilter (SFilter (SFilter (SUnion [SNumber, SNumberFromString]) Integer) (AtLeast 1)) (AtMost 100)) v"
  then have "accepts (SFilter (SUnion [SNumber, SNumberFromString]) Integer) v" by (auto dest!: filter_source)
  then have "\<not> fraction v" by (cases v) (auto simp: fraction_def any_number_no_fraction)
  with a have "refines number (AtLeast 1) v" "refines number (AtMost 100) v" by (simp_all add: filter)
  then show "\<exists>l. as_number number v = Some l \<and> page_limit l"
    by (cases "as_number number v") (auto simp: page_limit_def)
qed

lemma fits_literal:
  assumes "set ws \<subseteq> set (map snd names)"
  shows "fits accepts (SLiteral ws) (member_of names) (\<lambda>a. \<exists>s \<in> set ws. (a, s) \<in> set names)"
proof (unfold fits_def, intro allI impI)
  fix v
  assume "accepts (SLiteral ws) v"
  then obtain s where s: "v = JStr s" "s \<in> set ws" by (auto simp: literal split: json.splits)
  with assms have "s \<in> set (map snd names)" by blast
  from member_of_names [OF this] s
  show "\<exists>a. member_of names v = Some a \<and> (\<exists>s \<in> set ws. (a, s) \<in> set names)" by auto
qed

lemma fits_word: "fits accepts (SLiteral ws) as_string (\<lambda>s. s \<in> set ws)"
  by (auto simp: fits_def literal split: json.splits)

lemma fits_storage_mode:
  "fits accepts (SLiteral [''zero_knowledge'', ''server_managed'']) (member_of storage_mode_names) (\<lambda>m. True)"
  by (rule fits_imp [OF fits_literal]) (auto simp: storage_mode_names_def)

lemma fits_delivery: "fits accepts (SLiteral [''env'', ''file'']) (member_of delivery_names) (\<lambda>m. True)"
  by (rule fits_imp [OF fits_literal]) (auto simp: delivery_names_def)

lemma fits_result: "fits accepts AuditResultSchema (member_of result_names) (\<lambda>m. True)"
  unfolding AuditResultSchema_def by (rule fits_imp [OF fits_literal]) (auto simp: result_names_def AUDIT_RESULTS_def)

lemma fits_agent_kind: "fits accepts AgentKindSchema (member_of agent_kind_names) (\<lambda>m. True)"
  unfolding AgentKindSchema_def by (rule fits_imp [OF fits_literal]) (auto simp: agent_kind_names_def AGENT_KINDS_def)

lemma fits_auth_method: "fits accepts AgentAuthMethodSchema as_string (\<lambda>m. m = ''public_key_session'')"
  unfolding AgentAuthMethodSchema_def by (rule fits_imp [OF fits_word]) (simp add: AGENT_AUTH_METHODS_def)

lemma fits_role: "fits accepts (SLiteral [''owner'', ''admin'', ''member'']) as_string role_text"
  by (rule fits_imp [OF fits_word]) (auto simp: role_text_def)

lemma fits_event: "fits accepts (SLiteral AUDIT_EVENT_TYPE_FILTERS) as_string (\<lambda>e. e \<in> set AUDIT_EVENT_TYPE_FILTERS)"
  by (rule fits_word)

section \<open>Structs\<close>

text \<open>A struct fits an object reader when the reader copes with fields of the declared kinds.\<close>

lemma fits_struct_closed:
  assumes "distinct (map fst fs)"
    and "\<And>ob. list_all (\<lambda>(k, r, s). field_ok accepts r s (map_of ob k)) fs \<Longrightarrow>
      (\<And>k. k \<notin> fst ` set fs \<Longrightarrow> map_of ob k = None) \<Longrightarrow> \<exists>a. f ob = Some a \<and> P a"
  shows "fits accepts (SStruct fs) (of_object f) P"
proof (unfold fits_def, intro allI impI)
  fix v
  assume "accepts (SStruct fs) v"
  then obtain ob where v: "v = JObj ob" "struct_ok accepts fs ob" by (auto simp: struct split: json.splits)
  have "\<exists>a. f ob = Some a \<and> P a"
    by (rule assms(2) [OF struct_fields [OF v(2) assms(1)]]) (rule struct_excess [OF v(2)])
  with v(1) show "\<exists>a. of_object f v = Some a \<and> P a" by (simp add: of_object_def)
qed

lemma fits_struct:
  assumes "distinct (map fst fs)"
    and "\<And>ob. list_all (\<lambda>(k, r, s). field_ok accepts r s (map_of ob k)) fs \<Longrightarrow> \<exists>a. f ob = Some a \<and> P a"
  shows "fits accepts (SStruct fs) (of_object f) P"
  by (rule fits_struct_closed) (use assms in blast)+

text \<open>The simplifier writes \<open>MinLength 1\<close> as \<open>MinLength (Suc 0)\<close>.\<close>

lemmas textE = requiredE [OF _ fits_nonempty] requiredE [OF _ fits_min1 [unfolded One_nat_def]]
  requiredE [OF _ fits_profile_text]
lemmas fieldE = textE requiredE [OF _ fits_uuid] requiredE [OF _ fits_name] requiredE [OF _ fits_title [unfolded One_nat_def]]
  requiredE [OF _ fits_profile_name] requiredE [OF _ fits_slug [unfolded One_nat_def]] requiredE [OF _ fits_jwk] requiredE [OF _ fits_email]
  requiredE [OF _ fits_otp] requiredE [OF _ fits_signature] requiredE [OF _ fits_challenge] requiredE [OF _ fits_positive]
  requiredE [OF _ fits_storage_mode] requiredE [OF _ fits_delivery] requiredE [OF _ fits_agent_kind] requiredE [OF _ fits_role]
  optionalE [OF _ fits_string] optionalE [OF _ fits_nonempty] optionalE [OF _ fits_uuid] optionalE [OF _ fits_title [unfolded One_nat_def]]
  optionalE [OF _ fits_slug [unfolded One_nat_def]] optionalE [OF _ fits_jwk] optionalE [OF _ fits_date] optionalE [OF _ fits_cursor]
  optionalE [OF _ fits_bool] optionalE [OF _ fits_record] optionalE [OF _ fits_nonneg] optionalE [OF _ fits_limit]
  optionalE [OF _ fits_any_limit] optionalE [OF _ fits_result] optionalE [OF _ fits_auth_method] optionalE [OF _ fits_event]
  optionalE [OF _ fits_role]

lemma fits_exchange: "fits accepts ExchangeAgentSessionSchema (of_object read_exchange) exchange_typed"
  unfolding ExchangeAgentSessionSchema_def
  by (rule fits_struct) (auto simp: read_exchange_def exchange_typed_def elim!: fieldE)

lemma fits_create_profile:
  "fits accepts CreateProfileSchema (of_object read_create_profile) (\<lambda>i. cf_orgId i \<noteq> [] \<and> title_text (cf_name i))"
  unfolding CreateProfileSchema_def
  by (rule fits_struct) (auto simp: read_create_profile_def elim!: fieldE)

lemma fits_array:
  assumes "fits accepts s dec P"
  shows "fits accepts (SArray s) (as_list dec) (list_all P)"
proof (unfold fits_def, intro allI impI)
  fix v
  assume "accepts (SArray s) v"
  then obtain vs where v: "v = JArr vs" "list_all (accepts s) vs" by (auto simp: array split: json.splits)
  from v(2) have "\<exists>as. read_all dec vs = Some as \<and> list_all P as"
    by (induction vs) (use assms in \<open>auto simp: fits_def split: option.splits\<close>)
  with v(1) show "\<exists>as. as_list dec v = Some as \<and> list_all P as" by simp
qed

lemma fits_union: "fits accepts s dec P \<Longrightarrow> fits accepts t dec P \<Longrightarrow> fits accepts (SUnion [s, t]) dec P"
  by (auto simp: fits_def union)

lemma literal_field: "field_ok accepts True (SLiteral [w]) x \<Longrightarrow> x = Some (JStr w)"
  by (auto simp: field_ok_def literal split: option.splits json.splits)

lemma positive_required: "field_ok accepts True (SFilter SInt Positive) (map_of ob k) \<Longrightarrow> positive_field ob k"
  using fits_positive by (fastforce simp: field_ok_def fits_def positive_field_def split: option.splits json.splits)

lemma fits_kdf: "fits accepts KdfParamsSchema Some kdf_params"
proof -
  have "fits accepts KdfParamsSchema (of_object (\<lambda>ob. Some ob)) (\<lambda>ob. kdf_params (JObj ob))"
    unfolding KdfParamsSchema_def
    by (rule fits_struct) (auto simp: kdf_params_def dest!: literal_field positive_required)
  then have "kdf_params v" if "accepts KdfParamsSchema v" for v
    using that by (cases v) (auto simp: fits_def of_object_def dest: spec [of _ v])
  then show ?thesis by (simp add: fits_def)
qed

lemma bootstrap_is_password_change: "ProfileBootstrapSchema = ProfileChangePasswordSchema"
  by (simp add: ProfileBootstrapSchema_def ProfileChangePasswordSchema_def)

lemma fits_change_password: "fits accepts ProfileChangePasswordSchema (of_object read_root_key) root_key_typed"
  unfolding ProfileChangePasswordSchema_def KdfParamsSchema_def [symmetric]
proof (rule fits_struct)
  fix ob
  assume "list_all (\<lambda>(k, r, s). field_ok accepts r s (map_of ob k))
      [must ''profileId'' profiles_NonEmptyString, must ''wrappedRootKey'' profiles_NonEmptyString,
       must ''kdfSalt'' profiles_NonEmptyString, must ''kdfParams'' KdfParamsSchema]"
  then have f: "field_ok accepts True profiles_NonEmptyString (map_of ob ''profileId'')"
    "field_ok accepts True profiles_NonEmptyString (map_of ob ''wrappedRootKey'')"
    "field_ok accepts True profiles_NonEmptyString (map_of ob ''kdfSalt'')"
    "field_ok accepts True KdfParamsSchema (map_of ob ''kdfParams'')" by simp_all
  obtain k where "required Some ''kdfParams'' ob = Some k" "kdf_params k" by (rule requiredE [OF f(4) fits_kdf])
  with f(1-3) show "\<exists>a. read_root_key ob = Some a \<and> root_key_typed a"
    by (auto simp: read_root_key_def root_key_typed_def elim!: fieldE)
qed simp

lemma fits_rekeyed: "fits accepts RekeyedItemSchema (of_object read_rekeyed)
    (\<lambda>r. ri_itemId r \<noteq> [] \<and> ri_encryptedItemKey r \<noteq> [])"
  unfolding RekeyedItemSchema_def by (rule fits_struct) (auto simp: read_rekeyed_def elim!: fieldE)

lemma fits_rotate: "fits accepts ProfileRotateKeySchema (of_object read_rotate) rotate_typed"
  unfolding ProfileRotateKeySchema_def
  by (rule fits_struct)
    (auto simp: read_rotate_def rotate_typed_def elim!: fieldE requiredE [OF _ fits_array [OF fits_rekeyed]])

lemma fits_list_query:
  "fits accepts ItemListQuerySchema (of_object read_list_query) (\<lambda>q. pred_option page_limit (lq_limit q))"
  "fits accepts AgentListQuerySchema (of_object read_list_query) (\<lambda>q. pred_option page_limit (lq_limit q))"
  unfolding ItemListQuerySchema_def AgentListQuerySchema_def
  by (rule fits_struct; auto simp: read_list_query_def elim!: fieldE)+

lemma fits_permission_query: "fits accepts PermissionListQuerySchema (of_object read_permission_query)
    (\<lambda>q. pred_option page_limit (lq_limit q))"
  unfolding PermissionListQuerySchema_def
  by (rule fits_struct) (auto simp: read_permission_query_def elim!: fieldE)

lemma fits_create_key: "fits accepts CreateUserApiKeySchema (of_object (read_create_key date)) (\<lambda>i. name_text (ck_name i))"
  unfolding CreateUserApiKeySchema_def
  by (rule fits_struct) (auto simp: read_create_key_def elim!: fieldE)

lemma fits_reveal:
  "fits accepts RevealAccessSchema (of_object read_legacy) (\<lambda>i. li_itemId i \<noteq> [] \<and> li_field i \<noteq> Some [])"
  unfolding RevealAccessSchema_def
  by (rule fits_struct) (auto simp: read_legacy_def elim!: fieldE)

lemma fits_read: "fits accepts ReadAccessSchema (of_object read_read) access_typed"
  unfolding ReadAccessSchema_def
  by (rule fits_struct) (auto simp: read_read_def access_typed_def elim!: fieldE)

lemma fits_use: "fits accepts UseAccessSchema (of_object read_use) access_typed"
  unfolding UseAccessSchema_def
  by (rule fits_struct) (auto simp: read_use_def access_typed_def elim!: fieldE)

lemma fits_use_profile: "fits accepts ProfileUseAccessSchema (of_object read_use_profile)
    (\<lambda>i. pi_profileId i \<noteq> [] \<and> pi_action i = Act_use \<and> pi_purpose i \<noteq> Some [])"
  unfolding ProfileUseAccessSchema_def
  by (rule fits_struct) (auto simp: read_use_profile_def elim!: fieldE)

lemma fits_audit_query: "fits accepts AuditQueryInputSchema (of_object (read_audit_query number)) audit_query_typed"
  unfolding AuditQueryInputSchema_def
  by (rule fits_struct) (auto simp: read_audit_query_def audit_query_typed_def page_limit_def option.pred_set
      le_nat_iff nat_le_iff elim!: fieldE)

section \<open>Payloads, items, agents, grants\<close>

lemma fits_label: "fits accepts NonEmptyString (\<lambda>l. Option.bind (as_string l) (\<lambda>s. if s = [] then None else Some s)) (\<lambda>s. s \<noteq> [])"
  using fits_nonempty by (fastforce simp: fits_def)

lemma kinds_named: "list_all (\<lambda>s. kind_of_name s \<noteq> None) ITEM_KINDS"
  by (simp add: ITEM_KINDS_def)

lemma fits_kind: "fits accepts ItemKindSchema (\<lambda>l. Option.bind (as_string l) kind_of_name) (\<lambda>k. True)"
proof (unfold fits_def, intro allI impI)
  fix v
  assume "accepts ItemKindSchema v"
  then obtain s where "v = JStr s" "s \<in> set ITEM_KINDS" by (auto simp: ItemKindSchema_def literal split: json.splits)
  with kinds_named show "\<exists>a. Option.bind (as_string v) kind_of_name = Some a \<and> True"
    by (auto simp: list_all_iff simp del: kind_of_name.simps)
qed

lemma fits_tags: "fits accepts (SArray SString) as_strings (\<lambda>t. True)"
proof (unfold fits_def, intro allI impI)
  fix v
  assume "accepts (SArray SString) v"
  then obtain vs where "v = JArr vs" "list_all (accepts SString) vs" by (auto simp: array split: json.splits)
  moreover from this(2) have "list_all is_string vs"
    by (rule list.pred_mono_strong) (auto simp: string split: json.splits)
  ultimately show "\<exists>a. as_strings v = Some a \<and> True" by simp
qed

lemmas payloadE = requiredE [OF _ fits_record] optionalE [OF _ fits_int] optionalE [OF _ fits_label]
  optionalE [OF _ fits_kind] optionalE [OF _ fits_tags] optionalE [OF _ fits_string]

lemma fits_payload: "fits accepts item_payload_schema ItemPayloadSchema payload_typed"
proof -
  have "fits accepts item_payload_schema (of_object read_payload) payload_typed"
    unfolding item_payload_schema_def
    by (rule fits_struct)
      (auto simp: read_payload_def ItemPayloadSchema_def payload_typed_def required_def [symmetric] elim!: payloadE)
  then show ?thesis by (simp add: read_payload)
qed

lemmas itemE = fieldE requiredE [OF _ fits_payload]

lemma fits_create_item: "fits accepts CreateItemSchema (of_object read_create_item) create_item_typed"
  unfolding CreateItemSchema_def
proof (rule fits_union)
  show "fits accepts ZeroKnowledgeCreateItemSchema (of_object read_create_item) create_item_typed"
    unfolding ZeroKnowledgeCreateItemSchema_def
    by (rule fits_struct) (auto simp: read_create_item_def create_item_typed_def dest!: literal_field elim!: itemE)
  show "fits accepts ServerManagedCreateItemSchema (of_object read_create_item) create_item_typed"
    unfolding ServerManagedCreateItemSchema_def
    by (rule fits_struct) (auto simp: read_create_item_def create_item_typed_def dest!: literal_field elim!: itemE)
qed

lemma fits_update_item: "fits accepts UpdateItemSchema (of_object read_update_item) update_item_typed"
  unfolding UpdateItemSchema_def
proof (rule fits_union)
  show "fits accepts ZeroKnowledgeUpdateItemSchema (of_object read_update_item) update_item_typed"
    unfolding ZeroKnowledgeUpdateItemSchema_def
    by (rule fits_struct) (auto simp: read_update_item_def update_item_typed_def dest!: literal_field elim!: itemE)
  show "fits accepts ServerManagedUpdateItemSchema (of_object read_update_item) update_item_typed"
    unfolding ServerManagedUpdateItemSchema_def
    by (rule fits_struct) (auto simp: read_update_item_def update_item_typed_def dest!: literal_field elim!: itemE)
qed

lemma fits_update: "fits accepts UpdateItemInputEnvelopeSchema (of_object read_update) well_typed"
  unfolding UpdateItemInputEnvelopeSchema_def
  by (rule fits_struct) (auto simp: read_update_def elim!: fieldE requiredE [OF _ fits_update_item])

lemma fits_create_agent: "fits accepts CreateAgentSchema (of_object read_create_agent) create_agent_typed"
proof (unfold fits_def, intro allI impI)
  fix v
  assume a: "accepts CreateAgentSchema v"
  then have b: "accepts CreateAgentSchemaBase v" unfolding CreateAgentSchema_def by (rule filter_source)
  have "fits accepts CreateAgentSchemaBase (of_object read_create_agent)
      (\<lambda>i. name_text (ca_name i) \<and> pred_option (\<lambda>m. m = ''public_key_session'') (ca_authMethod i) \<and>
        pred_option jwk_text (ca_publicKey i))"
    unfolding CreateAgentSchemaBase_def
    by (rule fits_struct) (auto simp: read_create_agent_def elim!: fieldE)
  with b obtain i where i: "of_object read_create_agent v = Some i" "name_text (ca_name i)"
    "pred_option (\<lambda>m. m = ''public_key_session'') (ca_authMethod i)" "pred_option jwk_text (ca_publicKey i)"
    by (auto simp: fits_def)
  from i(1) obtain ob where ob: "v = JObj ob" "read_create_agent ob = Some i"
    by (auto simp: of_object_def split: json.splits)
  with a have "agent_credentials_ok (JObj ob)" by (simp add: CreateAgentSchema_def laws)
  with ob(2) i(4) have "\<not> (ca_publicKey i \<noteq> None \<and> ca_issueBootstrapToken i) \<and>
      pred_option (\<lambda>m. jsonDepth (JObj m) \<le> 8 \<and> js_length (JSON_stringify (JObj m)) \<le> 16384) (ca_metadata i)"
    by (rule agent_filter)
  with i show "\<exists>i. of_object read_create_agent v = Some i \<and> create_agent_typed i"
    by (auto simp: create_agent_typed_def)
qed

lemma capabilities_named: "set (map capability_name CAPABILITIES) \<subseteq> set (map snd capability_names)"
  by (auto simp: capability_names_def)

lemma fits_capabilities: "fits accepts CreatePermissionCapabilities (as_list (member_of capability_names))
    (\<lambda>cs. cs \<noteq> [] \<and> distinct cs)"
proof (unfold fits_def, intro allI impI)
  fix v
  assume a: "accepts CreatePermissionCapabilities v"
  then have "accepts (SNonEmptyArray CapabilitySchema) v"
    unfolding CreatePermissionCapabilities_def by (rule filter_source)
  then obtain vs where v: "v = JArr vs" "vs \<noteq> []" "list_all (accepts CapabilitySchema) vs"
    by (auto simp: nonempty split: json.splits)
  with a have d: "distinct vs" by (simp add: CreatePermissionCapabilities_def laws no_duplicates_def)
  from v(3) have "list_all (\<lambda>x. \<exists>c. x = JStr (capability_name c) \<and> member_of capability_names x = Some c) vs"
    by (rule list.pred_mono_strong) (use capability_read in \<open>auto simp: CapabilitySchema_def literal split: json.splits\<close>)
  from read_all_injective [OF this d] obtain cs where "read_all (member_of capability_names) vs = Some cs"
    "distinct cs" "length cs = length vs" by blast
  with v show "\<exists>cs. as_list (member_of capability_names) v = Some cs \<and> cs \<noteq> [] \<and> distinct cs" by auto
qed

lemma fits_create_permission:
  "fits accepts CreatePermissionSchema (of_object (read_create_permission date)) create_permission_typed"
  unfolding CreatePermissionSchema_def
proof (rule fits_union)
  show "fits accepts CreateItemPermissionSchema (of_object (read_create_permission date)) create_permission_typed"
    unfolding CreateItemPermissionSchema_def
  proof (rule fits_struct_closed)
    fix ob
    assume f: "list_all (\<lambda>(k, r, s). field_ok accepts r s (map_of ob k))
        [must ''agentId'' NonEmptyString, must ''itemId'' NonEmptyString, must ''capabilities'' CreatePermissionCapabilities,
         may ''expiresAt'' IsoDateString]"
      and "\<And>k. k \<notin> fst ` set [must ''agentId'' NonEmptyString, must ''itemId'' NonEmptyString,
        must ''capabilities'' CreatePermissionCapabilities, may ''expiresAt'' IsoDateString] \<Longrightarrow> map_of ob k = None"
    from this(2) [of "''profileId''"] have "map_of ob ''profileId'' = None" by simp
    with f show "\<exists>a. read_create_permission date ob = Some a \<and> create_permission_typed a"
      by (auto simp: read_create_permission_def create_permission_typed_def elim!: fieldE requiredE [OF _ fits_capabilities])
  qed simp
  show "fits accepts CreateProfilePermissionSchema (of_object (read_create_permission date)) create_permission_typed"
    unfolding CreateProfilePermissionSchema_def
    by (rule fits_struct)
      (auto simp: read_create_permission_def create_permission_typed_def elim!: fieldE requiredE [OF _ fits_capabilities],
       auto simp: required_def)
qed

section \<open>Procedures\<close>

lemma fits_map:
  assumes "fits accepts s (of_object f) P" "\<And>a. P a \<Longrightarrow> well_typed (R a)"
  shows "fits accepts s (of_object (map_option R \<circ> f)) well_typed"
  using assms by (fastforce simp: fits_def of_object_def split: json.splits)

lemma fits_one:
  assumes "fits accepts s as_string P" "\<And>a. P a \<Longrightarrow> well_typed (R a)"
  shows "fits accepts (SStruct [must k s]) (of_object (one_text k R)) well_typed"
  by (rule fits_struct) (auto simp: one_text_def assms(2) elim!: requiredE [OF _ assms(1)])

lemma fits_two:
  assumes "fits accepts s as_string P" "fits accepts t as_string Q" "k \<noteq> l" "\<And>a b. P a \<Longrightarrow> Q b \<Longrightarrow> well_typed (R a b)"
  shows "fits accepts (SStruct [must k s, must l t]) (of_object (two_texts k l R)) well_typed"
proof (rule fits_struct)
  fix ob
  assume "list_all (\<lambda>(k, r, s). field_ok accepts r s (map_of ob k)) [must k s, must l t]"
  then have f: "field_ok accepts True s (map_of ob k)" "field_ok accepts True t (map_of ob l)" by simp_all
  obtain a where a: "required as_string k ob = Some a" "P a" by (rule requiredE [OF f(1) assms(1)])
  obtain b where "required as_string l ob = Some b" "Q b" by (rule requiredE [OF f(2) assms(2)])
  with a assms(4) show "\<exists>r. two_texts k l R ob = Some r \<and> well_typed r" by (simp add: two_texts_def)
qed (use assms(3) in simp)

lemma fits_three:
  assumes "fits accepts s as_string P" "fits accepts t as_string Q" "fits accepts u as_string S"
    "distinct [k, l, m]" "\<And>a b c. P a \<Longrightarrow> Q b \<Longrightarrow> S c \<Longrightarrow> well_typed (R a b c)"
  shows "fits accepts (SStruct [must k s, must l t, must m u]) (of_object (three_texts k l m R)) well_typed"
proof (rule fits_struct)
  fix ob
  assume "list_all (\<lambda>(k, r, s). field_ok accepts r s (map_of ob k)) [must k s, must l t, must m u]"
  then have f: "field_ok accepts True s (map_of ob k)" "field_ok accepts True t (map_of ob l)"
    "field_ok accepts True u (map_of ob m)" by simp_all
  obtain a where a: "required as_string k ob = Some a" "P a" by (rule requiredE [OF f(1) assms(1)])
  obtain b where b: "required as_string l ob = Some b" "Q b" by (rule requiredE [OF f(2) assms(2)])
  obtain c where "required as_string m ob = Some c" "S c" by (rule requiredE [OF f(3) assms(3)])
  with a b assms(5) show "\<exists>r. three_texts k l m R ob = Some r \<and> well_typed r" by (simp add: three_texts_def)
qed (use assms(4) in simp)

lemmas fits_ids = fits_one [OF fits_nonempty] fits_one [OF fits_min1] fits_one [OF fits_profile_text]

lemma fits_create_org: "fits accepts CreateOrganizationSchema (of_object read_create_org) well_typed"
  unfolding CreateOrganizationSchema_def by (rule fits_struct) (auto simp: read_create_org_def elim!: fieldE)

lemma fits_update_org: "fits accepts UpdateOrganizationSchema (of_object read_update_org) well_typed"
  unfolding UpdateOrganizationSchema_def by (rule fits_struct) (auto simp: read_update_org_def elim!: fieldE)

lemma fits_invite: "fits accepts CreateInviteSchema (of_object read_invite) well_typed"
  unfolding CreateInviteSchema_def by (rule fits_struct) (auto simp: read_invite_def elim!: fieldE)

lemma fits_mount: "fits accepts MountAccessSchema (of_object read_mount) well_typed"
  unfolding MountAccessSchema_def by (rule fits_struct) (auto simp: read_mount_def read_legacy_def elim!: fieldE)

definition body_ok :: "input \<Rightarrow> body_reader \<Rightarrow> bool" where
  "body_ok i f = (case i of
       No_input \<Rightarrow> \<forall>ob. \<exists>r. f ob = Some r \<and> well_typed r
     | Input s \<Rightarrow> fits accepts s (of_object f) well_typed
     | Optional_input s \<Rightarrow> fits accepts s (of_object f) well_typed \<and> (\<exists>r. f [] = Some r \<and> well_typed r))"

definition reads :: "procedure \<Rightarrow> string \<times> body_reader \<Rightarrow> bool" where
  "reads p kf = (pr_path p = fst kf \<and> body_ok (pr_input p) (snd kf))"

lemma auth_reads: "list_all2 reads authRouter auth_bodies"
  by (auto simp: authRouter_def auth_bodies_def reads_def body_ok_def IssueAgentBootstrapTokenSchema_def EnrollAgentSchema_def
      CreateAgentChallengeSchema_def RevokeAgentSessionSchema_def
      intro!: fits_ids fits_two [OF fits_nonempty fits_jwk] fits_map [OF fits_exchange])

lemma profiles_reads: "list_all2 reads profilesRouter profiles_bodies"
  by (auto simp: profilesRouter_def profiles_bodies_def reads_def body_ok_def profiles_OrgIdSchema_def ProfileIdSchema_def
      ProfileSetupRecoverySchema_def bootstrap_is_password_change
      intro!: fits_ids fits_two [OF fits_profile_text fits_profile_text] fits_map [OF fits_create_profile]
        fits_map [OF fits_change_password] fits_map [OF fits_rotate])

lemma organizations_reads: "list_all2 reads organizationsRouter organizations_bodies"
  by (auto simp: organizationsRouter_def organizations_bodies_def reads_def body_ok_def CheckSlugSchema_def OrgIdSchema_def
      DeleteOrganizationSchema_def InviteTokenSchema_def RevokeInviteSchema_def RemoveMemberSchema_def
      UpdateMemberRoleSchema_def
      intro!: fits_ids [unfolded One_nat_def] fits_one [OF fits_slug [unfolded One_nat_def]] fits_create_org fits_update_org
        fits_invite fits_two [OF fits_min1 [unfolded One_nat_def] fits_min1 [unfolded One_nat_def]]
        fits_three [OF fits_min1 [unfolded One_nat_def] fits_min1 [unfolded One_nat_def] fits_min1 [unfolded One_nat_def]]
        fits_three [OF fits_min1 [unfolded One_nat_def] fits_min1 [unfolded One_nat_def] fits_role])

lemma items_reads: "list_all2 reads itemsRouter items_bodies"
  by (auto simp: itemsRouter_def items_bodies_def reads_def body_ok_def ItemIdSchema_def
      intro!: fits_ids [unfolded One_nat_def] fits_update fits_map [OF fits_create_item] fits_map [OF fits_list_query(1)])
    (auto simp: read_list_query_def optional_def)

lemma agents_reads: "list_all2 reads agentsRouter agents_bodies"
  by (auto simp: agentsRouter_def agents_bodies_def reads_def body_ok_def AgentIdSchema_def
      intro!: fits_ids [unfolded One_nat_def] fits_map [OF fits_create_agent] fits_map [OF fits_list_query(2)])
    (auto simp: read_list_query_def optional_def)

lemma fits_register: "fits accepts AgentRegisterAnonymousSchema (of_object (\<lambda>ob. Some Register_anonymous)) well_typed"
  unfolding AgentRegisterAnonymousSchema_def by (rule fits_struct) auto

lemma small_routers_read:
  "list_all2 reads onboardingRouter onboarding_bodies"
  "list_all2 reads agentRegistrationRouter registration_bodies"
  "list_all2 reads apiKeysRouter (keys_bodies date)"
  "list_all2 reads permissionsRouter (permissions_bodies date)"
  "list_all2 reads auditRouter (audit_bodies number)"
  by (auto simp: onboardingRouter_def onboarding_bodies_def agentRegistrationRouter_def registration_bodies_def
      apiKeysRouter_def keys_bodies_def permissionsRouter_def permissions_bodies_def auditRouter_def audit_bodies_def
      reads_def body_ok_def AgentClaimSchema_def AgentClaimCompleteSchema_def ApiKeyIdSchema_def PermissionIdSchema_def
      intro!: fits_ids [unfolded One_nat_def] fits_register fits_two [OF fits_nonempty fits_email]
        fits_two [OF fits_nonempty fits_otp] fits_map [OF fits_create_key] fits_map [OF fits_create_permission]
        fits_map [OF fits_permission_query] fits_map [OF fits_audit_query])

lemma access_reads: "list_all2 reads accessRouter access_bodies"
  by (auto simp: accessRouter_def access_bodies_def reads_def body_ok_def CiphertextAccessSchema_def BulkMountEnvSchema_def
      RedeemMountSchema_def
      intro!: fits_ids fits_mount fits_map [OF fits_reveal] fits_map [OF fits_read] fits_map [OF fits_use]
        fits_map [OF fits_use_profile])

lemma api_reads: "list_all2 reads appRouter (bodies date number)"
  unfolding appRouter_def bodies_def
  by (intro list_all2_appendI auth_reads profiles_reads organizations_reads items_reads agents_reads small_routers_read
      access_reads)

lemma reads_lookup:
  assumes "list_all2 reads ps bs" "find (\<lambda>p. pr_path p = path) ps = Some p"
  shows "\<exists>f. map_of bs path = Some f \<and> body_ok (pr_input p) f"
  using assms by (induction ps bs rule: list_all2_induct) (auto simp: reads_def split: if_splits)

lemma fits_object:
  assumes "fits accepts s (of_object f) P" "accepts s v"
  obtains ob a where "v = JObj ob" "f ob = Some a" "P a"
proof -
  from assms obtain a where "of_object f v = Some a" "P a" unfolding fits_def by blast
  then show ?thesis by (cases v) (auto simp: of_object_def intro: that)
qed

lemma body_read:
  assumes "body_ok i f" "input_accepted accepts i body"
  shows "\<exists>r. f (case body of Some (JObj ob) \<Rightarrow> ob | _ \<Rightarrow> []) = Some r \<and> well_typed r"
proof (cases i)
  case No_input
  with assms(1) show ?thesis by (simp add: body_ok_def)
next
  case (Input s)
  with assms obtain v where v: "body = Some v" "accepts s v" and f: "fits accepts s (of_object f) well_typed"
    by (cases body) (auto simp: body_ok_def input_accepted_def)
  show ?thesis by (rule fits_object [OF f v(2)]) (simp add: v(1))
next
  case (Optional_input s)
  with assms(1) have f: "fits accepts s (of_object f) well_typed" "\<exists>r. f [] = Some r \<and> well_typed r"
    by (simp_all add: body_ok_def)
  show ?thesis
  proof (cases body)
    case None
    with f(2) show ?thesis by simp
  next
    case (Some v)
    with assms(2) Optional_input have "accepts s v" by (simp add: input_accepted_def)
    from fits_object [OF f(1) this] Some show ?thesis by fastforce
  qed
qed

lemma accepted_is_read:
  assumes "procedure_of path = Some p" "input_accepted accepts (pr_input p) body"
  shows "\<exists>r. read_request date number path body = Some r \<and> well_typed r"
proof -
  obtain f where "map_of (bodies date number) path = Some f" "body_ok (pr_input p) f"
    using reads_lookup [OF api_reads] assms(1) unfolding procedure_of_def by blast
  with body_read [OF this(2) assms(2)] show ?thesis by (simp add: read_request_def)
qed

end

text \<open>C7: Type soundness of the API surface: for every procedure of every router, an input that the procedure's schema
  accepts is read into the handler's input, and that input has the lengths, patterns, enumerations, version numbers, page
  limits, distinct capabilities, key shapes and nesting depth which the handlers take for granted. The hypothesis is the
  documented behaviour of the schema library's combinators.\<close>

theorem accepted_requests_are_well_typed:
  assumes "effect_schema accepts number"
    and "procedure_of path = Some p"
    and "input_accepted accepts (pr_input p) body"
  shows "\<exists>r. read_request date number path body = Some r \<and> well_typed r"
  using effect_schema.accepted_is_read [OF assms(1) assms(2,3)] .

section \<open>A request\<close>

definition sample_grant :: json where
  "sample_grant = JObj [(''agentId'', JStr ''a1''), (''itemId'', JStr ''i1''),
     (''capabilities'', JArr [JStr ''read'', JStr ''use''])]"

lemma grant_procedure: "procedure_of ''permissions.create'' =
    Some \<lparr>pr_path = ''permissions.create'', pr_builder = ScopedSessionProcedure ''permissions:write'',
      pr_input = Input CreatePermissionSchema, pr_output = PermissionListResultSchema\<rparr>"
  by (simp add: procedure_of_def appRouter_def authRouter_def profilesRouter_def organizationsRouter_def onboardingRouter_def
      itemsRouter_def agentsRouter_def agentRegistrationRouter_def apiKeysRouter_def permissionsRouter_def)

lemma grant_accepted: "conforms (\<lambda>_. None) CreatePermissionSchema sample_grant"
  by code_simp

lemma accepted_requests_are_well_typed_witness:
  "\<exists>r. read_request (\<lambda>_. None) (\<lambda>_. None) ''permissions.create'' (Some sample_grant) = Some r \<and> well_typed r"
  by (rule accepted_requests_are_well_typed [OF decoder.effect_schema_axioms grant_procedure])
    (simp add: input_accepted_def grant_accepted)

text \<open>Both rows of the union at once, or a capability twice, is refused: the schemas are decoded strictly.\<close>

lemma ambiguous_grant_refused:
  "\<not> conforms (\<lambda>_. None) CreatePermissionSchema (JObj [(''agentId'', JStr ''a1''), (''itemId'', JStr ''i1''),
     (''profileId'', JStr ''p1''), (''capabilities'', JArr [JStr ''read''])])"
  "\<not> conforms (\<lambda>_. None) CreatePermissionSchema (JObj [(''agentId'', JStr ''a1''), (''itemId'', JStr ''i1''),
     (''capabilities'', JArr [JStr ''read'', JStr ''read''])])"
  by code_simp+

end
