(* ===== verification/Sdk_Properties.thy ===== *)
theory Sdk_Properties
  imports Sdk_Client Api_Types
begin

text \<open>
  What the SDK's clients promise: which of their methods the API serves, that a drained listing is complete, and how the
  background refresh of an agent's session ends.
\<close>

section \<open>The session of an agent\<close>

text \<open>\<open>connect\<close> is used as documented: when nothing of an earlier session is under way.\<close>

definition idle :: "sdk_agent \<Rightarrow> bool" where
  "idle s = (sg_inFlight s = [] \<and> sg_timer s = None)"

inductive used_agent :: "sdk_agent \<Rightarrow> bool" where
  fresh: "used_agent (sdk_agent now)"
| event: "used_agent s \<Longrightarrow> ev = Connect \<longrightarrow> idle s \<Longrightarrow> used_agent (sdk_step ev s)"

text \<open>At most one thing is under way: an exchange, or a timer for the next one.\<close>

definition one_chain :: "sdk_agent \<Rightarrow> bool" where
  "one_chain s =
     (length (sg_inFlight s) + (if sg_timer s = None then 0 else 1) \<le> 1 \<and>
      list_all (pred_option (\<lambda>k. k \<le> 5)) (sg_inFlight s) \<and> pred_option (\<lambda>(due, k). k \<le> 5) (sg_timer s) \<and>
      (sg_sessionExpired s \<longrightarrow> idle s))"

lemma exchange_ends_one:
  assumes "one_chain s"
  shows "one_chain (exchange_ends i r s)"
proof (cases "i < length (sg_inFlight s)")
  case True
  with assms obtain x where x: "sg_inFlight s = [x]" "i = 0" "sg_timer s = None" "\<not> sg_sessionExpired s"
    by (cases "sg_inFlight s") (auto simp: one_chain_def idle_def split: if_splits)
  let ?s = "s\<lparr>sg_inFlight := []\<rparr>"
  have "one_chain (exchange_ok token expiresAt ?s)" for token expiresAt
    using x by (simp add: one_chain_def exchange_ok_def armTimer_def scheduleRefreshFromExpiry_def)
  moreover have "one_chain (exchange_failed x ?s)"
    using x assms by (cases x) (auto simp: one_chain_def idle_def exchange_failed_def armTimer_def REFRESH_RETRY_SCHEDULE_MS_def)
  ultimately show ?thesis
    using x by (auto simp: exchange_ends_def remove_at_def Let_def split: option.split)
qed (use assms in \<open>simp add: exchange_ends_def\<close>)

lemma used_one_chain: "used_agent s \<Longrightarrow> one_chain s"
proof (induction rule: used_agent.induct)
  case (event s ev)
  then show ?case
  proof (cases ev)
    case (Exchange_ends i r)
    with event exchange_ends_one show ?thesis by simp
  qed (auto simp: one_chain_def idle_def connect_def fire_def disconnect_def split: option.splits prod.splits if_splits)
qed (simp add: one_chain_def idle_def sdk_agent_def)

text \<open>One round of a refresh that fails: the timer fires when it is due, the exchange ends with an error.\<close>

definition failing_round :: "sdk_agent \<Rightarrow> sdk_agent" where
  "failing_round s = (case sg_timer s of None \<Rightarrow> s
     | Some (due, k) \<Rightarrow> sdk_step (Exchange_ends 0 None) (sdk_step Timer (sdk_step (Pass (due - sg_now s)) s)))"

lemma failing_round_step:
  assumes "sg_inFlight s = []" "sg_timer s = Some (due, k)" "sg_now s \<le> due"
  shows "failing_round s = exchange_failed (Some k) (s\<lparr>sg_now := due, sg_timer := None, sg_inFlight := []\<rparr>)"
  using assms by (simp add: failing_round_def fire_def exchange_ends_def remove_at_def)

lemma failing_rounds:
  assumes "sg_inFlight s = []" "sg_timer s = Some (due, 0)" "sg_now s \<le> due" "\<not> sg_sessionExpired s" "k \<le> 5"
  shows "(failing_round ^^ k) s =
     s\<lparr>sg_now := (if k = 0 then sg_now s else due + sum_list (take (k - 1) REFRESH_RETRY_SCHEDULE_MS)),
       sg_timer := Some (due + sum_list (take k REFRESH_RETRY_SCHEDULE_MS), k)\<rparr>"
  using assms(5)
proof (induction k)
  case 0
  with assms(2) show ?case by simp
next
  case (Suc k)
  then have k: "k \<in> {0, 1, 2, 3, 4}" by auto
  have "(failing_round ^^ Suc k) s = failing_round ((failing_round ^^ k) s)" by simp
  also have "\<dots> = s\<lparr>sg_now := due + sum_list (take k REFRESH_RETRY_SCHEDULE_MS),
       sg_timer := Some (due + sum_list (take (Suc k) REFRESH_RETRY_SCHEDULE_MS), Suc k)\<rparr>"
    using Suc k assms(1,3)
    by (subst failing_round_step [of _ "due + sum_list (take k REFRESH_RETRY_SCHEDULE_MS)" k])
      (auto simp: exchange_failed_def armTimer_def REFRESH_RETRY_SCHEDULE_MS_def)
  finally show ?case by simp
qed

text \<open>C32: The background refresh of an SDK agent, used as documented, gives up: when the refresh and all its retries fail as soon
  as they start, the client is still usable after five failures and refuses every call after the sixth, 750 seconds
  after the first, with nothing left running, and it keeps refusing until \<open>connect\<close> is called.\<close>

theorem session_refresh_gives_up:
  assumes "used_agent s" "sg_timer s = Some (due, 0)" "sg_now s \<le> due"
  shows "\<not> sg_sessionExpired ((failing_round ^^ 5) s) \<and> sg_sessionExpired ((failing_round ^^ 6) s) \<and>
    idle ((failing_round ^^ 6) s) \<and> sg_now ((failing_round ^^ 6) s) = due + 750000 \<and>
    authedCall ((failing_round ^^ 6) s) operation = Inl session_refresh_failed \<and>
    (ev \<noteq> Connect \<longrightarrow> sg_sessionExpired (sdk_step ev ((failing_round ^^ 6) s)))"
proof -
  have s: "sg_inFlight s = []" "\<not> sg_sessionExpired s"
    using used_one_chain [OF assms(1)] assms(2) by (auto simp: one_chain_def idle_def)
  note five = failing_rounds [OF s(1) assms(2,3) s(2), of 5]
  have six: "(failing_round ^^ 6) s = s\<lparr>sg_now := due + 750000, sg_timer := None, sg_sessionExpired := True\<rparr>"
  proof -
    have "(failing_round ^^ 6) s = failing_round ((failing_round ^^ 5) s)"
      using funpow_add [of 1 5 failing_round] by (simp add: fun_eq_iff)
    also have "\<dots> = s\<lparr>sg_now := due + 750000, sg_timer := None, sg_sessionExpired := True\<rparr>"
      using five s(1) assms(3)
      by (subst failing_round_step [of _ "due + 750000" 5])
        (auto simp: exchange_failed_def REFRESH_RETRY_SCHEDULE_MS_def)
    finally show ?thesis .
  qed
  have "sg_sessionExpired (sdk_step ev ((failing_round ^^ 6) s))" if "ev \<noteq> Connect"
    using that six s(1) by (cases ev) (simp_all add: exchange_ends_def fire_def disconnect_def)
  then show ?thesis using five s six by (simp add: idle_def authedCall_def)
qed

text \<open>An agent that connected and whose first refresh is due.\<close>

definition sample_connected :: sdk_agent where
  "sample_connected = sdk_step (Exchange_ends 0 (Some (''abs_t'', 900000))) (sdk_step Connect (sdk_agent 0))"

lemma sample_connected_used: "used_agent sample_connected"
  unfolding sample_connected_def
  by (intro used_agent.event used_agent.fresh) (simp_all add: idle_def sdk_agent_def)

lemma session_refresh_gives_up_witness:
  "sg_sessionExpired ((failing_round ^^ 6) sample_connected) \<and> sg_now ((failing_round ^^ 6) sample_connected) = 1530000"
proof -
  have "sg_timer sample_connected = Some (780000, 0)" "sg_now sample_connected \<le> 780000"
    by (simp_all add: sample_connected_def sdk_agent_def connect_def exchange_ends_def remove_at_def exchange_ok_def
        scheduleRefreshFromExpiry_def armTimer_def)
  from session_refresh_gives_up [of sample_connected 780000 "\<lambda>_. Inr ()" Timer, OF sample_connected_used this]
  show ?thesis by simp
qed

text \<open>\<open>connect\<close> while a last retry is in flight: the retry fails after the new session was issued, and the client refuses calls
  although its token is fresh. \<open>disconnect\<close> does not stop an exchange in flight either: its end arms the timer again.\<close>

lemma stale_retry_expires_a_fresh_session:
  assumes "sg_inFlight s = [Some 5]"
  shows "let t = sdk_step (Exchange_ends 0 None) (sdk_step (Exchange_ends 1 (Some (token, expiresAt))) (sdk_step Connect s))
    in sg_token t = Some token \<and> authedCall t operation = Inl session_refresh_failed"
  using assms by (simp add: connect_def exchange_ends_def remove_at_def exchange_ok_def exchange_failed_def armTimer_def
      scheduleRefreshFromExpiry_def REFRESH_RETRY_SCHEDULE_MS_def authedCall_def Let_def)

lemma disconnect_does_not_stop_a_refresh:
  assumes "sg_inFlight s = [Some k]"
  shows "sg_timer (sdk_step (Exchange_ends 0 (Some (token, expiresAt))) (sdk_step Disconnect s)) \<noteq> None"
  using assms by (simp add: disconnect_def exchange_ends_def remove_at_def exchange_ok_def armTimer_def
      scheduleRefreshFromExpiry_def)

section \<open>Drained listings\<close>

text \<open>What the SDK's \<open>items.list\<close> returns, while the organisation has fewer items than the drainer may fetch.\<close>

lemma cursors_not_empty: "cursor_of us id_of x \<noteq> []" if "0 \<le> us x" "id_of x \<noteq> []"
  using decode_cursor_of [of us x id_of] that by (auto simp: decodeCursor_def)

lemma drain_read_page:
  assumes "pageable us id_of rows" "length (filter cond rows) < 100 * MAX_DRAIN_PAGES"
  shows "drainPages (\<lambda>c. list_page us id_of cond (Some DRAIN_PAGE_SIZE) c rows) = Inr (order_desc us id_of (filter cond rows))"
proof -
  have "x \<in> set (order_desc us id_of (filter cond rows)) \<Longrightarrow> cursor_of us id_of x \<noteq> []" for x
    using assms(1) by (intro cursors_not_empty) (auto simp: pageable_def)
  then show ?thesis
    using page.drain_all [of "(us, id_of, cond, Some DRAIN_PAGE_SIZE, rows)" MAX_DRAIN_PAGES] assms
    by (simp add: drainPages_def resolveLimit_def DRAIN_PAGE_SIZE_def MAX_PAGE_LIMIT_def)
qed

section \<open>Which methods the API serves\<close>

definition filled :: "string \<Rightarrow> bool" where
  "filled s = (1 \<le> js_length s)"

text \<open>Arguments of the kinds the methods declare, with the contents the server asks for.\<close>

definition sendable :: "string option \<Rightarrow> bool" where
  "sendable x = (case x of None \<Rightarrow> True | Some s \<Rightarrow> s = [] \<or> filled s)"

text \<open>\<open>AuditFilters\<close> is the type of the shared \<open>AuditQuerySchema\<close>; a cursor is one that the server returned.\<close>

definition audit_filters :: "(schema \<Rightarrow> json \<Rightarrow> bool) \<Rightarrow> json_object \<Rightarrow> bool" where
  "audit_filters accepts data =
     (accepts AuditQuerySchema (JObj data) \<and>
      list_all (\<lambda>(k, v). k = ''cursor'' \<longrightarrow> (case v of JStr c \<Rightarrow> digits_pattern c | _ \<Rightarrow> True)) data)"

primrec args_ok :: "(schema \<Rightarrow> json \<Rightarrow> bool) \<Rightarrow> sdk_call \<Rightarrow> bool" where
  "args_ok accepts (Orgs_create n s) = (title_text n \<and> pred_option slug_text s)"
| "args_ok accepts Orgs_create_personal = True"
| "args_ok accepts Orgs_list = True"
| "args_ok accepts (Orgs_get i) = filled i"
| "args_ok accepts (Orgs_update i n) = (filled i \<and> pred_option title_text n)"
| "args_ok accepts (Orgs_delete i n p) = (filled i \<and> filled n \<and> filled p)"
| "args_ok accepts (Profiles_create i n d m) =
     (filled i \<and> title_text n \<and> pred_option (\<lambda>m. m \<in> set STORAGE_MODES) m)"
| "args_ok accepts (Profiles_list i) = filled i"
| "args_ok accepts (Profiles_get i) = filled i"
| "args_ok accepts (Profiles_changePassword i data) = (filled i \<and> accepts ChangePasswordSchema (JObj data))"
| "args_ok accepts (Profiles_delete i) = filled i"
| "args_ok accepts (Items_create data) = accepts CreateItemSchema (JObj data)"
| "args_ok accepts (Items_list c) = True"
| "args_ok accepts (Items_get i) = filled i"
| "args_ok accepts (Items_update i data) = (filled i \<and> accepts UpdateItemSchema (JObj data))"
| "args_ok accepts (Items_delete i) = filled i"
| "args_ok accepts (Agents_create data) = accepts CreateAgentSchema (JObj data)"
| "args_ok accepts (Agents_list c) = True"
| "args_ok accepts (Agents_delete i) = filled i"
| "args_ok accepts (Permissions_create data) = accepts CreatePermissionSchema (JObj data)"
| "args_ok accepts (Permissions_list a i p c) = True"
| "args_ok accepts (Permissions_delete i) = filled i"
| "args_ok accepts (Audit_list data) = audit_filters accepts data"
| "args_ok accepts (OwnerReveal i) = filled i"
| "args_ok accepts (IssueBootstrapToken i) = filled i"
| "args_ok accepts (ListMembers i) = filled i"
| "args_ok accepts (InviteMember i r) = (filled i \<and> pred_option role_text r)"
| "args_ok accepts (GetInviteInfo t) = filled t"
| "args_ok accepts (AcceptInvite t) = filled t"
| "args_ok accepts (RevokeInvite i v) = (filled i \<and> filled v)"
| "args_ok accepts (RemoveMember i u) = (filled i \<and> filled u)"
| "args_ok accepts (UpdateMemberRole i u r) = (filled i \<and> filled u \<and> role_text r)"
| "args_ok accepts (BootstrapProfile i data) = (filled i \<and> accepts VaultBootstrapSchema (JObj data))"
| "args_ok accepts (SetupProfileRecovery i data) = (filled i \<and> accepts RecoverySetupSchema (JObj data))"
| "args_ok accepts (RotateProfileKey i data) = (filled i \<and> accepts RotateKeySchema (JObj data))"
| "args_ok accepts (Agent_challenge i) = filled i"
| "args_ok accepts (Agent_exchange i k c s) =
     (filled i \<and> filled k \<and> base64url_pattern c \<and> 8 \<le> js_length c \<and> js_length c \<le> 256 \<and>
      base64url_pattern s \<and> 86 \<le> js_length s \<and> js_length s \<le> 88)"
| "args_ok accepts (Agent_enroll t k) = (filled t \<and> jwk_text k)"
| "args_ok accepts Agent_self = True"
| "args_ok accepts (Agent_listItems c) = True"
| "args_ok accepts (Agent_getItem i) = filled i"
| "args_ok accepts (Agent_getAudit data) = audit_filters accepts data"
| "args_ok accepts (Agent_read i f p) = (filled i \<and> sendable f \<and> sendable p)"
| "args_ok accepts (Agent_use i d f e p) = (filled i \<and> sendable f \<and> sendable e \<and> sendable p)"
| "args_ok accepts (Agent_useProfile i d p) = (filled i \<and> sendable p)"
| "args_ok accepts (Agent_redeemMount m) = filled m"

text \<open>The methods that send a property the server does not know, leave out one it needs, or call a procedure that is not
  for agents.\<close>

definition out_of_step :: "sdk_call \<Rightarrow> bool" where
  "out_of_step c = (case c of
       RemoveMember _ _ \<Rightarrow> True
     | UpdateMemberRole _ _ _ \<Rightarrow> True
     | Permissions_list _ _ p _ \<Rightarrow> p \<noteq> None
     | Profiles_create _ _ _ m \<Rightarrow> m = None
     | Audit_list data \<Rightarrow> ''orgId'' \<in> fst ` set data
     | Agent_getAudit data \<Rightarrow> ''orgId'' \<in> fst ` set data
     | Agent_getItem _ \<Rightarrow> True
     | _ \<Rightarrow> False)"

definition served :: "(schema \<Rightarrow> json \<Rightarrow> bool) \<Rightarrow> sdk_call \<Rightarrow> bool" where
  "served accepts c = (args_ok accepts c \<longrightarrow> reaches_handler accepts c = (\<not> out_of_step c))"

lemmas routers = authRouter_def profilesRouter_def organizationsRouter_def onboardingRouter_def itemsRouter_def
  agentsRouter_def agentRegistrationRouter_def apiKeysRouter_def permissionsRouter_def accessRouter_def auditRouter_def

context effect_schema
begin

lemma struct_text: "struct_ok accepts fs ob \<Longrightarrow> accepts (SStruct fs) (JObj ob)"
  by (simp add: struct)

lemmas sdk_laws = laws struct_ok_def leaf_schemas given_def if_truthy_def sendable_def filled_def text1_def text2_def
  page_input_def DRAIN_PAGE_SIZE_def input_accepted_def admits_def of_agent_client_def reaches_handler_def out_of_step_def
  served_def

lemma orgs_served:
  "served accepts (Orgs_create n s)" "served accepts Orgs_create_personal" "served accepts Orgs_list"
    "served accepts (Orgs_get i)" "served accepts (Orgs_update i m)" "served accepts (Orgs_delete i n p)"
  by (auto simp: sdk_laws procedure_of_def appRouter_def routers CreateOrganizationSchema_def OrgIdSchema_def
      UpdateOrganizationSchema_def DeleteOrganizationSchema_def title_text_def slug_text_def split: option.split)

lemma struct_grown:
  assumes "struct_ok accepts fs data" "k \<notin> fst ` set fs" "accepts s (JStr v)"
  shows "struct_ok accepts ((k, r, s) # fs) (and_data k v data)"
proof -
  from assms(1,2) have k: "map_of data k = None" by (rule struct_excess)
  then have "k \<notin> fst ` set data" by (simp add: map_of_eq_None_iff)
  then have "l \<noteq> k" if "(l, x) \<in> set data" for l x using that by force
  then show ?thesis
    using assms k unfolding and_data_def struct_ok_def by (auto simp: list_all_iff map_of_eq_None_iff)
qed

lemma profile_data_accepted:
  assumes "filled i"
  shows "accepts ChangePasswordSchema (JObj data) \<Longrightarrow> accepts ProfileChangePasswordSchema (JObj (and_data ''profileId'' i data))"
    "accepts VaultBootstrapSchema (JObj data) \<Longrightarrow> accepts ProfileBootstrapSchema (JObj (and_data ''profileId'' i data))"
    "accepts RecoverySetupSchema (JObj data) \<Longrightarrow> accepts ProfileSetupRecoverySchema (JObj (and_data ''profileId'' i data))"
    "accepts RotateKeySchema (JObj data) \<Longrightarrow> accepts ProfileRotateKeySchema (JObj (and_data ''profileId'' i data))"
proof -
  have t: "accepts NonEmptyString (JStr i)" using assms by (simp add: NonEmptyString_def filled_def laws)
  have n: "profiles_NonEmptyString = NonEmptyString" by (simp add: profiles_NonEmptyString_def NonEmptyString_def)
  note grown = struct_grown [OF _ _ t, of _ data "''profileId''" True]
  show "accepts ChangePasswordSchema (JObj data) \<Longrightarrow> accepts ProfileChangePasswordSchema (JObj (and_data ''profileId'' i data))"
    unfolding ChangePasswordSchema_def ProfileChangePasswordSchema_def KdfParamsSchema_def n
    by (rule struct_text, rule grown) (simp_all add: struct)
  show "accepts VaultBootstrapSchema (JObj data) \<Longrightarrow> accepts ProfileBootstrapSchema (JObj (and_data ''profileId'' i data))"
    unfolding VaultBootstrapSchema_def ProfileBootstrapSchema_def KdfParamsSchema_def n
    by (rule struct_text, rule grown) (simp_all add: struct)
  show "accepts RecoverySetupSchema (JObj data) \<Longrightarrow> accepts ProfileSetupRecoverySchema (JObj (and_data ''profileId'' i data))"
    unfolding RecoverySetupSchema_def ProfileSetupRecoverySchema_def n
    by (rule struct_text, rule grown) (simp_all add: struct)
  show "accepts RotateKeySchema (JObj data) \<Longrightarrow> accepts ProfileRotateKeySchema (JObj (and_data ''profileId'' i data))"
    unfolding RotateKeySchema_def ProfileRotateKeySchema_def n
    by (rule struct_text, rule grown) (simp_all add: struct)
qed

lemma profiles_served:
  "served accepts (Profiles_create i n d m)" "served accepts (Profiles_list i)"
    "served accepts (Profiles_get i)" "served accepts (Profiles_changePassword i data)"
    "served accepts (Profiles_delete i)" "served accepts (BootstrapProfile i data)"
    "served accepts (SetupProfileRecovery i data)" "served accepts (RotateProfileKey i data)"
  by (auto simp: sdk_laws procedure_of_def appRouter_def routers CreateProfileSchema_def profiles_OrgIdSchema_def
      ProfileIdSchema_def title_text_def STORAGE_MODES_def profile_data_accepted [unfolded filled_def] split: option.splits)

lemma items_served:
  "served accepts (Items_create data)" "served accepts (Items_list k)" "served accepts (Items_get i)"
    "served accepts (Items_update i data)" "served accepts (Items_delete i)" "served accepts (OwnerReveal i)"
    "served accepts (Agent_listItems k)" "served accepts (Agent_getItem i)"
  by (auto simp: sdk_laws procedure_of_def appRouter_def routers ItemIdSchema_def ItemListQuerySchema_def
      UpdateItemInputEnvelopeSchema_def split: option.splits)

lemma agents_served:
  "served accepts (Agents_create data)" "served accepts (Agents_list k)" "served accepts (Agents_delete i)"
    "served accepts Agent_self" "served accepts (IssueBootstrapToken i)" "served accepts (Agent_challenge i)"
    "served accepts (Agent_exchange i l h s)" "served accepts (Agent_enroll t e)"
  by (auto simp: sdk_laws procedure_of_def appRouter_def routers AgentIdSchema_def AgentListQuerySchema_def
      IssueAgentBootstrapTokenSchema_def CreateAgentChallengeSchema_def ExchangeAgentSessionSchema_def EnrollAgentSchema_def
      jwk_text_def split: option.splits)

lemma members_served:
  "served accepts (ListMembers i)" "served accepts (InviteMember i r)" "served accepts (GetInviteInfo t)"
    "served accepts (AcceptInvite t)" "served accepts (RevokeInvite i v)" "served accepts (RemoveMember i u)"
    "served accepts (UpdateMemberRole i u q)"
  by (auto simp: sdk_laws procedure_of_def appRouter_def routers OrgIdSchema_def CreateInviteSchema_def InviteTokenSchema_def
      RevokeInviteSchema_def RemoveMemberSchema_def UpdateMemberRoleSchema_def role_text_def split: option.splits)

lemma limit_accepted:
  assumes "accepts (SFilter (SFilter SInt (AtLeast 1)) (AtMost 100)) v"
  obtains i where "v = JNum i" "1 \<le> i" "i \<le> 100"
proof -
  from assms have "accepts SInt v" by (auto dest: filter_source)
  then obtain i where "v = JNum i" by (auto simp: int split: json.splits)
  with assms that show ?thesis by (auto simp: filter fraction_def)
qed

lemma struct_wider:
  assumes "accepts (SStruct fs) (JObj data)" "list_all (\<lambda>(k, r, s). \<not> r) gs"
    and "\<And>k r s x. map_of fs k = Some (r, s) \<Longrightarrow> (k, x) \<in> set data \<Longrightarrow> accepts s x \<Longrightarrow>
      \<exists>r t. map_of gs k = Some (r, t) \<and> accepts t x"
  shows "accepts (SStruct gs) (JObj data)"
proof -
  have "case map_of gs k of None \<Rightarrow> False | Some (r, t) \<Rightarrow> accepts t x" if x: "(k, x) \<in> set data" for k x
  proof -
    from assms(1) x obtain r s where "map_of fs k = Some (r, s)" "accepts s x"
      by (fastforce simp: struct struct_ok_def list_all_iff split: option.splits)
    from assms(3) [OF this(1) x this(2)] show ?thesis by auto
  qed
  with assms(2) show ?thesis by (auto simp: struct struct_ok_def list_all_iff)
qed

lemma audit_filters_accepted:
  assumes "audit_filters accepts data"
  shows "accepts AuditQueryInputSchema (JObj data) = (''orgId'' \<notin> fst ` set data)"
proof
  assume "accepts AuditQueryInputSchema (JObj data)"
  then have "map_of data ''orgId'' = None"
    unfolding AuditQueryInputSchema_def by (simp only: struct json.case) (erule struct_excess, simp)
  then show "''orgId'' \<notin> fst ` set data" by (simp add: map_of_eq_None_iff)
next
  assume orgId: "''orgId'' \<notin> fst ` set data"
  have events: "accepts AuditEventTypeSchema x \<Longrightarrow> accepts (SLiteral AUDIT_EVENT_TYPE_FILTERS) x" for x
    by (auto simp: AuditEventTypeSchema_def AUDIT_EVENT_TYPE_FILTERS_def literal split: json.splits)
  have limit: "accepts (SFilter (SFilter SInt (AtLeast 1)) (AtMost 100)) x \<Longrightarrow>
      accepts (SFilter (SFilter (SFilter (SUnion [SNumber, SNumberFromString]) Integer) (AtLeast 1)) (AtMost 100)) x" for x
    by (erule limit_accepted) (simp add: filter fraction_def union number)
  have cursor: "accepts (SFilter SString (Pattern digits_pattern)) x" if "(''cursor'', x) \<in> set data" "accepts SString x" for x
    using assms that by (auto simp: audit_filters_def list_all_iff string filter fraction_def split: json.splits)
  have no: "(''orgId'', x) \<notin> set data" for x using orgId by force
  from assms have "accepts AuditQuerySchema (JObj data)" by (simp add: audit_filters_def)
  then show "accepts AuditQueryInputSchema (JObj data)"
    unfolding AuditQuerySchema_def AuditQueryInputSchema_def
    by (rule struct_wider) (simp, auto simp: no split: if_splits intro: events limit cursor)
qed

lemma permissions_served:
  "served accepts (Permissions_create data)" "served accepts (Permissions_list a i p k)"
    "served accepts (Permissions_delete w)" "served accepts (Audit_list data)"
    "served accepts (Agent_getAudit data)"
  by (auto simp: sdk_laws procedure_of_def appRouter_def routers PermissionListQuerySchema_def PermissionIdSchema_def
      audit_filters_accepted
      split: option.splits)

lemmas access_laws = sdk_laws procedure_of_def appRouter_def routers ReadAccessSchema_def UseAccessSchema_def
  ProfileUseAccessSchema_def RedeemMountSchema_def

lemma use_served: "served accepts (Agent_use i d f e p)"
  by (cases d; auto simp: access_laws split: option.splits)

lemma profile_use_served: "served accepts (Agent_useProfile i d p)"
  by (cases d; auto simp: access_laws split: option.splits)

lemma access_served: "served accepts (Agent_read i f p)" "served accepts (Agent_redeemMount m)"
  by (auto simp: access_laws split: option.splits)

lemma call_served: "served accepts c"
  by (cases c) (simp_all only: orgs_served profiles_served items_served agents_served members_served permissions_served
      access_served use_served profile_use_served)

end



end
