(* ===== verification/Spec2Isabelle.thy ===== *)
theory Spec2Isabelle
  imports Envelope_Properties Revocation Session_Properties Audit_Query Item_Properties Listings
    Org_Properties Registration_Properties Daemon_Properties Sdk_Properties
begin

text \<open>
  A model of abadge, a vault for the secrets that coding agents need. People keep items (secrets with a
  label) in profiles of an organisation; agents are granted capabilities on an item or on a whole
  profile, and fetch a secret through the API or through a daemon on the owner's machine. Items are either
  encrypted by the server under a key of the profile (\<open>server_managed\<close>) or encrypted by the client under a
  root key the server never sees (\<open>zero_knowledge\<close>).

  \<^bold>\<open>How a request is modelled.\<close> The API (\<open>packages/trpc/src/server\<close>) is written as generators over
  \<open>Effect\<close>. A handler is here a function of type \<open>'a server\<close> = \<open>world \<Rightarrow> (err + 'a) \<times> world\<close>, built with the combinators
  of \<open>Prelude\<close> in the order of the \<open>yield*\<close> of the code. The \<open>world\<close> (\<open>Server\<close>) holds the database (\<open>Tables\<close>: one record per row of
  \<open>packages/db/src/schema\<close>, one list per table), the clock, the source of random bytes and the faults of the
  database as arbitrary functions of a counter, and the module-level maps of the process. Every statement may fail; a
  transaction restores the store when its body fails; \<open>tryAsync\<close>, \<open>Effect.tapError\<close> and \<open>Effect.catchAll\<close> are combinators. Requests run one
  after the other: where the interleaving of two requests matters a step relation says so (\<open>Mount_Redeem\<close>, \<open>Item_Properties\<close>,
  \<open>Org_Properties\<close>, \<open>Daemon_Run\<close>) or a finding of the manifest does.

  \<^bold>\<open>Parts, in the order of the theories.\<close>
  \<^item> Vocabulary. \<open>Prelude\<close>: effects, JSON values, falsy tests. \<open>Js_Text\<close>: strings of the language on UTF-8 bytes. \<open>Core_Model\<close>
    (\<open>packages/core\<close>): capabilities, the capability matrix, errors. \<open>Json\<close>: \<open>JSON.stringify\<close> and \<open>JSON.parse\<close> with their round trip.
  \<^item> Storage. \<open>Tables\<close>, \<open>Foreign_Keys\<close> (what a deletion cascades to), \<open>Server\<close>, and \<open>Store_Invariant\<close>: the contract
    (locale \<open>db_invariant\<close>) by which a handler keeps an invariant of the store when its statements do.
  \<^item> Cryptography. \<open>Encoding\<close> and \<open>Base32\<close> (\<open>crypto/src/shared/encoding.ts\<close>; locale \<open>codec\<close>), \<open>Aad\<close> (\<open>aad.ts\<close>), \<open>Server_Crypto\<close> and \<open>Server_Envelope\<close>
    (\<open>server/encrypt.ts\<close>, \<open>server-envelope.ts\<close>), \<open>Zk_Crypto\<close> (\<open>client/keys.ts\<close>, \<open>items.ts\<close>, \<open>kdf.ts\<close>, with key buffers on a heap), and \<open>Envelope_Properties\<close>.
  \<^item> Audit. \<open>Audit_Log\<close> (\<open>audit.ts\<close>; locale \<open>audit_sink\<close>: a log entry changes nothing but the trail and cannot fail its
    caller), \<open>Audit_Query\<close> (\<open>routers/audit.ts\<close>, \<open>serialize.ts\<close>).
  \<^item> Callers. \<open>Roles\<close> (\<open>init.ts\<close>, \<open>owner-guards.ts\<close>), \<open>Agent_Auth\<close> (\<open>auth.ts\<close>, \<open>auth-optional-org.ts\<close>), \<open>Agent_Sessions\<close> (\<open>routers/auth.ts\<close>; locale
    \<open>single_use\<close>: a guarded update is won once, interpreted on enrollment tokens, challenges, personal keys, invitations and claims),
    \<open>Api_Keys\<close> (\<open>routers/api-keys.ts\<close> and the creation of agents), \<open>Registration\<close> (\<open>routers/agent-registration.ts\<close>), with \<open>Auth_Properties\<close>,
    \<open>Session_Properties\<close>, \<open>Registration_Properties\<close>.
  \<^item> Access. \<open>Constraints\<close> (\<open>access/constraints.ts\<close>, \<open>denial-hint.ts\<close>), \<open>Secret_Delivery\<close> (\<open>secret-delivery.ts\<close>, \<open>item-payload.ts\<close>, \<open>env-blocklist.ts\<close>),
    \<open>Access_Pipeline\<close> (\<open>access/pipeline.ts\<close>), \<open>Mount_Redeem\<close> and \<open>Legacy_Access\<close> (\<open>routers/access.ts\<close>), with \<open>Access_Properties\<close>.
  \<^item> Management. \<open>Permissions\<close>, \<open>Cascades\<close> (\<open>cascades.ts\<close> and the handlers that trigger them), \<open>Members\<close>, \<open>Profiles\<close>, \<open>Items\<close>, \<open>Listings\<close> over \<open>Pagination\<close>
    (locale \<open>keyset\<close>), \<open>Organizations\<close> (routers of the same names), with \<open>Item_Properties\<close> and \<open>Org_Properties\<close>. \<open>Revocation\<close> composes
    authentication, access and the cascades.
  \<^item> The surface. \<open>Schemas\<close> (\<open>core/src/schemas.ts\<close>): every request and response schema as a term; \<open>Schema_Laws\<close>: what the schema library
    documents of its combinators (locale \<open>effect_schema\<close>, met by the decoder \<open>conforms\<close>); \<open>Api_Schemas\<close>: the schemas of the routers and the
    table of all procedures (\<open>router.ts\<close>); \<open>Api_Requests\<close>: how an accepted input becomes the call of a handler; \<open>Api_Types\<close>.
  \<^item> The local daemon (\<open>packages/daemon\<close>). \<open>Vault_State\<close> (\<open>vault-state.ts\<close>), \<open>Daemon\<close> (\<open>server.ts\<close> and its helpers), \<open>Daemon_Run\<close> (the daemon as a
    machine whose events come in any order, also between the two halves of a handler that waits), \<open>Daemon_Properties\<close>.
  \<^item> The SDK (\<open>packages/sdk/src/client.ts\<close>). \<open>Sdk_Client\<close>: the request of every method, the drainer of paged listings, and the session of
    an agent's client as a machine (\<open>connect\<close>, the end of an exchange, the timer, \<open>disconnect\<close>); \<open>Sdk_Properties\<close> relates the requests to
    the table of procedures and the drainer to the listings.

  \<^bold>\<open>What the lemmas show.\<close>
  \<^item> Access: every answer of the pipeline rests on a live item, a permitted combination and an unexpired grant, down to the bearer token of the request; the pipeline refines a policy that decides
    without side effects; what the policy permits is granted; a refusal
    changes nothing but the trail; a mount handle is delivered at most once under any interleaving; a revoked agent, a removed member and a deleted item are out of reach.
  \<^item> Secrecy: an envelope opens at its own row only; a zero-knowledge item opens under its identity and key version only;
    round trips of envelopes, recovery keys and the change of password.
  \<^item> Keys in step: under any sequence of management requests the keys of the live zero-knowledge items of a profile are
    wrapped under its current version; a rotation rewraps every item; of two updates prepared on one version one is refused.
  \<^item> Callers: an identity comes from a live credential only; challenges, enrollment tokens, invitations and claims are used once;
    owners are made by owners only; an organisation keeps an owner; wrong guesses of a claim code are bounded.
  \<^item> The daemon: in every reachable state secrets are confined to the files and processes the operator asked
    for, nothing is decrypted while the vault is locked, and an idle vault locks.
  \<^item> Types: whatever the schema of a procedure accepts, its handler can read, and finds the lengths, patterns, versions and
    limits it takes for granted; and the SDK sends what those schemas accept, to procedures that admit its caller, with
    seven exceptions that are named.
  \<^item> Loops: the depth check of metadata computes the nesting depth, cut off at the limit; a client that follows the cursors of a listing sees every row once and stops; the
    background refresh of an SDK agent gives up after its retries and says so; a claim code is drawn when
    the source of randomness supplies enough bytes.

  \<^bold>\<open>Parameters.\<close> Code that is not in the repository is a parameter: the ciphers, hashes and signatures of
  WebCrypto (\<open>webcrypto\<close>, \<open>auth_runtime\<close>) and of the noble libraries (\<open>noble\<close>), the session library (\<open>better_auth\<close>, \<open>reauth_api\<close>), the mail
  binding (\<open>mail_env\<close>), the schema library (\<open>effect_schema\<close>), the daemon's operating system (its \<open>runtime\<close>) and the upper-case mapping of Unicode. What the code relies on is stated by
  predicates (\<open>aead_correct\<close>, \<open>aead_binding\<close>, \<open>hmac_length\<close>, \<open>hmac_committing\<close>, \<open>cipher_correct\<close> and their kin), and \<open>Samples\<close> and the witnesses have concrete
  functions that meet them. Collisions of hashes are excluded by hypothesis where a property needs it.

  \<^bold>\<open>Loops and fuel.\<close> Two loops of the code need not end and are partial functions whose value is \<open>None\<close> when they do
  not: the client that follows cursors (\<open>walk\<close>) and the drawing of a claim code (\<open>otp_loop\<close>); both have a theorem that they
  return. The parser of JSON has fuel for one step per byte of its input, which \<open>parse_stringify\<close> shows to be enough for
  every printed value. All other recursion is structural or has a termination proof.

  \<^bold>\<open>Not modelled.\<close> Human-readable messages and hints; the text of log lines; time stamps as ISO strings (they are
  milliseconds); indexes that are not unique; row-level security of the database, which the scoped queries do not rely
  on; the configuration of the session library (\<open>packages/auth/src/server.ts\<close>); the HTTP worker and its middleware (\<open>apps/api\<close>), which is
  transport; the MCP server and the command line (\<open>packages/mcp\<close>, \<open>cli\<close>), which wrap calls of the SDK and of the daemon
  in their transport and print the answers; the daemon's sockets and process files (\<open>lifecycle.ts\<close>, \<open>client.ts\<close>); the web
  dashboard (\<open>apps/web\<close>), a user interface.
\<close>

end
